(* ===== verification/Prelude.thy ===== *)
theory Prelude
  imports Complex_Main "HOL-Library.Word" "HOL-Library.Product_Lexorder"
    "HOL-Library.List_Lexorder" "HOL-Library.Char_ord" "HOL-Library.Multiset"
begin

section \<open>Shared vocabulary of the development\<close>

text \<open>
  This theory holds what every component uses: the exceptions of the source as values of one
  \<open>error\<close> type, the result type \<open>error + 'a\<close> with its sequencing operator, the fallible
  list combinators, the standard-library types (UUID, datetime) that occur in the contracts, and
  the interface locales of the reducers with the lemmas their clients share.
\<close>

named_theorems res_simps \<open>how a fallible computation can succeed\<close>

subsection \<open>Exceptions as values\<close>

text \<open>
  One constructor per exception class the modelled code raises. \<open>ValidationError\<close> is the
  wrapper that a model validator's \<open>ValueError\<close> is re-raised in; it is a subclass of
  \<open>ValueError\<close>, and so are the project's own error classes.
  \<open>InvalidOperation\<close> (decimal), \<open>IndexError\<close>, \<open>KeyError\<close>, \<open>AttributeError\<close>,
  \<open>AssertionError\<close> and \<open>OverflowError\<close> are not.
\<close>

datatype error =
    ValueError string
  | ValidationError string
  | OrderReductionError string
  | PortfolioReplayError string
  | ReplayError string
  | ConflictingEventError string
  | SequenceError string
  | EventConflictError string
  | InvalidTransition string
  | OperatorCommandRejected string int
  | ProjectionError string
  | InvalidOperation
  | IndexError
  | KeyError
  | AttributeError
  | AssertionError
  | OverflowError

type_synonym 'a res = "error + 'a"

fun is_value_error :: "error \<Rightarrow> bool" where
  "is_value_error InvalidOperation = False"
| "is_value_error IndexError = False"
| "is_value_error KeyError = False"
| "is_value_error AttributeError = False"
| "is_value_error AssertionError = False"
| "is_value_error OverflowError = False"
| "is_value_error _ = True"

definition bindE :: "'a res \<Rightarrow> ('a \<Rightarrow> 'b res) \<Rightarrow> 'b res" where
  "bindE m k = (case m of Inl e \<Rightarrow> Inl e | Inr x \<Rightarrow> k x)"

definition catch_value_error :: "'a res \<Rightarrow> error \<Rightarrow> 'a res" where
  "catch_value_error m e' =
     (case m of Inl e \<Rightarrow> Inl (if is_value_error e then e' else e) | Inr x \<Rightarrow> Inr x)"

definition is_ok :: "'a res \<Rightarrow> bool" where
  "is_ok m = (case m of Inl _ \<Rightarrow> False | Inr _ \<Rightarrow> True)"

fun error_text :: "error \<Rightarrow> string" where
  "error_text (ValueError m) = m"
| "error_text (ValidationError m) = m"
| "error_text (OrderReductionError m) = m"
| "error_text (PortfolioReplayError m) = m"
| "error_text (ReplayError m) = m"
| "error_text (ConflictingEventError m) = m"
| "error_text (SequenceError m) = m"
| "error_text (EventConflictError m) = m"
| "error_text (InvalidTransition m) = m"
| "error_text (OperatorCommandRejected m _) = m"
| "error_text (ProjectionError m) = m"
| "error_text _ = []"

text \<open>
  A model validator runs inside pydantic: its \<open>ValueError\<close> or \<open>AssertionError\<close> leaves the
  constructor as a \<open>ValidationError\<close>. The value carries the text of the first failing check
  (for a declared field constraint, the field's name). \<open>catch_validation_error\<close> is an
  \<open>except ValidationError\<close> clause.
\<close>

definition wrap_validation :: "'a res \<Rightarrow> 'a res" where
  "wrap_validation m =
     (case m of
        Inl e \<Rightarrow> Inl (if is_value_error e \<or> e = AssertionError
                      then ValidationError (error_text e) else e)
      | Inr x \<Rightarrow> Inr x)"

definition catch_validation_error :: "'a res \<Rightarrow> error \<Rightarrow> 'a res" where
  "catch_validation_error m e' =
     (case m of
        Inl e \<Rightarrow> Inl (case e of ValidationError _ \<Rightarrow> e' | _ \<Rightarrow> e)
      | Inr x \<Rightarrow> Inr x)"

lemma bindE_simps [simp]:
  "bindE (Inl e) k = Inl e"
  "bindE (Inr x) k = k x"
  by (simp_all add: bindE_def)

lemma catch_value_error_simps [simp]:
  "catch_value_error (Inr x) e' = Inr x"
  "catch_value_error (Inl e) e' = Inl (if is_value_error e then e' else e)"
  by (simp_all add: catch_value_error_def)

lemma wrap_validation_simps [simp]:
  "wrap_validation (Inr x) = Inr x"
  "wrap_validation (Inl (ValueError m)) = Inl (ValidationError m)"
  "wrap_validation (Inl (ValidationError m)) = Inl (ValidationError m)"
  by (simp_all add: wrap_validation_def)

lemma catch_validation_error_simps [simp]:
  "catch_validation_error (Inr x) e' = Inr x"
  "catch_validation_error (Inl (ValidationError m)) e' = Inl e'"
  "catch_validation_error (Inl (ValueError m)) e' = Inl (ValueError m)"
  by (simp_all add: catch_validation_error_def)

lemma is_ok_simps [simp]: "is_ok (Inr x)" "\<not> is_ok (Inl e)"
  by (simp_all add: is_ok_def)

lemma is_ok_iff: "is_ok m \<longleftrightarrow> (\<exists>x. m = Inr x)"
  by (cases m) auto

lemma bindE_cong [fundef_cong]:
  "m = m' \<Longrightarrow> (\<And>x. m' = Inr x \<Longrightarrow> k x = k' x) \<Longrightarrow> bindE m k = bindE m' k'"
  by (cases m') auto

lemma bindE_Inr_iff [res_simps]: "bindE m k = Inr y \<longleftrightarrow> (\<exists>x. m = Inr x \<and> k x = Inr y)"
  by (cases m) auto

lemma catch_Inr_iff [res_simps]: "catch_value_error m e = Inr y \<longleftrightarrow> m = Inr y"
  by (cases m) auto

lemma wrap_Inr_iff [res_simps]: "wrap_validation m = Inr y \<longleftrightarrow> m = Inr y"
  by (cases m) (auto simp: wrap_validation_def)

lemma catch_validation_Inr_iff [res_simps]: "catch_validation_error m e = Inr y \<longleftrightarrow> m = Inr y"
  by (cases m) (auto simp: catch_validation_error_def)

lemma if_Inl_Inr_iff [res_simps]: "(if c then Inl e else m) = Inr y \<longleftrightarrow> \<not> c \<and> m = Inr y"
  by auto

lemma bindE_Inl_iff: "bindE m k = Inl e \<longleftrightarrow> m = Inl e \<or> (\<exists>x. m = Inr x \<and> k x = Inl e)"
  by (cases m) auto

lemma bindE_assoc: "bindE (bindE m f) g = bindE m (\<lambda>x. bindE (f x) g)"
  by (cases m) auto

lemma bindE_Inr_right [simp]: "bindE m Inr = m"
  by (cases m) auto

subsection \<open>Fallible list traversals\<close>

text \<open>A comprehension whose element expression may raise, and a loop over a state that may.\<close>

fun mapE :: "('a \<Rightarrow> 'b res) \<Rightarrow> 'a list \<Rightarrow> 'b list res" where
  "mapE f [] = Inr []"
| "mapE f (x # xs) = bindE (f x) (\<lambda>y. bindE (mapE f xs) (\<lambda>ys. Inr (y # ys)))"

fun foldE :: "('s \<Rightarrow> 'a \<Rightarrow> 's res) \<Rightarrow> 's \<Rightarrow> 'a list \<Rightarrow> 's res" where
  "foldE f s [] = Inr s"
| "foldE f s (x # xs) = bindE (f s x) (\<lambda>s'. foldE f s' xs)"

lemma foldE_append: "foldE f s (xs @ ys) = bindE (foldE f s xs) (\<lambda>s'. foldE f s' ys)"
  by (induction xs arbitrary: s) (auto simp: bindE_assoc)

lemma foldE_Inr_appendE:
  assumes "foldE f s (xs @ ys) = Inr t"
  obtains s' where "foldE f s xs = Inr s'" "foldE f s' ys = Inr t"
  using assms by (auto simp: foldE_append res_simps)

lemma foldE_cong [fundef_cong]:
  "s = s' \<Longrightarrow> xs = ys \<Longrightarrow> (\<And>t x. x \<in> set ys \<Longrightarrow> f t x = g t x) \<Longrightarrow> foldE f s xs = foldE g s' ys"
  by (induction ys arbitrary: s s' xs) (auto intro: bindE_cong)

lemma foldE_invariant:
  assumes "\<And>s x s'. P s \<Longrightarrow> x \<in> set xs \<Longrightarrow> f s x = Inr s' \<Longrightarrow> P s'"
    and "P s" and "foldE f s xs = Inr t"
  shows "P t"
  using assms
proof (induction xs arbitrary: s)
  case Nil
  then show ?case by simp
next
  case (Cons x xs)
  from Cons.prems(3) obtain s' where s': "f s x = Inr s'" "foldE f s' xs = Inr t"
    by (auto simp: res_simps)
  have step: "P s \<Longrightarrow> y \<in> set xs \<Longrightarrow> f s y = Inr u \<Longrightarrow> P u" for s y u
    by (rule Cons.prems(1)) auto
  have "P s'" by (rule Cons.prems(1) [OF Cons.prems(2) _ s'(1)]) simp
  from step this s'(2) show ?case by (rule Cons.IH)
qed

lemma foldE_Inl: "foldE f s xs = Inl x \<Longrightarrow> (\<And>s y x. f s y = Inl x \<Longrightarrow> P x) \<Longrightarrow> P x"
  by (induction xs arbitrary: s) (auto simp: bindE_Inl_iff)

lemma mapE_Inl: "mapE f xs = Inl x \<Longrightarrow> (\<And>y x. f y = Inl x \<Longrightarrow> P x) \<Longrightarrow> P x"
  by (induction xs) (auto simp: bindE_Inl_iff)

lemma mapE_Inr_length: "mapE f xs = Inr ys \<Longrightarrow> length ys = length xs"
  by (induction xs arbitrary: ys) (auto simp: res_simps)

lemma mapE_append: "mapE f (xs @ ys) = bindE (mapE f xs) (\<lambda>as. bindE (mapE f ys) (\<lambda>bs. Inr (as @ bs)))"
  by (induction xs) (auto simp: bindE_assoc)

lemma mapE_map: "mapE f (map g xs) = mapE (\<lambda>x. f (g x)) xs"
  by (induction xs) auto

lemma mapE_cong: "(\<And>x. x \<in> set xs \<Longrightarrow> f x = g x) \<Longrightarrow> mapE f xs = mapE g xs"
  by (induction xs) auto

lemma mapE_Inr_nth: "mapE f xs = Inr ys \<Longrightarrow> i < length xs \<Longrightarrow> f (xs ! i) = Inr (ys ! i)"
  by (induction xs arbitrary: ys i) (auto simp: res_simps nth_Cons split: nat.splits)

lemma mapE_Inr_map: "(\<And>x. x \<in> set xs \<Longrightarrow> f x = Inr (g x)) \<Longrightarrow> mapE f xs = Inr (map g xs)"
  by (induction xs) auto

lemma mapE_Inr_set:
  "mapE f xs = Inr ys \<Longrightarrow> y \<in> set ys \<Longrightarrow> \<exists>x \<in> set xs. f x = Inr y"
  by (induction xs arbitrary: ys) (auto simp: res_simps)

lemma mapE_Inr_id: "(\<And>x y. x \<in> set xs \<Longrightarrow> f x = Inr y \<Longrightarrow> y = x) \<Longrightarrow> mapE f xs = Inr ys \<Longrightarrow> ys = xs"
  by (induction xs arbitrary: ys) (auto simp: res_simps)

subsection \<open>Reducers under at-least-once delivery\<close>

text \<open>
  The contract the reducers share: a valid state stays valid, an accepted event is remembered for
  good, and an event the state remembers is accepted without changing it. What follows from it
  holds for every reducer that meets it: whatever has been delivered may be delivered again, any
  number of times and in any order.
\<close>

locale replay_safe =
  fixes step :: "'s \<Rightarrow> 'e \<Rightarrow> 's res"
    and valid :: "'s \<Rightarrow> bool"
    and seen :: "'s \<Rightarrow> 'e \<Rightarrow> bool"
  assumes step_valid: "valid s \<Longrightarrow> step s e = Inr t \<Longrightarrow> valid t"
    and step_seen: "valid s \<Longrightarrow> step s e = Inr t \<Longrightarrow> seen t e"
    and seen_step: "valid s \<Longrightarrow> step s e = Inr t \<Longrightarrow> seen s d \<Longrightarrow> seen t d"
    and seen_noop: "valid s \<Longrightarrow> seen s e \<Longrightarrow> step s e = Inr s"
begin

lemma fold_valid: "valid s \<Longrightarrow> foldE step s es = Inr t \<Longrightarrow> valid t"
  by (rule foldE_invariant [where P = valid and f = step and xs = es and s = s]) (erule step_valid)

lemma fold_keeps_seen:
  assumes "valid s" "foldE step s es = Inr t" "seen s d"
  shows "seen t d"
  using assms
proof (induction es arbitrary: s)
  case (Cons x es)
  then obtain s' where s': "step s x = Inr s'" "foldE step s' es = Inr t" by (auto simp: res_simps)
  from step_valid [OF Cons.prems(1) s'(1)] s'(2) seen_step [OF Cons.prems(1) s'(1) Cons.prems(3)]
  show ?case by (rule Cons.IH)
qed simp

lemma fold_seen: "valid s \<Longrightarrow> foldE step s es = Inr t \<Longrightarrow> e \<in> set es \<Longrightarrow> seen t e"
proof (induction es arbitrary: s)
  case (Cons x es)
  then obtain s' where s': "step s x = Inr s'" "foldE step s' es = Inr t" by (auto simp: res_simps)
  note valid' = step_valid [OF Cons.prems(1) s'(1)]
  show ?case
  proof (cases "e = x")
    case True
    with step_seen [OF Cons.prems(1) s'(1)] valid' s'(2) show ?thesis by (auto intro: fold_keeps_seen)
  next
    case False
    with Cons.prems(3) have "e \<in> set es" by simp
    with valid' s'(2) show ?thesis by (rule Cons.IH)
  qed
qed simp

lemma seen_fold_noop: "valid s \<Longrightarrow> (\<And>d. d \<in> set ds \<Longrightarrow> seen s d) \<Longrightarrow> foldE step s ds = Inr s"
  by (induction ds) (auto simp: seen_noop)

lemma step_idempotent: "valid s \<Longrightarrow> step s e = Inr t \<Longrightarrow> step t e = Inr t"
  by (blast intro: seen_noop step_valid step_seen)

lemma redelivery_noop:
  assumes "valid s" "foldE step s es = Inr t" "set ds \<subseteq> set es"
  shows "foldE step s (es @ ds) = Inr t"
proof -
  have "foldE step t ds = Inr t"
    using assms by (intro seen_fold_noop fold_valid [OF assms(1,2)]) (auto intro: fold_seen)
  with assms(2) show ?thesis by (simp add: foldE_append)
qed

lemma duplicate_anywhere_noop:
  assumes "valid s" "foldE step s (es @ fs) = Inr t" "set ds \<subseteq> set es"
  shows "foldE step s (es @ ds @ fs) = Inr t"
proof -
  from assms(2) obtain u where u: "foldE step s es = Inr u" "foldE step u fs = Inr t"
    by (rule foldE_Inr_appendE)
  have "foldE step s (es @ ds) = Inr u" by (rule redelivery_noop [OF assms(1) u(1) assms(3)])
  with u(2) show ?thesis by (simp add: foldE_append flip: append_assoc)
qed

end

text \<open>A reducer some of whose states are final: nothing accepted afterwards changes them.\<close>

locale terminal_reducer = replay_safe +
  fixes terminal :: "'a \<Rightarrow> bool"
  assumes terminal_step: "valid s \<Longrightarrow> terminal s \<Longrightarrow> step s e = Inr t \<Longrightarrow> t = s"
begin

lemma terminal_fold: "valid s \<Longrightarrow> terminal s \<Longrightarrow> foldE step s es = Inr t \<Longrightarrow> t = s"
  by (induction es) (auto simp: res_simps dest: terminal_step)

end

subsection \<open>Dictionaries in insertion order\<close>

text \<open>
  A Python \<open>dict\<close> keeps its keys in first-insertion order and storing under an existing key
  replaces the value in place. It is modelled by an association list; a comprehension
  \<open>{key(x): x for x in xs}\<close> is \<open>dict_of key xs\<close>.
\<close>

fun dict_put :: "'k \<Rightarrow> 'v \<Rightarrow> ('k \<times> 'v) list \<Rightarrow> ('k \<times> 'v) list" where
  "dict_put k v [] = [(k, v)]"
| "dict_put k v ((k', v') # d) = (if k = k' then (k, v) # d else (k', v') # dict_put k v d)"

definition dict_of :: "('a \<Rightarrow> 'k) \<Rightarrow> 'a list \<Rightarrow> ('k \<times> 'a) list" where
  "dict_of key xs = foldl (\<lambda>d x. dict_put (key x) x d) [] xs"

lemma dict_put_get: "map_of (dict_put k v d) = (map_of d)(k \<mapsto> v)"
  by (induction d) (auto simp: fun_eq_iff)

lemma dict_put_keys: "fst ` set (dict_put k v d) = insert k (fst ` set d)"
proof (induction d)
  case Nil
  then show ?case by simp
next
  case (Cons a d)
  then show ?case by (cases a) (simp add: insert_commute)
qed

lemma dict_put_distinct: "distinct (map fst d) \<Longrightarrow> distinct (map fst (dict_put k v d))"
proof (induction d)
  case Nil
  then show ?case by simp
next
  case (Cons a d)
  then show ?case by (cases a) (simp add: dict_put_keys)
qed

lemma dict_put_append: "k \<notin> fst ` set d \<Longrightarrow> dict_put k v d = d @ [(k, v)]"
  by (induction d) auto

subsection \<open>Tables sorted by a unique key\<close>

text \<open>
  The contracts keep their collections as tuples sorted by a key without repetition and check
  \<open>keys == tuple(sorted(set(keys)))\<close>.
\<close>

definition sorted_unique :: "('a \<Rightarrow> 'k::linorder) \<Rightarrow> 'a list \<Rightarrow> bool" where
  "sorted_unique key xs = (map key xs = sort (remdups (map key xs)))"

lemma sorted_unique_iff: "sorted_unique key xs \<longleftrightarrow> sorted_wrt (<) (map key xs)"
proof
  assume *: "sorted_unique key xs"
  then have "sorted (map key xs)" and "distinct (map key xs)"
    unfolding sorted_unique_def by (metis sorted_sort, metis distinct_remdups distinct_sort)
  then show "sorted_wrt (<) (map key xs)"
    by (simp add: strict_sorted_iff)
next
  assume "sorted_wrt (<) (map key xs)"
  then show "sorted_unique key xs"
    by (simp add: sorted_unique_def strict_sorted_iff distinct_remdups_id sorted_sort_id)
qed

lemma sorted_unique_distinct: "sorted_unique key xs \<Longrightarrow> distinct (map key xs)"
  by (simp add: sorted_unique_iff strict_sorted_iff)

lemma sorted_unique_Nil [simp]: "sorted_unique key []"
  by (simp add: sorted_unique_iff)

lemma sorted_unique_singleton [simp]: "sorted_unique key [x]"
  by (simp add: sorted_unique_iff)

lemma sorted_unique_filter: "sorted_unique key xs \<Longrightarrow> sorted_unique key (filter P xs)"
  by (simp add: sorted_unique_iff sorted_wrt_map sorted_wrt_filter)

lemma sorted_unique_sort_key:
  "distinct (map key xs) \<Longrightarrow> sorted_unique key (sort_key key xs)"
  by (simp add: sorted_unique_iff strict_sorted_iff distinct_map)

lemma sorted_unique_inj: "sorted_unique key xs \<Longrightarrow> inj_on key (set xs)"
  using sorted_unique_distinct distinct_map by blast

lemma dict_of_distinct:
  "distinct (map key xs) \<Longrightarrow> dict_of key xs = map (\<lambda>x. (key x, x)) xs"
proof (induction xs rule: rev_induct)
  case Nil
  then show ?case by (simp add: dict_of_def)
next
  case (snoc x xs)
  then have "dict_of key xs = map (\<lambda>x. (key x, x)) xs" by simp
  then have "dict_of key (xs @ [x]) = dict_put (key x) x (map (\<lambda>x. (key x, x)) xs)"
    by (simp add: dict_of_def)
  also have "\<dots> = map (\<lambda>x. (key x, x)) xs @ [(key x, x)]"
    using snoc.prems by (intro dict_put_append) (auto simp: image_image)
  finally show ?case by simp
qed

text \<open>Traversals and sorting do not depend on the order of delivery.\<close>

lemma mapE_permute:
  assumes "mset xs = mset ys" "mapE f xs = Inr cs"
  shows "\<exists>ds. mapE f ys = Inr ds \<and> mset ds = mset cs"
proof -
  define g where "g x = projr (f x)" for x
  have ok: "f x = Inr (g x)" if x: "x \<in> set xs" for x
  proof -
    obtain i where "i < length xs" "x = xs ! i" using x by (auto simp: in_set_conv_nth)
    with mapE_Inr_nth [OF assms(2)] show ?thesis by (simp add: g_def)
  qed
  then have cs: "cs = map g xs" using mapE_Inr_map [of xs f g] assms(2) by simp
  have "set ys = set xs" using assms(1) by (rule mset_eq_setD [symmetric])
  then have "mapE f ys = Inr (map g ys)" using ok by (intro mapE_Inr_map) simp
  moreover have "mset (map g ys) = mset cs" unfolding cs mset_map using assms(1) by simp
  ultimately show ?thesis by blast
qed

lemma sort_key_permute:
  assumes "mset cs = mset ds" "distinct (map k cs)"
  shows "sort_key k cs = sort_key k ds"
proof -
  have "mset (map k (sort_key k cs)) = mset (map k (sort_key k ds))" using assms(1) by simp
  then have keys: "map k (sort_key k cs) = map k (sort_key k ds)"
    by (metis properties_for_sort sorted_sort_key)
  have "inj_on k (set (sort_key k cs) \<union> set (sort_key k ds))"
    using assms by (metis Un_absorb distinct_map mset_eq_setD set_sort)
  with keys show ?thesis by (rule map_inj_on)
qed

subsection \<open>Identifiers and times\<close>

text \<open>
  A UUID is a 128-bit value; the code orders UUIDs by \<open>.bytes\<close>, sixteen bytes big-endian,
  which is the unsigned order of the word.

  A \<open>datetime\<close> carries its calendar fields and its UTC offset (\<open>None\<close> for a naive
  value). Every comparison in the modelled code is between values that passed
  \<open>require_utc\<close>, where comparing instants is comparing the fields lexicographically.
\<close>

type_synonym uuid = "128 word"

record datetime =
  dt_year :: nat
  dt_month :: nat
  dt_day :: nat
  dt_hour :: nat
  dt_minute :: nat
  dt_second :: nat
  dt_micro :: nat
  dt_utcoffset :: "int option"

definition dt_key :: "datetime \<Rightarrow> nat \<times> nat \<times> nat \<times> nat \<times> nat \<times> nat \<times> nat" where
  "dt_key d = (dt_year d, dt_month d, dt_day d, dt_hour d, dt_minute d, dt_second d, dt_micro d)"

definition dt_le :: "datetime \<Rightarrow> datetime \<Rightarrow> bool" where
  "dt_le a b = (dt_key a \<le> dt_key b)"

definition dt_lt :: "datetime \<Rightarrow> datetime \<Rightarrow> bool" where
  "dt_lt a b = (dt_key a < dt_key b)"

definition require_utc :: "datetime \<Rightarrow> datetime res" where
  "require_utc value =
     (if dt_utcoffset value = None \<or> dt_utcoffset value \<noteq> Some 0
      then Inl (ValueError ''value must be a timezone-aware UTC datetime'')
      else Inr value)"

lemma require_utc_Inr_iff [res_simps]: "require_utc d = Inr d' \<longleftrightarrow> d' = d \<and> dt_utcoffset d = Some 0"
  by (auto simp: require_utc_def)

lemma dt_le_refl [simp]: "dt_le a a"
  by (simp add: dt_le_def)

lemma dt_le_trans: "dt_le a b \<Longrightarrow> dt_le b c \<Longrightarrow> dt_le a c"
  by (simp add: dt_le_def)

lemma dt_lt_iff_not_le: "dt_lt a b \<longleftrightarrow> \<not> dt_le b a"
  by (simp add: dt_le_def dt_lt_def not_le)

end
