(* ===== verification/Decimals.thy ===== *)
theory Decimals
  imports Prelude
begin

section \<open>The decimal and fraction arithmetic of the standard library\<close>

text \<open>
  Finite \<open>decimal.Decimal\<close> values are a sign, a coefficient and an exponent;
  \<open>as_tuple().digits\<close> are the decimal digits of the coefficient (\<open>(0,)\<close> for zero).
  \<open>fractions.Fraction\<close> is \<open>rat\<close>, its normalised numerator and denominator being
  \<open>quotient_of\<close>. Comparisons of finite decimals and equality are exact and numeric in
  Python, independent of the ambient context, and so they are here.
\<close>

record decimal =
  dsign :: bool
  dcoef :: nat
  dexp :: int

text \<open>An object handed to a validator that expects a finite Decimal.\<close>

datatype py_number = PyDecimal decimal | PyInfinite | PyNaN | PyOther

subsection \<open>Digits\<close>

fun as_digits :: "nat \<Rightarrow> nat list" where
  "as_digits n = (if n < 10 then [n] else as_digits (n div 10) @ [n mod 10])"

declare as_digits.simps [simp del]

definition coefficient_of :: "nat list \<Rightarrow> nat" where
  "coefficient_of ds = foldl (\<lambda>c d. c * 10 + d) 0 ds"

definition digits :: "decimal \<Rightarrow> nat list" where
  "digits d = as_digits (dcoef d)"

lemma coefficient_of_simps [simp]:
  "coefficient_of [] = 0"
  "coefficient_of (ds @ [d]) = coefficient_of ds * 10 + d"
  by (simp_all add: coefficient_of_def)

lemma coefficient_of_append:
  "coefficient_of (xs @ ys) = coefficient_of xs * 10 ^ length ys + coefficient_of ys"
proof (induction ys rule: rev_induct)
  case Nil
  then show ?case by simp
next
  case (snoc y ys)
  have "coefficient_of (xs @ ys @ [y]) = coefficient_of ((xs @ ys) @ [y])" by simp
  also have "\<dots> = coefficient_of (xs @ ys) * 10 + y" by (rule coefficient_of_simps)
  finally show ?case using snoc by (simp add: algebra_simps)
qed

lemma coefficient_of_Cons: "coefficient_of (x # xs) = x * 10 ^ length xs + coefficient_of xs"
  using coefficient_of_append [of "[x]" xs] by (simp add: coefficient_of_def)

lemma coefficient_of_replicate_0 [simp]: "coefficient_of (replicate n 0) = 0"
  by (induction n) (auto simp: coefficient_of_Cons coefficient_of_def)

lemma coefficient_of_as_digits [simp]: "coefficient_of (as_digits n) = n"
proof (induction n rule: as_digits.induct)
  case (1 n)
  show ?case
  proof (cases "n < 10")
    case True
    then show ?thesis by (simp add: as_digits.simps [of n] coefficient_of_def)
  next
    case False
    with 1 have "coefficient_of (as_digits (n div 10)) = n div 10" by simp
    with False show ?thesis by (simp add: as_digits.simps [of n])
  qed
qed

lemma as_digits_nonempty [simp]: "as_digits n \<noteq> []"
  by (subst as_digits.simps) simp

lemma as_digits_lt_10: "d \<in> set (as_digits n) \<Longrightarrow> d < 10"
proof (induction n rule: as_digits.induct)
  case (1 n)
  then show ?case by (cases "n < 10") (auto simp: as_digits.simps [of n])
qed

lemma coefficient_of_bound:
  "\<forall>d \<in> set ds. d < 10 \<Longrightarrow> coefficient_of ds < 10 ^ length ds"
proof (induction ds rule: rev_induct)
  case Nil
  then show ?case by simp
next
  case (snoc d ds)
  then have "coefficient_of ds + 1 \<le> 10 ^ length ds" "d < 10" by auto
  then have "(coefficient_of ds + 1) * 10 \<le> 10 ^ length ds * 10" by (intro mult_right_mono) auto
  with \<open>d < 10\<close> show ?case by (simp add: algebra_simps)
qed

lemma as_digits_bound: "n < 10 ^ length (as_digits n)"
  using coefficient_of_bound [of "as_digits n"] as_digits_lt_10 by auto

lemma as_digits_lower: "0 < n \<Longrightarrow> 10 ^ (length (as_digits n) - 1) \<le> n"
proof (induction n rule: as_digits.induct)
  case (1 n)
  show ?case
  proof (cases "n < 10")
    case True
    with 1 show ?thesis by (simp add: as_digits.simps [of n])
  next
    case False
    then have pos: "0 < n div 10" by simp
    with 1 False have "10 ^ (length (as_digits (n div 10)) - 1) \<le> n div 10" by simp
    then have "10 * 10 ^ (length (as_digits (n div 10)) - 1) \<le> n" by simp
    moreover have "length (as_digits n) - 1 = Suc (length (as_digits (n div 10)) - 1)"
      using False by (simp add: as_digits.simps [of n])
    ultimately show ?thesis by (simp only: power_Suc)
  qed
qed

lemma length_as_digits_le_iff:
  assumes "0 < n" and "0 < k"
  shows "length (as_digits n) \<le> k \<longleftrightarrow> n < 10 ^ k"
proof
  assume "length (as_digits n) \<le> k"
  then have "(10::nat) ^ length (as_digits n) \<le> 10 ^ k" by (intro power_increasing) auto
  with as_digits_bound [of n] show "n < 10 ^ k" by linarith
next
  assume "n < 10 ^ k"
  with as_digits_lower [OF assms(1)] have "(10::nat) ^ (length (as_digits n) - 1) < 10 ^ k"
    by linarith
  then have "length (as_digits n) - 1 < k" by (simp add: power_strict_increasing_iff)
  with \<open>0 < k\<close> show "length (as_digits n) \<le> k" by linarith
qed

lemma length_as_digits_mult_power:
  assumes "0 < n"
  shows "length (as_digits (n * 10 ^ k)) = length (as_digits n) + k"
proof (induction k)
  case 0
  then show ?case by simp
next
  case (Suc k)
  have "10 \<le> n * 10 ^ Suc k" using assms
    by (metis One_nat_def Suc_leI less_eq_nat.simps(1) mult_le_mono power_increasing_iff power_one_right
        nat_mult_1 one_less_numeral_iff semiring_norm(76) zero_less_Suc)
  then have "as_digits (n * 10 ^ Suc k) = as_digits (n * 10 ^ k) @ [0]"
    by (subst as_digits.simps) (auto simp: algebra_simps)
  with Suc show ?case by simp
qed

subsection \<open>Values, comparisons and sign operations\<close>

definition fraction :: "decimal \<Rightarrow> rat" where
  "fraction value =
     (let numerator = (if dsign value then - int (dcoef value) else int (dcoef value))
      in if 0 \<le> dexp value then of_int (numerator * 10 ^ nat (dexp value))
         else of_int numerator / of_int (10 ^ nat (- dexp value)))"

definition is_zero :: "decimal \<Rightarrow> bool" where
  "is_zero d = (dcoef d = 0)"

definition dec_eq :: "decimal \<Rightarrow> decimal \<Rightarrow> bool" where
  "dec_eq a b = (fraction a = fraction b)"

definition dec_lt :: "decimal \<Rightarrow> decimal \<Rightarrow> bool" where
  "dec_lt a b = (fraction a < fraction b)"

definition dec_le :: "decimal \<Rightarrow> decimal \<Rightarrow> bool" where
  "dec_le a b = (fraction a \<le> fraction b)"

definition dec_int :: "int \<Rightarrow> decimal" where
  "dec_int i = \<lparr>dsign = i < 0, dcoef = nat \<bar>i\<bar>, dexp = 0\<rparr>"

definition copy_negate :: "decimal \<Rightarrow> decimal" where
  "copy_negate d = d\<lparr>dsign := \<not> dsign d\<rparr>"

definition copy_abs :: "decimal \<Rightarrow> decimal" where
  "copy_abs d = d\<lparr>dsign := False\<rparr>"

definition apply_sign :: "bool \<Rightarrow> 'a::uminus \<Rightarrow> 'a" where
  "apply_sign s x = (if s then - x else x)"

lemma fraction_powi:
  "fraction d = apply_sign (dsign d) (of_nat (dcoef d)) * (10 powi dexp d)"
  by (simp add: fraction_def apply_sign_def Let_def power_int_def field_simps)

lemma fraction_zero_iff [simp]: "fraction d = 0 \<longleftrightarrow> is_zero d"
  by (auto simp: fraction_powi is_zero_def apply_sign_def)

lemma fraction_is_zero [simp]: "is_zero d \<Longrightarrow> fraction d = 0"
  by simp

lemma ten_powi_pos [simp]: "0 < (10::rat) powi e"
  by (simp add: zero_less_power_int)

lemma ten_powi_not_neg [simp]: "\<not> (10::rat) powi e < 0" "0 \<le> (10::rat) powi e"
  by (simp_all add: not_less zero_le_power_int)

lemma fraction_neg_iff: "fraction d < 0 \<longleftrightarrow> dsign d \<and> \<not> is_zero d"
  by (auto simp: fraction_powi is_zero_def apply_sign_def mult_less_0_iff)

lemma fraction_pos_iff: "0 < fraction d \<longleftrightarrow> \<not> dsign d \<and> \<not> is_zero d"
  by (auto simp: fraction_powi is_zero_def apply_sign_def zero_less_mult_iff)

lemma fraction_dec_int [simp]: "fraction (dec_int i) = of_int i"
  by (auto simp: fraction_def dec_int_def)

lemma fraction_copy_negate [simp]: "fraction (copy_negate d) = - fraction d"
  by (simp add: fraction_powi copy_negate_def apply_sign_def)

lemma fraction_copy_abs [simp]: "fraction (copy_abs d) = \<bar>fraction d\<bar>"
  by (simp add: fraction_powi copy_abs_def apply_sign_def abs_mult)

subsection \<open>The exact constructor\<close>

text \<open>
  \<open>Decimal((sign, digits, exponent))\<close> converts exactly under the maximal context of a 64-bit
  build and raises \<open>InvalidOperation\<close> when the result would need rounding: more than
  \<open>MAX_PREC\<close> digits, an adjusted exponent above \<open>MAX_EMAX\<close> or an exponent below
  \<open>MIN_ETINY\<close>. The exponent of a zero is clamped instead.
\<close>

definition MAX_PREC :: int where "MAX_PREC = 999999999999999999"
definition MAX_EMAX :: int where "MAX_EMAX = 999999999999999999"
definition MIN_ETINY :: int where "MIN_ETINY = - 1999999999999999997"

definition decimal_in_range :: "nat \<Rightarrow> int \<Rightarrow> bool" where
  "decimal_in_range c e =
     (let n = int (length (as_digits c))
      in n \<le> MAX_PREC \<and> e + n - 1 \<le> MAX_EMAX \<and> MIN_ETINY \<le> e)"

definition decimal_from_tuple :: "bool \<Rightarrow> nat list \<Rightarrow> int \<Rightarrow> decimal res" where
  "decimal_from_tuple s ds e =
     (let c = coefficient_of ds
      in if c = 0
         then Inr \<lparr>dsign = s, dcoef = 0, dexp = max MIN_ETINY (min MAX_EMAX e)\<rparr>
         else if decimal_in_range c e then Inr \<lparr>dsign = s, dcoef = c, dexp = e\<rparr>
         else Inl InvalidOperation)"

lemma decimal_from_tuple_fraction:
  "decimal_from_tuple s ds e = Inr d \<Longrightarrow>
     fraction d = apply_sign s (of_nat (coefficient_of ds)) * (10 powi e)"
  by (auto simp: decimal_from_tuple_def Let_def fraction_powi apply_sign_def split: if_splits)

lemma decimal_from_tuple_nonzero:
  "decimal_from_tuple s ds e = Inr d \<Longrightarrow> coefficient_of ds \<noteq> 0 \<Longrightarrow>
     d = \<lparr>dsign = s, dcoef = coefficient_of ds, dexp = e\<rparr>"
  by (auto simp: decimal_from_tuple_def Let_def split: if_splits)

lemma decimal_from_tuple_small_exp:
  "decimal_from_tuple s ds e = Inr d \<Longrightarrow> - 1000 \<le> e \<Longrightarrow> e \<le> 1000 \<Longrightarrow> dexp d = e"
  by (auto simp: decimal_from_tuple_def Let_def MIN_ETINY_def MAX_EMAX_def split: if_splits)

end
