(* ===== verification/Primitives.thy ===== *)
theory Primitives
  imports Decimals
begin

section \<open>Fixed-precision monetary primitives (packages/domain/primitives.py)\<close>

text \<open>
  Currencies and their registry, the exact scaled-integer and multiple tests on decimals, the
  value objects \<open>Money\<close>, \<open>Price\<close>, \<open>Quantity\<close>, \<open>OrderQuantity\<close> and the exact
  currency conversion. Each value object is a record and each \<open>__post_init__\<close> a constructor
  \<open>mk_...\<close> returning the object or the exception. Python object identity (\<open>is\<close>) on
  currencies is equality of records that carry the object's reference; dataclass equality
  compares the declared fields only.
\<close>

subsection \<open>Character classes of the identifier patterns\<close>

definition is_upper_char :: "char \<Rightarrow> bool" where
  "is_upper_char c = (CHR ''A'' \<le> c \<and> c \<le> CHR ''Z'')"

definition is_lower_char :: "char \<Rightarrow> bool" where
  "is_lower_char c = (CHR ''a'' \<le> c \<and> c \<le> CHR ''z'')"

definition is_digit_char :: "char \<Rightarrow> bool" where
  "is_digit_char c = (CHR ''0'' \<le> c \<and> c \<le> CHR ''9'')"

definition is_alnum_char :: "char \<Rightarrow> bool" where
  "is_alnum_char c = (is_upper_char c \<or> is_lower_char c \<or> is_digit_char c)"

text \<open>The shape \<open>^[first][rest]{0,n}$\<close> shared by the identifier patterns.\<close>

definition matches_head_tail :: "(char \<Rightarrow> bool) \<Rightarrow> (char \<Rightarrow> bool) \<Rightarrow> nat \<Rightarrow> string \<Rightarrow> bool" where
  "matches_head_tail h t n s =
     (case s of [] \<Rightarrow> False | c # cs \<Rightarrow> h c \<and> list_all t cs \<and> length cs \<le> n)"

definition currency_code_pattern :: "string \<Rightarrow> bool" where
  "currency_code_pattern =
     matches_head_tail is_upper_char (\<lambda>c. is_upper_char c \<or> is_digit_char c) 15"

definition registry_version_pattern :: "string \<Rightarrow> bool" where
  "registry_version_pattern =
     matches_head_tail is_alnum_char
       (\<lambda>c. is_alnum_char c \<or> c = CHR ''.'' \<or> c = CHR ''_'' \<or> c = CHR ''-'') 63"

subsection \<open>Currencies and the registry\<close>

datatype currency_type = FIAT | STABLECOIN | CRYPTO

record currency =
  cur_ref :: nat
  cur_code :: string
  cur_type :: currency_type
  cur_precision :: int
  cur_registry_version :: string

definition MAX_QUANTITY_COEFFICIENT_DIGITS :: int where
  "MAX_QUANTITY_COEFFICIENT_DIGITS = 128"

definition MAX_FINANCIAL_PRECISION :: int where
  "MAX_FINANCIAL_PRECISION = 18"

definition require_registry_version :: "string \<Rightarrow> string res" where
  "require_registry_version value =
     (if \<not> registry_version_pattern value
      then Inl (ValueError ''registry version must be a non-empty canonical identifier'')
      else Inr value)"

definition require_currency_code :: "string \<Rightarrow> string res" where
  "require_currency_code value =
     (if \<not> currency_code_pattern value
      then Inl (ValueError ''code must be a canonical uppercase currency code'')
      else Inr value)"

definition require_precision :: "int \<Rightarrow> int res" where
  "require_precision value =
     (if \<not> (0 \<le> value \<and> value \<le> MAX_FINANCIAL_PRECISION)
      then Inl (ValueError ''precision must be an integer from 0 through 18'')
      else Inr value)"

definition mk_currency :: "nat \<Rightarrow> string \<Rightarrow> currency_type \<Rightarrow> int \<Rightarrow> string \<Rightarrow> currency res" where
  "mk_currency ref code ty prec ver =
     bindE (require_currency_code code) (\<lambda>_.
     bindE (require_precision prec) (\<lambda>_.
     bindE (require_registry_version ver) (\<lambda>_.
     Inr \<lparr>cur_ref = ref, cur_code = code, cur_type = ty, cur_precision = prec,
          cur_registry_version = ver\<rparr>)))"

record currency_registry =
  reg_version :: string
  reg_currencies :: "currency list"
  reg_by_code :: "(string \<times> currency) list"

definition registry_step ::
  "string \<Rightarrow> (string \<times> currency) list \<Rightarrow> currency \<Rightarrow> (string \<times> currency) list res" where
  "registry_step version by_code c =
     (if cur_registry_version c \<noteq> version
      then Inl (ValueError ''currency registry version does not match registry version'')
      else if map_of by_code (cur_code c) \<noteq> None
      then Inl (ValueError (''duplicate currency code: '' @ cur_code c))
      else Inr (dict_put (cur_code c) c by_code))"

definition mk_registry :: "string \<Rightarrow> currency list \<Rightarrow> currency_registry res" where
  "mk_registry version currencies =
     bindE (require_registry_version version) (\<lambda>_.
     bindE (foldE (registry_step version) [] currencies) (\<lambda>by_code.
     Inr \<lparr>reg_version = version, reg_currencies = currencies, reg_by_code = by_code\<rparr>))"

definition resolve :: "currency_registry \<Rightarrow> string \<Rightarrow> currency res" where
  "resolve reg code =
     bindE (catch_value_error (require_currency_code code)
              (ValueError ''currency code must be a canonical currency code'')) (\<lambda>canonical_code.
     case map_of (reg_by_code reg) canonical_code of
       None \<Rightarrow> Inl (ValueError (''unknown currency code: '' @ canonical_code))
     | Some c \<Rightarrow> Inr c)"

definition is_registered :: "currency_registry \<Rightarrow> currency \<Rightarrow> bool" where
  "is_registered reg c = (map_of (reg_by_code reg) (cur_code c) = Some c)"

definition USD :: currency where
  "USD = \<lparr>cur_ref = 0, cur_code = ''USD'', cur_type = FIAT, cur_precision = 2,
          cur_registry_version = ''currency-v1''\<rparr>"

definition USDT :: currency where
  "USDT = \<lparr>cur_ref = 1, cur_code = ''USDT'', cur_type = STABLECOIN, cur_precision = 6,
           cur_registry_version = ''currency-v1''\<rparr>"

definition BTC :: currency where
  "BTC = \<lparr>cur_ref = 2, cur_code = ''BTC'', cur_type = CRYPTO, cur_precision = 8,
          cur_registry_version = ''currency-v1''\<rparr>"

definition ETH :: currency where
  "ETH = \<lparr>cur_ref = 3, cur_code = ''ETH'', cur_type = CRYPTO, cur_precision = 18,
          cur_registry_version = ''currency-v1''\<rparr>"

definition DEFAULT_CURRENCY_REGISTRY :: currency_registry where
  "DEFAULT_CURRENCY_REGISTRY =
     \<lparr>reg_version = ''currency-v1'', reg_currencies = [USD, USDT, BTC, ETH],
      reg_by_code = [(''USD'', USD), (''USDT'', USDT), (''BTC'', BTC), (''ETH'', ETH)]\<rparr>"

definition require_finite_decimal :: "py_number \<Rightarrow> string \<Rightarrow> decimal res" where
  "require_finite_decimal value field_name =
     (case value of
        PyOther \<Rightarrow> Inl (ValueError (field_name @ '' must be a Decimal instance''))
      | PyInfinite \<Rightarrow> Inl (ValueError (field_name @ '' must be finite''))
      | PyNaN \<Rightarrow> Inl (ValueError (field_name @ '' must be finite''))
      | PyDecimal d \<Rightarrow> Inr d)"

definition require_currency :: "currency \<Rightarrow> currency res" where
  "require_currency value =
     (if \<not> is_registered DEFAULT_CURRENCY_REGISTRY value
      then Inl (ValueError ''currency must be a registered Currency identity'')
      else Inr value)"

subsection \<open>Exact decimal arithmetic on tuples\<close>

definition decimal_coefficient_and_exponent :: "decimal \<Rightarrow> nat \<times> int" where
  "decimal_coefficient_and_exponent value =
     (foldl (\<lambda>coefficient digit. coefficient * 10 + digit) 0 (digits value), dexp value)"

definition decimal_to_scaled_integer :: "decimal \<Rightarrow> int \<Rightarrow> int res" where
  "decimal_to_scaled_integer value precision =
     bindE (require_finite_decimal (PyDecimal value) ''value'') (\<lambda>exact_value.
     bindE (require_precision precision) (\<lambda>exact_precision.
     if is_zero exact_value then Inr 0
     else
       let ds = digits exact_value;
           scale_delta = dexp exact_value + exact_precision
       in bindE
            (if scale_delta \<ge> 0
             then (if int (length ds) + scale_delta > MAX_QUANTITY_COEFFICIENT_DIGITS
                   then Inl (ValueError ''scaled integer exceeds maximum supported magnitude'')
                   else Inr ds)
             else
               let removed = - scale_delta
               in if removed > int (length ds)
                     \<or> list_ex (\<lambda>digit. digit \<noteq> 0) (drop (length ds - nat removed) ds)
                  then Inl (ValueError ''value cannot be represented exactly at precision'')
                  else let retained = take (length ds - nat removed) ds
                       in if int (length retained) > MAX_QUANTITY_COEFFICIENT_DIGITS
                          then Inl (ValueError ''scaled integer exceeds maximum supported magnitude'')
                          else Inr retained)
            (\<lambda>retained_digits.
               let scaled = int (foldl (\<lambda>c d. c * 10 + d) 0 retained_digits);
                   scaled = (if scale_delta > 0 then scaled * 10 ^ nat scale_delta else scaled)
               in Inr (if dsign exact_value \<and> scaled \<noteq> 0 then - scaled else scaled))))"

fun integer_digits_loop :: "nat \<Rightarrow> nat list \<Rightarrow> nat list" where
  "integer_digits_loop value reversed_digits =
     (if value = 0 then reversed_digits
      else integer_digits_loop (value div 10) (reversed_digits @ [value mod 10]))"

declare integer_digits_loop.simps [simp del]

definition integer_digits :: "nat \<Rightarrow> nat list" where
  "integer_digits value = (if value = 0 then [0] else rev (integer_digits_loop value []))"

definition multiply_decimals_exact :: "decimal \<Rightarrow> decimal \<Rightarrow> decimal res" where
  "multiply_decimals_exact left right =
     (let (left_coefficient, left_exponent) = decimal_coefficient_and_exponent left;
          (right_coefficient, right_exponent) = decimal_coefficient_and_exponent right;
          ds = integer_digits (left_coefficient * right_coefficient)
      in case decimal_from_tuple (dsign left \<noteq> dsign right) ds (left_exponent + right_exponent) of
           Inl _ \<Rightarrow> Inl (ValueError ''exact result is outside the supported Decimal range'')
         | Inr d \<Rightarrow> Inr d)"

function reduce_trailing_loop :: "nat list \<Rightarrow> int \<Rightarrow> int \<Rightarrow> (nat list \<times> int) res" where
  "reduce_trailing_loop ds exponent minimum_exponent =
     (if exponent < minimum_exponent
      then (if ds = [] then Inl IndexError
            else if last ds = 0
            then reduce_trailing_loop (butlast ds) (exponent + 1) minimum_exponent
            else Inr (ds, exponent))
      else Inr (ds, exponent))"
  by pat_completeness auto
termination
  by (relation "measure (\<lambda>(ds, _, _). length ds)") (auto simp: length_greater_0_conv)

declare reduce_trailing_loop.simps [simp del]

definition reduce_fractional_trailing_zeros_to_precision :: "decimal \<Rightarrow> int \<Rightarrow> decimal res" where
  "reduce_fractional_trailing_zeros_to_precision value precision =
     (if is_zero value then decimal_from_tuple False [0] (- precision)
      else bindE (reduce_trailing_loop (digits value) (dexp value) (- precision)) (\<lambda>(ds, exponent).
           decimal_from_tuple (dsign value) ds exponent))"

fun strip_tens :: "nat \<Rightarrow> nat \<Rightarrow> nat" where
  "strip_tens q 0 = 0"
| "strip_tens q (Suc required) =
     (if q mod 10 = 0 then strip_tens (q div 10) required else Suc required)"

fun strip_factor :: "nat \<Rightarrow> nat \<Rightarrow> nat \<Rightarrow> nat" where
  "strip_factor factor denominator 0 = denominator"
| "strip_factor factor denominator (Suc available) =
     (if denominator mod factor = 0 then strip_factor factor (denominator div factor) available
      else denominator)"

definition is_exact_decimal_multiple :: "decimal \<Rightarrow> decimal \<Rightarrow> bool res" where
  "is_exact_decimal_multiple value increment =
     (if dec_le increment (dec_int 0) then Inl (ValueError ''increment must be positive'')
      else if is_zero value then Inr True
      else
        let (value_coefficient, value_exponent) = decimal_coefficient_and_exponent value;
            (increment_coefficient, increment_exponent) =
              decimal_coefficient_and_exponent increment;
            exponent_delta = value_exponent - increment_exponent
        in if exponent_delta < 0
           then (if value_coefficient mod increment_coefficient \<noteq> 0 then Inr False
                 else Inr (strip_tens (value_coefficient div increment_coefficient)
                             (nat (- exponent_delta)) = 0))
           else
             let denominator = increment_coefficient div gcd value_coefficient increment_coefficient;
                 denominator = strip_factor 2 denominator (nat exponent_delta);
                 denominator = strip_factor 5 denominator (nat exponent_delta)
             in Inr (denominator = 1))"

subsection \<open>Value objects\<close>

record money =
  m_amount :: decimal
  m_currency :: currency

definition mk_money :: "py_number \<Rightarrow> currency \<Rightarrow> money res" where
  "mk_money amount currency =
     bindE (require_finite_decimal amount ''amount'') (\<lambda>a.
     bindE (require_currency currency) (\<lambda>c.
     if max 0 (- dexp a) > cur_precision c
     then Inl (ValueError ''amount scale exceeds currency precision'')
     else Inr \<lparr>m_amount = a, m_currency = currency\<rparr>))"

record price =
  p_amount :: decimal
  p_currency :: currency

definition mk_price :: "py_number \<Rightarrow> currency \<Rightarrow> price res" where
  "mk_price amount currency =
     bindE (require_finite_decimal amount ''amount'') (\<lambda>a.
     bindE (require_currency currency) (\<lambda>_.
     if dec_le a (dec_int 0) then Inl (ValueError ''price amount must be positive'')
     else Inr \<lparr>p_amount = a, p_currency = currency\<rparr>))"

fun trailing_zero_count :: "nat list \<Rightarrow> nat" where
  "trailing_zero_count [] = 0"
| "trailing_zero_count [d] = 0"
| "trailing_zero_count (d # ds) = (if d \<noteq> 0 then 0 else Suc (trailing_zero_count ds))"

definition normalize_quantity :: "py_number \<Rightarrow> int \<Rightarrow> decimal res" where
  "normalize_quantity value precision =
     bindE (require_finite_decimal value ''value'') (\<lambda>exact_value.
     bindE (require_precision precision) (\<lambda>exact_precision.
     let target_exponent = - exact_precision
     in if is_zero exact_value then decimal_from_tuple False [0] target_exponent
        else
          let raw = digits exact_value;
              zeros = trailing_zero_count (rev raw);
              ds = (if zeros \<noteq> 0 then take (length raw - zeros) raw else raw);
              exponent = (if zeros \<noteq> 0 then dexp exact_value + int zeros else dexp exact_value);
              fractional_digits = max 0 (- exponent)
          in if fractional_digits > exact_precision
             then Inl (ValueError ''value has more fractional digits than precision'')
             else if int (length ds) + (exponent - target_exponent)
                       > MAX_QUANTITY_COEFFICIENT_DIGITS
             then Inl (ValueError ''value exceeds maximum quantity magnitude'')
             else decimal_from_tuple (dsign exact_value)
                    (ds @ replicate (nat (exponent - target_exponent)) 0) target_exponent))"

record quantity =
  q_value :: decimal
  q_precision :: int

definition mk_quantity :: "py_number \<Rightarrow> int \<Rightarrow> quantity res" where
  "mk_quantity value precision =
     bindE (normalize_quantity value precision) (\<lambda>v.
     Inr \<lparr>q_value = v, q_precision = precision\<rparr>)"

record order_quantity =
  oq_value :: decimal
  oq_precision :: int

definition mk_order_quantity :: "py_number \<Rightarrow> int \<Rightarrow> order_quantity res" where
  "mk_order_quantity value precision =
     bindE (require_finite_decimal value ''value'') (\<lambda>v.
     if dec_lt v (dec_int 0) then Inl (ValueError ''order quantity must be non-negative'')
     else bindE (normalize_quantity (PyDecimal v) precision) (\<lambda>n.
          Inr \<lparr>oq_value = n, oq_precision = precision\<rparr>))"

text \<open>Dataclass equality compares the amounts numerically.\<close>

definition currency_eq :: "currency \<Rightarrow> currency \<Rightarrow> bool" where
  "currency_eq a b =
     (cur_code a = cur_code b \<and> cur_type a = cur_type b \<and> cur_precision a = cur_precision b
      \<and> cur_registry_version a = cur_registry_version b)"

definition money_eq :: "money \<Rightarrow> money \<Rightarrow> bool" where
  "money_eq a b = (dec_eq (m_amount a) (m_amount b) \<and> currency_eq (m_currency a) (m_currency b))"

definition price_eq :: "price \<Rightarrow> price \<Rightarrow> bool" where
  "price_eq a b = (dec_eq (p_amount a) (p_amount b) \<and> currency_eq (p_currency a) (p_currency b))"

definition quantity_eq :: "quantity \<Rightarrow> quantity \<Rightarrow> bool" where
  "quantity_eq a b = (dec_eq (q_value a) (q_value b) \<and> q_precision a = q_precision b)"

definition order_quantity_eq :: "order_quantity \<Rightarrow> order_quantity \<Rightarrow> bool" where
  "order_quantity_eq a b = (dec_eq (oq_value a) (oq_value b) \<and> oq_precision a = oq_precision b)"

record currency_conversion =
  cc_source :: money
  cc_target_currency :: currency
  cc_rate :: decimal
  cc_target :: money

definition mk_currency_conversion ::
  "money \<Rightarrow> currency \<Rightarrow> py_number \<Rightarrow> money \<Rightarrow> currency_conversion res" where
  "mk_currency_conversion source target_currency rate target =
     bindE (require_currency target_currency) (\<lambda>tc.
     bindE (require_finite_decimal rate ''rate'') (\<lambda>r.
     if dec_le r (dec_int 0) then Inl (ValueError ''rate must be positive'')
     else if m_currency source = tc
     then Inl (ValueError ''same-currency conversion is not allowed'')
     else if m_currency target \<noteq> tc
     then Inl (ValueError ''target currency does not match conversion target currency'')
     else bindE (multiply_decimals_exact (m_amount source) r) (\<lambda>expected.
       if \<not> dec_eq (m_amount target) expected
       then Inl (ValueError ''conversion rate and target amount do not match exactly'')
       else Inr \<lparr>cc_source = source, cc_target_currency = target_currency, cc_rate = r,
                 cc_target = target\<rparr>)))"

definition convert_money_exact :: "money \<Rightarrow> currency \<Rightarrow> py_number \<Rightarrow> currency_conversion res" where
  "convert_money_exact source target_currency rate =
     bindE (require_currency target_currency) (\<lambda>registered_target.
     bindE (require_finite_decimal rate ''rate'') (\<lambda>exact_rate.
     if dec_le exact_rate (dec_int 0) then Inl (ValueError ''rate must be positive'')
     else if m_currency source = registered_target
     then Inl (ValueError ''same-currency conversion is not allowed'')
     else bindE (multiply_decimals_exact (m_amount source) exact_rate) (\<lambda>exact_target.
     bindE (reduce_fractional_trailing_zeros_to_precision exact_target
              (cur_precision registered_target)) (\<lambda>reduced.
     bindE (mk_money (PyDecimal reduced) registered_target) (\<lambda>target.
     mk_currency_conversion source registered_target (PyDecimal exact_rate) target)))))"


subsection \<open>Registry and digit lemmas\<close>

lemmas currency_defs = USD_def USDT_def BTC_def ETH_def

lemmas registry_defs = DEFAULT_CURRENCY_REGISTRY_def currency_defs

lemma default_registry_built:
  "mk_registry ''currency-v1'' [USD, USDT, BTC, ETH] = Inr DEFAULT_CURRENCY_REGISTRY"
  by (simp add: mk_registry_def registry_step_def require_registry_version_def
      registry_version_pattern_def matches_head_tail_def is_alnum_char_def is_upper_char_def
      is_lower_char_def is_digit_char_def registry_defs)

lemma is_registered_iff:
  "is_registered DEFAULT_CURRENCY_REGISTRY c \<longleftrightarrow> c \<in> {USD, USDT, BTC, ETH}"
  by (auto simp: is_registered_def registry_defs split: if_splits)

lemma require_currency_Inr_iff [res_simps]:
  "require_currency c = Inr c' \<longleftrightarrow> c' = c \<and> is_registered DEFAULT_CURRENCY_REGISTRY c"
  by (auto simp: require_currency_def)

lemma registered_currency_eq:
  assumes "is_registered DEFAULT_CURRENCY_REGISTRY a" "is_registered DEFAULT_CURRENCY_REGISTRY b"
  shows "currency_eq a b \<longleftrightarrow> a = b"
  using assms by (auto simp: is_registered_iff currency_eq_def currency_defs)

lemma registered_code_inj:
  assumes "is_registered DEFAULT_CURRENCY_REGISTRY a" "is_registered DEFAULT_CURRENCY_REGISTRY b"
  shows "cur_code a = cur_code b \<longleftrightarrow> a = b"
  using assms by (auto simp: is_registered_iff currency_defs)

lemma registered_precision:
  "is_registered DEFAULT_CURRENCY_REGISTRY c \<Longrightarrow> 0 \<le> cur_precision c \<and> cur_precision c \<le> 18"
  by (auto simp: is_registered_iff currency_defs)

lemma require_finite_decimal_Inr_iff [res_simps]:
  "require_finite_decimal v n = Inr d \<longleftrightarrow> v = PyDecimal d"
  by (cases v) (auto simp: require_finite_decimal_def)

lemma require_precision_Inr_iff [res_simps]:
  "require_precision p = Inr p' \<longleftrightarrow> p' = p \<and> 0 \<le> p \<and> p \<le> 18"
  by (auto simp: require_precision_def MAX_FINANCIAL_PRECISION_def)

lemma decimal_coefficient_and_exponent_eq [simp]:
  "decimal_coefficient_and_exponent d = (dcoef d, dexp d)"
  using coefficient_of_as_digits [of "dcoef d"]
  by (simp add: decimal_coefficient_and_exponent_def digits_def coefficient_of_def)

lemma integer_digits_loop_eq:
  "integer_digits_loop n acc = acc @ (if n = 0 then [] else rev (as_digits n))"
proof (induction n acc rule: integer_digits_loop.induct)
  case (1 n acc)
  show ?case
  proof (cases "n < 10")
    case True
    with 1 show ?thesis
      by (cases "n = 0")
        (simp_all add: integer_digits_loop.simps [of n] integer_digits_loop.simps [of 0]
          as_digits.simps [of n])
  next
    case False
    with 1 have "integer_digits_loop (n div 10) (acc @ [n mod 10])
        = (acc @ [n mod 10]) @ rev (as_digits (n div 10))" by simp
    with False show ?thesis
      by (simp add: integer_digits_loop.simps [of n] as_digits.simps [of n])
  qed
qed

lemma integer_digits_eq: "integer_digits n = as_digits n"
  by (simp add: integer_digits_def integer_digits_loop_eq as_digits.simps)

lemma multiply_decimals_exact_fraction:
  "multiply_decimals_exact a b = Inr d \<Longrightarrow> fraction d = fraction a * fraction b"
  by (auto simp: multiply_decimals_exact_def integer_digits_eq fraction_powi [of a] fraction_powi [of b]
      apply_sign_def power_int_add dest!: decimal_from_tuple_fraction split: sum.splits if_splits)

text \<open>Splitting the digits of a coefficient at a power of ten.\<close>

lemma take_digits_coefficient:
  assumes "k \<le> length ds" and "\<forall>d \<in> set ds. d < 10"
  shows "coefficient_of (take (length ds - k) ds) = coefficient_of ds div 10 ^ k"
    and "coefficient_of (drop (length ds - k) ds) = coefficient_of ds mod 10 ^ k"
proof -
  let ?a = "take (length ds - k) ds" and ?b = "drop (length ds - k) ds"
  have len: "length ?b = k" using assms(1) by simp
  have eq: "coefficient_of ds = coefficient_of ?a * 10 ^ k + coefficient_of ?b"
    using coefficient_of_append [of ?a ?b] len by simp
  have "\<forall>d \<in> set ?b. d < 10" using assms(2) by (meson in_set_dropD)
  then have "coefficient_of ?b < 10 ^ k" using coefficient_of_bound [of ?b] len by simp
  with eq show "coefficient_of ?a = coefficient_of ds div 10 ^ k"
    and "coefficient_of ?b = coefficient_of ds mod 10 ^ k" by simp_all
qed

lemma coefficient_of_zero_iff: "coefficient_of ds = 0 \<longleftrightarrow> (\<forall>d \<in> set ds. d = 0)"
  by (induction ds) (auto simp: coefficient_of_Cons)

lemma take_digits_length:
  assumes "k < length (as_digits n)"
  shows "length (as_digits (n div 10 ^ k)) = length (as_digits n) - k"
  using assms
proof (induction k arbitrary: n)
  case 0
  then show ?case by simp
next
  case (Suc k)
  then have "\<not> n < 10" by (auto simp: as_digits.simps [of n] split: if_splits)
  then have len: "length (as_digits n) = Suc (length (as_digits (n div 10)))"
    by (simp add: as_digits.simps [of n])
  with Suc have "length (as_digits (n div 10 div 10 ^ k)) = length (as_digits (n div 10)) - k"
    by simp
  with len show ?case by (simp add: div_mult2_eq)
qed

lemma take_as_digits:
  assumes "k < length (as_digits n)"
  shows "take (length (as_digits n) - k) (as_digits n) = as_digits (n div 10 ^ k)"
  using assms
proof (induction k arbitrary: n)
  case 0
  then show ?case by simp
next
  case (Suc k)
  then have "\<not> n < 10" by (auto simp: as_digits.simps [of n] split: if_splits)
  then have eq: "as_digits n = as_digits (n div 10) @ [n mod 10]"
    by (simp add: as_digits.simps [of n])
  with Suc.prems have "k < length (as_digits (n div 10))" by simp
  from Suc.IH [OF this] show ?case by (simp add: eq div_mult2_eq)
qed

subsection \<open>Scaled integers\<close>

lemma dropped_digits_zero_iff:
  assumes "0 < c"
  shows "\<not> (int k > int (length (as_digits c))
            \<or> list_ex (\<lambda>d. d \<noteq> 0) (drop (length (as_digits c) - k) (as_digits c)))
         \<longleftrightarrow> 10 ^ k dvd c"
proof (cases "k \<le> length (as_digits c)")
  case True
  have "coefficient_of (drop (length (as_digits c) - k) (as_digits c)) = c mod 10 ^ k"
    using take_digits_coefficient(2) [OF True] as_digits_lt_10 by simp
  then have "10 ^ k dvd c \<longleftrightarrow> (\<forall>d \<in> set (drop (length (as_digits c) - k) (as_digits c)). d = 0)"
    by (metis coefficient_of_zero_iff mod_eq_0_iff_dvd)
  with True show ?thesis by (auto simp: list_ex_iff)
next
  case False
  have "c < 10 ^ length (as_digits c)" by (rule as_digits_bound)
  also have "(10::nat) ^ length (as_digits c) \<le> 10 ^ k" using False by (intro power_increasing) auto
  finally have "\<not> 10 ^ k dvd c" using assms by (simp add: nat_dvd_not_less)
  with False show ?thesis by simp
qed

lemma power_dvd_digits_length:
  assumes "0 < c" and "10 ^ k dvd c"
  shows "k < length (as_digits c)"
proof (rule ccontr)
  assume "\<not> k < length (as_digits c)"
  then have "(10::nat) ^ length (as_digits c) \<le> 10 ^ k" by (intro power_increasing) auto
  with as_digits_bound [of c] have "c < 10 ^ k" by linarith
  with assms show False by (simp add: nat_dvd_not_less)
qed

text \<open>The exact scaled value, as a natural number with a sign, when it is one.\<close>

lemma scaled_value_nonneg:
  "0 \<le> e + p \<Longrightarrow> 0 \<le> p \<Longrightarrow>
     (of_nat c * 10 powi e) * 10 ^ nat p = (of_nat (c * 10 ^ nat (e + p)) :: rat)"
proof -
  assume "0 \<le> e + p" "0 \<le> p"
  then have "(10::rat) powi e * 10 ^ nat p = 10 ^ nat (e + p)"
    by (metis power_int_add power_int_of_nat nat_0_le zero_neq_numeral)
  then show ?thesis by (simp add: mult.assoc)
qed

lemma scaled_value_neg:
  "e + p < 0 \<Longrightarrow> 0 \<le> p \<Longrightarrow>
     (of_nat c * 10 powi e) * 10 ^ nat p = (of_nat c / 10 ^ nat (- (e + p)) :: rat)"
proof -
  assume a: "e + p < 0" "0 \<le> p"
  have "(10::rat) powi e * 10 ^ nat p = 10 powi (e + p)"
    using a by (metis power_int_add power_int_of_nat nat_0_le zero_neq_numeral)
  also have "\<dots> = inverse (10 ^ nat (- (e + p)))"
    using a by (simp add: power_int_def power_inverse [symmetric] del: power_inverse)
  finally show ?thesis by (simp add: mult.assoc divide_inverse)
qed

lemma of_int_eq_signed_of_nat_iff:
  "(of_int n :: rat) = apply_sign s (of_nat m) \<longleftrightarrow> n = apply_sign s (int m)"
  by (auto simp: apply_sign_def)

lemma of_int_eq_signed_div_iff:
  fixes k :: nat
  shows "(of_int n :: rat) = apply_sign s (of_nat c / 10 ^ k) \<longleftrightarrow>
     10 ^ k dvd c \<and> n = apply_sign s (int (c div 10 ^ k))"
proof
  assume L: "(of_int n :: rat) = apply_sign s (of_nat c / 10 ^ k)"
  then have "(of_int (apply_sign s n) :: rat) = of_nat c / 10 ^ k"
    by (auto simp: apply_sign_def split: if_splits)
  then have "(of_int (apply_sign s n * 10 ^ k) :: rat) = of_int (int c)"
    by (simp add: field_simps)
  then have eq: "apply_sign s n * 10 ^ k = int c" by (simp only: of_int_eq_iff)
  then have "int (10 ^ k) dvd int c" by (metis dvd_triv_right of_nat_numeral of_nat_power)
  then have dvd: "10 ^ k dvd c" by presburger
  have "apply_sign s n = int c div 10 ^ k" using eq by (metis nonzero_mult_div_cancel_right power_not_zero zero_neq_numeral)
  then have "n = apply_sign s (int (c div 10 ^ k))"
    by (auto simp: apply_sign_def zdiv_int split: if_splits)
  with dvd show "10 ^ k dvd c \<and> n = apply_sign s (int (c div 10 ^ k))" by simp
next
  assume R: "10 ^ k dvd c \<and> n = apply_sign s (int (c div 10 ^ k))"
  then have "c = c div 10 ^ k * 10 ^ k" by simp
  then have "(of_nat c :: rat) = of_nat (c div 10 ^ k) * 10 ^ k"
    by (metis of_nat_mult of_nat_numeral of_nat_power)
  with R show "(of_int n :: rat) = apply_sign s (of_nat c / 10 ^ k)"
    by (auto simp: apply_sign_def)
qed

lemma abs_signed_less_power: "\<bar>apply_sign s (int m)\<bar> < 10 ^ k \<longleftrightarrow> m < 10 ^ k"
  using of_nat_less_iff [of m "10 ^ k", where 'a = int] by (simp add: apply_sign_def)

lemma fraction_scaled:
  "fraction v * 10 ^ p = apply_sign (dsign v) (of_nat (dcoef v) * 10 powi dexp v * 10 ^ p)"
  by (simp add: fraction_powi apply_sign_def)

lemma foldl_digits: "foldl (\<lambda>c d. c * 10 + d) 0 ds = coefficient_of ds"
  by (simp add: coefficient_of_def)

lemmas scaled_integer_unfold =
  Let_def require_precision_def MAX_FINANCIAL_PRECISION_def require_finite_decimal_def
  MAX_QUANTITY_COEFFICIENT_DIGITS_def foldl_digits apply_sign_def

lemma scaled_integer_shift_up:
  assumes p: "0 \<le> p" "p \<le> 18" and nz: "\<not> is_zero v" and d: "0 \<le> dexp v + p"
  shows "decimal_to_scaled_integer v p = Inr n \<longleftrightarrow>
           of_int n = fraction v * 10 ^ nat p \<and> \<bar>n\<bar> < 10 ^ 128"
proof -
  let ?m = "dcoef v * 10 ^ nat (dexp v + p)"
  from nz have c: "0 < dcoef v" by (simp add: is_zero_def)
  have len: "int (length (digits v)) + (dexp v + p) \<le> 128 \<longleftrightarrow> ?m < 10 ^ 128"
    using length_as_digits_le_iff [of ?m 128] d c
    by (simp add: length_as_digits_mult_power digits_def) linarith
  have "decimal_to_scaled_integer v p = Inr n \<longleftrightarrow>
      int (length (digits v)) + (dexp v + p) \<le> 128 \<and> n = apply_sign (dsign v) (int ?m)"
    using p c nz d unfolding decimal_to_scaled_integer_def
    by (auto simp: scaled_integer_unfold digits_def)
  also have "\<dots> \<longleftrightarrow> n = apply_sign (dsign v) (int ?m) \<and> \<bar>n\<bar> < 10 ^ 128"
    unfolding len using abs_signed_less_power by blast
  also have "\<dots> \<longleftrightarrow> of_int n = fraction v * 10 ^ nat p \<and> \<bar>n\<bar> < 10 ^ 128"
    unfolding fraction_scaled scaled_value_nonneg [OF d p(1)] of_int_eq_signed_of_nat_iff ..
  finally show ?thesis .
qed

lemma scaled_integer_shift_down:
  assumes p: "0 \<le> p" "p \<le> 18" and nz: "\<not> is_zero v" and d: "dexp v + p = - int k" "0 < k"
    and dvd: "10 ^ k dvd dcoef v"
  shows "decimal_to_scaled_integer v p = Inr n \<longleftrightarrow>
           of_int n = fraction v * 10 ^ nat p \<and> \<bar>n\<bar> < 10 ^ 128"
proof -
  let ?m = "dcoef v div 10 ^ k"
  from nz have c: "0 < dcoef v" by (simp add: is_zero_def)
  have drop: "\<not> (int k > int (length (digits v))
      \<or> list_ex (\<lambda>d. d \<noteq> 0) (drop (length (digits v) - k) (digits v)))"
    using dropped_digits_zero_iff [OF c, of k] dvd by (simp add: digits_def)
  have ret: "take (length (digits v) - k) (digits v) = as_digits ?m"
    using take_as_digits [OF power_dvd_digits_length [OF c dvd]] by (simp add: digits_def)
  have pos: "0 < ?m" using c dvd by (metis dvd_div_eq_0_iff neq0_conv)
  have len: "length (as_digits ?m) \<le> 128 \<longleftrightarrow> ?m < 10 ^ 128"
    by (rule length_as_digits_le_iff [OF pos]) simp
  have "decimal_to_scaled_integer v p = Inr n \<longleftrightarrow>
      length (as_digits ?m) \<le> 128 \<and> n = apply_sign (dsign v) (int ?m)"
    using p nz d(2) drop unfolding decimal_to_scaled_integer_def
    by (auto simp: scaled_integer_unfold d(1) ret)
  also have "\<dots> \<longleftrightarrow> n = apply_sign (dsign v) (int ?m) \<and> \<bar>n\<bar> < 10 ^ 128"
    unfolding len using abs_signed_less_power by blast
  also have "\<dots> \<longleftrightarrow> of_int n = fraction v * 10 ^ nat p \<and> \<bar>n\<bar> < 10 ^ 128"
    using scaled_value_neg [of "dexp v" p "dcoef v"] d p(1) dvd of_int_eq_signed_div_iff
    by (simp add: fraction_scaled)
  finally show ?thesis .
qed

lemma scaled_integer_inexact:
  assumes p: "0 \<le> p" "p \<le> 18" and nz: "\<not> is_zero v" and d: "dexp v + p = - int k" "0 < k"
    and nd: "\<not> 10 ^ k dvd dcoef v"
  shows "decimal_to_scaled_integer v p \<noteq> Inr n \<and> of_int n \<noteq> fraction v * 10 ^ nat p"
proof
  from nz have c: "0 < dcoef v" by (simp add: is_zero_def)
  show "decimal_to_scaled_integer v p \<noteq> Inr n"
    using p nz d(2) nd dropped_digits_zero_iff [OF c, of k] unfolding decimal_to_scaled_integer_def
    by (auto simp: scaled_integer_unfold digits_def d(1))
  show "of_int n \<noteq> fraction v * 10 ^ nat p"
    using scaled_value_neg [of "dexp v" p "dcoef v"] d p(1) nd of_int_eq_signed_div_iff
    by (simp add: fraction_scaled)
qed

text \<open>
  The scaled integer is returned exactly when the value times \<open>10 ^ precision\<close> is an integer of
  at most 128 digits.
\<close>

lemma decimal_to_scaled_integer_iff:
  assumes p: "0 \<le> p" "p \<le> 18"
  shows "decimal_to_scaled_integer v p = Inr n \<longleftrightarrow>
           of_int n = fraction v * 10 ^ nat p \<and> \<bar>n\<bar> < 10 ^ 128"
proof (cases "is_zero v")
  case True
  then have "decimal_to_scaled_integer v p = Inr n \<longleftrightarrow> n = 0" using p
    by (auto simp: decimal_to_scaled_integer_def scaled_integer_unfold)
  moreover have "fraction v = 0" using True by simp
  ultimately show ?thesis by auto
next
  case nz: False
  show ?thesis
  proof (cases "0 \<le> dexp v + p")
    case True
    with p nz show ?thesis by (rule scaled_integer_shift_up)
  next
    case False
    then obtain k where k: "dexp v + p = - int k" "0 < k"
      by (metis int_cases3 linorder_not_le neg_0_le_iff_le of_nat_0_le_iff order_refl)
    show ?thesis
      using scaled_integer_shift_down [OF p nz k] scaled_integer_inexact [OF p nz k] by blast
  qed
qed

subsection \<open>Exact multiples\<close>

lemma strip_tens_zero_iff: "0 < q \<Longrightarrow> strip_tens q k = 0 \<longleftrightarrow> 10 ^ k dvd q"
proof (induction k arbitrary: q)
  case 0
  then show ?case by simp
next
  case (Suc k)
  show ?case
  proof (cases "q mod 10 = 0")
    case True
    then obtain r where r: "q = 10 * r" by auto
    with Suc.prems have "0 < r" by simp
    with Suc.IH [of r] r show ?thesis by simp
  next
    case False
    then have "\<not> 10 dvd q" by presburger
    then have "\<not> 10 ^ Suc k dvd q" by (metis dvd_mult_left power_Suc)
    with False show ?thesis by simp
  qed
qed

lemma strip_factor_decomp:
  assumes "0 < d"
  shows "\<exists>j \<le> k. d = strip_factor f d k * f ^ j \<and> (j = k \<or> \<not> f dvd strip_factor f d k)"
  using assms
proof (induction k arbitrary: d)
  case 0
  then show ?case by simp
next
  case (Suc k)
  show ?case
  proof (cases "d mod f = 0")
    case True
    then have fd: "f dvd d" by auto
    with Suc.prems have "0 < d div f"
      by (metis dvd_div_eq_0_iff neq0_conv)
    from Suc.IH [OF this] obtain j where j: "j \<le> k" "d div f = strip_factor f (d div f) k * f ^ j"
      "j = k \<or> \<not> f dvd strip_factor f (d div f) k" by blast
    have "d = strip_factor f (d div f) k * f ^ Suc j"
      using j(2) fd by (metis dvd_div_mult_self mult.assoc mult.commute power_Suc)
    with j True show ?thesis by (intro exI [of _ "Suc j"]) auto
  next
    case False
    then show ?thesis by (intro exI [of _ 0]) (auto simp: mod_eq_0_iff_dvd)
  qed
qed

lemma coprime_5_iff: "coprime b (5::nat) \<longleftrightarrow> \<not> 5 dvd b"
proof
  assume n: "\<not> 5 dvd b"
  have "gcd b 5 dvd 5" by simp
  then have "gcd b 5 \<le> 5" "gcd b 5 \<noteq> 0" by (simp_all add: dvd_imp_le)
  moreover have "gcd b 5 \<noteq> 5" using n by (metis gcd_dvd1)
  moreover have "\<not> 2 dvd (5::nat)" "\<not> 3 dvd (5::nat)" "\<not> 4 dvd (5::nat)" by presburger+
  with \<open>gcd b 5 dvd 5\<close> have "gcd b 5 \<noteq> 2" "gcd b 5 \<noteq> 3" "gcd b 5 \<noteq> 4" by metis+
  ultimately have "gcd b 5 = 1" by linarith
  then show "coprime b 5" by (simp add: coprime_iff_gcd_eq_1)
qed auto

lemma strip_two_five_iff:
  assumes "0 < d"
  shows "strip_factor 5 (strip_factor 2 d k) k = 1 \<longleftrightarrow> d dvd 10 ^ k"
proof -
  let ?a = "strip_factor 2 d k"
  let ?b = "strip_factor 5 ?a k"
  obtain i where i: "i \<le> k" "d = ?a * 2 ^ i" "i = k \<or> \<not> 2 dvd ?a"
    using strip_factor_decomp [OF assms] by blast
  then have a: "0 < ?a" using assms by (metis mult_eq_0_iff neq0_conv)
  obtain j where j: "j \<le> k" "?a = ?b * 5 ^ j" "j = k \<or> \<not> 5 dvd ?b"
    using strip_factor_decomp [OF a] by blast
  have ten: "(10::nat) ^ k = 5 ^ k * 2 ^ k" by (simp add: power_mult_distrib [symmetric])
  show ?thesis
  proof
    assume "?b = 1"
    with i(2) j(2) have "d = 5 ^ j * 2 ^ i" by simp
    with i(1) j(1) show "d dvd 10 ^ k"
      unfolding ten by (metis le_imp_power_dvd mult_dvd_mono)
  next
    assume "d dvd 10 ^ k"
    then have ad: "?a * 2 ^ i dvd 5 ^ k * 2 ^ k" using i(2) ten by metis
    have "?a dvd 5 ^ k"
    proof (cases "i = k")
      case True
      with ad show ?thesis by simp
    next
      case False
      with i(3) have "coprime ?a (2 ^ k)" by simp
      with ad show ?thesis by (metis coprime_dvd_mult_left_iff dvd_mult_left)
    qed
    then have bd: "?b * 5 ^ j dvd 5 ^ k" using j(2) by metis
    show "?b = 1"
    proof (cases "j = k")
      case True
      with bd show ?thesis by simp
    next
      case False
      with j(3) have "coprime ?b (5 ^ k)" by (simp add: coprime_5_iff)
      moreover have "?b dvd 5 ^ k" using bd by (rule dvd_mult_left)
      ultimately show ?thesis by (metis coprime_absorb_left nat_dvd_1_iff_1 is_unit_gcd_iff gcd_nat.absorb1 coprime_iff_gcd_eq_1)
    qed
  qed
qed

lemma gcd_cancel_dvd_iff:
  fixes a b m :: nat
  assumes "0 < b"
  shows "b dvd a * m \<longleftrightarrow> b div gcd a b dvd m"
proof -
  let ?g = "gcd a b"
  have g: "0 < ?g" using assms by simp
  have ab: "a = a div ?g * ?g" "b = b div ?g * ?g" by simp_all
  have "b dvd a * m \<longleftrightarrow> b div ?g * ?g dvd (a div ?g * m) * ?g"
    using ab by (metis mult.assoc mult.commute)
  also have "\<dots> \<longleftrightarrow> b div ?g dvd a div ?g * m"
    by (rule dvd_times_right_cancel_iff) (use g in simp)
  also have "\<dots> \<longleftrightarrow> b div ?g dvd m"
    using assms by (metis coprime_commute coprime_dvd_mult_right_iff div_gcd_coprime neq0_conv)
  finally show ?thesis .
qed

text \<open>An integer multiple, in terms of coefficients and exponents.\<close>

lemma int_multiple_iff:
  fixes a b :: nat
  assumes "0 < b"
  shows "(\<exists>z::int. (apply_sign s (of_nat a) :: rat) = of_int z * of_nat b) \<longleftrightarrow> b dvd a"
proof
  assume "\<exists>z::int. (apply_sign s (of_nat a) :: rat) = of_int z * of_nat b"
  then obtain z :: int where "(apply_sign s (of_nat a) :: rat) = of_int z * of_nat b" by blast
  then have "(of_int (apply_sign s (int a)) :: rat) = of_int (z * int b)"
    by (auto simp: apply_sign_def)
  then have "apply_sign s (int a) = z * int b" by (simp only: of_int_eq_iff)
  then have "int b dvd apply_sign s (int a)" by simp
  then show "b dvd a" by (auto simp: apply_sign_def split: if_splits)
next
  assume "b dvd a"
  then obtain k where "a = b * k" by auto
  then have "(apply_sign s (of_nat a) :: rat) = of_int (apply_sign s (int k)) * of_nat b"
    by (auto simp: apply_sign_def)
  then show "\<exists>z::int. (apply_sign s (of_nat a) :: rat) = of_int z * of_nat b" by blast
qed

lemma fraction_multiple_iff:
  assumes "\<not> dsign i" and "0 < dcoef i"
  shows "(\<exists>z::int. fraction v = of_int z * fraction i) \<longleftrightarrow>
    (if dexp v < dexp i then dcoef i * 10 ^ nat (dexp i - dexp v) dvd dcoef v
     else dcoef i dvd dcoef v * 10 ^ nat (dexp v - dexp i))"
proof -
  have split: "(10::rat) powi x = 10 ^ nat (x - y) * 10 powi y" if "y \<le> x" for x y
    using that by (metis diff_add_cancel diff_ge_0_iff_ge nat_0_le power_int_add power_int_of_nat zero_neq_numeral)
  show ?thesis
  proof (cases "dexp v < dexp i")
    case True
    have "fraction v = of_int z * fraction i \<longleftrightarrow>
        apply_sign (dsign v) (of_nat (dcoef v)) =
          of_int z * (of_nat (dcoef i * 10 ^ nat (dexp i - dexp v)) :: rat)" for z
      using assms split [of "dexp v" "dexp i"] True
      by (simp add: fraction_powi apply_sign_def algebra_simps)
    then show ?thesis using int_multiple_iff [of "dcoef i * 10 ^ nat (dexp i - dexp v)"] True assms
      by simp
  next
    case False
    have "fraction v = of_int z * fraction i \<longleftrightarrow>
        apply_sign (dsign v) (of_nat (dcoef v * 10 ^ nat (dexp v - dexp i))) =
          of_int z * (of_nat (dcoef i) :: rat)" for z
      using assms split [of "dexp i" "dexp v"] False
      by (simp add: fraction_powi apply_sign_def algebra_simps)
    then show ?thesis
      using int_multiple_iff [of "dcoef i" "dsign v" "dcoef v * 10 ^ nat (dexp v - dexp i)"] False assms
      by simp
  qed
qed

lemma is_exact_decimal_multiple_iff:
  assumes pos: "0 < fraction i"
  shows "is_exact_decimal_multiple v i = Inr (\<exists>z::int. fraction v = of_int z * fraction i)"
proof (cases "is_zero v")
  case True
  moreover have "\<exists>z::int. (0::rat) = of_int z * fraction i" by (intro exI [of _ 0]) simp
  ultimately show ?thesis using pos by (simp add: is_exact_decimal_multiple_def dec_le_def)
next
  case nz: False
  from pos have i: "\<not> dsign i" "0 < dcoef i" by (auto simp: fraction_pos_iff is_zero_def)
  from nz have v: "0 < dcoef v" by (simp add: is_zero_def)
  show ?thesis
  proof (cases "dexp v < dexp i")
    case True
    have "dcoef i * m dvd dcoef v \<longleftrightarrow> dcoef i dvd dcoef v \<and> m dvd dcoef v div dcoef i" for m
      using i(2) by (metis dvd_mult_left dvd_div_iff_mult mult.commute neq0_conv)
    then show ?thesis
      using True nz i v pos fraction_multiple_iff [OF i, of v]
        strip_tens_zero_iff [of "dcoef v div dcoef i"]
      by (auto simp: is_exact_decimal_multiple_def dec_le_def mod_eq_0_iff_dvd dvd_div_eq_0_iff)
  next
    case False
    have "0 < dcoef i div gcd (dcoef v) (dcoef i)"
      using i(2) by (simp add: div_greater_zero_iff gcd_le2_nat)
    then show ?thesis
      using False nz i v pos fraction_multiple_iff [OF i, of v] gcd_cancel_dvd_iff [OF i(2)]
        strip_two_five_iff
      by (auto simp: is_exact_decimal_multiple_def dec_le_def)
  qed
qed

subsection \<open>Quantity normalisation\<close>

lemma trailing_zero_count_Cons:
  "ds \<noteq> [] \<Longrightarrow> trailing_zero_count (d # ds) = (if d \<noteq> 0 then 0 else Suc (trailing_zero_count ds))"
  by (cases ds) auto

lemma trailing_zero_count_as_digits:
  assumes "0 < c"
  shows "10 ^ trailing_zero_count (rev (as_digits c)) dvd c
       \<and> \<not> 10 dvd c div 10 ^ trailing_zero_count (rev (as_digits c))"
  using assms
proof (induction c rule: as_digits.induct)
  case (1 c)
  show ?case
  proof (cases "c < 10")
    case True
    with 1 show ?thesis by (simp add: as_digits.simps [of c] nat_dvd_not_less)
  next
    case False
    let ?z = "trailing_zero_count (rev (as_digits (c div 10)))"
    have z: "trailing_zero_count (rev (as_digits c)) = (if c mod 10 \<noteq> 0 then 0 else Suc ?z)"
      using False by (simp add: as_digits.simps [of c] trailing_zero_count_Cons)
    show ?thesis
    proof (cases "c mod 10 = 0")
      case True
      then obtain r where r: "c = 10 * r" by auto
      with 1 False have "10 ^ ?z dvd r \<and> \<not> 10 dvd r div 10 ^ ?z" by simp
      with r show ?thesis unfolding z by simp
    next
      case False
      then show ?thesis by (simp add: z mod_eq_0_iff_dvd)
    qed
  qed
qed

lemma scaled_value_iff:
  assumes "0 \<le> p" and "\<not> 10 dvd c"
  shows "(of_int n :: rat) = apply_sign s (of_nat c) * 10 powi e * 10 ^ nat p
    \<longleftrightarrow> 0 \<le> e + p \<and> n = apply_sign s (int (c * 10 ^ nat (e + p)))"
proof -
  have sgn: "apply_sign s (of_nat c) * 10 powi e * 10 ^ nat p
      = (apply_sign s (of_nat c * 10 powi e * 10 ^ nat p) :: rat)" by (simp add: apply_sign_def)
  show ?thesis
  proof (cases "0 \<le> e + p")
    case True
    then show ?thesis unfolding sgn scaled_value_nonneg [OF True assms(1)]
      by (simp only: of_int_eq_signed_of_nat_iff simp_thms)
  next
    case False
    then have neg: "e + p < 0" by simp
    then obtain k where k: "nat (- (e + p)) = Suc k" by (metis gr0_conv_Suc neg_0_less_iff_less zero_less_nat_eq)
    have "\<not> 10 ^ Suc k dvd c" using assms(2) by (metis dvd_mult_left power_Suc)
    then show ?thesis
      unfolding sgn scaled_value_neg [OF neg assms(1)] of_int_eq_signed_div_iff k using False by simp
  qed
qed

text \<open>Stripping the trailing zeros of a nonzero decimal.\<close>

lemma stripped_decimal:
  assumes nz: "\<not> is_zero v"
  defines "z \<equiv> trailing_zero_count (rev (digits v))"
  obtains c' where "0 < c'" and "\<not> 10 dvd c'"
    and "(if z \<noteq> 0 then take (length (digits v) - z) (digits v) else digits v) = as_digits c'"
    and "fraction v = apply_sign (dsign v) (of_nat c') * 10 powi (dexp v + int z)"
proof
  from nz have c: "0 < dcoef v" by (simp add: is_zero_def)
  let ?c' = "dcoef v div 10 ^ z"
  have z: "10 ^ z dvd dcoef v" "\<not> 10 dvd ?c'"
    using trailing_zero_count_as_digits [OF c] by (simp_all add: z_def digits_def)
  then show "0 < ?c'" using c by (metis dvd_div_eq_0_iff neq0_conv)
  show "\<not> 10 dvd ?c'" by (fact z(2))
  show "(if z \<noteq> 0 then take (length (digits v) - z) (digits v) else digits v) = as_digits ?c'"
    using take_as_digits [OF power_dvd_digits_length [OF c z(1)]] by (auto simp: digits_def)
  have "(of_nat (dcoef v) :: rat) = of_nat ?c' * 10 ^ z"
    using z(1) by (metis dvd_div_mult_self of_nat_mult of_nat_numeral of_nat_power)
  then show "fraction v = apply_sign (dsign v) (of_nat ?c') * 10 powi (dexp v + int z)"
    by (simp add: fraction_powi power_int_add apply_sign_def)
qed

definition normalized :: "int \<Rightarrow> int \<Rightarrow> decimal" where
  "normalized n p = \<lparr>dsign = n < 0, dcoef = nat \<bar>n\<bar>, dexp = - p\<rparr>"

lemma normalized_apply_sign:
  "normalized (apply_sign s (int m)) p = \<lparr>dsign = s \<and> m \<noteq> 0, dcoef = m, dexp = - p\<rparr>"
  by (auto simp: normalized_def apply_sign_def)

lemma normalize_quantity_nonzero:
  assumes p: "0 \<le> p" "p \<le> 18" and nz: "\<not> is_zero v"
    and c': "0 < c'" "(if z \<noteq> 0 then take (length (digits v) - z) (digits v) else digits v) = as_digits c'"
    and z: "z = trailing_zero_count (rev (digits v))"
  defines "m \<equiv> c' * 10 ^ nat (dexp v + int z + p)"
  shows "normalize_quantity (PyDecimal v) p = Inr q \<longleftrightarrow>
    0 \<le> dexp v + int z + p \<and> m < 10 ^ 128 \<and> q = \<lparr>dsign = dsign v, dcoef = m, dexp = - p\<rparr>"
proof -
  let ?e = "dexp v + int z"
  have ex: "(if z \<noteq> 0 then dexp v + int z else dexp v) = ?e" by simp
  have nq: "normalize_quantity (PyDecimal v) p =
      (if max 0 (- ?e) > p then Inl (ValueError ''value has more fractional digits than precision'')
       else if int (length (as_digits c')) + (?e - - p) > 128
       then Inl (ValueError ''value exceeds maximum quantity magnitude'')
       else decimal_from_tuple (dsign v) (as_digits c' @ replicate (nat (?e - - p)) 0) (- p))"
    by (simp only: normalize_quantity_def require_finite_decimal_def require_precision_def
        MAX_FINANCIAL_PRECISION_def MAX_QUANTITY_COEFFICIENT_DIGITS_def py_number.case bindE_simps
        p nz simp_thms if_False Let_def z [symmetric] c'(2) ex)
  have len: "int (length (as_digits c')) + (?e + p) \<le> 128 \<longleftrightarrow> m < 10 ^ 128" if "0 \<le> ?e + p"
    using length_as_digits_le_iff [of m 128] that c'(1)
    by (simp add: m_def length_as_digits_mult_power) linarith
  have ctor: "decimal_from_tuple (dsign v) (as_digits c' @ replicate (nat (?e + p)) 0) (- p)
      = Inr \<lparr>dsign = dsign v, dcoef = m, dexp = - p\<rparr>"
    if "0 \<le> ?e + p" "m < 10 ^ 128"
    using that len [OF that(1)] c'(1) p
    by (auto simp: m_def decimal_from_tuple_def coefficient_of_append decimal_in_range_def Let_def
        length_as_digits_mult_power MAX_PREC_def MAX_EMAX_def MIN_ETINY_def)
  show ?thesis using nq len ctor p by auto
qed

lemma normalize_quantity_iff:
  assumes p: "0 \<le> p" "p \<le> 18"
  shows "normalize_quantity (PyDecimal v) p = Inr q \<longleftrightarrow>
    (\<exists>n::int. of_int n = fraction v * 10 ^ nat p \<and> \<bar>n\<bar> < 10 ^ 128 \<and> q = normalized n p)"
proof (cases "is_zero v")
  case True
  then show ?thesis using p
    by (auto simp: normalize_quantity_def require_finite_decimal_def require_precision_def Let_def
        MAX_FINANCIAL_PRECISION_def decimal_from_tuple_def MIN_ETINY_def MAX_EMAX_def coefficient_of_def
        normalized_def)
next
  case False
  define z where "z = trailing_zero_count (rev (digits v))"
  obtain c' where c': "0 < c'" "\<not> 10 dvd c'"
    "(if z \<noteq> 0 then take (length (digits v) - z) (digits v) else digits v) = as_digits c'"
    and fr: "fraction v = apply_sign (dsign v) (of_nat c') * 10 powi (dexp v + int z)"
    using stripped_decimal [OF False] unfolding z_def by blast
  define m where "m = c' * 10 ^ nat (dexp v + int z + p)"
  have m: "m \<noteq> 0" using c'(1) by (simp add: m_def)
  have "normalize_quantity (PyDecimal v) p = Inr q \<longleftrightarrow>
      0 \<le> dexp v + int z + p \<and> m < 10 ^ 128 \<and> q = \<lparr>dsign = dsign v, dcoef = m, dexp = - p\<rparr>"
    unfolding m_def by (rule normalize_quantity_nonzero [OF p False c'(1,3) z_def])
  also have "\<dots> \<longleftrightarrow> (\<exists>n. (0 \<le> dexp v + int z + p \<and> n = apply_sign (dsign v) (int m))
      \<and> \<bar>n\<bar> < 10 ^ 128 \<and> q = normalized n p)"
    using m abs_signed_less_power [of "dsign v" m 128] normalized_apply_sign [of "dsign v" m p]
    by auto
  also have "\<dots> \<longleftrightarrow> (\<exists>n::int. of_int n = fraction v * 10 ^ nat p \<and> \<bar>n\<bar> < 10 ^ 128
       \<and> q = normalized n p)"
    unfolding fr m_def scaled_value_iff [OF p(1) c'(2)] ..
  finally show ?thesis .
qed

lemma fraction_normalized: "0 \<le> p \<Longrightarrow> fraction (normalized n p) = of_int n / 10 ^ nat p"
  by (auto simp: fraction_def normalized_def Let_def)

lemma normalize_quantity_Inr:
  assumes "normalize_quantity (PyDecimal v) p = Inr q"
  shows "fraction q = fraction v" and "dexp q = - p" and "0 \<le> p" and "p \<le> 18"
    and "normalize_quantity (PyDecimal q) p = Inr q"
proof -
  from assms have p: "0 \<le> p" "p \<le> 18"
    by (auto simp: normalize_quantity_def res_simps)
  then show "0 \<le> p" "p \<le> 18" by simp_all
  from assms p obtain n :: int where n: "of_int n = fraction v * 10 ^ nat p" "\<bar>n\<bar> < 10 ^ 128"
    "q = normalized n p" by (auto simp: normalize_quantity_iff)
  then show fr: "fraction q = fraction v" using p by (simp add: fraction_normalized)
  show "dexp q = - p" using n(3) by (simp add: normalized_def)
  show "normalize_quantity (PyDecimal q) p = Inr q"
    unfolding normalize_quantity_iff [OF p] fr using n by blast
qed

lemma normalize_quantity_cong:
  assumes "fraction v = fraction w"
  shows "normalize_quantity (PyDecimal v) p = Inr q \<longleftrightarrow> normalize_quantity (PyDecimal w) p = Inr q"
proof (cases "0 \<le> p \<and> p \<le> 18")
  case True
  then show ?thesis using assms by (simp add: normalize_quantity_iff)
next
  case False
  then show ?thesis by (auto simp: normalize_quantity_def res_simps)
qed

subsection \<open>Value objects and conversion\<close>

lemma reduce_trailing_loop_as_digits:
  assumes "0 < c"
  shows "\<exists>k. 10 ^ k dvd c \<and>
     reduce_trailing_loop (as_digits c) e m = Inr (as_digits (c div 10 ^ k), e + int k) \<and>
     (e + int k \<ge> m \<or> \<not> 10 dvd c div 10 ^ k)"
  using assms
proof (induction "as_digits c" e m arbitrary: c rule: reduce_trailing_loop.induct)
  case (1 e m c)
  have last: "last (as_digits c) = c mod 10"
    by (cases "c < 10") (simp_all add: as_digits.simps [of c])
  show ?case
  proof (cases "e < m \<and> c mod 10 = 0")
    case True
    then obtain r where r: "c = 10 * r" by auto
    with "1.prems" have r0: "0 < r" by simp
    then have bl: "butlast (as_digits c) = as_digits r"
      unfolding r by (subst as_digits.simps) simp
    from "1.hyps" [OF _ as_digits_nonempty _ bl r0] True last
    obtain k where k: "10 ^ k dvd r"
      "reduce_trailing_loop (as_digits r) (e + 1) m = Inr (as_digits (r div 10 ^ k), e + 1 + int k)"
      "e + 1 + int k \<ge> m \<or> \<not> 10 dvd r div 10 ^ k" by auto
    have step: "reduce_trailing_loop (as_digits c) e m = reduce_trailing_loop (as_digits r) (e + 1) m"
      using True last bl by (subst reduce_trailing_loop.simps) simp
    show ?thesis
      by (rule exI [of _ "Suc k"]) (use k step r in auto)
  next
    case False
    then have "\<not> e < m \<or> \<not> 10 dvd c" by auto
    moreover have "reduce_trailing_loop (as_digits c) e m = Inr (as_digits c, e)"
      using False last by (subst reduce_trailing_loop.simps) auto
    ultimately show ?thesis by (intro exI [of _ 0]) auto
  qed
qed

lemma decimal_in_range_div:
  assumes "decimal_in_range c e" and "0 < c" and "10 ^ k dvd c"
  shows "decimal_in_range (c div 10 ^ k) (e + int k)"
  using assms take_digits_length [OF power_dvd_digits_length [OF assms(2,3)]]
    power_dvd_digits_length [OF assms(2,3)]
  by (auto simp: decimal_in_range_def Let_def)

text \<open>
  The reduction keeps the value and leaves an exponent that fits the precision whenever the value
  is representable there.
\<close>

lemma reduce_fractional_trailing_zeros:
  assumes p: "0 \<le> p" "p \<le> 18" and rng: "is_zero v \<or> decimal_in_range (dcoef v) (dexp v)"
  shows "\<exists>d. reduce_fractional_trailing_zeros_to_precision v p = Inr d \<and> fraction d = fraction v \<and>
     (max 0 (- dexp d) \<le> p \<longleftrightarrow> (\<exists>n::int. of_int n = fraction v * 10 ^ nat p))"
proof (cases "is_zero v")
  case True
  then show ?thesis using p
    by (auto simp: reduce_fractional_trailing_zeros_to_precision_def decimal_from_tuple_def Let_def
        MIN_ETINY_def MAX_EMAX_def coefficient_of_def is_zero_def intro: exI [of _ 0])
next
  case False
  then have c: "0 < dcoef v" by (simp add: is_zero_def)
  obtain k where k: "10 ^ k dvd dcoef v"
    "reduce_trailing_loop (digits v) (dexp v) (- p)
       = Inr (as_digits (dcoef v div 10 ^ k), dexp v + int k)"
    "dexp v + int k \<ge> - p \<or> \<not> 10 dvd dcoef v div 10 ^ k"
    using reduce_trailing_loop_as_digits [OF c] unfolding digits_def by blast
  let ?c = "dcoef v div 10 ^ k" and ?e = "dexp v + int k"
  have c': "?c \<noteq> 0" using k(1) c by (simp add: dvd_div_eq_0_iff)
  have red: "reduce_fractional_trailing_zeros_to_precision v p
      = Inr \<lparr>dsign = dsign v, dcoef = ?c, dexp = ?e\<rparr>"
    using False k(2) c' rng decimal_in_range_div [OF _ c k(1), of "dexp v"]
    by (simp add: reduce_fractional_trailing_zeros_to_precision_def decimal_from_tuple_def Let_def)
  have "(of_nat (dcoef v) :: rat) = of_nat ?c * 10 ^ k"
    using k(1) by (metis dvd_div_mult_self of_nat_mult of_nat_numeral of_nat_power)
  then have fr: "fraction v = apply_sign (dsign v) (of_nat ?c) * 10 powi ?e"
    by (simp add: fraction_powi power_int_add apply_sign_def)
  have rep: "max 0 (- ?e) \<le> p \<longleftrightarrow> (\<exists>n::int. of_int n = fraction v * 10 ^ nat p)"
  proof (cases "0 \<le> ?e + p")
    case True
    have "fraction v * 10 ^ nat p = of_int (apply_sign (dsign v) (int (?c * 10 ^ nat (?e + p))))"
      unfolding fr using scaled_value_nonneg [OF True p(1), of ?c] by (simp add: apply_sign_def)
    with True p show ?thesis by force
  next
    case f: False
    with k(3) have "\<not> 10 dvd ?c" by linarith
    from scaled_value_iff [OF p(1) this] f show ?thesis unfolding fr by auto
  qed
  show ?thesis using red rep fr by (auto simp: fraction_powi)
qed

lemma multiply_decimals_exact_range:
  "multiply_decimals_exact a b = Inr d \<Longrightarrow> is_zero d \<or> decimal_in_range (dcoef d) (dexp d)"
  by (auto simp: multiply_decimals_exact_def decimal_from_tuple_def Let_def is_zero_def
      split: if_splits)

lemma mk_money_Inr_iff [res_simps]:
  "mk_money v c = Inr m \<longleftrightarrow> (\<exists>a. v = PyDecimal a \<and> m = \<lparr>m_amount = a, m_currency = c\<rparr> \<and>
     is_registered DEFAULT_CURRENCY_REGISTRY c \<and> max 0 (- dexp a) \<le> cur_precision c)"
  by (auto simp: mk_money_def res_simps not_less)

lemma mk_price_Inr_iff [res_simps]:
  "mk_price v c = Inr m \<longleftrightarrow> (\<exists>a. v = PyDecimal a \<and> m = \<lparr>p_amount = a, p_currency = c\<rparr> \<and>
     is_registered DEFAULT_CURRENCY_REGISTRY c \<and> 0 < fraction a)"
  by (auto simp: mk_price_def res_simps dec_le_def)

lemma mk_currency_conversion_Inr_iff:
  "mk_currency_conversion s tc (PyDecimal r) t = Inr cc \<longleftrightarrow>
     cc = \<lparr>cc_source = s, cc_target_currency = tc, cc_rate = r, cc_target = t\<rparr> \<and>
     is_registered DEFAULT_CURRENCY_REGISTRY tc \<and> 0 < fraction r \<and> m_currency s \<noteq> tc \<and>
     m_currency t = tc \<and> is_ok (multiply_decimals_exact (m_amount s) r) \<and>
     fraction (m_amount t) = fraction (m_amount s) * fraction r"
  by (auto simp: mk_currency_conversion_def res_simps is_ok_iff dec_le_def dec_eq_def
      multiply_decimals_exact_fraction)

lemma convert_money_exact_iff:
  "is_ok (convert_money_exact s tc (PyDecimal r)) \<longleftrightarrow>
     is_registered DEFAULT_CURRENCY_REGISTRY tc \<and> 0 < fraction r \<and> m_currency s \<noteq> tc \<and>
     is_ok (multiply_decimals_exact (m_amount s) r) \<and>
     (\<exists>n::int. of_int n = fraction (m_amount s) * fraction r * 10 ^ nat (cur_precision tc))"
  (is "?L \<longleftrightarrow> ?R")
proof (cases "is_registered DEFAULT_CURRENCY_REGISTRY tc \<and> 0 < fraction r \<and> m_currency s \<noteq> tc \<and>
     is_ok (multiply_decimals_exact (m_amount s) r)")
  case True
  then obtain x where x: "multiply_decimals_exact (m_amount s) r = Inr x" by (auto simp: is_ok_iff)
  note p = registered_precision [of tc]
  obtain d where d: "reduce_fractional_trailing_zeros_to_precision x (cur_precision tc) = Inr d"
    "fraction d = fraction x"
    "max 0 (- dexp d) \<le> cur_precision tc
       \<longleftrightarrow> (\<exists>n::int. of_int n = fraction x * 10 ^ nat (cur_precision tc))"
    using reduce_fractional_trailing_zeros [OF _ _ multiply_decimals_exact_range [OF x]] True p by blast
  have "?L \<longleftrightarrow> max 0 (- dexp d) \<le> cur_precision tc"
    using True x d(1,2) multiply_decimals_exact_fraction [OF x]
    by (auto simp: convert_money_exact_def is_ok_iff res_simps dec_le_def
        mk_currency_conversion_Inr_iff)
  with d(3) True multiply_decimals_exact_fraction [OF x] show ?thesis by simp
next
  case False
  then show ?thesis
    by (auto simp: convert_money_exact_def is_ok_iff res_simps dec_le_def)
qed

lemma convert_money_exact_Inr:
  assumes "convert_money_exact s tc (PyDecimal r) = Inr cc"
  shows "cc_source cc = s" "cc_target_currency cc = tc" "cc_rate cc = r"
    "m_currency (cc_target cc) = tc"
    "fraction (m_amount (cc_target cc)) = fraction (m_amount s) * fraction r"
  using assms
  by (auto simp: convert_money_exact_def res_simps mk_currency_conversion_Inr_iff)

lemma mk_order_quantity_Inr:
  assumes "mk_order_quantity (PyDecimal v) p = Inr q"
  shows "fraction (oq_value q) = fraction v" "0 \<le> fraction (oq_value q)" "oq_precision q = p"
    "dexp (oq_value q) = - p" "0 \<le> p" "p \<le> 18"
    "mk_order_quantity (PyDecimal (oq_value q)) p = Inr q"
  using assms normalize_quantity_Inr [of v p "oq_value q"]
  by (auto simp: mk_order_quantity_def res_simps dec_lt_def)

lemma mk_quantity_Inr:
  assumes "mk_quantity (PyDecimal v) p = Inr q"
  shows "fraction (q_value q) = fraction v" "q_precision q = p" "dexp (q_value q) = - p"
    "0 \<le> p" "p \<le> 18" "mk_quantity (PyDecimal (q_value q)) p = Inr q"
  using assms normalize_quantity_Inr [of v p "q_value q"]
  by (auto simp: mk_quantity_def res_simps)


subsection \<open>Properties\<close>

text \<open>
  at a supported precision the scaled integer is returned exactly when the value times that
  power of ten is an integer of at most 128 digits, and it is that integer; no rounding occurs.
\<close>

theorem scaled_integer_exact:
  assumes "0 \<le> precision" "precision \<le> 18"
  shows "decimal_to_scaled_integer v precision = Inr n \<longleftrightarrow>
           of_int n = fraction v * 10 ^ nat precision \<and> \<bar>n\<bar> < 10 ^ 128"
  using assms by (rule decimal_to_scaled_integer_iff)

theorem scaled_integer_exact_witness:
  "decimal_to_scaled_integer \<lparr>dsign = True, dcoef = 1250, dexp = - 3\<rparr> 2 = Inr (- 125)"
  by (subst scaled_integer_exact) (simp_all add: fraction_def)

text \<open>
  the digit-stripping multiple test decides divisibility of the exact values: for a positive
  increment it returns whether the value is an integer multiple of the increment.
\<close>

theorem exact_multiple_decides:
  assumes "0 < fraction increment"
  shows "is_exact_decimal_multiple v increment = Inr (\<exists>z::int. fraction v = of_int z * fraction increment)"
  using assms by (rule is_exact_decimal_multiple_iff)

theorem exact_multiple_decides_witness:
  "is_exact_decimal_multiple \<lparr>dsign = False, dcoef = 75, dexp = - 2\<rparr> \<lparr>dsign = False, dcoef = 25, dexp = - 2\<rparr>
     = Inr True"
proof -
  have "\<exists>z::int. (75 / 100 :: rat) = of_int z * (25 / 100)" by (rule exI [of _ 3]) simp
  then show ?thesis
    using exact_multiple_decides [of "\<lparr>dsign = False, dcoef = 25, dexp = - 2\<rparr>"
        "\<lparr>dsign = False, dcoef = 75, dexp = - 2\<rparr>"]
    by (simp add: fraction_def)
qed

text \<open>
  quantities are canonical: a quantity is built from a value exactly when the value is a
  multiple of the precision's unit below 128 digits, and it then carries the one representation at
  that precision; so numerically equal inputs give identical quantities and rebuilding a quantity
  from its own value returns it.
\<close>

theorem quantity_canonical:
  assumes "0 \<le> precision" "precision \<le> 18"
  shows "(mk_quantity (PyDecimal v) precision = Inr q \<longleftrightarrow>
      (\<exists>n::int. of_int n = fraction v * 10 ^ nat precision \<and> \<bar>n\<bar> < 10 ^ 128
         \<and> q = \<lparr>q_value = \<lparr>dsign = n < 0, dcoef = nat \<bar>n\<bar>, dexp = - precision\<rparr>, q_precision = precision\<rparr>))
    \<and> (mk_quantity (PyDecimal v) precision = Inr q \<longrightarrow>
       mk_quantity (PyDecimal (q_value q)) (q_precision q) = Inr q \<and> fraction (q_value q) = fraction v)"
  using mk_quantity_Inr [of v precision q]
  by (auto simp: mk_quantity_def res_simps normalize_quantity_iff [OF assms] normalized_def)

theorem quantity_canonical_witness:
  "mk_quantity (PyDecimal \<lparr>dsign = False, dcoef = 15000, dexp = - 4\<rparr>) 2
     = Inr \<lparr>q_value = \<lparr>dsign = False, dcoef = 150, dexp = - 2\<rparr>, q_precision = 2\<rparr>"
proof -
  have "of_int 150 = fraction \<lparr>dsign = False, dcoef = 15000, dexp = - 4\<rparr> * 10 ^ nat 2"
    by (simp add: fraction_def)
  with quantity_canonical [of 2 "\<lparr>dsign = False, dcoef = 15000, dexp = - 4\<rparr>"] show ?thesis
    by (auto intro!: exI [of _ 150])
qed

text \<open>
  Currency conversion is exact or refused: it succeeds exactly for a registered target
  different from the source currency, a positive rate and a product that the target's precision
  can hold, and the converted amount is then the source amount times the rate.
\<close>

theorem conversion_exact_or_refused:
  "(is_ok (convert_money_exact s target (PyDecimal r)) \<longleftrightarrow>
     is_registered DEFAULT_CURRENCY_REGISTRY target \<and> 0 < fraction r \<and> m_currency s \<noteq> target
     \<and> is_ok (multiply_decimals_exact (m_amount s) r)
     \<and> (\<exists>n::int. of_int n = fraction (m_amount s) * fraction r * 10 ^ nat (cur_precision target)))
   \<and> (\<forall>cc. convert_money_exact s target (PyDecimal r) = Inr cc \<longrightarrow>
        cc_source cc = s \<and> m_currency (cc_target cc) = target
        \<and> fraction (m_amount (cc_target cc)) = fraction (m_amount s) * fraction r)"
  unfolding convert_money_exact_iff by (simp add: convert_money_exact_Inr)

theorem conversion_exact_or_refused_witness:
  "\<not> is_ok (convert_money_exact \<lparr>m_amount = \<lparr>dsign = False, dcoef = 1, dexp = 0\<rparr>, m_currency = BTC\<rparr> USD
      (PyDecimal \<lparr>dsign = False, dcoef = 1, dexp = - 3\<rparr>))"
proof -
  have "(of_int n :: rat) \<noteq> 1 / 10" for n :: int
  proof
    assume "(of_int n :: rat) = 1 / 10"
    then have "(of_int (n * 10) :: rat) = of_int 1" by simp
    then have "n * 10 = 1" by (simp only: of_int_eq_iff)
    then show False by presburger
  qed
  then show ?thesis
    using conversion_exact_or_refused [of "\<lparr>m_amount = \<lparr>dsign = False, dcoef = 1, dexp = 0\<rparr>, m_currency = BTC\<rparr>"
        USD "\<lparr>dsign = False, dcoef = 1, dexp = - 3\<rparr>"]
    by (simp add: fraction_def currency_defs)
qed

end
