(* ===== verification/Decimal_Text.thy ===== *)
theory Decimal_Text
  imports Primitives
begin

section \<open>The canonical decimal text (packages/domain/primitives.py)\<close>

text \<open>
  \<open>serialize_canonical_decimal\<close> prints a value without exponent and without trailing zeros,
  and the JSON validator of the \<open>CanonicalDecimal\<close> type accepts exactly such texts. The lemmas
  show that the printed text identifies the numeric value and reads back to it.
\<close>

definition digit_char :: "nat \<Rightarrow> char" where
  "digit_char d = char_of (48 + d)"

definition digit_value :: "char \<Rightarrow> nat" where
  "digit_value c = of_char c - 48"

definition rstrip :: "char \<Rightarrow> string \<Rightarrow> string" where
  "rstrip c s = rev (dropWhile (\<lambda>x. x = c) (rev s))"

text \<open>\<open>format(value, "f")\<close>: plain notation, keeping the scale.\<close>

definition format_f :: "decimal \<Rightarrow> string" where
  "format_f d =
     (let ds = map digit_char (digits d);
          n = nat (- dexp d);
          body = (if 0 \<le> dexp d then ds @ replicate (nat (dexp d)) (CHR ''0'')
                  else if n < length ds
                  then take (length ds - n) ds @ ''.'' @ drop (length ds - n) ds
                  else ''0.'' @ replicate (n - length ds) (CHR ''0'') @ ds)
      in (if dsign d then ''-'' else []) @ body)"

definition serialize_canonical_decimal :: "decimal \<Rightarrow> string" where
  "serialize_canonical_decimal value =
     (if is_zero value then ''0''
      else let plain = format_f value
           in if CHR ''.'' \<in> set plain then rstrip (CHR ''.'') (rstrip (CHR ''0'') plain) else plain)"

text \<open>
  \<open>^(?:0|-?[1-9]\d*|-?(?:0|[1-9]\d*)\.\d*[1-9])$\<close>: the text is split at an optional sign and at
  the first point.
\<close>

definition unsigned_integer_pattern :: "string \<Rightarrow> bool" where
  "unsigned_integer_pattern s =
     (case s of [] \<Rightarrow> False | c # cs \<Rightarrow> is_digit_char c \<and> c \<noteq> CHR ''0'' \<and> list_all is_digit_char cs)"

definition has_minus :: "string \<Rightarrow> bool" where
  "has_minus s = (take 1 s = ''-'')"

definition canonical_decimal_pattern :: "string \<Rightarrow> bool" where
  "canonical_decimal_pattern s =
     (s = ''0'' \<or>
      (let u = (if has_minus s then tl s else s);
           int_part = takeWhile (\<lambda>c. c \<noteq> CHR ''.'') u;
           rest = dropWhile (\<lambda>c. c \<noteq> CHR ''.'') u
       in if rest = [] then unsigned_integer_pattern int_part
          else (int_part = ''0'' \<or> unsigned_integer_pattern int_part)
               \<and> list_all is_digit_char (tl rest) \<and> tl rest \<noteq> [] \<and> last (tl rest) \<noteq> CHR ''0''))"

text \<open>\<open>Decimal(text)\<close> on the texts the pattern admits: an optional sign, digits, an optional point.\<close>

definition decimal_of_text :: "string \<Rightarrow> decimal res" where
  "decimal_of_text s =
     (let neg = has_minus s;
          u = (if neg then tl s else s);
          int_part = takeWhile (\<lambda>c. c \<noteq> CHR ''.'') u;
          frac_part = tl (dropWhile (\<lambda>c. c \<noteq> CHR ''.'') u)
      in if list_all is_digit_char (int_part @ frac_part) \<and> int_part @ frac_part \<noteq> []
         then decimal_from_tuple neg (map digit_value (int_part @ frac_part)) (- int (length frac_part))
         else Inl InvalidOperation)"

datatype decimal_input = JsonText string | JsonOther | PyValue py_number

definition validate_canonical_decimal :: "decimal_input \<Rightarrow> decimal res" where
  "validate_canonical_decimal value =
     (case value of
        JsonOther \<Rightarrow> Inl (ValueError ''value must be a canonical Decimal string'')
      | JsonText s \<Rightarrow>
          (if \<not> canonical_decimal_pattern s
           then Inl (ValueError ''value must be a canonical Decimal string'')
           else case decimal_of_text s of
                  Inl _ \<Rightarrow> Inl (ValueError ''value must be a valid Decimal string'')
                | Inr parsed \<Rightarrow>
                    if serialize_canonical_decimal parsed \<noteq> s
                    then Inl (ValueError ''value must be a canonical Decimal string'')
                    else Inr parsed)
      | PyValue PyOther \<Rightarrow> Inl (ValueError ''value must be a Decimal instance'')
      | PyValue PyInfinite \<Rightarrow> Inl (ValueError ''value must be finite'')
      | PyValue PyNaN \<Rightarrow> Inl (ValueError ''value must be finite'')
      | PyValue (PyDecimal d) \<Rightarrow> Inr d)"

lemma of_char_digit_char: "d < 10 \<Longrightarrow> of_char (digit_char d) = 48 + d"
  by (simp add: digit_char_def)

lemma digit_value_digit_char [simp]: "d < 10 \<Longrightarrow> digit_value (digit_char d) = d"
  by (simp add: digit_value_def of_char_digit_char)

lemma is_digit_digit_char [simp]: "d < 10 \<Longrightarrow> is_digit_char (digit_char d)"
  by (simp add: is_digit_char_def less_eq_char_def of_char_digit_char)

lemma digit_char_inj: "a < 10 \<Longrightarrow> b < 10 \<Longrightarrow> digit_char a = digit_char b \<longleftrightarrow> a = b"
  by (metis digit_value_digit_char)

lemma digit_char_0 [simp]: "digit_char 0 = CHR ''0''"
proof -
  have "of_char (digit_char 0) = (of_char (CHR ''0'') :: nat)" by (simp add: of_char_digit_char)
  then show ?thesis by (simp only: of_char_eq_iff)
qed

lemma digit_char_eq_0: "d < 10 \<Longrightarrow> digit_char d = CHR ''0'' \<longleftrightarrow> d = 0"
  using digit_char_inj [of d 0] by simp

lemma digit_char_neq: "d < 10 \<Longrightarrow> digit_char d \<noteq> CHR ''.''" "d < 10 \<Longrightarrow> digit_char d \<noteq> CHR ''-''"
  using is_digit_digit_char by (fastforce simp: is_digit_char_def)+

text \<open>The plain text of \<open>c / 10 ^ n\<close> with exactly \<open>n\<close> fractional digits, and its canonical form.\<close>

fun frac_digits :: "nat \<Rightarrow> nat \<Rightarrow> nat list" where
  "frac_digits 0 c = []"
| "frac_digits (Suc n) c = frac_digits n (c div 10) @ [c mod 10]"

definition plain_text :: "nat \<Rightarrow> nat \<Rightarrow> string" where
  "plain_text c n =
     (if n = 0 then map digit_char (as_digits c)
      else map digit_char (as_digits (c div 10 ^ n)) @ ''.'' @ map digit_char (frac_digits n c))"

fun lowest_scale :: "nat \<Rightarrow> nat \<Rightarrow> nat \<times> nat" where
  "lowest_scale c 0 = (c, 0)"
| "lowest_scale c (Suc n) = (if c mod 10 = 0 then lowest_scale (c div 10) n else (c, Suc n))"

lemma length_frac_digits [simp]: "length (frac_digits n c) = n"
  by (induction n arbitrary: c) auto

lemma frac_digits_lt_10: "d \<in> set (frac_digits n c) \<Longrightarrow> d < 10"
  by (induction n arbitrary: c) auto

lemma coefficient_frac_digits: "coefficient_of (frac_digits n c) = c mod 10 ^ n"
proof (induction n arbitrary: c)
  case 0
  then show ?case by simp
next
  case (Suc n)
  have "c mod 10 ^ Suc n = 10 * (c div 10 mod 10 ^ n) + c mod 10"
    by (simp add: mod_mult2_eq)
  with Suc show ?case by simp
qed

lemma as_digits_split:
  assumes "n < length (as_digits c)"
  shows "as_digits c = as_digits (c div 10 ^ n) @ frac_digits n c"
  using assms
proof (induction n arbitrary: c)
  case 0
  then show ?case by simp
next
  case (Suc n)
  then have "\<not> c < 10" by (auto simp: as_digits.simps [of c] split: if_splits)
  then have eq: "as_digits c = as_digits (c div 10) @ [c mod 10]"
    by (simp add: as_digits.simps [of c])
  with Suc.prems have "n < length (as_digits (c div 10))" by simp
  from Suc.IH [OF this] eq show ?case by (simp add: div_mult2_eq)
qed

lemma frac_digits_0: "frac_digits n 0 = replicate n 0"
  by (induction n) (auto simp: replicate_append_same)

lemma frac_digits_pad:
  assumes "length (as_digits c) \<le> n"
  shows "replicate (n - length (as_digits c)) 0 @ as_digits c = frac_digits n c"
  using assms
proof (induction n arbitrary: c)
  case 0
  then show ?case by simp
next
  case (Suc n)
  show ?case
  proof (cases "c < 10")
    case True
    then show ?thesis by (simp add: as_digits.simps [of c] frac_digits_0)
  next
    case False
    then have eq: "as_digits c = as_digits (c div 10) @ [c mod 10]"
      by (simp add: as_digits.simps [of c])
    with Suc.prems have "length (as_digits (c div 10)) \<le> n" by simp
    from Suc.IH [OF this] eq show ?thesis by simp
  qed
qed

lemma format_f_plain_text:
  "dexp d < 0 \<Longrightarrow> format_f d = (if dsign d then ''-'' else []) @ plain_text (dcoef d) (nat (- dexp d))"
proof -
  assume neg: "dexp d < 0"
  let ?c = "dcoef d" and ?n = "nat (- dexp d)"
  let ?ds = "as_digits ?c"
  show ?thesis
  proof (cases "?n < length ?ds")
    case True
    from as_digits_split [OF True]
    have "take (length ?ds - ?n) ?ds = as_digits (?c div 10 ^ ?n)"
      and "drop (length ?ds - ?n) ?ds = frac_digits ?n ?c"
      by (metis append_eq_conv_conj length_append length_frac_digits add_diff_cancel_right')+
    with True neg show ?thesis
      by (simp add: format_f_def plain_text_def digits_def Let_def take_map drop_map)
  next
    case False
    then have le: "length ?ds \<le> ?n" by simp
    have "?c < 10 ^ ?n"
      by (rule order_less_le_trans [OF as_digits_bound power_increasing [OF le]]) simp
    then have "?c div 10 ^ ?n = 0" by simp
    with frac_digits_pad [OF le, symmetric] False neg show ?thesis
      by (simp add: format_f_def plain_text_def digits_def Let_def as_digits.simps [of 0])
  qed
qed

lemma as_digits_mult_power:
  "0 < c \<Longrightarrow> as_digits (c * 10 ^ k) = as_digits c @ replicate k 0"
proof (induction k)
  case 0
  then show ?case by simp
next
  case (Suc k)
  have "\<not> c * 10 ^ Suc k < 10" using Suc.prems by simp
  then have "as_digits (c * 10 ^ Suc k) = as_digits (c * 10 ^ k) @ [0]"
    by (subst as_digits.simps) simp
  with Suc show ?case by (simp add: replicate_append_same)
qed

lemma format_f_integral:
  "0 \<le> dexp d \<Longrightarrow> \<not> is_zero d \<Longrightarrow>
     format_f d = (if dsign d then ''-'' else []) @ plain_text (dcoef d * 10 ^ nat (dexp d)) 0"
  by (simp add: format_f_def plain_text_def digits_def Let_def as_digits_mult_power is_zero_def)

lemma rstrip_append_keep: "x \<noteq> c \<Longrightarrow> rstrip c (s @ [x]) = s @ [x]"
  by (simp add: rstrip_def)

lemma rstrip_append_drop: "rstrip c (s @ [c]) = rstrip c s"
  by (simp add: rstrip_def)

lemma plain_text_snoc:
  "plain_text c (Suc (Suc n)) = plain_text (c div 10) (Suc n) @ [digit_char (c mod 10)]"
  by (simp add: plain_text_def flip: div_mult2_eq)

lemma rstrip_plain_text:
  "rstrip (CHR ''.'') (rstrip (CHR ''0'') (s @ plain_text c (Suc n)))
     = s @ (case lowest_scale c (Suc n) of (c', n') \<Rightarrow> plain_text c' n')"
proof (induction n arbitrary: c)
  case 0
  have one: "plain_text c (Suc 0) = plain_text (c div 10) 0 @ ''.'' @ [digit_char (c mod 10)]"
    by (simp add: plain_text_def)
  obtain ys x where ys: "as_digits (c div 10) = ys @ [x]" by (metis rev_exhaust as_digits_nonempty)
  then have x: "plain_text (c div 10) 0 = map digit_char ys @ [digit_char x]" "x < 10"
    using as_digits_lt_10 [of x "c div 10"] by (simp_all add: plain_text_def)
  show ?case
  proof (cases "c mod 10 = 0")
    case True
    then show ?thesis unfolding one using x(2) digit_char_neq(1) [OF x(2)]
      by (simp add: rstrip_def x(1))
  next
    case False
    then have "digit_char (c mod 10) \<noteq> CHR ''0''" "digit_char (c mod 10) \<noteq> CHR ''.''"
      using digit_char_eq_0 [of "c mod 10"] digit_char_neq(1) [of "c mod 10"] by auto
    with False show ?thesis by (simp add: rstrip_def one)
  qed
next
  case (Suc n)
  show ?case
  proof (cases "c mod 10 = 0")
    case True
    then have "rstrip (CHR ''0'') (s @ plain_text c (Suc (Suc n)))
        = rstrip (CHR ''0'') (s @ plain_text (c div 10) (Suc n))"
      unfolding plain_text_snoc by (metis append_assoc digit_char_0 rstrip_append_drop)
    with Suc.IH [of "c div 10"] True show ?thesis by simp
  next
    case False
    then have "digit_char (c mod 10) \<noteq> CHR ''0''" "digit_char (c mod 10) \<noteq> CHR ''.''"
      using digit_char_eq_0 [of "c mod 10"] digit_char_neq(1) [of "c mod 10"] by auto
    with False show ?thesis by (simp add: rstrip_def plain_text_snoc)
  qed
qed

lemma lowest_scale_spec:
  assumes "lowest_scale c n = (c', n')"
  shows "c * 10 ^ n' = c' * 10 ^ n" "n' = 0 \<or> c' mod 10 \<noteq> 0" "c = 0 \<longleftrightarrow> c' = 0" "n' \<le> n"
proof -
  have "c * 10 ^ n' = c' * 10 ^ n \<and> (n' = 0 \<or> c' mod 10 \<noteq> 0) \<and> (c = 0 \<longleftrightarrow> c' = 0) \<and> n' \<le> n"
    using assms
  proof (induction n arbitrary: c)
    case 0
    then show ?case by simp
  next
    case (Suc n)
    show ?case
    proof (cases "c mod 10 = 0")
      case True
      then obtain r where r: "c = 10 * r" by auto
      with Suc True show ?thesis by fastforce
    next
      case False
      with Suc.prems show ?thesis by auto
    qed
  qed
  then show "c * 10 ^ n' = c' * 10 ^ n" "n' = 0 \<or> c' mod 10 \<noteq> 0" "c = 0 \<longleftrightarrow> c' = 0" "n' \<le> n" by auto
qed

lemma lowest_scale_unique:
  assumes "a * 10 ^ m = b * (10::nat) ^ n" and "n = 0 \<or> a mod 10 \<noteq> 0" and "m = 0 \<or> b mod 10 \<noteq> 0"
  shows "a = b \<and> n = m"
proof -
  have aux: "a = b \<and> n = m"
    if A: "a * 10 ^ m = b * (10::nat) ^ n" and B: "n = 0 \<or> a mod 10 \<noteq> 0" and C: "m \<le> n"
    for a b m n
  proof -
    obtain k where k: "n = m + k" using C le_Suc_ex by blast
    with A have eq: "a = b * 10 ^ k" by (simp add: power_add)
    show ?thesis
    proof (cases k)
      case 0
      with eq k show ?thesis by simp
    next
      case (Suc j)
      with eq have "a mod 10 = 0" by simp
      with B k Suc show ?thesis by simp
    qed
  qed
  show ?thesis
    using aux [of a m b n] aux [of b n a m] assms by (metis nat_le_linear)
qed

text \<open>A canonical scale and coefficient of a nonzero value, and the text it prints.\<close>

definition canonical_scale :: "decimal \<Rightarrow> nat \<times> nat" where
  "canonical_scale d =
     (if 0 \<le> dexp d then (dcoef d * 10 ^ nat (dexp d), 0)
      else lowest_scale (dcoef d) (nat (- dexp d)))"

lemma plain_text_point: "CHR ''.'' \<in> set (plain_text c n) \<longleftrightarrow> n \<noteq> 0"
  by (auto simp: plain_text_def) (metis as_digits_lt_10 digit_char_neq(1))

lemma serialize_canonical_scale:
  assumes "\<not> is_zero d"
  shows "serialize_canonical_decimal d = (if dsign d then ''-'' else []) @
    (case canonical_scale d of (c, n) \<Rightarrow> plain_text c n)"
proof (cases "0 \<le> dexp d")
  case True
  with assms show ?thesis
    by (simp add: serialize_canonical_decimal_def canonical_scale_def format_f_integral Let_def
        plain_text_point)
next
  case False
  then obtain n where n: "nat (- dexp d) = Suc n"
    by (metis gr0_conv_Suc neg_0_less_iff_less not_le zero_less_nat_eq)
  with False assms show ?thesis
    by (simp add: serialize_canonical_decimal_def canonical_scale_def format_f_plain_text Let_def
        plain_text_point rstrip_plain_text)
qed

lemma canonical_scale_spec:
  assumes "canonical_scale d = (c, n)"
  shows "fraction d = apply_sign (dsign d) (of_nat c / 10 ^ n)" "n = 0 \<or> c mod 10 \<noteq> 0"
    "is_zero d \<longleftrightarrow> c = 0"
proof -
  have "fraction d = apply_sign (dsign d) (of_nat c / 10 ^ n) \<and> (n = 0 \<or> c mod 10 \<noteq> 0)
      \<and> (is_zero d \<longleftrightarrow> c = 0)"
  proof (cases "0 \<le> dexp d")
    case True
    with assms show ?thesis
      by (auto simp: canonical_scale_def fraction_def apply_sign_def is_zero_def)
  next
    case False
    then have ls: "lowest_scale (dcoef d) (nat (- dexp d)) = (c, n)"
      using assms by (simp add: canonical_scale_def)
    have "(of_nat (dcoef d) :: rat) * 10 ^ n = of_nat c * 10 ^ nat (- dexp d)"
      using lowest_scale_spec(1) [OF ls] by (metis of_nat_mult of_nat_numeral of_nat_power)
    then have "(of_nat (dcoef d) :: rat) / 10 ^ nat (- dexp d) = of_nat c / 10 ^ n"
      by (simp add: field_simps)
    with False lowest_scale_spec(2,3) [OF ls] show ?thesis
      by (auto simp: fraction_def apply_sign_def is_zero_def Let_def)
  qed
  then show "fraction d = apply_sign (dsign d) (of_nat c / 10 ^ n)" "n = 0 \<or> c mod 10 \<noteq> 0"
    "is_zero d \<longleftrightarrow> c = 0" by auto
qed


text \<open>Reading a plain text back.\<close>

definition text_digits :: "nat \<Rightarrow> nat \<Rightarrow> nat list" where
  "text_digits c n = as_digits (c div 10 ^ n) @ frac_digits n c"

lemma coefficient_text_digits: "coefficient_of (text_digits c n) = c"
  by (simp add: text_digits_def coefficient_of_append coefficient_frac_digits div_mult_mod_eq)

lemma text_digits_lt_10: "d \<in> set (text_digits c n) \<Longrightarrow> d < 10"
  by (auto simp: text_digits_def dest: as_digits_lt_10 frac_digits_lt_10)

lemma plain_text_parts:
  shows "takeWhile (\<lambda>c. c \<noteq> CHR ''.'') (plain_text c n) = map digit_char (as_digits (c div 10 ^ n))"
    and "dropWhile (\<lambda>c. c \<noteq> CHR ''.'') (plain_text c n)
      = (if n = 0 then [] else CHR ''.'' # map digit_char (frac_digits n c))"
proof -
  let ?i = "map digit_char (as_digits (c div 10 ^ n))"
  have no_point: "x \<noteq> CHR ''.''" if "x \<in> set ?i" for x
    using that digit_char_neq(1) as_digits_lt_10 by auto
  have eq: "plain_text c n = ?i @ (if n = 0 then [] else CHR ''.'' # map digit_char (frac_digits n c))"
    by (simp add: plain_text_def)
  show "takeWhile (\<lambda>c. c \<noteq> CHR ''.'') (plain_text c n) = ?i"
    unfolding eq using no_point by (subst takeWhile_append2) auto
  show "dropWhile (\<lambda>c. c \<noteq> CHR ''.'') (plain_text c n)
      = (if n = 0 then [] else CHR ''.'' # map digit_char (frac_digits n c))"
    unfolding eq using no_point by (subst dropWhile_append2) auto
qed

lemma plain_text_hd: "plain_text c n \<noteq> [] \<and> hd (plain_text c n) \<noteq> CHR ''-''"
proof -
  obtain x xs where x: "as_digits (c div 10 ^ n) = x # xs" by (metis as_digits_nonempty neq_Nil_conv)
  have "x < 10" using as_digits_lt_10 [of x "c div 10 ^ n"] x by simp
  with x digit_char_neq(2) show ?thesis by (cases "n = 0") (auto simp: plain_text_def)
qed

lemma map_digit_char_inj:
  assumes "map digit_char xs = map digit_char ys" "\<forall>d \<in> set xs. d < 10" "\<forall>d \<in> set ys. d < 10"
  shows "xs = ys"
proof -
  have "map digit_value (map digit_char xs) = map digit_value (map digit_char ys)"
    using assms(1) by simp
  moreover have "map digit_value (map digit_char zs) = zs" if "\<forall>d \<in> set zs. d < 10" for zs
    using that by (induction zs) auto
  ultimately show ?thesis using assms(2,3) by simp
qed

lemma plain_text_inj:
  assumes "plain_text c n = plain_text c' n'"
  shows "c = c' \<and> n = n'"
proof -
  have "map digit_char (as_digits (c div 10 ^ n)) = map digit_char (as_digits (c' div 10 ^ n'))"
    using plain_text_parts(1) [of c n] plain_text_parts(1) [of c' n'] assms by simp
  then have i: "as_digits (c div 10 ^ n) = as_digits (c' div 10 ^ n')"
    by (rule map_digit_char_inj) (auto dest: as_digits_lt_10)
  have "map digit_char (frac_digits n c) = map digit_char (frac_digits n' c')"
    using plain_text_parts(2) [of c n] plain_text_parts(2) [of c' n'] assms
    by (auto split: if_splits)
  then have f: "frac_digits n c = frac_digits n' c'"
    by (rule map_digit_char_inj) (auto dest: frac_digits_lt_10)
  from i f have "text_digits c n = text_digits c' n'" by (simp add: text_digits_def)
  then have "c = c'" by (metis coefficient_text_digits)
  moreover have "n = n'" using f by (metis length_frac_digits)
  ultimately show ?thesis ..
qed

lemma signed_text_inj:
  assumes "(if s then ''-'' else []) @ t = (if s' then ''-'' else []) @ t'"
    and "hd t \<noteq> CHR ''-''" "t \<noteq> []" "hd t' \<noteq> CHR ''-''" "t' \<noteq> []"
  shows "s = s' \<and> t = t'"
  using assms by (cases t; cases t'; cases s; cases s') auto

lemma plain_text_not_zero: "0 < c \<Longrightarrow> (if s then ''-'' else []) @ plain_text c n \<noteq> ''0''"
proof
  assume "0 < c" and eq: "(if s then ''-'' else []) @ plain_text c n = ''0''"
  have zero: "''0'' = (if False then ''-'' else []) @ plain_text 0 0"
    by (simp add: plain_text_def as_digits.simps [of 0])
  from eq zero have "(if s then ''-'' else []) @ plain_text c n
      = (if False then ''-'' else []) @ plain_text 0 0" by simp
  from signed_text_inj [OF this] have "plain_text c n = plain_text 0 0"
    using plain_text_hd by blast
  with plain_text_inj \<open>0 < c\<close> show False by blast
qed

lemma canonical_scale_same_value:
  assumes "fraction a = fraction b" "\<not> is_zero a"
  shows "dsign a = dsign b \<and> canonical_scale a = canonical_scale b"
proof -
  obtain c n c' n' where cs: "canonical_scale a = (c, n)" "canonical_scale b = (c', n')"
    by fastforce
  have nz: "\<not> is_zero b" using assms by (metis fraction_zero_iff)
  have sgn: "dsign a = dsign b"
    using assms nz fraction_neg_iff [of a] fraction_neg_iff [of b] by auto
  with canonical_scale_spec(1) [OF cs(1)] canonical_scale_spec(1) [OF cs(2)] assms(1)
  have "(of_nat c :: rat) / 10 ^ n = of_nat c' / 10 ^ n'"
    by (auto simp: apply_sign_def split: if_splits)
  then have "(of_nat (c * 10 ^ n') :: rat) = of_nat (c' * 10 ^ n)"
    by (simp add: field_simps)
  then have "c * 10 ^ n' = c' * 10 ^ n" by (simp only: of_nat_eq_iff)
  from lowest_scale_unique [OF this canonical_scale_spec(2) [OF cs(1)]
      canonical_scale_spec(2) [OF cs(2)]] cs sgn
  show ?thesis by simp
qed

lemma serialize_nonzero_inj:
  assumes "\<not> is_zero a" "\<not> is_zero b"
    and "serialize_canonical_decimal a = serialize_canonical_decimal b"
  shows "fraction a = fraction b"
proof -
  obtain c n c' n' where cs: "canonical_scale a = (c, n)" "canonical_scale b = (c', n')"
    by fastforce
  from assms cs have "(if dsign a then ''-'' else []) @ plain_text c n
      = (if dsign b then ''-'' else []) @ plain_text c' n'"
    by (simp add: serialize_canonical_scale)
  from signed_text_inj [OF this] have "dsign a = dsign b" "plain_text c n = plain_text c' n'"
    using plain_text_hd by blast+
  with plain_text_inj [of c n c' n'] canonical_scale_spec(1) [OF cs(1)] canonical_scale_spec(1) [OF cs(2)]
  show ?thesis by simp
qed

lemma serialize_zero_iff: "serialize_canonical_decimal a = ''0'' \<longleftrightarrow> is_zero a"
proof
  show "is_zero a \<Longrightarrow> serialize_canonical_decimal a = ''0''"
    by (simp add: serialize_canonical_decimal_def)
  assume eq: "serialize_canonical_decimal a = ''0''"
  show "is_zero a"
  proof (rule ccontr)
    assume nz: "\<not> is_zero a"
    obtain c n where cs: "canonical_scale a = (c, n)" by fastforce
    with nz canonical_scale_spec(3) [OF cs] have "0 < c" by simp
    from plain_text_not_zero [OF this] eq nz cs show False
      by (simp add: serialize_canonical_scale)
  qed
qed

lemma serialize_eq_iff:
  "serialize_canonical_decimal a = serialize_canonical_decimal b \<longleftrightarrow> fraction a = fraction b"
proof (cases "is_zero a \<or> is_zero b")
  case True
  then have "(serialize_canonical_decimal a = serialize_canonical_decimal b) = (is_zero a \<and> is_zero b)"
    using serialize_zero_iff [of a] serialize_zero_iff [of b] by auto
  moreover have "(fraction a = fraction b) = (is_zero a \<and> is_zero b)"
    using True fraction_zero_iff [of a] fraction_zero_iff [of b] by auto
  ultimately show ?thesis by simp
next
  case False
  then have "serialize_canonical_decimal a = serialize_canonical_decimal b"
    if "fraction a = fraction b"
    using canonical_scale_same_value [OF that] by (simp add: serialize_canonical_scale)
  with False serialize_nonzero_inj [of a b] show ?thesis by blast
qed

text \<open>Parsing the printed text.\<close>

lemma decimal_of_plain_text:
  "decimal_of_text ((if s then ''-'' else []) @ plain_text c n)
     = decimal_from_tuple s (text_digits c n) (- int n)"
proof -
  let ?t = "plain_text c n" and ?full = "(if s then ''-'' else []) @ plain_text c n"
  have neg: "has_minus ?full = s"
    using plain_text_hd [of c n] by (cases ?t) (auto simp: has_minus_def)
  then have u: "(if has_minus ?full then tl ?full else ?full) = ?t" by simp
  have fr: "tl (dropWhile (\<lambda>c. c \<noteq> CHR ''.'') ?t) = map digit_char (frac_digits n c)"
    by (auto simp: plain_text_parts(2))
  have "map digit_value (map digit_char (text_digits c n)) = text_digits c n"
    by (rule map_idI [THEN trans [OF map_map]]) (auto dest: text_digits_lt_10)
  moreover have "list_all is_digit_char (map digit_char (text_digits c n))"
    by (auto simp: list_all_iff dest: text_digits_lt_10)
  ultimately show ?thesis
    unfolding decimal_of_text_def Let_def neg
    by (cases s) (simp_all add: text_digits_def fr plain_text_parts(1))
qed

lemma hd_as_digits: "0 < n \<Longrightarrow> hd (as_digits n) \<noteq> 0"
proof (induction n rule: as_digits.induct)
  case (1 n)
  then show ?case by (cases "n < 10") (auto simp: as_digits.simps [of n])
qed

lemma integer_text_pattern:
  assumes "0 < c" shows "unsigned_integer_pattern (map digit_char (as_digits c))"
proof -
  obtain x xs where x: "as_digits c = x # xs" by (metis as_digits_nonempty neq_Nil_conv)
  have lt: "d < 10" if "d \<in> set (x # xs)" for d using as_digits_lt_10 [of d c] x that by simp
  have "x \<noteq> 0" using hd_as_digits [OF assms] x by simp
  then have "digit_char x \<noteq> CHR ''0''" using digit_char_eq_0 [of x] lt by simp
  with x lt show ?thesis
    by (auto simp: unsigned_integer_pattern_def list_all_iff)
qed

lemma canonical_text_pattern:
  assumes "0 < c" and "n = 0 \<or> c mod 10 \<noteq> 0"
  shows "canonical_decimal_pattern ((if s then ''-'' else []) @ plain_text c n)"
proof -
  let ?t = "plain_text c n" and ?full = "(if s then ''-'' else []) @ plain_text c n"
  have neg: "has_minus ?full = s"
    using plain_text_hd [of c n] by (cases ?t) (auto simp: has_minus_def)
  then have u: "(if has_minus ?full then tl ?full else ?full) = ?t" by simp
  have ip: "map digit_char (as_digits (c div 10 ^ n)) = ''0'' \<or>
      unsigned_integer_pattern (map digit_char (as_digits (c div 10 ^ n)))"
    by (cases "c div 10 ^ n = 0") (auto simp: as_digits.simps [of 0] integer_text_pattern)
  show ?thesis
  proof (cases n)
    case 0
    then show ?thesis
      using assms unfolding canonical_decimal_pattern_def u Let_def plain_text_parts
      by (auto simp: integer_text_pattern)
  next
    case (Suc m)
    have "last (map digit_char (frac_digits n c)) = digit_char (c mod 10)" using Suc by simp
    also have "\<dots> \<noteq> CHR ''0''" using assms(2) Suc digit_char_eq_0 [of "c mod 10"] by simp
    finally have last: "last (map digit_char (frac_digits n c)) \<noteq> CHR ''0''" .
    have "list_all is_digit_char (map digit_char (frac_digits n c))"
      by (auto simp: list_all_iff dest: frac_digits_lt_10)
    moreover have "map digit_char (frac_digits n c) \<noteq> []" using Suc by simp
    ultimately show ?thesis
      using ip last Suc unfolding canonical_decimal_pattern_def u Let_def plain_text_parts
      by simp
  qed
qed

definition text_range :: "decimal \<Rightarrow> bool" where
  "text_range d = (int (length (digits d)) \<le> 1000000000 \<and> \<bar>dexp d\<bar> \<le> 1000000000)"

lemma lowest_scale_le: "lowest_scale c n = (c', n') \<Longrightarrow> c' \<le> c \<and> n' \<le> n"
proof (induction n arbitrary: c)
  case (Suc n)
  then show ?case
    by (cases "c mod 10 = 0")
      (use Suc.IH [of "c div 10"] in \<open>auto intro: order_trans [OF _ div_le_dividend] le_SucI\<close>)
qed simp

lemma length_as_digits_mono:
  assumes "a \<le> b" shows "length (as_digits a) \<le> length (as_digits b)"
proof (cases "a = 0")
  case True
  then show ?thesis by (simp add: as_digits.simps [of 0] Suc_le_eq)
next
  case False
  with as_digits_bound [of b] assms have "a < 10 ^ length (as_digits b)" by linarith
  with False show ?thesis by (subst length_as_digits_le_iff) auto
qed

lemma canonical_scale_in_range:
  assumes "text_range d" "\<not> is_zero d" "canonical_scale d = (c, n)"
  shows "decimal_in_range c (- int n)"
proof -
  have "int (length (as_digits c)) \<le> 2000000000 \<and> int n \<le> 1000000000"
  proof (cases "0 \<le> dexp d")
    case True
    with assms show ?thesis
      by (auto simp: canonical_scale_def text_range_def digits_def is_zero_def
          length_as_digits_mult_power)
  next
    case False
    then have "c \<le> dcoef d" "n \<le> nat (- dexp d)"
      using assms(3) lowest_scale_le by (auto simp: canonical_scale_def)
    with length_as_digits_mono [of c "dcoef d"] assms(1) show ?thesis
      by (auto simp: text_range_def digits_def)
  qed
  then show ?thesis
    by (auto simp: decimal_in_range_def Let_def MAX_PREC_def MAX_EMAX_def MIN_ETINY_def)
qed

lemma parse_serialized:
  assumes "text_range d" "\<not> is_zero d" "canonical_scale d = (c, n)"
  shows "decimal_of_text (serialize_canonical_decimal d)
    = Inr \<lparr>dsign = dsign d, dcoef = c, dexp = - int n\<rparr>"
  using assms canonical_scale_spec(3) [OF assms(3)] canonical_scale_in_range [OF assms]
  by (simp add: serialize_canonical_scale decimal_of_plain_text decimal_from_tuple_def
      coefficient_text_digits)

lemma validate_serialized:
  assumes "text_range d"
  shows "\<exists>d'. validate_canonical_decimal (JsonText (serialize_canonical_decimal d)) = Inr d'
    \<and> fraction d' = fraction d"
proof (cases "is_zero d")
  case True
  then have "serialize_canonical_decimal d = ''0''" by (simp add: serialize_zero_iff)
  moreover have "validate_canonical_decimal (JsonText ''0'') = Inr \<lparr>dsign = False, dcoef = 0, dexp = 0\<rparr>"
    by (simp add: validate_canonical_decimal_def canonical_decimal_pattern_def decimal_of_text_def
        has_minus_def is_digit_char_def decimal_from_tuple_def Let_def digit_value_def
        coefficient_of_def MIN_ETINY_def MAX_EMAX_def serialize_canonical_decimal_def is_zero_def)
  ultimately show ?thesis using True by (simp add: is_zero_def)
next
  case False
  obtain c n where cs: "canonical_scale d = (c, n)" by fastforce
  let ?d = "\<lparr>dsign = dsign d, dcoef = c, dexp = - int n\<rparr>"
  have parse: "decimal_of_text (serialize_canonical_decimal d) = Inr ?d"
    by (rule parse_serialized [OF assms False cs])
  have fr: "fraction ?d = fraction d"
    using canonical_scale_spec(1) [OF cs]
    by (auto simp: fraction_powi apply_sign_def power_int_minus field_simps)
  have pat: "canonical_decimal_pattern (serialize_canonical_decimal d)"
    using canonical_scale_spec(2,3) [OF cs] False cs canonical_text_pattern [of c n "dsign d"]
    by (simp add: serialize_canonical_scale)
  show ?thesis
    using parse fr pat serialize_eq_iff [of ?d d]
    by (simp add: validate_canonical_decimal_def)
qed

lemma validate_text_Inr_iff:
  "validate_canonical_decimal (JsonText s) = Inr d \<longleftrightarrow>
     canonical_decimal_pattern s \<and> decimal_of_text s = Inr d \<and> serialize_canonical_decimal d = s"
  by (auto simp: validate_canonical_decimal_def split: sum.splits)


subsection \<open>Properties\<close>

text \<open>
  The canonical text identifies the number: two finite decimals are serialised to the same
  text exactly when they are numerically equal, whatever their scales and signs of zero.
\<close>

theorem canonical_text_iff_equal:
  "serialize_canonical_decimal a = serialize_canonical_decimal b \<longleftrightarrow> dec_eq a b"
  by (simp add: serialize_eq_iff dec_eq_def)

text \<open>
  C40: serialised decimals read back: the validator accepts the text of every decimal of up to a
  thousand million digits and places and returns a decimal of the same value; and it accepts no
  text but the serialisation of the decimal it returns, so each value has one accepted text.
\<close>

theorem canonical_text_roundtrip:
  assumes "text_range d"
  shows "(\<exists>d'. validate_canonical_decimal (JsonText (serialize_canonical_decimal d)) = Inr d' \<and> dec_eq d' d)
    \<and> (validate_canonical_decimal (JsonText s) = Inr e \<longrightarrow> serialize_canonical_decimal e = s)"
  using validate_serialized [OF assms] validate_text_Inr_iff by (auto simp: dec_eq_def)

theorem canonical_text_roundtrip_witness:
  "\<exists>d'. validate_canonical_decimal (JsonText ''-12.5'') = Inr d'
     \<and> dec_eq d' \<lparr>dsign = True, dcoef = 12500, dexp = - 3\<rparr>"
proof -
  have "text_range \<lparr>dsign = True, dcoef = 12500, dexp = - 3\<rparr>"
    by (simp add: text_range_def digits_def as_digits.simps)
  moreover have "serialize_canonical_decimal \<lparr>dsign = True, dcoef = 12500, dexp = - 3\<rparr> = ''-12.5''"
  proof -
    have "digits \<lparr>dsign = True, dcoef = 12500, dexp = - 3\<rparr> = [1, 2, 5, 0, 0]"
      by (simp add: digits_def as_digits.simps)
    moreover have "map digit_char [1, 2, 5, 0, 0] = ''12500''" by code_simp
    ultimately show ?thesis
      by (simp add: serialize_canonical_decimal_def is_zero_def format_f_def rstrip_def)
  qed
  ultimately show ?thesis using canonical_text_roundtrip by metis
qed

end
