(* ===== verification/Instruments.thy ===== *)
theory Instruments
  imports Decimal_Text
begin

section \<open>Instrument identities and trading constraints (packages/domain/instruments.py)\<close>

text \<open>
  The canonical instrument identity, the immutable catalogue definition with its four validation
  groups, and the exact order validation bound to a definition. Every \<open>__post_init__\<close> is a
  constructor \<open>mk_...\<close>; the fields of a record may hold anything of their type, so a
  re-validation in the source is a re-validation here.

  Strings are eight-bit character lists. \<open>str.upper\<close> is the Latin-1 case mapping; the two
  Latin-1 letters whose upper case lies outside Latin-1 keep their code, and no non-ASCII character
  but the sharp s can pass the component pattern after mapping.
\<close>

subsection \<open>Enumerations and component normalisation\<close>

datatype product_type = CRYPTO_SPOT | EQUITY

datatype asset_class = AC_CRYPTO | AC_EQUITY

fun product_type_value :: "product_type \<Rightarrow> string" where
  "product_type_value CRYPTO_SPOT = ''crypto_spot''"
| "product_type_value EQUITY = ''equity''"

definition ASCII_WHITESPACE :: string where
  "ASCII_WHITESPACE = [CHR '' '', CHR 0x09, CHR 0x0A, CHR 0x0D, CHR 0x0C, CHR 0x0B]"

definition strip_chars :: "string \<Rightarrow> string \<Rightarrow> string" where
  "strip_chars cs s = rev (dropWhile (\<lambda>c. c \<in> set cs) (rev (dropWhile (\<lambda>c. c \<in> set cs) s)))"

definition upper_char :: "char \<Rightarrow> string" where
  "upper_char c =
     (let n = of_char c :: nat
      in if 97 \<le> n \<and> n \<le> 122 then [char_of (n - 32)]
         else if n = 223 then ''SS''
         else if 224 \<le> n \<and> n \<le> 254 \<and> n \<noteq> 247 then [char_of (n - 32)]
         else [c])"

definition upper :: "string \<Rightarrow> string" where
  "upper s = concat (map upper_char s)"

definition is_safe_first :: "char \<Rightarrow> bool" where
  "is_safe_first c = (is_upper_char c \<or> is_digit_char c)"

definition is_safe_rest :: "char \<Rightarrow> bool" where
  "is_safe_rest c = (is_upper_char c \<or> is_digit_char c \<or> c = CHR ''.'' \<or> c = CHR ''_'' \<or> c = CHR ''-'')"

definition safe_component :: "string \<Rightarrow> bool" where
  "safe_component s =
     (case s of [] \<Rightarrow> False | c # cs \<Rightarrow> is_safe_first c \<and> list_all is_safe_rest cs)"

definition canonical_component :: "string \<Rightarrow> string \<Rightarrow> string res" where
  "canonical_component value field_name =
     (let normalized = upper (strip_chars ASCII_WHITESPACE value)
      in if normalized = [] \<or> length normalized > 32
         then Inl (ValueError (field_name @ '' must contain 1 through 32 safe characters''))
         else if \<not> safe_component normalized
         then Inl (ValueError (field_name @ '' contains unsafe characters''))
         else Inr normalized)"

definition raw_symbol :: "string \<Rightarrow> string res" where
  "raw_symbol value =
     (if value = [] \<or> strip_chars '' '' value = [] \<or> length value > 128
      then Inl (ValueError ''raw_symbol must contain 1 through 128 printable ASCII characters'')
      else if list_ex (\<lambda>c. \<not> (32 \<le> (of_char c :: nat) \<and> of_char c \<le> (126 :: nat))) value
      then Inl (ValueError ''raw_symbol must contain only printable ASCII characters'')
      else Inr value)"

fun trailing_zeros_loop :: "nat list \<Rightarrow> nat \<Rightarrow> nat \<Rightarrow> nat" where
  "trailing_zeros_loop [] removable trailing_zeros = trailing_zeros"
| "trailing_zeros_loop (digit # ds) removable trailing_zeros =
     (if trailing_zeros = removable \<or> digit \<noteq> 0 then trailing_zeros
      else trailing_zeros_loop ds removable (trailing_zeros + 1))"

definition fractional_precision :: "decimal \<Rightarrow> int" where
  "fractional_precision value =
     (let raw_digits = digits value; exponent = dexp value
      in if exponent \<ge> 0 \<or> is_zero value then 0
         else let removable = min (nat (- exponent)) (length raw_digits);
                  trailing_zeros = trailing_zeros_loop (rev raw_digits) removable 0
              in max 0 (- exponent - int trailing_zeros))"

definition bounded_positive_decimal :: "py_number \<Rightarrow> string \<Rightarrow> decimal res" where
  "bounded_positive_decimal value field_name =
     bindE (require_finite_decimal value field_name) (\<lambda>exact.
     if dec_le exact (dec_int 0) then Inl (ValueError (field_name @ '' must be positive''))
     else bindE (catch_value_error (decimal_to_scaled_integer exact MAX_FINANCIAL_PRECISION)
                   (ValueError (field_name @ '' exceeds supported precision or magnitude''))) (\<lambda>_.
     Inr exact))"

definition exact_product :: "decimal list \<Rightarrow> decimal res" where
  "exact_product factors =
     catch_value_error (foldE multiply_decimals_exact (dec_int 1) factors)
       (ValueError ''notional is outside the supported Decimal range'')"

subsection \<open>Identity, provenance and margin\<close>

record instrument_id =
  ii_symbol :: string
  ii_product_type :: product_type
  ii_venue :: string

definition mk_instrument_id :: "string \<Rightarrow> product_type \<Rightarrow> string \<Rightarrow> instrument_id res" where
  "mk_instrument_id symbol ty venue =
     bindE (canonical_component symbol ''symbol'') (\<lambda>s.
     bindE (canonical_component venue ''venue'') (\<lambda>v.
     Inr \<lparr>ii_symbol = s, ii_product_type = ty, ii_venue = v\<rparr>))"

definition canonical :: "instrument_id \<Rightarrow> string" where
  "canonical i = product_type_value (ii_product_type i) @ '':'' @ ii_venue i @ '':'' @ ii_symbol i"

record instrument_provenance =
  ip_source_id :: string
  ip_source_revision :: string
  ip_observed_at :: datetime

definition mk_instrument_provenance ::
  "string \<Rightarrow> string \<Rightarrow> datetime \<Rightarrow> instrument_provenance res" where
  "mk_instrument_provenance source_id source_revision observed_at =
     bindE (canonical_component source_id ''source_id'') (\<lambda>si.
     bindE (canonical_component source_revision ''source_revision'') (\<lambda>sr.
     bindE (require_utc observed_at) (\<lambda>_.
     Inr \<lparr>ip_source_id = si, ip_source_revision = sr, ip_observed_at = observed_at\<rparr>)))"

record margin_requirements =
  mr_initial :: decimal
  mr_maintenance :: decimal

definition mk_margin_requirements :: "py_number \<Rightarrow> py_number \<Rightarrow> margin_requirements res" where
  "mk_margin_requirements initial_margin_rate maintenance_margin_rate =
     (case bindE (bounded_positive_decimal initial_margin_rate ''initial margin rate'') (\<lambda>i.
           bindE (bounded_positive_decimal maintenance_margin_rate ''maintenance margin rate'') (\<lambda>m.
           Inr (i, m))) of
        Inl e \<Rightarrow> Inl (if is_value_error e
                      then ValueError (''invalid margin requirements: '' @ error_text e) else e)
      | Inr (initial, maintenance) \<Rightarrow>
          if dec_lt (dec_int 1) initial \<or> dec_lt (dec_int 1) maintenance
          then Inl (ValueError ''margin rates must not exceed one'')
          else if dec_lt initial maintenance
          then Inl (ValueError ''maintenance margin rate must not exceed initial margin rate'')
          else Inr \<lparr>mr_initial = initial, mr_maintenance = maintenance\<rparr>)"

subsection \<open>The instrument definition\<close>

record instrument_definition =
  id_instrument_id :: instrument_id
  id_raw_symbol :: string
  id_asset_class :: asset_class
  id_base_currency :: "currency option"
  id_quote_currency :: currency
  id_settlement_currency :: currency
  id_tick_size :: price
  id_size_increment :: order_quantity
  id_minimum_quantity :: order_quantity
  id_maximum_quantity :: order_quantity
  id_minimum_notional :: money
  id_maximum_notional :: money
  id_multiplier :: decimal
  id_margin :: "margin_requirements option"
  id_session_calendar :: string
  id_provenance :: instrument_provenance

fun expected_asset_class :: "product_type \<Rightarrow> asset_class" where
  "expected_asset_class CRYPTO_SPOT = AC_CRYPTO"
| "expected_asset_class EQUITY = AC_EQUITY"

definition validate_identity_and_catalog ::
  "instrument_definition \<Rightarrow> instrument_definition res" where
  "validate_identity_and_catalog d =
     bindE (mk_instrument_id (ii_symbol (id_instrument_id d)) (ii_product_type (id_instrument_id d))
              (ii_venue (id_instrument_id d))) (\<lambda>canonical_id.
     if canonical_id \<noteq> id_instrument_id d
     then Inl (ValueError ''instrument_id must be a canonical InstrumentId'')
     else bindE (raw_symbol (id_raw_symbol d)) (\<lambda>raw.
     if id_asset_class d \<noteq> expected_asset_class (ii_product_type (id_instrument_id d))
     then Inl (ValueError ''asset_class does not agree with product_type'')
     else bindE (canonical_component (id_session_calendar d) ''session_calendar'') (\<lambda>calendar.
     bindE (mk_instrument_provenance (ip_source_id (id_provenance d))
              (ip_source_revision (id_provenance d)) (ip_observed_at (id_provenance d))) (\<lambda>prov.
     if prov \<noteq> id_provenance d then Inl (ValueError ''provenance must be canonical'')
     else
       let d' = d\<lparr>id_raw_symbol := raw, id_session_calendar := calendar\<rparr>
       in case id_margin d of
            None \<Rightarrow> Inr d'
          | Some m \<Rightarrow>
              bindE (mk_margin_requirements (PyDecimal (mr_initial m)) (PyDecimal (mr_maintenance m)))
                (\<lambda>_. Inr d')))))"

definition validate_currencies :: "instrument_definition \<Rightarrow> unit res" where
  "validate_currencies d =
     bindE (require_currency (id_quote_currency d)) (\<lambda>quote.
     bindE (require_currency (id_settlement_currency d)) (\<lambda>settlement.
     if settlement \<noteq> quote
     then Inl (ValueError ''settlement currency must equal quote currency'')
     else if ii_product_type (id_instrument_id d) = CRYPTO_SPOT
     then (case id_base_currency d of
             None \<Rightarrow> Inl (ValueError ''currency must be a registered Currency identity'')
           | Some b \<Rightarrow>
               bindE (require_currency b) (\<lambda>base.
               if base = quote
               then Inl (ValueError ''base currency must be distinct from quote currency'')
               else Inr ()))
     else if id_base_currency d \<noteq> None
     then Inl (ValueError ''equity base_currency must be None'')
     else Inr ()))"

definition check_limit_quantity :: "string \<times> order_quantity \<Rightarrow> unit res" where
  "check_limit_quantity nv =
     (case nv of (name, value) \<Rightarrow>
        bindE (mk_order_quantity (PyDecimal (oq_value value)) (oq_precision value)) (\<lambda>_.
        if dec_le (oq_value value) (dec_int 0)
        then Inl (ValueError (name @ '' must be positive'')) else Inr ()))"

definition validate_price_and_quantity_limits :: "instrument_definition \<Rightarrow> unit res" where
  "validate_price_and_quantity_limits d =
     bindE (mk_price (PyDecimal (p_amount (id_tick_size d))) (p_currency (id_tick_size d))) (\<lambda>_.
     if p_currency (id_tick_size d) \<noteq> id_quote_currency d
     then Inl (ValueError ''tick_size must use quote currency'')
     else
       let tick_precision = fractional_precision (p_amount (id_tick_size d))
       in if tick_precision > MAX_FINANCIAL_PRECISION
          then Inl (ValueError ''tick_size exceeds supported precision'')
          else
     bindE (catch_value_error (decimal_to_scaled_integer (p_amount (id_tick_size d)) tick_precision)
              (ValueError ''tick_size exceeds supported precision or magnitude'')) (\<lambda>_.
     bindE (mapE check_limit_quantity
              [(''size_increment'', id_size_increment d), (''minimum_quantity'', id_minimum_quantity d),
               (''maximum_quantity'', id_maximum_quantity d)]) (\<lambda>_.
     let quantity_precision = oq_precision (id_size_increment d)
     in if oq_precision (id_minimum_quantity d) \<noteq> quantity_precision
        then Inl (ValueError ''minimum_quantity must use instrument quantity precision'')
        else if oq_precision (id_maximum_quantity d) \<noteq> quantity_precision
        then Inl (ValueError ''maximum_quantity must use instrument quantity precision'')
        else
     bindE (is_exact_decimal_multiple (oq_value (id_minimum_quantity d)) (oq_value (id_size_increment d)))
       (\<lambda>on_grid.
     if \<not> on_grid then Inl (ValueError ''minimum_quantity must be on the size increment grid'')
     else
     bindE (is_exact_decimal_multiple (oq_value (id_maximum_quantity d)) (oq_value (id_size_increment d)))
       (\<lambda>on_grid.
     if \<not> on_grid then Inl (ValueError ''maximum_quantity must be on the size increment grid'')
     else if dec_lt (oq_value (id_maximum_quantity d)) (oq_value (id_minimum_quantity d))
     then Inl (ValueError ''maximum_quantity must not be below minimum_quantity'')
     else Inr ())))))"

definition check_limit_notional :: "currency \<Rightarrow> string \<times> money \<Rightarrow> unit res" where
  "check_limit_notional quote_currency nv =
     (case nv of (name, value) \<Rightarrow>
        bindE (mk_money (PyDecimal (m_amount value)) (m_currency value)) (\<lambda>_.
        if m_currency value \<noteq> quote_currency
        then Inl (ValueError (name @ '' must use quote currency''))
        else if dec_le (m_amount value) (dec_int 0)
        then Inl (ValueError (name @ '' must be positive''))
        else bindE (catch_value_error
                      (decimal_to_scaled_integer (m_amount value) (cur_precision quote_currency))
                      (ValueError (name @ '' exceeds supported precision or magnitude'')))
             (\<lambda>_. Inr ())))"

definition validate_notional_limits :: "instrument_definition \<Rightarrow> unit res" where
  "validate_notional_limits d =
     bindE (bounded_positive_decimal (PyDecimal (id_multiplier d)) ''multiplier'') (\<lambda>multiplier.
     bindE (mapE (check_limit_notional (id_quote_currency d))
              [(''minimum_notional'', id_minimum_notional d),
               (''maximum_notional'', id_maximum_notional d)]) (\<lambda>_.
     if dec_lt (m_amount (id_maximum_notional d)) (m_amount (id_minimum_notional d))
     then Inl (ValueError ''maximum_notional must not be below minimum_notional'')
     else
     bindE (exact_product [p_amount (id_tick_size d), oq_value (id_size_increment d), multiplier])
       (\<lambda>notional_increment.
     bindE (is_exact_decimal_multiple (m_amount (id_minimum_notional d)) notional_increment)
       (\<lambda>on_grid.
     if \<not> on_grid then Inl (ValueError ''minimum_notional must be on the notional grid'')
     else
     bindE (is_exact_decimal_multiple (m_amount (id_maximum_notional d)) notional_increment)
       (\<lambda>on_grid.
     if \<not> on_grid then Inl (ValueError ''maximum_notional must be on the notional grid'')
     else Inr ())))))"

definition mk_instrument_definition :: "instrument_definition \<Rightarrow> instrument_definition res" where
  "mk_instrument_definition d =
     bindE (validate_identity_and_catalog d) (\<lambda>d'.
     bindE (validate_currencies d') (\<lambda>_.
     bindE (validate_price_and_quantity_limits d') (\<lambda>_.
     bindE (validate_notional_limits d') (\<lambda>_.
     Inr d'))))"

subsection \<open>Order validation\<close>

record instrument_constraints =
  ic_definition :: instrument_definition

definition mk_instrument_constraints :: "instrument_definition \<Rightarrow> instrument_constraints res" where
  "mk_instrument_constraints supplied =
     bindE (mk_instrument_definition supplied) (\<lambda>c. Inr \<lparr>ic_definition = c\<rparr>)"

definition validate_price :: "instrument_constraints \<Rightarrow> price \<Rightarrow> price res" where
  "validate_price ic price =
     (let d = ic_definition ic
      in bindE (mk_price (PyDecimal (p_amount price)) (p_currency price)) (\<lambda>_.
         if p_currency price \<noteq> id_quote_currency d
         then Inl (ValueError ''price currency does not match quote currency'')
         else
         bindE (catch_value_error
                  (decimal_to_scaled_integer (p_amount price)
                     (fractional_precision (p_amount (id_tick_size d))))
                  (ValueError ''price exceeds instrument precision or magnitude'')) (\<lambda>_.
         bindE (is_exact_decimal_multiple (p_amount price) (p_amount (id_tick_size d))) (\<lambda>on_grid.
         if \<not> on_grid then Inl (ValueError ''price is not on the tick grid'')
         else Inr price))))"

definition validate_quantity :: "instrument_constraints \<Rightarrow> order_quantity \<Rightarrow> order_quantity res" where
  "validate_quantity ic quantity =
     (let d = ic_definition ic; increment = id_size_increment d
      in bindE (mk_order_quantity (PyDecimal (oq_value quantity)) (oq_precision quantity)) (\<lambda>_.
         if oq_precision quantity \<noteq> oq_precision increment
         then Inl (ValueError ''quantity does not use instrument precision'')
         else if dec_le (oq_value quantity) (dec_int 0)
         then Inl (ValueError ''quantity must be positive'')
         else
         bindE (is_exact_decimal_multiple (oq_value quantity) (oq_value increment)) (\<lambda>on_grid.
         if \<not> on_grid then Inl (ValueError ''quantity is not on the size increment grid'')
         else if dec_lt (oq_value quantity) (oq_value (id_minimum_quantity d))
         then Inl (ValueError ''quantity is below minimum quantity'')
         else if dec_lt (oq_value (id_maximum_quantity d)) (oq_value quantity)
         then Inl (ValueError ''quantity exceeds maximum quantity'')
         else Inr quantity)))"

definition validate_order ::
  "instrument_constraints \<Rightarrow> price \<Rightarrow> order_quantity \<Rightarrow> (price \<times> order_quantity) res" where
  "validate_order ic price quantity =
     (let d = ic_definition ic
      in bindE (validate_price ic price) (\<lambda>valid_price.
         bindE (validate_quantity ic quantity) (\<lambda>valid_quantity.
         bindE (exact_product [p_amount valid_price, oq_value valid_quantity, id_multiplier d])
           (\<lambda>notional.
         bindE (catch_value_error
                  (decimal_to_scaled_integer notional (cur_precision (id_quote_currency d)))
                  (ValueError (''notional cannot be represented exactly in quote currency or is ''
                               @ ''outside the supported Decimal range''))) (\<lambda>_.
         if dec_lt notional (m_amount (id_minimum_notional d))
         then Inl (ValueError ''order is below minimum notional'')
         else if dec_lt (m_amount (id_maximum_notional d)) notional
         then Inl (ValueError ''order exceeds maximum notional'')
         else Inr (valid_price, valid_quantity))))))"


subsection \<open>Components and canonical identities\<close>

lemma is_safe_first_rest: "is_safe_first c \<Longrightarrow> is_safe_rest c"
  by (auto simp: is_safe_first_def is_safe_rest_def)

lemma safe_rest_code:
  "is_safe_rest c \<Longrightarrow> (of_char c :: nat) \<in> {45..46} \<union> {48..57} \<union> {65..90} \<union> {95}"
  by (auto simp: is_safe_rest_def is_upper_char_def is_digit_char_def less_eq_char_def)

lemma upper_char_safe: "is_safe_rest c \<Longrightarrow> upper_char c = [c]"
  using safe_rest_code [of c] by (auto simp: upper_char_def Let_def)

lemma safe_component_list: "safe_component s \<Longrightarrow> list_all is_safe_rest s"
  by (auto simp: safe_component_def is_safe_first_rest split: list.splits)

lemma upper_safe: "list_all is_safe_rest s \<Longrightarrow> upper s = s"
  by (induction s) (auto simp: upper_def upper_char_safe)

lemma safe_rest_not_whitespace: "is_safe_rest c \<Longrightarrow> c \<notin> set ASCII_WHITESPACE"
  using safe_rest_code [of c] by (auto simp: ASCII_WHITESPACE_def)

lemma strip_chars_none: "list_all (\<lambda>c. c \<notin> set cs) s \<Longrightarrow> strip_chars cs s = s"
proof -
  assume *: "list_all (\<lambda>c. c \<notin> set cs) s"
  have "dropWhile (\<lambda>c. c \<in> set cs) t = t" if "list_all (\<lambda>c. c \<notin> set cs) t" for t
    using that by (cases t) auto
  from this [of s] this [of "rev s"] * show ?thesis by (simp add: strip_chars_def list_all_iff)
qed

lemma canonical_component_Inr_iff:
  "canonical_component v f = Inr n \<longleftrightarrow>
     n = upper (strip_chars ASCII_WHITESPACE v) \<and> safe_component n \<and> length n \<le> 32"
  by (auto simp: canonical_component_def Let_def safe_component_def)

lemma canonical_component_fixed:
  "canonical_component n f = Inr n \<longleftrightarrow> safe_component n \<and> length n \<le> 32"
proof -
  have "upper (strip_chars ASCII_WHITESPACE n) = n" if "safe_component n"
  proof -
    have "list_all is_safe_rest n" using safe_component_list [OF that] .
    moreover from this have "list_all (\<lambda>c. c \<notin> set ASCII_WHITESPACE) n"
      using safe_rest_not_whitespace by (auto simp: list_all_iff)
    ultimately show ?thesis by (simp add: strip_chars_none upper_safe)
  qed
  then show ?thesis by (auto simp: canonical_component_Inr_iff)
qed

lemma canonical_component_safe:
  "safe_component n \<Longrightarrow> length n \<le> 32 \<Longrightarrow> canonical_component n f = Inr n"
  by (simp add: canonical_component_fixed)

lemma canonical_component_idem:
  "canonical_component v f = Inr n \<Longrightarrow> canonical_component n g = Inr n"
  unfolding canonical_component_fixed by (auto simp: canonical_component_Inr_iff)

definition valid_instrument_id :: "instrument_id \<Rightarrow> bool" where
  "valid_instrument_id i =
     (safe_component (ii_symbol i) \<and> length (ii_symbol i) \<le> 32
      \<and> safe_component (ii_venue i) \<and> length (ii_venue i) \<le> 32)"

lemma mk_instrument_id_valid: "mk_instrument_id s t v = Inr i \<Longrightarrow> valid_instrument_id i"
  by (auto simp: mk_instrument_id_def res_simps valid_instrument_id_def canonical_component_Inr_iff)

lemma mk_instrument_id_fixed:
  "mk_instrument_id (ii_symbol i) (ii_product_type i) (ii_venue i) = Inr i \<longleftrightarrow> valid_instrument_id i"
  by (cases i) (auto simp: mk_instrument_id_def res_simps valid_instrument_id_def canonical_component_fixed)

lemma safe_no_colon: "safe_component s \<Longrightarrow> CHR '':'' \<notin> set s"
  using safe_component_list [of s] safe_rest_code [of "CHR '':''"] by (auto simp: list_all_iff)

lemma split_at_unique:
  assumes "xs @ c # ys = xs' @ c # ys'" and "c \<notin> set xs" and "c \<notin> set xs'"
  shows "xs = xs' \<and> ys = ys'"
  using assms by (auto simp: append_eq_append_conv2 Cons_eq_append_conv append_eq_Cons_conv)

lemma canonical_inj:
  assumes "valid_instrument_id a" "valid_instrument_id b" "canonical a = canonical b"
  shows "a = b"
proof -
  have t: "CHR '':'' \<notin> set (product_type_value x)" for x by (cases x) auto
  have "product_type_value (ii_product_type a) = product_type_value (ii_product_type b)
      \<and> ii_venue a @ CHR '':'' # ii_symbol a = ii_venue b @ CHR '':'' # ii_symbol b"
    by (rule split_at_unique [where c = "CHR '':''"]) (use assms(3) t in \<open>simp_all add: canonical_def\<close>)
  moreover from this have "ii_venue a = ii_venue b \<and> ii_symbol a = ii_symbol b"
    using assms(1,2) safe_no_colon by (intro split_at_unique) (auto simp: valid_instrument_id_def)
  ultimately show ?thesis
    by (cases "ii_product_type a"; cases "ii_product_type b") (auto intro: instrument_id.equality)
qed

subsection \<open>Minimal fractional precision\<close>

lemma trailing_zeros_loop_spec:
  assumes "z \<le> r"
  shows "trailing_zeros_loop ds r z = z + min (r - z) (length (takeWhile (\<lambda>d. d = 0) ds))"
  using assms
proof (induction ds arbitrary: z)
  case (Cons d ds)
  show ?case
  proof (cases "z = r \<or> d \<noteq> 0")
    case False
    with Cons have "trailing_zeros_loop ds r (z + 1)
        = z + 1 + min (r - (z + 1)) (length (takeWhile (\<lambda>d. d = 0) ds))" by simp
    with False Cons.prems show ?thesis by auto
  qed auto
qed simp

lemma trailing_zero_count_takeWhile:
  "list_ex (\<lambda>d. d \<noteq> 0) ds \<Longrightarrow> trailing_zero_count ds = length (takeWhile (\<lambda>d. d = 0) ds)"
  by (induction ds rule: trailing_zero_count.induct) auto

lemma fractional_precision_eq:
  assumes "\<not> is_zero v"
  shows "fractional_precision v = max 0 (- (dexp v + int (trailing_zero_count (rev (digits v)))))"
proof (cases "dexp v \<ge> 0")
  case False
  let ?z = "length (takeWhile (\<lambda>d. d = 0) (rev (digits v)))"
  have nz: "list_ex (\<lambda>d. d \<noteq> 0) (rev (digits v))"
    using assms coefficient_of_zero_iff [of "digits v"]
    by (auto simp: list_ex_iff is_zero_def digits_def)
  then have "?z \<noteq> length (rev (digits v))"
    by (metis list_ex_iff takeWhile_eq_all_conv takeWhile_eq_take take_all_iff order_refl)
  then have "?z < length (digits v)"
    using length_takeWhile_le [of "\<lambda>d. d = 0" "rev (digits v)"] by simp
  then have "min (min (nat (- dexp v)) (length (digits v))) ?z = min (nat (- dexp v)) ?z" by simp
  with False assms trailing_zero_count_takeWhile [OF nz] show ?thesis
    by (auto simp: fractional_precision_def Let_def trailing_zeros_loop_spec)
qed (simp add: fractional_precision_def Let_def)

lemma fractional_precision_le_iff:
  assumes "0 \<le> p"
  shows "fractional_precision v \<le> p \<longleftrightarrow> (\<exists>n::int. of_int n = fraction v * 10 ^ nat p)"
proof (cases "is_zero v")
  case True
  then have "fraction v = 0" by simp
  with True assms show ?thesis by (auto simp: fractional_precision_def Let_def intro: exI [of _ 0])
next
  case False
  obtain c' where c': "0 < c'" "\<not> 10 dvd c'"
    and fr: "fraction v = apply_sign (dsign v) (of_nat c')
      * 10 powi (dexp v + int (trailing_zero_count (rev (digits v))))"
    using stripped_decimal [OF False] by blast
  show ?thesis
    unfolding fr fractional_precision_eq [OF False] scaled_value_iff [OF assms c'(2)]
    using assms by auto
qed

lemma fractional_precision_nonneg: "0 \<le> fractional_precision v"
  by (auto simp: fractional_precision_def Let_def)

lemma scaled_multiple:
  assumes "\<exists>z::int. x = of_int z * y" and "\<exists>n::int. of_int n = y * (10 ^ k :: rat)"
  shows "\<exists>n::int. of_int n = x * 10 ^ k"
proof -
  from assms obtain z n :: int where "x = of_int z * y" "of_int n = y * 10 ^ k" by blast
  then have "of_int (z * n) = x * 10 ^ k" by simp
  then show ?thesis by blast
qed

subsection \<open>Exact products and bounded decimals\<close>

lemma foldE_multiply_fraction:
  "foldE multiply_decimals_exact a fs = Inr d \<Longrightarrow> fraction d = fraction a * prod_list (map fraction fs)"
  by (induction fs arbitrary: a) (auto simp: res_simps multiply_decimals_exact_fraction)

lemma exact_product_fraction:
  "exact_product fs = Inr d \<Longrightarrow> fraction d = prod_list (map fraction fs)"
  using foldE_multiply_fraction [of "dec_int 1" fs d] by (auto simp: exact_product_def res_simps)

lemma bounded_positive_decimal_Inr_iff [res_simps]:
  "bounded_positive_decimal (PyDecimal v) f = Inr x \<longleftrightarrow>
     x = v \<and> 0 < fraction v \<and> is_ok (decimal_to_scaled_integer v MAX_FINANCIAL_PRECISION)"
  by (auto simp: bounded_positive_decimal_def res_simps dec_le_def is_ok_iff)

lemma bounded_positive_decimal_Inl:
  "bounded_positive_decimal (PyDecimal v) f = Inl e \<Longrightarrow>
     fraction v \<le> 0 \<or> \<not> is_ok (decimal_to_scaled_integer v MAX_FINANCIAL_PRECISION)"
  using bounded_positive_decimal_Inr_iff [of v f v] by (auto simp del: fraction_zero_iff)

lemma is_ok_scaled_iff:
  assumes "0 \<le> p" "p \<le> 18"
  shows "is_ok (decimal_to_scaled_integer v p) \<longleftrightarrow>
    (\<exists>n::int. of_int n = fraction v * 10 ^ nat p \<and> \<bar>n\<bar> < 10 ^ 128)"
  using assms by (simp add: is_ok_iff decimal_to_scaled_integer_iff)

lemma mk_margin_requirements_Inr_iff:
  "mk_margin_requirements (PyDecimal i) (PyDecimal m) = Inr mr \<longleftrightarrow>
     mr = \<lparr>mr_initial = i, mr_maintenance = m\<rparr> \<and> 0 < fraction m \<and> fraction m \<le> fraction i
     \<and> fraction i \<le> 1 \<and> is_ok (decimal_to_scaled_integer i MAX_FINANCIAL_PRECISION)
     \<and> is_ok (decimal_to_scaled_integer m MAX_FINANCIAL_PRECISION)"
  by (auto simp: mk_margin_requirements_def bindE_Inl_iff res_simps dec_lt_def not_less
      split: sum.splits prod.splits dest!: bounded_positive_decimal_Inl)

subsection \<open>What a constructed definition guarantees\<close>

lemma validate_identity_Inr:
  assumes "validate_identity_and_catalog d = Inr d'"
  shows "d' = d\<lparr>id_session_calendar := id_session_calendar d'\<rparr>"
    and "valid_instrument_id (id_instrument_id d)"
    and "validate_identity_and_catalog d' = Inr d'"
proof -
  obtain cal where cal: "canonical_component (id_session_calendar d) ''session_calendar'' = Inr cal"
    and d': "d' = d\<lparr>id_raw_symbol := id_raw_symbol d, id_session_calendar := cal\<rparr>"
    using assms
    by (auto simp: validate_identity_and_catalog_def res_simps raw_symbol_def Let_def
        split: option.splits if_splits)
  show "d' = d\<lparr>id_session_calendar := id_session_calendar d'\<rparr>" using d' by simp
  show "valid_instrument_id (id_instrument_id d)"
    using assms mk_instrument_id_valid
    by (fastforce simp: validate_identity_and_catalog_def res_simps)
  show "validate_identity_and_catalog d' = Inr d'"
    using assms canonical_component_idem [OF cal]
    by (auto simp: d' validate_identity_and_catalog_def res_simps raw_symbol_def Let_def
        split: option.splits if_splits)
qed

lemma mk_instrument_definition_idem:
  assumes "mk_instrument_definition d = Inr d'"
  shows "mk_instrument_definition d' = Inr d'"
  using assms validate_identity_Inr(3) [of d d']
  by (auto simp: mk_instrument_definition_def res_simps)

text \<open>The facts about a definition that order validation relies on.\<close>

definition sound_definition :: "instrument_definition \<Rightarrow> bool" where
  "sound_definition d =
     (is_registered DEFAULT_CURRENCY_REGISTRY (id_quote_currency d)
      \<and> 0 < fraction (p_amount (id_tick_size d))
      \<and> fractional_precision (p_amount (id_tick_size d)) \<le> 18
      \<and> 0 < fraction (oq_value (id_size_increment d))
      \<and> 0 < fraction (oq_value (id_minimum_quantity d))
      \<and> fraction (oq_value (id_minimum_quantity d)) \<le> fraction (oq_value (id_maximum_quantity d))
      \<and> 0 < fraction (id_multiplier d)
      \<and> 0 < fraction (m_amount (id_minimum_notional d))
      \<and> fraction (m_amount (id_minimum_notional d)) \<le> fraction (m_amount (id_maximum_notional d)))"

lemma limits_Inr:
  assumes "validate_price_and_quantity_limits d = Inr u"
  shows "0 < fraction (p_amount (id_tick_size d))"
    and "fractional_precision (p_amount (id_tick_size d)) \<le> 18"
    and "p_currency (id_tick_size d) = id_quote_currency d"
    and "0 < fraction (oq_value (id_size_increment d))"
    and "0 < fraction (oq_value (id_minimum_quantity d))"
    and "fraction (oq_value (id_minimum_quantity d)) \<le> fraction (oq_value (id_maximum_quantity d))"
  using assms
  by (auto simp: validate_price_and_quantity_limits_def res_simps Let_def dec_le_def dec_lt_def
      check_limit_quantity_def MAX_FINANCIAL_PRECISION_def not_less)

lemma notional_limits_Inr:
  assumes "validate_notional_limits d = Inr u"
  shows "0 < fraction (id_multiplier d)"
    and "0 < fraction (m_amount (id_minimum_notional d))"
    and "fraction (m_amount (id_minimum_notional d)) \<le> fraction (m_amount (id_maximum_notional d))"
  using assms
  by (auto simp: validate_notional_limits_def res_simps dec_le_def dec_lt_def
      check_limit_notional_def not_less)

lemma validate_currencies_Inr:
  "validate_currencies d = Inr u \<Longrightarrow> is_registered DEFAULT_CURRENCY_REGISTRY (id_quote_currency d)"
  by (auto simp: validate_currencies_def res_simps)

lemma mk_instrument_definition_sound:
  assumes "mk_instrument_definition d = Inr d'"
  shows "sound_definition d'"
  using assms limits_Inr [of d'] notional_limits_Inr [of d'] validate_currencies_Inr [of d']
  by (auto simp: mk_instrument_definition_def res_simps sound_definition_def)

subsection \<open>Order validation, characterised\<close>

lemma validate_price_Inr_iff:
  assumes "sound_definition (ic_definition ic)"
  defines "tick \<equiv> p_amount (id_tick_size (ic_definition ic))"
  shows "validate_price ic p = Inr p' \<longleftrightarrow>
    p' = p \<and> p_currency p = id_quote_currency (ic_definition ic) \<and> 0 < fraction (p_amount p)
    \<and> (\<exists>z::int. fraction (p_amount p) = of_int z * fraction tick)
    \<and> fraction (p_amount p) * 10 ^ nat (fractional_precision tick) < 10 ^ 128"
proof -
  let ?x = "p_amount p" and ?k = "fractional_precision tick"
  have tick: "0 < fraction tick" "0 \<le> ?k" "?k \<le> 18"
    using assms fractional_precision_nonneg [of tick] by (simp_all add: sound_definition_def)
  have whole: "\<exists>n::int. of_int n = fraction tick * 10 ^ nat ?k"
    using fractional_precision_le_iff [OF tick(2), of tick] by simp
  have scaled: "is_ok (decimal_to_scaled_integer ?x ?k) \<longleftrightarrow> fraction ?x * 10 ^ nat ?k < 10 ^ 128"
    if pos: "0 < fraction ?x" and mult: "\<exists>z::int. fraction ?x = of_int z * fraction tick"
  proof -
    from scaled_multiple [OF mult whole]
    obtain n :: int where n: "of_int n = fraction ?x * 10 ^ nat ?k" by blast
    have "is_ok (decimal_to_scaled_integer ?x ?k) \<longleftrightarrow> \<bar>n\<bar> < 10 ^ 128"
      unfolding is_ok_scaled_iff [OF tick(2,3)] n [symmetric] by (simp only: of_int_eq_iff) blast
    moreover have "0 < n" using n pos by (metis of_int_0_less_iff zero_less_mult_iff zero_less_numeral zero_less_power)
    moreover have "(of_int n :: rat) < of_int (10 ^ 128) \<longleftrightarrow> n < 10 ^ 128" by (simp only: of_int_less_iff)
    ultimately show ?thesis unfolding n [symmetric] by (simp only: of_int_power of_int_numeral abs_of_pos)
  qed
  show ?thesis
    using scaled is_exact_decimal_multiple_iff [OF tick(1), of ?x] assms(1)
    unfolding validate_price_def Let_def res_simps tick_def [symmetric]
    by (auto simp: is_ok_iff sound_definition_def)
qed

lemma validate_quantity_Inr_iff:
  assumes "sound_definition (ic_definition ic)"
  defines "d \<equiv> ic_definition ic"
  shows "validate_quantity ic q = Inr q' \<longleftrightarrow>
    q' = q \<and> is_ok (mk_order_quantity (PyDecimal (oq_value q)) (oq_precision q))
    \<and> oq_precision q = oq_precision (id_size_increment d)
    \<and> (\<exists>z::int. fraction (oq_value q) = of_int z * fraction (oq_value (id_size_increment d)))
    \<and> fraction (oq_value (id_minimum_quantity d)) \<le> fraction (oq_value q)
    \<and> fraction (oq_value q) \<le> fraction (oq_value (id_maximum_quantity d))"
proof -
  have pos: "0 < fraction (oq_value (id_size_increment d))" "0 < fraction (oq_value (id_minimum_quantity d))"
    using assms by (simp_all add: sound_definition_def)
  show ?thesis
    unfolding validate_quantity_def Let_def res_simps d_def [symmetric]
      is_exact_decimal_multiple_iff [OF pos(1)]
    using pos(2) by (auto simp: is_ok_iff dec_le_def dec_lt_def not_less)
qed

lemma validate_order_Inr_iff:
  assumes "sound_definition (ic_definition ic)"
  defines "d \<equiv> ic_definition ic"
  shows "validate_order ic p q = Inr r \<longleftrightarrow>
    r = (p, q) \<and> validate_price ic p = Inr p \<and> validate_quantity ic q = Inr q
    \<and> is_ok (exact_product [p_amount p, oq_value q, id_multiplier d])
    \<and> (\<exists>n::int. of_int n = fraction (p_amount p) * fraction (oq_value q) * fraction (id_multiplier d)
            * 10 ^ nat (cur_precision (id_quote_currency d)) \<and> \<bar>n\<bar> < 10 ^ 128)
    \<and> fraction (m_amount (id_minimum_notional d))
           \<le> fraction (p_amount p) * fraction (oq_value q) * fraction (id_multiplier d)
    \<and> fraction (p_amount p) * fraction (oq_value q) * fraction (id_multiplier d)
           \<le> fraction (m_amount (id_maximum_notional d))"
proof -
  have prec: "0 \<le> cur_precision (id_quote_currency d)" "cur_precision (id_quote_currency d) \<le> 18"
    using assms registered_precision by (auto simp: sound_definition_def)
  have fr: "fraction n = fraction (p_amount p) * fraction (oq_value q) * fraction (id_multiplier d)"
    if "exact_product [p_amount p, oq_value q, id_multiplier d] = Inr n" for n
    using exact_product_fraction [OF that] by simp
  have shape: "validate_price ic x = Inr y \<Longrightarrow> y = x" "validate_quantity ic x' = Inr y' \<Longrightarrow> y' = x'"
    for x y x' y'
    using validate_price_Inr_iff [OF assms(1)] validate_quantity_Inr_iff [OF assms(1)] by blast+
  have "validate_order ic p q = Inr r \<longleftrightarrow>
      r = (p, q) \<and> validate_price ic p = Inr p \<and> validate_quantity ic q = Inr q
      \<and> (\<exists>n. exact_product [p_amount p, oq_value q, id_multiplier d] = Inr n
          \<and> is_ok (decimal_to_scaled_integer n (cur_precision (id_quote_currency d)))
          \<and> fraction (m_amount (id_minimum_notional d)) \<le> fraction n
          \<and> fraction n \<le> fraction (m_amount (id_maximum_notional d)))"
    unfolding validate_order_def Let_def d_def
    by (auto simp: res_simps is_ok_iff dec_lt_def not_less dest: shape)
  then show ?thesis
    unfolding is_ok_scaled_iff [OF prec] is_ok_iff [of "exact_product _"] by (auto simp: fr)
qed

subsection \<open>A sample catalogue entry\<close>

text \<open>A spot instrument used where a statement is applied at a concrete input.\<close>

definition dec :: "nat \<Rightarrow> nat \<Rightarrow> decimal" where
  "dec c n = \<lparr>dsign = False, dcoef = c, dexp = - int n\<rparr>"

definition demo_definition :: instrument_definition where
  "demo_definition =
     \<lparr>id_instrument_id = \<lparr>ii_symbol = ''BTC-USDT'', ii_product_type = CRYPTO_SPOT, ii_venue = ''BINANCE''\<rparr>,
      id_raw_symbol = ''BTCUSDT'', id_asset_class = AC_CRYPTO,
      id_base_currency = Some BTC, id_quote_currency = USDT, id_settlement_currency = USDT,
      id_tick_size = \<lparr>p_amount = dec 1 2, p_currency = USDT\<rparr>,
      id_size_increment = \<lparr>oq_value = dec 1 3, oq_precision = 3\<rparr>,
      id_minimum_quantity = \<lparr>oq_value = dec 1 3, oq_precision = 3\<rparr>,
      id_maximum_quantity = \<lparr>oq_value = dec 90 3, oq_precision = 3\<rparr>,
      id_minimum_notional = \<lparr>m_amount = dec 1 1, m_currency = USDT\<rparr>,
      id_maximum_notional = \<lparr>m_amount = dec 90 0, m_currency = USDT\<rparr>,
      id_multiplier = dec 1 0,
      id_margin = None, id_session_calendar = ''CRYPTO-24X7'',
      id_provenance = \<lparr>ip_source_id = ''CATALOG'', ip_source_revision = ''R1'',
        ip_observed_at = \<lparr>dt_year = 2024, dt_month = 1, dt_day = 2, dt_hour = 3, dt_minute = 4,
          dt_second = 5, dt_micro = 0, dt_utcoffset = Some 0\<rparr>\<rparr>\<rparr>"

lemmas char_class_defs =
  is_safe_first_def is_safe_rest_def is_upper_char_def is_lower_char_def is_digit_char_def
  is_alnum_char_def

lemma demo_arithmetic:
  "fractional_precision (dec 1 2) = 2"
  "decimal_to_scaled_integer (dec 1 2) 2 = Inr 1"
  "mk_order_quantity (PyDecimal (dec 1 3)) 3 = Inr \<lparr>oq_value = dec 1 3, oq_precision = 3\<rparr>"
  "mk_order_quantity (PyDecimal (dec 90 3)) 3 = Inr \<lparr>oq_value = dec 90 3, oq_precision = 3\<rparr>"
  "is_exact_decimal_multiple (dec 1 3) (dec 1 3) = Inr True"
  "is_exact_decimal_multiple (dec 90 3) (dec 1 3) = Inr True"
  "is_exact_decimal_multiple (dec 1 1) (dec 1 5) = Inr True"
  "is_exact_decimal_multiple (dec 90 0) (dec 1 5) = Inr True"
  "exact_product [dec 1 2, dec 1 3, dec 1 0] = Inr (dec 1 5)"
  "decimal_to_scaled_integer (dec 1 1) 6 = Inr 100000"
  "decimal_to_scaled_integer (dec 90 0) 6 = Inr 90000000"
  "bounded_positive_decimal (PyDecimal (dec 1 0)) ''multiplier'' = Inr (dec 1 0)"
  "\<not> dec_le (dec 1 2) (dec_int 0)" "\<not> dec_le (dec 1 3) (dec_int 0)"
  "\<not> dec_le (dec 90 3) (dec_int 0)" "\<not> dec_lt (dec 90 3) (dec 1 3)"
  "\<not> dec_lt (dec 90 0) (dec 1 1)" "\<not> dec_le (dec 90 0) (dec_int 0)"
  "\<not> dec_le (dec 1 1) (dec_int 0)" "dexp (dec 1 1) = - 1" "dexp (dec 90 0) = 0"
  by code_simp+

lemma demo_definition_ok: "mk_instrument_definition demo_definition = Inr demo_definition"
proof -
  have "validate_identity_and_catalog demo_definition = Inr demo_definition"
    by (simp add: validate_identity_and_catalog_def demo_definition_def mk_instrument_id_def
        canonical_component_safe safe_component_def char_class_defs raw_symbol_def strip_chars_def
        mk_instrument_provenance_def require_utc_def)
  moreover have "validate_currencies demo_definition = Inr ()"
    by (simp add: validate_currencies_def demo_definition_def require_currency_def is_registered_def
        registry_defs)
  moreover have "validate_price_and_quantity_limits demo_definition = Inr ()"
    by (simp add: validate_price_and_quantity_limits_def demo_definition_def demo_arithmetic
        mk_price_def require_finite_decimal_def require_currency_def is_registered_def registry_defs
        check_limit_quantity_def MAX_FINANCIAL_PRECISION_def del: One_nat_def)
  moreover have "validate_notional_limits demo_definition = Inr ()"
    by (simp add: validate_notional_limits_def demo_definition_def demo_arithmetic
        mk_money_def require_finite_decimal_def require_currency_def is_registered_def registry_defs
        check_limit_notional_def del: One_nat_def)
  ultimately show ?thesis by (simp add: mk_instrument_definition_def)
qed

definition demo_constraints :: instrument_constraints where
  "demo_constraints = \<lparr>ic_definition = demo_definition\<rparr>"

definition demo_price :: price where
  "demo_price = \<lparr>p_amount = dec 5 0, p_currency = USDT\<rparr>"

definition demo_quantity :: order_quantity where
  "demo_quantity = \<lparr>oq_value = dec 20 3, oq_precision = 3\<rparr>"

lemma demo_constraints_ok: "mk_instrument_constraints demo_definition = Inr demo_constraints"
  by (simp add: mk_instrument_constraints_def demo_definition_ok demo_constraints_def)

lemma demo_order_arithmetic:
  "decimal_to_scaled_integer (dec 5 0) 2 = Inr 500"
  "is_exact_decimal_multiple (dec 5 0) (dec 1 2) = Inr True"
  "\<not> dec_le (dec 5 0) (dec_int 0)"
  "mk_order_quantity (PyDecimal (dec 20 3)) 3 = Inr \<lparr>oq_value = dec 20 3, oq_precision = 3\<rparr>"
  "\<not> dec_le (dec 20 3) (dec_int 0)" "\<not> dec_lt (dec 20 3) (dec 1 3)" "\<not> dec_lt (dec 90 3) (dec 20 3)"
  "is_exact_decimal_multiple (dec 20 3) (dec 1 3) = Inr True"
  "exact_product [dec 5 0, dec 20 3, dec 1 0] = Inr (dec 100 3)"
  "decimal_to_scaled_integer (dec 100 3) 6 = Inr 100000"
  "\<not> dec_lt (dec 100 3) (dec 1 1)" "\<not> dec_lt (dec 90 0) (dec 100 3)"
  by code_simp+

lemma demo_order_ok:
  "validate_order demo_constraints demo_price demo_quantity = Inr (demo_price, demo_quantity)"
  by (simp add: validate_order_def validate_price_def validate_quantity_def demo_price_def
      demo_quantity_def demo_definition_def demo_constraints_def demo_arithmetic demo_order_arithmetic
      mk_price_def require_finite_decimal_def require_currency_def is_registered_def registry_defs
      del: One_nat_def)

subsection \<open>Properties\<close>

text \<open>
  C35: order validation under constructed constraints accepts exactly the orders in the quote
  currency whose price is a positive multiple of the tick, whose quantity is a multiple of the size
  increment within the quantity limits, and whose notional is exactly representable in the quote
  currency and within the notional limits; it returns the order unchanged.
\<close>

theorem validate_order_exact:
  assumes "mk_instrument_constraints s = Inr ic"
  defines "d \<equiv> ic_definition ic"
  shows "validate_order ic p q = Inr r \<longleftrightarrow>
    r = (p, q)
    \<and> p_currency p = id_quote_currency d \<and> 0 < fraction (p_amount p)
    \<and> (\<exists>z::int. fraction (p_amount p) = of_int z * fraction (p_amount (id_tick_size d)))
    \<and> fraction (p_amount p) * 10 ^ nat (fractional_precision (p_amount (id_tick_size d))) < 10 ^ 128
    \<and> is_ok (mk_order_quantity (PyDecimal (oq_value q)) (oq_precision q))
    \<and> oq_precision q = oq_precision (id_size_increment d)
    \<and> (\<exists>z::int. fraction (oq_value q) = of_int z * fraction (oq_value (id_size_increment d)))
    \<and> fraction (oq_value (id_minimum_quantity d)) \<le> fraction (oq_value q)
    \<and> fraction (oq_value q) \<le> fraction (oq_value (id_maximum_quantity d))
    \<and> is_ok (exact_product [p_amount p, oq_value q, id_multiplier d])
    \<and> (\<exists>n::int. of_int n = fraction (p_amount p) * fraction (oq_value q) * fraction (id_multiplier d)
            * 10 ^ nat (cur_precision (id_quote_currency d)) \<and> \<bar>n\<bar> < 10 ^ 128)
    \<and> fraction (m_amount (id_minimum_notional d))
           \<le> fraction (p_amount p) * fraction (oq_value q) * fraction (id_multiplier d)
    \<and> fraction (p_amount p) * fraction (oq_value q) * fraction (id_multiplier d)
           \<le> fraction (m_amount (id_maximum_notional d))"
proof -
  have sound: "sound_definition (ic_definition ic)"
    using assms(1) mk_instrument_definition_sound
    by (auto simp: mk_instrument_constraints_def res_simps)
  show ?thesis
    unfolding d_def validate_order_Inr_iff [OF sound] validate_price_Inr_iff [OF sound]
      validate_quantity_Inr_iff [OF sound] by blast
qed

theorem validate_order_exact_witness:
  "mk_instrument_constraints demo_definition = Inr demo_constraints
   \<and> validate_order demo_constraints demo_price demo_quantity = Inr (demo_price, demo_quantity)
   \<and> fraction (dec 1 1) \<le> fraction (dec 5 0) * fraction (dec 20 3) * fraction (dec 1 0)"
  using demo_constraints_ok demo_order_ok
    validate_order_exact [OF demo_constraints_ok, of demo_price demo_quantity "(demo_price, demo_quantity)"]
  by (simp add: demo_price_def demo_quantity_def demo_constraints_def demo_definition_def del: One_nat_def)

text \<open>
  The canonical string identifies an instrument: two constructed identities have the same
  canonical string only when they are equal, because no component can contain the delimiter.
\<close>

theorem instrument_canonical_injective:
  assumes "mk_instrument_id s t v = Inr a" and "mk_instrument_id s' t' v' = Inr b"
  shows "canonical a = canonical b \<longleftrightarrow> a = b"
  using assms mk_instrument_id_valid canonical_inj by blast

theorem instrument_canonical_injective_witness:
  "canonical \<lparr>ii_symbol = ''AB'', ii_product_type = EQUITY, ii_venue = ''X.Y''\<rparr>
     \<noteq> canonical \<lparr>ii_symbol = ''AB'', ii_product_type = CRYPTO_SPOT, ii_venue = ''X.Y''\<rparr>"
proof -
  have "canonical_component '' ab'' f = Inr ''AB''" "canonical_component ''x.y'' f = Inr ''X.Y''" for f
    by code_simp+
  then have "mk_instrument_id '' ab'' t ''x.y'' = Inr \<lparr>ii_symbol = ''AB'', ii_product_type = t, ii_venue = ''X.Y''\<rparr>"
    for t by (simp add: mk_instrument_id_def)
  from instrument_canonical_injective [OF this [of EQUITY] this [of CRYPTO_SPOT]] show ?thesis by simp
qed

text \<open>
  constructing a definition is idempotent: a definition that came out of the constructor is
  accepted again unchanged, so wrapping it in constraints keeps it as it is.
\<close>

theorem instrument_definition_stable:
  assumes "mk_instrument_definition d = Inr d'"
  shows "mk_instrument_constraints d' = Inr \<lparr>ic_definition = d'\<rparr>"
  using mk_instrument_definition_idem [OF assms] by (simp add: mk_instrument_constraints_def)

theorem instrument_definition_stable_witness:
  "mk_instrument_constraints demo_definition = Inr \<lparr>ic_definition = demo_definition\<rparr>"
  by (rule instrument_definition_stable [OF demo_definition_ok])

end
