(* ===== verification/Orders.thy ===== *)
theory Orders
  imports Instruments
begin

section \<open>Order instructions and the order lifecycle (packages/domain/orders.py, lines 1-607)\<close>

text \<open>
  \<open>OrderIntent\<close>, the lifecycle observation \<open>OrderEvent\<close> with its canonical fingerprint, the
  transition table, the history-replaying validator of \<open>OrderState\<close> and the pure reducer
  \<open>reduce_order\<close>. The digest function of \<open>hashlib\<close> is the parameter \<open>sha256\<close>; the
  fingerprinted JSON text itself is modelled character by character, without the interpreter's limit of
  4300 digits on the text of a sequence. Values nested in a model (money, prices, quantities, instrument
  ids) are those their own constructors accepted; pydantic's second run of these constructors is left out.
\<close>

subsection \<open>Enumerations\<close>

datatype order_side = BUY | SELL

datatype order_type =
  MARKET | LIMIT | STOP_MARKET | STOP_LIMIT | MARKET_IF_TOUCHED | LIMIT_IF_TOUCHED | TRAILING_STOP

datatype time_in_force = GTC | IOC | FOK | DAY | GTD

datatype order_status =
  INITIALIZED | SUBMITTED | ACCEPTED | PENDING_UPDATE | PENDING_CANCEL | TRIGGERED
  | PARTIALLY_FILLED | FILLED | CANCELED | EXPIRED | REJECTED | DENIED

datatype order_cancel_resolution = CR_REJECTED

fun order_type_value :: "order_type \<Rightarrow> string" where
  "order_type_value MARKET = ''market''"
| "order_type_value LIMIT = ''limit''"
| "order_type_value STOP_MARKET = ''stop_market''"
| "order_type_value STOP_LIMIT = ''stop_limit''"
| "order_type_value MARKET_IF_TOUCHED = ''market_if_touched''"
| "order_type_value LIMIT_IF_TOUCHED = ''limit_if_touched''"
| "order_type_value TRAILING_STOP = ''trailing_stop''"

fun order_status_value :: "order_status \<Rightarrow> string" where
  "order_status_value INITIALIZED = ''INITIALIZED''"
| "order_status_value SUBMITTED = ''SUBMITTED''"
| "order_status_value ACCEPTED = ''ACCEPTED''"
| "order_status_value PENDING_UPDATE = ''PENDING_UPDATE''"
| "order_status_value PENDING_CANCEL = ''PENDING_CANCEL''"
| "order_status_value TRIGGERED = ''TRIGGERED''"
| "order_status_value PARTIALLY_FILLED = ''PARTIALLY_FILLED''"
| "order_status_value FILLED = ''FILLED''"
| "order_status_value CANCELED = ''CANCELED''"
| "order_status_value EXPIRED = ''EXPIRED''"
| "order_status_value REJECTED = ''REJECTED''"
| "order_status_value DENIED = ''DENIED''"

definition TERMINAL_ORDER_STATUSES :: "order_status list" where
  "TERMINAL_ORDER_STATUSES = [FILLED, CANCELED, EXPIRED, REJECTED, DENIED]"

type_synonym order_state_key = "order_status \<times> bool"
type_synonym order_observation_key = "order_status \<times> order_cancel_resolution option"

definition ORDER_STATUS_TRANSITIONS ::
  "(order_state_key \<times> (order_observation_key \<times> order_state_key) list) list" where
  "ORDER_STATUS_TRANSITIONS =
   [((INITIALIZED, False),
      [((SUBMITTED, None), (SUBMITTED, False)),
       ((DENIED, None), (DENIED, False))]),
    ((SUBMITTED, False),
      [((ACCEPTED, None), (ACCEPTED, False)),
       ((PENDING_CANCEL, None), (PENDING_CANCEL, True)),
       ((PARTIALLY_FILLED, None), (PARTIALLY_FILLED, False)),
       ((FILLED, None), (FILLED, False)),
       ((CANCELED, None), (CANCELED, False)),
       ((EXPIRED, None), (EXPIRED, False)),
       ((REJECTED, None), (REJECTED, False))]),
    ((ACCEPTED, False),
      [((PENDING_UPDATE, None), (PENDING_UPDATE, False)),
       ((PENDING_CANCEL, None), (PENDING_CANCEL, True)),
       ((TRIGGERED, None), (TRIGGERED, False)),
       ((PARTIALLY_FILLED, None), (PARTIALLY_FILLED, False)),
       ((FILLED, None), (FILLED, False)),
       ((CANCELED, None), (CANCELED, False)),
       ((EXPIRED, None), (EXPIRED, False))]),
    ((PENDING_UPDATE, False),
      [((ACCEPTED, None), (ACCEPTED, False)),
       ((PENDING_CANCEL, None), (PENDING_CANCEL, True)),
       ((TRIGGERED, None), (TRIGGERED, False)),
       ((PARTIALLY_FILLED, None), (PARTIALLY_FILLED, False)),
       ((FILLED, None), (FILLED, False)),
       ((CANCELED, None), (CANCELED, False)),
       ((EXPIRED, None), (EXPIRED, False))]),
    ((TRIGGERED, False),
      [((PENDING_UPDATE, None), (PENDING_UPDATE, False)),
       ((PENDING_CANCEL, None), (PENDING_CANCEL, True)),
       ((PARTIALLY_FILLED, None), (PARTIALLY_FILLED, False)),
       ((FILLED, None), (FILLED, False)),
       ((CANCELED, None), (CANCELED, False)),
       ((EXPIRED, None), (EXPIRED, False))]),
    ((PARTIALLY_FILLED, False),
      [((PENDING_UPDATE, None), (PENDING_UPDATE, False)),
       ((PENDING_CANCEL, None), (PENDING_CANCEL, True)),
       ((PARTIALLY_FILLED, None), (PARTIALLY_FILLED, False)),
       ((FILLED, None), (FILLED, False)),
       ((CANCELED, None), (CANCELED, False)),
       ((EXPIRED, None), (EXPIRED, False))]),
    ((PENDING_CANCEL, True),
      [((ACCEPTED, Some CR_REJECTED), (ACCEPTED, False)),
       ((TRIGGERED, None), (TRIGGERED, True)),
       ((PARTIALLY_FILLED, None), (PARTIALLY_FILLED, True)),
       ((FILLED, None), (FILLED, False)),
       ((CANCELED, None), (CANCELED, False)),
       ((EXPIRED, None), (EXPIRED, False))]),
    ((TRIGGERED, True),
      [((TRIGGERED, Some CR_REJECTED), (TRIGGERED, False)),
       ((PARTIALLY_FILLED, None), (PARTIALLY_FILLED, True)),
       ((FILLED, None), (FILLED, False)),
       ((CANCELED, None), (CANCELED, False)),
       ((EXPIRED, None), (EXPIRED, False))]),
    ((PARTIALLY_FILLED, True),
      [((PARTIALLY_FILLED, None), (PARTIALLY_FILLED, True)),
       ((PARTIALLY_FILLED, Some CR_REJECTED), (PARTIALLY_FILLED, False)),
       ((FILLED, None), (FILLED, False)),
       ((CANCELED, None), (CANCELED, False)),
       ((EXPIRED, None), (EXPIRED, False))]),
    ((FILLED, False),
      []),
    ((CANCELED, False),
      []),
    ((EXPIRED, False),
      []),
    ((REJECTED, False),
      []),
    ((DENIED, False),
      [])]"

definition LIMIT_PRICE_TYPES :: "order_type list" where
  "LIMIT_PRICE_TYPES = [LIMIT, STOP_LIMIT, LIMIT_IF_TOUCHED]"

definition TRIGGER_PRICE_TYPES :: "order_type list" where
  "TRIGGER_PRICE_TYPES = [STOP_MARKET, STOP_LIMIT, MARKET_IF_TOUCHED, LIMIT_IF_TOUCHED]"

definition POST_ONLY_TIME_IN_FORCE :: "time_in_force list" where
  "POST_ONLY_TIME_IN_FORCE = [GTC, DAY, GTD]"

definition REASON_REQUIRED_STATUSES :: "order_status list" where
  "REASON_REQUIRED_STATUSES = [CANCELED, EXPIRED, REJECTED, DENIED]"

subsection \<open>Constrained strings\<close>

definition canonical_identifier :: "string \<Rightarrow> bool" where
  "canonical_identifier =
     matches_head_tail is_alnum_char
       (\<lambda>c. is_alnum_char c \<or> c = CHR ''.'' \<or> c = CHR ''_'' \<or> c = CHR '':'' \<or> c = CHR ''-'') 63"

definition canonical_reason :: "string \<Rightarrow> bool" where
  "canonical_reason =
     matches_head_tail is_upper_char
       (\<lambda>c. is_upper_char c \<or> is_digit_char c \<or> c = CHR ''_'') 63"

definition sha256_hex :: "string \<Rightarrow> bool" where
  "sha256_hex s =
     (length s = 64
      \<and> list_all (\<lambda>c. is_digit_char c \<or> (CHR ''a'' \<le> c \<and> c \<le> CHR ''f'')) s)"

definition require_field :: "string \<Rightarrow> bool \<Rightarrow> unit res" where
  "require_field name ok = (if ok then Inr () else Inl (ValidationError name))"

definition optional_ok :: "('a \<Rightarrow> bool) \<Rightarrow> 'a option \<Rightarrow> bool" where
  "optional_ok P v = (case v of None \<Rightarrow> True | Some x \<Rightarrow> P x)"

subsection \<open>Order instructions\<close>

record order_intent =
  oi_intent_id :: uuid
  oi_risk_decision_id :: uuid
  oi_client_order_id :: string
  oi_venue_order_id :: "string option"
  oi_strategy_id :: string
  oi_trader_id :: string
  oi_account_id :: string
  oi_execution_client_id :: string
  oi_order_list_id :: "string option"
  oi_instrument :: instrument_id
  oi_side :: order_side
  oi_order_type :: order_type
  oi_time_in_force :: time_in_force
  oi_quantity :: order_quantity
  oi_limit_price :: "price option"
  oi_trigger_price :: "price option"
  oi_trailing_offset :: "price option"
  oi_gtd_expiry :: "datetime option"
  oi_post_only :: bool
  oi_reduce_only :: bool
  oi_requested_at :: datetime
  oi_schema_version :: string

definition positive_quantity :: "order_quantity \<Rightarrow> order_quantity res" where
  "positive_quantity value =
     (if dec_le (oq_value value) (dec_int 0) then Inl (ValueError ''quantity must be positive'')
      else Inr value)"

definition optional_utc :: "datetime option \<Rightarrow> datetime option res" where
  "optional_utc value =
     (case value of None \<Rightarrow> Inr None | Some v \<Rightarrow> bindE (require_utc v) (\<lambda>v. Inr (Some v)))"

definition validate_instruction :: "order_intent \<Rightarrow> order_intent res" where
  "validate_instruction i =
     (let ty = oi_order_type i;
          requires_limit = ty \<in> set LIMIT_PRICE_TYPES;
          requires_trigger = ty \<in> set TRIGGER_PRICE_TYPES;
          requires_trailing = (ty = TRAILING_STOP)
      in if requires_limit \<and> oi_limit_price i = None
         then Inl (ValueError (order_type_value ty @ '' orders require limit_price''))
         else if \<not> requires_limit \<and> oi_limit_price i \<noteq> None
         then Inl (ValueError (order_type_value ty @ '' orders forbid limit_price''))
         else if requires_trigger \<and> oi_trigger_price i = None
         then Inl (ValueError (order_type_value ty @ '' orders require trigger_price''))
         else if \<not> requires_trigger \<and> oi_trigger_price i \<noteq> None
         then Inl (ValueError (order_type_value ty @ '' orders forbid trigger_price''))
         else if requires_trailing \<and> oi_trailing_offset i = None
         then Inl (ValueError ''trailing_stop orders require trailing_offset'')
         else if \<not> requires_trailing \<and> oi_trailing_offset i \<noteq> None
         then Inl (ValueError (order_type_value ty @ '' orders forbid trailing_offset''))
         else
         bindE (if oi_time_in_force i = GTD
                then (case oi_gtd_expiry i of
                        None \<Rightarrow> Inl (ValueError ''GTD orders require gtd_expiry'')
                      | Some x \<Rightarrow>
                          if dt_le x (oi_requested_at i)
                          then Inl (ValueError ''gtd_expiry must be after requested_at'')
                          else Inr ())
                else if oi_gtd_expiry i \<noteq> None
                then Inl (ValueError ''gtd_expiry is valid only for GTD orders'')
                else Inr ()) (\<lambda>_.
         if oi_post_only i
            \<and> (ty \<notin> set LIMIT_PRICE_TYPES \<or> oi_time_in_force i \<notin> set POST_ONLY_TIME_IN_FORCE)
         then Inl (ValueError ''post_only requires a resting limit instruction'')
         else Inr i))"

definition mk_order_intent :: "order_intent \<Rightarrow> order_intent res" where
  "mk_order_intent i =
     wrap_validation (
       bindE (require_field ''client_order_id'' (canonical_identifier (oi_client_order_id i))) (\<lambda>_.
       bindE (require_field ''venue_order_id'' (optional_ok canonical_identifier (oi_venue_order_id i))) (\<lambda>_.
       bindE (require_field ''strategy_id'' (canonical_identifier (oi_strategy_id i))) (\<lambda>_.
       bindE (require_field ''trader_id'' (canonical_identifier (oi_trader_id i))) (\<lambda>_.
       bindE (require_field ''account_id'' (canonical_identifier (oi_account_id i))) (\<lambda>_.
       bindE (require_field ''execution_client_id'' (canonical_identifier (oi_execution_client_id i))) (\<lambda>_.
       bindE (require_field ''order_list_id'' (optional_ok canonical_identifier (oi_order_list_id i))) (\<lambda>_.
       bindE (positive_quantity (oi_quantity i)) (\<lambda>_.
       bindE (optional_utc (oi_gtd_expiry i)) (\<lambda>_.
       bindE (require_utc (oi_requested_at i)) (\<lambda>_.
       bindE (require_field ''schema_version'' (oi_schema_version i \<noteq> [])) (\<lambda>_.
       validate_instruction i))))))))))))"

subsection \<open>Lifecycle observations and their fingerprint\<close>

record order_event =
  oe_event_id :: uuid
  oe_order_id :: uuid
  oe_sequence :: int
  oe_target_status :: order_status
  oe_occurred_at :: datetime
  oe_reason :: "string option"
  oe_cancel_resolution :: "order_cancel_resolution option"
  oe_schema_version :: string
  oe_event_fingerprint :: string

definition validate_reason :: "order_event \<Rightarrow> order_event res" where
  "validate_reason e =
     (if oe_target_status e \<in> set REASON_REQUIRED_STATUSES \<and> oe_reason e = None
      then Inl (ValueError (''reason is required for '' @ order_status_value (oe_target_status e)))
      else if oe_cancel_resolution e \<noteq> None \<and> oe_reason e = None
      then Inl (ValueError ''reason is required for cancel_resolution'')
      else Inr e)"

definition event_material_fields :: "order_event \<Rightarrow> unit res" where
  "event_material_fields e =
     bindE (require_field ''sequence'' (0 < oe_sequence e)) (\<lambda>_.
     bindE (require_utc (oe_occurred_at e)) (\<lambda>_.
     bindE (require_field ''reason'' (optional_ok canonical_reason (oe_reason e))) (\<lambda>_.
     require_field ''schema_version'' (oe_schema_version e = ''2.0''))))"

text \<open>\<open>str(uuid)\<close>, \<open>datetime.isoformat\<close> with the offset replaced by Z, and JSON strings.\<close>

definition hex_char :: "nat \<Rightarrow> char" where
  "hex_char n = (if n < 10 then digit_char n else char_of (87 + n))"

fun hex_digits :: "nat \<Rightarrow> nat \<Rightarrow> nat list" where
  "hex_digits 0 c = []"
| "hex_digits (Suc n) c = hex_digits n (c div 16) @ [c mod 16]"

definition uuid_text :: "uuid \<Rightarrow> string" where
  "uuid_text u =
     (let h = map hex_char (hex_digits 32 (unat u))
      in take 8 h @ ''-'' @ take 4 (drop 8 h) @ ''-'' @ take 4 (drop 12 h) @ ''-''
         @ take 4 (drop 16 h) @ ''-'' @ drop 20 h)"

definition padded :: "nat \<Rightarrow> nat \<Rightarrow> string" where
  "padded width n = map digit_char (frac_digits width n)"

definition utc_text :: "datetime \<Rightarrow> string" where
  "utc_text d =
     padded 4 (dt_year d) @ ''-'' @ padded 2 (dt_month d) @ ''-'' @ padded 2 (dt_day d) @ ''T''
     @ padded 2 (dt_hour d) @ '':'' @ padded 2 (dt_minute d) @ '':'' @ padded 2 (dt_second d) @ ''.''
     @ padded 6 (dt_micro d) @ ''Z''"

definition quoted :: "string \<Rightarrow> string" where
  "quoted s = [CHR 0x22] @ s @ [CHR 0x22]"

definition json_optional :: "string option \<Rightarrow> string" where
  "json_optional v = (case v of None \<Rightarrow> ''null'' | Some s \<Rightarrow> quoted s)"

fun cancel_resolution_value :: "order_cancel_resolution \<Rightarrow> string" where
  "cancel_resolution_value CR_REJECTED = ''REJECTED''"

text \<open>The sorted keys, in three runs: identity, reason, ordering.\<close>

definition material_ordering :: "order_event \<Rightarrow> string" where
  "material_ordering e =
     '','' @ quoted ''schema_version'' @ '':'' @ quoted (oe_schema_version e)
     @ '','' @ quoted ''sequence'' @ '':'' @ map digit_char (as_digits (nat (oe_sequence e)))
     @ '','' @ quoted ''target_status'' @ '':'' @ quoted (order_status_value (oe_target_status e)) @ ''}''"

definition material_reason :: "order_event \<Rightarrow> string" where
  "material_reason e =
     '','' @ quoted ''reason'' @ '':'' @ json_optional (oe_reason e) @ material_ordering e"

definition material_identity :: "order_event \<Rightarrow> string" where
  "material_identity e =
     '','' @ quoted ''event_id'' @ '':'' @ quoted (uuid_text (oe_event_id e))
     @ '','' @ quoted ''occurred_at'' @ '':'' @ quoted (utc_text (oe_occurred_at e))
     @ '','' @ quoted ''order_id'' @ '':'' @ quoted (uuid_text (oe_order_id e)) @ material_reason e"

definition event_material :: "order_event \<Rightarrow> string" where
  "event_material e =
     ''{'' @ quoted ''cancel_resolution'' @ '':''
     @ json_optional (map_option cancel_resolution_value (oe_cancel_resolution e)) @ material_identity e"

definition event_fingerprint :: "(string \<Rightarrow> string) \<Rightarrow> order_event \<Rightarrow> string" where
  "event_fingerprint sha256 e = sha256 (event_material e)"

definition canonical_event :: "(string \<Rightarrow> string) \<Rightarrow> order_event \<Rightarrow> order_event res" where
  "canonical_event sha256 e =
     wrap_validation (
       bindE (event_material_fields e) (\<lambda>_.
       bindE (require_field ''event_fingerprint'' (sha256_hex (oe_event_fingerprint e))) (\<lambda>_.
       bindE (validate_reason e) (\<lambda>_.
       if oe_event_fingerprint e \<noteq> event_fingerprint sha256 e
       then Inl (ValueError ''event_fingerprint does not match canonical event fields'')
       else Inr e))))"

definition create_event :: "(string \<Rightarrow> string) \<Rightarrow> order_event \<Rightarrow> order_event res" where
  "create_event sha256 material =
     bindE (wrap_validation (bindE (event_material_fields material) (\<lambda>_. validate_reason material))) (\<lambda>m.
     canonical_event sha256 (m\<lparr>oe_event_fingerprint := event_fingerprint sha256 m\<rparr>))"

subsection \<open>State and reducer\<close>

definition py_bool :: "bool \<Rightarrow> string" where
  "py_bool b = (if b then ''True'' else ''False'')"

definition next_state_key :: "order_state_key \<Rightarrow> order_event \<Rightarrow> order_state_key res" where
  "next_state_key current event =
     (if fst current \<in> set TERMINAL_ORDER_STATUSES
      then Inl (OrderReductionError
             (''terminal order status cannot change: '' @ order_status_value (fst current)))
      else
        let observation = (oe_target_status event, oe_cancel_resolution event)
        in case Option.bind (map_of ORDER_STATUS_TRANSITIONS current) (\<lambda>row. map_of row observation) of
             None \<Rightarrow>
               if snd current \<and> oe_target_status event = PENDING_UPDATE
               then Inl (OrderReductionError ''pending cancel forbids order update'')
               else Inl (OrderReductionError
                      (''forbidden order transition: '' @ order_status_value (fst current) @ ''/''
                       @ py_bool (snd current) @ '' -> '' @ order_status_value (oe_target_status event) @ ''/''
                       @ (case oe_cancel_resolution event of None \<Rightarrow> ''None''
                          | Some CR_REJECTED \<Rightarrow> ''OrderCancelResolution.REJECTED'')))
           | Some next_key \<Rightarrow> Inr next_key)"

record order_state =
  os_order_id :: uuid
  os_status :: order_status
  os_cancel_pending :: bool
  os_last_sequence :: int
  os_applied_events :: "order_event list"
  os_schema_version :: string

text \<open>The loop variables of the history validator.\<close>

record history =
  h_event_ids :: "uuid list"
  h_previous_sequence :: int
  h_current :: order_state_key
  h_canonical_events :: "order_event list"

definition empty_history :: history where
  "empty_history = \<lparr>h_event_ids = [], h_previous_sequence = 0, h_current = (INITIALIZED, False),
                    h_canonical_events = []\<rparr>"

definition history_step ::
  "(string \<Rightarrow> string) \<Rightarrow> uuid \<Rightarrow> history \<Rightarrow> order_event \<Rightarrow> history res" where
  "history_step sha256 order_id h event =
     bindE (catch_validation_error (canonical_event sha256 event)
              (ValueError ''applied_events contain invalid order event'')) (\<lambda>canonical.
     if oe_order_id canonical \<noteq> order_id
     then Inl (ValueError ''applied event order_id does not match state order_id'')
     else if oe_event_id canonical \<in> set (h_event_ids h)
     then Inl (ValueError ''applied_events contain a duplicate event_id'')
     else if oe_sequence canonical \<le> h_previous_sequence h
     then Inl (ValueError ''applied_events contain non-increasing sequence'')
     else
     bindE (case next_state_key (h_current h) canonical of
              Inl (OrderReductionError m) \<Rightarrow> Inl (ValueError m)
            | r \<Rightarrow> r) (\<lambda>current.
     Inr \<lparr>h_event_ids = h_event_ids h @ [oe_event_id canonical],
          h_previous_sequence = oe_sequence canonical, h_current = current,
          h_canonical_events = h_canonical_events h @ [canonical]\<rparr>))"

definition validate_history :: "(string \<Rightarrow> string) \<Rightarrow> order_state \<Rightarrow> order_state res" where
  "validate_history sha256 s =
     (if os_applied_events s = []
      then (if os_status s \<noteq> INITIALIZED \<or> os_cancel_pending s \<or> os_last_sequence s \<noteq> 0
            then Inl (ValueError (''empty history requires INITIALIZED status, no pending cancel, ''
                                  @ ''and sequence zero''))
            else Inr s)
      else
        bindE (foldE (history_step sha256 (os_order_id s)) empty_history (os_applied_events s)) (\<lambda>h.
        if h_previous_sequence h \<noteq> os_last_sequence s
        then Inl (ValueError ''last_sequence does not match applied_events'')
        else if h_current h \<noteq> (os_status s, os_cancel_pending s)
        then Inl (ValueError ''status or cancel_pending does not match applied_events'')
        else Inr (s\<lparr>os_applied_events := h_canonical_events h\<rparr>)))"

text \<open>
  Constructing (or re-validating) a state: the declared field constraints, with every event
  re-validated, then the history.
\<close>

definition canonical_state :: "(string \<Rightarrow> string) \<Rightarrow> order_state \<Rightarrow> order_state res" where
  "canonical_state sha256 s =
     wrap_validation (
       bindE (require_field ''last_sequence'' (0 \<le> os_last_sequence s)) (\<lambda>_.
       bindE (mapE (canonical_event sha256) (os_applied_events s)) (\<lambda>events.
       bindE (require_field ''schema_version'' (os_schema_version s = ''2.0'')) (\<lambda>_.
       validate_history sha256 (s\<lparr>os_applied_events := events\<rparr>)))))"

definition reduce_order ::
  "(string \<Rightarrow> string) \<Rightarrow> order_state \<Rightarrow> order_event \<Rightarrow> order_state res" where
  "reduce_order sha256 state event =
     bindE (catch_validation_error (canonical_state sha256 state)
              (OrderReductionError ''invalid order state'')) (\<lambda>c_state.
     bindE (catch_validation_error (canonical_event sha256 event)
              (OrderReductionError ''invalid order event'')) (\<lambda>c_event.
     if oe_order_id c_event \<noteq> os_order_id c_state
     then Inl (OrderReductionError
            (''order id mismatch: state '' @ uuid_text (os_order_id c_state)
             @ '', event '' @ uuid_text (oe_order_id c_event)))
     else
       case find (\<lambda>applied. oe_event_id applied = oe_event_id c_event) (os_applied_events c_state) of
         Some duplicate \<Rightarrow>
           if oe_event_fingerprint duplicate = oe_event_fingerprint c_event then Inr state
           else Inl (OrderReductionError (''event id conflict: '' @ uuid_text (oe_event_id c_event)))
       | None \<Rightarrow>
           if oe_sequence c_event \<le> os_last_sequence c_state
           then Inl (OrderReductionError
                  (''non-increasing sequence: event '' @ map digit_char (as_digits (nat (oe_sequence c_event)))
                   @ '', state '' @ map digit_char (as_digits (nat (os_last_sequence c_state)))))
           else
             bindE (next_state_key (os_status c_state, os_cancel_pending c_state) c_event)
               (\<lambda>(next_status, next_cancel_pending).
             canonical_state sha256
               \<lparr>os_order_id = os_order_id c_state, os_status = next_status,
                os_cancel_pending = next_cancel_pending, os_last_sequence = oe_sequence c_event,
                os_applied_events = os_applied_events c_state @ [c_event],
                os_schema_version = os_schema_version c_state\<rparr>)))"

definition initial_order_state :: "uuid \<Rightarrow> order_state" where
  "initial_order_state order_id =
     \<lparr>os_order_id = order_id, os_status = INITIALIZED, os_cancel_pending = False,
      os_last_sequence = 0, os_applied_events = [], os_schema_version = ''2.0''\<rparr>"


subsection \<open>Events and histories\<close>

lemma require_field_Inr_iff [res_simps]: "require_field n b = Inr u \<longleftrightarrow> b"
  by (simp add: require_field_def)

definition valid_event :: "(string \<Rightarrow> string) \<Rightarrow> order_event \<Rightarrow> bool" where
  "valid_event sha256 e = (canonical_event sha256 e = Inr e)"

lemma canonical_event_Inr_iff [res_simps]:
  "canonical_event sha256 e = Inr e' \<longleftrightarrow> e' = e \<and> valid_event sha256 e"
  by (auto simp: canonical_event_def valid_event_def res_simps)

lemma valid_event_sequence: "valid_event sha256 e \<Longrightarrow> 0 < oe_sequence e"
  by (auto simp: valid_event_def canonical_event_def event_material_fields_def res_simps)

lemma valid_event_fingerprint:
  "valid_event sha256 e \<Longrightarrow> oe_event_fingerprint e = event_fingerprint sha256 e"
  by (auto simp: valid_event_def canonical_event_def res_simps)

lemma next_key_recoded_Inr_iff [res_simps]:
  "(case m of Inl (OrderReductionError t) \<Rightarrow> Inl (ValueError t) | r \<Rightarrow> r) = Inr k \<longleftrightarrow> m = Inr k"
  by (auto split: sum.splits error.splits)

lemma history_step_Inr_iff [res_simps]:
  "history_step sha256 oid h e = Inr h' \<longleftrightarrow>
     valid_event sha256 e \<and> oe_order_id e = oid \<and> oe_event_id e \<notin> set (h_event_ids h)
     \<and> h_previous_sequence h < oe_sequence e
     \<and> (\<exists>k. next_state_key (h_current h) e = Inr k
          \<and> h' = \<lparr>h_event_ids = h_event_ids h @ [oe_event_id e], h_previous_sequence = oe_sequence e,
                 h_current = k, h_canonical_events = h_canonical_events h @ [e]\<rparr>)"
  by (auto simp: history_step_def res_simps)

definition replay_history ::
  "(string \<Rightarrow> string) \<Rightarrow> uuid \<Rightarrow> order_event list \<Rightarrow> history res" where
  "replay_history sha256 oid = foldE (history_step sha256 oid) empty_history"

lemma replay_history_Nil [simp]: "replay_history sha256 oid [] = Inr empty_history"
  by (simp add: replay_history_def)

lemma replay_history_snoc_iff [res_simps]:
  "replay_history sha256 oid (es @ [e]) = Inr h' \<longleftrightarrow>
     (\<exists>h. replay_history sha256 oid es = Inr h \<and> history_step sha256 oid h e = Inr h')"
  by (auto simp: replay_history_def foldE_append res_simps)

text \<open>What a replayed history looks like.\<close>

definition history_shape :: "(string \<Rightarrow> string) \<Rightarrow> uuid \<Rightarrow> order_event list \<Rightarrow> history \<Rightarrow> bool" where
  "history_shape sha256 oid es h =
     (h_event_ids h = map oe_event_id es \<and> h_canonical_events h = es
      \<and> h_previous_sequence h = (if es = [] then 0 else oe_sequence (last es))
      \<and> list_all (valid_event sha256) es \<and> list_all (\<lambda>e. oe_order_id e = oid) es
      \<and> distinct (map oe_event_id es) \<and> sorted_wrt (<) (map oe_sequence es)
      \<and> list_all (\<lambda>e. oe_sequence e \<le> h_previous_sequence h) es)"

lemma replay_history_shape:
  "replay_history sha256 oid es = Inr h \<Longrightarrow> history_shape sha256 oid es h"
proof (induction es arbitrary: h rule: rev_induct)
  case Nil
  then show ?case by (auto simp: history_shape_def empty_history_def)
next
  case (snoc e es)
  then obtain g where g: "replay_history sha256 oid es = Inr g" "history_step sha256 oid g e = Inr h"
    by (auto simp: res_simps)
  from snoc.IH [OF g(1)] g(2) show ?case
    by (auto simp: history_shape_def history_step_Inr_iff sorted_wrt_append list_all_iff
        intro: order.strict_implies_order order_le_less_trans)
qed

definition order_valid :: "(string \<Rightarrow> string) \<Rightarrow> order_state \<Rightarrow> bool" where
  "order_valid sha256 s =
     (os_schema_version s = ''2.0'' \<and>
      (\<exists>h. replay_history sha256 (os_order_id s) (os_applied_events s) = Inr h
         \<and> h_previous_sequence h = os_last_sequence s
         \<and> h_current h = (os_status s, os_cancel_pending s)))"

lemma validate_history_Inr_iff:
  "validate_history sha256 s = Inr s' \<longleftrightarrow>
     s' = s \<and> (\<exists>h. replay_history sha256 (os_order_id s) (os_applied_events s) = Inr h
         \<and> h_previous_sequence h = os_last_sequence s
         \<and> h_current h = (os_status s, os_cancel_pending s))"
proof (cases "os_applied_events s = []")
  case True
  then show ?thesis by (auto simp: validate_history_def empty_history_def)
next
  case False
  have "s\<lparr>os_applied_events := h_canonical_events h\<rparr> = s"
    if "replay_history sha256 (os_order_id s) (os_applied_events s) = Inr h" for h
    using replay_history_shape [OF that] by (simp add: history_shape_def)
  with False show ?thesis
    unfolding validate_history_def replay_history_def [symmetric] by (auto simp: res_simps)
qed

lemma mapE_canonical_events:
  "mapE (canonical_event sha256) es = Inr es' \<longleftrightarrow> es' = es \<and> list_all (valid_event sha256) es"
  by (induction es arbitrary: es') (auto simp: res_simps)

lemma canonical_state_Inr_iff [res_simps]:
  "canonical_state sha256 s = Inr s' \<longleftrightarrow> s' = s \<and> order_valid sha256 s"
proof -
  have "0 \<le> os_last_sequence s \<and> list_all (valid_event sha256) (os_applied_events s)"
    if valid: "order_valid sha256 s"
  proof -
    from valid obtain h where h: "replay_history sha256 (os_order_id s) (os_applied_events s) = Inr h"
      "h_previous_sequence h = os_last_sequence s" by (auto simp: order_valid_def)
    note shape = replay_history_shape [OF h(1), unfolded history_shape_def h(2)]
    show ?thesis
    proof (cases "os_applied_events s = []")
      case False
      then have "valid_event sha256 (last (os_applied_events s))" using shape by (simp add: list_all_iff)
      with False shape show ?thesis using valid_event_sequence by fastforce
    qed (use shape in simp)
  qed
  then show ?thesis
    by (auto simp: canonical_state_def res_simps mapE_canonical_events validate_history_Inr_iff
        order_valid_def)
qed

lemma order_valid_initial [simp]: "order_valid sha256 (initial_order_state oid)"
  by (simp add: order_valid_def initial_order_state_def empty_history_def)

lemma order_valid_shape:
  assumes "order_valid sha256 s"
  shows "list_all (valid_event sha256) (os_applied_events s)"
    and "list_all (\<lambda>e. oe_order_id e = os_order_id s) (os_applied_events s)"
    and "distinct (map oe_event_id (os_applied_events s))"
    and "sorted_wrt (<) (map oe_sequence (os_applied_events s))"
    and "list_all (\<lambda>e. oe_sequence e \<le> os_last_sequence s) (os_applied_events s)"
    and "os_last_sequence s = (if os_applied_events s = [] then 0 else oe_sequence (last (os_applied_events s)))"
  using assms replay_history_shape
  by (fastforce simp: order_valid_def history_shape_def)+

subsection \<open>The reducer on valid states\<close>

definition advance :: "order_state \<Rightarrow> order_event \<Rightarrow> order_state_key \<Rightarrow> order_state" where
  "advance s e k = s\<lparr>os_status := fst k, os_cancel_pending := snd k, os_last_sequence := oe_sequence e,
                     os_applied_events := os_applied_events s @ [e]\<rparr>"

definition order_seen :: "(string \<Rightarrow> string) \<Rightarrow> order_state \<Rightarrow> order_event \<Rightarrow> bool" where
  "order_seen sha256 s e =
     (valid_event sha256 e \<and> oe_order_id e = os_order_id s
      \<and> list_ex (\<lambda>d. oe_event_id d = oe_event_id e \<and> oe_event_fingerprint d = oe_event_fingerprint e)
          (os_applied_events s))"

lemma advance_valid:
  assumes "order_valid sha256 s" "valid_event sha256 e" "oe_order_id e = os_order_id s"
    "oe_event_id e \<notin> oe_event_id ` set (os_applied_events s)" "os_last_sequence s < oe_sequence e"
    "next_state_key (os_status s, os_cancel_pending s) e = Inr k"
  shows "order_valid sha256 (advance s e k)"
proof -
  from assms(1) obtain h where h: "replay_history sha256 (os_order_id s) (os_applied_events s) = Inr h"
    "h_previous_sequence h = os_last_sequence s" "h_current h = (os_status s, os_cancel_pending s)"
    by (auto simp: order_valid_def)
  have "h_event_ids h = map oe_event_id (os_applied_events s)"
    using replay_history_shape [OF h(1)] by (simp add: history_shape_def)
  with h assms show ?thesis
    by (cases k) (auto simp: order_valid_def advance_def res_simps)
qed

lemma find_distinct_iff:
  assumes "distinct (map f xs)"
  shows "find (\<lambda>x. f x = k) xs = Some y \<longleftrightarrow> y \<in> set xs \<and> f y = k"
  using assms by (induction xs) force+

lemma reduce_order_Inr_iff:
  assumes "order_valid sha256 s"
  shows "reduce_order sha256 s e = Inr s' \<longleftrightarrow>
    order_seen sha256 s e \<and> s' = s
    \<or> valid_event sha256 e \<and> oe_order_id e = os_order_id s
      \<and> oe_event_id e \<notin> oe_event_id ` set (os_applied_events s)
      \<and> os_last_sequence s < oe_sequence e
      \<and> (\<exists>k. next_state_key (os_status s, os_cancel_pending s) e = Inr k \<and> s' = advance s e k)"
proof (cases "valid_event sha256 e \<and> oe_order_id e = os_order_id s")
  case False
  then show ?thesis by (auto simp: reduce_order_def res_simps order_seen_def)
next
  case True
  note dist = order_valid_shape(3) [OF assms]
  have s: "canonical_state sha256 s = Inr s" and e: "canonical_event sha256 e = Inr e"
    using assms True by (simp_all add: res_simps)
  show ?thesis
  proof (cases "find (\<lambda>a. oe_event_id a = oe_event_id e) (os_applied_events s)")
    case (Some d)
    with find_distinct_iff [OF dist] have d: "d \<in> set (os_applied_events s)" "oe_event_id d = oe_event_id e"
      by blast+
    have "order_seen sha256 s e \<longleftrightarrow> oe_event_fingerprint d = oe_event_fingerprint e"
      using True d dist by (auto simp: order_seen_def list_ex_iff distinct_map inj_on_def)
    moreover have "oe_event_id e \<in> oe_event_id ` set (os_applied_events s)" using d by (metis imageI)
    ultimately show ?thesis using True Some s e by (auto simp: reduce_order_def res_simps)
  next
    case None
    then have fresh: "oe_event_id e \<notin> oe_event_id ` set (os_applied_events s)"
      by (auto simp: find_None_iff)
    then have "\<not> order_seen sha256 s e" by (force simp: order_seen_def list_ex_iff image_iff)
    moreover have "\<lparr>os_order_id = os_order_id s, os_status = a, os_cancel_pending = b,
        os_last_sequence = oe_sequence e, os_applied_events = os_applied_events s @ [e],
        os_schema_version = os_schema_version s\<rparr> = advance s e (a, b)" for a b
      by (simp add: advance_def)
    ultimately show ?thesis
      using None True fresh advance_valid [OF assms, of e] s e
      by (auto simp: reduce_order_def res_simps split: prod.splits)
  qed
qed

lemma reduce_order_invalid: "\<not> order_valid sha256 s \<Longrightarrow> \<exists>err. reduce_order sha256 s e = Inl err"
  by (cases "canonical_state sha256 s") (auto simp: reduce_order_def catch_validation_error_def res_simps)

lemma advance_simps [simp]:
  "os_order_id (advance s e k) = os_order_id s"
  "os_status (advance s e k) = fst k"
  "os_cancel_pending (advance s e k) = snd k"
  "os_last_sequence (advance s e k) = oe_sequence e"
  "os_applied_events (advance s e k) = os_applied_events s @ [e]"
  by (simp_all add: advance_def)

lemma reduce_order_cases:
  assumes "order_valid sha256 s" "reduce_order sha256 s e = Inr s'"
  obtains (duplicate) "order_seen sha256 s e" "s' = s"
    | (advance) k where "valid_event sha256 e" "oe_order_id e = os_order_id s"
        "oe_event_id e \<notin> oe_event_id ` set (os_applied_events s)" "os_last_sequence s < oe_sequence e"
        "next_state_key (os_status s, os_cancel_pending s) e = Inr k" "s' = advance s e k"
  using assms by (auto simp: reduce_order_Inr_iff)

definition order_terminal :: "order_state \<Rightarrow> bool" where
  "order_terminal s = (os_status s \<in> set TERMINAL_ORDER_STATUSES)"

interpretation order_lifecycle: terminal_reducer
  "reduce_order sha256" "order_valid sha256" "order_seen sha256" order_terminal
proof
  fix s e t d
  assume v: "order_valid sha256 s"
  show "order_seen sha256 s e \<Longrightarrow> reduce_order sha256 s e = Inr s"
    using v by (simp add: reduce_order_Inr_iff)
  assume r: "reduce_order sha256 s e = Inr t"
  from v r show "order_valid sha256 t" by (cases rule: reduce_order_cases) (use v in \<open>auto intro: advance_valid\<close>)
  from v r show "order_seen sha256 t e"
    by (cases rule: reduce_order_cases) (auto simp: order_seen_def)
  from v r show "order_seen sha256 s d \<Longrightarrow> order_seen sha256 t d"
    by (cases rule: reduce_order_cases) (auto simp: order_seen_def)
  from v r show "order_terminal s \<Longrightarrow> t = s"
    by (cases rule: reduce_order_cases) (auto simp: order_terminal_def next_state_key_def)
qed

subsection \<open>Reachable states\<close>

text \<open>Validation by history replay accepts exactly the states the reducer can produce.\<close>

lemma replay_applied_events:
  assumes "order_valid sha256 s"
  shows "foldE (reduce_order sha256) (initial_order_state (os_order_id s)) (os_applied_events s) = Inr s"
  using assms
proof (induction "os_applied_events s" arbitrary: s rule: rev_induct)
  case Nil
  then show ?case
    by (auto simp: order_valid_def empty_history_def initial_order_state_def)
next
  case (snoc e es)
  obtain h g where h: "replay_history sha256 (os_order_id s) es = Inr g"
    "history_step sha256 (os_order_id s) g e = Inr h" "h_previous_sequence h = os_last_sequence s"
    "h_current h = (os_status s, os_cancel_pending s)" "os_schema_version s = ''2.0''"
    using snoc.prems unfolding order_valid_def snoc.hyps(2) [symmetric] by (auto simp: res_simps)
  define r where "r = s\<lparr>os_applied_events := es, os_last_sequence := h_previous_sequence g,
    os_status := fst (h_current g), os_cancel_pending := snd (h_current g)\<rparr>"
  have r: "order_valid sha256 r" using h by (simp add: order_valid_def r_def)
  have "es = os_applied_events r" by (simp add: r_def)
  from snoc.hyps(1) [OF this r] have IH:
    "foldE (reduce_order sha256) (initial_order_state (os_order_id s)) es = Inr r"
    by (simp add: r_def)
  have s: "s = advance r e (h_current h)"
    using h snoc.hyps(2) by (auto simp: advance_def r_def history_step_Inr_iff)
  have "h_event_ids g = map oe_event_id es"
    using replay_history_shape [OF h(1)] by (simp add: history_shape_def)
  then have "reduce_order sha256 r e = Inr (advance r e (h_current h))"
    unfolding reduce_order_Inr_iff [OF r] using h(2) by (auto simp: r_def history_step_Inr_iff)
  with IH s show ?case unfolding snoc.hyps(2) [symmetric] foldE_append by simp
qed

lemma order_valid_iff_reachable:
  "order_valid sha256 s \<longleftrightarrow>
     (\<exists>es. foldE (reduce_order sha256) (initial_order_state (os_order_id s)) es = Inr s)"
  using replay_applied_events order_lifecycle.fold_valid order_valid_initial by blast

lemma reachable_induct [consumes 1, case_names initial step]:
  assumes "order_valid sha256 s"
    and "\<And>oid. P (initial_order_state oid)"
    and "\<And>s e k. order_valid sha256 s \<Longrightarrow> P s \<Longrightarrow> next_state_key (os_status s, os_cancel_pending s) e = Inr k
           \<Longrightarrow> P (advance s e k)"
  shows "P s"
proof -
  have "order_valid sha256 s \<and> P s"
  proof (rule foldE_invariant [OF _ _ replay_applied_events [OF assms(1)]])
    show "order_valid sha256 (initial_order_state (os_order_id s)) \<and> P (initial_order_state (os_order_id s))"
      using assms(2) by simp
  next
    fix t e t'
    assume t: "order_valid sha256 t \<and> P t" and r: "reduce_order sha256 t e = Inr t'"
    from t r have "order_valid sha256 t'" using order_lifecycle.step_valid by blast
    moreover have "P t'"
      by (cases rule: reduce_order_cases [OF conjunct1 [OF t] r]) (use t assms(3) in auto)
    ultimately show "order_valid sha256 t' \<and> P t'" ..
  qed
  then show ?thesis ..
qed

subsection \<open>Cancellation lineage\<close>

definition lineage_key :: "order_state_key \<Rightarrow> bool" where
  "lineage_key k = (case k of (st, pending) \<Rightarrow>
     (pending \<longrightarrow> st \<in> {PENDING_CANCEL, TRIGGERED, PARTIALLY_FILLED}) \<and> (st = PENDING_CANCEL \<longrightarrow> pending))"

definition all_edges :: "(order_state_key \<times> order_observation_key \<times> order_state_key) list" where
  "all_edges = concat (map (\<lambda>(k, row). map (\<lambda>(obs, k'). (k, obs, k')) row) ORDER_STATUS_TRANSITIONS)"

lemma next_state_key_edge:
  assumes "next_state_key k e = Inr k'"
  shows "(k, (oe_target_status e, oe_cancel_resolution e), k') \<in> set all_edges"
    and "fst k \<notin> set TERMINAL_ORDER_STATUSES"
proof -
  let ?obs = "(oe_target_status e, oe_cancel_resolution e)"
  from assms obtain row where "map_of ORDER_STATUS_TRANSITIONS k = Some row" "map_of row ?obs = Some k'"
    and nt: "fst k \<notin> set TERMINAL_ORDER_STATUSES"
    by (auto simp: next_state_key_def Let_def bind_eq_Some_conv split: if_splits option.splits)
  then have "(k, row) \<in> set ORDER_STATUS_TRANSITIONS" "(?obs, k') \<in> set row"
    by (auto dest: map_of_SomeD)
  then show "(k, ?obs, k') \<in> set all_edges"
    unfolding all_edges_def set_concat set_map by (cases k) (force intro!: bexI [of _ "(k, row)"])
  show "fst k \<notin> set TERMINAL_ORDER_STATUSES" by (fact nt)
qed

lemma edges_lineage: "list_all (\<lambda>(k, obs, k'). fst k' = fst obs \<and> lineage_key k \<and> lineage_key k') all_edges"
  by (simp add: all_edges_def ORDER_STATUS_TRANSITIONS_def lineage_key_def)

lemma order_valid_lineage:
  assumes "order_valid sha256 s" shows "lineage_key (os_status s, os_cancel_pending s)"
  using assms
proof (induction rule: reachable_induct)
  case (initial oid)
  then show ?case by (simp add: initial_order_state_def lineage_key_def)
next
  case (step s e k)
  from next_state_key_edge(1) [OF step(2)] edges_lineage show ?case
    by (fastforce simp: list_all_iff)
qed

subsection \<open>The fingerprinted text identifies the observation\<close>

lemma length_hex_digits [simp]: "length (hex_digits n c) = n"
  by (induction n arbitrary: c) auto

lemma hex_digits_lt: "d \<in> set (hex_digits n c) \<Longrightarrow> d < 16"
  by (induction n arbitrary: c) auto

lemma hex_digits_inj: "hex_digits n c = hex_digits n d \<Longrightarrow> c mod 16 ^ n = d mod 16 ^ n"
proof (induction n arbitrary: c d)
  case (Suc n)
  from Suc.prems have "hex_digits n (c div 16) = hex_digits n (d div 16)" "c mod 16 = d mod 16"
    by simp_all
  moreover have "x mod 16 ^ Suc n = 16 * (x div 16 mod 16 ^ n) + x mod 16" for x :: nat
    unfolding power_Suc by (rule mod_mult2_eq)
  ultimately show ?case using Suc.IH [of "c div 16" "d div 16"] by simp
qed simp

lemma of_char_hex_char: "n < 16 \<Longrightarrow> of_char (hex_char n) = (if n < 10 then 48 + n else 87 + n)"
  by (simp add: hex_char_def of_char_digit_char)

lemma hex_char_inj: "m < 16 \<Longrightarrow> n < 16 \<Longrightarrow> hex_char m = hex_char n \<Longrightarrow> m = n"
proof -
  assume *: "m < 16" "n < 16" "hex_char m = hex_char n"
  then have "(if m < 10 then 48 + m else 87 + m) = (if n < 10 then 48 + n else 87 + n)"
    using of_char_hex_char [of m] of_char_hex_char [of n] by metis
  with * show ?thesis by (simp split: if_splits)
qed

lemma hex_char_not_dash: "n < 16 \<Longrightarrow> hex_char n \<noteq> CHR ''-''"
proof
  assume "n < 16" "hex_char n = CHR ''-''"
  then have "(if n < 10 then 48 + n else 87 + n) = of_char (CHR ''-'')"
    using of_char_hex_char [of n] by metis
  then show False by (simp split: if_splits)
qed

lemma uuid_text_filter:
  "filter (\<lambda>c. c \<noteq> CHR ''-'') (uuid_text u) = map hex_char (hex_digits 32 (unat u))"
proof -
  let ?h = "map hex_char (hex_digits 32 (unat u))"
  have keep: "filter (\<lambda>c. c \<noteq> CHR ''-'') xs = xs" if "set xs \<subseteq> set ?h" for xs
  proof (rule filter_True, intro ballI)
    fix c assume "c \<in> set xs"
    with that have "c \<in> hex_char ` set (hex_digits 32 (unat u))" by (simp only: set_map) blast
    then obtain d where "c = hex_char d" "d \<in> set (hex_digits 32 (unat u))" by (rule imageE)
    then show "c \<noteq> CHR ''-''" by (metis hex_char_not_dash hex_digits_lt)
  qed
  have "set (take n (drop m ?h)) \<subseteq> set ?h" "set (take n ?h) \<subseteq> set ?h" "set (drop n ?h) \<subseteq> set ?h" for n m
    by (meson set_take_subset set_drop_subset subset_trans)+
  then have "filter (\<lambda>c. c \<noteq> CHR ''-'') (uuid_text u)
      = take 8 ?h @ take 4 (drop 8 ?h) @ take 4 (drop 12 ?h) @ take 4 (drop 16 ?h) @ drop 20 ?h"
    unfolding uuid_text_def Let_def by (simp add: keep del: take_map drop_map)
  also have "\<dots> = ?h"
    using append_take_drop_id [of 8 ?h] append_take_drop_id [of 4 "drop 8 ?h"]
      append_take_drop_id [of 4 "drop 12 ?h"] append_take_drop_id [of 4 "drop 16 ?h"]
    by (simp only: drop_drop numeral_plus_numeral semiring_norm add.commute)
  finally show ?thesis .
qed

lemma uuid_text_inj: "uuid_text u = uuid_text v \<longleftrightarrow> u = v"
proof
  assume "uuid_text u = uuid_text v"
  then have "map hex_char (hex_digits 32 (unat u)) = map hex_char (hex_digits 32 (unat v))"
    by (metis uuid_text_filter)
  then have "hex_digits 32 (unat u) = hex_digits 32 (unat v)"
    by (rule map_inj_on) (auto intro!: inj_onI hex_char_inj dest: hex_digits_lt)
  then have "unat u mod 16 ^ 32 = unat v mod 16 ^ 32" by (rule hex_digits_inj)
  moreover have "unat w < 16 ^ 32" for w :: uuid
    using unsigned_less [of w] by simp
  ultimately show "u = v" by (simp add: word_unat_eq_iff)
qed simp

lemma length_uuid_text [simp]: "length (uuid_text u) = 36"
  by (simp add: uuid_text_def Let_def)

definition valid_datetime :: "datetime \<Rightarrow> bool" where
  "valid_datetime d =
     (dt_year d < 10000 \<and> dt_month d < 100 \<and> dt_day d < 100 \<and> dt_hour d < 100
      \<and> dt_minute d < 100 \<and> dt_second d < 100 \<and> dt_micro d < 1000000)"

lemma length_padded [simp]: "length (padded w n) = w"
  by (simp add: padded_def)

lemma padded_inj:
  assumes "padded w a = padded w b" "a < 10 ^ w" "b < 10 ^ w" shows "a = b"
proof -
  have "frac_digits w a = frac_digits w b"
    using assms(1) unfolding padded_def
    by (rule map_digit_char_inj) (auto dest: frac_digits_lt_10)
  with assms(2,3) show ?thesis by (metis coefficient_frac_digits mod_less)
qed

lemma length_utc_text [simp]: "length (utc_text d) = 27"
  by (simp add: utc_text_def)

lemma utc_text_inj:
  assumes "utc_text a = utc_text b" "valid_datetime a" "valid_datetime b"
    "dt_utcoffset a = dt_utcoffset b"
  shows "a = b"
proof -
  from assms(1) have
    "padded 4 (dt_year a) = padded 4 (dt_year b)" "padded 2 (dt_month a) = padded 2 (dt_month b)"
    "padded 2 (dt_day a) = padded 2 (dt_day b)" "padded 2 (dt_hour a) = padded 2 (dt_hour b)"
    "padded 2 (dt_minute a) = padded 2 (dt_minute b)" "padded 2 (dt_second a) = padded 2 (dt_second b)"
    "padded 6 (dt_micro a) = padded 6 (dt_micro b)"
    by (simp_all add: utc_text_def)
  then have "dt_year a = dt_year b" "dt_month a = dt_month b" "dt_day a = dt_day b"
    "dt_hour a = dt_hour b" "dt_minute a = dt_minute b" "dt_second a = dt_second b" "dt_micro a = dt_micro b"
    using assms(2,3) padded_inj by (auto simp: valid_datetime_def)
  with assms(4) show ?thesis by (simp add: datetime.equality)
qed

lemma order_status_value_inj: "order_status_value a = order_status_value b \<longleftrightarrow> a = b"
  by (cases a; cases b; simp)

lemma canonical_reason_no_quote: "canonical_reason r \<Longrightarrow> CHR 0x22 \<notin> set r"
  by (auto simp: canonical_reason_def matches_head_tail_def list_all_iff is_upper_char_def
      is_digit_char_def split: list.splits)

lemma digits_no_comma: "CHR '','' \<notin> set (map digit_char (as_digits n))"
proof
  assume "CHR '','' \<in> set (map digit_char (as_digits n))"
  then obtain d where "CHR '','' = digit_char d" "d < 10" using as_digits_lt_10 by auto
  then have "is_digit_char (CHR '','')" using is_digit_digit_char by metis
  then show False by (simp add: is_digit_char_def)
qed

lemma json_optional_split:
  assumes "json_optional v @ x = json_optional w @ y"
    and "optional_ok (\<lambda>r. CHR 0x22 \<notin> set r) v" "optional_ok (\<lambda>r. CHR 0x22 \<notin> set r) w"
  shows "v = w \<and> x = y"
proof (cases v)
  case None
  with assms show ?thesis by (cases w) (auto simp: json_optional_def quoted_def)
next
  case (Some s)
  with assms obtain r where w: "w = Some r"
    by (cases w) (auto simp: json_optional_def quoted_def)
  have "s @ CHR 0x22 # x = r @ CHR 0x22 # y"
    using assms(1) Some w by (simp add: json_optional_def quoted_def)
  from split_at_unique [OF this] assms(2,3) Some w show ?thesis by (simp add: optional_ok_def)
qed

lemma quoted_split:
  assumes "quoted a @ x = quoted b @ y" "length a = length b"
  shows "a = b \<and> x = y"
  using assms by (simp add: quoted_def)

lemma material_ordering_inj:
  assumes "material_ordering a = material_ordering b" "oe_schema_version a = oe_schema_version b"
    and "0 < oe_sequence a" "0 < oe_sequence b"
  shows "oe_sequence a = oe_sequence b \<and> oe_target_status a = oe_target_status b"
proof -
  let ?d = "\<lambda>e. map digit_char (as_digits (nat (oe_sequence e)))"
  let ?r = "\<lambda>e. quoted ''target_status'' @ '':'' @ quoted (order_status_value (oe_target_status e)) @ ''}''"
  have "?d a @ CHR '','' # ?r a = ?d b @ CHR '','' # ?r b"
    using assms(1,2) by (simp add: material_ordering_def)
  from split_at_unique [OF this digits_no_comma digits_no_comma]
  have d: "?d a = ?d b" and r: "?r a = ?r b" by auto
  from d have "as_digits (nat (oe_sequence a)) = as_digits (nat (oe_sequence b))"
    by (rule map_digit_char_inj) (auto dest: as_digits_lt_10)
  then have "nat (oe_sequence a) = nat (oe_sequence b)" by (metis coefficient_of_as_digits)
  moreover have "order_status_value (oe_target_status a) = order_status_value (oe_target_status b)"
    using r by (simp add: quoted_def)
  ultimately show ?thesis using assms(3,4) by (simp add: order_status_value_inj)
qed

lemma material_identity_inj:
  assumes "material_identity a = material_identity b"
  shows "oe_event_id a = oe_event_id b \<and> utc_text (oe_occurred_at a) = utc_text (oe_occurred_at b)
    \<and> oe_order_id a = oe_order_id b \<and> material_reason a = material_reason b"
proof -
  let ?w = "\<lambda>e. quoted (uuid_text (oe_order_id e)) @ material_reason e"
  let ?v = "\<lambda>e. quoted (utc_text (oe_occurred_at e)) @ '','' @ quoted ''order_id'' @ '':'' @ ?w e"
  have "quoted (uuid_text (oe_event_id a)) @ '','' @ quoted ''occurred_at'' @ '':'' @ ?v a
      = quoted (uuid_text (oe_event_id b)) @ '','' @ quoted ''occurred_at'' @ '':'' @ ?v b"
    using assms by (simp add: material_identity_def)
  from quoted_split [OF this] have "oe_event_id a = oe_event_id b" and v: "?v a = ?v b"
    by (simp_all add: uuid_text_inj)
  moreover from quoted_split [OF v] have "utc_text (oe_occurred_at a) = utc_text (oe_occurred_at b)"
    and w: "?w a = ?w b" by simp_all
  moreover from quoted_split [OF w] have "oe_order_id a = oe_order_id b" "material_reason a = material_reason b"
    by (simp_all add: uuid_text_inj)
  ultimately show ?thesis by simp
qed

lemma valid_event_fields:
  assumes "valid_event sha256 e"
  shows "oe_schema_version e = ''2.0''" "dt_utcoffset (oe_occurred_at e) = Some 0"
    "optional_ok canonical_reason (oe_reason e)"
  using assms by (auto simp: valid_event_def canonical_event_def event_material_fields_def res_simps)

lemma event_material_inj:
  assumes "event_material a = event_material b"
    and a: "valid_event sha256 a" "valid_datetime (oe_occurred_at a)"
    and b: "valid_event sha256 b" "valid_datetime (oe_occurred_at b)"
  shows "a = b"
proof -
  have cr_ok: "optional_ok (\<lambda>r. CHR 0x22 \<notin> set r) (map_option cancel_resolution_value c)" for c
  proof (cases c)
    case (Some x)
    then show ?thesis by (cases x) (simp add: optional_ok_def)
  qed (simp add: optional_ok_def)
  have r_ok: "optional_ok (\<lambda>r. CHR 0x22 \<notin> set r) (oe_reason e)" if "valid_event sha256 e" for e
    using valid_event_fields(3) [OF that] canonical_reason_no_quote
    by (auto simp: optional_ok_def split: option.splits)
  have "map_option cancel_resolution_value (oe_cancel_resolution a)
      = map_option cancel_resolution_value (oe_cancel_resolution b) \<and> material_identity a = material_identity b"
    by (rule json_optional_split [OF _ cr_ok cr_ok]) (use assms(1) in \<open>simp add: event_material_def\<close>)
  moreover from this material_identity_inj have ids: "oe_event_id a = oe_event_id b"
    "utc_text (oe_occurred_at a) = utc_text (oe_occurred_at b)" "oe_order_id a = oe_order_id b"
    and mr: "material_reason a = material_reason b" by blast+
  moreover from mr have "oe_reason a = oe_reason b \<and> material_ordering a = material_ordering b"
    by (intro json_optional_split r_ok a b) (simp add: material_reason_def)
  moreover from this have "oe_sequence a = oe_sequence b \<and> oe_target_status a = oe_target_status b"
    using a(1) b(1) by (intro material_ordering_inj) (auto simp: valid_event_fields valid_event_sequence)
  moreover have "oe_occurred_at a = oe_occurred_at b"
    using ids(2) a b by (intro utc_text_inj) (auto simp: valid_event_fields)
  moreover have "oe_event_fingerprint a = oe_event_fingerprint b"
    using a(1) b(1) assms(1) by (simp add: valid_event_fingerprint event_fingerprint_def)
  moreover have "x = y" for x y :: order_cancel_resolution by (cases x; cases y) simp
  ultimately show ?thesis using a(1) b(1)
    by (intro order_event.equality) (auto simp: valid_event_fields option.map_sel
        intro: option.expand)
qed

subsection \<open>Every failure is an order reduction error\<close>

lemma wrap_validation_Inl: "wrap_validation m = Inl e \<Longrightarrow> (\<And>x. m = Inl x \<Longrightarrow> is_value_error x) \<Longrightarrow> \<exists>t. e = ValidationError t"
  by (cases m) (auto simp: wrap_validation_def)

lemma require_field_Inl: "require_field n b = Inl x \<Longrightarrow> is_value_error x"
  by (auto simp: require_field_def split: if_splits)

lemma require_utc_Inl: "require_utc d = Inl x \<Longrightarrow> is_value_error x"
  by (auto simp: require_utc_def split: if_splits)

lemma canonical_event_Inl: "canonical_event sha256 e = Inl x \<Longrightarrow> \<exists>t. x = ValidationError t"
  unfolding canonical_event_def
  by (erule wrap_validation_Inl)
    (auto simp: bindE_Inl_iff event_material_fields_def validate_reason_def require_field_Inl require_utc_Inl
      split: if_splits dest: require_field_Inl require_utc_Inl)

lemma next_state_key_Inl: "next_state_key k e = Inl x \<Longrightarrow> \<exists>t. x = OrderReductionError t"
  by (auto simp: next_state_key_def Let_def split: if_splits option.splits)

lemma history_step_Inl: "history_step sha256 oid h e = Inl x \<Longrightarrow> is_value_error x"
  by (auto simp: history_step_def bindE_Inl_iff catch_validation_error_def
      split: if_splits sum.splits error.splits dest!: canonical_event_Inl next_state_key_Inl)

lemma validate_history_Inl: "validate_history sha256 s = Inl x \<Longrightarrow> is_value_error x"
  by (auto simp: validate_history_def bindE_Inl_iff split: if_splits
      dest!: foldE_Inl [where P = is_value_error, OF _ history_step_Inl])

lemma canonical_state_Inl: "canonical_state sha256 s = Inl x \<Longrightarrow> \<exists>t. x = ValidationError t"
  unfolding canonical_state_def
proof (erule wrap_validation_Inl)
  have ev: "mapE (canonical_event sha256) es = Inl y \<Longrightarrow> is_value_error y" for es y
    by (erule mapE_Inl) (auto dest: canonical_event_Inl)
  show "is_value_error y"
    if "bindE (require_field ''last_sequence'' (0 \<le> os_last_sequence s)) (\<lambda>_.
       bindE (mapE (canonical_event sha256) (os_applied_events s)) (\<lambda>events.
       bindE (require_field ''schema_version'' (os_schema_version s = ''2.0'')) (\<lambda>_.
       validate_history sha256 (s\<lparr>os_applied_events := events\<rparr>)))) = Inl y" for y
    using that by (auto simp: bindE_Inl_iff dest: require_field_Inl ev validate_history_Inl)
qed

lemma reduce_order_Inl:
  assumes "reduce_order sha256 s e = Inl x"
  shows "\<exists>t. x = OrderReductionError t"
proof (cases "order_valid sha256 s \<and> valid_event sha256 e \<and> oe_order_id e = os_order_id s
    \<and> oe_event_id e \<notin> oe_event_id ` set (os_applied_events s) \<and> os_last_sequence s < oe_sequence e")
  case True
  then have "canonical_state sha256 s = Inr s" "canonical_event sha256 e = Inr e" by (simp_all add: res_simps)
  moreover have "find (\<lambda>a. oe_event_id a = oe_event_id e) (os_applied_events s) = None"
    using True by (force simp: find_None_iff image_iff)
  moreover have "next_state_key (os_status s, os_cancel_pending s) e \<noteq> Inr k" for k
    using assms True by (auto simp: reduce_order_Inr_iff [of sha256 s e "advance s e k", symmetric]
        dest: reduce_order_Inr_iff [THEN iffD2, of sha256 s e "advance s e k"])
  ultimately show ?thesis
    using assms True
    by (cases "next_state_key (os_status s, os_cancel_pending s) e")
      (auto simp: reduce_order_def dest: next_state_key_Inl)
next
  case False
  then show ?thesis
    using assms
    by (auto simp: reduce_order_def bindE_Inl_iff catch_validation_error_def res_simps image_iff find_None_iff
        split: if_splits sum.splits error.splits option.splits dest!: canonical_state_Inl canonical_event_Inl
        next_state_key_Inl)
qed

subsection \<open>Order intents\<close>

lemma mk_order_intent_Inr_iff:
  "mk_order_intent i = Inr j \<longleftrightarrow>
     j = i
     \<and> list_all canonical_identifier
         [oi_client_order_id i, oi_strategy_id i, oi_trader_id i, oi_account_id i, oi_execution_client_id i]
     \<and> optional_ok canonical_identifier (oi_venue_order_id i)
     \<and> optional_ok canonical_identifier (oi_order_list_id i)
     \<and> 0 < fraction (oq_value (oi_quantity i))
     \<and> dt_utcoffset (oi_requested_at i) = Some 0 \<and> oi_schema_version i \<noteq> []
     \<and> (oi_limit_price i \<noteq> None \<longleftrightarrow> oi_order_type i \<in> {LIMIT, STOP_LIMIT, LIMIT_IF_TOUCHED})
     \<and> (oi_trigger_price i \<noteq> None \<longleftrightarrow>
          oi_order_type i \<in> {STOP_MARKET, STOP_LIMIT, MARKET_IF_TOUCHED, LIMIT_IF_TOUCHED})
     \<and> (oi_trailing_offset i \<noteq> None \<longleftrightarrow> oi_order_type i = TRAILING_STOP)
     \<and> (case oi_gtd_expiry i of
           None \<Rightarrow> oi_time_in_force i \<noteq> GTD
         | Some x \<Rightarrow> oi_time_in_force i = GTD \<and> dt_utcoffset x = Some 0 \<and> dt_lt (oi_requested_at i) x)
     \<and> (oi_post_only i \<longrightarrow> oi_order_type i \<in> {LIMIT, STOP_LIMIT, LIMIT_IF_TOUCHED}
          \<and> oi_time_in_force i \<in> {GTC, DAY, GTD})"
proof -
  have instr: "validate_instruction i = Inr j \<longleftrightarrow> j = i
     \<and> (oi_limit_price i \<noteq> None \<longleftrightarrow> oi_order_type i \<in> {LIMIT, STOP_LIMIT, LIMIT_IF_TOUCHED})
     \<and> (oi_trigger_price i \<noteq> None \<longleftrightarrow>
          oi_order_type i \<in> {STOP_MARKET, STOP_LIMIT, MARKET_IF_TOUCHED, LIMIT_IF_TOUCHED})
     \<and> (oi_trailing_offset i \<noteq> None \<longleftrightarrow> oi_order_type i = TRAILING_STOP)
     \<and> (case oi_gtd_expiry i of None \<Rightarrow> oi_time_in_force i \<noteq> GTD
         | Some x \<Rightarrow> oi_time_in_force i = GTD \<and> dt_lt (oi_requested_at i) x)
     \<and> (oi_post_only i \<longrightarrow> oi_order_type i \<in> {LIMIT, STOP_LIMIT, LIMIT_IF_TOUCHED}
          \<and> oi_time_in_force i \<in> {GTC, DAY, GTD})"
    unfolding validate_instruction_def Let_def LIMIT_PRICE_TYPES_def TRIGGER_PRICE_TYPES_def
      POST_ONLY_TIME_IN_FORCE_def
    by (cases "oi_order_type i"; cases "oi_gtd_expiry i")
      (auto simp: res_simps dt_lt_iff_not_le)
  have utc: "is_ok (optional_utc v) \<longleftrightarrow> (case v of None \<Rightarrow> True | Some x \<Rightarrow> dt_utcoffset x = Some 0)" for v
    by (cases v) (auto simp: optional_utc_def is_ok_iff res_simps)
  have qty: "positive_quantity q = Inr r \<longleftrightarrow> r = q \<and> 0 < fraction (oq_value q)" for q r
    by (auto simp: positive_quantity_def res_simps dec_le_def)
  have "mk_order_intent i = Inr j \<longleftrightarrow>
      list_all canonical_identifier
         [oi_client_order_id i, oi_strategy_id i, oi_trader_id i, oi_account_id i, oi_execution_client_id i]
     \<and> optional_ok canonical_identifier (oi_venue_order_id i)
     \<and> optional_ok canonical_identifier (oi_order_list_id i)
     \<and> 0 < fraction (oq_value (oi_quantity i))
     \<and> dt_utcoffset (oi_requested_at i) = Some 0 \<and> oi_schema_version i \<noteq> []
     \<and> is_ok (optional_utc (oi_gtd_expiry i)) \<and> validate_instruction i = Inr j"
    unfolding mk_order_intent_def res_simps qty is_ok_iff by auto
  note unfolded = this [unfolded instr utc]
  show ?thesis
    unfolding unfolded
    by (cases "oi_gtd_expiry i"; simp only: option.case simp_thms; rule iffI; elim conjE;
        intro conjI; assumption)
qed

subsection \<open>Sample observations\<close>

definition demo_sha :: "string \<Rightarrow> string" where
  "demo_sha s = replicate 64 (CHR ''0'')"

definition demo_time :: datetime where
  "demo_time = \<lparr>dt_year = 2024, dt_month = 1, dt_day = 2, dt_hour = 3, dt_minute = 4,
                dt_second = 5, dt_micro = 6, dt_utcoffset = Some 0\<rparr>"

definition demo_event :: "uuid \<Rightarrow> int \<Rightarrow> order_status \<Rightarrow> order_event" where
  "demo_event i n st = \<lparr>oe_event_id = i, oe_order_id = 7, oe_sequence = n, oe_target_status = st,
     oe_occurred_at = demo_time, oe_reason = None, oe_cancel_resolution = None,
     oe_schema_version = ''2.0'', oe_event_fingerprint = replicate 64 (CHR ''0'')\<rparr>"

definition demo_filled_order :: order_state where
  "demo_filled_order = \<lparr>os_order_id = 7, os_status = FILLED, os_cancel_pending = False,
     os_last_sequence = 5, os_applied_events = [demo_event 1 2 SUBMITTED, demo_event 2 5 FILLED],
     os_schema_version = ''2.0''\<rparr>"

lemma demo_event_valid:
  "0 < n \<Longrightarrow> st \<notin> set REASON_REQUIRED_STATUSES \<Longrightarrow> valid_event demo_sha (demo_event i n st)"
  by (simp add: valid_event_def canonical_event_def event_material_fields_def res_simps demo_event_def
      require_field_def require_utc_def optional_ok_def demo_time_def sha256_hex_def list_all_length
      is_digit_char_def validate_reason_def event_fingerprint_def demo_sha_def)

lemma demo_filled_order_valid: "order_valid demo_sha demo_filled_order"
proof -
  let ?s = "advance (initial_order_state 7) (demo_event 1 2 SUBMITTED) (SUBMITTED, False)"
  have s: "order_valid demo_sha ?s"
    by (intro advance_valid order_valid_initial demo_event_valid)
      (simp_all add: initial_order_state_def demo_event_def next_state_key_def ORDER_STATUS_TRANSITIONS_def
        TERMINAL_ORDER_STATUSES_def REASON_REQUIRED_STATUSES_def)
  have "order_valid demo_sha (advance ?s (demo_event 2 5 FILLED) (FILLED, False))"
    by (rule advance_valid [OF s demo_event_valid])
      (simp_all add: initial_order_state_def demo_event_def next_state_key_def ORDER_STATUS_TRANSITIONS_def
        TERMINAL_ORDER_STATUSES_def REASON_REQUIRED_STATUSES_def)
  moreover have "oe_sequence (demo_event 2 5 FILLED) = 5" by (simp add: demo_event_def)
  ultimately show ?thesis by (simp add: demo_filled_order_def advance_def initial_order_state_def)
qed

lemma demo_order_replay:
  "foldE (reduce_order demo_sha) (initial_order_state 7) [demo_event 1 2 SUBMITTED, demo_event 2 5 FILLED]
     = Inr demo_filled_order"
  using replay_applied_events [OF demo_filled_order_valid] by (simp add: demo_filled_order_def)

subsection \<open>Properties\<close>

text \<open>
  C33: validating a state by replaying its history accepts exactly the states the reducer produces
  from the initial state by some sequence of observations.
\<close>

theorem order_state_valid_iff_reachable:
  "canonical_state sha256 s = Inr s \<longleftrightarrow>
     (\<exists>es. foldE (reduce_order sha256) (initial_order_state (os_order_id s)) es = Inr s)"
  using order_valid_iff_reachable by (simp add: res_simps)

text \<open>
  C34: on a valid state the reducer accepts an observation exactly when it repeats a recorded one
  (same event id and fingerprint), which changes nothing, or is new, carries a higher sequence and
  follows an edge of the transition table; the result then records it and is valid again. Every
  other outcome is an order reduction error: rebuilding the state never fails.
\<close>

theorem reduce_order_outcomes:
  assumes "canonical_state sha256 s = Inr s"
  shows "(reduce_order sha256 s e = Inr t \<longleftrightarrow>
      canonical_event sha256 e = Inr e \<and> oe_order_id e = os_order_id s
      \<and> ((\<exists>d \<in> set (os_applied_events s). oe_event_id d = oe_event_id e
             \<and> oe_event_fingerprint d = oe_event_fingerprint e) \<and> t = s
         \<or> (\<forall>d \<in> set (os_applied_events s). oe_event_id d \<noteq> oe_event_id e)
           \<and> os_last_sequence s < oe_sequence e
           \<and> (\<exists>st pending. next_state_key (os_status s, os_cancel_pending s) e = Inr (st, pending)
                \<and> t = s\<lparr>os_status := st, os_cancel_pending := pending, os_last_sequence := oe_sequence e,
                         os_applied_events := os_applied_events s @ [e]\<rparr>)))
    \<and> (reduce_order sha256 s e = Inr t \<longrightarrow> canonical_state sha256 t = Inr t)
    \<and> (reduce_order sha256 s e = Inl err \<longrightarrow> (\<exists>m. err = OrderReductionError m))"
proof (intro conjI impI)
  have v: "order_valid sha256 s" using assms by (simp add: res_simps)
  have fresh: "oe_event_id e \<notin> oe_event_id ` set (os_applied_events s) \<longleftrightarrow>
      (\<forall>d \<in> set (os_applied_events s). oe_event_id d \<noteq> oe_event_id e)" unfolding image_iff by (auto dest: sym)
  show "reduce_order sha256 s e = Inr t \<longleftrightarrow>
      canonical_event sha256 e = Inr e \<and> oe_order_id e = os_order_id s
      \<and> ((\<exists>d \<in> set (os_applied_events s). oe_event_id d = oe_event_id e
             \<and> oe_event_fingerprint d = oe_event_fingerprint e) \<and> t = s
         \<or> (\<forall>d \<in> set (os_applied_events s). oe_event_id d \<noteq> oe_event_id e)
           \<and> os_last_sequence s < oe_sequence e
           \<and> (\<exists>st pending. next_state_key (os_status s, os_cancel_pending s) e = Inr (st, pending)
                \<and> t = s\<lparr>os_status := st, os_cancel_pending := pending, os_last_sequence := oe_sequence e,
                         os_applied_events := os_applied_events s @ [e]\<rparr>))"
    unfolding reduce_order_Inr_iff [OF v] fresh
    by (auto simp: order_seen_def list_ex_iff advance_def valid_event_def)
  show "canonical_state sha256 t = Inr t" if "reduce_order sha256 s e = Inr t"
    using order_lifecycle.step_valid [OF v that] by (simp add: res_simps)
  show "\<exists>m. err = OrderReductionError m" if "reduce_order sha256 s e = Inl err"
    using that by (rule reduce_order_Inl)
qed

theorem reduce_order_outcomes_witness:
  "reduce_order demo_sha demo_filled_order (demo_event 2 5 FILLED) = Inr demo_filled_order"
proof -
  have "canonical_state demo_sha demo_filled_order = Inr demo_filled_order"
    using demo_filled_order_valid by (simp add: res_simps)
  from reduce_order_outcomes [OF this, of "demo_event 2 5 FILLED" demo_filled_order]
  show ?thesis
    using demo_event_valid [of 5 FILLED 2]
    by (simp add: res_simps demo_filled_order_def demo_event_def REASON_REQUIRED_STATUSES_def)
qed

text \<open>
  C38: terminal states are absorbing: whatever observations follow, a state whose status is
  FILLED, CANCELED, EXPIRED, REJECTED or DENIED is returned unchanged or the reduction fails.
\<close>

theorem terminal_order_absorbing:
  assumes "canonical_state sha256 s = Inr s" "os_status s \<in> {FILLED, CANCELED, EXPIRED, REJECTED, DENIED}"
    and "foldE (reduce_order sha256) s es = Inr t"
  shows "t = s"
  using order_lifecycle.terminal_fold [of sha256 s es t] assms
  by (simp add: res_simps order_terminal_def TERMINAL_ORDER_STATUSES_def)

theorem terminal_order_absorbing_witness:
  "foldE (reduce_order demo_sha) demo_filled_order [demo_event 1 2 SUBMITTED, demo_event 2 5 FILLED]
     = Inr demo_filled_order"
proof -
  have v: "order_valid demo_sha demo_filled_order" by (rule demo_filled_order_valid)
  have ok: "foldE (reduce_order demo_sha) demo_filled_order [demo_event 1 2 SUBMITTED, demo_event 2 5 FILLED]
      = Inr demo_filled_order"
    by (rule order_lifecycle.seen_fold_noop [OF v])
      (use demo_event_valid [of 2 SUBMITTED 1] demo_event_valid [of 5 FILLED 2] in
        \<open>auto simp: order_seen_def demo_filled_order_def demo_event_def REASON_REQUIRED_STATUSES_def\<close>)
  from terminal_order_absorbing [OF _ _ ok] v ok show ?thesis
    by (simp add: res_simps demo_filled_order_def)
qed

text \<open>
  Delivery may be at least once: after any accepted sequence of observations, delivering any
  of them again, at any later point, any number of times and in any order, gives the same state.
\<close>

theorem order_redelivery_harmless:
  assumes "foldE (reduce_order sha256) (initial_order_state oid) (es @ fs) = Inr t" "set ds \<subseteq> set es"
  shows "foldE (reduce_order sha256) (initial_order_state oid) (es @ ds @ fs) = Inr t"
  by (rule order_lifecycle.duplicate_anywhere_noop [OF order_valid_initial assms])

theorem order_redelivery_harmless_witness:
  "foldE (reduce_order demo_sha) (initial_order_state 7)
     [demo_event 1 2 SUBMITTED, demo_event 1 2 SUBMITTED, demo_event 2 5 FILLED] = Inr demo_filled_order"
  using order_redelivery_harmless [of demo_sha 7 "[demo_event 1 2 SUBMITTED]" "[demo_event 2 5 FILLED]"
      demo_filled_order "[demo_event 1 2 SUBMITTED]"] demo_order_replay by simp

text \<open>
  C39: in every state a sequence of observations produces, event ids are distinct and sequences
  strictly increase up to the last sequence, a cancellation is pending only in PENDING_CANCEL,
  TRIGGERED or PARTIALLY_FILLED and always in PENDING_CANCEL, and so never in a terminal state.
\<close>

theorem order_state_invariant:
  assumes "foldE (reduce_order sha256) (initial_order_state oid) es = Inr s"
  shows "distinct (map oe_event_id (os_applied_events s))
    \<and> sorted_wrt (<) (map oe_sequence (os_applied_events s))
    \<and> os_last_sequence s = (if os_applied_events s = [] then 0 else oe_sequence (last (os_applied_events s)))
    \<and> (os_cancel_pending s \<longrightarrow> os_status s \<in> {PENDING_CANCEL, TRIGGERED, PARTIALLY_FILLED})
    \<and> (os_status s = PENDING_CANCEL \<longrightarrow> os_cancel_pending s)"
proof -
  have v: "order_valid sha256 s" by (rule order_lifecycle.fold_valid [OF order_valid_initial assms])
  show ?thesis
    using order_valid_shape(3,4,6) [OF v] order_valid_lineage [OF v] by (simp add: lineage_key_def)
qed

theorem order_state_invariant_witness:
  "distinct (map oe_event_id (os_applied_events demo_filled_order)) \<and> \<not> os_cancel_pending demo_filled_order"
  using order_state_invariant [OF demo_order_replay] by (simp add: demo_filled_order_def)

text \<open>
  The fingerprint identifies the observation: two validated events whose fingerprinted texts
  do not collide under the digest have equal fingerprints only when all their fields are equal.
\<close>

theorem event_fingerprint_identifies:
  assumes "canonical_event sha256 a = Inr a" "valid_datetime (oe_occurred_at a)"
    and "canonical_event sha256 b = Inr b" "valid_datetime (oe_occurred_at b)"
    and no_collision: "sha256 (event_material a) = sha256 (event_material b) \<Longrightarrow>
           event_material a = event_material b"
  shows "oe_event_fingerprint a = oe_event_fingerprint b \<longleftrightarrow> a = b"
proof
  assume fp: "oe_event_fingerprint a = oe_event_fingerprint b"
  have v: "valid_event sha256 a" "valid_event sha256 b" using assms(1,3) by (simp_all add: res_simps)
  with fp have "event_material a = event_material b"
    by (intro no_collision) (simp add: valid_event_fingerprint event_fingerprint_def)
  from event_material_inj [OF this v(1) assms(2) v(2) assms(4)] show "a = b" .
qed simp

definition split_sha :: "string \<Rightarrow> string" where
  "split_sha s = replicate 64 (if s = event_material (demo_event 1 2 SUBMITTED) then CHR ''a'' else CHR ''b'')"

theorem event_fingerprint_identifies_witness:
  "oe_event_fingerprint ((demo_event 1 2 SUBMITTED)\<lparr>oe_event_fingerprint := replicate 64 (CHR ''a'')\<rparr>)
     \<noteq> oe_event_fingerprint ((demo_event 1 3 SUBMITTED)\<lparr>oe_event_fingerprint := replicate 64 (CHR ''b'')\<rparr>)"
proof -
  let ?a = "(demo_event 1 2 SUBMITTED)\<lparr>oe_event_fingerprint := replicate 64 (CHR ''a'')\<rparr>"
  let ?b = "(demo_event 1 3 SUBMITTED)\<lparr>oe_event_fingerprint := replicate 64 (CHR ''b'')\<rparr>"
  have same: "event_material (e\<lparr>oe_event_fingerprint := f\<rparr>) = event_material e" for e f
    by (simp add: event_material_def material_identity_def material_reason_def material_ordering_def)
  have ne: "event_material (demo_event 1 2 SUBMITTED) \<noteq> event_material (demo_event 1 3 SUBMITTED)"
    using event_material_inj [of "demo_event 1 2 SUBMITTED" "demo_event 1 3 SUBMITTED" demo_sha]
      demo_event_valid [of 2 SUBMITTED 1] demo_event_valid [of 3 SUBMITTED 1]
    by (auto simp: demo_event_def valid_datetime_def demo_time_def REASON_REQUIRED_STATUSES_def)
  have v: "canonical_event split_sha ?a = Inr ?a" "canonical_event split_sha ?b = Inr ?b"
    using ne demo_event_valid [of 2 SUBMITTED 1] demo_event_valid [of 3 SUBMITTED 1]
    unfolding valid_event_def canonical_event_def event_fingerprint_def same split_sha_def
    by (auto simp: res_simps event_material_fields_def demo_event_def sha256_hex_def list_all_length
        is_digit_char_def validate_reason_def REASON_REQUIRED_STATUSES_def require_field_def
        require_utc_def optional_ok_def demo_time_def)
  have "valid_datetime (oe_occurred_at ?a)" "valid_datetime (oe_occurred_at ?b)"
    by (simp_all add: demo_event_def demo_time_def valid_datetime_def)
  from event_fingerprint_identifies [OF v(1) this(1) v(2) this(2)] ne show ?thesis
    unfolding same split_sha_def by (auto simp: demo_event_def)
qed

text \<open>
  An order intent is accepted, unchanged, exactly when its identifiers are canonical, its
  quantity is positive, its times are UTC, the price fields present are those its order type
  needs, an expiry is given just for GTD and lies after the request, and post-only is asked only
  of resting limit instructions.
\<close>

theorem order_intent_accepted_iff:
  "mk_order_intent i = Inr j \<longleftrightarrow>
     j = i
     \<and> list_all canonical_identifier
         [oi_client_order_id i, oi_strategy_id i, oi_trader_id i, oi_account_id i, oi_execution_client_id i]
     \<and> optional_ok canonical_identifier (oi_venue_order_id i)
     \<and> optional_ok canonical_identifier (oi_order_list_id i)
     \<and> 0 < fraction (oq_value (oi_quantity i))
     \<and> dt_utcoffset (oi_requested_at i) = Some 0 \<and> oi_schema_version i \<noteq> []
     \<and> (oi_limit_price i \<noteq> None) = (oi_order_type i \<in> {LIMIT, STOP_LIMIT, LIMIT_IF_TOUCHED})
     \<and> (oi_trigger_price i \<noteq> None) =
          (oi_order_type i \<in> {STOP_MARKET, STOP_LIMIT, MARKET_IF_TOUCHED, LIMIT_IF_TOUCHED})
     \<and> (oi_trailing_offset i \<noteq> None) = (oi_order_type i = TRAILING_STOP)
     \<and> (case oi_gtd_expiry i of
           None \<Rightarrow> oi_time_in_force i \<noteq> GTD
         | Some x \<Rightarrow> oi_time_in_force i = GTD \<and> dt_utcoffset x = Some 0 \<and> dt_lt (oi_requested_at i) x)
     \<and> (if oi_post_only i then oi_order_type i \<in> {LIMIT, STOP_LIMIT, LIMIT_IF_TOUCHED}
          \<and> oi_time_in_force i \<in> {GTC, DAY, GTD} else True)"
  unfolding mk_order_intent_Inr_iff by auto

end
