(* ===== verification/Fills.thy ===== *)
theory Fills
  imports Orders
begin

section \<open>Execution reports (packages/domain/orders.py, lines 610-931)\<close>

text \<open>
  \<open>FillEvent\<close> with its field canonicalisers and the cross-field report validator, and the
  batch validator that rejects duplicate executions and per-order sequence collisions and returns
  the reports in their intrinsic order.
\<close>

subsection \<open>Reports\<close>

datatype liquidity_side = MAKER | TAKER

datatype reconciliation_source = VENUE | DROP_COPY | CLEARING

datatype fill_report_status = FR_PARTIALLY_FILLED | FR_FILLED | FR_DUPLICATE | FR_CORRECTION | FR_BUST

fun fill_report_status_value :: "fill_report_status \<Rightarrow> string" where
  "fill_report_status_value FR_PARTIALLY_FILLED = ''PARTIALLY_FILLED''"
| "fill_report_status_value FR_FILLED = ''FILLED''"
| "fill_report_status_value FR_DUPLICATE = ''DUPLICATE''"
| "fill_report_status_value FR_CORRECTION = ''CORRECTION''"
| "fill_report_status_value FR_BUST = ''BUST''"

fun REFERENCE_FIELD_BY_FILL_STATUS :: "fill_report_status \<Rightarrow> string option" where
  "REFERENCE_FIELD_BY_FILL_STATUS FR_PARTIALLY_FILLED = None"
| "REFERENCE_FIELD_BY_FILL_STATUS FR_FILLED = None"
| "REFERENCE_FIELD_BY_FILL_STATUS FR_DUPLICATE = Some ''duplicate_of_execution_id''"
| "REFERENCE_FIELD_BY_FILL_STATUS FR_CORRECTION = Some ''correction_of_execution_id''"
| "REFERENCE_FIELD_BY_FILL_STATUS FR_BUST = Some ''bust_of_execution_id''"

definition canonical_instrument_definition :: "instrument_definition \<Rightarrow> instrument_definition res" where
  "canonical_instrument_definition value =
     catch_value_error (mk_instrument_definition value)
       (ValueError ''instrument_definition is not canonical'')"

definition canonical_order_quantity :: "order_quantity \<Rightarrow> string \<Rightarrow> order_quantity res" where
  "canonical_order_quantity value field_name =
     catch_value_error (mk_order_quantity (PyDecimal (oq_value value)) (oq_precision value))
       (ValueError (field_name @ '' is not canonical''))"

definition canonical_price :: "price \<Rightarrow> string \<Rightarrow> price res" where
  "canonical_price value field_name =
     catch_value_error (mk_price (PyDecimal (p_amount value)) (p_currency value))
       (ValueError (field_name @ '' is not canonical''))"

definition canonical_money :: "money \<Rightarrow> string \<Rightarrow> money res" where
  "canonical_money value field_name =
     catch_value_error (mk_money (PyDecimal (m_amount value)) (m_currency value))
       (ValueError (field_name @ '' is not canonical''))"

record fill_event =
  fe_execution_id :: uuid
  fe_order_id :: uuid
  fe_report_sequence :: int
  fe_venue_trade_id :: string
  fe_instrument_definition :: instrument_definition
  fe_side :: order_side
  fe_liquidity_side :: liquidity_side
  fe_status :: fill_report_status
  fe_quantity :: order_quantity
  fe_cumulative_fill_quantity :: order_quantity
  fe_leaves_quantity :: order_quantity
  fe_order_quantity :: order_quantity
  fe_last_fill_price :: price
  fe_average_fill_price :: price
  fe_commission :: money
  fe_reconciliation_source :: reconciliation_source
  fe_duplicate_of_execution_id :: "uuid option"
  fe_correction_of_execution_id :: "uuid option"
  fe_bust_of_execution_id :: "uuid option"
  fe_filled_at :: datetime
  fe_schema_version :: string

definition quantity_scaled :: "order_quantity \<Rightarrow> int \<Rightarrow> int res" where
  "quantity_scaled quantity precision = decimal_to_scaled_integer (oq_value quantity) precision"

definition check_report_quantity ::
  "order_quantity \<Rightarrow> int \<Rightarrow> string \<times> order_quantity \<times> bool \<Rightarrow> unit res" where
  "check_report_quantity increment increment_scaled entry =
     (case entry of (name, quantity, require_positive) \<Rightarrow>
        if oq_precision quantity \<noteq> oq_precision increment
        then Inl (ValueError (name @ '' must use instrument quantity precision''))
        else bindE (quantity_scaled quantity (oq_precision increment)) (\<lambda>scaled.
             if scaled mod increment_scaled \<noteq> 0
             then Inl (ValueError (name @ '' must be on the instrument size increment grid''))
             else if require_positive \<and> dec_le (oq_value quantity) (dec_int 0)
             then Inl (ValueError (name @ '' must be positive''))
             else Inr ()))"

definition prefix_error :: "string \<Rightarrow> 'a res \<Rightarrow> 'a res" where
  "prefix_error p m =
     (case m of Inl e \<Rightarrow> Inl (if is_value_error e then ValueError (p @ error_text e) else e)
      | Inr x \<Rightarrow> Inr x)"

definition supplied_references :: "fill_event \<Rightarrow> (string \<times> uuid) list" where
  "supplied_references f =
     List.map_filter (\<lambda>(name, value). map_option (Pair name) value)
       [(''duplicate_of_execution_id'', fe_duplicate_of_execution_id f),
        (''correction_of_execution_id'', fe_correction_of_execution_id f),
        (''bust_of_execution_id'', fe_bust_of_execution_id f)]"

definition check_references :: "fill_event \<Rightarrow> unit res" where
  "check_references f =
     bindE (case REFERENCE_FIELD_BY_FILL_STATUS (fe_status f) of
              None \<Rightarrow>
                if supplied_references f \<noteq> []
                then Inl (ValueError ''normal execution reports must not carry an identity reference'')
                else Inr ()
            | Some expected \<Rightarrow>
                if map fst (supplied_references f) \<noteq> [expected]
                then Inl (ValueError (fill_report_status_value (fe_status f)
                       @ '' reports require only '' @ expected))
                else Inr ()) (\<lambda>_.
     if list_ex (\<lambda>(_, value). value = fe_execution_id f) (supplied_references f)
     then Inl (ValueError ''execution report references must not self-reference'')
     else Inr ())"

definition validate_execution_report :: "fill_event \<Rightarrow> fill_event res" where
  "validate_execution_report f =
     bindE (mk_instrument_constraints (fe_instrument_definition f)) (\<lambda>constraints.
     let increment = id_size_increment (ic_definition constraints)
     in
     bindE (quantity_scaled increment (oq_precision increment)) (\<lambda>increment_scaled.
     bindE (mapE (check_report_quantity increment increment_scaled)
              [(''quantity'', fe_quantity f, True),
               (''cumulative_fill_quantity'', fe_cumulative_fill_quantity f, True),
               (''leaves_quantity'', fe_leaves_quantity f, False),
               (''order_quantity'', fe_order_quantity f, True)]) (\<lambda>_.
     bindE (prefix_error ''order_quantity is invalid for instrument: ''
              (validate_quantity constraints (fe_order_quantity f))) (\<lambda>_.
     bindE (quantity_scaled (fe_quantity f) (oq_precision increment)) (\<lambda>quantity_sc.
     bindE (quantity_scaled (fe_cumulative_fill_quantity f) (oq_precision increment)) (\<lambda>cumulative_sc.
     bindE (quantity_scaled (fe_leaves_quantity f) (oq_precision increment)) (\<lambda>leaves_sc.
     bindE (quantity_scaled (fe_order_quantity f) (oq_precision increment)) (\<lambda>order_sc.
     if cumulative_sc < quantity_sc
     then Inl (ValueError ''cumulative_fill_quantity must be at least quantity'')
     else if cumulative_sc + leaves_sc \<noteq> order_sc
     then Inl (ValueError ''order_quantity must equal cumulative_fill_quantity plus leaves_quantity'')
     else if fe_status f = FR_FILLED \<and> leaves_sc \<noteq> 0
     then Inl (ValueError ''terminal FILLED reports must have zero leaves_quantity'')
     else
     bindE (prefix_error ''last_fill_price is invalid for instrument: ''
              (validate_price constraints (fe_last_fill_price f))) (\<lambda>_.
     bindE (prefix_error ''average_fill_price is invalid for instrument: ''
              (validate_price constraints (fe_average_fill_price f))) (\<lambda>_.
     if dec_lt (m_amount (fe_commission f)) (dec_int 0)
     then Inl (ValueError ''commission must be non-negative'')
     else bindE (check_references f) (\<lambda>_. Inr f)))))))))))"

text \<open>\<open>FillEvent.model_validate\<close>: the field constraints and canonicalisers, then the report.\<close>

definition fill_fields :: "fill_event \<Rightarrow> fill_event res" where
  "fill_fields f =
     bindE (require_field ''report_sequence'' (0 < fe_report_sequence f)) (\<lambda>_.
     bindE (require_field ''venue_trade_id'' (canonical_identifier (fe_venue_trade_id f))) (\<lambda>_.
     bindE (canonical_instrument_definition (fe_instrument_definition f)) (\<lambda>definition'.
     bindE (canonical_order_quantity (fe_quantity f) ''quantity'') (\<lambda>q.
     bindE (canonical_order_quantity (fe_cumulative_fill_quantity f) ''cumulative_fill_quantity'') (\<lambda>cq.
     bindE (canonical_order_quantity (fe_leaves_quantity f) ''leaves_quantity'') (\<lambda>lq.
     bindE (canonical_order_quantity (fe_order_quantity f) ''order_quantity'') (\<lambda>oq.
     bindE (canonical_price (fe_last_fill_price f) ''last_fill_price'') (\<lambda>lp.
     bindE (canonical_price (fe_average_fill_price f) ''average_fill_price'') (\<lambda>ap.
     bindE (canonical_money (fe_commission f) ''commission'') (\<lambda>c.
     bindE (require_utc (fe_filled_at f)) (\<lambda>_.
     bindE (require_field ''schema_version'' (fe_schema_version f = ''2.0'')) (\<lambda>_.
     Inr (f\<lparr>fe_instrument_definition := definition', fe_quantity := q, fe_cumulative_fill_quantity := cq,
            fe_leaves_quantity := lq, fe_order_quantity := oq, fe_last_fill_price := lp,
            fe_average_fill_price := ap, fe_commission := c\<rparr>)))))))))))))"

definition mk_fill_event :: "fill_event \<Rightarrow> fill_event res" where
  "mk_fill_event f = wrap_validation (bindE (fill_fields f) validate_execution_report)"

subsection \<open>Batches\<close>

record fill_batch =
  fb_canonical_reports :: "fill_event list"
  fb_execution_ids :: "uuid list"
  fb_sequences_by_order :: "(uuid \<times> int list) list"

definition order_sequences :: "fill_batch \<Rightarrow> uuid \<Rightarrow> int list" where
  "order_sequences b oid = (case map_of (fb_sequences_by_order b) oid of None \<Rightarrow> [] | Some s \<Rightarrow> s)"

definition fill_batch_step :: "fill_batch \<Rightarrow> fill_event \<Rightarrow> fill_batch res" where
  "fill_batch_step b report =
     bindE (catch_validation_error (mk_fill_event report) (ValueError ''invalid execution report''))
       (\<lambda>canonical.
     if fe_execution_id canonical \<in> set (fb_execution_ids b)
     then Inl (ValueError (''duplicate execution_id: '' @ uuid_text (fe_execution_id canonical)))
     else
       let sequences = order_sequences b (fe_order_id canonical)
       in if fe_report_sequence canonical \<in> set sequences
          then Inl (ValueError
                 (''duplicate report_sequence for order_id '' @ uuid_text (fe_order_id canonical) @ '': ''
                  @ map digit_char (as_digits (nat (fe_report_sequence canonical)))))
          else Inr \<lparr>fb_canonical_reports = fb_canonical_reports b @ [canonical],
                    fb_execution_ids = fb_execution_ids b @ [fe_execution_id canonical],
                    fb_sequences_by_order =
                      dict_put (fe_order_id canonical) (sequences @ [fe_report_sequence canonical])
                        (fb_sequences_by_order b)\<rparr>)"

definition report_key :: "fill_event \<Rightarrow> uuid \<times> int \<times> uuid" where
  "report_key report = (fe_order_id report, fe_report_sequence report, fe_execution_id report)"

definition validate_fill_report_batch :: "fill_event list \<Rightarrow> fill_event list res" where
  "validate_fill_report_batch reports =
     bindE (foldE fill_batch_step
              \<lparr>fb_canonical_reports = [], fb_execution_ids = [], fb_sequences_by_order = []\<rparr> reports) (\<lambda>b.
     Inr (sort_key report_key (fb_canonical_reports b)))"

subsection \<open>Canonical reports are stable\<close>

lemma prefix_error_Inr_iff [res_simps]: "prefix_error p m = Inr y \<longleftrightarrow> m = Inr y"
  by (cases m) (auto simp: prefix_error_def)

lemma canonical_order_quantity_stable:
  "canonical_order_quantity q n = Inr q' \<Longrightarrow> canonical_order_quantity q' n' = Inr q'"
  using mk_order_quantity_Inr(3,7) [of "oq_value q" "oq_precision q" q']
  by (auto simp: canonical_order_quantity_def res_simps)

lemma canonical_price_Inr_iff [res_simps]:
  "canonical_price p n = Inr p' \<longleftrightarrow>
     p' = p \<and> is_registered DEFAULT_CURRENCY_REGISTRY (p_currency p) \<and> 0 < fraction (p_amount p)"
  by (auto simp: canonical_price_def res_simps)

lemma canonical_money_Inr_iff [res_simps]:
  "canonical_money p n = Inr p' \<longleftrightarrow>
     p' = p \<and> is_registered DEFAULT_CURRENCY_REGISTRY (m_currency p)
     \<and> max 0 (- dexp (m_amount p)) \<le> cur_precision (m_currency p)"
  by (auto simp: canonical_money_def res_simps)

lemma canonical_definition_stable:
  "canonical_instrument_definition d = Inr d' \<Longrightarrow> canonical_instrument_definition d' = Inr d'"
  using mk_instrument_definition_idem by (auto simp: canonical_instrument_definition_def res_simps)

lemma fill_fields_stable: "fill_fields f = Inr g \<Longrightarrow> fill_fields g = Inr g"
  unfolding fill_fields_def bindE_Inr_iff
  by (auto simp: res_simps canonical_order_quantity_stable canonical_definition_stable)

lemma validate_execution_report_id: "validate_execution_report f = Inr g \<Longrightarrow> g = f"
  by (auto simp: validate_execution_report_def Let_def res_simps)

lemma mk_fill_event_Inr_iff:
  "mk_fill_event f = Inr g \<longleftrightarrow> fill_fields f = Inr g \<and> validate_execution_report g = Inr g"
  unfolding mk_fill_event_def res_simps using validate_execution_report_id by blast

lemma mk_fill_event_stable: "mk_fill_event f = Inr g \<Longrightarrow> mk_fill_event g = Inr g"
  unfolding mk_fill_event_Inr_iff using fill_fields_stable by blast


subsection \<open>What an accepted report says\<close>

lemma quantity_scaled_Inr:
  assumes "quantity_scaled q p = Inr n"
  shows "of_int n = fraction (oq_value q) * 10 ^ nat p"
proof -
  have p: "0 \<le> p" "p \<le> 18"
    using assms by (auto simp: quantity_scaled_def decimal_to_scaled_integer_def res_simps
        require_precision_Inr_iff)
  from assms show ?thesis
    by (simp add: quantity_scaled_def decimal_to_scaled_integer_iff [OF p])
qed

definition fill_amounts :: "fill_event \<Rightarrow> bool" where
  "fill_amounts f =
     (0 < fraction (oq_value (fe_quantity f))
      \<and> fraction (oq_value (fe_quantity f)) \<le> fraction (oq_value (fe_cumulative_fill_quantity f))
      \<and> 0 \<le> fraction (oq_value (fe_leaves_quantity f))
      \<and> fraction (oq_value (fe_cumulative_fill_quantity f)) + fraction (oq_value (fe_leaves_quantity f))
          = fraction (oq_value (fe_order_quantity f))
      \<and> (fe_status f = FR_FILLED \<longrightarrow> fraction (oq_value (fe_leaves_quantity f)) = 0)
      \<and> 0 < fraction (p_amount (fe_last_fill_price f)) \<and> 0 < fraction (p_amount (fe_average_fill_price f))
      \<and> 0 \<le> fraction (m_amount (fe_commission f)))"

lemma check_report_quantity_positive:
  "check_report_quantity inc k (n, q, True) = Inr u \<Longrightarrow> 0 < fraction (oq_value q)"
  by (auto simp: check_report_quantity_def res_simps dec_le_def)

lemma validate_execution_report_Inr:
  assumes "validate_execution_report f = Inr g"
  shows "\<exists>p q cq lq oq. 0 < fraction (oq_value (fe_quantity f))
    \<and> quantity_scaled (fe_quantity f) p = Inr q \<and> quantity_scaled (fe_cumulative_fill_quantity f) p = Inr cq
    \<and> quantity_scaled (fe_leaves_quantity f) p = Inr lq \<and> quantity_scaled (fe_order_quantity f) p = Inr oq
    \<and> \<not> cq < q \<and> cq + lq = oq \<and> \<not> (fe_status f = FR_FILLED \<and> lq \<noteq> 0)
    \<and> 0 \<le> fraction (m_amount (fe_commission f))"
proof -
  have "\<exists>(c :: instrument_constraints) k us q cq lq oq. mapE (check_report_quantity (id_size_increment (ic_definition c)) k)
      [(''quantity'', fe_quantity f, True), (''cumulative_fill_quantity'', fe_cumulative_fill_quantity f, True),
       (''leaves_quantity'', fe_leaves_quantity f, False), (''order_quantity'', fe_order_quantity f, True)] = Inr us
    \<and> quantity_scaled (fe_quantity f) (oq_precision (id_size_increment (ic_definition c))) = Inr q
    \<and> quantity_scaled (fe_cumulative_fill_quantity f) (oq_precision (id_size_increment (ic_definition c))) = Inr cq
    \<and> quantity_scaled (fe_leaves_quantity f) (oq_precision (id_size_increment (ic_definition c))) = Inr lq
    \<and> quantity_scaled (fe_order_quantity f) (oq_precision (id_size_increment (ic_definition c))) = Inr oq
    \<and> \<not> cq < q \<and> \<not> cq + lq \<noteq> oq \<and> \<not> (fe_status f = FR_FILLED \<and> lq \<noteq> 0)
    \<and> \<not> dec_lt (m_amount (fe_commission f)) (dec_int 0)"
    using assms unfolding validate_execution_report_def Let_def bindE_Inr_iff if_Inl_Inr_iff
    by (elim exE conjE) ((rule exI)+, (rule conjI, assumption)+, assumption)
  then obtain c :: instrument_constraints and k us q cq lq oq where k: "mapE (check_report_quantity (id_size_increment (ic_definition c)) k)
      [(''quantity'', fe_quantity f, True), (''cumulative_fill_quantity'', fe_cumulative_fill_quantity f, True),
       (''leaves_quantity'', fe_leaves_quantity f, False), (''order_quantity'', fe_order_quantity f, True)] = Inr us"
    and rest: "quantity_scaled (fe_quantity f) (oq_precision (id_size_increment (ic_definition c))) = Inr q
    \<and> quantity_scaled (fe_cumulative_fill_quantity f) (oq_precision (id_size_increment (ic_definition c))) = Inr cq
    \<and> quantity_scaled (fe_leaves_quantity f) (oq_precision (id_size_increment (ic_definition c))) = Inr lq
    \<and> quantity_scaled (fe_order_quantity f) (oq_precision (id_size_increment (ic_definition c))) = Inr oq
    \<and> \<not> cq < q \<and> \<not> cq + lq \<noteq> oq \<and> \<not> (fe_status f = FR_FILLED \<and> lq \<noteq> 0)
    \<and> \<not> dec_lt (m_amount (fe_commission f)) (dec_int 0)" by blast
  have "0 < fraction (oq_value (fe_quantity f))"
    using k by (auto simp: res_simps dest: check_report_quantity_positive)
  with rest show ?thesis by (auto simp: dec_lt_def not_less)
qed

lemma fill_amounts_valid:
  assumes "mk_fill_event f = Inr g"
  shows "fill_amounts g"
proof -
  have leaves: "0 \<le> fraction (oq_value (fe_leaves_quantity g))"
    and prices: "0 < fraction (p_amount (fe_last_fill_price g))" "0 < fraction (p_amount (fe_average_fill_price g))"
    using assms mk_order_quantity_Inr(2)
    by (auto simp: mk_fill_event_Inr_iff fill_fields_def res_simps canonical_order_quantity_def
        simp del: fraction_zero_iff)
  from assms have "validate_execution_report g = Inr g" by (simp add: mk_fill_event_Inr_iff)
  from validate_execution_report_Inr [OF this] obtain p q cq lq oq where
    pos: "0 < fraction (oq_value (fe_quantity g))"
    and s: "quantity_scaled (fe_quantity g) p = Inr q" "quantity_scaled (fe_cumulative_fill_quantity g) p = Inr cq"
      "quantity_scaled (fe_leaves_quantity g) p = Inr lq" "quantity_scaled (fe_order_quantity g) p = Inr oq"
    and r: "\<not> cq < q" "cq + lq = oq" "\<not> (fe_status g = FR_FILLED \<and> lq \<noteq> 0)"
      "0 \<le> fraction (m_amount (fe_commission g))"
    by blast
  let ?s = "(10::rat) ^ nat p"
  have eqs: "of_int q = fraction (oq_value (fe_quantity g)) * ?s"
    "of_int cq = fraction (oq_value (fe_cumulative_fill_quantity g)) * ?s"
    "of_int lq = fraction (oq_value (fe_leaves_quantity g)) * ?s"
    "of_int oq = fraction (oq_value (fe_order_quantity g)) * ?s"
    using s by (auto dest: quantity_scaled_Inr)
  have "fraction (oq_value (fe_quantity g)) * ?s \<le> fraction (oq_value (fe_cumulative_fill_quantity g)) * ?s"
    unfolding eqs [symmetric] using r(1) by simp
  moreover have "(fraction (oq_value (fe_cumulative_fill_quantity g)) + fraction (oq_value (fe_leaves_quantity g))) * ?s
      = fraction (oq_value (fe_order_quantity g)) * ?s"
    unfolding distrib_right eqs [symmetric] of_int_add [symmetric] using r(2) by simp
  moreover have "fe_status g = FR_FILLED \<longrightarrow> fraction (oq_value (fe_leaves_quantity g)) * ?s = 0"
    unfolding eqs(3) [symmetric] using r(3) by simp
  ultimately show ?thesis
    using leaves prices r(4) pos
    by (auto simp: fill_amounts_def mult_le_cancel_right)
qed

definition references_match :: "fill_event \<Rightarrow> bool" where
  "references_match f =
     (case fe_status f of
        FR_DUPLICATE \<Rightarrow> (\<exists>x. fe_duplicate_of_execution_id f = Some x \<and> x \<noteq> fe_execution_id f)
          \<and> fe_correction_of_execution_id f = None \<and> fe_bust_of_execution_id f = None
      | FR_CORRECTION \<Rightarrow> (\<exists>x. fe_correction_of_execution_id f = Some x \<and> x \<noteq> fe_execution_id f)
          \<and> fe_duplicate_of_execution_id f = None \<and> fe_bust_of_execution_id f = None
      | FR_BUST \<Rightarrow> (\<exists>x. fe_bust_of_execution_id f = Some x \<and> x \<noteq> fe_execution_id f)
          \<and> fe_duplicate_of_execution_id f = None \<and> fe_correction_of_execution_id f = None
      | _ \<Rightarrow> fe_duplicate_of_execution_id f = None \<and> fe_correction_of_execution_id f = None
          \<and> fe_bust_of_execution_id f = None)"

lemma check_references_Inr_iff: "check_references f = Inr u \<longleftrightarrow> references_match f"
  by (cases "fe_status f"; cases "fe_duplicate_of_execution_id f"; cases "fe_correction_of_execution_id f";
      cases "fe_bust_of_execution_id f")
    (simp_all add: check_references_def supplied_references_def references_match_def List.map_filter_simps
      res_simps)

lemma fill_references_valid: "mk_fill_event f = Inr g \<Longrightarrow> references_match g"
  unfolding mk_fill_event_Inr_iff validate_execution_report_def Let_def
  by (auto simp: res_simps check_references_Inr_iff)

subsection \<open>Batches are delivery-order independent\<close>

definition batch_state :: "fill_event list \<Rightarrow> fill_batch \<Rightarrow> bool" where
  "batch_state cs b =
     (fb_canonical_reports b = cs \<and> fb_execution_ids b = map fe_execution_id cs
      \<and> (\<forall>oid n. n \<in> set (order_sequences b oid) \<longleftrightarrow>
           (oid, n) \<in> (\<lambda>c. (fe_order_id c, fe_report_sequence c)) ` set cs))"

lemma fill_batch_step_iff:
  assumes "batch_state cs b"
  shows "fill_batch_step b r = Inr b' \<longleftrightarrow>
    (\<exists>c. mk_fill_event r = Inr c \<and> fe_execution_id c \<notin> fe_execution_id ` set cs
       \<and> (fe_order_id c, fe_report_sequence c) \<notin> (\<lambda>c. (fe_order_id c, fe_report_sequence c)) ` set cs
       \<and> b' = \<lparr>fb_canonical_reports = cs @ [c], fb_execution_ids = map fe_execution_id (cs @ [c]),
              fb_sequences_by_order = dict_put (fe_order_id c)
                (order_sequences b (fe_order_id c) @ [fe_report_sequence c]) (fb_sequences_by_order b)\<rparr>)"
  using assms by (auto simp: fill_batch_step_def Let_def res_simps batch_state_def)

lemma batch_state_snoc:
  assumes "batch_state cs b"
  shows "batch_state (cs @ [c]) \<lparr>fb_canonical_reports = cs @ [c],
     fb_execution_ids = map fe_execution_id (cs @ [c]),
     fb_sequences_by_order = dict_put (fe_order_id c)
       (order_sequences b (fe_order_id c) @ [fe_report_sequence c]) (fb_sequences_by_order b)\<rparr>"
  using assms by (auto simp: batch_state_def order_sequences_def dict_put_get)

definition batch_ok :: "fill_event list \<Rightarrow> bool" where
  "batch_ok cs = (distinct (map fe_execution_id cs)
     \<and> distinct (map (\<lambda>c. (fe_order_id c, fe_report_sequence c)) cs))"

lemma fill_batch_fold:
  assumes "batch_state ds b" "batch_ok ds"
  shows "(\<exists>b'. foldE fill_batch_step b rs = Inr b' \<and> fb_canonical_reports b' = cs') \<longleftrightarrow>
    (\<exists>cs. mapE mk_fill_event rs = Inr cs \<and> cs' = ds @ cs \<and> batch_ok (ds @ cs))"
  using assms
proof (induction rs arbitrary: ds b)
  case Nil
  then show ?case by (auto simp: batch_state_def)
next
  case (Cons r rs)
  show ?case
  proof (cases "mk_fill_event r")
    case (Inl e)
    then show ?thesis by (simp add: fill_batch_step_iff [OF Cons.prems(1)] res_simps)
  next
    case (Inr c)
    let ?ok = "fe_execution_id c \<notin> fe_execution_id ` set ds
       \<and> (fe_order_id c, fe_report_sequence c) \<notin> (\<lambda>c. (fe_order_id c, fe_report_sequence c)) ` set ds"
    show ?thesis
    proof (cases ?ok)
      case True
      then have "batch_ok (ds @ [c])" using Cons.prems(2) by (auto simp: batch_ok_def)
      from Cons.IH [OF batch_state_snoc [OF Cons.prems(1)] this] True Inr show ?thesis
        by (auto simp: res_simps fill_batch_step_iff [OF Cons.prems(1)])
    next
      case False
      then have "\<not> batch_ok (ds @ c # cs)" for cs by (auto simp: batch_ok_def)
      with False Inr show ?thesis
        by (auto simp: res_simps fill_batch_step_iff [OF Cons.prems(1)])
    qed
  qed
qed

lemma validate_batch_Inr_iff:
  "validate_fill_report_batch rs = Inr out \<longleftrightarrow>
     (\<exists>cs. mapE mk_fill_event rs = Inr cs \<and> batch_ok cs \<and> out = sort_key report_key cs)"
proof -
  let ?b = "\<lparr>fb_canonical_reports = [], fb_execution_ids = [], fb_sequences_by_order = []\<rparr>"
  have st: "batch_state [] ?b" by (simp add: batch_state_def order_sequences_def)
  have ok: "batch_ok []" by (simp add: batch_ok_def)
  have "(\<exists>b'. foldE fill_batch_step ?b rs = Inr b' \<and> fb_canonical_reports b' = cs') \<longleftrightarrow>
      mapE mk_fill_event rs = Inr cs' \<and> batch_ok cs'" for cs'
    unfolding fill_batch_fold [OF st ok, of rs] append_Nil by blast
  note iff = this
  have "validate_fill_report_batch rs = Inr out \<longleftrightarrow> (\<exists>cs. (\<exists>b'. foldE fill_batch_step ?b rs = Inr b'
      \<and> fb_canonical_reports b' = cs) \<and> out = sort_key report_key cs)"
    unfolding validate_fill_report_batch_def bindE_Inr_iff by auto
  then show ?thesis unfolding iff by simp
qed

lemma report_key_distinct: "batch_ok cs \<Longrightarrow> distinct (map report_key cs)"
  by (auto simp: batch_ok_def distinct_map report_key_def inj_on_def)

lemma batch_ok_mset: "mset cs = mset ds \<Longrightarrow> batch_ok cs \<longleftrightarrow> batch_ok ds"
  by (simp add: batch_ok_def mset_eq_imp_distinct_iff [of "map f cs" "map f ds" for f])

lemma validate_batch_permute:
  assumes "mset rs = mset rs'" "validate_fill_report_batch rs = Inr out"
  shows "validate_fill_report_batch rs' = Inr out"
proof -
  from assms(2) obtain cs where cs: "mapE mk_fill_event rs = Inr cs" "batch_ok cs" "out = sort_key report_key cs"
    by (auto simp: validate_batch_Inr_iff)
  from mapE_permute [OF assms(1) cs(1)] obtain ds where ds: "mapE mk_fill_event rs' = Inr ds" "mset cs = mset ds"
    by auto
  with cs batch_ok_mset [OF ds(2)] sort_key_permute [OF ds(2) report_key_distinct [OF cs(2)]]
  show ?thesis by (auto simp: validate_batch_Inr_iff)
qed

subsection \<open>Sample reports\<close>

definition demo_fill :: "uuid \<Rightarrow> int \<Rightarrow> fill_event" where
  "demo_fill e n =
     \<lparr>fe_execution_id = e, fe_order_id = 7, fe_report_sequence = n, fe_venue_trade_id = ''T1'',
      fe_instrument_definition = demo_definition, fe_side = BUY, fe_liquidity_side = TAKER,
      fe_status = FR_PARTIALLY_FILLED, fe_quantity = demo_quantity,
      fe_cumulative_fill_quantity = demo_quantity, fe_leaves_quantity = demo_quantity,
      fe_order_quantity = \<lparr>oq_value = dec 40 3, oq_precision = 3\<rparr>,
      fe_last_fill_price = demo_price, fe_average_fill_price = demo_price,
      fe_commission = \<lparr>m_amount = dec 1 1, m_currency = USDT\<rparr>, fe_reconciliation_source = VENUE,
      fe_duplicate_of_execution_id = None, fe_correction_of_execution_id = None,
      fe_bust_of_execution_id = None, fe_filled_at = demo_time, fe_schema_version = ''2.0''\<rparr>"

lemma demo_fill_arithmetic:
  "mk_order_quantity (PyDecimal (dec 40 3)) 3 = Inr \<lparr>oq_value = dec 40 3, oq_precision = 3\<rparr>"
  "decimal_to_scaled_integer (dec 40 3) 3 = Inr 40"
  "decimal_to_scaled_integer (dec 20 3) 3 = Inr 20"
  "decimal_to_scaled_integer (dec 1 3) 3 = Inr 1"
  "\<not> dec_le (dec 40 3) (dec_int 0)" "\<not> dec_lt (dec 40 3) (dec 1 3)" "\<not> dec_lt (dec 90 3) (dec 40 3)"
  "is_exact_decimal_multiple (dec 40 3) (dec 1 3) = Inr True"
  "\<not> dec_lt (dec 1 1) (dec_int 0)"
  by code_simp+

lemmas demo_currency_simps =
  require_currency_def is_registered_def registry_defs require_finite_decimal_def

lemma demo_prices_ok:
  "validate_price demo_constraints demo_price = Inr demo_price"
  "mk_price (PyDecimal (p_amount demo_price)) (p_currency demo_price) = Inr demo_price"
  "mk_money (PyDecimal (dec 1 1)) USDT = Inr \<lparr>m_amount = dec 1 1, m_currency = USDT\<rparr>"
  by (simp_all add: validate_price_def demo_price_def demo_definition_def demo_constraints_def
      demo_arithmetic demo_order_arithmetic mk_price_def mk_money_def demo_currency_simps del: One_nat_def)

lemma demo_fill_ok: "0 < n \<Longrightarrow> mk_fill_event (demo_fill e n) = Inr (demo_fill e n)"
proof -
  assume n: "0 < n"
  have q: "validate_quantity demo_constraints \<lparr>oq_value = dec 40 3, oq_precision = 3\<rparr>
      = Inr \<lparr>oq_value = dec 40 3, oq_precision = 3\<rparr>"
    by (simp add: validate_quantity_def demo_definition_def demo_constraints_def demo_arithmetic
        demo_fill_arithmetic del: One_nat_def)
  have ident: "canonical_identifier ''T1''"
    by (simp add: canonical_identifier_def matches_head_tail_def char_class_defs)
  have "fill_fields (demo_fill e n) = Inr (demo_fill e n)"
    using n ident demo_prices_ok(2)
    by (simp add: fill_fields_def demo_fill_def require_field_def canonical_instrument_definition_def
        demo_definition_ok canonical_order_quantity_def demo_quantity_def demo_fill_arithmetic
        demo_order_arithmetic canonical_price_def canonical_money_def demo_prices_ok require_utc_def
        demo_time_def del: One_nat_def)
  moreover have inc: "id_size_increment (ic_definition demo_constraints) = \<lparr>oq_value = dec 1 3, oq_precision = 3\<rparr>"
    by (simp add: demo_constraints_def demo_definition_def)
  have "validate_execution_report (demo_fill e n) = Inr (demo_fill e n)"
    by (simp add: validate_execution_report_def demo_fill_def demo_constraints_ok inc quantity_scaled_def
        demo_fill_arithmetic check_report_quantity_def demo_quantity_def demo_order_arithmetic q
        prefix_error_def demo_prices_ok check_references_def supplied_references_def
        List.map_filter_simps del: One_nat_def)
  ultimately show ?thesis by (simp add: mk_fill_event_Inr_iff)
qed

lemma demo_batch_ok:
  "validate_fill_report_batch [demo_fill 2 2, demo_fill 1 1] = Inr [demo_fill 1 1, demo_fill 2 2]"
proof -
  have "mapE mk_fill_event [demo_fill 2 2, demo_fill 1 1] = Inr [demo_fill 2 2, demo_fill 1 1]"
    by (simp add: demo_fill_ok)
  moreover have "batch_ok [demo_fill 2 2, demo_fill 1 1]" by (simp add: batch_ok_def demo_fill_def)
  moreover have "sort_key report_key [demo_fill 2 2, demo_fill 1 1] = [demo_fill 1 1, demo_fill 2 2]"
    by (simp add: report_key_def demo_fill_def)
  ultimately show ?thesis by (auto simp: validate_batch_Inr_iff)
qed

subsection \<open>Properties\<close>

text \<open>
  An accepted execution report balances: the fill is positive and at most the cumulative fill,
  cumulative and leaves quantity add up to the order quantity exactly, a FILLED report leaves
  nothing, prices are positive and commission is not negative; exactly the reference its status
  calls for is present and is not the report itself; and the report is accepted again unchanged.
\<close>

theorem fill_report_balances:
  assumes "mk_fill_event f = Inr g"
  shows "0 < fraction (oq_value (fe_quantity g))
    \<and> fraction (oq_value (fe_quantity g)) \<le> fraction (oq_value (fe_cumulative_fill_quantity g))
    \<and> fraction (oq_value (fe_cumulative_fill_quantity g)) + fraction (oq_value (fe_leaves_quantity g))
        = fraction (oq_value (fe_order_quantity g))
    \<and> 0 \<le> fraction (oq_value (fe_leaves_quantity g))
    \<and> (fe_status g = FR_FILLED \<longrightarrow> fraction (oq_value (fe_leaves_quantity g)) = 0)
    \<and> 0 < fraction (p_amount (fe_last_fill_price g)) \<and> 0 < fraction (p_amount (fe_average_fill_price g))
    \<and> 0 \<le> fraction (m_amount (fe_commission g))
    \<and> references_match g \<and> mk_fill_event g = Inr g"
  using fill_amounts_valid [OF assms] fill_references_valid [OF assms] mk_fill_event_stable [OF assms]
  by (simp add: fill_amounts_def)

theorem fill_report_balances_witness:
  "fraction (dec 20 3) + fraction (dec 20 3) = fraction (dec 40 3)
   \<and> mk_fill_event (demo_fill 1 1) = Inr (demo_fill 1 1)"
  using fill_report_balances [OF demo_fill_ok [of 1 1]] by (simp add: demo_fill_def demo_quantity_def)

text \<open>
  Validating a batch of reports does not depend on delivery order: any permutation of an
  accepted batch is accepted with the same result, which is strictly ordered by order, report
  sequence and execution and repeats no execution and no sequence of an order.
\<close>

theorem fill_batch_order_independent:
  assumes "validate_fill_report_batch rs = Inr out"
  shows "(\<forall>rs'. mset rs' = mset rs \<longrightarrow> validate_fill_report_batch rs' = Inr out)
    \<and> sorted_wrt (<) (map report_key out) \<and> distinct (map fe_execution_id out)
    \<and> distinct (map (\<lambda>r. (fe_order_id r, fe_report_sequence r)) out)
    \<and> list_all (\<lambda>r. mk_fill_event r = Inr r) out"
proof -
  from assms obtain cs where cs: "mapE mk_fill_event rs = Inr cs" "batch_ok cs" "out = sort_key report_key cs"
    by (auto simp: validate_batch_Inr_iff)
  have "sorted_wrt (<) (map report_key out)"
    using sorted_unique_sort_key [OF report_key_distinct [OF cs(2)]] cs(3) by (simp add: sorted_unique_iff)
  moreover have "batch_ok out" using cs(2) batch_ok_mset [of cs out] cs(3) by simp
  moreover have "list_all (\<lambda>r. mk_fill_event r = Inr r) out"
    using mapE_Inr_set [OF cs(1)] mk_fill_event_stable cs(3) by (fastforce simp: list_all_iff)
  moreover have "\<forall>rs'. mset rs' = mset rs \<longrightarrow> validate_fill_report_batch rs' = Inr out"
    using validate_batch_permute [OF _ assms] by simp
  ultimately show ?thesis by (simp add: batch_ok_def)
qed

theorem fill_batch_order_independent_witness:
  "validate_fill_report_batch [demo_fill 1 1, demo_fill 2 2] = Inr [demo_fill 1 1, demo_fill 2 2]"
  using fill_batch_order_independent [OF demo_batch_ok] by (simp add: add_mset_commute)

end
