(* ===== verification/Portfolio.thy ===== *)
theory Portfolio
  imports Fills
begin

section \<open>Portfolio contracts and ledger entries (packages/domain/portfolio.py, portfolio_events.py)\<close>

text \<open>
  The observed portfolio payloads (targets, balances, positions, exposures, account snapshots) and
  the eight payloads of a portfolio's accounting stream. As everywhere, a record carries the
  fields and \<open>mk_...\<close> is the model's validation: declared field constraints in field order,
  nested models re-validated, then the model validator.
\<close>

definition reject_if :: "bool \<Rightarrow> string \<Rightarrow> unit res" where
  "reject_if c m = (if c then Inl (ValueError m) else Inr ())"

lemma reject_if_Inr_iff [res_simps]: "reject_if c m = Inr u \<longleftrightarrow> \<not> c"
  by (simp add: reject_if_def)

subsection \<open>Target portfolios and plain position snapshots\<close>

record target_position =
  tp_instrument :: instrument_id
  tp_target_weight :: decimal

record target_portfolio =
  tg_target_id :: uuid
  tg_positions :: "target_position list"
  tg_source_signal_ids :: "uuid list"
  tg_effective_at :: datetime
  tg_schema_version :: string

definition valid_positions :: "target_portfolio \<Rightarrow> target_portfolio res" where
  "valid_positions t =
     (let instruments = map (\<lambda>p. canonical (tp_instrument p)) (tg_positions t)
      in
      bindE (reject_if (length instruments \<noteq> card (set instruments)) ''positions contain duplicate instruments'') (\<lambda>_.
      bindE (reject_if (length (tg_source_signal_ids t) \<noteq> card (set (tg_source_signal_ids t)))
               ''source_signal_ids contain duplicates'') (\<lambda>_.
      bindE (reject_if (1 < sum_list (map (\<lambda>p. \<bar>fraction (tp_target_weight p)\<bar>) (tg_positions t)))
               ''total absolute target weight must be <= 1'') (\<lambda>_.
      Inr t))))"

definition mk_target_portfolio :: "target_portfolio \<Rightarrow> target_portfolio res" where
  "mk_target_portfolio t =
     wrap_validation (
       bindE (require_field ''source_signal_ids'' (tg_source_signal_ids t \<noteq> [])) (\<lambda>_.
       bindE (require_utc (tg_effective_at t)) (\<lambda>_.
       bindE (require_field ''schema_version'' (tg_schema_version t \<noteq> [])) (\<lambda>_.
       valid_positions t))))"

record position_snapshot =
  ps_instrument :: instrument_id
  ps_quantity :: quantity
  ps_observed_at :: datetime
  ps_mark_price :: "price option"

definition mk_position_snapshot :: "position_snapshot \<Rightarrow> position_snapshot res" where
  "mk_position_snapshot p = wrap_validation (bindE (require_utc (ps_observed_at p)) (\<lambda>_. Inr p))"

record portfolio_snapshot =
  pf_snapshot_id :: uuid
  pf_positions :: "position_snapshot list"
  pf_observed_at :: datetime
  pf_schema_version :: string

definition mk_portfolio_snapshot :: "portfolio_snapshot \<Rightarrow> portfolio_snapshot res" where
  "mk_portfolio_snapshot s =
     wrap_validation (
       bindE (mapE mk_position_snapshot (pf_positions s)) (\<lambda>ps.
       bindE (require_utc (pf_observed_at s)) (\<lambda>_.
       bindE (require_field ''schema_version'' (pf_schema_version s \<noteq> [])) (\<lambda>_.
       let instruments = map (\<lambda>p. canonical (ps_instrument p)) ps
       in bindE (reject_if (length instruments \<noteq> card (set instruments))
                   ''positions contain duplicate instruments'') (\<lambda>_.
       Inr (s\<lparr>pf_positions := ps\<rparr>))))))"

subsection \<open>Account snapshots\<close>

definition require_money_currency :: "currency \<Rightarrow> money list \<Rightarrow> string \<Rightarrow> unit res" where
  "require_money_currency currency values currency_name =
     reject_if (list_ex (\<lambda>v. m_currency v \<noteq> currency) values)
       (''money currency must match '' @ currency_name @ '' currency'')"

record account_balance_snapshot =
  ab_account_id :: string
  ab_currency :: currency
  ab_cash :: money
  ab_locked_funds :: money
  ab_margin_used :: money
  ab_realized_pnl :: money
  ab_unrealized_pnl :: money
  ab_fees :: money
  ab_funding :: money
  ab_observed_at :: datetime
  ab_schema_version :: string

definition valid_balance :: "account_balance_snapshot \<Rightarrow> account_balance_snapshot res" where
  "valid_balance b =
     bindE (require_money_currency (ab_currency b)
              [ab_cash b, ab_locked_funds b, ab_margin_used b, ab_realized_pnl b, ab_unrealized_pnl b,
               ab_fees b, ab_funding b] ''snapshot'') (\<lambda>_.
     bindE (reject_if (dec_lt (m_amount (ab_locked_funds b)) (dec_int 0)) ''locked_funds must not be negative'') (\<lambda>_.
     bindE (reject_if (dec_lt (m_amount (ab_margin_used b)) (dec_int 0)) ''margin_used must not be negative'') (\<lambda>_.
     Inr b)))"

definition mk_account_balance_snapshot :: "account_balance_snapshot \<Rightarrow> account_balance_snapshot res" where
  "mk_account_balance_snapshot b =
     wrap_validation (
       bindE (require_field ''account_id'' (canonical_identifier (ab_account_id b))) (\<lambda>_.
       bindE (require_currency (ab_currency b)) (\<lambda>_.
       bindE (require_utc (ab_observed_at b)) (\<lambda>_.
       bindE (require_field ''schema_version'' (ab_schema_version b \<noteq> [])) (\<lambda>_.
       valid_balance b)))))"

record position_mark =
  pm_price :: price
  pm_marked_at :: datetime
  pm_provenance_id :: string

definition mk_position_mark :: "position_mark \<Rightarrow> position_mark res" where
  "mk_position_mark m =
     wrap_validation (
       bindE (require_utc (pm_marked_at m)) (\<lambda>_.
       bindE (require_field ''provenance_id'' (canonical_identifier (pm_provenance_id m))) (\<lambda>_.
       Inr m)))"

definition mk_optional :: "('a \<Rightarrow> 'a res) \<Rightarrow> 'a option \<Rightarrow> 'a option res" where
  "mk_optional mk v = (case v of None \<Rightarrow> Inr None | Some x \<Rightarrow> bindE (mk x) (\<lambda>y. Inr (Some y)))"

record account_position_snapshot =
  ap_account_id :: string
  ap_strategy_id :: string
  ap_instrument :: instrument_id
  ap_settlement_currency :: currency
  ap_quantity :: quantity
  ap_mark :: "position_mark option"
  ap_average_entry_price :: "price option"
  ap_realized_pnl :: money
  ap_unrealized_pnl :: money
  ap_fees :: money
  ap_funding :: money
  ap_observed_at :: datetime
  ap_schema_version :: string

definition valid_position :: "account_position_snapshot \<Rightarrow> account_position_snapshot res" where
  "valid_position p =
     bindE (require_money_currency (ap_settlement_currency p)
              [ap_realized_pnl p, ap_unrealized_pnl p, ap_fees p, ap_funding p] ''settlement'') (\<lambda>_.
     bindE (case ap_mark p of
              Some m \<Rightarrow>
                bindE (reject_if (p_currency (pm_price m) \<noteq> ap_settlement_currency p)
                         ''mark currency must match settlement currency'') (\<lambda>_.
                reject_if (dt_lt (ap_observed_at p) (pm_marked_at m))
                  ''mark timestamp must not be after observation'')
            | None \<Rightarrow> reject_if (\<not> is_zero (q_value (ap_quantity p))) ''non-zero position requires a mark'') (\<lambda>_.
     bindE (if \<not> is_zero (q_value (ap_quantity p))
            then (case ap_average_entry_price p of
                    None \<Rightarrow> Inl (ValueError ''non-zero position requires an average entry price'')
                  | Some a \<Rightarrow>
                      reject_if (p_currency a \<noteq> ap_settlement_currency p)
                        ''average entry price currency must match settlement currency'')
            else reject_if (ap_mark p \<noteq> None \<or> ap_average_entry_price p \<noteq> None)
                   ''zero position must not retain a mark or average entry price'') (\<lambda>_.
     Inr p)))"

definition mk_account_position_snapshot :: "account_position_snapshot \<Rightarrow> account_position_snapshot res" where
  "mk_account_position_snapshot p =
     wrap_validation (
       bindE (require_field ''account_id'' (canonical_identifier (ap_account_id p))) (\<lambda>_.
       bindE (require_field ''strategy_id'' (canonical_identifier (ap_strategy_id p))) (\<lambda>_.
       bindE (require_currency (ap_settlement_currency p)) (\<lambda>_.
       bindE (mk_optional mk_position_mark (ap_mark p)) (\<lambda>_.
       bindE (require_utc (ap_observed_at p)) (\<lambda>_.
       bindE (require_field ''schema_version'' (ap_schema_version p \<noteq> [])) (\<lambda>_.
       valid_position p)))))))"

record exposure_snapshot =
  ex_currency :: currency
  ex_gross :: money
  ex_net :: money
  ex_pending :: money

definition mk_exposure_snapshot :: "exposure_snapshot \<Rightarrow> exposure_snapshot res" where
  "mk_exposure_snapshot e =
     wrap_validation (
       bindE (require_currency (ex_currency e)) (\<lambda>_.
       bindE (reject_if (list_ex (\<lambda>v. m_currency v \<noteq> ex_currency e) [ex_gross e, ex_net e, ex_pending e])
                ''exposure money currency must match exposure currency'') (\<lambda>_.
       bindE (reject_if (dec_lt (m_amount (ex_gross e)) (dec_int 0) \<or> dec_lt (m_amount (ex_pending e)) (dec_int 0))
                ''gross and pending exposure must be non-negative'') (\<lambda>_.
       bindE (reject_if (dec_lt (m_amount (ex_gross e)) (copy_abs (m_amount (ex_net e))))
                ''gross exposure must cover absolute net exposure'') (\<lambda>_.
       Inr e)))))"

record instrument_exposure_snapshot =
  ie_instrument :: instrument_id
  ie_exposure :: exposure_snapshot

record strategy_exposure_snapshot =
  se_strategy_id :: string
  se_exposure :: exposure_snapshot

record venue_exposure_snapshot =
  ve_venue_id :: string
  ve_exposure :: exposure_snapshot

definition mk_instrument_exposure :: "instrument_exposure_snapshot \<Rightarrow> instrument_exposure_snapshot res" where
  "mk_instrument_exposure x =
     wrap_validation (bindE (mk_exposure_snapshot (ie_exposure x)) (\<lambda>_. Inr x))"

definition mk_strategy_exposure :: "strategy_exposure_snapshot \<Rightarrow> strategy_exposure_snapshot res" where
  "mk_strategy_exposure x =
     wrap_validation (
       bindE (require_field ''strategy_id'' (canonical_identifier (se_strategy_id x))) (\<lambda>_.
       bindE (mk_exposure_snapshot (se_exposure x)) (\<lambda>_. Inr x)))"

definition mk_venue_exposure :: "venue_exposure_snapshot \<Rightarrow> venue_exposure_snapshot res" where
  "mk_venue_exposure x =
     wrap_validation (
       bindE (require_field ''venue_id'' (canonical_identifier (ve_venue_id x))) (\<lambda>_.
       bindE (mk_exposure_snapshot (ve_exposure x)) (\<lambda>_. Inr x)))"

record account_portfolio_snapshot =
  as_snapshot_id :: uuid
  as_account_id :: string
  as_reporting_currency :: currency
  as_balances :: "account_balance_snapshot list"
  as_positions :: "account_position_snapshot list"
  as_total_exposure :: exposure_snapshot
  as_instrument_exposures :: "instrument_exposure_snapshot list"
  as_strategy_exposures :: "strategy_exposure_snapshot list"
  as_venue_exposures :: "venue_exposure_snapshot list"
  as_observed_at :: datetime
  as_schema_version :: string

definition reject_unsorted :: "'k::linorder list \<Rightarrow> string \<Rightarrow> string \<Rightarrow> unit res" where
  "reject_unsorted keys duplicate unordered =
     bindE (reject_if (length keys \<noteq> card (set keys)) duplicate) (\<lambda>_.
     reject_if (keys \<noteq> sort keys) unordered)"

definition position_snapshot_key :: "account_position_snapshot \<Rightarrow> string \<times> string" where
  "position_snapshot_key p = (ap_strategy_id p, canonical (ap_instrument p))"

definition valid_snapshot :: "account_portfolio_snapshot \<Rightarrow> account_portfolio_snapshot res" where
  "valid_snapshot s =
     bindE (reject_unsorted (map (\<lambda>b. cur_code (ab_currency b)) (as_balances s))
              ''duplicate balance currency'' ''balances must be ordered by currency'') (\<lambda>_.
     bindE (reject_unsorted (map position_snapshot_key (as_positions s))
              ''duplicate position key'' ''positions must be ordered by strategy and instrument'') (\<lambda>_.
     bindE (reject_unsorted (map (\<lambda>x. canonical (ie_instrument x)) (as_instrument_exposures s))
              ''duplicate instrument exposure key'' ''instrument_exposures must be ordered by instrument'') (\<lambda>_.
     bindE (reject_unsorted (map se_strategy_id (as_strategy_exposures s))
              ''duplicate strategy exposure key'' ''strategy_exposures must be ordered by strategy'') (\<lambda>_.
     bindE (reject_unsorted (map ve_venue_id (as_venue_exposures s))
              ''duplicate venue exposure key'' ''venue_exposures must be ordered by venue'') (\<lambda>_.
     bindE (reject_if (list_ex (\<lambda>b. ab_account_id b \<noteq> as_account_id s) (as_balances s))
              ''balance account must match portfolio account'') (\<lambda>_.
     bindE (reject_if (list_ex (\<lambda>p. ap_account_id p \<noteq> as_account_id s) (as_positions s))
              ''position account must match portfolio account'') (\<lambda>_.
     bindE (reject_if (list_ex (\<lambda>b. dt_lt (as_observed_at s) (ab_observed_at b)) (as_balances s))
              ''balance timestamp must not be after portfolio observation'') (\<lambda>_.
     bindE (reject_if (list_ex (\<lambda>p. dt_lt (as_observed_at s) (ap_observed_at p)) (as_positions s))
              ''position timestamp must not be after portfolio observation'') (\<lambda>_.
     bindE (reject_if (ex_currency (as_total_exposure s) \<noteq> as_reporting_currency s)
              ''total exposure currency must match reporting currency'') (\<lambda>_.
     bindE (reject_if (list_ex (\<lambda>x. ex_currency (ie_exposure x) \<noteq> as_reporting_currency s) (as_instrument_exposures s))
              ''instrument exposure currency must match reporting currency'') (\<lambda>_.
     bindE (reject_if (list_ex (\<lambda>x. ex_currency (se_exposure x) \<noteq> as_reporting_currency s) (as_strategy_exposures s))
              ''strategy exposure currency must match reporting currency'') (\<lambda>_.
     bindE (reject_if (list_ex (\<lambda>x. ex_currency (ve_exposure x) \<noteq> as_reporting_currency s) (as_venue_exposures s))
              ''venue exposure currency must match reporting currency'') (\<lambda>_.
     Inr s)))))))))))))"

definition mk_account_portfolio_snapshot ::
  "account_portfolio_snapshot \<Rightarrow> account_portfolio_snapshot res" where
  "mk_account_portfolio_snapshot s =
     wrap_validation (
       bindE (require_field ''account_id'' (canonical_identifier (as_account_id s))) (\<lambda>_.
       bindE (require_currency (as_reporting_currency s)) (\<lambda>_.
       bindE (mapE mk_account_balance_snapshot (as_balances s)) (\<lambda>_.
       bindE (mapE mk_account_position_snapshot (as_positions s)) (\<lambda>_.
       bindE (mk_exposure_snapshot (as_total_exposure s)) (\<lambda>_.
       bindE (mapE mk_instrument_exposure (as_instrument_exposures s)) (\<lambda>_.
       bindE (mapE mk_strategy_exposure (as_strategy_exposures s)) (\<lambda>_.
       bindE (mapE mk_venue_exposure (as_venue_exposures s)) (\<lambda>_.
       bindE (require_utc (as_observed_at s)) (\<lambda>_.
       bindE (require_field ''schema_version'' (as_schema_version s \<noteq> [])) (\<lambda>_.
       valid_snapshot s)))))))))))"

end
