(* ===== verification/Portfolio_Entries.thy ===== *)
theory Portfolio_Entries
  imports Portfolio
begin

section \<open>Ledger entries and event envelopes (packages/domain/portfolio_events.py, events.py)\<close>

text \<open>
  The payloads of one portfolio's accounting stream, the generic event envelope with its timeline
  and registration checks, and the batch validators over envelopes. The envelope is polymorphic in
  its payload, as in the source; what the envelope needs of a payload class (its registered event
  type and its validation) is a \<open>payload_ops\<close> record, instantiated below for the portfolio
  payloads.
\<close>

subsection \<open>Portfolio ledger entries\<close>

definition ledger_entry_fields :: "string \<Rightarrow> datetime \<Rightarrow> string \<Rightarrow> unit res" where
  "ledger_entry_fields account_id effective_at schema_version =
     bindE (require_field ''account_id'' (canonical_identifier account_id)) (\<lambda>_.
     bindE (require_utc effective_at) (\<lambda>_.
     require_field ''schema_version'' (schema_version \<noteq> [])))"

record opening_entry =
  po_account_id :: string
  po_effective_at :: datetime
  po_schema_version :: string
  po_reporting_currency :: currency
  po_balances :: "account_balance_snapshot list"
  po_source_id :: string
  po_source_revision :: string

definition valid_opening :: "opening_entry \<Rightarrow> opening_entry res" where
  "valid_opening o' =
     bindE (reject_unsorted (map (\<lambda>b. cur_code (ab_currency b)) (po_balances o'))
              ''duplicate opening balance currency'' ''opening balances must be ordered by currency'') (\<lambda>_.
     bindE (reject_if (list_ex (\<lambda>b. ab_account_id b \<noteq> po_account_id o') (po_balances o'))
              ''opening balance account must match entry account'') (\<lambda>_.
     bindE (reject_if (list_ex (\<lambda>b. dt_lt (po_effective_at o') (ab_observed_at b)) (po_balances o'))
              ''opening balance timestamp must not be after effective time'') (\<lambda>_.
     Inr o')))"

definition mk_opening_entry :: "opening_entry \<Rightarrow> opening_entry res" where
  "mk_opening_entry o' =
     wrap_validation (
       bindE (ledger_entry_fields (po_account_id o') (po_effective_at o') (po_schema_version o')) (\<lambda>_.
       bindE (require_currency (po_reporting_currency o')) (\<lambda>_.
       bindE (mapE mk_account_balance_snapshot (po_balances o')) (\<lambda>_.
       bindE (require_field ''source_id'' (po_source_id o' \<noteq> [])) (\<lambda>_.
       bindE (require_field ''source_revision'' (po_source_revision o' \<noteq> [])) (\<lambda>_.
       valid_opening o'))))))"

record observation_entry =
  pob_account_id :: string
  pob_effective_at :: datetime
  pob_schema_version :: string
  pob_currency :: currency
  pob_cash_balance :: money
  pob_fees :: money
  pob_realized_pnl :: money
  pob_unrealized_pnl :: money

definition mk_observation_entry :: "observation_entry \<Rightarrow> observation_entry res" where
  "mk_observation_entry e =
     wrap_validation (
       bindE (ledger_entry_fields (pob_account_id e) (pob_effective_at e) (pob_schema_version e)) (\<lambda>_.
       bindE (require_currency (pob_currency e)) (\<lambda>_.
       bindE (reject_if (list_ex (\<lambda>v. m_currency v \<noteq> pob_currency e)
                           [pob_cash_balance e, pob_fees e, pob_realized_pnl e, pob_unrealized_pnl e])
                ''account observation money must use one currency'') (\<lambda>_.
       Inr e))))"

record fill_entry =
  pfl_account_id :: string
  pfl_effective_at :: datetime
  pfl_schema_version :: string
  pfl_strategy_id :: string
  pfl_fill :: fill_event

definition mk_fill_entry :: "fill_entry \<Rightarrow> fill_entry res" where
  "mk_fill_entry e =
     wrap_validation (
       bindE (ledger_entry_fields (pfl_account_id e) (pfl_effective_at e) (pfl_schema_version e)) (\<lambda>_.
       bindE (require_field ''strategy_id'' (canonical_identifier (pfl_strategy_id e))) (\<lambda>_.
       bindE (mk_fill_event (pfl_fill e)) (\<lambda>f.
       Inr (e\<lparr>pfl_fill := f\<rparr>)))))"

record mark_entry =
  pmk_account_id :: string
  pmk_effective_at :: datetime
  pmk_schema_version :: string
  pmk_instrument :: instrument_id
  pmk_mark :: position_mark
  pmk_marked_at :: datetime

definition mk_mark_entry :: "mark_entry \<Rightarrow> mark_entry res" where
  "mk_mark_entry e =
     wrap_validation (
       bindE (ledger_entry_fields (pmk_account_id e) (pmk_effective_at e) (pmk_schema_version e)) (\<lambda>_.
       bindE (mk_position_mark (pmk_mark e)) (\<lambda>_.
       bindE (require_utc (pmk_marked_at e)) (\<lambda>_.
       bindE (reject_if (dt_key (pmk_marked_at e) \<noteq> dt_key (pm_marked_at (pmk_mark e)))
                ''marked_at must match mark.marked_at'') (\<lambda>_.
       Inr e)))))"

record funding_entry =
  pfn_account_id :: string
  pfn_effective_at :: datetime
  pfn_schema_version :: string
  pfn_funding_id :: uuid
  pfn_strategy_id :: "string option"
  pfn_instrument :: "instrument_id option"
  pfn_amount :: money
  pfn_provenance_id :: string

definition mk_funding_entry :: "funding_entry \<Rightarrow> funding_entry res" where
  "mk_funding_entry e =
     wrap_validation (
       bindE (ledger_entry_fields (pfn_account_id e) (pfn_effective_at e) (pfn_schema_version e)) (\<lambda>_.
       bindE (require_field ''strategy_id'' (optional_ok canonical_identifier (pfn_strategy_id e))) (\<lambda>_.
       bindE (require_field ''provenance_id'' (canonical_identifier (pfn_provenance_id e))) (\<lambda>_.
       bindE (reject_if ((pfn_strategy_id e = None) \<noteq> (pfn_instrument e = None))
                ''funding position key must provide strategy_id and instrument together'') (\<lambda>_.
       Inr e)))))"

record conversion_entry =
  pcv_account_id :: string
  pcv_effective_at :: datetime
  pcv_schema_version :: string
  pcv_conversion :: currency_conversion
  pcv_provenance_id :: string

definition mk_conversion_entry :: "conversion_entry \<Rightarrow> conversion_entry res" where
  "mk_conversion_entry e =
     wrap_validation (
       bindE (ledger_entry_fields (pcv_account_id e) (pcv_effective_at e) (pcv_schema_version e)) (\<lambda>_.
       bindE (require_field ''provenance_id'' (canonical_identifier (pcv_provenance_id e))) (\<lambda>_.
       Inr e)))"

record valuation_rate_entry =
  pvr_account_id :: string
  pvr_effective_at :: datetime
  pvr_schema_version :: string
  pvr_source_currency :: currency
  pvr_target_currency :: currency
  pvr_rate :: decimal
  pvr_quoted_at :: datetime
  pvr_provenance_id :: string

definition mk_valuation_rate_entry :: "valuation_rate_entry \<Rightarrow> valuation_rate_entry res" where
  "mk_valuation_rate_entry e =
     wrap_validation (
       bindE (ledger_entry_fields (pvr_account_id e) (pvr_effective_at e) (pvr_schema_version e)) (\<lambda>_.
       bindE (require_currency (pvr_source_currency e)) (\<lambda>_.
       bindE (require_currency (pvr_target_currency e)) (\<lambda>_.
       bindE (reject_if (dec_le (pvr_rate e) (dec_int 0)) ''valuation rate must be positive'') (\<lambda>_.
       bindE (require_utc (pvr_quoted_at e)) (\<lambda>_.
       bindE (require_field ''provenance_id'' (canonical_identifier (pvr_provenance_id e))) (\<lambda>_.
       bindE (reject_if (pvr_source_currency e = pvr_target_currency e)
                ''valuation rate currencies must differ'') (\<lambda>_.
       Inr e))))))))"

datatype portfolio_reconciliation_source = PR_VENUE | PR_DROP_COPY | PR_CLEARING

record reconciliation_entry =
  prc_account_id :: string
  prc_effective_at :: datetime
  prc_schema_version :: string
  prc_reconciliation_id :: uuid
  prc_source :: portfolio_reconciliation_source
  prc_source_revision :: string
  prc_snapshot :: account_portfolio_snapshot

definition mk_reconciliation_entry :: "reconciliation_entry \<Rightarrow> reconciliation_entry res" where
  "mk_reconciliation_entry e =
     wrap_validation (
       bindE (ledger_entry_fields (prc_account_id e) (prc_effective_at e) (prc_schema_version e)) (\<lambda>_.
       bindE (require_field ''source_revision'' (prc_source_revision e \<noteq> [])) (\<lambda>_.
       bindE (mk_account_portfolio_snapshot (prc_snapshot e)) (\<lambda>_.
       bindE (reject_if (as_account_id (prc_snapshot e) \<noteq> prc_account_id e)
                ''reconciliation snapshot account must match entry account'') (\<lambda>_.
       bindE (reject_if (dt_lt (prc_effective_at e) (as_observed_at (prc_snapshot e)))
                ''reconciliation snapshot must not be after effective time'') (\<lambda>_.
       Inr e))))))"

datatype portfolio_payload =
    OpeningEntry opening_entry
  | ObservationEntry observation_entry
  | FillEntry fill_entry
  | MarkEntry mark_entry
  | FundingEntry funding_entry
  | ConversionEntry conversion_entry
  | ValuationRateEntry valuation_rate_entry
  | ReconciliationEntry reconciliation_entry

fun portfolio_event_type :: "portfolio_payload \<Rightarrow> string" where
  "portfolio_event_type (OpeningEntry _) = ''PortfolioOpeningEntry''"
| "portfolio_event_type (ObservationEntry _) = ''PortfolioAccountObservationEntry''"
| "portfolio_event_type (FillEntry _) = ''PortfolioFillEntry''"
| "portfolio_event_type (MarkEntry _) = ''PortfolioMarkEntry''"
| "portfolio_event_type (FundingEntry _) = ''PortfolioFundingEntry''"
| "portfolio_event_type (ConversionEntry _) = ''PortfolioConversionEntry''"
| "portfolio_event_type (ValuationRateEntry _) = ''PortfolioValuationRateEntry''"
| "portfolio_event_type (ReconciliationEntry _) = ''PortfolioReconciliationEntry''"

definition lift_payload :: "('a \<Rightarrow> portfolio_payload) \<Rightarrow> 'a res \<Rightarrow> portfolio_payload res" where
  "lift_payload c m = bindE m (\<lambda>x. Inr (c x))"

fun validate_portfolio_payload :: "portfolio_payload \<Rightarrow> portfolio_payload res" where
  "validate_portfolio_payload (OpeningEntry e) = lift_payload OpeningEntry (mk_opening_entry e)"
| "validate_portfolio_payload (ObservationEntry e) = lift_payload ObservationEntry (mk_observation_entry e)"
| "validate_portfolio_payload (FillEntry e) = lift_payload FillEntry (mk_fill_entry e)"
| "validate_portfolio_payload (MarkEntry e) = lift_payload MarkEntry (mk_mark_entry e)"
| "validate_portfolio_payload (FundingEntry e) = lift_payload FundingEntry (mk_funding_entry e)"
| "validate_portfolio_payload (ConversionEntry e) = lift_payload ConversionEntry (mk_conversion_entry e)"
| "validate_portfolio_payload (ValuationRateEntry e) = lift_payload ValuationRateEntry (mk_valuation_rate_entry e)"
| "validate_portfolio_payload (ReconciliationEntry e) = lift_payload ReconciliationEntry (mk_reconciliation_entry e)"

subsection \<open>Event envelopes\<close>

record 'p payload_ops =
  po_event_type :: "'p \<Rightarrow> string"
  po_validate :: "'p \<Rightarrow> 'p res"
  po_fill_report :: "'p \<Rightarrow> fill_event option"

definition portfolio_payload_ops :: "portfolio_payload payload_ops" where
  "portfolio_payload_ops =
     \<lparr>po_event_type = portfolio_event_type, po_validate = validate_portfolio_payload,
      po_fill_report = (\<lambda>_. None)\<rparr>"

record 'p event_envelope =
  ev_event_id :: uuid
  ev_event_type :: string
  ev_schema_version :: string
  ev_source :: string
  ev_stream_id :: uuid
  ev_sequence :: int
  ev_observed_at :: datetime
  ev_ingested_at :: datetime
  ev_produced_at :: datetime
  ev_effective_at :: datetime
  ev_expires_at :: datetime
  ev_correlation_id :: uuid
  ev_causation_id :: uuid
  ev_trace_id :: uuid
  ev_payload :: 'p

definition valid_timeline :: "'p payload_ops \<Rightarrow> 'p event_envelope \<Rightarrow> 'p event_envelope res" where
  "valid_timeline ops e =
     bindE (reject_if (dt_lt (ev_ingested_at e) (ev_observed_at e))
              ''observed_at must not be after ingested_at'') (\<lambda>_.
     bindE (reject_if (dt_lt (ev_produced_at e) (ev_ingested_at e))
              ''ingested_at must not be after produced_at'') (\<lambda>_.
     bindE (reject_if (dt_le (ev_expires_at e) (ev_effective_at e))
              ''expires_at must be after effective_at'') (\<lambda>_.
     let expected = po_event_type ops (ev_payload e)
     in bindE (reject_if (ev_event_type e \<noteq> expected)
                 (''event_type must be '' @ expected @ '' for '' @ expected @ '' payload'')) (\<lambda>_.
     Inr e))))"

definition mk_event_envelope :: "'p payload_ops \<Rightarrow> 'p event_envelope \<Rightarrow> 'p event_envelope res" where
  "mk_event_envelope ops e =
     wrap_validation (
       bindE (require_field ''event_type'' (ev_event_type e \<noteq> [])) (\<lambda>_.
       bindE (require_field ''schema_version'' (ev_schema_version e \<noteq> [])) (\<lambda>_.
       bindE (require_field ''source'' (ev_source e \<noteq> [])) (\<lambda>_.
       bindE (require_field ''sequence'' (0 < ev_sequence e)) (\<lambda>_.
       bindE (require_utc (ev_observed_at e)) (\<lambda>_.
       bindE (require_utc (ev_ingested_at e)) (\<lambda>_.
       bindE (require_utc (ev_produced_at e)) (\<lambda>_.
       bindE (require_utc (ev_effective_at e)) (\<lambda>_.
       bindE (require_utc (ev_expires_at e)) (\<lambda>_.
       bindE (po_validate ops (ev_payload e)) (\<lambda>p.
       valid_timeline ops (e\<lparr>ev_payload := p\<rparr>))))))))))))"

definition canonical_event_envelope :: "'p payload_ops \<Rightarrow> 'p event_envelope \<Rightarrow> 'p event_envelope res" where
  "canonical_event_envelope ops e =
     catch_value_error (mk_event_envelope ops e) (ValueError ''invalid event envelope'')"

record report_scan =
  rs_reports :: "fill_event list"
  rs_seen_event_ids :: "uuid list"

definition report_scan_step :: "'p payload_ops \<Rightarrow> report_scan \<Rightarrow> 'p event_envelope \<Rightarrow> report_scan res" where
  "report_scan_step ops acc event =
     (if ev_event_type event \<noteq> ''FillEvent'' \<and> po_fill_report ops (ev_payload event) = None then Inr acc
      else
        bindE (canonical_event_envelope ops event) (\<lambda>c.
        if ev_event_id c \<in> set (rs_seen_event_ids acc) then Inr acc
        else case po_fill_report ops (ev_payload c) of
               None \<Rightarrow> Inl (ValueError ''FillEvent envelope must carry a concrete FillEvent'')
             | Some f \<Rightarrow>
                 Inr \<lparr>rs_reports = rs_reports acc @ [f],
                      rs_seen_event_ids = rs_seen_event_ids acc @ [ev_event_id c]\<rparr>))"

definition validate_execution_report_events ::
  "'p payload_ops \<Rightarrow> 'p event_envelope list \<Rightarrow> 'p event_envelope list res" where
  "validate_execution_report_events ops batch =
     bindE (foldE (report_scan_step ops) \<lparr>rs_reports = [], rs_seen_event_ids = []\<rparr> batch) (\<lambda>acc.
     bindE (validate_fill_report_batch (rs_reports acc)) (\<lambda>_.
     Inr batch))"

record batch_scan =
  bs_event_ids :: "uuid list"
  bs_last_sequence :: "(uuid \<times> int) list"

definition batch_scan_step :: "batch_scan \<Rightarrow> 'p event_envelope \<Rightarrow> batch_scan res" where
  "batch_scan_step acc event =
     (if ev_event_id event \<in> set (bs_event_ids acc)
      then Inl (ValueError (''duplicate event_id: '' @ uuid_text (ev_event_id event)))
      else
        let next' = \<lparr>bs_event_ids = bs_event_ids acc @ [ev_event_id event],
                     bs_last_sequence = dict_put (ev_stream_id event) (ev_sequence event) (bs_last_sequence acc)\<rparr>
        in case map_of (bs_last_sequence acc) (ev_stream_id event) of
             Some previous \<Rightarrow>
               if ev_sequence event \<le> previous
               then Inl (ValueError
                      (''non-increasing sequence for stream_id '' @ uuid_text (ev_stream_id event) @ '': ''
                       @ map digit_char (as_digits (nat (ev_sequence event))) @ '' after ''
                       @ map digit_char (as_digits (nat previous))))
               else Inr next'
           | None \<Rightarrow> Inr next')"

definition validate_event_batch ::
  "'p payload_ops \<Rightarrow> 'p event_envelope list \<Rightarrow> 'p event_envelope list res" where
  "validate_event_batch ops events =
     bindE (mapE (canonical_event_envelope ops) events) (\<lambda>batch.
     bindE (validate_execution_report_events ops batch) (\<lambda>_.
     bindE (foldE batch_scan_step \<lparr>bs_event_ids = [], bs_last_sequence = []\<rparr> batch) (\<lambda>_.
     Inr batch)))"

subsection \<open>Validation is stable\<close>

lemma mk_identity:
  "mk_account_balance_snapshot b = Inr b' \<Longrightarrow> b' = b"
  "mk_opening_entry o' = Inr o'' \<Longrightarrow> o'' = o'"
  "mk_observation_entry ob = Inr ob' \<Longrightarrow> ob' = ob"
  "mk_mark_entry m = Inr m' \<Longrightarrow> m' = m"
  "mk_funding_entry fu = Inr fu' \<Longrightarrow> fu' = fu"
  "mk_conversion_entry c = Inr c' \<Longrightarrow> c' = c"
  "mk_valuation_rate_entry v = Inr v' \<Longrightarrow> v' = v"
  "mk_reconciliation_entry r = Inr r' \<Longrightarrow> r' = r"
  by (auto simp: res_simps mk_account_balance_snapshot_def valid_balance_def mk_opening_entry_def
      valid_opening_def mk_observation_entry_def mk_mark_entry_def mk_funding_entry_def
      mk_conversion_entry_def mk_valuation_rate_entry_def mk_reconciliation_entry_def)

lemma mk_entry_stable:
  "mk_opening_entry o' = Inr o'' \<Longrightarrow> mk_opening_entry o'' = Inr o''"
  "mk_observation_entry ob = Inr ob' \<Longrightarrow> mk_observation_entry ob' = Inr ob'"
  "mk_mark_entry m = Inr m' \<Longrightarrow> mk_mark_entry m' = Inr m'"
  "mk_funding_entry fu = Inr fu' \<Longrightarrow> mk_funding_entry fu' = Inr fu'"
  "mk_conversion_entry c = Inr c' \<Longrightarrow> mk_conversion_entry c' = Inr c'"
  "mk_valuation_rate_entry v = Inr v' \<Longrightarrow> mk_valuation_rate_entry v' = Inr v'"
  "mk_reconciliation_entry r = Inr r' \<Longrightarrow> mk_reconciliation_entry r' = Inr r'"
  by (frule mk_identity; simp)+

lemma validate_portfolio_payload_stable:
  "validate_portfolio_payload p = Inr q \<Longrightarrow> validate_portfolio_payload q = Inr q"
proof (cases p)
  case (FillEntry e)
  assume "validate_portfolio_payload p = Inr q"
  with FillEntry obtain f where f: "mk_fill_event (pfl_fill e) = Inr f" "q = FillEntry (e\<lparr>pfl_fill := f\<rparr>)"
    and r: "ledger_entry_fields (pfl_account_id e) (pfl_effective_at e) (pfl_schema_version e) = Inr ()"
      "canonical_identifier (pfl_strategy_id e)"
    by (auto simp: lift_payload_def mk_fill_entry_def res_simps)
  with mk_fill_event_stable [OF f(1)] show "validate_portfolio_payload q = Inr q"
    by (simp add: lift_payload_def mk_fill_entry_def require_field_def)
qed (auto simp: lift_payload_def res_simps intro: mk_entry_stable)

lemma portfolio_event_type_validate:
  "validate_portfolio_payload p = Inr q \<Longrightarrow> portfolio_event_type q = portfolio_event_type p"
  by (cases p) (auto simp: lift_payload_def res_simps)

lemma mk_event_envelope_Inr_iff:
  "mk_event_envelope ops e = Inr e' \<longleftrightarrow>
     ev_event_type e \<noteq> [] \<and> ev_schema_version e \<noteq> [] \<and> ev_source e \<noteq> [] \<and> 0 < ev_sequence e
     \<and> list_all (\<lambda>d. dt_utcoffset d = Some 0)
         [ev_observed_at e, ev_ingested_at e, ev_produced_at e, ev_effective_at e, ev_expires_at e]
     \<and> dt_le (ev_observed_at e) (ev_ingested_at e) \<and> dt_le (ev_ingested_at e) (ev_produced_at e)
     \<and> dt_lt (ev_effective_at e) (ev_expires_at e)
     \<and> (\<exists>p. po_validate ops (ev_payload e) = Inr p \<and> ev_event_type e = po_event_type ops p
          \<and> e' = e\<lparr>ev_payload := p\<rparr>)"
  by (auto simp: mk_event_envelope_def valid_timeline_def Let_def res_simps dt_lt_iff_not_le)

lemma mk_event_envelope_stable:
  assumes "\<And>p q. po_validate ops p = Inr q \<Longrightarrow> po_validate ops q = Inr q"
    and "mk_event_envelope ops e = Inr e'"
  shows "mk_event_envelope ops e' = Inr e'"
  using assms by (auto simp: mk_event_envelope_Inr_iff)

subsection \<open>Accepted batches\<close>

lemma batch_scan_step_Inr_iff:
  "batch_scan_step acc e = Inr acc' \<longleftrightarrow>
     ev_event_id e \<notin> set (bs_event_ids acc)
     \<and> (\<forall>n. map_of (bs_last_sequence acc) (ev_stream_id e) = Some n \<longrightarrow> n < ev_sequence e)
     \<and> acc' = \<lparr>bs_event_ids = bs_event_ids acc @ [ev_event_id e],
              bs_last_sequence = dict_put (ev_stream_id e) (ev_sequence e) (bs_last_sequence acc)\<rparr>"
  by (auto simp: batch_scan_step_def Let_def split: option.splits)

lemma batch_scan_fold:
  assumes "foldE batch_scan_step acc es = Inr acc'"
  shows "distinct (map ev_event_id es) \<and> set (map ev_event_id es) \<inter> set (bs_event_ids acc) = {}
    \<and> bs_event_ids acc' = bs_event_ids acc @ map ev_event_id es
    \<and> (\<forall>s. sorted_wrt (<) (map ev_sequence (filter (\<lambda>e. ev_stream_id e = s) es))
         \<and> (\<forall>n. map_of (bs_last_sequence acc) s = Some n \<longrightarrow>
              list_all (\<lambda>e. n < ev_sequence e) (filter (\<lambda>e. ev_stream_id e = s) es)))"
  using assms
proof (induction es arbitrary: acc)
  case Nil
  then show ?case by simp
next
  case (Cons e es)
  define nxt where "nxt = \<lparr>bs_event_ids = bs_event_ids acc @ [ev_event_id e],
    bs_last_sequence = dict_put (ev_stream_id e) (ev_sequence e) (bs_last_sequence acc)\<rparr>"
  from Cons.prems have fresh: "ev_event_id e \<notin> set (bs_event_ids acc)"
    and later: "\<And>n. map_of (bs_last_sequence acc) (ev_stream_id e) = Some n \<Longrightarrow> n < ev_sequence e"
    and rest: "foldE batch_scan_step nxt es = Inr acc'"
    by (auto simp: batch_scan_step_Inr_iff bindE_Inr_iff nxt_def)
  note IH = Cons.IH [OF rest]
  have ids: "bs_event_ids nxt = bs_event_ids acc @ [ev_event_id e]" by (simp add: nxt_def)
  have seqs: "map_of (bs_last_sequence nxt) s
      = (if s = ev_stream_id e then Some (ev_sequence e) else map_of (bs_last_sequence acc) s)" for s
    by (simp add: nxt_def dict_put_get)
  have stream: "sorted_wrt (<) (map ev_sequence (filter (\<lambda>e. ev_stream_id e = s) (e # es)))
      \<and> (\<forall>n. map_of (bs_last_sequence acc) s = Some n \<longrightarrow>
           list_all (\<lambda>e. n < ev_sequence e) (filter (\<lambda>e. ev_stream_id e = s) (e # es)))" for s
  proof (cases "s = ev_stream_id e")
    case True
    have above: "list_all (\<lambda>x. ev_sequence e < ev_sequence x) (filter (\<lambda>x. ev_stream_id x = s) es)"
      and sorted: "sorted_wrt (<) (map ev_sequence (filter (\<lambda>e. ev_stream_id e = s) es))"
      using IH True by (simp_all add: seqs)
    have "list_all (\<lambda>x. n < ev_sequence x) (filter (\<lambda>x. ev_stream_id x = s) es)"
      if "map_of (bs_last_sequence acc) s = Some n" for n
      using above later [of n] that True by (auto simp: list_all_iff dest: order.strict_trans)
    with above sorted later True show ?thesis by (simp add: list_all_iff)
  next
    case False
    then show ?thesis using IH by (simp add: seqs)
  qed
  show ?case using IH fresh stream by (auto simp: ids)
qed

lemma validate_event_batch_Inr:
  assumes "validate_event_batch ops events = Inr batch"
  shows "mapE (canonical_event_envelope ops) events = Inr batch"
    and "distinct (map ev_event_id batch)"
    and "sorted_wrt (<) (map ev_sequence (filter (\<lambda>e. ev_stream_id e = s) batch))"
proof -
  from assms obtain acc where m: "mapE (canonical_event_envelope ops) events = Inr batch"
    and f: "foldE batch_scan_step \<lparr>bs_event_ids = [], bs_last_sequence = []\<rparr> batch = Inr acc"
    by (auto simp: validate_event_batch_def res_simps)
  show "mapE (canonical_event_envelope ops) events = Inr batch" by (fact m)
  show "distinct (map ev_event_id batch)"
    "sorted_wrt (<) (map ev_sequence (filter (\<lambda>e. ev_stream_id e = s) batch))"
    using batch_scan_fold [OF f] by auto
qed

end
