(* ===== verification/Exact_Accounting.thy ===== *)
theory Exact_Accounting
  imports Portfolio_Entries
begin

section \<open>Exact arithmetic of the portfolio reducer (packages/portfolio_reducer/reducer.py, lines 53-123, 348-457)\<close>

text \<open>
  The reducer computes on fractions and converts to decimals only through \<open>_decimal\<close>, which
  refuses a value without a finite decimal expansion, and \<open>_rounded_decimal\<close>, which rounds half
  to even at a currency's precision. On these rest the per-fill accounting functions: cost basis,
  realised result and cash deltas. The interpreter's configurable limit on the length of integer
  texts is not modelled.
\<close>

subsection \<open>Conversion to decimals\<close>

fun factor_out :: "nat \<Rightarrow> nat \<Rightarrow> nat \<Rightarrow> nat \<times> nat" where
  "factor_out p denominator found =
     (if 1 < p \<and> 0 < denominator \<and> denominator mod p = 0
      then factor_out p (denominator div p) (found + 1)
      else (denominator, found))"

declare factor_out.simps [simp del]

definition to_decimal :: "rat \<Rightarrow> string \<Rightarrow> decimal res" where
  "to_decimal value field =
     (let (numer, denom) = quotient_of value;
          (denominator, twos) = factor_out 2 (nat denom) 0;
          (denominator, fives) = factor_out 5 denominator 0
      in if denominator \<noteq> 1
         then Inl (PortfolioReplayError (field @ '' cannot be represented exactly as a Decimal''))
         else
           let scale = max twos fives;
               numerator = numer * 2 ^ (scale - twos) * 5 ^ (scale - fives)
           in decimal_from_tuple (numerator < 0) (as_digits (nat \<bar>numerator\<bar>)) (- int scale))"

definition rounded_decimal :: "rat \<Rightarrow> int \<Rightarrow> string \<Rightarrow> decimal res" where
  "rounded_decimal value precision field =
     (let scale = 10 ^ nat precision :: int;
          scaled = value * of_int scale;
          (numer, denom) = quotient_of scaled;
          q = \<bar>numer\<bar> div denom;
          remainder = \<bar>numer\<bar> mod denom;
          doubled = remainder * 2;
          q = (if doubled > denom \<or> (doubled = denom \<and> q mod 2 \<noteq> 0) then q + 1 else q)
      in to_decimal (of_int ((if scaled < 0 then - 1 else 1) * q) / of_int scale) field)"

definition negated :: "decimal \<Rightarrow> decimal" where
  "negated value = (if \<not> is_zero value then copy_negate value else value)"

definition sum_decimals :: "decimal list \<Rightarrow> string \<Rightarrow> decimal res" where
  "sum_decimals values field = to_decimal (sum_list (map fraction values)) field"

definition product_decimals :: "decimal list \<Rightarrow> string \<Rightarrow> decimal res" where
  "product_decimals values field = to_decimal (foldl (\<lambda>r v. r * fraction v) 1 values) field"

definition replay_money :: "decimal \<Rightarrow> currency \<Rightarrow> string \<Rightarrow> money res" where
  "replay_money amount currency field =
     catch_value_error (mk_money (PyDecimal amount) currency)
       (PortfolioReplayError (field @ '' is not exact at currency precision''))"

definition replay_quantity :: "decimal \<Rightarrow> int \<Rightarrow> quantity res" where
  "replay_quantity amount precision =
     catch_value_error (mk_quantity (PyDecimal amount) precision)
       (PortfolioReplayError ''position quantity is not exact'')"

subsection \<open>Per-fill accounting\<close>

definition signed_fill_fraction :: "fill_event \<Rightarrow> rat" where
  "signed_fill_fraction fill =
     (let signed = fraction (oq_value (fe_quantity fill))
      in if fe_side fill = SELL then - signed else signed)"

definition cash_deltas :: "fill_event \<Rightarrow> money list res" where
  "cash_deltas fill =
     (let d = fe_instrument_definition fill;
          gross = fraction (oq_value (fe_quantity fill)) * fraction (p_amount (fe_last_fill_price fill))
                  * fraction (id_multiplier d);
          trade_delta = (if fe_side fill = BUY then - gross else gross);
          by_currency = [(id_settlement_currency d, trade_delta)];
          commission_currency = m_currency (fe_commission fill);
          by_currency = dict_put commission_currency
            ((case map_of by_currency commission_currency of None \<Rightarrow> 0 | Some x \<Rightarrow> x)
             - fraction (m_amount (fe_commission fill))) by_currency
      in mapE (\<lambda>(currency, amount).
                bindE (rounded_decimal amount (cur_precision currency) ''cash delta'') (\<lambda>a.
                replay_money a currency ''cash delta''))
           (filter (\<lambda>(_, amount). amount \<noteq> 0) (sort_key (\<lambda>(c, _). cur_code c) by_currency)))"

definition advanced_cost_basis :: "rat \<Rightarrow> rat \<Rightarrow> fill_event \<Rightarrow> rat \<times> rat" where
  "advanced_cost_basis current basis fill =
     (let signed_fill = signed_fill_fraction fill;
          price = fraction (p_amount (fe_last_fill_price fill));
          residual = current + signed_fill;
          fill_basis = \<bar>signed_fill\<bar> * price
      in if residual = 0 then (residual, 0)
         else if current = 0 \<or> current * residual < 0 then (residual, \<bar>residual\<bar> * price)
         else if current * signed_fill > 0 then (residual, basis + fill_basis)
         else (residual, basis * \<bar>residual\<bar> / \<bar>current\<bar>))"

definition realized_for_fill :: "fill_event \<Rightarrow> rat \<Rightarrow> rat \<Rightarrow> rat" where
  "realized_for_fill fill current basis_before =
     (let signed_fill = signed_fill_fraction fill;
          closed = min \<bar>current\<bar> \<bar>signed_fill\<bar>;
          multiplier = fraction (id_multiplier (fe_instrument_definition fill));
          price = fraction (p_amount (fe_last_fill_price fill))
      in if current > 0 \<and> signed_fill < 0
         then (price - basis_before / \<bar>current\<bar>) * closed * multiplier
         else if current < 0 \<and> signed_fill > 0
         then (basis_before / \<bar>current\<bar> - price) * closed * multiplier
         else 0)"


subsection \<open>Finite decimal expansions\<close>

lemma factor_out_spec:
  assumes "1 < p" "0 < d" "factor_out p d n = (d', m)"
  shows "n \<le> m \<and> d = d' * p ^ (m - n) \<and> \<not> p dvd d' \<and> 0 < d'"
  using assms
proof (induction p d n arbitrary: d' m rule: factor_out.induct)
  case (1 p d n)
  show ?case
  proof (cases "d mod p = 0")
    case True
    have rec: "factor_out p (d div p) (n + 1) = (d', m)"
      using 1 True by (simp add: factor_out.simps [of p d])
    have pos: "0 < d div p" using 1 True by (auto simp: div_greater_zero_iff dvd_imp_le)
    have cond: "1 < p \<and> 0 < d \<and> d mod p = 0" using 1 True by simp
    from "1.IH" [OF cond "1.prems"(1) pos rec]
    have IH: "n + 1 \<le> m" "d div p = d' * p ^ (m - (n + 1))" "\<not> p dvd d'" "0 < d'" by blast+
    have "m - n = Suc (m - (n + 1))" using IH(1) by simp
    then have "d' * p ^ (m - n) = (d div p) * p" using IH(2) by simp
    moreover have "(d div p) * p = d" using True by (simp add: mult.commute dvd_mult_div_cancel mod_eq_0_iff_dvd)
    ultimately show ?thesis using IH by simp
  next
    case False
    with 1 show ?thesis by (auto simp: factor_out.simps [of p d])
  qed
qed

definition finite_expansion :: "rat \<Rightarrow> bool" where
  "finite_expansion r = (\<exists>k (n::int). r * 10 ^ k = of_int n)"

lemma quotient_of_pos: "quotient_of r = (a, b) \<Longrightarrow> 0 < b" by (rule quotient_of_denom_pos)

lemma to_decimal_parts:
  assumes "quotient_of r = (a, b)" "factor_out 2 (nat b) 0 = (d1, t)" "factor_out 5 d1 0 = (d2, f)"
  shows "nat b = d2 * 2 ^ t * 5 ^ f" and "\<not> 5 dvd d2" and "\<not> 2 dvd d2" and "0 < d2"
proof -
  have b: "0 < nat b" using quotient_of_pos [OF assms(1)] by simp
  from factor_out_spec [OF _ b assms(2)] have 1: "nat b = d1 * 2 ^ t" "\<not> 2 dvd d1" "0 < d1" by auto
  from factor_out_spec [OF _ 1(3) assms(3)] have 2: "d1 = d2 * 5 ^ f" "\<not> 5 dvd d2" "0 < d2" by auto
  show "nat b = d2 * 2 ^ t * 5 ^ f" using 1 2 by simp
  show "\<not> 5 dvd d2" "0 < d2" by (fact 2)+
  show "\<not> 2 dvd d2" using 1(2) 2(1) by auto
qed

lemma ten_power_split:
  "(10::rat) ^ max t f = 2 ^ t * 5 ^ f * (2 ^ (max t f - t) * 5 ^ (max t f - f))"
proof -
  have "(10::rat) ^ max t f = 2 ^ max t f * 5 ^ max t f" by (simp flip: power_mult_distrib)
  also have "\<dots> = (2 ^ t * 2 ^ (max t f - t)) * (5 ^ f * 5 ^ (max t f - f))" by (simp flip: power_add)
  finally show ?thesis by simp
qed

lemma to_decimal_fraction:
  assumes "to_decimal r fld = Inr d"
  shows "fraction d = r"
proof -
  obtain a b where q: "quotient_of r = (a, b)" by fastforce
  obtain d1 t where f1: "factor_out 2 (nat b) 0 = (d1, t)" by fastforce
  obtain d2 f where f2: "factor_out 5 d1 0 = (d2, f)" by fastforce
  let ?s = "max t f"
  let ?n = "a * 2 ^ (?s - t) * 5 ^ (?s - f)"
  from assms have d2: "d2 = 1" and c: "decimal_from_tuple (?n < 0) (as_digits (nat \<bar>?n\<bar>)) (- int ?s) = Inr d"
    unfolding to_decimal_def q f1 f2 prod.case Let_def by (auto split: if_splits)
  have b: "of_int b = (2 ^ t * 5 ^ f :: rat)"
  proof -
    have "nat b = 2 ^ t * 5 ^ f" using to_decimal_parts(1) [OF q f1 f2] d2 by simp
    then have "int (nat b) = int (2 ^ t * 5 ^ f)" by simp
    then have "b = 2 ^ t * 5 ^ f" using quotient_of_pos [OF q] by simp
    then show ?thesis by simp
  qed
  have "fraction d = of_int ?n / 10 ^ ?s"
    using decimal_from_tuple_fraction [OF c]
    by (auto simp: apply_sign_def power_int_minus divide_inverse abs_if nat_0_le of_nat_nat split: if_splits)
  also have "\<dots> = of_int a * (2 ^ (?s - t) * 5 ^ (?s - f)) / 10 ^ ?s" by simp
  also have "\<dots> = of_int a / of_int b" unfolding ten_power_split [of t f] b by (simp add: field_simps)
  also have "\<dots> = r" using quotient_of_div [OF q] by simp
  finally show ?thesis .
qed

lemma finite_expansion_iff:
  assumes "quotient_of r = (a, b)" "factor_out 2 (nat b) 0 = (d1, t)" "factor_out 5 d1 0 = (d2, f)"
  shows "finite_expansion r \<longleftrightarrow> d2 = 1"
proof
  note parts = to_decimal_parts [OF assms]
  have r: "r = of_int a / of_int b" using quotient_of_div [OF assms(1)] .
  have b: "0 < b" using quotient_of_pos [OF assms(1)] .
  have bb: "b = int d2 * 2 ^ t * 5 ^ f"
    using parts(1) b by (metis int_nat_eq of_nat_mult of_nat_numeral of_nat_power order.strict_implies_order)
  show "d2 = 1" if "finite_expansion r"
  proof -
    from that obtain k and n :: int where "r * 10 ^ k = of_int n" by (auto simp: finite_expansion_def)
    then have "(of_int (a * 10 ^ k) :: rat) = of_int (n * b)" using b by (simp add: r field_simps)
    then have "a * 10 ^ k = n * b" by (simp only: of_int_eq_iff)
    then have "b dvd a * 10 ^ k" by simp
    then have "b dvd 10 ^ k"
      using quotient_of_coprime [OF assms(1)] by (simp add: coprime_commute coprime_dvd_mult_right_iff)
    moreover have "int d2 dvd b" unfolding bb by simp
    ultimately have "int d2 dvd int (10 ^ k)" using dvd_trans by fastforce
    then have dvd: "d2 dvd 10 ^ k" by (simp only: of_nat_dvd_iff)
    have "coprime d2 2" "coprime d2 5"
      using parts(2,3) coprime_5_iff [of d2] by (simp_all add: coprime_right_2_iff_odd)
    then have "coprime d2 (2 * 5)" by (simp only: coprime_mult_right_iff)
    then have "coprime d2 (10 ^ k)" by simp
    from coprime_common_divisor [OF this dvd_refl dvd] show ?thesis by simp
  qed
  show "finite_expansion r" if "d2 = 1"
  proof -
    let ?s = "max t f"
    have "r * 10 ^ ?s = of_int (a * (2 ^ (?s - t) * 5 ^ (?s - f)))"
      using that b bb unfolding ten_power_split [of t f] by (simp add: r)
    then show ?thesis unfolding finite_expansion_def by blast
  qed
qed

lemma to_decimal_refuses_iff:
  "(\<exists>m. to_decimal r fld = Inl (PortfolioReplayError m)) \<longleftrightarrow> \<not> finite_expansion r"
proof -
  obtain a b where q: "quotient_of r = (a, b)" by fastforce
  obtain d1 t where f1: "factor_out 2 (nat b) 0 = (d1, t)" by fastforce
  obtain d2 f where f2: "factor_out 5 d1 0 = (d2, f)" by fastforce
  show ?thesis
    unfolding finite_expansion_iff [OF q f1 f2] to_decimal_def q f1 f2 prod.case Let_def
    by (auto simp: decimal_from_tuple_def Let_def split: if_splits)
qed

subsection \<open>Rounding half to even\<close>

definition round_half_even :: "rat \<Rightarrow> int" where
  "round_half_even x =
     (let (numer, denom) = quotient_of x;
          q = \<bar>numer\<bar> div denom;
          r = \<bar>numer\<bar> mod denom;
          q = (if r * 2 > denom \<or> (r * 2 = denom \<and> q mod 2 \<noteq> 0) then q + 1 else q)
      in (if x < 0 then - 1 else 1) * q)"

lemma rounded_decimal_eq:
  "rounded_decimal v p fld = to_decimal (of_int (round_half_even (v * 10 ^ nat p)) / 10 ^ nat p) fld"
  by (simp add: rounded_decimal_def round_half_even_def Let_def split: prod.splits)

text \<open>The rounded integer is the nearest one, and the even one of two nearest.\<close>

definition nearest_even :: "int \<Rightarrow> rat \<Rightarrow> bool" where
  "nearest_even n x = (2 * \<bar>of_int n - x\<bar> < 1 \<or> (2 * \<bar>of_int n - x\<bar> = 1 \<and> even n))"

lemma nearest_even_unique:
  assumes "nearest_even m x" "nearest_even n x" shows "m = n"
proof (rule ccontr)
  assume "m \<noteq> n"
  then have "1 \<le> \<bar>m - n\<bar>" by linarith
  then have ge: "(1::rat) \<le> \<bar>of_int m - of_int n\<bar>" by (metis of_int_1_le_iff of_int_abs of_int_diff)
  have tri: "\<bar>of_int m - of_int n\<bar> \<le> \<bar>of_int m - x\<bar> + \<bar>of_int n - x\<bar>" by linarith
  have "2 * \<bar>of_int m - x\<bar> \<le> 1" "2 * \<bar>of_int n - x\<bar> \<le> 1" using assms by (auto simp: nearest_even_def)
  with ge tri have half: "2 * \<bar>of_int m - x\<bar> = 1 \<and> 2 * \<bar>of_int n - x\<bar> = 1"
    and one: "\<bar>of_int m - (of_int n :: rat)\<bar> = 1" by auto
  have "even m" "even n" using half assms by (auto simp: nearest_even_def)
  moreover have "\<bar>m - n\<bar> = 1" using one by (metis of_int_1 of_int_abs of_int_diff of_int_eq_iff)
  ultimately show False by presburger
qed

lemma nearest_even_abs: "nearest_even n \<bar>x\<bar> \<Longrightarrow> nearest_even ((if x < 0 then - 1 else 1) * n) x"
  by (auto simp: nearest_even_def abs_if split: if_splits)

lemma half_even_step:
  fixes b r q :: int
  assumes "0 < b" "0 \<le> r" "r < b"
  shows "nearest_even (if r * 2 > b \<or> (r * 2 = b \<and> q mod 2 \<noteq> 0) then q + 1 else q)
    (of_int q + of_int r / of_int b)"
proof (cases "r * 2 > b \<or> (r * 2 = b \<and> q mod 2 \<noteq> 0)")
  case True
  have "of_int (q + 1) - (of_int q + of_int r / of_int b) = (of_int (b - r) / of_int b :: rat)"
    using assms by (simp add: diff_divide_distrib)
  moreover have "0 \<le> (of_int (b - r) / of_int b :: rat)"
    using assms by (intro divide_nonneg_nonneg) (simp_all only: of_int_0_le_iff)
  ultimately have "\<bar>of_int (q + 1) - (of_int q + of_int r / of_int b)\<bar> = (of_int (b - r) / of_int b :: rat)"
    by (simp only: abs_of_nonneg)
  then have "2 * \<bar>of_int (q + 1) - (of_int q + of_int r / of_int b)\<bar> = (of_int (2 * (b - r)) / of_int b :: rat)"
    by simp
  moreover have "2 * (b - r) < b \<or> (2 * (b - r) = b \<and> even (q + 1))"
    using True by (auto simp: even_iff_mod_2_eq_zero) presburger+
  ultimately show ?thesis using True assms by (auto simp: nearest_even_def divide_less_eq)
next
  case False
  have "2 * \<bar>of_int q - (of_int q + of_int r / of_int b)\<bar> = (of_int (2 * r) / of_int b :: rat)"
    using assms by simp
  moreover have "2 * r < b \<or> (2 * r = b \<and> even q)" using False by (auto simp: even_iff_mod_2_eq_zero)
  ultimately show ?thesis using False assms by (auto simp: nearest_even_def divide_less_eq)
qed

lemma round_half_even_nearest: "nearest_even (round_half_even x) x"
proof -
  obtain a b where q: "quotient_of x = (a, b)" by fastforce
  have b: "0 < b" using quotient_of_pos [OF q] .
  let ?q = "\<bar>a\<bar> div b" and ?r = "\<bar>a\<bar> mod b"
  have "\<bar>x\<bar> = of_int \<bar>a\<bar> / of_int b" using quotient_of_div [OF q] b by simp
  moreover have "of_int \<bar>a\<bar> = (of_int ?q * of_int b + of_int ?r :: rat)"
    by (metis div_mult_mod_eq of_int_add of_int_mult)
  ultimately have x: "\<bar>x\<bar> = of_int ?q + of_int ?r / of_int b" using b by (simp add: add_divide_distrib)
  have "nearest_even (if ?r * 2 > b \<or> (?r * 2 = b \<and> ?q mod 2 \<noteq> 0) then ?q + 1 else ?q) \<bar>x\<bar>"
    unfolding x by (rule half_even_step) (use b in simp_all)
  from nearest_even_abs [OF this] show ?thesis by (simp add: round_half_even_def q Let_def)
qed

lemma round_half_even_iff: "round_half_even x = n \<longleftrightarrow> nearest_even n x"
  using round_half_even_nearest nearest_even_unique by blast

lemma round_half_even_of_int [simp]: "round_half_even (of_int n) = n"
  by (simp add: round_half_even_iff nearest_even_def)

lemma round_half_even_minus [simp]: "round_half_even (- x) = - round_half_even x"
proof -
  have "nearest_even (- round_half_even x) (- x)"
    using round_half_even_nearest [of x] unfolding nearest_even_def by (simp add: abs_minus_commute)
  then show ?thesis by (simp add: round_half_even_iff)
qed

subsection \<open>Exact operators\<close>

lemma fraction_negated [simp]: "fraction (negated v) = - fraction v"
  by (simp add: negated_def)

lemma sum_decimals_fraction: "sum_decimals vs fld = Inr d \<Longrightarrow> fraction d = sum_list (map fraction vs)"
  unfolding sum_decimals_def by (rule to_decimal_fraction)

lemma foldl_product: "foldl (\<lambda>r v. r * fraction v) a vs = a * prod_list (map fraction vs)"
  by (induction vs arbitrary: a) (auto simp: mult.assoc)

lemma product_decimals_fraction: "product_decimals vs fld = Inr d \<Longrightarrow> fraction d = prod_list (map fraction vs)"
  unfolding product_decimals_def foldl_product by (drule to_decimal_fraction) simp

lemma rounded_decimal_fraction:
  "rounded_decimal v p fld = Inr d \<Longrightarrow> fraction d = of_int (round_half_even (v * 10 ^ nat p)) / 10 ^ nat p"
  unfolding rounded_decimal_eq by (rule to_decimal_fraction)

lemma replay_money_Inr_iff [res_simps]:
  "replay_money a c fld = Inr m \<longleftrightarrow> m = \<lparr>m_amount = a, m_currency = c\<rparr>
     \<and> is_registered DEFAULT_CURRENCY_REGISTRY c \<and> max 0 (- dexp a) \<le> cur_precision c"
  by (auto simp: replay_money_def res_simps)

lemma replay_quantity_Inr:
  assumes "replay_quantity a p = Inr q"
  shows "fraction (q_value q) = fraction a" "q_precision q = p"
  using assms mk_quantity_Inr(1,2) by (auto simp: replay_quantity_def res_simps)

definition rounded :: "rat \<Rightarrow> int \<Rightarrow> rat" where
  "rounded v p = of_int (round_half_even (v * 10 ^ nat p)) / 10 ^ nat p"

lemma rounded_decimal_rounded: "rounded_decimal v p fld = Inr d \<Longrightarrow> fraction d = rounded v p"
  unfolding rounded_def by (rule rounded_decimal_fraction)

lemma rounded_minus: "rounded (- v) p = - rounded v p"
  by (simp add: rounded_def)

lemma rounded_error: "2 * \<bar>rounded v p - v\<bar> \<le> 1 / 10 ^ nat p"
proof -
  have "2 * \<bar>of_int (round_half_even (v * 10 ^ nat p)) - v * 10 ^ nat p\<bar> \<le> 1"
    using round_half_even_nearest [of "v * 10 ^ nat p"] by (auto simp: nearest_even_def)
  moreover have "\<bar>rounded v p - v\<bar> = \<bar>of_int (round_half_even (v * 10 ^ nat p)) - v * 10 ^ nat p\<bar> / 10 ^ nat p"
    by (simp add: rounded_def abs_if field_simps)
  ultimately show ?thesis by (simp add: field_simps)
qed

lemma rounded_exact: "of_int n = v * 10 ^ nat p \<Longrightarrow> rounded v p = v"
proof -
  assume n: "of_int n = v * 10 ^ nat p"
  have "round_half_even (v * 10 ^ nat p) = n" unfolding n [symmetric] by simp
  then show ?thesis using n by (simp add: rounded_def field_simps)
qed

lemma rounded_zero [simp]: "rounded 0 p = 0"
  using rounded_exact [of 0 0 p] by simp

subsection \<open>Cost basis and realised result balance\<close>

definition fill_economics :: "fill_event \<Rightarrow> bool" where
  "fill_economics f = (0 < fraction (oq_value (fe_quantity f)) \<and> 0 < fraction (p_amount (fe_last_fill_price f)))"

lemma signed_fill_nonzero: "fill_economics f \<Longrightarrow> signed_fill_fraction f \<noteq> 0"
  by (auto simp: fill_economics_def signed_fill_fraction_def Let_def)

text \<open>The cost of a position with the sign of its quantity.\<close>

definition signed_cost :: "rat \<Rightarrow> rat \<Rightarrow> rat" where
  "signed_cost q basis = sgn q * basis"

definition basis_ok :: "rat \<Rightarrow> rat \<Rightarrow> bool" where
  "basis_ok q basis = (0 \<le> basis \<and> (basis = 0 \<longleftrightarrow> q = 0))"

lemma advanced_basis_ok:
  assumes "fill_economics f" "basis_ok c b" "advanced_cost_basis c b f = (c', b')"
  shows "c' = c + signed_fill_fraction f \<and> basis_ok c' b'"
proof -
  let ?s = "signed_fill_fraction f" and ?p = "fraction (p_amount (fe_last_fill_price f))"
  have p: "0 < ?p" and s: "?s \<noteq> 0" using assms(1) signed_fill_nonzero by (auto simp: fill_economics_def)
  have same: "0 < b + \<bar>?s\<bar> * ?p" if "0 \<le> b" using p s that by (simp add: add_nonneg_pos)
  have pos: "0 < \<bar>c'\<bar> * ?p" if "c' \<noteq> 0" using p that by simp
  have part: "0 < b * \<bar>c'\<bar> / \<bar>c\<bar>" if "c \<noteq> 0" "c' \<noteq> 0"
    using assms(2) that by (auto simp: basis_ok_def intro!: divide_pos_pos mult_pos_pos)
  show ?thesis
    using assms(2,3) same pos part
    by (auto simp: advanced_cost_basis_def Let_def basis_ok_def split: if_splits)
qed

text \<open>The next lemmas follow the sign cases of the two accounting functions, first for a long position.\<close>

definition basis_after :: "rat \<Rightarrow> rat \<Rightarrow> rat \<Rightarrow> rat \<Rightarrow> rat" where
  "basis_after c s p b =
     (if c + s = 0 then 0
      else if c = 0 \<or> c * (c + s) < 0 then \<bar>c + s\<bar> * p
      else if c * s > 0 then b + \<bar>s\<bar> * p
      else b * \<bar>c + s\<bar> / \<bar>c\<bar>)"

definition realized_unit :: "rat \<Rightarrow> rat \<Rightarrow> rat \<Rightarrow> rat \<Rightarrow> rat" where
  "realized_unit c s p b =
     (if 0 < c \<and> s < 0 then (p - b / \<bar>c\<bar>) * min \<bar>c\<bar> \<bar>s\<bar>
      else if c < 0 \<and> 0 < s then (b / \<bar>c\<bar> - p) * min \<bar>c\<bar> \<bar>s\<bar> else 0)"

lemma advanced_cost_basis_eq:
  "advanced_cost_basis c b f =
     (c + signed_fill_fraction f,
      basis_after c (signed_fill_fraction f) (fraction (p_amount (fe_last_fill_price f))) b)"
  by (simp add: advanced_cost_basis_def basis_after_def Let_def)

lemma realized_for_fill_eq:
  "realized_for_fill f c b =
     realized_unit c (signed_fill_fraction f) (fraction (p_amount (fe_last_fill_price f))) b
       * fraction (id_multiplier (fe_instrument_definition f))"
  by (simp add: realized_for_fill_def realized_unit_def Let_def)

lemma unit_identity_long:
  assumes "0 < c" "s \<noteq> 0"
  shows "realized_unit c s p b = signed_cost (c + s) (basis_after c s p b) - signed_cost c b - s * p"
proof -
  consider "0 < s" | "s < 0" "0 < c + s" | "s = - c" | "s < 0" "c + s < 0" using assms by linarith
  then show ?thesis
  proof cases
    case 1
    then show ?thesis using assms
      by (simp add: realized_unit_def basis_after_def signed_cost_def mult_less_0_iff zero_less_mult_iff)
  next
    case 2
    then have "min \<bar>c\<bar> \<bar>s\<bar> = - s" "\<not> c * (c + s) < 0" "\<not> 0 < c * s" "c + s \<noteq> 0"
      using assms by (simp_all add: mult_less_0_iff zero_less_mult_iff)
    with 2 show ?thesis using assms
      by (simp only: realized_unit_def basis_after_def signed_cost_def if_False if_True)
        (simp add: field_simps)
  next
    case 3
    then show ?thesis using assms
      by (simp add: realized_unit_def basis_after_def signed_cost_def field_simps)
  next
    case 4
    then have "min \<bar>c\<bar> \<bar>s\<bar> = c" "c * (c + s) < 0" "c + s \<noteq> 0"
      using assms by (simp_all add: mult_less_0_iff)
    with 4 show ?thesis using assms
      by (simp only: realized_unit_def basis_after_def signed_cost_def if_False if_True simp_thms)
        (simp add: field_simps)
  qed
qed

lemma realized_unit_mirror: "realized_unit (- c) (- s) p b = - realized_unit c s p b"
  by (auto simp: realized_unit_def algebra_simps)

lemma basis_after_mirror: "basis_after (- c) (- s) p b = basis_after c s p b"
proof -
  have "- c + - s = - (c + s)" by simp
  then show ?thesis by (simp only: basis_after_def mult_minus_left mult_minus_right abs_minus_cancel
      neg_equal_0_iff_equal minus_minus)
qed

lemma unit_identity:
  assumes "s \<noteq> 0" "c = 0 \<Longrightarrow> b = 0"
  shows "realized_unit c s p b = signed_cost (c + s) (basis_after c s p b) - signed_cost c b - s * p"
proof -
  consider "c = 0" | "0 < c" | "c < 0" by linarith
  then show ?thesis
  proof cases
    case 1
    then show ?thesis using assms by (simp add: realized_unit_def basis_after_def signed_cost_def sgn_if)
  next
    case 2
    then show ?thesis using assms(1) by (rule unit_identity_long)
  next
    case 3
    have "realized_unit (- c) (- s) p b
      = signed_cost (- c + - s) (basis_after (- c) (- s) p b) - signed_cost (- c) b - (- s) * p"
      by (rule unit_identity_long) (use 3 assms in simp_all)
    moreover have "signed_cost (- c + - s) x = - signed_cost (c + s) x" for x
      by (simp add: signed_cost_def sgn_if)
    ultimately show ?thesis
      by (simp add: realized_unit_mirror basis_after_mirror signed_cost_def)
  qed
qed

lemma accounting_identity_fill:
  assumes "fill_economics f" "basis_ok c b" "advanced_cost_basis c b f = (c', b')"
  shows "realized_for_fill f c b =
    (signed_cost c' b' - signed_cost c b - signed_fill_fraction f * fraction (p_amount (fe_last_fill_price f)))
      * fraction (id_multiplier (fe_instrument_definition f))"
proof -
  have "c = 0 \<Longrightarrow> b = 0" using assms(2) by (simp add: basis_ok_def)
  from unit_identity [OF signed_fill_nonzero [OF assms(1)] this] show ?thesis
    using assms(3) by (simp add: advanced_cost_basis_eq realized_for_fill_eq)
qed


subsection \<open>Properties\<close>

lemma rounded_finite: "finite_expansion (of_int n / 10 ^ k)"
  unfolding finite_expansion_def by (rule exI [of _ k], rule exI [of _ n]) simp

text \<open>
  Rounding to a currency's precision is rounding half to even: an accepted result is an integer
  number of the currency's smallest units, that integer is the nearest one and the even one of two
  nearest, and rounding never reports an inexact value.
\<close>

theorem rounded_decimal_half_even:
  "(\<forall>d. rounded_decimal v p fld = Inr d \<longrightarrow>
      (\<exists>n::int. fraction d = of_int n / 10 ^ nat p \<and>
        (2 * \<bar>of_int n - v * 10 ^ nat p\<bar> < 1 \<or> (2 * \<bar>of_int n - v * 10 ^ nat p\<bar> = 1 \<and> even n))))
   \<and> (\<forall>m. rounded_decimal v p fld \<noteq> Inl (PortfolioReplayError m))"
proof (intro conjI allI impI)
  fix d assume "rounded_decimal v p fld = Inr d"
  then show "\<exists>n::int. fraction d = of_int n / 10 ^ nat p \<and>
      (2 * \<bar>of_int n - v * 10 ^ nat p\<bar> < 1 \<or> (2 * \<bar>of_int n - v * 10 ^ nat p\<bar> = 1 \<and> even n))"
    using rounded_decimal_fraction round_half_even_nearest unfolding nearest_even_def by blast
next
  fix m
  show "rounded_decimal v p fld \<noteq> Inl (PortfolioReplayError m)"
    unfolding rounded_decimal_eq using to_decimal_refuses_iff rounded_finite by blast
qed

theorem rounded_decimal_half_even_witness:
  "rounded_decimal (5 / 2) 0 ''x'' = Inr (dec 2 0) \<and> rounded_decimal (7 / 2) 0 ''x'' = Inr (dec 4 0)
   \<and> (\<exists>n::int. fraction (dec 2 0) = of_int n / 10 ^ nat 0 \<and>
        (2 * \<bar>of_int n - (5 / 2) * 10 ^ nat 0\<bar> < (1::rat) \<or> (2 * \<bar>of_int n - (5 / 2) * 10 ^ nat 0\<bar> = (1::rat) \<and> even n)))"
proof -
  have 1: "rounded_decimal (5 / 2) 0 ''x'' = Inr (dec 2 0)" by code_simp
  have 2: "rounded_decimal (7 / 2) 0 ''x'' = Inr (dec 4 0)" by code_simp
  from 1 2 rounded_decimal_half_even [of "5 / 2" 0 "''x''"] show ?thesis by blast
qed

text \<open>
  The conversion from fractions to decimals is exact or refused: a returned decimal has exactly
  the fraction's value, and the reducer's own error is raised precisely for the fractions that no
  finite decimal expansion represents.
\<close>

theorem to_decimal_exact_or_refused:
  "(\<forall>d. to_decimal r fld = Inr d \<longrightarrow> fraction d = r)
   \<and> ((\<exists>m. to_decimal r fld = Inl (PortfolioReplayError m)) \<longleftrightarrow> \<not> (\<exists>k (n::int). r * 10 ^ k = of_int n))"
  using to_decimal_fraction to_decimal_refuses_iff unfolding finite_expansion_def by blast

theorem to_decimal_exact_or_refused_witness:
  "to_decimal (3 / 8) ''x'' = Inr (dec 375 3) \<and> fraction (dec 375 3) = 3 / 8
   \<and> (\<exists>m. to_decimal (1 / 3) ''x'' = Inl (PortfolioReplayError m)) \<and> \<not> (\<exists>k (n::int). (1 / 3 :: rat) * 10 ^ k = of_int n)"
proof -
  have 1: "to_decimal (3 / 8) ''x'' = Inr (dec 375 3)" by code_simp
  have 2: "to_decimal (1 / 3) ''x'' = Inl (PortfolioReplayError ''x cannot be represented exactly as a Decimal'')"
    by code_simp
  from 1 2 to_decimal_exact_or_refused [of "3 / 8" "''x''"] to_decimal_exact_or_refused [of "1 / 3" "''x''"]
  show ?thesis by blast
qed

text \<open>
  The per-fill accounting balances exactly. For a fill with a positive quantity and price applied
  to a position whose cost basis is non-negative and vanishes exactly when the position is flat, the
  new quantity is the old one plus the signed fill, the new basis satisfies the same condition, and
  the realised result is the change of the position's signed cost minus the signed cost of the fill,
  times the multiplier: nothing is created or lost by partial closes, full closes or reversals.
\<close>

theorem fill_accounting_balances:
  assumes "0 < fraction (oq_value (fe_quantity f))" "0 < fraction (p_amount (fe_last_fill_price f))"
    and "0 \<le> basis" "basis = 0 \<longleftrightarrow> q = 0"
    and "advanced_cost_basis q basis f = (q', basis')"
  shows "q' = q + signed_fill_fraction f \<and> 0 \<le> basis' \<and> (basis' = 0 \<longleftrightarrow> q' = 0)
    \<and> realized_for_fill f q basis =
        (sgn q' * basis' - sgn q * basis
          - signed_fill_fraction f * fraction (p_amount (fe_last_fill_price f)))
        * fraction (id_multiplier (fe_instrument_definition f))"
proof -
  have "fill_economics f" "basis_ok q basis" using assms by (simp_all add: fill_economics_def basis_ok_def)
  from advanced_basis_ok [OF this assms(5)] accounting_identity_fill [OF this assms(5)]
  show ?thesis by (simp add: basis_ok_def signed_cost_def)
qed

theorem fill_accounting_balances_witness:
  "advanced_cost_basis (- (3 / 50)) (3 / 5) (demo_fill 1 1) = (- (1 / 25), 2 / 5)
   \<and> realized_for_fill (demo_fill 1 1) (- (3 / 50)) (3 / 5) = 1 / 10"
proof -
  have amounts: "fraction (oq_value (fe_quantity (demo_fill 1 1))) = 1 / 50"
    "fraction (p_amount (fe_last_fill_price (demo_fill 1 1))) = 5"
    "fraction (id_multiplier (fe_instrument_definition (demo_fill 1 1))) = 1"
    "fe_side (demo_fill 1 1) = BUY"
    by (simp_all add: demo_fill_def demo_quantity_def demo_price_def demo_definition_def dec_def fraction_def)
  then have signed: "signed_fill_fraction (demo_fill 1 1) = 1 / 50" by (simp add: signed_fill_fraction_def)
  have step: "advanced_cost_basis (- (3 / 50)) (3 / 5) (demo_fill 1 1) = (- (1 / 25), 2 / 5)"
    by (simp add: advanced_cost_basis_eq signed amounts basis_after_def)
  from fill_accounting_balances [OF _ _ _ _ step] show ?thesis
    by (simp add: step amounts signed)
qed

end
