(* ===== verification/Portfolio_State.thy ===== *)
theory Portfolio_State
  imports Exact_Accounting
begin

section \<open>The state of the portfolio reducer (packages/portfolio_reducer/models.py)\<close>

text \<open>
  The immutable working state: cursors, applied events, business identities, valuation rates,
  positions, the working snapshot, retained execution effects and the replay state that holds
  them. Each \<open>mk_...\<close> re-validates the nested models and then runs the model validator. The
  section opens with the equality of the contract classes: dataclasses and models compare field
  by field, decimals numerically and UTC times by instant.
\<close>

subsection \<open>Equality of contract values\<close>

definition dt_eq :: "datetime \<Rightarrow> datetime \<Rightarrow> bool" where
  "dt_eq a b = (dt_key a = dt_key b)"

fun option_eq :: "('a \<Rightarrow> 'a \<Rightarrow> bool) \<Rightarrow> 'a option \<Rightarrow> 'a option \<Rightarrow> bool" where
  "option_eq eq None None = True"
| "option_eq eq (Some a) (Some b) = eq a b"
| "option_eq eq _ _ = False"

definition margin_eq :: "margin_requirements \<Rightarrow> margin_requirements \<Rightarrow> bool" where
  "margin_eq a b = (dec_eq (mr_initial a) (mr_initial b) \<and> dec_eq (mr_maintenance a) (mr_maintenance b))"

definition provenance_eq :: "instrument_provenance \<Rightarrow> instrument_provenance \<Rightarrow> bool" where
  "provenance_eq a b =
     (ip_source_id a = ip_source_id b \<and> ip_source_revision a = ip_source_revision b
      \<and> dt_eq (ip_observed_at a) (ip_observed_at b))"

definition instrument_definition_eq :: "instrument_definition \<Rightarrow> instrument_definition \<Rightarrow> bool" where
  "instrument_definition_eq a b =
     (id_instrument_id a = id_instrument_id b \<and> id_raw_symbol a = id_raw_symbol b
      \<and> id_asset_class a = id_asset_class b
      \<and> option_eq currency_eq (id_base_currency a) (id_base_currency b)
      \<and> currency_eq (id_quote_currency a) (id_quote_currency b)
      \<and> currency_eq (id_settlement_currency a) (id_settlement_currency b)
      \<and> price_eq (id_tick_size a) (id_tick_size b)
      \<and> order_quantity_eq (id_size_increment a) (id_size_increment b)
      \<and> order_quantity_eq (id_minimum_quantity a) (id_minimum_quantity b)
      \<and> order_quantity_eq (id_maximum_quantity a) (id_maximum_quantity b)
      \<and> money_eq (id_minimum_notional a) (id_minimum_notional b)
      \<and> money_eq (id_maximum_notional a) (id_maximum_notional b)
      \<and> dec_eq (id_multiplier a) (id_multiplier b)
      \<and> option_eq margin_eq (id_margin a) (id_margin b)
      \<and> id_session_calendar a = id_session_calendar b
      \<and> provenance_eq (id_provenance a) (id_provenance b))"

definition fill_event_eq :: "fill_event \<Rightarrow> fill_event \<Rightarrow> bool" where
  "fill_event_eq a b =
     (fe_execution_id a = fe_execution_id b \<and> fe_order_id a = fe_order_id b
      \<and> fe_report_sequence a = fe_report_sequence b \<and> fe_venue_trade_id a = fe_venue_trade_id b
      \<and> instrument_definition_eq (fe_instrument_definition a) (fe_instrument_definition b)
      \<and> fe_side a = fe_side b \<and> fe_liquidity_side a = fe_liquidity_side b \<and> fe_status a = fe_status b
      \<and> order_quantity_eq (fe_quantity a) (fe_quantity b)
      \<and> order_quantity_eq (fe_cumulative_fill_quantity a) (fe_cumulative_fill_quantity b)
      \<and> order_quantity_eq (fe_leaves_quantity a) (fe_leaves_quantity b)
      \<and> order_quantity_eq (fe_order_quantity a) (fe_order_quantity b)
      \<and> price_eq (fe_last_fill_price a) (fe_last_fill_price b)
      \<and> price_eq (fe_average_fill_price a) (fe_average_fill_price b)
      \<and> money_eq (fe_commission a) (fe_commission b)
      \<and> fe_reconciliation_source a = fe_reconciliation_source b
      \<and> fe_duplicate_of_execution_id a = fe_duplicate_of_execution_id b
      \<and> fe_correction_of_execution_id a = fe_correction_of_execution_id b
      \<and> fe_bust_of_execution_id a = fe_bust_of_execution_id b
      \<and> dt_eq (fe_filled_at a) (fe_filled_at b) \<and> fe_schema_version a = fe_schema_version b)"

definition fill_entry_eq :: "fill_entry \<Rightarrow> fill_entry \<Rightarrow> bool" where
  "fill_entry_eq a b =
     (pfl_account_id a = pfl_account_id b \<and> dt_eq (pfl_effective_at a) (pfl_effective_at b)
      \<and> pfl_schema_version a = pfl_schema_version b \<and> pfl_strategy_id a = pfl_strategy_id b
      \<and> fill_event_eq (pfl_fill a) (pfl_fill b))"

subsection \<open>Cursors, applied events and identities\<close>

type_synonym portfolio_event = "portfolio_payload event_envelope"

record stream_cursor =
  sc_stream_id :: uuid
  sc_sequence :: int

definition mk_stream_cursor :: "stream_cursor \<Rightarrow> stream_cursor res" where
  "mk_stream_cursor c = bindE (require_field ''sequence'' (0 < sc_sequence c)) (\<lambda>_. Inr c)"

definition PORTFOLIO_EVENT_TYPES :: "string list" where
  "PORTFOLIO_EVENT_TYPES =
     [''PortfolioOpeningEntry'', ''PortfolioAccountObservationEntry'', ''PortfolioFillEntry'',
      ''PortfolioMarkEntry'', ''PortfolioFundingEntry'', ''PortfolioConversionEntry'',
      ''PortfolioValuationRateEntry'', ''PortfolioReconciliationEntry'']"

record applied_event =
  ae_event_id :: uuid
  ae_digest :: string
  ae_stream_id :: uuid
  ae_sequence :: int
  ae_event_type :: string
  ae_business_identity_id :: "uuid option"

definition mk_applied_event :: "applied_event \<Rightarrow> applied_event res" where
  "mk_applied_event a =
     bindE (require_field ''digest'' (sha256_hex (ae_digest a))) (\<lambda>_.
     bindE (require_field ''sequence'' (0 < ae_sequence a)) (\<lambda>_.
     bindE (require_field ''event_type'' (ae_event_type a \<in> set PORTFOLIO_EVENT_TYPES)) (\<lambda>_.
     Inr a)))"

record business_identity =
  bi_identity_id :: uuid
  bi_payload_digest :: string
  bi_event_id :: uuid
  bi_event_digest :: string
  bi_stream_id :: uuid
  bi_sequence :: int

definition mk_business_identity :: "business_identity \<Rightarrow> business_identity res" where
  "mk_business_identity b =
     bindE (require_field ''payload_digest'' (sha256_hex (bi_payload_digest b))) (\<lambda>_.
     bindE (require_field ''event_digest'' (sha256_hex (bi_event_digest b))) (\<lambda>_.
     bindE (require_field ''sequence'' (0 < bi_sequence b)) (\<lambda>_.
     Inr b)))"

record valuation_rate_state =
  vr_source_currency :: currency
  vr_target_currency :: currency
  vr_rate :: decimal
  vr_quoted_at :: datetime
  vr_provenance_id :: string

definition mk_valuation_rate_state :: "valuation_rate_state \<Rightarrow> valuation_rate_state res" where
  "mk_valuation_rate_state v =
     wrap_validation (
       bindE (require_currency (vr_source_currency v)) (\<lambda>_.
       bindE (require_currency (vr_target_currency v)) (\<lambda>_.
       bindE (require_field ''provenance_id'' (canonical_identifier (vr_provenance_id v))) (\<lambda>_.
       Inr v))))"

subsection \<open>Positions and the working snapshot\<close>

record position_state =
  pst_account_id :: string
  pst_strategy_id :: string
  pst_instrument :: instrument_id
  pst_instrument_definition :: "instrument_definition option"
  pst_settlement_currency :: currency
  pst_quantity :: quantity
  pst_mark :: "position_mark option"
  pst_average_entry_price :: "price option"
  pst_realized_pnl :: money
  pst_unrealized_pnl :: money
  pst_fees :: money
  pst_funding :: money
  pst_observed_at :: datetime
  pst_schema_version :: string

definition valid_definition :: "position_state \<Rightarrow> unit res" where
  "valid_definition p =
     (case pst_instrument_definition p of
        None \<Rightarrow> Inr ()
      | Some d \<Rightarrow>
          bindE (reject_if (id_instrument_id d \<noteq> pst_instrument p)
                   ''instrument definition must match position instrument'') (\<lambda>_.
          reject_if (id_settlement_currency d \<noteq> pst_settlement_currency p)
            ''instrument definition settlement currency must match position''))"

definition valid_exposure_fields :: "position_state \<Rightarrow> unit res" where
  "valid_exposure_fields p =
     (if is_zero (q_value (pst_quantity p))
      then
        bindE (reject_if (pst_average_entry_price p \<noteq> None \<or> pst_mark p \<noteq> None)
                 ''zero position must not retain an average entry price or mark'') (\<lambda>_.
        reject_if (\<not> is_zero (m_amount (pst_unrealized_pnl p)))
          ''zero position must not retain unrealized PnL'')
      else
        bindE (reject_if (pst_instrument_definition p = None)
                 ''non-zero position requires an instrument definition'') (\<lambda>_.
        case pst_average_entry_price p of
          None \<Rightarrow> Inl (ValueError ''non-zero position requires an average entry price'')
        | Some a \<Rightarrow>
            reject_if (p_currency a \<noteq> pst_settlement_currency p)
              ''average entry price currency must match settlement currency''))"

definition valid_position_state :: "position_state \<Rightarrow> position_state res" where
  "valid_position_state p =
     bindE (valid_definition p) (\<lambda>_.
     bindE (reject_if (list_ex (\<lambda>v. m_currency v \<noteq> pst_settlement_currency p)
                         [pst_realized_pnl p, pst_unrealized_pnl p, pst_fees p, pst_funding p])
              ''position money must match settlement currency'') (\<lambda>_.
     bindE (valid_exposure_fields p) (\<lambda>_.
     Inr p)))"

definition mk_position_state :: "position_state \<Rightarrow> position_state res" where
  "mk_position_state p =
     wrap_validation (
       bindE (require_field ''account_id'' (canonical_identifier (pst_account_id p))) (\<lambda>_.
       bindE (require_field ''strategy_id'' (canonical_identifier (pst_strategy_id p))) (\<lambda>_.
       bindE (require_currency (pst_settlement_currency p)) (\<lambda>_.
       bindE (mk_optional mk_position_mark (pst_mark p)) (\<lambda>_.
       bindE (require_field ''schema_version'' (pst_schema_version p \<noteq> [])) (\<lambda>_.
       valid_position_state p))))))"

definition position_key :: "position_state \<Rightarrow> string \<times> string" where
  "position_key p = (pst_strategy_id p, canonical (pst_instrument p))"

record working_snapshot =
  ws_account_id :: string
  ws_reporting_currency :: currency
  ws_balances :: "account_balance_snapshot list"
  ws_positions :: "position_state list"
  ws_observed_at :: datetime
  ws_schema_version :: string

definition balance_code :: "account_balance_snapshot \<Rightarrow> string" where
  "balance_code b = cur_code (ab_currency b)"

definition ordered_snapshot :: "working_snapshot \<Rightarrow> working_snapshot res" where
  "ordered_snapshot s =
     bindE (reject_if (\<not> sorted_unique balance_code (ws_balances s)) ''balances must be sorted and unique'') (\<lambda>_.
     bindE (reject_if (list_ex (\<lambda>b. ab_account_id b \<noteq> ws_account_id s) (ws_balances s))
              ''balance account must match portfolio account'') (\<lambda>_.
     bindE (reject_if (\<not> sorted_unique position_key (ws_positions s)) ''positions must be sorted and unique'') (\<lambda>_.
     bindE (reject_if (list_ex (\<lambda>p. pst_account_id p \<noteq> ws_account_id s) (ws_positions s))
              ''position account must match portfolio account'') (\<lambda>_.
     Inr s))))"

definition mk_working_snapshot :: "working_snapshot \<Rightarrow> working_snapshot res" where
  "mk_working_snapshot s =
     wrap_validation (
       bindE (require_field ''account_id'' (canonical_identifier (ws_account_id s))) (\<lambda>_.
       bindE (require_currency (ws_reporting_currency s)) (\<lambda>_.
       bindE (mapE mk_account_balance_snapshot (ws_balances s)) (\<lambda>_.
       bindE (mapE mk_position_state (ws_positions s)) (\<lambda>_.
       bindE (require_field ''schema_version'' (ws_schema_version s \<noteq> [])) (\<lambda>_.
       ordered_snapshot s))))))"

subsection \<open>Retained execution effects\<close>

record execution_effect =
  fx_execution_id :: uuid
  fx_account_id :: string
  fx_strategy_id :: string
  fx_fill :: fill_event
  fx_entry :: fill_entry
  fx_source_event :: portfolio_event
  fx_logical_sequence :: int
  fx_cash_deltas :: "money list"
  fx_balance_realized_pnl_deltas :: "money list"
  fx_balance_fee_deltas :: "money list"
  fx_position_key :: "string \<times> string"
  fx_quantity_before :: quantity
  fx_quantity_delta :: quantity
  fx_realized_pnl_delta :: money
  fx_fees_delta :: money
  fx_average_before :: "price option"
  fx_average_after :: "price option"

definition delta_code :: "money \<Rightarrow> string" where
  "delta_code d = cur_code (m_currency d)"

fun carries_entry :: "portfolio_payload \<Rightarrow> fill_entry \<Rightarrow> bool" where
  "carries_entry (FillEntry e) entry = fill_entry_eq e entry"
| "carries_entry _ entry = False"

definition valid_effect :: "execution_effect \<Rightarrow> execution_effect res" where
  "valid_effect x =
     bindE (reject_if (fx_execution_id x \<noteq> fe_execution_id (fx_fill x))
              ''effect execution ID must match fill'') (\<lambda>_.
     bindE (reject_if (\<not> fill_event_eq (pfl_fill (fx_entry x)) (fx_fill x)) ''effect entry must match fill'') (\<lambda>_.
     bindE (reject_if (\<not> carries_entry (ev_payload (fx_source_event x)) (fx_entry x))
              ''effect source event must contain its entry'') (\<lambda>_.
     bindE (reject_if (pfl_account_id (fx_entry x) \<noteq> fx_account_id x \<or> pfl_strategy_id (fx_entry x) \<noteq> fx_strategy_id x)
              ''effect entry scope must match'') (\<lambda>_.
     bindE (reject_if (fx_strategy_id x \<noteq> fst (fx_position_key x))
              ''effect position key strategy does not match'') (\<lambda>_.
     bindE (reject_if (\<not> sorted_unique delta_code (fx_cash_deltas x))
              ''cash deltas must be sorted and unique'') (\<lambda>_.
     bindE (reject_if (\<not> sorted_unique delta_code (fx_balance_realized_pnl_deltas x))
              ''balance realized PnL deltas must be sorted and unique'') (\<lambda>_.
     bindE (reject_if (\<not> sorted_unique delta_code (fx_balance_fee_deltas x))
              ''balance fee deltas must be sorted and unique'') (\<lambda>_.
     bindE (let settlement = id_settlement_currency (fe_instrument_definition (fx_fill x))
            in reject_if (m_currency (fx_realized_pnl_delta x) \<noteq> settlement \<or> m_currency (fx_fees_delta x) \<noteq> settlement)
                 ''position deltas must use settlement currency'') (\<lambda>_.
     Inr x)))))))))"

text \<open>
  The source event is declared as an envelope of a fill entry, so another payload class is refused
  by the field's type before the validator runs.
\<close>

fun is_fill_payload :: "portfolio_payload \<Rightarrow> bool" where
  "is_fill_payload (FillEntry e) = True"
| "is_fill_payload _ = False"

definition mk_execution_effect :: "execution_effect \<Rightarrow> execution_effect res" where
  "mk_execution_effect x =
     wrap_validation (
       bindE (require_field ''account_id'' (canonical_identifier (fx_account_id x))) (\<lambda>_.
       bindE (require_field ''strategy_id'' (canonical_identifier (fx_strategy_id x))) (\<lambda>_.
       bindE (mk_fill_event (fx_fill x)) (\<lambda>f.
       bindE (mk_fill_entry (fx_entry x)) (\<lambda>e.
       bindE (require_field ''source_event'' (is_fill_payload (ev_payload (fx_source_event x)))) (\<lambda>_.
       bindE (mk_event_envelope portfolio_payload_ops (fx_source_event x)) (\<lambda>s.
       bindE (require_field ''logical_sequence'' (0 < fx_logical_sequence x)) (\<lambda>_.
       bindE (require_field ''position_key'' (canonical_identifier (fst (fx_position_key x)))) (\<lambda>_.
       valid_effect (x\<lparr>fx_fill := f, fx_entry := e, fx_source_event := s\<rparr>))))))))))"

subsection \<open>The replay state\<close>

record replay_state =
  rp_snapshot :: working_snapshot
  rp_cursor :: "stream_cursor list"
  rp_applied_events :: "applied_event list"
  rp_valuation_rates :: "valuation_rate_state list"
  rp_active_effects :: "execution_effect list"
  rp_execution_identities :: "business_identity list"
  rp_funding_identities :: "business_identity list"
  rp_reconciliation_identities :: "business_identity list"
  rp_reconciliation :: "reconciliation_entry option"

definition rate_key :: "valuation_rate_state \<Rightarrow> string \<times> string" where
  "rate_key v = (cur_code (vr_source_currency v), cur_code (vr_target_currency v))"

definition ordered_state :: "replay_state \<Rightarrow> replay_state res" where
  "ordered_state s =
     bindE (reject_if (\<not> sorted_unique sc_stream_id (rp_cursor s)) ''cursor must be sorted and unique'') (\<lambda>_.
     bindE (reject_if (\<not> sorted_unique ae_event_id (rp_applied_events s))
              ''applied events must be sorted and unique'') (\<lambda>_.
     bindE (reject_if (\<not> sorted_unique rate_key (rp_valuation_rates s))
              ''valuation rates must be sorted and unique'') (\<lambda>_.
     bindE (reject_if (\<not> sorted_unique fx_execution_id (rp_active_effects s))
              ''active effects must be sorted and unique'') (\<lambda>_.
     bindE (reject_if (\<not> sorted_unique bi_identity_id (rp_execution_identities s))
              ''execution identities must be sorted and unique'') (\<lambda>_.
     bindE (reject_if (\<not> sorted_unique bi_identity_id (rp_funding_identities s))
              ''funding identities must be sorted and unique'') (\<lambda>_.
     bindE (reject_if (\<not> sorted_unique bi_identity_id (rp_reconciliation_identities s))
              ''reconciliation identities must be sorted and unique'') (\<lambda>_.
     Inr s)))))))"

definition mk_replay_state :: "replay_state \<Rightarrow> replay_state res" where
  "mk_replay_state s =
     wrap_validation (
       bindE (mk_working_snapshot (rp_snapshot s)) (\<lambda>_.
       bindE (mapE mk_stream_cursor (rp_cursor s)) (\<lambda>_.
       bindE (mapE mk_applied_event (rp_applied_events s)) (\<lambda>_.
       bindE (mapE mk_valuation_rate_state (rp_valuation_rates s)) (\<lambda>_.
       bindE (mapE mk_execution_effect (rp_active_effects s)) (\<lambda>effects.
       bindE (mapE mk_business_identity (rp_execution_identities s)) (\<lambda>_.
       bindE (mapE mk_business_identity (rp_funding_identities s)) (\<lambda>_.
       bindE (mapE mk_business_identity (rp_reconciliation_identities s)) (\<lambda>_.
       bindE (mk_optional mk_reconciliation_entry (rp_reconciliation s)) (\<lambda>_.
       ordered_state (s\<lparr>rp_active_effects := effects\<rparr>)))))))))))"

definition active_execution_ids :: "replay_state \<Rightarrow> uuid list" where
  "active_execution_ids s = map fx_execution_id (rp_active_effects s)"


subsection \<open>Validation is stable\<close>

lemma mk_state_identity:
  "mk_stream_cursor c = Inr c' \<Longrightarrow> c' = c"
  "mk_applied_event a = Inr a' \<Longrightarrow> a' = a"
  "mk_business_identity b = Inr b' \<Longrightarrow> b' = b"
  "mk_valuation_rate_state v = Inr v' \<Longrightarrow> v' = v"
  "mk_position_state p = Inr p' \<Longrightarrow> p' = p"
  "mk_working_snapshot w = Inr w' \<Longrightarrow> w' = w"
  by (auto simp: res_simps mk_stream_cursor_def mk_applied_event_def mk_business_identity_def
      mk_valuation_rate_state_def mk_position_state_def valid_position_state_def mk_working_snapshot_def
      ordered_snapshot_def)

lemma mk_position_state_Inr:
  assumes "mk_position_state p = Inr p'"
  shows "p' = p" and "canonical_identifier (pst_strategy_id p)"
    and "is_registered DEFAULT_CURRENCY_REGISTRY (pst_settlement_currency p)"
    and "m_currency (pst_realized_pnl p) = pst_settlement_currency p"
    and "m_currency (pst_unrealized_pnl p) = pst_settlement_currency p"
    and "m_currency (pst_fees p) = pst_settlement_currency p"
    and "m_currency (pst_funding p) = pst_settlement_currency p"
  using assms mk_state_identity(5) [OF assms]
  by (auto simp: mk_position_state_def valid_position_state_def res_simps require_currency_def split: if_splits)

lemma mapE_Inr_member:
  assumes "mapE f xs = Inr ys" "x \<in> set xs" "\<And>y. f x = Inr y \<Longrightarrow> y = x"
  shows "f x = Inr x"
proof -
  obtain i where "i < length xs" "x = xs ! i" using assms(2) by (auto simp: in_set_conv_nth)
  with mapE_Inr_nth [OF assms(1)] assms(3) show ?thesis by fastforce
qed

lemma mk_working_snapshot_Inr:
  assumes "mk_working_snapshot w = Inr w'"
  shows "w' = w" and "sorted_unique balance_code (ws_balances w)" and "sorted_unique position_key (ws_positions w)"
    and "b \<in> set (ws_balances w) \<Longrightarrow> mk_account_balance_snapshot b = Inr b"
    and "p \<in> set (ws_positions w) \<Longrightarrow> mk_position_state p = Inr p"
    and "b \<in> set (ws_balances w) \<Longrightarrow> ab_account_id b = ws_account_id w"
    and "p \<in> set (ws_positions w) \<Longrightarrow> pst_account_id p = ws_account_id w"
proof -
  obtain bs ps where *: "mapE mk_account_balance_snapshot (ws_balances w) = Inr bs"
    "mapE mk_position_state (ws_positions w) = Inr ps"
    using assms by (auto simp: mk_working_snapshot_def res_simps)
  show "b \<in> set (ws_balances w) \<Longrightarrow> mk_account_balance_snapshot b = Inr b"
    by (rule mapE_Inr_member [OF *(1) _ mk_identity(1)])
  show "p \<in> set (ws_positions w) \<Longrightarrow> mk_position_state p = Inr p"
    by (rule mapE_Inr_member [OF *(2) _ mk_state_identity(5)])
  show "w' = w" by (rule mk_state_identity(6) [OF assms])
qed (use assms in \<open>auto simp: mk_working_snapshot_def ordered_snapshot_def res_simps list_ex_iff\<close>)

lemma mk_working_snapshot_stable: "mk_working_snapshot w = Inr w' \<Longrightarrow> mk_working_snapshot w' = Inr w'"
  using mk_state_identity(6) by fastforce

lemma mk_execution_effect_Inr:
  assumes "mk_execution_effect x = Inr x'"
  shows "\<exists>f e s. mk_fill_event (fx_fill x) = Inr f \<and> mk_fill_entry (fx_entry x) = Inr e
    \<and> mk_event_envelope portfolio_payload_ops (fx_source_event x) = Inr s
    \<and> x' = x\<lparr>fx_fill := f, fx_entry := e, fx_source_event := s\<rparr>"
  using assms by (auto simp: mk_execution_effect_def valid_effect_def res_simps Let_def)

lemma mk_fill_entry_stable: "mk_fill_entry e = Inr e' \<Longrightarrow> mk_fill_entry e' = Inr e'"
  using validate_portfolio_payload_stable [of "FillEntry e" "FillEntry e'"]
  by (auto simp: lift_payload_def res_simps)

lemma envelope_stable:
  "mk_event_envelope portfolio_payload_ops e = Inr e' \<Longrightarrow> mk_event_envelope portfolio_payload_ops e' = Inr e'"
  by (rule mk_event_envelope_stable) (auto simp: portfolio_payload_ops_def intro: validate_portfolio_payload_stable)

lemma is_fill_payload_validate:
  "validate_portfolio_payload p = Inr q \<Longrightarrow> is_fill_payload q = is_fill_payload p"
  by (cases p) (auto simp: lift_payload_def res_simps)

lemma mk_execution_effect_stable:
  assumes "mk_execution_effect x = Inr x'"
  shows "mk_execution_effect x' = Inr x'"
proof -
  from mk_execution_effect_Inr [OF assms] obtain f e s where
    parts: "mk_fill_event (fx_fill x) = Inr f" "mk_fill_entry (fx_entry x) = Inr e"
      "mk_event_envelope portfolio_payload_ops (fx_source_event x) = Inr s"
    and x': "x' = x\<lparr>fx_fill := f, fx_entry := e, fx_source_event := s\<rparr>" by blast
  have "is_fill_payload (ev_payload s) = is_fill_payload (ev_payload (fx_source_event x))"
    using parts(3) by (auto simp: mk_event_envelope_Inr_iff portfolio_payload_ops_def is_fill_payload_validate)
  moreover note mk_fill_event_stable [OF parts(1)] mk_fill_entry_stable [OF parts(2)] envelope_stable [OF parts(3)]
  ultimately show ?thesis
    using assms parts by (simp add: mk_execution_effect_def x' res_simps)
qed

lemma mapE_stable:
  assumes "\<And>x y. f x = Inr y \<Longrightarrow> f y = Inr y" "mapE f xs = Inr ys"
  shows "mapE f ys = Inr ys"
  using assms by (induction xs arbitrary: ys) (auto simp: res_simps)

lemma mk_replay_state_Inr:
  assumes "mk_replay_state s = Inr t"
  shows "t = s\<lparr>rp_active_effects := rp_active_effects t\<rparr>"
    and "mapE mk_execution_effect (rp_active_effects s) = Inr (rp_active_effects t)"
    and "mk_working_snapshot (rp_snapshot s) = Inr (rp_snapshot s)"
    and "sorted_unique sc_stream_id (rp_cursor s)"
    and "sorted_unique ae_event_id (rp_applied_events s)"
    and "sorted_unique rate_key (rp_valuation_rates s)"
    and "sorted_unique fx_execution_id (rp_active_effects t)"
    and "sorted_unique bi_identity_id (rp_execution_identities s)"
    and "sorted_unique bi_identity_id (rp_funding_identities s)"
    and "sorted_unique bi_identity_id (rp_reconciliation_identities s)"
  using assms mk_state_identity(6)
  by (auto simp: mk_replay_state_def ordered_state_def res_simps)

lemma mk_replay_state_stable:
  assumes "mk_replay_state s = Inr t"
  shows "mk_replay_state t = Inr t"
proof -
  have "mapE mk_execution_effect (rp_active_effects t) = Inr (rp_active_effects t)"
    using mk_execution_effect_stable mk_replay_state_Inr(2) [OF assms] by (rule mapE_stable)
  moreover have "rp_snapshot t = rp_snapshot s" "rp_cursor t = rp_cursor s" "rp_applied_events t = rp_applied_events s"
    "rp_valuation_rates t = rp_valuation_rates s" "rp_execution_identities t = rp_execution_identities s"
    "rp_funding_identities t = rp_funding_identities s"
    "rp_reconciliation_identities t = rp_reconciliation_identities s" "rp_reconciliation t = rp_reconciliation s"
    using mk_replay_state_Inr(1) [OF assms] by (metis replay_state.select_convs replay_state.surjective replay_state.update_convs(5))+
  ultimately show ?thesis
    using assms by (auto simp: mk_replay_state_def ordered_state_def res_simps)
qed

text \<open>A state the reducer accepts as an argument unchanged.\<close>

definition replay_valid :: "replay_state \<Rightarrow> bool" where
  "replay_valid s = (mk_replay_state s = Inr s)"

lemma mk_replay_state_valid: "mk_replay_state s = Inr t \<Longrightarrow> replay_valid t"
  unfolding replay_valid_def by (rule mk_replay_state_stable)

end
