(* ===== verification/Portfolio_Reducer.thy ===== *)
theory Portfolio_Reducer
  imports Portfolio_State
begin

section \<open>The portfolio reducer (packages/portfolio_reducer/reducer.py)\<close>

text \<open>
  Digests, business identities, the accounting of fills against the retained execution effects,
  balance updates, the handlers of the eight entry kinds and the dispatcher
  \<open>apply_portfolio_event\<close>. Serialisation and hashing are not the repository's code: they are
  the fields of a \<open>codec\<close>, where \<open>None\<close> means the library refused to serialise.
\<close>

record codec =
  cd_sha256 :: "string \<Rightarrow> string"
  cd_event_json :: "portfolio_event \<Rightarrow> string option"
  cd_payload_json :: "portfolio_payload \<Rightarrow> string option"
  cd_state_json :: "replay_state \<Rightarrow> datetime \<Rightarrow> string option"
  cd_uuid5 :: "string \<Rightarrow> uuid"

definition replay_error :: "string \<Rightarrow> 'a res" where
  "replay_error m = Inl (PortfolioReplayError m)"

definition replay_if :: "bool \<Rightarrow> string \<Rightarrow> unit res" where
  "replay_if c m = (if c then replay_error m else Inr ())"

lemma replay_error_simps [simp]: "replay_error m \<noteq> Inr x" "replay_error m = Inl (PortfolioReplayError m)"
  by (simp_all add: replay_error_def)

lemma replay_if_Inr_iff [res_simps]: "replay_if c m = Inr u \<longleftrightarrow> \<not> c"
  by (simp add: replay_if_def)

subsection \<open>Digests and identities\<close>

definition event_digest :: "codec \<Rightarrow> portfolio_event \<Rightarrow> string res" where
  "event_digest cd event =
     (case cd_event_json cd event of
        None \<Rightarrow> replay_error ''event cannot be canonically represented''
      | Some text \<Rightarrow> Inr (cd_sha256 cd text))"

definition payload_digest :: "codec \<Rightarrow> portfolio_payload \<Rightarrow> string res" where
  "payload_digest cd payload =
     (case cd_payload_json cd payload of
        None \<Rightarrow> replay_error ''portfolio payload cannot be canonically represented''
      | Some text \<Rightarrow> Inr (cd_sha256 cd text))"

definition identity_record :: "codec \<Rightarrow> portfolio_event \<Rightarrow> uuid \<Rightarrow> business_identity res" where
  "identity_record cd event identity_id =
     bindE (payload_digest cd (ev_payload event)) (\<lambda>pd.
     bindE (event_digest cd event) (\<lambda>ed.
     mk_business_identity
       \<lparr>bi_identity_id = identity_id, bi_payload_digest = pd, bi_event_id = ev_event_id event,
        bi_event_digest = ed, bi_stream_id = ev_stream_id event, bi_sequence = ev_sequence event\<rparr>))"

fun payload_business_identity :: "portfolio_payload \<Rightarrow> uuid option" where
  "payload_business_identity (FillEntry e) = Some (fe_execution_id (pfl_fill e))"
| "payload_business_identity (FundingEntry e) = Some (pfn_funding_id e)"
| "payload_business_identity (ReconciliationEntry e) = Some (prc_reconciliation_id e)"
| "payload_business_identity _ = None"

definition updated_identity_tuple ::
  "business_identity list \<Rightarrow> business_identity \<Rightarrow> string \<Rightarrow> business_identity list res" where
  "updated_identity_tuple identities rec label =
     (case find (\<lambda>i. bi_identity_id i = bi_identity_id rec) identities of
        Some existing \<Rightarrow>
          if bi_payload_digest existing = bi_payload_digest rec
          then replay_error (''duplicate '' @ label @ '' identity'')
          else replay_error (''conflicting '' @ label @ '' identity'')
      | None \<Rightarrow> Inr (sort_key bi_identity_id (identities @ [rec])))"

definition business_identities ::
  "codec \<Rightarrow> replay_state \<Rightarrow> portfolio_event
    \<Rightarrow> (business_identity list \<times> business_identity list \<times> business_identity list) res" where
  "business_identities cd s event =
     (let execution = rp_execution_identities s;
          funding = rp_funding_identities s;
          reconciliation = rp_reconciliation_identities s
      in case ev_payload event of
           FillEntry e \<Rightarrow>
             bindE (identity_record cd event (fe_execution_id (pfl_fill e))) (\<lambda>r.
             bindE (updated_identity_tuple execution r ''execution'') (\<lambda>x. Inr (x, funding, reconciliation)))
         | FundingEntry e \<Rightarrow>
             bindE (identity_record cd event (pfn_funding_id e)) (\<lambda>r.
             bindE (updated_identity_tuple funding r ''funding'') (\<lambda>x. Inr (execution, x, reconciliation)))
         | ReconciliationEntry e \<Rightarrow>
             bindE (identity_record cd event (prc_reconciliation_id e)) (\<lambda>r.
             bindE (updated_identity_tuple reconciliation r ''reconciliation'') (\<lambda>x. Inr (execution, funding, x)))
         | _ \<Rightarrow> Inr (execution, funding, reconciliation))"

definition validate_event :: "portfolio_event \<Rightarrow> portfolio_event res" where
  "validate_event event =
     catch_value_error (mk_event_envelope portfolio_payload_ops event)
       (PortfolioReplayError ''event envelope is invalid'')"

definition mk_applied :: "portfolio_event \<Rightarrow> string \<Rightarrow> applied_event res" where
  "mk_applied event digest =
     mk_applied_event
       \<lparr>ae_event_id = ev_event_id event, ae_digest = digest, ae_stream_id = ev_stream_id event,
        ae_sequence = ev_sequence event, ae_event_type = portfolio_event_type (ev_payload event),
        ae_business_identity_id = payload_business_identity (ev_payload event)\<rparr>"

definition sorted_applied :: "(uuid \<times> applied_event) list \<Rightarrow> applied_event list" where
  "sorted_applied items = map snd (sort_key fst items)"

definition sorted_cursor :: "(uuid \<times> int) list \<Rightarrow> stream_cursor list res" where
  "sorted_cursor items =
     mapE (\<lambda>(stream_id, sequence). mk_stream_cursor \<lparr>sc_stream_id = stream_id, sc_sequence = sequence\<rparr>)
       (sort_key fst items)"

definition or_else :: "'a option \<Rightarrow> 'a \<Rightarrow> 'a" where
  "or_else x d = (case x of None \<Rightarrow> d | Some y \<Rightarrow> y)"

definition next_state ::
  "codec \<Rightarrow> replay_state \<Rightarrow> working_snapshot option \<Rightarrow> portfolio_event \<Rightarrow> execution_effect list option
    \<Rightarrow> valuation_rate_state list option \<Rightarrow> reconciliation_entry option \<Rightarrow> replay_state res" where
  "next_state cd s snapshot event active_effects valuation_rates reconciliation =
     bindE (event_digest cd event) (\<lambda>digest.
     bindE (business_identities cd s event) (\<lambda>(execution, funding, reconciliations).
     bindE (mk_applied event digest) (\<lambda>a.
     let applied = dict_put (ev_event_id event) a (dict_of ae_event_id (rp_applied_events s));
         cursor = dict_put (ev_stream_id event) (ev_sequence event)
           (map (\<lambda>(k, c). (k, sc_sequence c)) (dict_of sc_stream_id (rp_cursor s)))
     in bindE (sorted_cursor cursor) (\<lambda>cursors.
     mk_replay_state
       \<lparr>rp_snapshot = or_else snapshot (rp_snapshot s),
        rp_cursor = cursors,
        rp_applied_events = sorted_applied applied,
        rp_valuation_rates = or_else valuation_rates (rp_valuation_rates s),
        rp_active_effects = or_else active_effects (rp_active_effects s),
        rp_execution_identities = execution,
        rp_funding_identities = funding,
        rp_reconciliation_identities = reconciliations,
        rp_reconciliation = (case reconciliation of None \<Rightarrow> rp_reconciliation s | Some r \<Rightarrow> Some r)\<rparr>))))"

definition opening_state :: "codec \<Rightarrow> portfolio_event \<Rightarrow> replay_state res" where
  "opening_state cd event =
     (case ev_payload event of
        OpeningEntry payload \<Rightarrow>
          bindE (mk_working_snapshot
            \<lparr>ws_account_id = po_account_id payload, ws_reporting_currency = po_reporting_currency payload,
             ws_balances = po_balances payload, ws_positions = [], ws_observed_at = po_effective_at payload,
             ws_schema_version = ''portfolio-working-v1''\<rparr>) (\<lambda>snapshot.
          bindE (event_digest cd event) (\<lambda>digest.
          bindE (mk_stream_cursor \<lparr>sc_stream_id = ev_stream_id event, sc_sequence = ev_sequence event\<rparr>) (\<lambda>c.
          bindE (mk_applied event digest) (\<lambda>a.
          mk_replay_state
            \<lparr>rp_snapshot = snapshot, rp_cursor = [c], rp_applied_events = [a], rp_valuation_rates = [],
             rp_active_effects = [], rp_execution_identities = [], rp_funding_identities = [],
             rp_reconciliation_identities = [], rp_reconciliation = None\<rparr>))))
      | _ \<Rightarrow> replay_error ''first portfolio event must be an opening entry'')"

subsection \<open>Accounting of fills\<close>

definition find_position :: "replay_state \<Rightarrow> string \<Rightarrow> string \<Rightarrow> position_state option" where
  "find_position s strategy_id instrument =
     find (\<lambda>p. pst_strategy_id p = strategy_id \<and> canonical (pst_instrument p) = instrument)
       (ws_positions (rp_snapshot s))"

definition new_position :: "fill_entry \<Rightarrow> fill_event \<Rightarrow> position_state res" where
  "new_position entry fill =
     (let d = fe_instrument_definition fill;
          currency = id_settlement_currency d
      in
      bindE (replay_quantity (dec_int 0) (oq_precision (fe_quantity fill))) (\<lambda>q.
      bindE (replay_money (dec_int 0) currency ''initial realized PnL'') (\<lambda>realized.
      bindE (replay_money (dec_int 0) currency ''initial unrealized PnL'') (\<lambda>unrealized.
      bindE (replay_money (dec_int 0) currency ''initial fees'') (\<lambda>fees.
      bindE (replay_money (dec_int 0) currency ''initial funding'') (\<lambda>funding.
      mk_position_state
        \<lparr>pst_account_id = pfl_account_id entry, pst_strategy_id = pfl_strategy_id entry,
         pst_instrument = id_instrument_id d, pst_instrument_definition = Some d,
         pst_settlement_currency = currency, pst_quantity = q, pst_mark = None,
         pst_average_entry_price = None, pst_realized_pnl = realized, pst_unrealized_pnl = unrealized,
         pst_fees = fees, pst_funding = funding, pst_observed_at = pfl_effective_at entry,
         pst_schema_version = ''portfolio-working-v1''\<rparr>))))))"

definition position_or_new :: "replay_state \<Rightarrow> fill_entry \<Rightarrow> fill_event \<Rightarrow> string \<Rightarrow> position_state res" where
  "position_or_new s entry fill strategy_id =
     (case find_position s strategy_id (canonical (id_instrument_id (fe_instrument_definition fill))) of
        Some p \<Rightarrow> Inr p
      | None \<Rightarrow> new_position entry fill)"

definition accounting_step :: "rat \<times> rat \<times> rat \<Rightarrow> execution_effect \<Rightarrow> (rat \<times> rat \<times> rat) res" where
  "accounting_step acc effect =
     (let (quantity, basis, realized) = acc
      in if fraction (q_value (fx_quantity_before effect)) \<noteq> quantity
         then replay_error ''active execution quantity lineage is inconsistent''
         else
           let realized = realized + realized_for_fill (fx_fill effect) quantity basis;
               (quantity, basis) = advanced_cost_basis quantity basis (fx_fill effect)
           in Inr (quantity, basis, realized))"

definition effects_of :: "execution_effect list \<Rightarrow> string \<times> string \<Rightarrow> execution_effect list" where
  "effects_of active_effects key =
     sort_key fx_logical_sequence (filter (\<lambda>x. fx_position_key x = key) active_effects)"

definition accounting_before ::
  "execution_effect list \<Rightarrow> string \<times> string \<Rightarrow> decimal \<Rightarrow> price option \<Rightarrow> (rat \<times> rat) res" where
  "accounting_before active_effects key current average_before =
     (let effects = effects_of active_effects key;
          (quantity, opening_average) =
            (case effects of
               [] \<Rightarrow> (fraction current, average_before)
             | x # _ \<Rightarrow> (fraction (q_value (fx_quantity_before x)), fx_average_before x))
      in if quantity \<noteq> 0 \<and> opening_average = None
         then replay_error ''non-zero position requires an average entry price''
         else
           let basis = (case opening_average of
                          None \<Rightarrow> 0 | Some a \<Rightarrow> \<bar>quantity\<bar> * fraction (p_amount a))
           in bindE (foldE accounting_step (quantity, basis, 0) effects) (\<lambda>(quantity, basis, realized).
              if quantity \<noteq> fraction current
              then replay_error ''active execution cost basis does not match position''
              else Inr (basis, realized)))"

definition cost_basis_before ::
  "execution_effect list \<Rightarrow> string \<times> string \<Rightarrow> decimal \<Rightarrow> price option \<Rightarrow> rat res" where
  "cost_basis_before active_effects key current average_before =
     bindE (accounting_before active_effects key current average_before) (\<lambda>(basis, _). Inr basis)"

record fill_result =
  fr_signed_fill :: decimal
  fr_residual :: decimal
  fr_next_average :: "price option"
  fr_realized :: rat
  fr_fee_delta :: decimal
  fr_basis_after :: rat

definition fill_accounting :: "fill_event \<Rightarrow> decimal \<Rightarrow> price option \<Rightarrow> rat \<Rightarrow> fill_result res" where
  "fill_accounting fill current average_before basis_before =
     (let d = fe_instrument_definition fill;
          signed_fill = (if fe_side fill = BUY then oq_value (fe_quantity fill)
                         else negated (oq_value (fe_quantity fill)))
      in
      bindE (sum_decimals [current, signed_fill] ''position quantity'') (\<lambda>residual.
      let current_fraction = fraction current;
          residual_fraction = current_fraction + fraction signed_fill
      in if current_fraction \<noteq> 0 \<and> average_before = None
         then replay_error ''non-zero position requires an average entry price''
         else
           let realized = realized_for_fill fill current_fraction basis_before;
               basis_after = snd (advanced_cost_basis current_fraction basis_before fill)
           in
           bindE (if residual_fraction = 0 then Inr None
                  else
                    bindE (rounded_decimal (basis_after / \<bar>residual_fraction\<bar>)
                             (cur_precision (id_settlement_currency d)) ''weighted average'') (\<lambda>a.
                    bindE (mk_price (PyDecimal a) (id_settlement_currency d)) (\<lambda>p. Inr (Some p)))) (\<lambda>next_average.
           let fee_delta = (if m_currency (fe_commission fill) = id_settlement_currency d
                            then m_amount (fe_commission fill) else dec_int 0)
           in Inr \<lparr>fr_signed_fill = signed_fill, fr_residual = residual, fr_next_average = next_average,
                   fr_realized = realized, fr_fee_delta = fee_delta, fr_basis_after = basis_after\<rparr>)))"

definition mark_and_unrealized ::
  "position_state \<Rightarrow> quantity \<Rightarrow> price option \<Rightarrow> rat \<Rightarrow> position_mark option
    \<Rightarrow> (position_mark option \<times> money) res" where
  "mark_and_unrealized position quantity average_entry_price cost_basis retained_mark =
     (let currency = pst_settlement_currency position;
          selected_mark = (case retained_mark of None \<Rightarrow> pst_mark position | Some m \<Rightarrow> Some m)
      in if is_zero (q_value quantity)
         then bindE (replay_money (dec_int 0) currency ''flat position unrealized PnL'') (\<lambda>m. Inr (None, m))
         else case selected_mark of
                None \<Rightarrow>
                  bindE (replay_money (dec_int 0) currency ''unmarked position unrealized PnL'') (\<lambda>m. Inr (None, m))
              | Some mark \<Rightarrow>
                  (case (average_entry_price, pst_instrument_definition position) of
                     (Some _, Some d) \<Rightarrow>
                       let q = fraction (q_value quantity)
                       in
                       bindE (rounded_decimal
                                ((fraction (p_amount (pm_price mark)) - cost_basis / \<bar>q\<bar>) * q * fraction (id_multiplier d))
                                (cur_precision currency) ''unrealized PnL'') (\<lambda>unrealized.
                       bindE (replay_money unrealized currency ''unrealized PnL'') (\<lambda>m.
                       Inr (Some mark, m)))
                   | _ \<Rightarrow> replay_error ''marked position requires cost basis and instrument definition''))"

definition realized_delta_of :: "rat \<Rightarrow> rat \<Rightarrow> int \<Rightarrow> decimal res" where
  "realized_delta_of realized_before realized precision =
     bindE (rounded_decimal (realized_before + realized) precision ''realized PnL'') (\<lambda>after.
     bindE (rounded_decimal realized_before precision ''realized PnL'') (\<lambda>prior.
     sum_decimals [after, negated prior] ''realized PnL delta''))"


definition fill_effect ::
  "replay_state \<Rightarrow> fill_entry \<Rightarrow> portfolio_event \<Rightarrow> int \<Rightarrow> position_mark option
    \<Rightarrow> (execution_effect \<times> position_state) res" where
  "fill_effect s entry source_event logical_sequence retained_mark =
     (let fill = pfl_fill entry;
          d = fe_instrument_definition fill
      in
      bindE (position_or_new s entry fill (pfl_strategy_id entry)) (\<lambda>position.
      bindE (replay_if (case pst_instrument_definition position of
                          None \<Rightarrow> False | Some d' \<Rightarrow> \<not> instrument_definition_eq d' d)
               ''fill instrument definition conflicts with active position'') (\<lambda>_.
      let current = q_value (pst_quantity position);
          key = (pfl_strategy_id entry, canonical (pst_instrument position));
          settlement = pst_settlement_currency position
      in
      bindE (accounting_before (rp_active_effects s) key current (pst_average_entry_price position)) (\<lambda>(basis_before, realized_before).
      bindE (fill_accounting fill current (pst_average_entry_price position) basis_before) (\<lambda>r.
      bindE (realized_delta_of realized_before (fr_realized r) (cur_precision (id_settlement_currency d))) (\<lambda>realized_delta.
      bindE (replay_quantity (fr_residual r) (oq_precision (fe_quantity fill))) (\<lambda>next_quantity.
      bindE (mark_and_unrealized position next_quantity (fr_next_average r) (fr_basis_after r) retained_mark) (\<lambda>(next_mark, next_unrealized).
      bindE (sum_decimals [m_amount (pst_realized_pnl position), realized_delta] ''realized PnL'') (\<lambda>realized_sum.
      bindE (replay_money realized_sum settlement ''realized PnL'') (\<lambda>realized_pnl.
      bindE (sum_decimals [m_amount (pst_fees position), fr_fee_delta r] ''position fees'') (\<lambda>fee_sum.
      bindE (replay_money fee_sum settlement ''position fees'') (\<lambda>fees.
      bindE (mk_position_state
        \<lparr>pst_account_id = pst_account_id position, pst_strategy_id = pst_strategy_id position,
         pst_instrument = pst_instrument position, pst_instrument_definition = Some d,
         pst_settlement_currency = settlement, pst_quantity = next_quantity, pst_mark = next_mark,
         pst_average_entry_price = fr_next_average r, pst_realized_pnl = realized_pnl,
         pst_unrealized_pnl = next_unrealized, pst_fees = fees, pst_funding = pst_funding position,
         pst_observed_at = pfl_effective_at entry, pst_schema_version = pst_schema_version position\<rparr>) (\<lambda>next_position.
      bindE (cash_deltas fill) (\<lambda>cash.
      bindE (if \<not> is_zero realized_delta
             then bindE (replay_money realized_delta settlement ''balance realized PnL'') (\<lambda>m. Inr [m])
             else Inr []) (\<lambda>balance_realized.
      bindE (replay_quantity (fr_signed_fill r) (oq_precision (fe_quantity fill))) (\<lambda>quantity_delta.
      bindE (replay_money realized_delta settlement ''realized PnL'') (\<lambda>realized_money.
      bindE (replay_money (fr_fee_delta r) settlement ''position fees'') (\<lambda>fee_money.
      bindE (mk_execution_effect
        \<lparr>fx_execution_id = fe_execution_id fill, fx_account_id = pfl_account_id entry,
         fx_strategy_id = pfl_strategy_id entry, fx_fill = fill, fx_entry = entry,
         fx_source_event = source_event, fx_logical_sequence = logical_sequence, fx_cash_deltas = cash,
         fx_balance_realized_pnl_deltas = balance_realized,
         fx_balance_fee_deltas = (if \<not> is_zero (m_amount (fe_commission fill)) then [fe_commission fill] else []),
         fx_position_key = key, fx_quantity_before = pst_quantity position,
         fx_quantity_delta = quantity_delta, fx_realized_pnl_delta = realized_money,
         fx_fees_delta = fee_money, fx_average_before = pst_average_entry_price position,
         fx_average_after = fr_next_average r\<rparr>) (\<lambda>effect.
      Inr (effect, next_position))))))))))))))))))))"

definition expect :: "bool \<Rightarrow> 'a res \<Rightarrow> 'a res" where
  "expect ok k = (if ok then k else replay_error ''snapshot execution effect does not match source fill economics'')"

definition validate_execution_effect :: "execution_effect \<Rightarrow> execution_effect list \<Rightarrow> unit res" where
  "validate_execution_effect effect prior_effects =
     (let fill = fx_fill effect;
          settlement = id_settlement_currency (fe_instrument_definition fill);
          precision = oq_precision (fe_quantity fill);
          expected_fees = (if \<not> is_zero (m_amount (fe_commission fill)) then [fe_commission fill] else [])
      in
      bindE (replay_if (fe_status fill \<notin> {FR_PARTIALLY_FILLED, FR_FILLED, FR_CORRECTION})
               ''snapshot effect source is not an active execution'') (\<lambda>_.
      bindE (accounting_before prior_effects (fx_position_key effect) (q_value (fx_quantity_before effect))
               (fx_average_before effect)) (\<lambda>(basis_before, realized_before).
      bindE (fill_accounting fill (q_value (fx_quantity_before effect)) (fx_average_before effect) basis_before) (\<lambda>r.
      bindE (realized_delta_of realized_before (fr_realized r) (cur_precision settlement)) (\<lambda>realized_delta.
      bindE (if \<not> is_zero realized_delta
             then bindE (replay_money realized_delta settlement ''balance realized PnL'') (\<lambda>m. Inr [m])
             else Inr []) (\<lambda>expected_realized.
      expect (fx_position_key effect = (fx_strategy_id effect, canonical (id_instrument_id (fe_instrument_definition fill)))) (
      bindE (replay_quantity (fr_signed_fill r) precision) (\<lambda>q.
      expect (quantity_eq (fx_quantity_delta effect) q) (
      bindE (cash_deltas fill) (\<lambda>cash.
      expect (list_all2 money_eq (fx_cash_deltas effect) cash
              \<and> list_all2 money_eq (fx_balance_realized_pnl_deltas effect) expected_realized
              \<and> list_all2 money_eq (fx_balance_fee_deltas effect) expected_fees) (
      bindE (replay_money realized_delta settlement ''realized PnL'') (\<lambda>m.
      expect (money_eq (fx_realized_pnl_delta effect) m) (
      bindE (replay_money (fr_fee_delta r) settlement ''position fees'') (\<lambda>m.
      expect (money_eq (fx_fees_delta effect) m \<and> option_eq price_eq (fx_average_after effect) (fr_next_average r))
        (Inr ())))))))))))))))"

subsection \<open>Balances and positions\<close>

definition add_delta ::
  "nat \<Rightarrow> string \<Rightarrow> (currency \<times> decimal list) list \<Rightarrow> money \<Rightarrow> (currency \<times> decimal list) list res" where
  "add_delta index field deltas_by_currency delta =
     (let current = (case map_of deltas_by_currency (m_currency delta) of
                       None \<Rightarrow> [dec_int 0, dec_int 0, dec_int 0, dec_int 0] | Some c \<Rightarrow> c)
      in bindE (sum_decimals [current ! index, m_amount delta] field) (\<lambda>x.
         Inr (dict_put (m_currency delta) (current[index := x]) deltas_by_currency)))"

definition collect_deltas ::
  "money list \<Rightarrow> money list \<Rightarrow> money list \<Rightarrow> money list \<Rightarrow> (currency \<times> decimal list) list res" where
  "collect_deltas cash realized fees unrealized =
     foldE (\<lambda>acc (index, deltas, field). foldE (add_delta index field) acc deltas) []
       [(0, cash, ''cash delta''), (1, realized, ''balance realized PnL delta''),
        (2, fees, ''balance fee delta''), (3, unrealized, ''balance unrealized PnL delta'')]"

definition add_money :: "money \<Rightarrow> decimal \<Rightarrow> currency \<Rightarrow> string \<Rightarrow> money res" where
  "add_money m delta currency field =
     bindE (sum_decimals [m_amount m, delta] field) (\<lambda>x. replay_money x currency field)"

definition rebuilt_balance ::
  "account_balance_snapshot \<Rightarrow> decimal list \<Rightarrow> datetime \<Rightarrow> account_balance_snapshot res" where
  "rebuilt_balance b deltas observed_at =
     catch_value_error (
       bindE (add_money (ab_cash b) (deltas ! 0) (ab_currency b) ''cash'') (\<lambda>cash.
       bindE (add_money (ab_realized_pnl b) (deltas ! 1) (ab_currency b) ''balance realized PnL'') (\<lambda>realized.
       bindE (add_money (ab_unrealized_pnl b) (deltas ! 3) (ab_currency b) ''balance unrealized PnL'') (\<lambda>unrealized.
       bindE (add_money (ab_fees b) (deltas ! 2) (ab_currency b) ''balance fees'') (\<lambda>fees.
       mk_account_balance_snapshot
         (b\<lparr>ab_cash := cash, ab_realized_pnl := realized, ab_unrealized_pnl := unrealized, ab_fees := fees,
            ab_observed_at := observed_at\<rparr>))))))
       (PortfolioReplayError ''cash balance cannot be reconstructed'')"

definition apply_delta ::
  "datetime \<Rightarrow> (currency \<times> account_balance_snapshot) list \<Rightarrow> currency \<times> decimal list
    \<Rightarrow> (currency \<times> account_balance_snapshot) list res" where
  "apply_delta observed_at by_currency item =
     (let (currency, deltas) = item
      in case map_of by_currency currency of
           None \<Rightarrow> replay_error (''missing balance for currency '' @ cur_code currency)
         | Some b \<Rightarrow> bindE (rebuilt_balance b deltas observed_at) (\<lambda>b'. Inr (dict_put currency b' by_currency)))"

definition sorted_balances :: "(currency \<times> account_balance_snapshot) list \<Rightarrow> account_balance_snapshot list" where
  "sorted_balances by_currency = map snd (sort_key (\<lambda>(c, _). cur_code c) by_currency)"

definition apply_balances ::
  "account_balance_snapshot list \<Rightarrow> money list \<Rightarrow> money list \<Rightarrow> money list \<Rightarrow> money list \<Rightarrow> datetime
    \<Rightarrow> account_balance_snapshot list res" where
  "apply_balances balances cash realized fees unrealized observed_at =
     bindE (collect_deltas cash realized fees unrealized) (\<lambda>deltas.
     bindE (foldE (apply_delta observed_at) (dict_of ab_currency balances) deltas) (\<lambda>by_currency.
     Inr (sorted_balances by_currency)))"

definition replace_position :: "working_snapshot \<Rightarrow> position_state \<Rightarrow> position_state list" where
  "replace_position snapshot replacement =
     (let same = (\<lambda>p. position_key p = position_key replacement);
          positions = map (\<lambda>p. if same p then replacement else p) (ws_positions snapshot);
          positions = (if \<not> list_ex same (ws_positions snapshot) then positions @ [replacement] else positions)
      in sort_key position_key positions)"

definition nonzero_money :: "decimal \<Rightarrow> currency \<Rightarrow> string \<Rightarrow> money list res" where
  "nonzero_money amount currency field =
     (if \<not> is_zero amount then bindE (replay_money amount currency field) (\<lambda>m. Inr [m]) else Inr [])"

definition with_effect ::
  "replay_state \<Rightarrow> execution_effect \<Rightarrow> position_state \<Rightarrow> datetime option \<Rightarrow> replay_state res" where
  "with_effect s effect next_position observed_at =
     (let applied_at = or_else observed_at (pfl_effective_at (fx_entry effect))
      in
      bindE (mk_position_state (next_position\<lparr>pst_observed_at := applied_at\<rparr>)) (\<lambda>applied_position.
      bindE (position_or_new s (fx_entry effect) (fx_fill effect) (fx_strategy_id effect)) (\<lambda>previous_position.
      bindE (sum_decimals [m_amount (pst_unrealized_pnl applied_position),
                           negated (m_amount (pst_unrealized_pnl previous_position))]
               ''balance unrealized PnL delta'') (\<lambda>unrealized_delta.
      bindE (nonzero_money unrealized_delta (pst_settlement_currency applied_position)
               ''balance unrealized PnL delta'') (\<lambda>unrealized.
      bindE (apply_balances (ws_balances (rp_snapshot s)) (fx_cash_deltas effect)
               (fx_balance_realized_pnl_deltas effect) (fx_balance_fee_deltas effect) unrealized applied_at) (\<lambda>balances.
      bindE (mk_working_snapshot
        ((rp_snapshot s)\<lparr>ws_balances := balances, ws_positions := replace_position (rp_snapshot s) applied_position,
                         ws_observed_at := applied_at\<rparr>)) (\<lambda>snapshot.
      mk_replay_state
        (s\<lparr>rp_snapshot := snapshot,
           rp_active_effects := sort_key fx_execution_id (rp_active_effects s @ [effect])\<rparr>))))))))"

definition apply_normal :: "codec \<Rightarrow> replay_state \<Rightarrow> portfolio_event \<Rightarrow> fill_entry \<Rightarrow> replay_state res" where
  "apply_normal cd s event entry =
     bindE (fill_effect s entry event (ev_sequence event) None) (\<lambda>(effect, next_position).
     bindE (with_effect s effect next_position None) (\<lambda>s'.
     next_state cd s' None event None None None))"

subsection \<open>Corrections and busts\<close>

definition same_economics :: "fill_event \<Rightarrow> fill_event \<Rightarrow> bool" where
  "same_economics left right =
     (instrument_definition_eq (fe_instrument_definition left) (fe_instrument_definition right)
      \<and> fe_side left = fe_side right
      \<and> order_quantity_eq (fe_quantity left) (fe_quantity right)
      \<and> price_eq (fe_last_fill_price left) (fe_last_fill_price right)
      \<and> price_eq (fe_average_fill_price left) (fe_average_fill_price right)
      \<and> money_eq (fe_commission left) (fe_commission right))"

definition reversed_money :: "string \<Rightarrow> money \<Rightarrow> money res" where
  "reversed_money field delta = replay_money (negated (m_amount delta)) (m_currency delta) field"

definition without_effect :: "execution_effect list \<Rightarrow> execution_effect \<Rightarrow> execution_effect list" where
  "without_effect effects effect = filter (\<lambda>x. fx_execution_id x \<noteq> fx_execution_id effect) effects"

definition reverse_effect :: "replay_state \<Rightarrow> execution_effect \<Rightarrow> datetime \<Rightarrow> working_snapshot res" where
  "reverse_effect s effect observed_at =
     (case find_position s (fx_strategy_id effect)
             (canonical (id_instrument_id (fe_instrument_definition (fx_fill effect)))) of
        None \<Rightarrow> replay_error ''active normal execution has no position to reverse''
      | Some position \<Rightarrow>
          (let settlement = pst_settlement_currency position
           in
           bindE (sum_decimals [q_value (pst_quantity position), negated (q_value (fx_quantity_delta effect))]
                    ''reversed position quantity'') (\<lambda>next_quantity.
           bindE (replay_quantity next_quantity (q_precision (pst_quantity position))) (\<lambda>next_quantity_value.
           bindE (cost_basis_before (without_effect (rp_active_effects s) effect) (fx_position_key effect)
                    next_quantity (fx_average_before effect)) (\<lambda>next_basis.
           bindE (mark_and_unrealized position next_quantity_value (fx_average_before effect) next_basis None) (\<lambda>(next_mark, next_unrealized).
           bindE (add_money (pst_realized_pnl position) (negated (m_amount (fx_realized_pnl_delta effect)))
                    settlement ''reversed realized PnL'') (\<lambda>realized.
           bindE (add_money (pst_fees position) (negated (m_amount (fx_fees_delta effect)))
                    settlement ''reversed fees'') (\<lambda>fees.
           bindE (mk_position_state
             (position\<lparr>pst_quantity := next_quantity_value, pst_mark := next_mark,
                pst_average_entry_price := fx_average_before effect, pst_realized_pnl := realized,
                pst_unrealized_pnl := next_unrealized, pst_fees := fees, pst_observed_at := observed_at\<rparr>)) (\<lambda>next_position.
           bindE (mapE (reversed_money ''reversed cash'') (fx_cash_deltas effect)) (\<lambda>reverse_cash.
           bindE (mapE (reversed_money ''reversed balance realized PnL'') (fx_balance_realized_pnl_deltas effect)) (\<lambda>reverse_realized.
           bindE (mapE (reversed_money ''reversed balance fees'') (fx_balance_fee_deltas effect)) (\<lambda>reverse_fees.
           bindE (sum_decimals [m_amount (pst_unrealized_pnl next_position), negated (m_amount (pst_unrealized_pnl position))]
                    ''reversed balance unrealized PnL'') (\<lambda>unrealized_delta.
           bindE (nonzero_money unrealized_delta settlement ''reversed balance unrealized PnL'') (\<lambda>unrealized.
           bindE (apply_balances (ws_balances (rp_snapshot s)) reverse_cash reverse_realized reverse_fees unrealized observed_at) (\<lambda>balances.
           mk_working_snapshot
             ((rp_snapshot s)\<lparr>ws_balances := balances, ws_positions := replace_position (rp_snapshot s) next_position,
                              ws_observed_at := observed_at\<rparr>))))))))))))))))"

definition remove_effect :: "datetime \<Rightarrow> replay_state \<Rightarrow> execution_effect \<Rightarrow> replay_state res" where
  "remove_effect observed_at s effect =
     bindE (reverse_effect s effect observed_at) (\<lambda>snapshot.
     mk_replay_state (s\<lparr>rp_snapshot := snapshot, rp_active_effects := without_effect (rp_active_effects s) effect\<rparr>))"

definition retained_mark_for :: "replay_state \<Rightarrow> string \<times> string \<Rightarrow> instrument_definition \<Rightarrow> position_mark option" where
  "retained_mark_for s key d =
     (case find_position s (fst key) (snd key) of
        None \<Rightarrow> None
      | Some p \<Rightarrow>
          (case pst_mark p of
             None \<Rightarrow> None
           | Some m \<Rightarrow>
               if pst_instrument p = id_instrument_id d
                  \<and> pst_settlement_currency p = id_settlement_currency d
                  \<and> p_currency (pm_price m) = pst_settlement_currency p
               then Some m else None))"

definition dict_get :: "('k \<times> 'v) list \<Rightarrow> 'k \<Rightarrow> 'v res" where
  "dict_get d k = (case map_of d k of None \<Rightarrow> Inl KeyError | Some v \<Rightarrow> Inr v)"

definition replay_later ::
  "((string \<times> string) \<times> position_mark option) list \<Rightarrow> datetime \<Rightarrow> replay_state \<Rightarrow> execution_effect
    \<Rightarrow> replay_state res" where
  "replay_later retained_marks observed_at s item =
     bindE (dict_get retained_marks (fx_position_key item)) (\<lambda>mark.
     bindE (fill_effect s (fx_entry item) (fx_source_event item) (fx_logical_sequence item) mark) (\<lambda>(replayed, next_position).
     with_effect s replayed next_position (Some observed_at)))"

definition rebase_later_effects ::
  "replay_state \<Rightarrow> execution_effect \<Rightarrow> portfolio_event \<Rightarrow> fill_entry \<Rightarrow> replay_state res" where
  "rebase_later_effects s effect event entry =
     (let replacement_definition = fe_instrument_definition (pfl_fill entry);
          replacement_key = (pfl_strategy_id entry, canonical (id_instrument_id replacement_definition));
          correction = (fe_status (pfl_fill entry) = FR_CORRECTION);
          affected = [(fx_position_key effect, fe_instrument_definition (fx_fill effect))];
          affected = (if correction then dict_put replacement_key replacement_definition affected else affected);
          later = sort_key fx_logical_sequence
            (filter (\<lambda>x. fx_position_key x \<in> fst ` set affected \<and> fx_logical_sequence effect < fx_logical_sequence x)
              (rp_active_effects s));
          retained_marks = map (\<lambda>(key, d). (key, retained_mark_for s key d)) affected
      in
      bindE (foldE (remove_effect (pfl_effective_at entry)) s
               (sort_key (\<lambda>x. - fx_logical_sequence x) (effect # later))) (\<lambda>rebased.
      bindE (if correction
             then
               bindE (dict_get retained_marks replacement_key) (\<lambda>mark.
               bindE (fill_effect rebased entry event (fx_logical_sequence effect) mark) (\<lambda>(replacement, next_position).
               with_effect rebased replacement next_position None))
             else Inr rebased) (\<lambda>rebased.
      foldE (replay_later retained_marks (pfl_effective_at entry)) rebased later)))"

definition consume_effect ::
  "codec \<Rightarrow> replay_state \<Rightarrow> portfolio_event \<Rightarrow> fill_entry \<Rightarrow> uuid \<Rightarrow> replay_state res" where
  "consume_effect cd s event entry reference =
     (case find (\<lambda>x. fx_execution_id x = reference) (rp_active_effects s) of
        None \<Rightarrow> replay_error ''reference must name an active normal execution''
      | Some effect \<Rightarrow>
          if fx_account_id effect \<noteq> pfl_account_id entry \<or> fx_strategy_id effect \<noteq> pfl_strategy_id entry
          then replay_error ''reference must name an active normal execution in the same account and strategy''
          else
            bindE (rebase_later_effects s effect event entry) (\<lambda>s'.
            next_state cd s' None event None None None))"

end
