(* ===== verification/Portfolio_Apply.thy ===== *)
theory Portfolio_Apply
  imports Portfolio_Reducer
begin

section \<open>Entry handlers and dispatch (packages/portfolio_reducer/reducer.py, lines 1005-1550)\<close>

text \<open>
  The handlers of mark, funding, conversion, valuation-rate, reconciliation and observation
  entries, the dispatcher \<open>apply_portfolio_event\<close>, the fold \<open>reduce_portfolio_events\<close>
  and the derived account snapshot with its exposures.
\<close>

subsection \<open>Handlers\<close>

definition updated_balance ::
  "account_balance_snapshot \<Rightarrow> decimal \<Rightarrow> decimal \<Rightarrow> datetime \<Rightarrow> account_balance_snapshot res" where
  "updated_balance b cash_delta funding_delta observed_at =
     bindE (add_money (ab_cash b) cash_delta (ab_currency b) ''cash'') (\<lambda>cash.
     bindE (add_money (ab_funding b) funding_delta (ab_currency b) ''funding'') (\<lambda>funding.
     mk_account_balance_snapshot
       (b\<lparr>ab_cash := cash, ab_funding := funding, ab_observed_at := observed_at\<rparr>)))"

definition make_working_snapshot ::
  "replay_state \<Rightarrow> account_balance_snapshot list option \<Rightarrow> position_state list option \<Rightarrow> datetime
    \<Rightarrow> working_snapshot res" where
  "make_working_snapshot s balances positions observed_at =
     (let w = rp_snapshot s
      in mk_working_snapshot
           (w\<lparr>ws_balances := or_else balances (ws_balances w), ws_positions := or_else positions (ws_positions w),
              ws_observed_at := observed_at\<rparr>))"

definition marks_position :: "mark_entry \<Rightarrow> position_state \<Rightarrow> bool" where
  "marks_position entry p = (pst_instrument p = pmk_instrument entry \<and> \<not> is_zero (q_value (pst_quantity p)))"

definition mark_step ::
  "replay_state \<Rightarrow> mark_entry \<Rightarrow> position_state list \<times> (currency \<times> decimal) list \<Rightarrow> position_state
    \<Rightarrow> (position_state list \<times> (currency \<times> decimal) list) res" where
  "mark_step s entry acc position =
     (let (positions, unrealized_by_currency) = acc;
          currency = pst_settlement_currency position
      in if \<not> marks_position entry position then Inr (positions @ [position], unrealized_by_currency)
      else
        bindE (replay_if (p_currency (pm_price (pmk_mark entry)) \<noteq> currency)
                 ''mark currency must match position settlement currency'') (\<lambda>_.
        bindE (if pst_average_entry_price position = None \<or> pst_instrument_definition position = None
               then Inl AssertionError else Inr ()) (\<lambda>_.
        bindE (cost_basis_before (rp_active_effects s) (position_key position)
                 (q_value (pst_quantity position)) (pst_average_entry_price position)) (\<lambda>basis.
        bindE (mark_and_unrealized position (pst_quantity position) (pst_average_entry_price position)
                 basis (Some (pmk_mark entry))) (\<lambda>(_, next_unrealized).
        bindE (sum_decimals [m_amount next_unrealized, negated (m_amount (pst_unrealized_pnl position))]
                 ''balance unrealized PnL delta'') (\<lambda>unrealized_delta.
        bindE (sum_decimals [or_else (map_of unrealized_by_currency currency) (dec_int 0), unrealized_delta]
                 ''balance unrealized PnL delta'') (\<lambda>total.
        bindE (mk_position_state
                 (position\<lparr>pst_mark := Some (pmk_mark entry), pst_unrealized_pnl := next_unrealized,
                    pst_observed_at := pmk_effective_at entry\<rparr>)) (\<lambda>marked.
        Inr (positions @ [marked], dict_put currency total unrealized_by_currency)))))))))"

definition apply_mark :: "codec \<Rightarrow> replay_state \<Rightarrow> portfolio_event \<Rightarrow> mark_entry \<Rightarrow> replay_state res" where
  "apply_mark cd s event entry =
     bindE (replay_if (dt_lt (pmk_effective_at entry) (pmk_marked_at entry))
              ''mark time must not be after event effective time'') (\<lambda>_.
     bindE (replay_if (list_ex (\<lambda>p. marks_position entry p
                         \<and> (case pst_mark p of None \<Rightarrow> False | Some m \<Rightarrow> dt_lt (pmk_marked_at entry) (pm_marked_at m)))
                       (ws_positions (rp_snapshot s)))
              ''mark time is older than retained mark'') (\<lambda>_.
     bindE (foldE (mark_step s entry) ([], []) (ws_positions (rp_snapshot s))) (\<lambda>(positions, unrealized_by_currency).
     bindE (mapE (\<lambda>(currency, amount). replay_money amount currency ''balance unrealized PnL delta'')
              (filter (\<lambda>(_, amount). \<not> is_zero amount)
                (sort_key (\<lambda>(c, _). cur_code c) unrealized_by_currency))) (\<lambda>unrealized.
     bindE (apply_balances (ws_balances (rp_snapshot s)) [] [] [] unrealized (pmk_effective_at entry)) (\<lambda>balances.
     bindE (make_working_snapshot s (Some balances) (Some positions) (pmk_effective_at entry)) (\<lambda>snapshot.
     next_state cd s (Some snapshot) event None None None))))))"

definition apply_funding :: "codec \<Rightarrow> replay_state \<Rightarrow> portfolio_event \<Rightarrow> funding_entry \<Rightarrow> replay_state res" where
  "apply_funding cd s event entry =
     (let by_currency = dict_of ab_currency (ws_balances (rp_snapshot s));
          amount = pfn_amount entry;
          currency = m_currency amount
      in case map_of by_currency currency of
           None \<Rightarrow> replay_error (''missing balance for funding currency '' @ cur_code currency)
         | Some b \<Rightarrow>
             (case pfn_strategy_id entry of
                None \<Rightarrow>
                  bindE (updated_balance b (m_amount amount) (m_amount amount) (pfn_effective_at entry)) (\<lambda>b'.
                  bindE (make_working_snapshot s (Some (sorted_balances (dict_put currency b' by_currency))) None
                           (pfn_effective_at entry)) (\<lambda>snapshot.
                  next_state cd s (Some snapshot) event None None None))
              | Some strategy_id \<Rightarrow>
                  (case pfn_instrument entry of
                     None \<Rightarrow> Inl AssertionError
                   | Some instrument \<Rightarrow>
                       (case find_position s strategy_id (canonical instrument) of
                          None \<Rightarrow> replay_error ''funding position key does not name an existing position''
                        | Some position \<Rightarrow>
                            bindE (replay_if (currency \<noteq> pst_settlement_currency position)
                                     ''funding currency must match position settlement currency'') (\<lambda>_.
                            bindE (add_money (pst_funding position) (m_amount amount)
                                     (pst_settlement_currency position) ''position funding'') (\<lambda>funding.
                            bindE (mk_position_state
                                     (position\<lparr>pst_funding := funding, pst_observed_at := pfn_effective_at entry\<rparr>)) (\<lambda>replacement.
                            bindE (updated_balance b (m_amount amount) (m_amount amount) (pfn_effective_at entry)) (\<lambda>b'.
                            bindE (make_working_snapshot s (Some (sorted_balances (dict_put currency b' by_currency)))
                                     (Some (replace_position (rp_snapshot s) replacement)) (pfn_effective_at entry)) (\<lambda>snapshot.
                            next_state cd s (Some snapshot) event None None None)))))))))"

definition apply_conversion ::
  "codec \<Rightarrow> replay_state \<Rightarrow> portfolio_event \<Rightarrow> conversion_entry \<Rightarrow> replay_state res" where
  "apply_conversion cd s event entry =
     (let conversion = pcv_conversion entry;
          src = cc_source conversion;
          tgt = cc_target conversion;
          by_currency = dict_of ab_currency (ws_balances (rp_snapshot s))
      in
      bindE (replay_if (dec_le (m_amount src) (dec_int 0)) ''conversion source amount must be positive'') (\<lambda>_.
      case (map_of by_currency (m_currency src), map_of by_currency (m_currency tgt)) of
        (Some source, Some target) \<Rightarrow>
          bindE (replay_if (dec_lt (m_amount (ab_cash source)) (m_amount src))
                   ''insufficient source cash for conversion'') (\<lambda>_.
          bindE (updated_balance source (negated (m_amount src)) (dec_int 0) (pcv_effective_at entry)) (\<lambda>source'.
          let by_currency = dict_put (ab_currency source) source' by_currency
          in
          bindE (updated_balance target (m_amount tgt) (dec_int 0) (pcv_effective_at entry)) (\<lambda>target'.
          let by_currency = dict_put (ab_currency target) target' by_currency
          in
          bindE (make_working_snapshot s (Some (sorted_balances by_currency)) None (pcv_effective_at entry)) (\<lambda>snapshot.
          next_state cd s (Some snapshot) event None None None))))
      | _ \<Rightarrow> replay_error ''conversion requires balances for both currencies''))"

definition rate_currencies :: "valuation_rate_state \<Rightarrow> currency \<times> currency" where
  "rate_currencies v = (vr_source_currency v, vr_target_currency v)"

definition apply_valuation_rate ::
  "codec \<Rightarrow> replay_state \<Rightarrow> portfolio_event \<Rightarrow> valuation_rate_entry \<Rightarrow> replay_state res" where
  "apply_valuation_rate cd s event entry =
     (let rates = dict_of rate_currencies (rp_valuation_rates s);
          key = (pvr_source_currency entry, pvr_target_currency entry)
      in
      bindE (if (case map_of rates key of
                   None \<Rightarrow> True | Some existing \<Rightarrow> dt_lt (vr_quoted_at existing) (pvr_quoted_at entry))
             then
               bindE (mk_valuation_rate_state
                 \<lparr>vr_source_currency = pvr_source_currency entry, vr_target_currency = pvr_target_currency entry,
                  vr_rate = pvr_rate entry, vr_quoted_at = pvr_quoted_at entry,
                  vr_provenance_id = pvr_provenance_id entry\<rparr>) (\<lambda>v.
               Inr (dict_put key v rates))
             else Inr rates) (\<lambda>rates.
      next_state cd s None event None
        (Some (map snd (sort_key (\<lambda>(k, _). (cur_code (fst k), cur_code (snd k))) rates))) None))"

definition reconciled_position ::
  "((string \<times> string) \<times> instrument_definition option) list \<Rightarrow> account_position_snapshot \<Rightarrow> position_state res" where
  "reconciled_position definitions position =
     (let d = or_else (map_of definitions (position_snapshot_key position)) None
      in
      bindE (replay_if (d = None \<and> \<not> is_zero (q_value (ap_quantity position)))
               ''reconciliation position has no retained instrument definition'') (\<lambda>_.
      mk_position_state
        \<lparr>pst_account_id = ap_account_id position, pst_strategy_id = ap_strategy_id position,
         pst_instrument = ap_instrument position, pst_instrument_definition = d,
         pst_settlement_currency = ap_settlement_currency position, pst_quantity = ap_quantity position,
         pst_mark = ap_mark position, pst_average_entry_price = ap_average_entry_price position,
         pst_realized_pnl = ap_realized_pnl position, pst_unrealized_pnl = ap_unrealized_pnl position,
         pst_fees = ap_fees position, pst_funding = ap_funding position,
         pst_observed_at = ap_observed_at position, pst_schema_version = ap_schema_version position\<rparr>))"

definition apply_reconciliation ::
  "codec \<Rightarrow> replay_state \<Rightarrow> portfolio_event \<Rightarrow> reconciliation_entry \<Rightarrow> replay_state res" where
  "apply_reconciliation cd s event entry =
     (let definitions = map (\<lambda>(k, p). (k, pst_instrument_definition p))
            (dict_of position_key (ws_positions (rp_snapshot s)));
          observed = prc_snapshot entry
      in
      bindE (mapE (reconciled_position definitions) (as_positions observed)) (\<lambda>positions.
      bindE (mk_working_snapshot
        \<lparr>ws_account_id = as_account_id observed, ws_reporting_currency = as_reporting_currency observed,
         ws_balances = as_balances observed, ws_positions = positions,
         ws_observed_at = as_observed_at observed, ws_schema_version = ''portfolio-working-v1''\<rparr>) (\<lambda>snapshot.
      next_state cd s (Some snapshot) event (Some []) None (Some entry))))"

definition apply_observation ::
  "codec \<Rightarrow> replay_state \<Rightarrow> portfolio_event \<Rightarrow> observation_entry \<Rightarrow> replay_state res" where
  "apply_observation cd s event payload =
     (case find (\<lambda>b. ab_currency b = pob_currency payload) (ws_balances (rp_snapshot s)) of
        None \<Rightarrow> replay_error ''account observation does not match reduced portfolio state''
      | Some b \<Rightarrow>
          bindE (replay_if (\<not> money_eq (ab_cash b) (pob_cash_balance payload) \<or> \<not> money_eq (ab_fees b) (pob_fees payload)
                            \<or> \<not> money_eq (ab_realized_pnl b) (pob_realized_pnl payload)
                            \<or> \<not> money_eq (ab_unrealized_pnl b) (pob_unrealized_pnl payload))
                   ''account observation does not match reduced portfolio state'') (\<lambda>_.
          bindE (replay_if (dt_lt (pob_effective_at payload) (ws_observed_at (rp_snapshot s)))
                   ''account observation time cannot regress'') (\<lambda>_.
          next_state cd s (Some ((rp_snapshot s)\<lparr>ws_observed_at := pob_effective_at payload\<rparr>)) event None None None)))"

subsection \<open>Dispatch\<close>

definition apply_duplicate :: "codec \<Rightarrow> replay_state \<Rightarrow> portfolio_event \<Rightarrow> fill_entry \<Rightarrow> replay_state res" where
  "apply_duplicate cd s event entry =
     (let fill = pfl_fill entry
      in case find (\<lambda>x. Some (fx_execution_id x) = fe_duplicate_of_execution_id fill) (rp_active_effects s) of
           None \<Rightarrow> replay_error ''duplicate must reference an active normal execution''
         | Some effect \<Rightarrow>
             bindE (replay_if (fx_account_id effect \<noteq> pfl_account_id entry \<or> fx_strategy_id effect \<noteq> pfl_strategy_id entry)
                      ''duplicate must reference an active normal execution'') (\<lambda>_.
             bindE (replay_if (\<not> same_economics (fx_fill effect) fill)
                      ''duplicate economics do not match referenced execution'') (\<lambda>_.
             next_state cd s None event None None None)))"

definition apply_fill :: "codec \<Rightarrow> replay_state \<Rightarrow> portfolio_event \<Rightarrow> fill_entry \<Rightarrow> replay_state res" where
  "apply_fill cd s event entry =
     (let fill = pfl_fill entry
      in case fe_status fill of
           FR_DUPLICATE \<Rightarrow> apply_duplicate cd s event entry
         | FR_CORRECTION \<Rightarrow>
             (case fe_correction_of_execution_id fill of
                None \<Rightarrow> Inl AssertionError | Some reference \<Rightarrow> consume_effect cd s event entry reference)
         | FR_BUST \<Rightarrow>
             (case fe_bust_of_execution_id fill of
                None \<Rightarrow> Inl AssertionError | Some reference \<Rightarrow> consume_effect cd s event entry reference)
         | _ \<Rightarrow>
             bindE (replay_if (fe_execution_id fill \<in> set (active_execution_ids s))
                      ''normal execution is already active'') (\<lambda>_.
             apply_normal cd s event entry))"

fun payload_account :: "portfolio_payload \<Rightarrow> string" where
  "payload_account (OpeningEntry e) = po_account_id e"
| "payload_account (ObservationEntry e) = pob_account_id e"
| "payload_account (FillEntry e) = pfl_account_id e"
| "payload_account (MarkEntry e) = pmk_account_id e"
| "payload_account (FundingEntry e) = pfn_account_id e"
| "payload_account (ConversionEntry e) = pcv_account_id e"
| "payload_account (ValuationRateEntry e) = pvr_account_id e"
| "payload_account (ReconciliationEntry e) = prc_account_id e"

definition is_opening :: "portfolio_payload \<Rightarrow> bool" where
  "is_opening p = (case p of OpeningEntry _ \<Rightarrow> True | _ \<Rightarrow> False)"

definition apply_payload :: "codec \<Rightarrow> replay_state \<Rightarrow> portfolio_event \<Rightarrow> replay_state res" where
  "apply_payload cd s event =
     (case ev_payload event of
        MarkEntry e \<Rightarrow> apply_mark cd s event e
      | FundingEntry e \<Rightarrow> apply_funding cd s event e
      | ConversionEntry e \<Rightarrow> apply_conversion cd s event e
      | ValuationRateEntry e \<Rightarrow> apply_valuation_rate cd s event e
      | ReconciliationEntry e \<Rightarrow> apply_reconciliation cd s event e
      | ObservationEntry e \<Rightarrow> apply_observation cd s event e
      | FillEntry e \<Rightarrow> apply_fill cd s event e
      | OpeningEntry e \<Rightarrow> replay_error ''portfolio opening may only appear once'')"

definition apply_portfolio_event :: "codec \<Rightarrow> replay_state \<Rightarrow> portfolio_event \<Rightarrow> replay_state res" where
  "apply_portfolio_event cd s event =
     bindE (validate_event event) (\<lambda>e.
     bindE (event_digest cd e) (\<lambda>digest.
     case map_of (map (\<lambda>(k, a). (k, ae_digest a)) (dict_of ae_event_id (rp_applied_events s))) (ev_event_id e) of
       Some previous \<Rightarrow> bindE (replay_if (previous \<noteq> digest) ''conflicting event identity'') (\<lambda>_. Inr s)
     | None \<Rightarrow>
         bindE (replay_if (ev_stream_id e \<notin> sc_stream_id ` set (rp_cursor s))
                  ''event stream does not match portfolio state'') (\<lambda>_.
         bindE (replay_if (is_opening (ev_payload e)) ''portfolio opening may only appear once'') (\<lambda>_.
         bindE (replay_if (payload_account (ev_payload e) \<noteq> ws_account_id (rp_snapshot s))
                  ''portfolio event account does not match state account'') (\<lambda>_.
         bindE (business_identities cd s e) (\<lambda>_.
         apply_payload cd s e))))))"

definition reduce_portfolio_events :: "codec \<Rightarrow> portfolio_event list \<Rightarrow> replay_state res" where
  "reduce_portfolio_events cd events =
     bindE (mapE validate_event events) (\<lambda>batch.
     case batch of
       [] \<Rightarrow> replay_error ''portfolio event history requires an opening entry''
     | first # rest \<Rightarrow>
         bindE (opening_state cd first) (\<lambda>s. foldE (apply_portfolio_event cd) s rest))"

subsection \<open>The derived account snapshot\<close>

definition exposure :: "decimal \<Rightarrow> decimal \<Rightarrow> currency \<Rightarrow> exposure_snapshot res" where
  "exposure gross_amount net_amount currency =
     bindE (replay_money gross_amount currency ''exposure gross'') (\<lambda>gross.
     bindE (replay_money net_amount currency ''exposure net'') (\<lambda>net.
     bindE (replay_money (dec_int 0) currency ''exposure pending'') (\<lambda>pending.
     mk_exposure_snapshot \<lparr>ex_currency = currency, ex_gross = gross, ex_net = net, ex_pending = pending\<rparr>)))"

definition valuation_rate :: "replay_state \<Rightarrow> currency \<Rightarrow> currency \<Rightarrow> datetime \<Rightarrow> decimal res" where
  "valuation_rate s source_currency target_currency observed_at =
     (let missing = replay_error
            (''explicit valuation rate is required for '' @ cur_code source_currency @ ''/'' @ cur_code target_currency)
      in if source_currency = target_currency then Inr (dec_int 1)
         else case find (\<lambda>v. vr_source_currency v = source_currency \<and> vr_target_currency v = target_currency)
                     (rp_valuation_rates s) of
                None \<Rightarrow> missing
              | Some rate \<Rightarrow> if dt_lt observed_at (vr_quoted_at rate) then missing else Inr (vr_rate rate))"

type_synonym 'k amounts = "('k \<times> decimal \<times> decimal) list"

definition add_exposure :: "'k amounts \<Rightarrow> 'k \<Rightarrow> decimal \<Rightarrow> decimal \<Rightarrow> string \<Rightarrow> 'k amounts res" where
  "add_exposure amounts key notional net_delta field =
     (let (gross, net) = or_else (map_of amounts key) (dec_int 0, dec_int 0)
      in
      bindE (sum_decimals [gross, notional] (field @ '' gross'')) (\<lambda>g.
      bindE (sum_decimals [net, net_delta] (field @ '' net'')) (\<lambda>n.
      Inr (dict_put key (g, n) amounts))))"

record exposure_scan =
  es_positions :: "account_position_snapshot list"
  es_instruments :: "instrument_id amounts"
  es_strategies :: "string amounts"
  es_venues :: "string amounts"

definition observed_position :: "position_state \<Rightarrow> account_position_snapshot" where
  "observed_position p =
     \<lparr>ap_account_id = pst_account_id p, ap_strategy_id = pst_strategy_id p, ap_instrument = pst_instrument p,
      ap_settlement_currency = pst_settlement_currency p, ap_quantity = pst_quantity p, ap_mark = pst_mark p,
      ap_average_entry_price = pst_average_entry_price p, ap_realized_pnl = pst_realized_pnl p,
      ap_unrealized_pnl = pst_unrealized_pnl p, ap_fees = pst_fees p, ap_funding = pst_funding p,
      ap_observed_at = pst_observed_at p, ap_schema_version = pst_schema_version p\<rparr>"

definition position_notional :: "replay_state \<Rightarrow> datetime \<Rightarrow> position_state \<Rightarrow> position_mark \<Rightarrow> decimal res" where
  "position_notional s observed_at p mark =
     bindE (valuation_rate s (pst_settlement_currency p) (ws_reporting_currency (rp_snapshot s)) observed_at) (\<lambda>rate.
     case pst_instrument_definition p of
       None \<Rightarrow> Inl AttributeError
     | Some d \<Rightarrow>
         product_decimals [copy_abs (q_value (pst_quantity p)), p_amount (pm_price mark), id_multiplier d, rate]
           ''marked exposure'')"

definition exposure_step :: "replay_state \<Rightarrow> datetime \<Rightarrow> exposure_scan \<Rightarrow> position_state \<Rightarrow> exposure_scan res" where
  "exposure_step s observed_at acc p =
     bindE (mk_account_position_snapshot (observed_position p)) (\<lambda>o'.
     let acc = acc\<lparr>es_positions := es_positions acc @ [o']\<rparr>
     in if is_zero (q_value (pst_quantity p)) then Inr acc
        else case pst_mark p of
               None \<Rightarrow> replay_error ''non-zero position requires a mark for exposure derivation''
             | Some mark \<Rightarrow>
                 bindE (position_notional s observed_at p mark) (\<lambda>notional.
                 let net_delta = (if dec_lt (dec_int 0) (q_value (pst_quantity p)) then notional else negated notional)
                 in
                 bindE (add_exposure (es_instruments acc) (pst_instrument p) notional net_delta ''instrument exposure'') (\<lambda>is'.
                 bindE (add_exposure (es_strategies acc) (pst_strategy_id p) notional net_delta ''strategy exposure'') (\<lambda>ss.
                 bindE (add_exposure (es_venues acc) (ii_venue (pst_instrument p)) notional net_delta ''venue exposure'') (\<lambda>vs.
                 Inr (acc\<lparr>es_instruments := is', es_strategies := ss, es_venues := vs\<rparr>))))))"

definition derive_account_snapshot :: "codec \<Rightarrow> replay_state \<Rightarrow> datetime \<Rightarrow> account_portfolio_snapshot res" where
  "derive_account_snapshot cd s observed_at =
     (let w = rp_snapshot s;
          reporting = ws_reporting_currency w
      in
      bindE (replay_if (dt_lt observed_at (ws_observed_at w))
               ''snapshot observation time cannot predate reducer state'') (\<lambda>_.
      bindE (foldE (exposure_step s observed_at)
               \<lparr>es_positions = [], es_instruments = [], es_strategies = [], es_venues = []\<rparr> (ws_positions w)) (\<lambda>acc.
      bindE (sum_decimals (map (\<lambda>(_, g, _). g) (es_instruments acc)) ''total exposure gross'') (\<lambda>total_gross.
      bindE (sum_decimals (map (\<lambda>(_, _, n). n) (es_instruments acc)) ''total exposure net'') (\<lambda>total_net.
      bindE (case cd_state_json cd s observed_at of
               None \<Rightarrow> replay_error ''snapshot state cannot be canonically represented''
             | Some document \<Rightarrow> Inr document) (\<lambda>state_document.
      bindE (exposure total_gross total_net reporting) (\<lambda>total.
      bindE (mapE (\<lambda>(i, g, n). bindE (exposure g n reporting) (\<lambda>e. mk_instrument_exposure \<lparr>ie_instrument = i, ie_exposure = e\<rparr>))
               (sort_key (\<lambda>(i, _). canonical i) (es_instruments acc))) (\<lambda>instrument_exposures.
      bindE (mapE (\<lambda>(i, g, n). bindE (exposure g n reporting) (\<lambda>e. mk_strategy_exposure \<lparr>se_strategy_id = i, se_exposure = e\<rparr>))
               (sort_key fst (es_strategies acc))) (\<lambda>strategy_exposures.
      bindE (mapE (\<lambda>(i, g, n). bindE (exposure g n reporting) (\<lambda>e. mk_venue_exposure \<lparr>ve_venue_id = i, ve_exposure = e\<rparr>))
               (sort_key fst (es_venues acc))) (\<lambda>venue_exposures.
      mk_account_portfolio_snapshot
        \<lparr>as_snapshot_id = cd_uuid5 cd state_document, as_account_id = ws_account_id w,
         as_reporting_currency = reporting, as_balances = ws_balances w,
         as_positions = sort_key position_snapshot_key (es_positions acc),
         as_total_exposure = total, as_instrument_exposures = instrument_exposures,
         as_strategy_exposures = strategy_exposures, as_venue_exposures = venue_exposures,
         as_observed_at = observed_at, as_schema_version = ''portfolio-snapshot-v1''\<rparr>))))))))))"

end
