(* ===== verification/Portfolio_Sample.thy ===== *)
theory Portfolio_Sample
  imports Portfolio_Apply
begin

section \<open>A sample portfolio stream\<close>

text \<open>
  An opening with two balances and one buy of 0.02 at 5 with a commission of 0.1, with the states
  the reducer reaches: the concrete input at which the properties of the reducer are applied.
\<close>

definition money_of :: "nat \<Rightarrow> nat \<Rightarrow> currency \<Rightarrow> money" where
  "money_of c n cur = \<lparr>m_amount = dec c n, m_currency = cur\<rparr>"

definition demo_balance :: "currency \<Rightarrow> nat \<Rightarrow> account_balance_snapshot" where
  "demo_balance cur cash =
     \<lparr>ab_account_id = ''A'', ab_currency = cur, ab_cash = money_of cash 0 cur,
      ab_locked_funds = money_of 0 0 cur, ab_margin_used = money_of 0 0 cur, ab_realized_pnl = money_of 0 0 cur,
      ab_unrealized_pnl = money_of 0 0 cur, ab_fees = money_of 0 0 cur, ab_funding = money_of 0 0 cur,
      ab_observed_at = demo_time, ab_schema_version = ''1''\<rparr>"

definition demo_envelope :: "uuid \<Rightarrow> int \<Rightarrow> portfolio_payload \<Rightarrow> portfolio_event" where
  "demo_envelope i n p =
     \<lparr>ev_event_id = i, ev_event_type = portfolio_event_type p, ev_schema_version = ''1'', ev_source = ''S'',
      ev_stream_id = 5, ev_sequence = n, ev_observed_at = demo_time, ev_ingested_at = demo_time,
      ev_produced_at = demo_time, ev_effective_at = demo_time,
      ev_expires_at = demo_time\<lparr>dt_year := 2030\<rparr>, ev_correlation_id = 0, ev_causation_id = 0,
      ev_trace_id = 0, ev_payload = p\<rparr>"

definition demo_opening :: portfolio_event where
  "demo_opening = demo_envelope 1 1 (OpeningEntry
     \<lparr>po_account_id = ''A'', po_effective_at = demo_time, po_schema_version = ''1'',
      po_reporting_currency = USDT, po_balances = [demo_balance USD 50, demo_balance USDT 90],
      po_source_id = ''S'', po_source_revision = ''1''\<rparr>)"

definition demo_fill_entry :: fill_entry where
  "demo_fill_entry =
     \<lparr>pfl_account_id = ''A'', pfl_effective_at = demo_time, pfl_schema_version = ''1'',
      pfl_strategy_id = ''S'', pfl_fill = demo_fill 2 2\<rparr>"

definition demo_filled :: portfolio_event where
  "demo_filled = demo_envelope 2 2 (FillEntry demo_fill_entry)"

definition demo_codec :: codec where
  "demo_codec =
     \<lparr>cd_sha256 = demo_sha, cd_event_json = (\<lambda>_. Some []), cd_payload_json = (\<lambda>_. Some []),
      cd_state_json = (\<lambda>_ _. Some []), cd_uuid5 = (\<lambda>_. 9)\<rparr>"

subsection \<open>States\<close>

definition demo_open_snapshot :: working_snapshot where
  "demo_open_snapshot =
     \<lparr>ws_account_id = ''A'', ws_reporting_currency = USDT,
      ws_balances = [demo_balance USD 50, demo_balance USDT 90], ws_positions = [],
      ws_observed_at = demo_time, ws_schema_version = ''portfolio-working-v1''\<rparr>"

definition demo_applied :: "uuid \<Rightarrow> int \<Rightarrow> string \<Rightarrow> uuid option \<Rightarrow> applied_event" where
  "demo_applied i n ty b =
     \<lparr>ae_event_id = i, ae_digest = replicate 64 (CHR ''0''), ae_stream_id = 5, ae_sequence = n,
      ae_event_type = ty, ae_business_identity_id = b\<rparr>"

definition demo_open_state :: replay_state where
  "demo_open_state =
     \<lparr>rp_snapshot = demo_open_snapshot, rp_cursor = [\<lparr>sc_stream_id = 5, sc_sequence = 1\<rparr>],
      rp_applied_events = [demo_applied 1 1 ''PortfolioOpeningEntry'' None], rp_valuation_rates = [],
      rp_active_effects = [], rp_execution_identities = [], rp_funding_identities = [],
      rp_reconciliation_identities = [], rp_reconciliation = None\<rparr>"

definition demo_position :: "nat \<Rightarrow> price option \<Rightarrow> money \<Rightarrow> position_state" where
  "demo_position q avg fees =
     \<lparr>pst_account_id = ''A'', pst_strategy_id = ''S'', pst_instrument = id_instrument_id demo_definition,
      pst_instrument_definition = Some demo_definition, pst_settlement_currency = USDT,
      pst_quantity = \<lparr>q_value = dec q 3, q_precision = 3\<rparr>, pst_mark = None, pst_average_entry_price = avg,
      pst_realized_pnl = money_of 0 0 USDT, pst_unrealized_pnl = money_of 0 0 USDT, pst_fees = fees,
      pst_funding = money_of 0 0 USDT, pst_observed_at = demo_time, pst_schema_version = ''portfolio-working-v1''\<rparr>"

definition demo_key :: "string \<times> string" where
  "demo_key = (''S'', canonical (id_instrument_id demo_definition))"

definition demo_effect :: execution_effect where
  "demo_effect =
     \<lparr>fx_execution_id = 2, fx_account_id = ''A'', fx_strategy_id = ''S'', fx_fill = demo_fill 2 2,
      fx_entry = demo_fill_entry, fx_source_event = demo_filled, fx_logical_sequence = 2,
      fx_cash_deltas = [\<lparr>m_amount = copy_negate (dec 2 1), m_currency = USDT\<rparr>],
      fx_balance_realized_pnl_deltas = [], fx_balance_fee_deltas = [money_of 1 1 USDT],
      fx_position_key = demo_key, fx_quantity_before = \<lparr>q_value = dec 0 3, q_precision = 3\<rparr>,
      fx_quantity_delta = \<lparr>q_value = dec 20 3, q_precision = 3\<rparr>,
      fx_realized_pnl_delta = money_of 0 0 USDT, fx_fees_delta = money_of 1 1 USDT,
      fx_average_before = None, fx_average_after = Some demo_price\<rparr>"

definition demo_filled_snapshot :: working_snapshot where
  "demo_filled_snapshot =
     demo_open_snapshot
       \<lparr>ws_balances := [demo_balance USD 50,
          (demo_balance USDT 90)\<lparr>ab_cash := money_of 898 1 USDT, ab_fees := money_of 1 1 USDT\<rparr>],
        ws_positions := [demo_position 20 (Some demo_price) (money_of 1 1 USDT)]\<rparr>"

definition demo_filled_state :: replay_state where
  "demo_filled_state =
     demo_open_state
       \<lparr>rp_snapshot := demo_filled_snapshot, rp_cursor := [\<lparr>sc_stream_id = 5, sc_sequence = 2\<rparr>],
        rp_applied_events := [demo_applied 1 1 ''PortfolioOpeningEntry'' None,
          demo_applied 2 2 ''PortfolioFillEntry'' (Some 2)],
        rp_active_effects := [demo_effect],
        rp_execution_identities := [\<lparr>bi_identity_id = 2, bi_payload_digest = replicate 64 (CHR ''0''), bi_event_id = 2,
          bi_event_digest = replicate 64 (CHR ''0''), bi_stream_id = 5, bi_sequence = 2\<rparr>]\<rparr>"

subsection \<open>The run\<close>

lemma demo_opening_valid: "validate_event demo_opening = Inr demo_opening"
  by code_simp

lemma demo_opened: "opening_state demo_codec demo_opening = Inr demo_open_state"
  by code_simp

lemma demo_fill_entry_ok: "mk_fill_entry demo_fill_entry = Inr demo_fill_entry"
proof -
  have "ledger_entry_fields ''A'' demo_time ''1'' = Inr ()" "canonical_identifier ''S''" by code_simp+
  then show ?thesis by (simp add: mk_fill_entry_def demo_fill_entry_def demo_fill_ok require_field_def)
qed

lemma demo_filled_envelope: "mk_event_envelope portfolio_payload_ops demo_filled = Inr demo_filled"
proof -
  have "validate_portfolio_payload (FillEntry demo_fill_entry) = Inr (FillEntry demo_fill_entry)"
    by (simp add: lift_payload_def demo_fill_entry_ok)
  then show ?thesis
    by (simp add: mk_event_envelope_Inr_iff demo_filled_def demo_envelope_def portfolio_payload_ops_def
        demo_time_def dt_le_def dt_lt_def dt_key_def)
qed

lemma demo_filled_valid: "validate_event demo_filled = Inr demo_filled"
  by (simp add: validate_event_def demo_filled_envelope)

lemma demo_position_found:
  "position_or_new demo_open_state demo_fill_entry (demo_fill 2 2) ''S'' = Inr (demo_position 0 None (money_of 0 0 USDT))"
  by code_simp

lemma demo_accounting:
  "accounting_before [] demo_key (dec 0 3) None = Inr (0, 0)"
  "fill_accounting (demo_fill 2 2) (dec 0 3) None 0 =
     Inr \<lparr>fr_signed_fill = dec 20 3, fr_residual = dec 2 2, fr_next_average = Some demo_price, fr_realized = 0,
          fr_fee_delta = dec 1 1, fr_basis_after = 1 / 10\<rparr>"
  "realized_delta_of 0 0 6 = Inr (dec 0 0)"
  "replay_quantity (dec 2 2) 3 = Inr \<lparr>q_value = dec 20 3, q_precision = 3\<rparr>"
  "replay_quantity (dec 20 3) 3 = Inr \<lparr>q_value = dec 20 3, q_precision = 3\<rparr>"
  "cash_deltas (demo_fill 2 2) = Inr [\<lparr>m_amount = copy_negate (dec 2 1), m_currency = USDT\<rparr>]"
  "sum_decimals [dec 0 0, dec 0 0] fld = Inr (dec 0 0)"
  "sum_decimals [dec 0 0, dec 1 1] fld = Inr (dec 1 1)"
  "mark_and_unrealized (demo_position 0 None (money_of 0 0 USDT)) \<lparr>q_value = dec 20 3, q_precision = 3\<rparr>
     (Some demo_price) (1 / 10) None = Inr (None, money_of 0 0 USDT)"
  "replay_money (dec 0 0) USDT fld = Inr (money_of 0 0 USDT)"
  "replay_money (dec 1 1) USDT fld = Inr (money_of 1 1 USDT)"
  "is_zero (dec 0 0)" "\<not> is_zero (dec 1 1)"
  by code_simp+

lemma demo_position_ok:
  "mk_position_state (demo_position 20 (Some demo_price) (money_of 1 1 USDT)) =
     Inr (demo_position 20 (Some demo_price) (money_of 1 1 USDT))"
  by code_simp

lemma instrument_definition_eq_refl [simp]: "instrument_definition_eq d d"
proof -
  have o: "option_eq eq x x" if "\<And>y. eq y y" for eq :: "'a \<Rightarrow> 'a \<Rightarrow> bool" and x
    using that by (cases x) simp_all
  show ?thesis
    by (simp add: instrument_definition_eq_def currency_eq_def price_eq_def order_quantity_eq_def money_eq_def
        provenance_eq_def dt_eq_def dec_eq_def o margin_eq_def)
qed

lemma fill_entry_eq_refl [simp]: "fill_event_eq f f" "fill_entry_eq e e"
  by (simp_all add: fill_entry_eq_def fill_event_eq_def order_quantity_eq_def price_eq_def money_eq_def
      currency_eq_def dt_eq_def dec_eq_def)

lemma demo_selectors [simp]:
  "fe_execution_id (demo_fill x n) = x" "fe_instrument_definition (demo_fill x n) = demo_definition"
  "fe_status (demo_fill x n) = FR_PARTIALLY_FILLED" "fe_commission (demo_fill x n) = money_of 1 1 USDT"
  "fe_quantity (demo_fill x n) = demo_quantity" "oq_precision demo_quantity = 3"
  "id_settlement_currency demo_definition = USDT" "cur_precision USDT = 6"
  "pfl_fill demo_fill_entry = demo_fill 2 2" "pfl_account_id demo_fill_entry = ''A''"
  "pfl_strategy_id demo_fill_entry = ''S''" "pfl_effective_at demo_fill_entry = demo_time"
  "ev_payload demo_filled = FillEntry demo_fill_entry" "ev_sequence demo_filled = 2" "ev_event_id demo_filled = 2"
  "ev_stream_id demo_filled = 5"
  "m_currency (money_of c k cur) = cur" "m_amount (money_of c k cur) = dec c k"
  by (simp_all add: demo_fill_def demo_definition_def demo_fill_entry_def demo_filled_def demo_envelope_def money_of_def
      demo_quantity_def USDT_def)

lemma demo_effect_ok: "mk_execution_effect demo_effect = Inr demo_effect"
proof -
  have "canonical_identifier ''A''" "canonical_identifier ''S''" by code_simp+
  then show ?thesis
    by (simp add: mk_execution_effect_def valid_effect_def demo_effect_def demo_fill_ok demo_fill_entry_ok
        demo_filled_envelope require_field_def reject_if_def demo_key_def)
qed

lemma demo_fill_effect:
  "fill_effect demo_open_state demo_fill_entry demo_filled 2 None =
     Inr (demo_effect, demo_position 20 (Some demo_price) (money_of 1 1 USDT))"
proof -
  let ?p0 = "demo_position 0 None (money_of 0 0 USDT)"
  have p0: "pst_quantity ?p0 = \<lparr>q_value = dec 0 3, q_precision = 3\<rparr>" "pst_average_entry_price ?p0 = None"
    "pst_instrument_definition ?p0 = Some demo_definition" "pst_settlement_currency ?p0 = USDT"
    "pst_instrument ?p0 = id_instrument_id demo_definition" "pst_realized_pnl ?p0 = money_of 0 0 USDT"
    "pst_fees ?p0 = money_of 0 0 USDT" "pst_funding ?p0 = money_of 0 0 USDT" "pst_account_id ?p0 = ''A''"
    "pst_strategy_id ?p0 = ''S''" "pst_schema_version ?p0 = ''portfolio-working-v1''"
    by (simp_all add: demo_position_def)
  have key: "(''S'', canonical (id_instrument_id demo_definition)) = demo_key" by (simp add: demo_key_def)
  have eff: "rp_active_effects demo_open_state = []" by (simp add: demo_open_state_def)
  note folded = demo_position_def [of 20 "Some demo_price" "money_of 1 1 USDT", symmetric]
    demo_effect_def [symmetric]
  show ?thesis
    using demo_position_ok demo_effect_ok
    by (simp add: fill_effect_def demo_position_found p0 replay_if_def key eff demo_accounting folded
        del: One_nat_def)
qed

lemma demo_balances:
  "apply_balances [demo_balance USD 50, demo_balance USDT 90]
     [\<lparr>m_amount = copy_negate (dec 2 1), m_currency = USDT\<rparr>] [] [money_of 1 1 USDT] [] demo_time =
   Inr [demo_balance USD 50, (demo_balance USDT 90)\<lparr>ab_cash := money_of 898 1 USDT, ab_fees := money_of 1 1 USDT\<rparr>]"
  by code_simp

lemma demo_snapshot_ok: "mk_working_snapshot demo_filled_snapshot = Inr demo_filled_snapshot"
  by code_simp

lemma demo_replaced:
  "replace_position demo_open_snapshot (demo_position 20 (Some demo_price) (money_of 1 1 USDT)) =
     [demo_position 20 (Some demo_price) (money_of 1 1 USDT)]"
  by (simp add: replace_position_def demo_open_snapshot_def)

lemma demo_checks:
  "mapE mk_stream_cursor [\<lparr>sc_stream_id = 5, sc_sequence = 1\<rparr>] = Inr [\<lparr>sc_stream_id = 5, sc_sequence = 1\<rparr>]"
  "mapE mk_stream_cursor [\<lparr>sc_stream_id = 5, sc_sequence = 2\<rparr>] = Inr [\<lparr>sc_stream_id = 5, sc_sequence = 2\<rparr>]"
  "mk_applied_event (demo_applied 1 1 ''PortfolioOpeningEntry'' None) = Inr (demo_applied 1 1 ''PortfolioOpeningEntry'' None)"
  "mk_applied_event (demo_applied 2 2 ''PortfolioFillEntry'' (Some 2)) = Inr (demo_applied 2 2 ''PortfolioFillEntry'' (Some 2))"
  "mk_business_identity \<lparr>bi_identity_id = 2, bi_payload_digest = replicate 64 (CHR ''0''), bi_event_id = 2,
     bi_event_digest = replicate 64 (CHR ''0''), bi_stream_id = 5, bi_sequence = 2\<rparr> =
   Inr \<lparr>bi_identity_id = 2, bi_payload_digest = replicate 64 (CHR ''0''), bi_event_id = 2,
     bi_event_digest = replicate 64 (CHR ''0''), bi_stream_id = 5, bi_sequence = 2\<rparr>"
  by code_simp+

lemma demo_with_effect:
  "with_effect demo_open_state demo_effect (demo_position 20 (Some demo_price) (money_of 1 1 USDT)) None =
     Inr (demo_open_state\<lparr>rp_snapshot := demo_filled_snapshot, rp_active_effects := [demo_effect]\<rparr>)"
proof -
  let ?p = "demo_position 20 (Some demo_price) (money_of 1 1 USDT)"
  have x: "fx_entry demo_effect = demo_fill_entry" "fx_fill demo_effect = demo_fill 2 2" "fx_strategy_id demo_effect = ''S''"
    "fx_cash_deltas demo_effect = [\<lparr>m_amount = copy_negate (dec 2 1), m_currency = USDT\<rparr>]"
    "fx_balance_realized_pnl_deltas demo_effect = []" "fx_balance_fee_deltas demo_effect = [money_of 1 1 USDT]"
    by (simp_all add: demo_effect_def)
  have p: "?p\<lparr>pst_observed_at := demo_time\<rparr> = ?p" "pst_unrealized_pnl ?p = money_of 0 0 USDT"
    "pst_unrealized_pnl (demo_position 0 None (money_of 0 0 USDT)) = money_of 0 0 USDT"
    by (simp_all add: demo_position_def)
  have s: "ws_balances demo_open_snapshot = [demo_balance USD 50, demo_balance USDT 90]"
    "rp_snapshot demo_open_state = demo_open_snapshot" "rp_active_effects demo_open_state = []"
    by (simp_all add: demo_open_state_def demo_open_snapshot_def)
  have n: "negated (dec 0 0) = dec 0 0" "nonzero_money (dec 0 0) cur fld = Inr []" for cur fld
    using demo_accounting(12) by (simp_all add: negated_def nonzero_money_def)
  have snap: "demo_open_snapshot\<lparr>ws_balances := [demo_balance USD 50,
      (demo_balance USDT 90)\<lparr>ab_cash := money_of 898 1 USDT, ab_fees := money_of 1 1 USDT\<rparr>],
      ws_positions := [?p], ws_observed_at := demo_time\<rparr> = demo_filled_snapshot"
    by (simp add: demo_filled_snapshot_def demo_open_snapshot_def)
  have "mk_replay_state (demo_open_state\<lparr>rp_snapshot := demo_filled_snapshot, rp_active_effects := [demo_effect]\<rparr>)
      = Inr (demo_open_state\<lparr>rp_snapshot := demo_filled_snapshot, rp_active_effects := [demo_effect]\<rparr>)"
    using demo_checks(1,3)
    by (simp add: mk_replay_state_def ordered_state_def demo_open_state_def demo_snapshot_ok demo_effect_ok
        mk_optional_def reject_if_def)
  then show ?thesis
    by (simp add: with_effect_def or_else_def x p demo_position_ok demo_position_found demo_accounting(7) n s
        demo_balances demo_replaced snap demo_snapshot_ok del: One_nat_def)
qed

lemma demo_filled_state_ok: "mk_replay_state demo_filled_state = Inr demo_filled_state"
  using demo_checks
  by (simp add: mk_replay_state_def ordered_state_def demo_filled_state_def demo_open_state_def demo_snapshot_ok
      demo_effect_ok mk_optional_def reject_if_def sorted_unique_iff demo_applied_def)

lemma demo_recorded:
  "next_state demo_codec (demo_open_state\<lparr>rp_snapshot := demo_filled_snapshot, rp_active_effects := [demo_effect]\<rparr>)
     None demo_filled None None None = Inr demo_filled_state"
proof -
  have d: "event_digest demo_codec e = Inr (replicate 64 (CHR ''0''))" "payload_digest demo_codec p = Inr (replicate 64 (CHR ''0''))" for e p
    by (simp_all add: event_digest_def payload_digest_def demo_codec_def demo_sha_def)
  have a: "mk_applied demo_filled (replicate 64 (CHR ''0'')) = Inr (demo_applied 2 2 ''PortfolioFillEntry'' (Some 2))"
    using demo_checks(4) by (simp add: mk_applied_def demo_applied_def)
  show ?thesis
    using demo_filled_state_ok demo_checks(2,5)
    by (simp add: next_state_def d a business_identities_def identity_record_def updated_identity_tuple_def
        dict_of_def sorted_cursor_def sorted_applied_def or_else_def demo_filled_state_def demo_open_state_def
        demo_applied_def)
qed

lemma demo_fill_applied: "apply_portfolio_event demo_codec demo_open_state demo_filled = Inr demo_filled_state"
proof -
  have d: "event_digest demo_codec e = Inr (replicate 64 (CHR ''0''))" "payload_digest demo_codec p = Inr (replicate 64 (CHR ''0''))" for e p
    by (simp_all add: event_digest_def payload_digest_def demo_codec_def demo_sha_def)
  have s: "rp_applied_events demo_open_state = [demo_applied 1 1 ''PortfolioOpeningEntry'' None]"
    "rp_cursor demo_open_state = [\<lparr>sc_stream_id = 5, sc_sequence = 1\<rparr>]" "ws_account_id (rp_snapshot demo_open_state) = ''A''"
    "rp_execution_identities demo_open_state = []" "rp_active_effects demo_open_state = []"
    by (simp_all add: demo_open_state_def demo_open_snapshot_def)
  show ?thesis
    using demo_checks(5)
    by (simp add: apply_portfolio_event_def demo_filled_valid d s dict_of_def demo_applied_def replay_if_def
        is_opening_def business_identities_def identity_record_def updated_identity_tuple_def apply_payload_def
        apply_fill_def active_execution_ids_def apply_normal_def demo_fill_effect demo_with_effect demo_recorded
        del: One_nat_def)
qed

lemma demo_reduced:
  "reduce_portfolio_events demo_codec [demo_opening] = Inr demo_open_state"
  "reduce_portfolio_events demo_codec [demo_opening, demo_filled] = Inr demo_filled_state"
  by (simp_all add: reduce_portfolio_events_def demo_opening_valid demo_filled_valid demo_opened demo_fill_applied)

lemma demo_states_valid: "replay_valid demo_open_state" "replay_valid demo_filled_state"
proof -
  show "replay_valid demo_open_state" unfolding replay_valid_def by code_simp
  show "replay_valid demo_filled_state" by (simp add: replay_valid_def demo_filled_state_ok)
qed

end
