(* ===== verification/Portfolio_Ledger.thy ===== *)
theory Portfolio_Ledger
  imports Portfolio_Sample
begin

text \<open>
  The bookkeeping of the portfolio reducer (\<^verbatim>\<open>src/packages/portfolio_reducer/reducer.py\<close>): every
  accepted event is recorded once in the applied events, in the cursor of its stream and, for a
  fill, a funding or a reconciliation, in the index of business identities of its kind; an event
  that is delivered again changes nothing; an identity that is reused is refused. The lemmas of
  at-least-once delivery come from the locale \<^verbatim>\<open>replay_safe\<close>, interpreted here on
  \<^verbatim>\<open>apply_portfolio_event\<close>.
\<close>


subsection \<open>Every accepted event is recorded once\<close>

text \<open>The bookkeeping part of the state: what an operation on snapshots and effects leaves alone.\<close>

definition same_ledger :: "replay_state \<Rightarrow> replay_state \<Rightarrow> bool" where
  "same_ledger s t =
     (rp_cursor t = rp_cursor s \<and> rp_applied_events t = rp_applied_events s
      \<and> rp_valuation_rates t = rp_valuation_rates s
      \<and> rp_execution_identities t = rp_execution_identities s
      \<and> rp_funding_identities t = rp_funding_identities s
      \<and> rp_reconciliation_identities t = rp_reconciliation_identities s
      \<and> rp_reconciliation t = rp_reconciliation s)"

lemma same_ledger_refl [simp]: "same_ledger s s"
  by (simp add: same_ledger_def)

lemma same_ledger_trans: "same_ledger s t \<Longrightarrow> same_ledger t u \<Longrightarrow> same_ledger s u"
  by (simp add: same_ledger_def)

lemma mk_replay_state_fields:
  assumes "mk_replay_state s = Inr t"
  shows "rp_snapshot t = rp_snapshot s" "same_ledger s t"
  using mk_replay_state_Inr(1) [OF assms] unfolding same_ledger_def
  by (metis replay_state.select_convs replay_state.surjective replay_state.update_convs(5))+

lemma with_effect_ledger:
  assumes "with_effect s x p tm = Inr t" shows "same_ledger s t \<and> replay_valid t"
  using assms mk_replay_state_fields(2) mk_replay_state_valid
  by (fastforce simp: with_effect_def Let_def res_simps same_ledger_def)

lemma remove_effect_ledger:
  assumes "remove_effect tm s x = Inr t" shows "same_ledger s t \<and> replay_valid t"
  using assms mk_replay_state_fields(2) mk_replay_state_valid
  by (fastforce simp: remove_effect_def res_simps same_ledger_def)

lemma foldE_ledger:
  assumes "\<And>u x v. f u x = Inr v \<Longrightarrow> same_ledger u v" "foldE f s xs = Inr t"
  shows "same_ledger s t"
proof (rule foldE_invariant [where P = "same_ledger s" and f = f and xs = xs and s = s])
  show "same_ledger s v" if "same_ledger s u" "f u x = Inr v" for u x v
    using that assms(1) same_ledger_trans by blast
qed (simp_all add: assms(2))

lemma fold_bind_fold_ledger:
  assumes "bindE (foldE f s xs) (\<lambda>u. bindE (k u) (\<lambda>v. foldE g v ys)) = Inr t"
    and "\<And>u x v. f u x = Inr v \<Longrightarrow> same_ledger u v" "\<And>u v. k u = Inr v \<Longrightarrow> same_ledger u v"
    and "\<And>u x v. g u x = Inr v \<Longrightarrow> same_ledger u v"
  shows "same_ledger s t"
proof -
  from assms(1) obtain u v where "foldE f s xs = Inr u" "k u = Inr v" "foldE g v ys = Inr t"
    by (auto simp: res_simps)
  then show ?thesis
    using foldE_ledger [of f s xs u] foldE_ledger [of g v ys t] assms(2-4) same_ledger_trans by metis
qed

lemma rebase_ledger:
  assumes "rebase_later_effects s x e entry = Inr t" shows "same_ledger s t"
  using assms unfolding rebase_later_effects_def Let_def
proof (rule fold_bind_fold_ledger)
  show "same_ledger u v" if "replay_later ms tm u y = Inr v" for ms tm u y v
    using that with_effect_ledger by (fastforce simp: replay_later_def res_simps)
qed (use with_effect_ledger remove_effect_ledger in \<open>fastforce simp: res_simps split: if_splits\<close>)+

definition ends_recorded :: "codec \<Rightarrow> replay_state \<Rightarrow> portfolio_event \<Rightarrow> replay_state \<Rightarrow> bool" where
  "ends_recorded cd s e t =
     (\<exists>s' snap fx rt rc. same_ledger s s' \<and> next_state cd s' snap e fx rt rc = Inr t)"

lemma ends_recordedI: "next_state cd s snap e fx rt rc = Inr t \<Longrightarrow> ends_recorded cd s e t"
  unfolding ends_recorded_def by (metis same_ledger_refl)

lemma ends_recordedI': "same_ledger s s' \<Longrightarrow> next_state cd s' snap e fx rt rc = Inr t \<Longrightarrow> ends_recorded cd s e t"
  unfolding ends_recorded_def by metis

lemma handlers_record:
  "apply_mark cd s e m = Inr t \<Longrightarrow> ends_recorded cd s e t"
  "apply_funding cd s e fu = Inr t \<Longrightarrow> ends_recorded cd s e t"
  "apply_conversion cd s e c = Inr t \<Longrightarrow> ends_recorded cd s e t"
  "apply_valuation_rate cd s e v = Inr t \<Longrightarrow> ends_recorded cd s e t"
  "apply_reconciliation cd s e r = Inr t \<Longrightarrow> ends_recorded cd s e t"
  "apply_observation cd s e ob = Inr t \<Longrightarrow> ends_recorded cd s e t"
  by (auto simp: apply_mark_def apply_funding_def apply_conversion_def apply_valuation_rate_def
      apply_reconciliation_def apply_observation_def Let_def res_simps intro: ends_recordedI
      split: option.splits)

lemma fill_handlers_record:
  assumes "apply_fill cd s e entry = Inr t" shows "ends_recorded cd s e t"
proof -
  have normal: "ends_recorded cd s e t" if "apply_normal cd s e entry = Inr t"
    using that
    by (auto simp: apply_normal_def res_simps intro: ends_recordedI' [OF with_effect_ledger [THEN conjunct1]])
  have consumed: "ends_recorded cd s e t" if "consume_effect cd s e entry ref = Inr t" for ref
    using that
    by (auto simp: consume_effect_def res_simps intro: ends_recordedI' [OF rebase_ledger] split: option.splits if_splits)
  have dup: "ends_recorded cd s e t" if "apply_duplicate cd s e entry = Inr t"
    using that by (auto simp: apply_duplicate_def Let_def res_simps intro: ends_recordedI split: option.splits)
  show ?thesis
    using assms normal consumed dup
    by (auto simp: apply_fill_def Let_def res_simps split: fill_report_status.splits option.splits)
qed

lemma apply_payload_records: "apply_payload cd s e = Inr t \<Longrightarrow> ends_recorded cd s e t"
  by (auto simp: apply_payload_def intro: handlers_record fill_handlers_record split: portfolio_payload.splits)

subsection \<open>What recording an event changes\<close>

lemma next_state_Inr:
  assumes "next_state cd s snap e fx rt rc = Inr t"
  obtains d a ex fu re where "event_digest cd e = Inr d" "mk_applied e d = Inr a"
    "business_identities cd s e = Inr (ex, fu, re)" "replay_valid t"
    "rp_applied_events t = sorted_applied (dict_put (ev_event_id e) a (dict_of ae_event_id (rp_applied_events s)))"
    "rp_execution_identities t = ex" "rp_funding_identities t = fu" "rp_reconciliation_identities t = re"
    "rp_snapshot t = or_else snap (rp_snapshot s)"
    "rp_valuation_rates t = or_else rt (rp_valuation_rates s)"
    "sorted_cursor (dict_put (ev_stream_id e) (ev_sequence e)
           (map (\<lambda>(k, c). (k, sc_sequence c)) (dict_of sc_stream_id (rp_cursor s)))) = Inr (rp_cursor t)"
    "mapE mk_execution_effect (or_else fx (rp_active_effects s)) = Inr (rp_active_effects t)"
proof -
  from assms obtain d a ex fu re cur where *: "event_digest cd e = Inr d" "mk_applied e d = Inr a"
    "business_identities cd s e = Inr (ex, fu, re)"
    "sorted_cursor (dict_put (ev_stream_id e) (ev_sequence e)
           (map (\<lambda>(k, c). (k, sc_sequence c)) (dict_of sc_stream_id (rp_cursor s)))) = Inr cur"
    and mk: "mk_replay_state
       \<lparr>rp_snapshot = or_else snap (rp_snapshot s),
        rp_cursor = cur,
        rp_applied_events = sorted_applied (dict_put (ev_event_id e) a (dict_of ae_event_id (rp_applied_events s))),
        rp_valuation_rates = or_else rt (rp_valuation_rates s),
        rp_active_effects = or_else fx (rp_active_effects s),
        rp_execution_identities = ex, rp_funding_identities = fu, rp_reconciliation_identities = re,
        rp_reconciliation = (case rc of None \<Rightarrow> rp_reconciliation s | Some r \<Rightarrow> Some r)\<rparr> = Inr t"
    unfolding next_state_def Let_def by (auto simp: res_simps)
  from mk_replay_state_fields [OF mk] mk_replay_state_valid [OF mk] mk_replay_state_Inr(2) [OF mk] *
  show thesis by (intro that) (simp_all add: same_ledger_def)
qed

lemma mk_applied_fields:
  "mk_applied e d = Inr a \<Longrightarrow> ae_event_id a = ev_event_id e \<and> ae_digest a = d \<and> ae_stream_id a = ev_stream_id e
     \<and> ae_sequence a = ev_sequence e"
  unfolding mk_applied_def by (drule mk_state_identity(2)) simp

lemma sorted_applied_fresh:
  assumes "distinct (map ae_event_id xs)" "k \<notin> ae_event_id ` set xs"
  shows "mset (sorted_applied (dict_put k a (dict_of ae_event_id xs))) = add_mset a (mset xs)"
proof -
  have d: "dict_of ae_event_id xs = map (\<lambda>x. (ae_event_id x, x)) xs" by (rule dict_of_distinct [OF assms(1)])
  have "k \<notin> fst ` set (dict_of ae_event_id xs)" using assms(2) by (simp add: d image_image)
  then show ?thesis
    by (simp add: sorted_applied_def dict_put_append d multiset.map_comp comp_def)
qed

definition known_digest :: "replay_state \<Rightarrow> uuid \<Rightarrow> string option" where
  "known_digest s i = map_of (map (\<lambda>(k, a). (k, ae_digest a)) (dict_of ae_event_id (rp_applied_events s))) i"

lemma known_digest_eq:
  assumes "sorted_unique ae_event_id (rp_applied_events s)"
  shows "known_digest s i = map_of (map (\<lambda>a. (ae_event_id a, ae_digest a)) (rp_applied_events s)) i"
  using sorted_unique_distinct [OF assms] by (simp add: known_digest_def dict_of_distinct comp_def)

lemma known_digest_None:
  "sorted_unique ae_event_id (rp_applied_events s) \<Longrightarrow>
     known_digest s i = None \<longleftrightarrow> i \<notin> ae_event_id ` set (rp_applied_events s)"
  by (simp add: known_digest_eq map_of_eq_None_iff image_image)

lemma known_digest_Some:
  assumes "sorted_unique ae_event_id (rp_applied_events s)"
  shows "known_digest s i = Some d \<longleftrightarrow> (\<exists>a \<in> set (rp_applied_events s). ae_event_id a = i \<and> ae_digest a = d)"
proof -
  have "distinct (map fst (map (\<lambda>a. (ae_event_id a, ae_digest a)) (rp_applied_events s)))"
    using sorted_unique_distinct [OF assms] by (simp add: comp_def)
  then show ?thesis unfolding known_digest_eq [OF assms] by (auto simp: map_of_eq_Some_iff)
qed

lemma replay_valid_sorted:
  assumes "replay_valid s"
  shows "sorted_unique ae_event_id (rp_applied_events s)" "sorted_unique sc_stream_id (rp_cursor s)"
    "sorted_unique bi_identity_id (rp_execution_identities s)"
    "sorted_unique bi_identity_id (rp_funding_identities s)"
    "sorted_unique bi_identity_id (rp_reconciliation_identities s)"
    "sorted_unique fx_execution_id (rp_active_effects s)"
    "mk_working_snapshot (rp_snapshot s) = Inr (rp_snapshot s)"
  using mk_replay_state_Inr assms unfolding replay_valid_def by blast+

lemma recorded_applied:
  assumes "ends_recorded cd s e t" "replay_valid s" "known_digest s (ev_event_id e) = None"
  shows "replay_valid t \<and> (\<exists>d a. event_digest cd e = Inr d \<and> mk_applied e d = Inr a
    \<and> mset (rp_applied_events t) = add_mset a (mset (rp_applied_events s)))"
proof -
  from assms(1) obtain s' snap fx rt rc where l: "same_ledger s s'" and n: "next_state cd s' snap e fx rt rc = Inr t"
    unfolding ends_recorded_def by blast
  note srt = replay_valid_sorted(1) [OF assms(2)]
  have "ev_event_id e \<notin> ae_event_id ` set (rp_applied_events s)" using assms(3) known_digest_None [OF srt] by simp
  note fresh = sorted_applied_fresh [OF sorted_unique_distinct [OF srt] this]
  from n show ?thesis by (rule next_state_Inr) (use l fresh in \<open>auto simp: same_ledger_def\<close>)
qed

lemma apply_event_cases:
  assumes "apply_portfolio_event cd s event = Inr t"
  obtains e d where "validate_event event = Inr e" "event_digest cd e = Inr d"
    "known_digest s (ev_event_id e) = Some d" "t = s"
  | e d where "validate_event event = Inr e" "event_digest cd e = Inr d"
    "known_digest s (ev_event_id e) = None" "ev_stream_id e \<in> sc_stream_id ` set (rp_cursor s)"
    "\<not> is_opening (ev_payload e)" "payload_account (ev_payload e) = ws_account_id (rp_snapshot s)"
    "apply_payload cd s e = Inr t" "ends_recorded cd s e t"
proof -
  from assms obtain e d where e: "validate_event event = Inr e" and d: "event_digest cd e = Inr d"
    unfolding apply_portfolio_event_def by (auto simp: res_simps)
  show thesis
  proof (cases "known_digest s (ev_event_id e)")
    case None
    with assms have "ev_stream_id e \<in> sc_stream_id ` set (rp_cursor s)" "\<not> is_opening (ev_payload e)"
      "payload_account (ev_payload e) = ws_account_id (rp_snapshot s)" "apply_payload cd s e = Inr t"
      unfolding apply_portfolio_event_def by (auto simp: e d res_simps simp flip: known_digest_def)
    with e d None show thesis by (intro that(2) apply_payload_records)
  next
    case (Some d')
    with assms have "d' = d" "t = s"
      unfolding apply_portfolio_event_def by (auto simp: e d res_simps simp flip: known_digest_def)
    with e d Some show thesis by (intro that(1)) simp_all
  qed
qed

subsection \<open>The reducer under at-least-once delivery\<close>

lemma validate_event_stable: "validate_event event = Inr e \<Longrightarrow> validate_event e = Inr e"
  by (simp add: validate_event_def res_simps envelope_stable)

definition portfolio_seen :: "codec \<Rightarrow> replay_state \<Rightarrow> portfolio_event \<Rightarrow> bool" where
  "portfolio_seen cd s event =
     (\<exists>e d. validate_event event = Inr e \<and> event_digest cd e = Inr d \<and> known_digest s (ev_event_id e) = Some d)"

lemma seen_accepted: "portfolio_seen cd s event \<Longrightarrow> apply_portfolio_event cd s event = Inr s"
  unfolding portfolio_seen_def apply_portfolio_event_def
  by (auto simp: replay_if_def simp flip: known_digest_def)

lemma known_digest_mono:
  assumes "replay_valid s" "replay_valid t" "set (rp_applied_events s) \<subseteq> set (rp_applied_events t)"
    and "known_digest s i = Some d"
  shows "known_digest t i = Some d"
  using assms known_digest_Some [OF replay_valid_sorted(1)] by blast

lemma apply_event_step:
  assumes "apply_portfolio_event cd s event = Inr t" "replay_valid s"
  shows "replay_valid t \<and> portfolio_seen cd t event \<and> set (rp_applied_events s) \<subseteq> set (rp_applied_events t)"
  using assms(1)
proof (cases rule: apply_event_cases)
  case (1 e d)
  with assms(2) show ?thesis by (auto simp: portfolio_seen_def)
next
  case (2 e d)
  from recorded_applied [OF 2(8) assms(2) 2(3)] 2(2) obtain a where valid: "replay_valid t"
    and a: "mk_applied e d = Inr a" "mset (rp_applied_events t) = add_mset a (mset (rp_applied_events s))" by auto
  have "set (rp_applied_events t) = insert a (set (rp_applied_events s))"
    using a(2) by (metis set_mset_add_mset_insert set_mset_mset)
  moreover from this have "known_digest t (ev_event_id e) = Some d"
    using known_digest_Some [OF replay_valid_sorted(1) [OF valid]] mk_applied_fields [OF a(1)] by auto
  ultimately show ?thesis using valid 2(1,2) by (auto simp: portfolio_seen_def)
qed

interpretation portfolio: replay_safe "apply_portfolio_event cd" replay_valid "portfolio_seen cd" for cd
proof unfold_locales
  fix s t :: replay_state and e d :: portfolio_event
  assume v: "replay_valid s" and st: "apply_portfolio_event cd s e = Inr t"
  note step = apply_event_step [OF st v]
  show "replay_valid t" "portfolio_seen cd t e" using step by simp_all
  show "portfolio_seen cd t d" if "portfolio_seen cd s d"
    using that step known_digest_mono [OF v] unfolding portfolio_seen_def by blast
next
  fix s and e
  assume "portfolio_seen cd s e"
  then show "apply_portfolio_event cd s e = Inr s" by (rule seen_accepted)
qed

lemma opening_state_step:
  assumes "opening_state cd e = Inr s" "validate_event e = Inr e"
  shows "replay_valid s \<and> portfolio_seen cd s e"
proof -
  from assms(1) obtain p snapshot d c a where d: "event_digest cd e = Inr d" and a: "mk_applied e d = Inr a"
    and mk: "mk_replay_state
      \<lparr>rp_snapshot = snapshot, rp_cursor = [c], rp_applied_events = [a], rp_valuation_rates = [],
       rp_active_effects = [], rp_execution_identities = [], rp_funding_identities = [],
       rp_reconciliation_identities = [], rp_reconciliation = None\<rparr> = Inr s"
    unfolding opening_state_def by (auto simp: res_simps split: portfolio_payload.splits)
  have v: "replay_valid s" by (rule mk_replay_state_valid [OF mk])
  have "rp_applied_events s = [a]" using mk_replay_state_fields(2) [OF mk] by (simp add: same_ledger_def)
  then have "known_digest s (ev_event_id e) = Some d"
    using mk_applied_fields [OF a] by (simp add: known_digest_eq)
  with v d assms(2) show ?thesis by (auto simp: portfolio_seen_def)
qed

lemma reduce_events_Inr:
  assumes "reduce_portfolio_events cd events = Inr s"
  obtains first rest s0 where "mapE validate_event events = Inr (first # rest)"
    "opening_state cd first = Inr s0" "foldE (apply_portfolio_event cd) s0 rest = Inr s"
    "replay_valid s0" "portfolio_seen cd s0 first"
proof -
  from assms obtain batch where b: "mapE validate_event events = Inr batch"
    unfolding reduce_portfolio_events_def by (auto simp: res_simps)
  with assms obtain first rest s0 where *: "mapE validate_event events = Inr (first # rest)"
    "opening_state cd first = Inr s0" "foldE (apply_portfolio_event cd) s0 rest = Inr s"
    unfolding reduce_portfolio_events_def by (cases batch) (auto simp: res_simps)
  have "validate_event first = Inr first"
    using mapE_Inr_set [OF *(1), of first] validate_event_stable by auto
  with opening_state_step [OF *(2)] * show thesis by (intro that) auto
qed

lemma reduce_duplicates:
  assumes "reduce_portfolio_events cd (es @ fs) = Inr s" "set ds \<subseteq> set es"
  shows "reduce_portfolio_events cd (es @ ds @ fs) = Inr s"
proof (cases es)
  case Nil
  with assms show ?thesis by simp
next
  case (Cons e es')
  from assms(1) obtain first rest s0 where m: "mapE validate_event (es @ fs) = Inr (first # rest)"
    and o: "opening_state cd first = Inr s0" and f: "foldE (apply_portfolio_event cd) s0 rest = Inr s"
    and v: "replay_valid s0" and sn: "portfolio_seen cd s0 first" by (rule reduce_events_Inr)
  from m Cons obtain es1 fs1 where e1: "mapE validate_event es = Inr (first # es1)"
    and f1: "mapE validate_event fs = Inr fs1" and rest: "rest = es1 @ fs1"
    by (auto simp: mapE_append res_simps)
  define g where "g x = projr (validate_event x)" for x
  have g: "validate_event x = Inr (g x)" if x: "x \<in> set es" for x
  proof -
    obtain i where "i < length es" "x = es ! i" using x by (auto simp: in_set_conv_nth)
    with mapE_Inr_nth [OF e1] show ?thesis by (simp add: g_def)
  qed
  have esg: "first # es1 = map g es" using mapE_Inr_map [of es validate_event g] g e1 by simp
  have dsg: "mapE validate_event ds = Inr (map g ds)" using assms(2) g by (intro mapE_Inr_map) auto
  have sub: "set (map g ds) \<subseteq> set (first # es1)" unfolding esg using assms(2) by auto
  from f rest obtain u where u: "foldE (apply_portfolio_event cd) s0 es1 = Inr u"
    "foldE (apply_portfolio_event cd) u fs1 = Inr s" by (auto simp: foldE_append res_simps)
  have "portfolio_seen cd u d" if "d \<in> set (map g ds)" for d
  proof (cases "d = first")
    case True
    then show ?thesis using portfolio.fold_keeps_seen [OF v u(1) sn] by simp
  next
    case False
    with that sub have "d \<in> set es1" by auto
    then show ?thesis by (rule portfolio.fold_seen [OF v u(1)])
  qed
  then have noop: "foldE (apply_portfolio_event cd) u (map g ds) = Inr u"
    by (intro portfolio.seen_fold_noop portfolio.fold_valid [OF v u(1)])
  have "mapE validate_event (es @ ds @ fs) = Inr (first # es1 @ map g ds @ fs1)"
    by (simp add: mapE_append e1 f1 dsg)
  then show ?thesis using u noop by (simp add: reduce_portfolio_events_def o foldE_append)
qed

subsection \<open>The identity index\<close>

text \<open>
  An index of business identities lists exactly the applied events of its kind, with their event
  id, digest, stream and sequence.
\<close>

definition indexes :: "business_identity \<Rightarrow> applied_event \<Rightarrow> bool" where
  "indexes b a =
     (ae_business_identity_id a = Some (bi_identity_id b) \<and> bi_event_id b = ae_event_id a
      \<and> bi_event_digest b = ae_digest a \<and> bi_stream_id b = ae_stream_id a \<and> bi_sequence b = ae_sequence a)"

definition index_ok :: "string \<Rightarrow> business_identity list \<Rightarrow> applied_event list \<Rightarrow> bool" where
  "index_ok ty ids applied =
     ((\<forall>a \<in> set applied. ae_event_type a = ty \<longrightarrow> (\<exists>b \<in> set ids. indexes b a))
      \<and> (\<forall>b \<in> set ids. \<exists>a \<in> set applied. ae_event_type a = ty \<and> indexes b a))"

definition indexed_state :: "replay_state \<Rightarrow> bool" where
  "indexed_state s =
     (index_ok ''PortfolioFillEntry'' (rp_execution_identities s) (rp_applied_events s)
      \<and> index_ok ''PortfolioFundingEntry'' (rp_funding_identities s) (rp_applied_events s)
      \<and> index_ok ''PortfolioReconciliationEntry'' (rp_reconciliation_identities s) (rp_applied_events s))"

lemma index_ok_step:
  assumes "index_ok ty ids xs" "set ys = insert a (set xs)"
    and "if ae_event_type a = ty then \<exists>b. indexes b a \<and> set ids' = insert b (set ids) else ids' = ids"
  shows "index_ok ty ids' ys"
  using assms unfolding index_ok_def by (auto split: if_splits)

lemma updated_identity_tuple_Inr:
  assumes "updated_identity_tuple ids r label = Inr ids'"
  shows "set ids' = insert r (set ids)" "bi_identity_id r \<notin> bi_identity_id ` set ids"
  using assms by (auto simp: updated_identity_tuple_def find_None_iff split: option.splits if_splits)

lemma identity_record_indexes:
  assumes "identity_record cd e i = Inr r" "event_digest cd e = Inr d" "mk_applied e d = Inr a"
    and "payload_business_identity (ev_payload e) = Some i"
  shows "indexes r a \<and> bi_identity_id r = i"
proof -
  from assms(1,2) obtain pd where "r = \<lparr>bi_identity_id = i, bi_payload_digest = pd, bi_event_id = ev_event_id e,
      bi_event_digest = d, bi_stream_id = ev_stream_id e, bi_sequence = ev_sequence e\<rparr>"
    unfolding identity_record_def by (auto simp: res_simps dest: mk_state_identity(3))
  with mk_applied_fields [OF assms(3)] assms(4) show ?thesis
    using mk_state_identity(2) [OF assms(3) [unfolded mk_applied_def]] by (simp add: indexes_def)
qed

lemma mk_applied_type: "mk_applied e d = Inr a \<Longrightarrow> ae_event_type a = portfolio_event_type (ev_payload e)"
  unfolding mk_applied_def by (drule mk_state_identity(2)) simp

lemma business_identities_index:
  assumes "business_identities cd s e = Inr (ex, fu, re)" "event_digest cd e = Inr d" "mk_applied e d = Inr a"
    and "indexed_state s" "set ys = insert a (set (rp_applied_events s))"
  shows "index_ok ''PortfolioFillEntry'' ex ys \<and> index_ok ''PortfolioFundingEntry'' fu ys
    \<and> index_ok ''PortfolioReconciliationEntry'' re ys"
proof -
  note rules = index_ok_step [OF _ assms(5)]
  note ty = mk_applied_type [OF assms(3)]
  show ?thesis
  proof (cases "ev_payload e")
    case (FillEntry f)
    with assms(1) obtain r where r: "identity_record cd e (fe_execution_id (pfl_fill f)) = Inr r"
      "updated_identity_tuple (rp_execution_identities s) r ''execution'' = Inr ex"
      "fu = rp_funding_identities s" "re = rp_reconciliation_identities s"
      by (auto simp: business_identities_def res_simps)
    with FillEntry identity_record_indexes [OF r(1) assms(2,3)] updated_identity_tuple_Inr(1) [OF r(2)] assms(4) ty
    show ?thesis unfolding indexed_state_def by (intro conjI rules) auto
  next
    case (FundingEntry f)
    with assms(1) obtain r where r: "identity_record cd e (pfn_funding_id f) = Inr r"
      "updated_identity_tuple (rp_funding_identities s) r ''funding'' = Inr fu"
      "ex = rp_execution_identities s" "re = rp_reconciliation_identities s"
      by (auto simp: business_identities_def res_simps)
    with FundingEntry identity_record_indexes [OF r(1) assms(2,3)] updated_identity_tuple_Inr(1) [OF r(2)] assms(4) ty
    show ?thesis unfolding indexed_state_def by (intro conjI rules) auto
  next
    case (ReconciliationEntry f)
    with assms(1) obtain r where r: "identity_record cd e (prc_reconciliation_id f) = Inr r"
      "updated_identity_tuple (rp_reconciliation_identities s) r ''reconciliation'' = Inr re"
      "fu = rp_funding_identities s" "ex = rp_execution_identities s"
      by (auto simp: business_identities_def res_simps)
    with ReconciliationEntry identity_record_indexes [OF r(1) assms(2,3)] updated_identity_tuple_Inr(1) [OF r(2)]
      assms(4) ty
    show ?thesis unfolding indexed_state_def by (intro conjI rules) auto
  qed (use assms ty in \<open>auto simp: business_identities_def indexed_state_def intro: rules\<close>)
qed

lemma recorded_indexed:
  assumes "ends_recorded cd s e t" "replay_valid s" "known_digest s (ev_event_id e) = None" "indexed_state s"
  shows "indexed_state t"
proof -
  from assms(1) obtain s' snap fx rt rc where l: "same_ledger s s'" and n: "next_state cd s' snap e fx rt rc = Inr t"
    unfolding ends_recorded_def by blast
  from n obtain d a ex fu re where d: "event_digest cd e = Inr d" "mk_applied e d = Inr a"
    and bi: "business_identities cd s' e = Inr (ex, fu, re)"
    and t: "rp_execution_identities t = ex" "rp_funding_identities t = fu" "rp_reconciliation_identities t = re"
    by (rule next_state_Inr) blast
  have "set (rp_applied_events t) = insert a (set (rp_applied_events s))"
    using recorded_applied [OF assms(1-3)] d by (metis set_mset_add_mset_insert set_mset_mset sum.inject(2))
  moreover have "business_identities cd s e = Inr (ex, fu, re)"
    using bi l by (simp add: business_identities_def same_ledger_def)
  ultimately show ?thesis
    using business_identities_index [OF _ d assms(4)] t unfolding indexed_state_def by blast
qed

lemma apply_event_indexed:
  assumes "apply_portfolio_event cd s event = Inr t" "replay_valid s" "indexed_state s"
  shows "indexed_state t"
  using assms(1) by (cases rule: apply_event_cases) (use assms recorded_indexed in blast)+

subsection \<open>Properties of the stream\<close>

lemma validate_event_id: "validate_event event = Inr e \<Longrightarrow> ev_event_id e = ev_event_id event"
  by (auto simp: validate_event_def res_simps mk_event_envelope_Inr_iff)

lemma apply_event_ids:
  assumes "apply_portfolio_event cd s event = Inr t" "replay_valid s"
  shows "ae_event_id ` set (rp_applied_events t) = insert (ev_event_id event) (ae_event_id ` set (rp_applied_events s))"
  using assms(1)
proof (cases rule: apply_event_cases)
  case (1 e d)
  then have "ev_event_id event \<in> ae_event_id ` set (rp_applied_events s)"
    using known_digest_None [OF replay_valid_sorted(1) [OF assms(2)], of "ev_event_id event"] validate_event_id [OF 1(1)]
    by force
  with 1 show ?thesis by auto
next
  case (2 e d)
  from recorded_applied [OF 2(8) assms(2) 2(3)] 2(2) obtain a where a: "mk_applied e d = Inr a"
    "mset (rp_applied_events t) = add_mset a (mset (rp_applied_events s))" by auto
  have "set (rp_applied_events t) = insert a (set (rp_applied_events s))"
    using a(2) by (metis set_mset_add_mset_insert set_mset_mset)
  then show ?thesis using mk_applied_fields [OF a(1)] validate_event_id [OF 2(1)] by simp
qed

lemma opening_state_ledger:
  assumes "opening_state cd e = Inr s"
  shows "ae_event_id ` set (rp_applied_events s) = {ev_event_id e} \<and> indexed_state s
    \<and> rp_active_effects s = [] \<and> ws_positions (rp_snapshot s) = []"
proof -
  from assms obtain p w snapshot d c a where pay: "ev_payload e = OpeningEntry p" and a: "mk_applied e d = Inr a"
    and w: "mk_working_snapshot w = Inr snapshot" "ws_positions w = []"
    and mk: "mk_replay_state
      \<lparr>rp_snapshot = snapshot, rp_cursor = [c], rp_applied_events = [a], rp_valuation_rates = [],
       rp_active_effects = [], rp_execution_identities = [], rp_funding_identities = [],
       rp_reconciliation_identities = [], rp_reconciliation = None\<rparr> = Inr s"
    unfolding opening_state_def by (auto simp: res_simps split: portfolio_payload.splits)
  have "ws_positions snapshot = []" using mk_state_identity(6) [OF w(1)] w(2) by simp
  moreover have "ae_event_type a = ''PortfolioOpeningEntry''" using mk_applied_type [OF a] pay by simp
  ultimately show ?thesis
    using mk_replay_state_fields [OF mk] mk_replay_state_Inr(2) [OF mk] mk_applied_fields [OF a]
    by (simp add: same_ledger_def indexed_state_def index_ok_def)
qed

lemma fold_ledger:
  assumes "foldE (apply_portfolio_event cd) s es = Inr t" "replay_valid s" "indexed_state s"
  shows "replay_valid t \<and> indexed_state t
    \<and> ae_event_id ` set (rp_applied_events t) = ae_event_id ` set (rp_applied_events s) \<union> ev_event_id ` set es"
  using assms
proof (induction es arbitrary: s)
  case (Cons e es)
  from Cons.prems(1) obtain u where u: "apply_portfolio_event cd s e = Inr u" "foldE (apply_portfolio_event cd) u es = Inr t"
    by (auto simp: res_simps)
  have "replay_valid u" "indexed_state u" using u(1) Cons.prems apply_event_step apply_event_indexed by blast+
  from Cons.IH [OF u(2) this] apply_event_ids [OF u(1) Cons.prems(2)] show ?case by auto
qed simp

lemma reduced_ledger:
  assumes "reduce_portfolio_events cd es = Inr s"
  shows "replay_valid s" "indexed_state s" "ae_event_id ` set (rp_applied_events s) = ev_event_id ` set es"
proof -
  obtain first rest s0 where m: "mapE validate_event es = Inr (first # rest)" and o: "opening_state cd first = Inr s0"
    and f: "foldE (apply_portfolio_event cd) s0 rest = Inr s" and v: "replay_valid s0"
    using reduce_events_Inr [OF assms] by blast
  have "map ev_event_id (first # rest) = map ev_event_id es"
    using m
  proof (induction es arbitrary: first rest)
    case (Cons e es)
    then show ?case by (cases es) (auto simp: res_simps validate_event_id)
  qed simp
  then have "ev_event_id ` set es = insert (ev_event_id first) (ev_event_id ` set rest)"
    by (metis list.set(2) list.set_map image_insert)
  with fold_ledger [OF f v] opening_state_ledger [OF o]
  show "replay_valid s" "indexed_state s" "ae_event_id ` set (rp_applied_events s) = ev_event_id ` set es" by auto
qed

lemma indexed_unique:
  assumes "index_ok ty ids xs" "distinct (map bi_identity_id ids)" "distinct (map ae_event_id xs)"
    and "a \<in> set xs" "b \<in> set xs" "ae_event_type a = ty" "ae_event_type b = ty"
    and "ae_business_identity_id a = ae_business_identity_id b"
  shows "a = b"
proof -
  obtain x y where "x \<in> set ids" "indexes x a" "y \<in> set ids" "indexes y b"
    using assms(1,4-7) unfolding index_ok_def by blast
  then have "ae_event_id a = ae_event_id b"
    using assms(2,8) by (metis indexes_def distinct_map inj_onD option.inject)
  with assms(3-5) show ?thesis by (metis distinct_map inj_onD)
qed

text \<open>
  C3: delivering portfolio events again changes nothing: if a history is accepted, the same history
  with any of its earlier events (the opening included) repeated at any later point, any number of
  times and in any order, is accepted with the same final state.
\<close>

theorem portfolio_redelivery_harmless:
  assumes "reduce_portfolio_events cd (es @ fs) = Inr s" "set ds \<subseteq> set es"
  shows "reduce_portfolio_events cd (es @ ds @ fs) = Inr s"
  using assms by (rule reduce_duplicates)

theorem portfolio_redelivery_harmless_witness:
  "reduce_portfolio_events demo_codec ([demo_opening] @ [demo_opening, demo_opening] @ [demo_filled]) = Inr demo_filled_state"
  by (rule portfolio_redelivery_harmless) (simp_all add: demo_reduced)

text \<open>
  C4: every state the reducer produces is one its validator accepts unchanged, it has recorded exactly
  the event ids of the history, and each of its three identity indexes lists exactly the applied
  events of its kind with their event id, digest, stream and sequence.
\<close>

theorem portfolio_state_invariant:
  assumes "reduce_portfolio_events cd es = Inr s"
  shows "mk_replay_state s = Inr s \<and> ae_event_id ` set (rp_applied_events s) = ev_event_id ` set es
    \<and> index_ok ''PortfolioFillEntry'' (rp_execution_identities s) (rp_applied_events s)
    \<and> index_ok ''PortfolioFundingEntry'' (rp_funding_identities s) (rp_applied_events s)
    \<and> index_ok ''PortfolioReconciliationEntry'' (rp_reconciliation_identities s) (rp_applied_events s)"
  using reduced_ledger [OF assms] by (simp add: replay_valid_def indexed_state_def)

theorem portfolio_state_invariant_witness:
  "mk_replay_state demo_filled_state = Inr demo_filled_state
   \<and> ae_event_id ` set (rp_applied_events demo_filled_state) = {1, 2}
   \<and> index_ok ''PortfolioFillEntry'' (rp_execution_identities demo_filled_state) (rp_applied_events demo_filled_state)"
proof -
  have "ev_event_id ` set [demo_opening, demo_filled] = {1, 2}" by (simp add: demo_opening_def demo_filled_def demo_envelope_def)
  with portfolio_state_invariant [OF demo_reduced(2)] show ?thesis by (elim conjE) (intro conjI; simp only:)
qed

text \<open>
  C5: business identities are used once: in every state the reducer produces, two applied events of
  the same kind (fill, funding or reconciliation) with the same business identity are the same event,
  so no execution, funding or reconciliation is ever accounted twice under different event ids.
\<close>

theorem business_identity_used_once:
  assumes "reduce_portfolio_events cd es = Inr s"
    and "a \<in> set (rp_applied_events s)" "b \<in> set (rp_applied_events s)"
    and "ae_event_type a = ae_event_type b"
    and "ae_event_type a \<in> {''PortfolioFillEntry'', ''PortfolioFundingEntry'', ''PortfolioReconciliationEntry''}"
    and "ae_business_identity_id a = ae_business_identity_id b"
  shows "a = b"
proof -
  note r = reduced_ledger [OF assms(1)]
  note d = replay_valid_sorted(1,3-5) [OF r(1), THEN sorted_unique_distinct]
  from r(2) have i: "index_ok ''PortfolioFillEntry'' (rp_execution_identities s) (rp_applied_events s)"
    "index_ok ''PortfolioFundingEntry'' (rp_funding_identities s) (rp_applied_events s)"
    "index_ok ''PortfolioReconciliationEntry'' (rp_reconciliation_identities s) (rp_applied_events s)"
    by (simp_all add: indexed_state_def)
  consider "ae_event_type a = ''PortfolioFillEntry''" | "ae_event_type a = ''PortfolioFundingEntry''"
    | "ae_event_type a = ''PortfolioReconciliationEntry''" using assms(5) by (elim insertE emptyE)
  then show ?thesis
  proof cases
    case 1
    then show ?thesis using assms(4) by (intro indexed_unique [OF i(1) d(2,1) assms(2,3) _ _ assms(6)]) simp_all
  next
    case 2
    then show ?thesis using assms(4) by (intro indexed_unique [OF i(2) d(3,1) assms(2,3) _ _ assms(6)]) simp_all
  next
    case 3
    then show ?thesis using assms(4) by (intro indexed_unique [OF i(3) d(4,1) assms(2,3) _ _ assms(6)]) simp_all
  qed
qed

theorem business_identity_used_once_witness:
  "reduce_portfolio_events demo_codec [demo_opening, demo_filled] = Inr demo_filled_state
   \<and> rp_applied_events demo_filled_state ! 1 = demo_applied 2 2 ''PortfolioFillEntry'' (Some 2)"
proof -
  let ?a = "demo_applied 2 2 ''PortfolioFillEntry'' (Some 2)"
  have in1: "rp_applied_events demo_filled_state ! 1 \<in> set (rp_applied_events demo_filled_state)"
    "?a \<in> set (rp_applied_events demo_filled_state)"
    "ae_event_type (rp_applied_events demo_filled_state ! 1) = ''PortfolioFillEntry''"
    "ae_event_type ?a = ''PortfolioFillEntry''"
    "ae_business_identity_id (rp_applied_events demo_filled_state ! 1) = ae_business_identity_id ?a"
    by (simp_all add: demo_filled_state_def demo_applied_def)
  from business_identity_used_once [OF demo_reduced(2) in1(1,2)] in1 demo_reduced(2) show ?thesis by simp
qed

text \<open>
  An event id cannot be reused for different content: when the state has recorded the id of a
  well-formed event under another digest, the event is refused with the reducer's own error and no
  state is produced.
\<close>

theorem conflicting_event_refused:
  assumes "mk_replay_state s = Inr s" "validate_event event = Inr e" "event_digest cd e = Inr d"
    and "a \<in> set (rp_applied_events s)" "ae_event_id a = ev_event_id event" "ae_digest a \<noteq> d"
  shows "apply_portfolio_event cd s event = Inl (PortfolioReplayError ''conflicting event identity'')"
proof -
  have v: "replay_valid s" using assms(1) by (simp add: replay_valid_def)
  have "known_digest s (ev_event_id e) = Some (ae_digest a)"
    using known_digest_Some [OF replay_valid_sorted(1) [OF v]] assms(4,5) validate_event_id [OF assms(2)] by metis
  then show ?thesis
    using assms(6) by (simp add: apply_portfolio_event_def assms(2,3) replay_if_def flip: known_digest_def)
qed

theorem conflicting_event_refused_witness:
  "apply_portfolio_event (demo_codec\<lparr>cd_sha256 := (\<lambda>_. replicate 64 (CHR ''1''))\<rparr>) demo_filled_state demo_filled
     = Inl (PortfolioReplayError ''conflicting event identity'')"
proof (rule conflicting_event_refused [OF demo_filled_state_ok demo_filled_valid])
  show "event_digest (demo_codec\<lparr>cd_sha256 := (\<lambda>_. replicate 64 (CHR ''1''))\<rparr>) demo_filled = Inr (replicate 64 (CHR ''1''))"
    by (simp add: event_digest_def demo_codec_def)
  show "demo_applied 2 2 ''PortfolioFillEntry'' (Some 2) \<in> set (rp_applied_events demo_filled_state)"
    by (simp add: demo_filled_state_def)
qed (simp_all add: demo_applied_def replicate_eq_replicate)

end
