(* ===== verification/Portfolio_Economics.thy ===== *)
theory Portfolio_Economics
  imports Portfolio_Ledger
begin

text \<open>
  What the reducer (\<^verbatim>\<open>src/packages/portfolio_reducer/reducer.py\<close>) does to the money: the balances
  move by exactly the deltas an event owes, a funding and a conversion included, and the realized
  profit and loss a position has booked is the exact rational result of its fills rounded once, however
  many fills led to it.
\<close>


subsection \<open>Balances move by exactly the collected deltas\<close>

definition delta_in :: "currency \<Rightarrow> money list \<Rightarrow> rat" where
  "delta_in c ms = sum_list (map (\<lambda>m. fraction (m_amount m)) (filter (\<lambda>m. m_currency m = c) ms))"

lemma delta_in_simps [simp]:
  "delta_in c [] = 0"
  "delta_in c (m # ms) = (if m_currency m = c then fraction (m_amount m) else 0) + delta_in c ms"
  by (simp_all add: delta_in_def)

definition collected :: "(currency \<times> decimal list) list \<Rightarrow> currency \<Rightarrow> nat \<Rightarrow> rat" where
  "collected d c i = (case map_of d c of None \<Rightarrow> 0 | Some xs \<Rightarrow> fraction (xs ! i))"

definition four_each :: "(currency \<times> decimal list) list \<Rightarrow> bool" where
  "four_each d = (distinct (map fst d) \<and> (\<forall>c xs. map_of d c = Some xs \<longrightarrow> length xs = 4))"

lemma add_delta_Inr:
  assumes "add_delta i fld d m = Inr d'" "four_each d" "i < 4"
  shows "four_each d' \<and> fst ` set d' = insert (m_currency m) (fst ` set d)
    \<and> (\<forall>c j. j < 4 \<longrightarrow> collected d' c j = collected d c j + (if c = m_currency m \<and> j = i then fraction (m_amount m) else 0))"
proof -
  define cur where "cur = (case map_of d (m_currency m) of
    None \<Rightarrow> [dec_int 0, dec_int 0, dec_int 0, dec_int 0] | Some c \<Rightarrow> c)"
  from assms(1) obtain x where x: "sum_decimals [cur ! i, m_amount m] fld = Inr x"
    and d': "d' = dict_put (m_currency m) (cur[i := x]) d"
    unfolding add_delta_def Let_def cur_def [symmetric] by (auto simp: res_simps)
  have fx: "fraction x = fraction (cur ! i) + fraction (m_amount m)" using sum_decimals_fraction [OF x] by simp
  have len: "length cur = 4" using assms(2) by (auto simp: cur_def four_each_def split: option.splits)
  have zero: "fraction ([dec_int 0, dec_int 0, dec_int 0, dec_int 0] ! j) = 0" if "j < 4" for j
  proof -
    from that consider "j = 0" | "j = 1" | "j = 2" | "j = 3" by linarith
    then show ?thesis by cases simp_all
  qed
  have base: "fraction (cur ! j) = collected d (m_currency m) j" if "j < 4" for j
    using zero [OF that] by (simp add: cur_def collected_def split: option.splits)
  have "collected d' c j = collected d c j + (if c = m_currency m \<and> j = i then fraction (m_amount m) else 0)"
    if "j < 4" for c j
    using that base [OF that] fx len by (auto simp: d' collected_def [of "dict_put _ _ _"] dict_put_get nth_list_update)
      (simp add: collected_def)
  moreover have "four_each d'"
    using assms(2) len by (simp add: d' four_each_def dict_put_distinct dict_put_get)
  ultimately show ?thesis by (simp add: d' dict_put_keys)
qed

lemma add_deltas_Inr:
  assumes "foldE (add_delta i fld) d ms = Inr d'" "four_each d" "i < 4"
  shows "four_each d' \<and> fst ` set d' = m_currency ` set ms \<union> fst ` set d
    \<and> (\<forall>c j. j < 4 \<longrightarrow> collected d' c j = collected d c j + (if j = i then delta_in c ms else 0))"
  using assms
proof (induction ms arbitrary: d)
  case (Cons m ms)
  from Cons.prems(1) obtain d1 where d1: "add_delta i fld d m = Inr d1" "foldE (add_delta i fld) d1 ms = Inr d'"
    by (auto simp: res_simps)
  from add_delta_Inr [OF d1(1) Cons.prems(2,3)] Cons.IH [OF d1(2) _ Cons.prems(3)] show ?case by auto
qed simp

lemma collect_deltas_Inr:
  assumes "collect_deltas cash re fe un = Inr d"
  shows "four_each d" and "fst ` set d = m_currency ` set (cash @ re @ fe @ un)"
    and "collected d c 0 = delta_in c cash" and "collected d c 1 = delta_in c re"
    and "collected d c 2 = delta_in c fe" and "collected d c 3 = delta_in c un"
proof -
  from assms obtain d0 d1 d2 where f: "foldE (add_delta 0 ''cash delta'') [] cash = Inr d0"
    "foldE (add_delta 1 ''balance realized PnL delta'') d0 re = Inr d1"
    "foldE (add_delta 2 ''balance fee delta'') d1 fe = Inr d2"
    "foldE (add_delta 3 ''balance unrealized PnL delta'') d2 un = Inr d"
    unfolding collect_deltas_def by (auto simp: res_simps)
  have 0: "four_each []" "\<And>c i. collected [] c i = 0" by (simp_all add: four_each_def collected_def)
  note 1 = add_deltas_Inr [OF f(1) 0(1)]
  then have e1: "four_each d0" by simp
  note 2 = add_deltas_Inr [OF f(2) e1]
  then have e2: "four_each d1" by simp
  note 3 = add_deltas_Inr [OF f(3) e2]
  then have e3: "four_each d2" by simp
  note 4 = add_deltas_Inr [OF f(4) e3]
  show "four_each d" "fst ` set d = m_currency ` set (cash @ re @ fe @ un)"
    using 1 2 3 4 by auto
  show "collected d c 0 = delta_in c cash" "collected d c 1 = delta_in c re"
    "collected d c 2 = delta_in c fe" "collected d c 3 = delta_in c un"
    using 1 2 3 4 by (simp_all add: 0)
qed

definition balance_moved ::
  "account_balance_snapshot \<Rightarrow> rat \<Rightarrow> rat \<Rightarrow> rat \<Rightarrow> rat \<Rightarrow> rat \<Rightarrow> account_balance_snapshot \<Rightarrow> bool" where
  "balance_moved b cash re fe un fu b' =
     (ab_account_id b' = ab_account_id b \<and> ab_currency b' = ab_currency b
      \<and> fraction (m_amount (ab_cash b')) = fraction (m_amount (ab_cash b)) + cash
      \<and> fraction (m_amount (ab_realized_pnl b')) = fraction (m_amount (ab_realized_pnl b)) + re
      \<and> fraction (m_amount (ab_fees b')) = fraction (m_amount (ab_fees b)) + fe
      \<and> fraction (m_amount (ab_unrealized_pnl b')) = fraction (m_amount (ab_unrealized_pnl b)) + un
      \<and> fraction (m_amount (ab_funding b')) = fraction (m_amount (ab_funding b)) + fu
      \<and> ab_locked_funds b' = ab_locked_funds b \<and> ab_margin_used b' = ab_margin_used b)"

lemma balance_moved_refl: "balance_moved b 0 0 0 0 0 b"
  by (simp add: balance_moved_def)

lemma add_money_Inr:
  "add_money m x c fld = Inr m' \<Longrightarrow> fraction (m_amount m') = fraction (m_amount m) + fraction x \<and> m_currency m' = c"
  by (auto simp: add_money_def res_simps dest!: sum_decimals_fraction)

lemma rebuilt_balance_Inr:
  assumes "rebuilt_balance b xs tm = Inr b'"
  shows "balance_moved b (fraction (xs ! 0)) (fraction (xs ! 1)) (fraction (xs ! 2)) (fraction (xs ! 3)) 0 b'"
  using assms
  by (auto simp: rebuilt_balance_def balance_moved_def res_simps dest!: add_money_Inr mk_identity(1))

lemma dict_put_same_keys: "k \<in> fst ` set d \<Longrightarrow> map fst (dict_put k v d) = map fst d"
proof (induction d)
  case (Cons a d)
  then show ?case by (cases a) auto
qed simp

lemma apply_deltas_Inr:
  assumes "foldE (apply_delta tm) bc ds = Inr bc'" "distinct (map fst ds)"
  shows "map fst bc' = map fst bc \<and> fst ` set ds \<subseteq> fst ` set bc
    \<and> (\<forall>c b. map_of bc c = Some b \<longrightarrow> (\<exists>b'. map_of bc' c = Some b'
          \<and> balance_moved b (collected ds c 0) (collected ds c 1) (collected ds c 2) (collected ds c 3) 0 b'))"
  using assms
proof (induction ds arbitrary: bc)
  case Nil
  then show ?case using balance_moved_refl by (auto simp: collected_def)
next
  case (Cons it ds)
  obtain c0 xs where it: "it = (c0, xs)" by fastforce
  from Cons.prems(1) obtain b1 b1' where b1: "map_of bc c0 = Some b1" "rebuilt_balance b1 xs tm = Inr b1'"
    and rest: "foldE (apply_delta tm) (dict_put c0 b1' bc) ds = Inr bc'"
    by (auto simp: it apply_delta_def [of tm bc] res_simps split: option.splits)
  have dist: "distinct (map fst ds)" and c0: "c0 \<notin> fst ` set ds" using Cons.prems(2) by (simp_all add: it)
  note IH = Cons.IH [OF rest dist]
  have in_bc: "c0 \<in> fst ` set bc" using b1(1) by (force dest: map_of_SomeD)
  have keys: "map fst (dict_put c0 b1' bc) = map fst bc" using in_bc by (rule dict_put_same_keys)
  have none: "map_of ds c0 = None" using c0 by (simp add: map_of_eq_None_iff)
  have other: "collected (it # ds) c i = collected ds c i" if "c \<noteq> c0" for c i
    using that by (simp add: collected_def it)
  have "\<exists>b'. map_of bc' c = Some b' \<and> balance_moved b (collected (it # ds) c 0) (collected (it # ds) c 1)
      (collected (it # ds) c 2) (collected (it # ds) c 3) 0 b'" if b: "map_of bc c = Some b" for c b
  proof (cases "c = c0")
    case True
    then have "map_of (dict_put c0 b1' bc) c = Some b1'" by (simp add: dict_put_get)
    with IH obtain b' where b': "map_of bc' c = Some b'"
      "balance_moved b1' (collected ds c 0) (collected ds c 1) (collected ds c 2) (collected ds c 3) 0 b'" by blast
    with True none rebuilt_balance_Inr [OF b1(2)] b b1(1) show ?thesis
      by (auto simp: collected_def it balance_moved_def)
  next
    case False
    then have "map_of (dict_put c0 b1' bc) c = Some b" using b by (simp add: dict_put_get)
    with IH False show ?thesis by (auto simp: other)
  qed
  then show ?case using IH keys in_bc dict_put_keys [of c0 b1' bc] by (auto simp: it)
qed

lemma sorted_key_id: "sorted (map f xs) \<Longrightarrow> sort_key f xs = xs"
  by (induction xs) (auto simp: insort_is_Cons)

lemma balance_code_map: "map balance_code bs = map cur_code (map ab_currency bs)"
  by (simp add: balance_code_def)

lemma balance_currencies_distinct:
  assumes "sorted_unique balance_code bs" shows "distinct (map ab_currency bs)"
proof -
  have "distinct (map cur_code (map ab_currency bs))"
    using sorted_unique_distinct [OF assms] unfolding balance_code_map .
  then show ?thesis by (simp only: distinct_map)
qed

lemma apply_balances_Inr:
  assumes "apply_balances bs cash re fe un tm = Inr bs'" "sorted_unique balance_code bs"
  shows "m_currency ` set (cash @ re @ fe @ un) \<subseteq> ab_currency ` set bs"
    and "list_all2 (\<lambda>b. balance_moved b (delta_in (ab_currency b) cash) (delta_in (ab_currency b) re)
           (delta_in (ab_currency b) fe) (delta_in (ab_currency b) un) 0) bs bs'"
proof -
  from assms(1) obtain ds bc where ds: "collect_deltas cash re fe un = Inr ds"
    and bc: "foldE (apply_delta tm) (dict_of ab_currency bs) ds = Inr bc" and bs': "bs' = sorted_balances bc"
    by (auto simp: apply_balances_def res_simps)
  note D = collect_deltas_Inr [OF ds]
  note dist = balance_currencies_distinct [OF assms(2)]
  have dict: "dict_of ab_currency bs = map (\<lambda>b. (ab_currency b, b)) bs" by (rule dict_of_distinct [OF dist])
  from D(1) have "distinct (map fst ds)" by (simp add: four_each_def)
  note A = apply_deltas_Inr [OF bc this, unfolded dict]
  have keys: "map fst bc = map ab_currency bs" using A by (simp add: comp_def)
  then show "m_currency ` set (cash @ re @ fe @ un) \<subseteq> ab_currency ` set bs"
    using A D(2) by (auto simp: image_image)
  have "sorted (map cur_code (map fst bc))"
    using assms(2) unfolding keys sorted_unique_iff strict_sorted_iff balance_code_map by simp
  then have "sort_key (\<lambda>(c, _). cur_code c) bc = bc"
    by (intro sorted_key_id) (simp add: comp_def case_prod_unfold)
  then have bs'2: "bs' = map snd bc" by (simp add: bs' sorted_balances_def)
  have len: "length bc = length bs" using keys by (metis length_map)
  have mo: "map_of (map (\<lambda>b. (ab_currency b, b)) bs) (ab_currency (bs ! i)) = Some (bs ! i)" if "i < length bs" for i
    using dist that by (auto intro!: map_of_is_SomeI simp: comp_def)
  have "balance_moved (bs ! i) (delta_in (ab_currency (bs ! i)) cash) (delta_in (ab_currency (bs ! i)) re)
      (delta_in (ab_currency (bs ! i)) fe) (delta_in (ab_currency (bs ! i)) un) 0 (snd (bc ! i))" if i: "i < length bs" for i
  proof -
    from A mo [OF i] obtain b' where b': "map_of bc (ab_currency (bs ! i)) = Some b'"
      "balance_moved (bs ! i) (collected ds (ab_currency (bs ! i)) 0) (collected ds (ab_currency (bs ! i)) 1)
         (collected ds (ab_currency (bs ! i)) 2) (collected ds (ab_currency (bs ! i)) 3) 0 b'" by blast
    have "fst (bc ! i) = ab_currency (bs ! i)" using keys i len by (metis nth_map)
    moreover have "distinct (map fst bc)" using keys dist by simp
    moreover have "bc ! i \<in> set bc" using i len by simp
    ultimately have "map_of bc (ab_currency (bs ! i)) = Some (snd (bc ! i))"
      by (metis map_of_is_SomeI prod.collapse)
    with b' D(3-6) show ?thesis by simp
  qed
  then show "list_all2 (\<lambda>b. balance_moved b (delta_in (ab_currency b) cash) (delta_in (ab_currency b) re)
           (delta_in (ab_currency b) fe) (delta_in (ab_currency b) un) 0) bs bs'"
    by (simp add: list_all2_conv_all_nth bs'2 len)
qed

subsection \<open>Funding and conversion\<close>

lemma dict_put_map:
  assumes "distinct (map k xs)" "c \<in> k ` set xs"
  shows "dict_put c v (map (\<lambda>x. (k x, g x)) xs) = map (\<lambda>x. (k x, if k x = c then v else g x)) xs"
  using assms
proof (induction xs)
  case (Cons a xs)
  show ?case
  proof (cases "k a = c")
    case True
    with Cons.prems(1) have "c \<notin> k ` set xs" by simp
    then have "\<forall>x \<in> set xs. k x \<noteq> c" by blast
    with True show ?thesis by simp
  next
    case False
    with Cons show ?thesis by auto
  qed
qed simp

lemma update_one_balance:
  assumes "sorted_unique balance_code bs" "c \<in> ab_currency ` set bs"
  shows "sorted_balances (dict_put c b' (dict_of ab_currency bs)) = map (\<lambda>b. if ab_currency b = c then b' else b) bs"
proof -
  note dist = balance_currencies_distinct [OF assms(1)]
  let ?d = "map (\<lambda>b. (ab_currency b, b)) bs"
  have put: "dict_put c b' ?d = map (\<lambda>b. (ab_currency b, if ab_currency b = c then b' else b)) bs"
    by (rule dict_put_map [OF dist assms(2)])
  have "sorted (map balance_code bs)" using assms(1) by (simp add: sorted_unique_iff strict_sorted_iff)
  then have "sort_key (\<lambda>(c, _). cur_code c) (dict_put c b' ?d) = dict_put c b' ?d"
    unfolding put by (intro sorted_key_id) (simp add: comp_def balance_code_def [abs_def])
  then show ?thesis by (simp add: sorted_balances_def dict_of_distinct [OF dist] put)
qed

lemma balance_lookup:
  assumes "sorted_unique balance_code bs"
  shows "map_of (dict_of ab_currency bs) c = Some b \<longleftrightarrow> b \<in> set bs \<and> ab_currency b = c"
  using balance_currencies_distinct [OF assms]
  by (auto simp: dict_of_distinct comp_def map_of_eq_Some_iff)

lemma updated_balance_Inr:
  "updated_balance b x y tm = Inr b' \<Longrightarrow> balance_moved b (fraction x) 0 0 0 (fraction y) b'"
  by (auto simp: updated_balance_def balance_moved_def res_simps dest!: add_money_Inr mk_identity(1))

lemma make_working_snapshot_Inr:
  "make_working_snapshot s bs ps tm = Inr w \<Longrightarrow>
     w = (rp_snapshot s)\<lparr>ws_balances := or_else bs (ws_balances (rp_snapshot s)),
          ws_positions := or_else ps (ws_positions (rp_snapshot s)), ws_observed_at := tm\<rparr>"
  unfolding make_working_snapshot_def Let_def by (rule mk_state_identity(6))

lemma next_state_snapshot:
  "next_state cd s snap e fx rt rc = Inr t \<Longrightarrow> rp_snapshot t = or_else snap (rp_snapshot s)"
  by (elim next_state_Inr)

lemma or_else_simps [simp]: "or_else (Some x) d = x" "or_else None d = d"
  by (simp_all add: or_else_def)

definition moved_in :: "currency \<Rightarrow> rat \<Rightarrow> rat \<Rightarrow> account_balance_snapshot list \<Rightarrow> account_balance_snapshot list \<Rightarrow> bool" where
  "moved_in c cash funding bs bs' =
     list_all2 (\<lambda>b b'. if ab_currency b = c then balance_moved b cash 0 0 0 funding b' else b' = b) bs bs'"

lemma moved_in_update:
  assumes "sorted_unique balance_code bs" "map_of (dict_of ab_currency bs) c = Some b"
    and "updated_balance b x y tm = Inr b'"
  shows "moved_in c (fraction x) (fraction y) bs (sorted_balances (dict_put c b' (dict_of ab_currency bs)))"
proof -
  have b: "b \<in> set bs" "ab_currency b = c" using assms(2) balance_lookup [OF assms(1)] by auto
  have uniq: "a = b" if "a \<in> set bs" "ab_currency a = c" for a
    using that b balance_currencies_distinct [OF assms(1)] by (metis distinct_map inj_onD)
  have "c \<in> ab_currency ` set bs" using b by auto
  note upd = update_one_balance [OF assms(1) this]
  show ?thesis
    unfolding moved_in_def upd list.rel_map list_all2_same
    using updated_balance_Inr [OF assms(3)] uniq by auto
qed

lemma find_position_Some:
  "find_position s st i = Some p \<Longrightarrow>
     p \<in> set (ws_positions (rp_snapshot s)) \<and> pst_strategy_id p = st \<and> canonical (pst_instrument p) = i"
  unfolding find_position_def find_Some_iff by auto

lemma sorted_unique_update:
  assumes "sorted_unique key xs" "\<And>x. x \<in> set xs \<Longrightarrow> key (f x) = key x"
  shows "sort_key key (map f xs) = map f xs"
proof (rule sorted_key_id)
  have "map key (map f xs) = map key xs" using assms(2) by simp
  moreover have "sorted (map key xs)" using assms(1) by (simp add: sorted_unique_iff strict_sorted_iff)
  ultimately show "sorted (map key (map f xs))" by (simp only:)
qed

lemma replace_position_existing:
  assumes "sorted_unique position_key (ws_positions w)" "p \<in> set (ws_positions w)" "position_key r = position_key p"
  shows "replace_position w r = map (\<lambda>q. if position_key q = position_key p then r else q) (ws_positions w)"
proof -
  have ex: "list_ex (\<lambda>q. position_key q = position_key p) (ws_positions w)" using assms(2) by (auto simp: list_ex_iff)
  have "sort_key position_key (map (\<lambda>q. if position_key q = position_key p then r else q) (ws_positions w))
      = map (\<lambda>q. if position_key q = position_key p then r else q) (ws_positions w)"
    by (rule sorted_unique_update [OF assms(1)]) (use assms(3) in auto)
  then show ?thesis using ex assms(3) by (simp add: replace_position_def Let_def)
qed

definition funding_moved :: "funding_entry \<Rightarrow> position_state \<Rightarrow> position_state \<Rightarrow> bool" where
  "funding_moved entry p p' =
     (if pfn_strategy_id entry = Some (pst_strategy_id p)
         \<and> map_option canonical (pfn_instrument entry) = Some (canonical (pst_instrument p))
      then (\<exists>funding. fraction (m_amount funding) = fraction (m_amount (pst_funding p)) + fraction (m_amount (pfn_amount entry))
              \<and> p' = p\<lparr>pst_funding := funding, pst_observed_at := pfn_effective_at entry\<rparr>)
      else p' = p)"

lemma funding_effect:
  assumes "apply_funding cd s e entry = Inr t" "replay_valid s"
    and "pfn_strategy_id entry = None \<longleftrightarrow> pfn_instrument entry = None"
  shows "moved_in (m_currency (pfn_amount entry)) (fraction (m_amount (pfn_amount entry)))
      (fraction (m_amount (pfn_amount entry))) (ws_balances (rp_snapshot s)) (ws_balances (rp_snapshot t))
    \<and> list_all2 (funding_moved entry) (ws_positions (rp_snapshot s)) (ws_positions (rp_snapshot t))"
proof -
  have w: "mk_working_snapshot (rp_snapshot s) = Inr (rp_snapshot s)"
    using assms(2) mk_replay_state_Inr(3) by (simp add: replay_valid_def)
  note srt = mk_working_snapshot_Inr(2,3) [OF w]
  let ?bs = "ws_balances (rp_snapshot s)" and ?c = "m_currency (pfn_amount entry)"
  from assms(1) obtain b where b: "map_of (dict_of ab_currency ?bs) ?c = Some b"
    by (auto simp: apply_funding_def Let_def split: option.splits)
  show ?thesis
  proof (cases "pfn_strategy_id entry")
    case None
    with assms(1) b obtain b' snap where b': "updated_balance b (m_amount (pfn_amount entry))
          (m_amount (pfn_amount entry)) (pfn_effective_at entry) = Inr b'"
      and snap: "make_working_snapshot s (Some (sorted_balances (dict_put ?c b' (dict_of ab_currency ?bs)))) None
          (pfn_effective_at entry) = Inr snap"
      and t: "next_state cd s (Some snap) e None None None = Inr t"
      by (auto simp: apply_funding_def Let_def res_simps)
    have "list_all2 (funding_moved entry) ps ps" for ps
      using None by (simp add: funding_moved_def list_all2_same)
    with moved_in_update [OF srt(1) b b'] next_state_snapshot [OF t] make_working_snapshot_Inr [OF snap]
    show ?thesis by simp
  next
    case (Some st)
    with assms(3) obtain i where i: "pfn_instrument entry = Some i" by auto
    with assms(1) b Some obtain p funding r b' snap where p: "find_position s st (canonical i) = Some p"
      and f: "add_money (pst_funding p) (m_amount (pfn_amount entry)) (pst_settlement_currency p) ''position funding'' = Inr funding"
      and r: "mk_position_state (p\<lparr>pst_funding := funding, pst_observed_at := pfn_effective_at entry\<rparr>) = Inr r"
      and b': "updated_balance b (m_amount (pfn_amount entry)) (m_amount (pfn_amount entry)) (pfn_effective_at entry) = Inr b'"
      and snap: "make_working_snapshot s (Some (sorted_balances (dict_put ?c b' (dict_of ab_currency ?bs))))
          (Some (replace_position (rp_snapshot s) r)) (pfn_effective_at entry) = Inr snap"
      and t: "next_state cd s (Some snap) e None None None = Inr t"
      by (auto simp: apply_funding_def Let_def res_simps split: option.splits)
    note r' = mk_state_identity(5) [OF r] and p' = find_position_Some [OF p]
    have key: "position_key r = position_key p" by (simp add: r' position_key_def)
    have uniq: "q = p" if "q \<in> set (ws_positions (rp_snapshot s))" "position_key q = position_key p" for q
      using that p' sorted_unique_inj [OF srt(2)] by (auto dest: inj_onD)
    have "list_all2 (funding_moved entry) (ws_positions (rp_snapshot s)) (replace_position (rp_snapshot s) r)"
      unfolding replace_position_existing [OF srt(2) conjunct1 [OF p'] key] list.rel_map list_all2_same
    proof
      fix q assume q: "q \<in> set (ws_positions (rp_snapshot s))"
      have "funding_moved entry p r" using add_money_Inr [OF f] p' Some i by (auto simp: funding_moved_def r')
      moreover have "funding_moved entry q q" if "position_key q \<noteq> position_key p"
        using that p' Some i by (auto simp: funding_moved_def position_key_def)
      ultimately show "funding_moved entry q (if position_key q = position_key p then r else q)"
        using uniq [OF q] by auto
    qed
    with moved_in_update [OF srt(1) b b'] next_state_snapshot [OF t] make_working_snapshot_Inr [OF snap]
    show ?thesis by simp
  qed
qed

definition converted :: "currency_conversion \<Rightarrow> account_balance_snapshot \<Rightarrow> account_balance_snapshot \<Rightarrow> bool" where
  "converted conv b b' =
     (if ab_currency b = m_currency (cc_source conv)
      then balance_moved b (- fraction (m_amount (cc_source conv))) 0 0 0 0 b'
        \<and> 0 \<le> fraction (m_amount (ab_cash b'))
      else if ab_currency b = m_currency (cc_target conv)
      then balance_moved b (fraction (m_amount (cc_target conv))) 0 0 0 0 b'
      else b' = b)"

lemma dict_two_puts:
  assumes "distinct (map ab_currency bs)" "c1 \<in> ab_currency ` set bs" "c2 \<in> ab_currency ` set bs" "c1 \<noteq> c2"
  shows "dict_put c2 y (dict_put c1 x (dict_of ab_currency bs)) =
    map (\<lambda>b. (ab_currency b, if ab_currency b = c1 then x else if ab_currency b = c2 then y else b)) bs"
proof -
  have "dict_put c2 y (dict_put c1 x (dict_of ab_currency bs)) =
      map (\<lambda>b. (ab_currency b, if ab_currency b = c2 then y else if ab_currency b = c1 then x else b)) bs"
    by (simp add: dict_of_distinct [OF assms(1)] dict_put_map [OF assms(1,2)] dict_put_map [OF assms(1,3)])
  also have "\<dots> = map (\<lambda>b. (ab_currency b, if ab_currency b = c1 then x else if ab_currency b = c2 then y else b)) bs"
    using assms(4) by auto
  finally show ?thesis .
qed

lemma conversion_effect:
  assumes "apply_conversion cd s e entry = Inr t" "replay_valid s"
    and "m_currency (cc_source (pcv_conversion entry)) \<noteq> m_currency (cc_target (pcv_conversion entry))"
  shows "list_all2 (converted (pcv_conversion entry)) (ws_balances (rp_snapshot s)) (ws_balances (rp_snapshot t))
    \<and> ws_positions (rp_snapshot t) = ws_positions (rp_snapshot s)"
proof -
  have w: "mk_working_snapshot (rp_snapshot s) = Inr (rp_snapshot s)"
    using assms(2) mk_replay_state_Inr(3) by (simp add: replay_valid_def)
  note srt = mk_working_snapshot_Inr(2) [OF w]
  let ?bs = "ws_balances (rp_snapshot s)" and ?conv = "pcv_conversion entry"
  let ?c1 = "m_currency (cc_source ?conv)" and ?c2 = "m_currency (cc_target ?conv)"
  from assms(1) obtain b1 b2 b1' b2' snap where b1: "map_of (dict_of ab_currency ?bs) ?c1 = Some b1"
    and b2: "map_of (dict_of ab_currency ?bs) ?c2 = Some b2"
    and enough: "\<not> dec_lt (m_amount (ab_cash b1)) (m_amount (cc_source ?conv))"
    and u1: "updated_balance b1 (negated (m_amount (cc_source ?conv))) (dec_int 0) (pcv_effective_at entry) = Inr b1'"
    and u2: "updated_balance b2 (m_amount (cc_target ?conv)) (dec_int 0) (pcv_effective_at entry) = Inr b2'"
    and snap: "make_working_snapshot s (Some (sorted_balances (dict_put (ab_currency b2) b2'
        (dict_put (ab_currency b1) b1' (dict_of ab_currency ?bs))))) None (pcv_effective_at entry) = Inr snap"
    and t: "next_state cd s (Some snap) e None None None = Inr t"
    by (auto simp: apply_conversion_def Let_def res_simps split: option.splits)
  note l = balance_lookup [OF srt]
  have m1: "b1 \<in> set ?bs" "ab_currency b1 = ?c1" and m2: "b2 \<in> set ?bs" "ab_currency b2 = ?c2"
    using b1 b2 l by auto
  note dist = balance_currencies_distinct [OF srt]
  have uniq: "a = b" if "a \<in> set ?bs" "b \<in> set ?bs" "ab_currency a = ab_currency b" for a b
    using that dist by (metis distinct_map inj_onD)
  let ?f = "\<lambda>b. if ab_currency b = ?c1 then b1' else if ab_currency b = ?c2 then b2' else b"
  have "dict_put (ab_currency b2) b2' (dict_put (ab_currency b1) b1' (dict_of ab_currency ?bs))
      = map (\<lambda>b. (ab_currency b, ?f b)) ?bs"
    unfolding m1(2) m2(2) by (rule dict_two_puts [OF dist _ _ assms(3)]) (use m1 m2 in force)+
  moreover have "sort_key (\<lambda>(c, _). cur_code c) (map (\<lambda>b. (ab_currency b, ?f b)) ?bs)
      = map (\<lambda>b. (ab_currency b, ?f b)) ?bs"
    using srt by (intro sorted_key_id) (simp add: comp_def balance_code_def [abs_def] sorted_unique_iff strict_sorted_iff)
  ultimately have bal: "ws_balances (rp_snapshot t) = map ?f ?bs" "ws_positions (rp_snapshot t) = ws_positions (rp_snapshot s)"
    using next_state_snapshot [OF t] make_working_snapshot_Inr [OF snap]
    by (simp_all add: sorted_balances_def comp_def)
  have mv1: "balance_moved b1 (- fraction (m_amount (cc_source ?conv))) 0 0 0 0 b1'"
    using updated_balance_Inr [OF u1] by simp
  moreover have mv2: "balance_moved b2 (fraction (m_amount (cc_target ?conv))) 0 0 0 0 b2'"
    using updated_balance_Inr [OF u2] by simp
  moreover have "0 \<le> fraction (m_amount (ab_cash b1'))"
    using mv1 enough by (simp add: balance_moved_def dec_lt_def)
  ultimately have "converted ?conv b (?f b)" if "b \<in> set ?bs" for b
    using uniq [OF that m1(1)] uniq [OF that m2(1)] m1(2) m2(2) by (auto simp: converted_def)
  then show ?thesis unfolding bal(1) list.rel_map list_all2_same using bal(2) by blast
qed

subsection \<open>The cash a fill moves\<close>

definition cash_owed :: "fill_event \<Rightarrow> currency \<Rightarrow> rat" where
  "cash_owed fill c =
     (if c = id_settlement_currency (fe_instrument_definition fill)
      then - (signed_fill_fraction fill * fraction (p_amount (fe_last_fill_price fill))
              * fraction (id_multiplier (fe_instrument_definition fill)))
      else 0)
     - (if c = m_currency (fe_commission fill) then fraction (m_amount (fe_commission fill)) else 0)"

lemma rounded_moneys:
  assumes "mapE (\<lambda>(currency, amount). bindE (rounded_decimal amount (cur_precision currency) fld) (\<lambda>a.
      replay_money a currency fld)) xs = Inr ms" "distinct (map fst xs)"
  shows "delta_in c ms = (case map_of xs c of None \<Rightarrow> 0 | Some a \<Rightarrow> rounded a (cur_precision c))
    \<and> map m_currency ms = map fst xs"
  using assms
proof (induction xs arbitrary: ms)
  case (Cons x xs)
  obtain k a where x: "x = (k, a)" by fastforce
  from Cons.prems(1) obtain m ms' r where r: "rounded_decimal a (cur_precision k) fld = Inr r" "replay_money r k fld = Inr m"
    and ms: "ms = m # ms'" and rest: "mapE (\<lambda>(currency, amount). bindE (rounded_decimal amount (cur_precision currency) fld) (\<lambda>a.
      replay_money a currency fld)) xs = Inr ms'"
    by (auto simp: x res_simps)
  have m: "m_currency m = k" "fraction (m_amount m) = rounded a (cur_precision k)"
    using r(2) rounded_decimal_rounded [OF r(1)] by (auto simp: res_simps)
  have d: "distinct (map fst xs)" and k: "map_of xs k = None" using Cons.prems(2) by (auto simp: x map_of_eq_None_iff)
  from Cons.IH [OF rest d] m k show ?case by (auto simp: ms x)
qed simp

lemma map_of_nonzero:
  "distinct (map fst xs) \<Longrightarrow> map_of (filter (\<lambda>(_, a). a \<noteq> 0) xs) c =
     (case map_of xs c of Some a \<Rightarrow> if a = (0::rat) then None else Some a | None \<Rightarrow> None)"
  by (induction xs) (auto simp: map_of_eq_None_iff split: option.splits)

lemma map_of_sort_key: "distinct (map fst xs) \<Longrightarrow> map_of (sort_key f xs) = map_of xs"
  by (rule map_of_inject_set [THEN iffD2]) (auto simp: distinct_map)

lemma sort_key_distinct_fst: "distinct (map fst xs) \<Longrightarrow> distinct (map fst (sort_key f xs))"
  by (simp add: distinct_map)

lemma cash_deltas_Inr:
  assumes "cash_deltas fill = Inr ms"
  shows "delta_in c ms = rounded (cash_owed fill c) (cur_precision c)"
proof -
  define d where "d = fe_instrument_definition fill"
  define owed where "owed = dict_put (m_currency (fe_commission fill))
    ((case map_of [(id_settlement_currency d, cash_owed fill (id_settlement_currency d)
         + (if id_settlement_currency d = m_currency (fe_commission fill) then fraction (m_amount (fe_commission fill)) else 0))]
        (m_currency (fe_commission fill)) of None \<Rightarrow> 0 | Some x \<Rightarrow> x) - fraction (m_amount (fe_commission fill)))
    [(id_settlement_currency d, cash_owed fill (id_settlement_currency d)
         + (if id_settlement_currency d = m_currency (fe_commission fill) then fraction (m_amount (fe_commission fill)) else 0))]"
  have dist: "distinct (map fst owed)" unfolding owed_def by (rule dict_put_distinct) simp
  have get: "(case map_of owed c of None \<Rightarrow> 0 | Some a \<Rightarrow> a) = cash_owed fill c"
    by (auto simp: owed_def dict_put_get cash_owed_def d_def)
  let ?xs = "filter (\<lambda>(_, a). a \<noteq> 0) (sort_key (\<lambda>(c, _). cur_code c) owed)"
  have mapE: "mapE (\<lambda>(currency, amount). bindE (rounded_decimal amount (cur_precision currency) ''cash delta'') (\<lambda>a.
      replay_money a currency ''cash delta'')) ?xs = Inr ms"
  proof -
    have trade: "(if fe_side fill = BUY
        then - (fraction (oq_value (fe_quantity fill)) * fraction (p_amount (fe_last_fill_price fill)) * fraction (id_multiplier d))
        else fraction (oq_value (fe_quantity fill)) * fraction (p_amount (fe_last_fill_price fill)) * fraction (id_multiplier d))
      = cash_owed fill (id_settlement_currency d)
         + (if id_settlement_currency d = m_currency (fe_commission fill) then fraction (m_amount (fe_commission fill)) else 0)"
      by (cases "fe_side fill") (auto simp: cash_owed_def signed_fill_fraction_def d_def)
    show ?thesis using assms unfolding cash_deltas_def Let_def d_def [symmetric] trade owed_def .
  qed
  have dist2: "distinct (map fst ?xs)" by (intro distinct_map_filter sort_key_distinct_fst dist)
  have "map_of ?xs c = (case map_of owed c of Some a \<Rightarrow> if a = 0 then None else Some a | None \<Rightarrow> None)"
    by (simp only: map_of_nonzero [OF sort_key_distinct_fst [OF dist]] map_of_sort_key [OF dist])
  with rounded_moneys [OF mapE dist2, of c] get show ?thesis by (auto split: option.splits if_splits)
qed

subsection \<open>What a fill's effect records\<close>

lemma realized_delta_fraction:
  "realized_delta_of r a p = Inr d \<Longrightarrow> fraction d = rounded (r + a) p - rounded r p"
  by (auto simp: realized_delta_of_def res_simps dest!: sum_decimals_fraction rounded_decimal_rounded)

lemma fill_accounting_Inr:
  assumes "fill_accounting fill cur avg b = Inr fr"
  shows "fraction (fr_signed_fill fr) = signed_fill_fraction fill"
    and "fraction (fr_residual fr) = fraction cur + signed_fill_fraction fill"
    and "fr_realized fr = realized_for_fill fill (fraction cur) b"
    and "fr_basis_after fr = snd (advanced_cost_basis (fraction cur) b fill)"
    and "fr_next_average fr = None \<longleftrightarrow> fraction cur + signed_fill_fraction fill = 0"
proof -
  have sf: "fraction (if fe_side fill = BUY then oq_value (fe_quantity fill) else negated (oq_value (fe_quantity fill)))
      = signed_fill_fraction fill"
    by (cases "fe_side fill") (simp_all add: signed_fill_fraction_def)
  from assms sf show "fraction (fr_signed_fill fr) = signed_fill_fraction fill"
    "fraction (fr_residual fr) = fraction cur + signed_fill_fraction fill"
    "fr_realized fr = realized_for_fill fill (fraction cur) b"
    "fr_basis_after fr = snd (advanced_cost_basis (fraction cur) b fill)"
    "fr_next_average fr = None \<longleftrightarrow> fraction cur + signed_fill_fraction fill = 0"
    unfolding fill_accounting_def Let_def
    by (auto simp: res_simps dest!: sum_decimals_fraction split: if_splits)
qed

lemma fill_effect_Inr:
  assumes "fill_effect s entry ev ls mk = Inr (x, p')" and "mk_fill_entry entry = Inr entry"
  obtains p b r fr rd where
    "position_or_new s entry (pfl_fill entry) (pfl_strategy_id entry) = Inr p"
    "accounting_before (rp_active_effects s) (pfl_strategy_id entry, canonical (pst_instrument p))
       (q_value (pst_quantity p)) (pst_average_entry_price p) = Inr (b, r)"
    "fill_accounting (pfl_fill entry) (q_value (pst_quantity p)) (pst_average_entry_price p) b = Inr fr"
    "realized_delta_of r (fr_realized fr)
       (cur_precision (id_settlement_currency (fe_instrument_definition (pfl_fill entry)))) = Inr rd"
    "replay_quantity (fr_residual fr) (oq_precision (fe_quantity (pfl_fill entry))) = Inr (pst_quantity p')"
    "pst_average_entry_price p' = fr_next_average fr" "pst_strategy_id p' = pst_strategy_id p"
    "pst_instrument p' = pst_instrument p" "pst_funding p' = pst_funding p"
    "pst_settlement_currency p' = pst_settlement_currency p"
    "fraction (m_amount (pst_realized_pnl p')) = fraction (m_amount (pst_realized_pnl p)) + fraction rd"
    "fraction (m_amount (pst_fees p')) = fraction (m_amount (pst_fees p)) + fraction (fr_fee_delta fr)"
    "mk_execution_effect x = Inr x" "fx_fill x = pfl_fill entry" "fx_entry x = entry" "fx_logical_sequence x = ls"
    "fx_execution_id x = fe_execution_id (pfl_fill entry)"
    "fx_position_key x = (pfl_strategy_id entry, canonical (pst_instrument p))"
    "fx_quantity_before x = pst_quantity p" "fx_average_before x = pst_average_entry_price p"
    "fx_average_after x = fr_next_average fr" "cash_deltas (pfl_fill entry) = Inr (fx_cash_deltas x)"
    "replay_quantity (fr_signed_fill fr) (oq_precision (fe_quantity (pfl_fill entry))) = Inr (fx_quantity_delta x)"
    "fx_realized_pnl_delta x = \<lparr>m_amount = rd, m_currency = pst_settlement_currency p\<rparr>"
    "fx_fees_delta x = \<lparr>m_amount = fr_fee_delta fr, m_currency = pst_settlement_currency p\<rparr>"
    "fx_balance_realized_pnl_deltas x =
       (if is_zero rd then [] else [\<lparr>m_amount = rd, m_currency = pst_settlement_currency p\<rparr>])"
    "fx_balance_fee_deltas x = (if is_zero (m_amount (fe_commission (pfl_fill entry))) then []
       else [fe_commission (pfl_fill entry)])"
    "fx_strategy_id x = pfl_strategy_id entry" "fx_account_id x = pfl_account_id entry"
    "pst_account_id p' = pst_account_id p" "mk_position_state p' = Inr p'"
proof -
  have mk: "f = pfl_fill entry" if "mk_fill_event (pfl_fill entry) = Inr f" for f
  proof -
    from assms(2) that have "entry\<lparr>pfl_fill := f\<rparr> = entry" by (auto simp: mk_fill_entry_def res_simps)
    then have "pfl_fill (entry\<lparr>pfl_fill := f\<rparr>) = pfl_fill entry" by (simp only:)
    then show ?thesis by simp
  qed
  let ?fill = "pfl_fill entry"
  from assms(1) obtain p b r fr rd q nm un rs fs p2 cash br qd where
    p: "position_or_new s entry ?fill (pfl_strategy_id entry) = Inr p"
    and ab: "accounting_before (rp_active_effects s) (pfl_strategy_id entry, canonical (pst_instrument p))
       (q_value (pst_quantity p)) (pst_average_entry_price p) = Inr (b, r)"
    and fa: "fill_accounting ?fill (q_value (pst_quantity p)) (pst_average_entry_price p) b = Inr fr"
    and rd: "realized_delta_of r (fr_realized fr)
       (cur_precision (id_settlement_currency (fe_instrument_definition ?fill))) = Inr rd"
    and q: "replay_quantity (fr_residual fr) (oq_precision (fe_quantity ?fill)) = Inr q"
    and rs: "sum_decimals [m_amount (pst_realized_pnl p), rd] ''realized PnL'' = Inr rs"
    and fs: "sum_decimals [m_amount (pst_fees p), fr_fee_delta fr] ''position fees'' = Inr fs"
    and p2: "mk_position_state
        \<lparr>pst_account_id = pst_account_id p, pst_strategy_id = pst_strategy_id p,
         pst_instrument = pst_instrument p, pst_instrument_definition = Some (fe_instrument_definition ?fill),
         pst_settlement_currency = pst_settlement_currency p, pst_quantity = q, pst_mark = nm,
         pst_average_entry_price = fr_next_average fr,
         pst_realized_pnl = \<lparr>m_amount = rs, m_currency = pst_settlement_currency p\<rparr>,
         pst_unrealized_pnl = un, pst_fees = \<lparr>m_amount = fs, m_currency = pst_settlement_currency p\<rparr>,
         pst_funding = pst_funding p, pst_observed_at = pfl_effective_at entry,
         pst_schema_version = pst_schema_version p\<rparr> = Inr p'"
    and cash: "cash_deltas ?fill = Inr cash"
    and br: "(if \<not> is_zero rd then bindE (replay_money rd (pst_settlement_currency p) ''balance realized PnL'') (\<lambda>m. Inr [m])
             else Inr []) = Inr br"
    and qd: "replay_quantity (fr_signed_fill fr) (oq_precision (fe_quantity ?fill)) = Inr qd"
    and x: "mk_execution_effect
        \<lparr>fx_execution_id = fe_execution_id ?fill, fx_account_id = pfl_account_id entry,
         fx_strategy_id = pfl_strategy_id entry, fx_fill = ?fill, fx_entry = entry,
         fx_source_event = ev, fx_logical_sequence = ls, fx_cash_deltas = cash,
         fx_balance_realized_pnl_deltas = br,
         fx_balance_fee_deltas = (if \<not> is_zero (m_amount (fe_commission ?fill)) then [fe_commission ?fill] else []),
         fx_position_key = (pfl_strategy_id entry, canonical (pst_instrument p)), fx_quantity_before = pst_quantity p,
         fx_quantity_delta = qd, fx_realized_pnl_delta = \<lparr>m_amount = rd, m_currency = pst_settlement_currency p\<rparr>,
         fx_fees_delta = \<lparr>m_amount = fr_fee_delta fr, m_currency = pst_settlement_currency p\<rparr>,
         fx_average_before = pst_average_entry_price p,
         fx_average_after = fr_next_average fr\<rparr> = Inr x"
    unfolding fill_effect_def Let_def
    by (simp only: res_simps split_paired_Ex prod.case Pair_inject sum.inject) (elim exE conjE, blast)
  have br': "br = (if is_zero rd then [] else [\<lparr>m_amount = rd, m_currency = pst_settlement_currency p\<rparr>])"
    using br by (auto simp: res_simps split: if_splits)
  note p' = mk_state_identity(5) [OF p2]
  have rdf: "fraction rs = fraction (m_amount (pst_realized_pnl p)) + fraction rd"
    "fraction fs = fraction (m_amount (pst_fees p)) + fraction (fr_fee_delta fr)"
    using sum_decimals_fraction [OF rs] sum_decimals_fraction [OF fs] by simp_all
  note xs = mk_execution_effect_stable [OF x]
  from mk_execution_effect_Inr [OF x] mk assms(2) obtain sv where
    x': "x = \<lparr>fx_execution_id = fe_execution_id ?fill, fx_account_id = pfl_account_id entry,
         fx_strategy_id = pfl_strategy_id entry, fx_fill = ?fill, fx_entry = entry,
         fx_source_event = sv, fx_logical_sequence = ls, fx_cash_deltas = cash,
         fx_balance_realized_pnl_deltas = br,
         fx_balance_fee_deltas = (if \<not> is_zero (m_amount (fe_commission ?fill)) then [fe_commission ?fill] else []),
         fx_position_key = (pfl_strategy_id entry, canonical (pst_instrument p)), fx_quantity_before = pst_quantity p,
         fx_quantity_delta = qd, fx_realized_pnl_delta = \<lparr>m_amount = rd, m_currency = pst_settlement_currency p\<rparr>,
         fx_fees_delta = \<lparr>m_amount = fr_fee_delta fr, m_currency = pst_settlement_currency p\<rparr>,
         fx_average_before = pst_average_entry_price p, fx_average_after = fr_next_average fr\<rparr>"
    by auto
  have p2s: "mk_position_state p' = Inr p'" using p2 p' by simp
  show thesis
    by (rule that [OF p ab fa rd]) (use q cash qd rdf xs p2s br' in \<open>simp_all add: x' p'\<close>)
qed

subsection \<open>A newer effect extends its position's lineage\<close>

lemma insort_key_last: "(\<And>y. y \<in> set ys \<Longrightarrow> f y < f x) \<Longrightarrow> insort_key f x ys = ys @ [x]"
proof (induction ys)
  case (Cons y ys)
  then have "\<not> f x \<le> f y" by (simp add: not_le)
  with Cons show ?case by simp
qed simp

lemma insort_key_before: "f u < f x \<Longrightarrow> insort_key f u (ys @ [x]) = insort_key f u ys @ [x]"
  by (induction ys) auto

lemma sort_key_last:
  assumes "\<And>y. y \<in> set us \<union> set vs \<Longrightarrow> f y < f x"
  shows "sort_key f (us @ x # vs) = sort_key f (us @ vs) @ [x]"
  using assms
proof (induction us)
  case Nil
  then have "insort_key f x (sort_key f vs) = sort_key f vs @ [x]" by (intro insort_key_last) simp
  then show ?case by simp
next
  case (Cons u us)
  then have "sort_key f (us @ x # vs) = sort_key f (us @ vs) @ [x]" and "f u < f x" by simp_all
  then show ?case by (simp add: insort_key_before)
qed

lemma insort_key_split: "\<exists>us vs. ys = us @ vs \<and> insort_key f x ys = us @ x # vs"
proof (induction ys)
  case (Cons y ys)
  then obtain us vs where "ys = us @ vs" "insort_key f x ys = us @ x # vs" by blast
  then show ?case by (cases "f x \<le> f y") (force intro: exI [of _ "y # us"] exI [of _ "[]"])+
qed simp

lemma sort_key_snoc_sorted:
  assumes "sorted_unique key as" "key x \<notin> key ` set as"
  shows "sort_key key (as @ [x]) = insort_key key x as"
proof -
  have "sorted (map key as)" "distinct (map key as)"
    using assms(1) by (simp_all add: sorted_unique_iff strict_sorted_iff)
  then have "sort_key key (x # as) = insort_key key x as" by (simp add: sorted_key_id)
  moreover have "sort_key key (x # as) = sort_key key (as @ [x])"
    using assms(2) \<open>distinct (map key as)\<close> by (intro sort_key_permute) (auto simp: image_iff)
  ultimately show ?thesis by simp
qed

lemma effects_of_snoc:
  assumes "sorted_unique fx_execution_id as" "fx_execution_id x \<notin> fx_execution_id ` set as"
    and "\<And>y. y \<in> set as \<Longrightarrow> fx_position_key y = fx_position_key x \<Longrightarrow> fx_logical_sequence y < fx_logical_sequence x"
  shows "effects_of (sort_key fx_execution_id (as @ [x])) k =
    (if k = fx_position_key x then effects_of as k @ [x] else effects_of as k)"
proof -
  obtain us vs where s: "as = us @ vs" "insort_key fx_execution_id x as = us @ x # vs"
    using insort_key_split by metis
  have e: "sort_key fx_execution_id (as @ [x]) = us @ x # vs" using sort_key_snoc_sorted [OF assms(1,2)] s(2) by simp
  show ?thesis
    unfolding effects_of_def e using assms(3) s(1) by (auto intro!: sort_key_last)
qed

lemma accounting_before_snoc:
  assumes "effects_of as' k = effects_of as k @ [x]" "accounting_before as k cur avg = Inr (b, r)"
    and "fraction (q_value (fx_quantity_before x)) = fraction cur" "fx_average_before x = avg"
    and "advanced_cost_basis (fraction cur) b (fx_fill x) = (fraction cur', b')"
  shows "accounting_before as' k cur' avg' = Inr (b', r + realized_for_fill (fx_fill x) (fraction cur) b)"
proof -
  define q0 where "q0 = (case effects_of as k of [] \<Rightarrow> fraction cur | y # _ \<Rightarrow> fraction (q_value (fx_quantity_before y)))"
  define a0 where "a0 = (case effects_of as k of [] \<Rightarrow> avg | y # _ \<Rightarrow> fx_average_before y)"
  have start: "(case effects_of as k of [] \<Rightarrow> (fraction cur, avg) | y # _ \<Rightarrow> (fraction (q_value (fx_quantity_before y)), fx_average_before y)) = (q0, a0)"
    "(case effects_of as' k of [] \<Rightarrow> (fraction cur', avg') | y # _ \<Rightarrow> (fraction (q_value (fx_quantity_before y)), fx_average_before y)) = (q0, a0)"
    using assms(3,4) by (simp_all add: assms(1) q0_def a0_def split: list.splits)
  from assms(2) have open_ok: "\<not> (q0 \<noteq> 0 \<and> a0 = None)"
    and run: "foldE accounting_step (q0, case a0 of None \<Rightarrow> 0 | Some a \<Rightarrow> \<bar>q0\<bar> * fraction (p_amount a), 0) (effects_of as k)
      = Inr (fraction cur, b, r)"
    unfolding accounting_before_def Let_def start by (auto simp: res_simps split: if_splits)
  have "foldE accounting_step (q0, case a0 of None \<Rightarrow> 0 | Some a \<Rightarrow> \<bar>q0\<bar> * fraction (p_amount a), 0) (effects_of as' k)
      = Inr (fraction cur', b', r + realized_for_fill (fx_fill x) (fraction cur) b)"
    by (simp add: assms(1) foldE_append run accounting_step_def assms(3,5))
  with open_ok show ?thesis unfolding accounting_before_def Let_def start by auto
qed

subsection \<open>Applying an effect\<close>

lemma find_unique:
  assumes "r \<in> set xs" "P r" "\<And>y. y \<in> set xs \<Longrightarrow> P y \<Longrightarrow> y = r"
  shows "find P xs = Some r"
proof (cases "find P xs")
  case None
  with assms(1,2) show ?thesis by (auto simp: find_None_iff)
next
  case (Some y)
  then have "y \<in> set xs" "P y" by (auto simp: find_Some_iff)
  from assms(3) [OF this] Some show ?thesis by simp
qed

lemma find_position_key:
  "find_position s st i = find (\<lambda>p. position_key p = (st, i)) (ws_positions (rp_snapshot s))"
  by (simp add: find_position_def position_key_def)

lemma replace_position_set:
  "set (replace_position w r) = insert r {p \<in> set (ws_positions w). position_key p \<noteq> position_key r}"
  by (auto simp: replace_position_def Let_def list_ex_iff)

lemma find_position_replaced:
  assumes "ws_positions (rp_snapshot t) = replace_position w r" "position_key r = (st, i)"
  shows "find_position t st i = Some r"
  unfolding find_position_key assms(1) by (rule find_unique) (auto simp: replace_position_set assms(2))

lemma find_position_kept:
  assumes "ws_positions (rp_snapshot t) = replace_position (rp_snapshot s) r" "position_key r \<noteq> (st, i)"
    and "sorted_unique position_key (ws_positions (rp_snapshot s))"
  shows "find_position t st i = find_position s st i"
proof (cases "find_position s st i")
  case None
  then have "\<forall>p \<in> set (ws_positions (rp_snapshot s)). position_key p \<noteq> (st, i)"
    by (auto simp: find_position_key find_None_iff)
  then have "find_position t st i = None"
    using assms(2) by (auto simp: find_position_key assms(1) find_None_iff replace_position_set)
  with None show ?thesis by simp
next
  case (Some p)
  have p: "p \<in> set (ws_positions (rp_snapshot s))" "position_key p = (st, i)"
    using find_position_Some [OF Some] by (simp_all add: position_key_def)
  have "find_position t st i = Some p"
    unfolding find_position_key assms(1)
  proof (rule find_unique)
    show "y = p" if "y \<in> set (replace_position (rp_snapshot s) r)" "position_key y = (st, i)" for y
      using that p assms(2) inj_onD [OF sorted_unique_inj [OF assms(3)], of y p] by (auto simp: replace_position_set)
  qed (use p assms(2) in \<open>auto simp: replace_position_set\<close>)
  with Some show ?thesis by simp
qed

lemma mapE_effects_id: "(\<And>x. x \<in> set xs \<Longrightarrow> f x = Inr x) \<Longrightarrow> mapE f xs = Inr xs"
  using mapE_Inr_map [of xs f "\<lambda>x. x"] by simp

lemma replay_valid_effects: "replay_valid s \<Longrightarrow> x \<in> set (rp_active_effects s) \<Longrightarrow> mk_execution_effect x = Inr x"
proof -
  assume "replay_valid s" and x: "x \<in> set (rp_active_effects s)"
  then have "mapE mk_execution_effect (rp_active_effects s) = Inr (rp_active_effects s)"
    using mk_replay_state_Inr(2) by (simp add: replay_valid_def)
  from mapE_Inr_set [OF this x] show ?thesis using mk_execution_effect_stable by blast
qed

lemma with_effect_Inr:
  assumes "with_effect s x p tm = Inr t" "replay_valid s" "mk_execution_effect x = Inr x"
  obtains un where
    "rp_active_effects t = sort_key fx_execution_id (rp_active_effects s @ [x])"
    "fx_execution_id x \<notin> fx_execution_id ` set (rp_active_effects s)"
    "ws_positions (rp_snapshot t) = replace_position (rp_snapshot s) (p\<lparr>pst_observed_at := or_else tm (pfl_effective_at (fx_entry x))\<rparr>)"
    "apply_balances (ws_balances (rp_snapshot s)) (fx_cash_deltas x) (fx_balance_realized_pnl_deltas x)
       (fx_balance_fee_deltas x) un (or_else tm (pfl_effective_at (fx_entry x))) = Inr (ws_balances (rp_snapshot t))"
    "m_currency ` set un \<subseteq> {pst_settlement_currency p}"
proof -
  let ?tm = "or_else tm (pfl_effective_at (fx_entry x))"
  from assms(1) obtain q ud un bals snap where q: "mk_position_state (p\<lparr>pst_observed_at := ?tm\<rparr>) = Inr q"
    and un: "nonzero_money ud (pst_settlement_currency q) ''balance unrealized PnL delta'' = Inr un"
    and bals: "apply_balances (ws_balances (rp_snapshot s)) (fx_cash_deltas x) (fx_balance_realized_pnl_deltas x)
       (fx_balance_fee_deltas x) un ?tm = Inr bals"
    and snap: "mk_working_snapshot ((rp_snapshot s)\<lparr>ws_balances := bals,
        ws_positions := replace_position (rp_snapshot s) q, ws_observed_at := ?tm\<rparr>) = Inr snap"
    and mk: "mk_replay_state (s\<lparr>rp_snapshot := snap,
        rp_active_effects := sort_key fx_execution_id (rp_active_effects s @ [x])\<rparr>) = Inr t"
    unfolding with_effect_def Let_def by (auto simp: res_simps)
  note q' = mk_state_identity(5) [OF q] and sn = mk_state_identity(6) [OF snap]
  let ?eff = "sort_key fx_execution_id (rp_active_effects s @ [x])"
  have "mapE mk_execution_effect ?eff = Inr ?eff"
    by (rule mapE_effects_id) (use replay_valid_effects [OF assms(2)] assms(3) in auto)
  then have eff: "rp_active_effects t = ?eff" using mk_replay_state_Inr(2) [OF mk] by simp
  have "sorted_unique fx_execution_id ?eff" using mk_replay_state_Inr(7) [OF mk] eff by simp
  then have "distinct (map fx_execution_id ?eff)" by (rule sorted_unique_distinct)
  then have "distinct (map fx_execution_id (rp_active_effects s @ [x]))"
    by (simp only: distinct_map distinct_sort set_sort)
  then have fresh: "fx_execution_id x \<notin> fx_execution_id ` set (rp_active_effects s)" by simp
  have snt: "rp_snapshot t = snap" using mk_replay_state_fields(1) [OF mk] by simp
  have cur: "m_currency ` set un \<subseteq> {pst_settlement_currency p}"
    using un by (auto simp: nonzero_money_def q' res_simps split: if_splits)
  show thesis by (rule that [OF eff fresh]) (use bals cur in \<open>simp_all add: snt sn q'\<close>)
qed

definition booked_pnl :: "replay_state \<Rightarrow> string \<Rightarrow> string \<Rightarrow> rat" where
  "booked_pnl s st i =
     (case find_position s st i of None \<Rightarrow> 0 | Some p \<Rightarrow> fraction (m_amount (pst_realized_pnl p)))"

definition position_quantity :: "replay_state \<Rightarrow> string \<Rightarrow> string \<Rightarrow> rat" where
  "position_quantity s st i =
     (case find_position s st i of None \<Rightarrow> 0 | Some p \<Rightarrow> fraction (q_value (pst_quantity p)))"

text \<open>The cost basis and realised result the retained effects account for.\<close>

definition position_accounting :: "replay_state \<Rightarrow> string \<Rightarrow> string \<Rightarrow> (rat \<times> rat) res" where
  "position_accounting s st i =
     (case find_position s st i of
        None \<Rightarrow> accounting_before (rp_active_effects s) (st, i) (dec_int 0) None
      | Some p \<Rightarrow> accounting_before (rp_active_effects s) (st, i) (q_value (pst_quantity p)) (pst_average_entry_price p))"

lemma accounting_before_cong:
  "fraction c = fraction c' \<Longrightarrow> accounting_before as k c a = accounting_before as k c' a"
  by (simp only: accounting_before_def)

lemma new_position_Inr:
  assumes "new_position entry fill = Inr p"
  shows "pst_strategy_id p = pfl_strategy_id entry"
    and "pst_instrument p = id_instrument_id (fe_instrument_definition fill)"
    and "fraction (q_value (pst_quantity p)) = 0" and "pst_average_entry_price p = None"
    and "fraction (m_amount (pst_realized_pnl p)) = 0" and "fraction (m_amount (pst_fees p)) = 0"
    and "pst_settlement_currency p = id_settlement_currency (fe_instrument_definition fill)"
  using assms by (auto simp: new_position_def Let_def res_simps dest!: mk_state_identity(5) replay_quantity_Inr(1)
      simp del: fraction_zero_iff)

lemma position_or_new_Inr:
  assumes "position_or_new s entry fill st = Inr p" "st = pfl_strategy_id entry"
    and "i = canonical (id_instrument_id (fe_instrument_definition fill))"
  shows "position_key p = (st, i)" and "fraction (m_amount (pst_realized_pnl p)) = booked_pnl s st i"
    and "fraction (q_value (pst_quantity p)) = position_quantity s st i"
    and "accounting_before (rp_active_effects s) (st, i) (q_value (pst_quantity p)) (pst_average_entry_price p)
      = position_accounting s st i"
proof -
  have *: "find_position s st i = Some p \<or> (find_position s st i = None \<and> new_position entry fill = Inr p)"
    using assms(1) by (auto simp: position_or_new_def assms(3) split: option.splits)
  show "position_key p = (st, i)"
    using * find_position_Some [of s st i p] new_position_Inr(1,2) [of entry fill p] assms(2,3)
    by (auto simp: position_key_def)
  show "fraction (m_amount (pst_realized_pnl p)) = booked_pnl s st i"
    "fraction (q_value (pst_quantity p)) = position_quantity s st i"
    using * new_position_Inr(3,5) [of entry fill p] by (auto simp: booked_pnl_def position_quantity_def simp del: fraction_zero_iff)
  show "accounting_before (rp_active_effects s) (st, i) (q_value (pst_quantity p)) (pst_average_entry_price p)
      = position_accounting s st i"
    using *
  proof
    assume "find_position s st i = None \<and> new_position entry fill = Inr p"
    with new_position_Inr(3,4) [of entry fill p] show ?thesis
      by (auto simp: position_accounting_def intro!: accounting_before_cong)
  qed (simp add: position_accounting_def)
qed

text \<open>One step of the lineage: the effect of a fill newer than the position's retained effects.\<close>

lemma effect_step:
  assumes fx: "fill_effect s entry ev ls mk = Inr (x, p')" and we: "with_effect s x p' tm = Inr t"
    and v: "replay_valid s" and c: "mk_fill_entry entry = Inr entry"
    and st: "st = pfl_strategy_id entry" and i: "i = canonical (id_instrument_id (fe_instrument_definition (pfl_fill entry)))"
    and newer: "\<And>y. y \<in> set (rp_active_effects s) \<Longrightarrow> fx_position_key y = (st, i) \<Longrightarrow> fx_logical_sequence y < ls"
  obtains b r where "position_accounting s st i = Inr (b, r)"
    "position_accounting t st i = Inr (snd (advanced_cost_basis (position_quantity s st i) b (pfl_fill entry)),
       r + realized_for_fill (pfl_fill entry) (position_quantity s st i) b)"
    "position_quantity t st i = position_quantity s st i + signed_fill_fraction (pfl_fill entry)"
    "fraction (m_amount (fx_realized_pnl_delta x)) =
       rounded (r + realized_for_fill (pfl_fill entry) (position_quantity s st i) b)
         (cur_precision (id_settlement_currency (fe_instrument_definition (pfl_fill entry))))
       - rounded r (cur_precision (id_settlement_currency (fe_instrument_definition (pfl_fill entry))))"
    "booked_pnl t st i = booked_pnl s st i + fraction (m_amount (fx_realized_pnl_delta x))"
proof (rule fill_effect_Inr [OF fx c])
  let ?fill = "pfl_fill entry"
  fix p b r fr rd
  assume p0: "position_or_new s entry ?fill (pfl_strategy_id entry) = Inr p"
    and ab0: "accounting_before (rp_active_effects s) (pfl_strategy_id entry, canonical (pst_instrument p))
       (q_value (pst_quantity p)) (pst_average_entry_price p) = Inr (b, r)"
    and fa: "fill_accounting ?fill (q_value (pst_quantity p)) (pst_average_entry_price p) b = Inr fr"
    and rd: "realized_delta_of r (fr_realized fr)
       (cur_precision (id_settlement_currency (fe_instrument_definition ?fill))) = Inr rd"
    and q': "replay_quantity (fr_residual fr) (oq_precision (fe_quantity ?fill)) = Inr (pst_quantity p')"
    and p': "pst_average_entry_price p' = fr_next_average fr" "pst_strategy_id p' = pst_strategy_id p"
      "pst_instrument p' = pst_instrument p"
      "fraction (m_amount (pst_realized_pnl p')) = fraction (m_amount (pst_realized_pnl p)) + fraction rd"
    and x: "mk_execution_effect x = Inr x" "fx_fill x = ?fill" "fx_logical_sequence x = ls"
      "fx_position_key x = (pfl_strategy_id entry, canonical (pst_instrument p))" "fx_quantity_before x = pst_quantity p"
      "fx_average_before x = pst_average_entry_price p" "fx_average_after x = fr_next_average fr"
      "fx_realized_pnl_delta x = \<lparr>m_amount = rd, m_currency = pst_settlement_currency p\<rparr>"
  note p = p0 [folded st] and ab = ab0 [folded st]
  note P = position_or_new_Inr [OF p st i]
  have inst: "canonical (pst_instrument p) = i" using P(1) by (simp add: position_key_def)
  note fa' = fill_accounting_Inr [OF fa]
  obtain eff: "rp_active_effects t = sort_key fx_execution_id (rp_active_effects s @ [x])"
    and fresh: "fx_execution_id x \<notin> fx_execution_id ` set (rp_active_effects s)"
    and pos: "ws_positions (rp_snapshot t) = replace_position (rp_snapshot s)
      (p'\<lparr>pst_observed_at := or_else tm (pfl_effective_at (fx_entry x))\<rparr>)"
    using with_effect_Inr [OF we v x(1)] by blast
  have key': "position_key (p'\<lparr>pst_observed_at := tm'\<rparr>) = (st, i)" for tm'
    using P(1) p'(2,3) by (simp add: position_key_def)
  note found = find_position_replaced [OF pos key']
  have chain: "effects_of (rp_active_effects t) (st, i) = effects_of (rp_active_effects s) (st, i) @ [x]"
    unfolding eff using effects_of_snoc [OF replay_valid_sorted(6) [OF v] fresh, of "(st, i)"] newer x(3,4) inst st by simp
  have q'': "fraction (q_value (pst_quantity p')) = fraction (q_value (pst_quantity p)) + signed_fill_fraction ?fill"
    using replay_quantity_Inr(1) [OF q'] fa'(2) by simp
  have adv: "advanced_cost_basis (fraction (q_value (pst_quantity p))) b (fx_fill x)
      = (fraction (q_value (pst_quantity p')), snd (advanced_cost_basis (fraction (q_value (pst_quantity p))) b ?fill))"
    unfolding x(2) q'' by (simp add: advanced_cost_basis_eq)
  have acc: "position_accounting t st i = Inr (snd (advanced_cost_basis (position_quantity s st i) b ?fill),
       r + realized_for_fill ?fill (position_quantity s st i) b)"
    unfolding position_accounting_def found using accounting_before_snoc [OF chain ab [unfolded inst] _ x(6) adv] x(2,5) P(3) by simp
  have q2: "position_quantity t st i = position_quantity s st i + signed_fill_fraction ?fill"
    using found q'' P(3) by (simp add: position_quantity_def)
  have rdf: "fraction (m_amount (fx_realized_pnl_delta x)) =
       rounded (r + realized_for_fill ?fill (position_quantity s st i) b)
         (cur_precision (id_settlement_currency (fe_instrument_definition ?fill)))
       - rounded r (cur_precision (id_settlement_currency (fe_instrument_definition ?fill)))"
    using realized_delta_fraction [OF rd] fa'(3) P(3) x(8) by simp
  have bk: "booked_pnl t st i = booked_pnl s st i + fraction (m_amount (fx_realized_pnl_delta x))"
    using found p'(4) P(2) x(8) by (simp add: booked_pnl_def)
  have accs: "position_accounting s st i = Inr (b, r)" using ab P(4) inst by simp
  show thesis by (rule that [OF accs acc q2 rdf bk])
qed

subsection \<open>Fills through the dispatcher\<close>

definition normal_fill :: "portfolio_event \<Rightarrow> fill_entry \<Rightarrow> bool" where
  "normal_fill e entry =
     (ev_payload e = FillEntry entry \<and> fe_status (pfl_fill entry) \<in> {FR_PARTIALLY_FILLED, FR_FILLED})"

lemma validated_fill_entry:
  assumes "validate_event event = Inr e" "ev_payload e = FillEntry entry"
  shows "mk_fill_entry entry = Inr entry"
proof -
  have "mk_event_envelope portfolio_payload_ops e = Inr e"
    using validate_event_stable [OF assms(1)] by (simp add: validate_event_def res_simps)
  then obtain p where p: "validate_portfolio_payload (FillEntry entry) = Inr p" "e = e\<lparr>ev_payload := p\<rparr>"
    using assms(2) by (auto simp: mk_event_envelope_Inr_iff portfolio_payload_ops_def)
  then have "p = FillEntry entry" using assms(2) by (metis event_envelope.select_convs(15) event_envelope.surjective event_envelope.update_convs(15))
  with p(1) show ?thesis by (auto simp: lift_payload_def res_simps)
qed

lemma next_state_keeps_effects:
  assumes "next_state cd u None e None None None = Inr t" "replay_valid u"
  shows "rp_snapshot t = rp_snapshot u \<and> rp_active_effects t = rp_active_effects u"
proof (rule next_state_Inr [OF assms(1)])
  assume "rp_snapshot t = or_else None (rp_snapshot u)"
    "mapE mk_execution_effect (or_else None (rp_active_effects u)) = Inr (rp_active_effects t)"
  moreover have "mapE mk_execution_effect (rp_active_effects u) = Inr (rp_active_effects u)"
    using assms(2) mk_replay_state_Inr(2) by (simp add: replay_valid_def)
  ultimately show ?thesis by simp
qed

lemma normal_fill_step:
  assumes "apply_portfolio_event cd s event = Inr t" "validate_event event = Inr e" "normal_fill e entry"
    and "known_digest s (ev_event_id e) = None" "replay_valid s"
  obtains x p u where "fill_effect s entry e (ev_sequence e) None = Inr (x, p)" "with_effect s x p None = Inr u"
    "rp_snapshot t = rp_snapshot u" "rp_active_effects t = rp_active_effects u"
    "mk_fill_entry entry = Inr entry" "replay_valid t"
proof -
  have pay: "ev_payload e = FillEntry entry" using assms(3) by (simp add: normal_fill_def)
  from assms(1) have "apply_payload cd s e = Inr t"
    by (cases rule: apply_event_cases) (use assms(2,4) in auto)
  with assms(3) have "apply_normal cd s e entry = Inr t"
    by (auto simp: apply_payload_def normal_fill_def apply_fill_def Let_def res_simps)
  then obtain x p u where *: "fill_effect s entry e (ev_sequence e) None = Inr (x, p)"
    "with_effect s x p None = Inr u" "next_state cd u None e None None None = Inr t"
    by (auto simp: apply_normal_def res_simps)
  have "replay_valid u" using with_effect_ledger [OF *(2)] by simp
  note k = next_state_keeps_effects [OF *(3) this]
  show thesis
    by (rule that [OF *(1,2)]) (use k validated_fill_entry [OF assms(2) pay] apply_event_step [OF assms(1,5)] in simp_all)
qed

lemma position_views_cong:
  assumes "rp_snapshot t = rp_snapshot u" "rp_active_effects t = rp_active_effects u"
  shows "position_accounting t st i = position_accounting u st i" "booked_pnl t st i = booked_pnl u st i"
    "position_quantity t st i = position_quantity u st i"
  using assms
  by (simp_all add: position_accounting_def booked_pnl_def position_quantity_def find_position_def split: option.split)

text \<open>A fill on one position leaves the accounting of every other position alone.\<close>

lemma effect_other_position:
  assumes fx: "fill_effect s entry ev ls mk = Inr (x, p')" and we: "with_effect s x p' tm = Inr t"
    and v: "replay_valid s" and c: "mk_fill_entry entry = Inr entry"
    and other: "(st, i) \<noteq> (pfl_strategy_id entry, canonical (id_instrument_id (fe_instrument_definition (pfl_fill entry))))"
  shows "position_accounting t st i = position_accounting s st i \<and> booked_pnl t st i = booked_pnl s st i
    \<and> position_quantity t st i = position_quantity s st i"
proof (rule fill_effect_Inr [OF fx c])
  fix p b r fr rd
  assume p: "position_or_new s entry (pfl_fill entry) (pfl_strategy_id entry) = Inr p"
    and p': "pst_strategy_id p' = pst_strategy_id p" "pst_instrument p' = pst_instrument p"
    and x: "mk_execution_effect x = Inr x"
      "fx_position_key x = (pfl_strategy_id entry, canonical (pst_instrument p))"
  note P = position_or_new_Inr(1) [OF p refl refl]
  obtain eff: "rp_active_effects t = sort_key fx_execution_id (rp_active_effects s @ [x])"
    and fresh: "fx_execution_id x \<notin> fx_execution_id ` set (rp_active_effects s)"
    and pos: "ws_positions (rp_snapshot t) = replace_position (rp_snapshot s)
      (p'\<lparr>pst_observed_at := or_else tm (pfl_effective_at (fx_entry x))\<rparr>)"
    using with_effect_Inr [OF we v x(1)] by blast
  have key: "position_key (p'\<lparr>pst_observed_at := tm'\<rparr>) \<noteq> (st, i)" for tm'
    using P p' other by (auto simp: position_key_def)
  note srt = mk_working_snapshot_Inr(3) [OF replay_valid_sorted(7) [OF v]]
  note f = find_position_kept [OF pos key srt]
  have "fx_position_key x \<noteq> (st, i)" using x(2) P other by (auto simp: position_key_def)
  then have "filter (\<lambda>y. fx_position_key y = (st, i)) (rp_active_effects t)
      = filter (\<lambda>y. fx_position_key y = (st, i)) (rp_active_effects s)"
    using insort_key_split [of "rp_active_effects s" fx_execution_id x]
      sort_key_snoc_sorted [OF replay_valid_sorted(6) [OF v] fresh] by (auto simp: eff)
  then have "accounting_before (rp_active_effects t) (st, i) = accounting_before (rp_active_effects s) (st, i)"
    by (intro ext) (simp add: accounting_before_def effects_of_def)
  with f show ?thesis by (simp add: position_accounting_def booked_pnl_def position_quantity_def split: option.split)
qed

subsection \<open>Realised results are rounded once\<close>

text \<open>
  The reference: the exact quantity, cost basis and realised result of a position, rational numbers
  throughout, after a list of fills of any positions.
\<close>

definition entry_key :: "fill_entry \<Rightarrow> string \<times> string" where
  "entry_key entry =
     (pfl_strategy_id entry, canonical (id_instrument_id (fe_instrument_definition (pfl_fill entry))))"

definition entry_precision :: "fill_entry \<Rightarrow> int" where
  "entry_precision entry = cur_precision (id_settlement_currency (fe_instrument_definition (pfl_fill entry)))"

fun exact_step :: "string \<times> string \<Rightarrow> rat \<times> rat \<times> rat \<Rightarrow> fill_entry \<Rightarrow> rat \<times> rat \<times> rat" where
  "exact_step k (q, b, r) entry =
     (if entry_key entry = k
      then (q + signed_fill_fraction (pfl_fill entry), snd (advanced_cost_basis q b (pfl_fill entry)),
            r + realized_for_fill (pfl_fill entry) q b)
      else (q, b, r))"

definition exact_position :: "string \<times> string \<Rightarrow> fill_entry list \<Rightarrow> rat \<times> rat \<times> rat" where
  "exact_position k entries = foldl (exact_step k) (0, 0, 0) entries"

definition booked_as :: "replay_state \<Rightarrow> string \<times> string \<Rightarrow> int \<Rightarrow> rat \<times> rat \<times> rat \<Rightarrow> bool" where
  "booked_as s k prec x =
     (case (k, x) of ((st, i), (q, b, r)) \<Rightarrow>
        position_quantity s st i = q \<and> position_accounting s st i = Inr (b, r) \<and> booked_pnl s st i = rounded r prec)"

definition effects_before :: "replay_state \<Rightarrow> int \<Rightarrow> bool" where
  "effects_before s n = (\<forall>y \<in> set (rp_active_effects s). fx_logical_sequence y < n)"

definition fill_of :: "portfolio_event \<Rightarrow> fill_entry option" where
  "fill_of event =
     (case validate_event event of
        Inl _ \<Rightarrow> None
      | Inr e \<Rightarrow> (case ev_payload e of
                   FillEntry entry \<Rightarrow> if fe_status (pfl_fill entry) \<in> {FR_PARTIALLY_FILLED, FR_FILLED} then Some entry else None
                 | _ \<Rightarrow> None))"

lemma fill_of_Some:
  "fill_of event = Some entry \<longleftrightarrow> (\<exists>e. validate_event event = Inr e \<and> normal_fill e entry)"
  by (auto simp: fill_of_def normal_fill_def split: sum.splits portfolio_payload.splits)

lemma validate_event_sequence: "validate_event event = Inr e \<Longrightarrow> ev_sequence e = ev_sequence event"
  by (auto simp: validate_event_def res_simps mk_event_envelope_Inr_iff)

lemma with_effect_before:
  assumes "with_effect s x p tm = Inr t" "replay_valid s" "mk_execution_effect x = Inr x"
    and "effects_before s n" "fx_logical_sequence x = n"
  shows "effects_before t (n + 1)"
proof (rule with_effect_Inr [OF assms(1-3)])
  assume "rp_active_effects t = sort_key fx_execution_id (rp_active_effects s @ [x])"
  then show ?thesis using assms(4,5) by (auto simp: effects_before_def)
qed

lemma fill_effect_sequence:
  "fill_effect s entry ev ls mk = Inr (x, p) \<Longrightarrow> mk_fill_entry entry = Inr entry \<Longrightarrow>
     mk_execution_effect x = Inr x \<and> fx_logical_sequence x = ls"
  by (erule fill_effect_Inr) auto

lemma booked_with_effect:
  assumes fx: "fill_effect s entry ev ls mk = Inr (x, p')" and we: "with_effect s x p' tm = Inr t"
    and v: "replay_valid s" and c: "mk_fill_entry entry = Inr entry" and before: "effects_before s ls"
    and prec: "entry_key entry = k \<Longrightarrow> entry_precision entry = prec" and b: "booked_as s k prec a"
  shows "booked_as t k prec (exact_step k a entry)"
proof -
  obtain st i q b0 r0 where k: "k = (st, i)" and a: "a = (q, b0, r0)" by (metis prod.exhaust)
  note B = b [unfolded booked_as_def k a prod.case]
  show ?thesis
  proof (cases "entry_key entry = k")
    case True
    then have st: "st = pfl_strategy_id entry" and i: "i = canonical (id_instrument_id (fe_instrument_definition (pfl_fill entry)))"
      by (simp_all add: entry_key_def k)
    have newer: "fx_logical_sequence y < ls" if "y \<in> set (rp_active_effects s)" for y
      using before that by (simp add: effects_before_def)
    show ?thesis
    proof (rule effect_step [OF fx we v c st i newer])
      fix b r
      assume "position_accounting s st i = Inr (b, r)"
        "position_accounting t st i = Inr (snd (advanced_cost_basis (position_quantity s st i) b (pfl_fill entry)),
           r + realized_for_fill (pfl_fill entry) (position_quantity s st i) b)"
        "position_quantity t st i = position_quantity s st i + signed_fill_fraction (pfl_fill entry)"
        "fraction (m_amount (fx_realized_pnl_delta x)) =
           rounded (r + realized_for_fill (pfl_fill entry) (position_quantity s st i) b)
             (cur_precision (id_settlement_currency (fe_instrument_definition (pfl_fill entry))))
           - rounded r (cur_precision (id_settlement_currency (fe_instrument_definition (pfl_fill entry))))"
        "booked_pnl t st i = booked_pnl s st i + fraction (m_amount (fx_realized_pnl_delta x))"
      then show ?thesis using B prec [OF True] True
        by (simp add: booked_as_def k a entry_precision_def)
    qed
  next
    case False
    then have "(st, i) \<noteq> (pfl_strategy_id entry, canonical (id_instrument_id (fe_instrument_definition (pfl_fill entry))))"
      by (auto simp: entry_key_def k)
    from effect_other_position [OF fx we v c this] B False show ?thesis by (simp add: booked_as_def k a)
  qed
qed

lemma booked_step:
  assumes "apply_portfolio_event cd s event = Inr t" "replay_valid s" "fill_of event = Some entry"
    and "ev_event_id event \<notin> ae_event_id ` set (rp_applied_events s)"
    and "effects_before s (ev_sequence event)" "booked_as s k prec a"
    and "entry_key entry = k \<Longrightarrow> entry_precision entry = prec"
  shows "booked_as t k prec (exact_step k a entry) \<and> effects_before t (ev_sequence event + 1)"
proof -
  from assms(3) obtain e where e: "validate_event event = Inr e" "normal_fill e entry" by (auto simp: fill_of_Some)
  note seq = validate_event_sequence [OF e(1)]
  have new: "known_digest s (ev_event_id e) = None"
    using known_digest_None [OF replay_valid_sorted(1) [OF assms(2)]] assms(4) validate_event_id [OF e(1)] by simp
  from assms(1) e new assms(2) show ?thesis
  proof (rule normal_fill_step)
    fix x p u
    assume fx: "fill_effect s entry e (ev_sequence e) None = Inr (x, p)" and we: "with_effect s x p None = Inr u"
      and tu: "rp_snapshot t = rp_snapshot u" "rp_active_effects t = rp_active_effects u"
      and c: "mk_fill_entry entry = Inr entry"
    have "effects_before t (ev_sequence event + 1)"
      using with_effect_before [OF we assms(2)] fill_effect_sequence [OF fx c] assms(5) tu seq by (simp add: effects_before_def)
    moreover have "booked_as u k prec (exact_step k a entry)"
      by (rule booked_with_effect [OF fx we assms(2) c _ assms(7,6)]) (use assms(5) seq in simp_all)
    ultimately show ?thesis by (simp add: booked_as_def position_views_cong [OF tu])
  qed
qed

lemma booked_fold:
  assumes "foldE (apply_portfolio_event cd) s es = Inr t" "replay_valid s" "map fill_of es = map Some entries"
    and "sorted_wrt (<) (n # map ev_sequence es)" "effects_before s (n + 1)" "booked_as s k prec a"
    and "distinct (map ev_event_id es)" "ae_event_id ` set (rp_applied_events s) \<inter> ev_event_id ` set es = {}"
    and "\<forall>entry \<in> set entries. entry_key entry = k \<longrightarrow> entry_precision entry = prec"
  shows "booked_as t k prec (foldl (exact_step k) a entries)"
  using assms
proof (induction es arbitrary: s n entries a)
  case (Cons e es)
  then obtain entry rest where en: "entries = entry # rest" "fill_of e = Some entry" "map fill_of es = map Some rest"
    by (cases entries) auto
  from Cons.prems(1) obtain u where u: "apply_portfolio_event cd s e = Inr u" "foldE (apply_portfolio_event cd) u es = Inr t"
    by (auto simp: res_simps)
  have before: "effects_before s (ev_sequence e)"
    using Cons.prems(4,5) by (fastforce simp: effects_before_def)
  have new: "ev_event_id e \<notin> ae_event_id ` set (rp_applied_events s)" using Cons.prems(8) by simp
  have prec: "entry_key entry = k \<Longrightarrow> entry_precision entry = prec" using Cons.prems(9) en(1) by simp
  note step = booked_step [OF u(1) Cons.prems(2) en(2) new before Cons.prems(6) prec]
  have v: "replay_valid u" using apply_event_step [OF u(1) Cons.prems(2)] by simp
  have ids: "ae_event_id ` set (rp_applied_events u) \<inter> ev_event_id ` set es = {}"
    using apply_event_ids [OF u(1) Cons.prems(2)] Cons.prems(7,8) by auto
  have "sorted_wrt (<) (ev_sequence e # map ev_sequence es)" using Cons.prems(4) by simp
  with Cons.IH [OF u(2) v en(3), of "ev_sequence e" "exact_step k a entry"] step ids Cons.prems(7,9) en(1)
  show ?case by simp
qed simp


lemma rounded_0 [simp]: "rounded 0 p = 0"
  using round_half_even_of_int [of 0] by (simp add: rounded_def)

lemma opening_booked:
  assumes "opening_state cd e = Inr s"
  shows "booked_as s k prec (0, 0, 0) \<and> effects_before s n"
proof -
  note o = opening_state_ledger [OF assms]
  obtain st i where k: "k = (st, i)" by fastforce
  have none: "find_position s st i = None" using o by (simp add: find_position_def)
  have acc: "accounting_before [] (st, i) (dec_int 0) None = Inr (0, 0)"
    by (simp add: accounting_before_def effects_of_def)
  show ?thesis
    using o none acc
    by (simp add: k booked_as_def effects_before_def position_accounting_def position_quantity_def booked_pnl_def)
qed

lemma mapE_validate_map:
  assumes "mapE validate_event es = Inr fs"
  shows "map ev_event_id fs = map ev_event_id es" "map ev_sequence fs = map ev_sequence es" "map fill_of fs = map fill_of es"
proof -
  have "list_all2 (\<lambda>e f. validate_event e = Inr f) es fs" using assms
    by (induction es arbitrary: fs) (auto simp: res_simps)
  then show "map ev_event_id fs = map ev_event_id es" "map ev_sequence fs = map ev_sequence es" "map fill_of fs = map fill_of es"
    by (induction rule: list_all2_induct)
      (auto simp: validate_event_id validate_event_sequence fill_of_def validate_event_stable)
qed

lemma reduced_bookings:
  assumes "reduce_portfolio_events cd (event # es) = Inr s" "map fill_of es = map Some entries"
    and "sorted_wrt (<) (map ev_sequence (event # es))" "distinct (map ev_event_id (event # es))"
    and "\<forall>entry \<in> set entries. entry_key entry = k \<longrightarrow> entry_precision entry = prec"
  shows "booked_as s k prec (exact_position k entries)"
proof -
  obtain first rest s0 where m: "mapE validate_event (event # es) = Inr (first # rest)" and o: "opening_state cd first = Inr s0"
    and f: "foldE (apply_portfolio_event cd) s0 rest = Inr s" and v: "replay_valid s0"
    using reduce_events_Inr [OF assms(1)] by blast
  note M = mapE_validate_map [OF m]
  note O = opening_booked [OF o]
  have ids: "ae_event_id ` set (rp_applied_events s0) \<inter> ev_event_id ` set rest = {}"
  proof -
    have "ev_event_id first \<notin> set (map ev_event_id rest)" using M(1) assms(4) by (metis distinct.simps(2) list.simps(9))
    with opening_state_ledger [OF o] show ?thesis by simp
  qed
  have "sorted_wrt (<) (ev_sequence first # map ev_sequence rest)" using M(2) assms(3) by (metis list.simps(9))
  moreover have "distinct (map ev_event_id rest)" using M(1) assms(4) by (metis distinct.simps(2) list.simps(9))
  moreover have "map fill_of rest = map Some entries" using M(3) assms(2) by simp
  ultimately show ?thesis
    unfolding exact_position_def using booked_fold [OF f v _ _ _ _ _ ids assms(5)] O by blast
qed

subsection \<open>Properties of the money\<close>

text \<open>
  C1: realised results are rounded once. After an opening and any number of normal fills with
  increasing sequences, of any strategies and instruments, the quantity of every position is the exact
  sum of its fills and its booked realised profit and loss is the exact rational result of the whole
  lineage rounded half to even at the settlement currency's precision: the rounding errors of single
  fills never add up, and the error is at most half a unit of the last place.
\<close>

theorem realized_pnl_rounded_once:
  assumes "reduce_portfolio_events cd (event # es) = Inr s" "map fill_of es = map Some entries"
    and "sorted_wrt (<) (map ev_sequence (event # es))" "distinct (map ev_event_id (event # es))"
    and "\<forall>entry \<in> set entries. entry_key entry = (st, i) \<longrightarrow> entry_precision entry = prec"
    and "exact_position (st, i) entries = (q, b, r)"
  shows "position_quantity s st i = q \<and> booked_pnl s st i = rounded r prec
    \<and> 2 * \<bar>booked_pnl s st i - r\<bar> \<le> 1 / 10 ^ nat prec"
  using reduced_bookings [OF assms(1-5)] assms(6) rounded_error [of r prec] by (auto simp: booked_as_def)

lemma demo_fill_of: "fill_of demo_filled = Some demo_fill_entry"
  by (simp add: fill_of_def demo_filled_valid)

theorem realized_pnl_rounded_once_witness:
  "position_quantity demo_filled_state ''S'' (snd demo_key) = 1 / 50
   \<and> booked_pnl demo_filled_state ''S'' (snd demo_key) = 0"
proof -
  have k: "entry_key demo_fill_entry = (''S'', snd demo_key)" by (simp add: entry_key_def demo_key_def)
  have p: "entry_precision demo_fill_entry = 6" by (simp add: entry_precision_def)
  have f: "signed_fill_fraction (demo_fill 2 2) = 1 / 50" "snd (advanced_cost_basis 0 0 (demo_fill 2 2)) = 1 / 10"
    "realized_for_fill (demo_fill 2 2) 0 0 = 0" by code_simp+
  have x: "exact_position (''S'', snd demo_key) [demo_fill_entry] = (1 / 50, 1 / 10, 0)"
    by (simp add: exact_position_def k f)
  have e: "ev_sequence demo_opening = 1" "ev_event_id demo_opening = 1" by (simp_all add: demo_opening_def demo_envelope_def)
  have "position_quantity demo_filled_state ''S'' (snd demo_key) = 1 / 50
    \<and> booked_pnl demo_filled_state ''S'' (snd demo_key) = rounded 0 6
    \<and> 2 * \<bar>booked_pnl demo_filled_state ''S'' (snd demo_key) - 0\<bar> \<le> 1 / 10 ^ nat 6"
    by (rule realized_pnl_rounded_once [OF demo_reduced(2) _ _ _ _ x]) (simp_all add: demo_fill_of p e)
  then show ?thesis by simp
qed


text \<open>The whole effect of one normal fill on the balances.\<close>

lemma delta_in_nonzero: "delta_in c (if is_zero (m_amount m) then [] else [m]) = (if m_currency m = c then fraction (m_amount m) else 0)"
  by (auto simp: fraction_zero_iff)

lemma delta_in_other: "c \<notin> m_currency ` set ms \<Longrightarrow> delta_in c ms = 0"
  by (induction ms) auto

definition fill_moved :: "fill_entry \<Rightarrow> currency \<Rightarrow> rat \<Rightarrow> account_balance_snapshot \<Rightarrow> account_balance_snapshot \<Rightarrow> bool" where
  "fill_moved entry settlement realized b b' =
     (let c = ab_currency b; fill = pfl_fill entry
      in \<exists>un. (c \<noteq> settlement \<longrightarrow> un = 0)
         \<and> balance_moved b (rounded (cash_owed fill c) (cur_precision c)) (if c = settlement then realized else 0)
             (if c = m_currency (fe_commission fill) then fraction (m_amount (fe_commission fill)) else 0) un 0 b')"

lemma fill_balances:
  assumes fx: "fill_effect s entry ev ls mk = Inr (x, p')" and we: "with_effect s x p' tm = Inr t"
    and v: "replay_valid s" and c: "mk_fill_entry entry = Inr entry"
  shows "\<exists>q. find_position t (pfl_strategy_id entry) (canonical (id_instrument_id (fe_instrument_definition (pfl_fill entry)))) = Some q
    \<and> list_all2 (fill_moved entry (pst_settlement_currency q) (fraction (m_amount (fx_realized_pnl_delta x))))
        (ws_balances (rp_snapshot s)) (ws_balances (rp_snapshot t))"
proof (rule fill_effect_Inr [OF fx c])
  fix p b r fr rd
  assume p: "position_or_new s entry (pfl_fill entry) (pfl_strategy_id entry) = Inr p"
    and p': "pst_strategy_id p' = pst_strategy_id p" "pst_instrument p' = pst_instrument p"
    and x: "mk_execution_effect x = Inr x" "cash_deltas (pfl_fill entry) = Inr (fx_cash_deltas x)"
      "fx_realized_pnl_delta x = \<lparr>m_amount = rd, m_currency = pst_settlement_currency p\<rparr>"
      "fx_balance_realized_pnl_deltas x =
         (if is_zero rd then [] else [\<lparr>m_amount = rd, m_currency = pst_settlement_currency p\<rparr>])"
      "fx_balance_fee_deltas x = (if is_zero (m_amount (fe_commission (pfl_fill entry))) then []
         else [fe_commission (pfl_fill entry)])"
    and sc: "pst_settlement_currency p' = pst_settlement_currency p"
  note srt = mk_working_snapshot_Inr(2) [OF replay_valid_sorted(7) [OF v]]
  have re: "delta_in k (fx_balance_realized_pnl_deltas x) = (if k = pst_settlement_currency p then fraction rd else 0)" for k
    using delta_in_nonzero [of k "\<lparr>m_amount = rd, m_currency = pst_settlement_currency p\<rparr>"] x(4) by auto
  have fe: "delta_in k (fx_balance_fee_deltas x) =
      (if k = m_currency (fe_commission (pfl_fill entry)) then fraction (m_amount (fe_commission (pfl_fill entry))) else 0)" for k
    using delta_in_nonzero [of k "fe_commission (pfl_fill entry)"] x(5) by auto
  from we v x(1) show ?thesis
  proof (rule with_effect_Inr)
    fix un
    let ?q = "p'\<lparr>pst_observed_at := or_else tm (pfl_effective_at (fx_entry x))\<rparr>"
    assume pos: "ws_positions (rp_snapshot t) = replace_position (rp_snapshot s) ?q"
      and ab: "apply_balances (ws_balances (rp_snapshot s)) (fx_cash_deltas x) (fx_balance_realized_pnl_deltas x)
        (fx_balance_fee_deltas x) un (or_else tm (pfl_effective_at (fx_entry x))) = Inr (ws_balances (rp_snapshot t))"
      and un: "m_currency ` set un \<subseteq> {pst_settlement_currency p'}"
    have zero: "k \<noteq> pst_settlement_currency p \<Longrightarrow> delta_in k un = 0" for k
      using un sc by (intro delta_in_other) auto
    have "list_all2 (fill_moved entry (pst_settlement_currency ?q) (fraction (m_amount (fx_realized_pnl_delta x))))
        (ws_balances (rp_snapshot s)) (ws_balances (rp_snapshot t))"
      using apply_balances_Inr(2) [OF ab srt]
      by (rule list_all2_mono) (use zero in \<open>auto simp: fill_moved_def Let_def re fe x(3) sc cash_deltas_Inr [OF x(2)]\<close>)
    moreover have "position_key ?q = (pfl_strategy_id entry, canonical (id_instrument_id (fe_instrument_definition (pfl_fill entry))))"
      using position_or_new_Inr(1) [OF p refl refl] p' by (simp add: position_key_def)
    ultimately show ?thesis using find_position_replaced [OF pos] by blast
  qed
qed

text \<open>
  C2: a normal fill moves the balances by exactly what it owes: when the reducer accepts a new normal
  fill, every balance changes by the rounded cash the fill owes in its currency (the signed notional in
  the settlement currency and the commission in its own), the fees by the commission, the realised
  profit and loss of the settlement currency by exactly what its position books, and locked funds,
  margin and funding stay.
\<close>

theorem fill_moves_balances:
  assumes "apply_portfolio_event cd s event = Inr t" "mk_replay_state s = Inr s" "fill_of event = Some entry"
    and "ev_event_id event \<notin> ae_event_id ` set (rp_applied_events s)"
    and "\<forall>y \<in> set (rp_active_effects s). fx_logical_sequence y < ev_sequence event"
    and "entry_key entry = (st, i)"
  shows "\<exists>p. find_position t st i = Some p
    \<and> list_all2 (fill_moved entry (pst_settlement_currency p) (booked_pnl t st i - booked_pnl s st i))
        (ws_balances (rp_snapshot s)) (ws_balances (rp_snapshot t))"
proof -
  have v: "replay_valid s" using assms(2) by (simp add: replay_valid_def)
  from assms(3) obtain e where e: "validate_event event = Inr e" "normal_fill e entry" by (auto simp: fill_of_Some)
  have new: "known_digest s (ev_event_id e) = None"
    using known_digest_None [OF replay_valid_sorted(1) [OF v]] assms(4) validate_event_id [OF e(1)] by simp
  have key: "st = pfl_strategy_id entry" "i = canonical (id_instrument_id (fe_instrument_definition (pfl_fill entry)))"
    using assms(6) by (auto simp: entry_key_def)
  have newer: "fx_logical_sequence y < ev_sequence e" if "y \<in> set (rp_active_effects s)" for y
    using assms(5) that validate_event_sequence [OF e(1)] by simp
  from assms(1) e new v show ?thesis
  proof (rule normal_fill_step)
    fix x p u
    assume fx: "fill_effect s entry e (ev_sequence e) None = Inr (x, p)" and we: "with_effect s x p None = Inr u"
      and tu: "rp_snapshot t = rp_snapshot u" "rp_active_effects t = rp_active_effects u"
      and c: "mk_fill_entry entry = Inr entry"
    have "booked_pnl u st i = booked_pnl s st i + fraction (m_amount (fx_realized_pnl_delta x))"
      by (rule effect_step [OF fx we v c key newer])
    then show ?thesis
      using fill_balances [OF fx we v c, folded key] by (simp add: position_views_cong(2) [OF tu] tu(1) find_position_def)
  qed
qed

theorem fill_moves_balances_witness:
  "\<exists>p. find_position demo_filled_state ''S'' (snd demo_key) = Some p
    \<and> list_all2 (fill_moved demo_fill_entry (pst_settlement_currency p)
          (booked_pnl demo_filled_state ''S'' (snd demo_key) - booked_pnl demo_open_state ''S'' (snd demo_key)))
        (ws_balances (rp_snapshot demo_open_state)) (ws_balances (rp_snapshot demo_filled_state))"
proof (rule fill_moves_balances [OF demo_fill_applied])
  show "mk_replay_state demo_open_state = Inr demo_open_state" using demo_states_valid(1) by (simp add: replay_valid_def)
qed (simp_all add: demo_fill_of entry_key_def demo_key_def demo_open_state_def demo_applied_def)


lemma apply_new_event:
  assumes "apply_portfolio_event cd s event = Inr t" "replay_valid s" "validate_event event = Inr e"
    and "ev_event_id event \<notin> ae_event_id ` set (rp_applied_events s)"
  shows "apply_payload cd s e = Inr t"
proof -
  have "known_digest s (ev_event_id e) = None"
    using known_digest_None [OF replay_valid_sorted(1) [OF assms(2)]] assms(4) validate_event_id [OF assms(3)] by simp
  with assms(1) show ?thesis by (cases rule: apply_event_cases) (use assms(3) in auto)
qed

lemma validated_payload:
  assumes "validate_event event = Inr e"
  shows "validate_portfolio_payload (ev_payload e) = Inr (ev_payload e)"
proof -
  have "mk_event_envelope portfolio_payload_ops e = Inr e"
    using validate_event_stable [OF assms] by (simp add: validate_event_def res_simps)
  then obtain p where p: "validate_portfolio_payload (ev_payload e) = Inr p" "e = e\<lparr>ev_payload := p\<rparr>"
    by (auto simp: mk_event_envelope_Inr_iff portfolio_payload_ops_def)
  from p(2) have "ev_payload e = p" by (metis event_envelope.select_convs(15) event_envelope.surjective event_envelope.update_convs(15))
  with p(1) show ?thesis by simp
qed

lemma demo_apply_new:
  assumes "validate_event e = Inr e" "ev_event_id e \<noteq> 1" "ev_stream_id e = 5" "\<not> is_opening (ev_payload e)"
    and "payload_account (ev_payload e) = ''A''" "is_ok (business_identities demo_codec demo_open_state e)"
  shows "apply_portfolio_event demo_codec demo_open_state e = apply_payload demo_codec demo_open_state e"
proof -
  have d: "event_digest demo_codec e = Inr (replicate 64 (CHR ''0''))"
    by (simp add: event_digest_def demo_codec_def demo_sha_def)
  have s: "ws_account_id (rp_snapshot demo_open_state) = ''A''" by (simp add: demo_open_state_def demo_open_snapshot_def)
  show ?thesis
    using assms
    by (auto simp: apply_portfolio_event_def d s replay_if_def is_ok_iff demo_open_state_def demo_open_snapshot_def demo_applied_def dict_of_def)
qed

text \<open>
  C37: a funding entry moves one balance and at most one position: when the reducer accepts a new
  funding event, cash and funding of the balance in the funding's currency change by exactly the
  amount, every other balance and every other figure stays, and the position the entry names, if it
  names one, is the only position that changes, its funding by the same amount.
\<close>

theorem funding_moves_exactly:
  assumes "apply_portfolio_event cd s event = Inr t" "mk_replay_state s = Inr s"
    and "validate_event event = Inr e" "ev_payload e = FundingEntry entry"
    and "ev_event_id event \<notin> ae_event_id ` set (rp_applied_events s)"
  shows "moved_in (m_currency (pfn_amount entry)) (fraction (m_amount (pfn_amount entry)))
      (fraction (m_amount (pfn_amount entry))) (ws_balances (rp_snapshot s)) (ws_balances (rp_snapshot t))
    \<and> list_all2 (funding_moved entry) (ws_positions (rp_snapshot s)) (ws_positions (rp_snapshot t))"
proof -
  have v: "replay_valid s" using assms(2) by (simp add: replay_valid_def)
  have "apply_funding cd s e entry = Inr t"
    using apply_new_event [OF assms(1) v assms(3,5)] assms(4) by (simp add: apply_payload_def)
  moreover have "pfn_strategy_id entry = None \<longleftrightarrow> pfn_instrument entry = None"
    using validated_payload [OF assms(3)] assms(4)
    by (auto simp: lift_payload_def mk_funding_entry_def res_simps reject_if_def)
  ultimately show ?thesis using v by (intro funding_effect)
qed

definition demo_funding_entry :: funding_entry where
  "demo_funding_entry =
     \<lparr>pfn_account_id = ''A'', pfn_effective_at = demo_time, pfn_schema_version = ''1'', pfn_funding_id = 7,
      pfn_strategy_id = None, pfn_instrument = None, pfn_amount = money_of 25 1 USDT, pfn_provenance_id = ''S''\<rparr>"

definition demo_funding :: portfolio_event where
  "demo_funding = demo_envelope 3 2 (FundingEntry demo_funding_entry)"

lemma demo_funding_valid: "validate_event demo_funding = Inr demo_funding"
  by code_simp

definition demo_funded_balances :: "account_balance_snapshot list" where
  "demo_funded_balances = [demo_balance USD 50,
     (demo_balance USDT 90)\<lparr>ab_cash := money_of 925 1 USDT, ab_funding := money_of 25 1 USDT\<rparr>]"

lemma demo_updated:
  "dict_of ab_currency [demo_balance USD 50, demo_balance USDT 90] = [(USD, demo_balance USD 50), (USDT, demo_balance USDT 90)]"
  "updated_balance (demo_balance USDT 90) (dec 25 1) (dec 25 1) demo_time = Inr (demo_funded_balances ! 1)"
  "sorted_balances [(USD, demo_balance USD 50), (USDT, demo_funded_balances ! 1)] = demo_funded_balances"
  "USD \<noteq> USDT"
  by code_simp+

lemma demo_funded_snapshot:
  "make_working_snapshot demo_open_state (Some demo_funded_balances) None demo_time =
     Inr (demo_open_snapshot\<lparr>ws_balances := demo_funded_balances\<rparr>)"
  "is_ok (next_state demo_codec demo_open_state (Some (demo_open_snapshot\<lparr>ws_balances := demo_funded_balances\<rparr>))
     demo_funding None None None)"
  "is_ok (business_identities demo_codec demo_open_state demo_funding)"
  by code_simp+

lemma demo_funded: "is_ok (apply_portfolio_event demo_codec demo_open_state demo_funding)"
proof -
  have s: "ws_balances (rp_snapshot demo_open_state) = [demo_balance USD 50, demo_balance USDT 90]"
    by (simp add: demo_open_state_def demo_open_snapshot_def)
  have p: "ev_payload demo_funding = FundingEntry demo_funding_entry" by (simp add: demo_funding_def demo_envelope_def)
  have "apply_payload demo_codec demo_open_state demo_funding =
      next_state demo_codec demo_open_state (Some (demo_open_snapshot\<lparr>ws_balances := demo_funded_balances\<rparr>))
        demo_funding None None None"
    unfolding apply_payload_def apply_funding_def Let_def p s
    using demo_updated demo_funded_snapshot(1) by (simp add: demo_funding_entry_def del: One_nat_def)
  with demo_funded_snapshot(2,3) show ?thesis
    by (subst demo_apply_new [OF demo_funding_valid])
      (simp_all add: demo_funding_def demo_envelope_def is_opening_def demo_funding_entry_def)
qed

theorem funding_moves_exactly_witness:
  "\<exists>t. apply_portfolio_event demo_codec demo_open_state demo_funding = Inr t
     \<and> moved_in USDT (5 / 2) (5 / 2) [demo_balance USD 50, demo_balance USDT 90] (ws_balances (rp_snapshot t))"
proof -
  obtain t where t: "apply_portfolio_event demo_codec demo_open_state demo_funding = Inr t"
    using demo_funded by (auto simp: is_ok_iff)
  have v: "mk_replay_state demo_open_state = Inr demo_open_state" using demo_states_valid(1) by (simp add: replay_valid_def)
  have new: "ev_event_id demo_funding \<notin> ae_event_id ` set (rp_applied_events demo_open_state)"
    by (simp add: demo_funding_def demo_envelope_def demo_open_state_def demo_applied_def)
  have f: "fraction (dec 25 1) = 5 / 2" by code_simp
  have bals: "ws_balances (rp_snapshot demo_open_state) = [demo_balance USD 50, demo_balance USDT 90]"
    by (simp add: demo_open_state_def demo_open_snapshot_def)
  have "ev_payload demo_funding = FundingEntry demo_funding_entry" by (simp add: demo_funding_def demo_envelope_def)
  from funding_moves_exactly [OF t v demo_funding_valid this new] t f show ?thesis
    by (simp add: bals demo_funding_entry_def del: One_nat_def)
qed

text \<open>
  C36: an exact conversion conserves value at its rate: when the reducer accepts a new conversion event
  whose conversion is the result of \<^verbatim>\<open>convert_money_exact\<close>, the source balance loses exactly the source
  amount and stays non-negative, the target balance gains exactly the source amount times the rate, and
  no other balance and no position changes.
\<close>

theorem conversion_moves_exactly:
  assumes "apply_portfolio_event cd s event = Inr t" "mk_replay_state s = Inr s"
    and "validate_event event = Inr e" "ev_payload e = ConversionEntry entry"
    and "convert_money_exact source target (PyDecimal rate) = Inr (pcv_conversion entry)"
    and "ev_event_id event \<notin> ae_event_id ` set (rp_applied_events s)"
  shows "list_all2 (\<lambda>b b'.
        if ab_currency b = m_currency source
        then balance_moved b (- fraction (m_amount source)) 0 0 0 0 b' \<and> 0 \<le> fraction (m_amount (ab_cash b'))
        else if ab_currency b = target
        then balance_moved b (fraction (m_amount source) * fraction rate) 0 0 0 0 b'
        else b' = b) (ws_balances (rp_snapshot s)) (ws_balances (rp_snapshot t))
    \<and> ws_positions (rp_snapshot t) = ws_positions (rp_snapshot s)"
proof -
  have v: "replay_valid s" using assms(2) by (simp add: replay_valid_def)
  have ap: "apply_conversion cd s e entry = Inr t"
    using apply_new_event [OF assms(1) v assms(3,6)] assms(4) by (simp add: apply_payload_def)
  note c = convert_money_exact_Inr [OF assms(5)]
  have "is_ok (convert_money_exact source target (PyDecimal rate))" using assms(5) by (simp add: is_ok_iff)
  then have "m_currency source \<noteq> target" by (simp add: convert_money_exact_iff)
  with conversion_effect [OF ap v] c have
    "list_all2 (converted (pcv_conversion entry)) (ws_balances (rp_snapshot s)) (ws_balances (rp_snapshot t))"
    "ws_positions (rp_snapshot t) = ws_positions (rp_snapshot s)" by simp_all
  then show ?thesis unfolding converted_def c by (intro conjI)
qed

definition demo_conversion :: currency_conversion where
  "demo_conversion = \<lparr>cc_source = money_of 10 0 USD, cc_target_currency = USDT, cc_rate = dec 5 1, cc_target = money_of 50 1 USDT\<rparr>"

definition demo_converting :: portfolio_event where
  "demo_converting = demo_envelope 4 2 (ConversionEntry
     \<lparr>pcv_account_id = ''A'', pcv_effective_at = demo_time, pcv_schema_version = ''1'',
      pcv_conversion = demo_conversion, pcv_provenance_id = ''S''\<rparr>)"

lemma demo_converting_ok:
  "validate_event demo_converting = Inr demo_converting"
  "convert_money_exact (money_of 10 0 USD) USDT (PyDecimal (dec 5 1)) = Inr demo_conversion"
  by code_simp+

definition demo_converted_balances :: "account_balance_snapshot list" where
  "demo_converted_balances = [(demo_balance USD 50)\<lparr>ab_cash := money_of 40 0 USD\<rparr>,
     (demo_balance USDT 90)\<lparr>ab_cash := money_of 95 0 USDT\<rparr>]"

lemma demo_converted_updates:
  "updated_balance (demo_balance USD 50) (negated (dec 10 0)) (dec_int 0) demo_time = Inr (demo_converted_balances ! 0)"
  "updated_balance (demo_balance USDT 90) (dec 50 1) (dec_int 0) demo_time = Inr (demo_converted_balances ! 1)"
  "sorted_balances [(USD, demo_converted_balances ! 0), (USDT, demo_converted_balances ! 1)] = demo_converted_balances"
  "\<not> dec_le (dec 10 0) (dec_int 0)"  "\<not> dec_lt (dec 50 0) (dec 10 0)"
  by code_simp+

lemma demo_converted_snapshot:
  "make_working_snapshot demo_open_state (Some demo_converted_balances) None demo_time =
     Inr (demo_open_snapshot\<lparr>ws_balances := demo_converted_balances\<rparr>)"
  "is_ok (next_state demo_codec demo_open_state (Some (demo_open_snapshot\<lparr>ws_balances := demo_converted_balances\<rparr>))
     demo_converting None None None)"
  "is_ok (business_identities demo_codec demo_open_state demo_converting)"
  by code_simp+

lemma demo_converted: "is_ok (apply_portfolio_event demo_codec demo_open_state demo_converting)"
proof -
  have s: "ws_balances (rp_snapshot demo_open_state) = [demo_balance USD 50, demo_balance USDT 90]"
    by (simp add: demo_open_state_def demo_open_snapshot_def)
  have p: "ev_payload demo_converting = ConversionEntry
     \<lparr>pcv_account_id = ''A'', pcv_effective_at = demo_time, pcv_schema_version = ''1'',
      pcv_conversion = demo_conversion, pcv_provenance_id = ''S''\<rparr>" by (simp add: demo_converting_def demo_envelope_def)
  have b: "ab_currency (demo_balance c n) = c" "ab_cash (demo_balance c n) = money_of n 0 c" for c n
    by (simp_all add: demo_balance_def)
  have "apply_payload demo_codec demo_open_state demo_converting =
      next_state demo_codec demo_open_state (Some (demo_open_snapshot\<lparr>ws_balances := demo_converted_balances\<rparr>))
        demo_converting None None None"
    unfolding apply_payload_def apply_conversion_def Let_def p s
    using demo_updated(1,4) demo_converted_updates demo_converted_snapshot(1)
    by (simp add: demo_conversion_def b replay_if_def del: One_nat_def)
  with demo_converted_snapshot(2,3) show ?thesis
    by (subst demo_apply_new [OF demo_converting_ok(1)])
      (simp_all add: demo_converting_def demo_envelope_def is_opening_def)
qed

theorem conversion_moves_exactly_witness:
  "\<exists>t. apply_portfolio_event demo_codec demo_open_state demo_converting = Inr t
     \<and> map (\<lambda>b. fraction (m_amount (ab_cash b))) (ws_balances (rp_snapshot t)) = [40, 95]"
proof -
  obtain t where t: "apply_portfolio_event demo_codec demo_open_state demo_converting = Inr t"
    using demo_converted by (auto simp: is_ok_iff)
  have v: "mk_replay_state demo_open_state = Inr demo_open_state" using demo_states_valid(1) by (simp add: replay_valid_def)
  have new: "ev_event_id demo_converting \<notin> ae_event_id ` set (rp_applied_events demo_open_state)"
    by (simp add: demo_converting_def demo_envelope_def demo_open_state_def demo_applied_def)
  have pay: "ev_payload demo_converting = ConversionEntry
     \<lparr>pcv_account_id = ''A'', pcv_effective_at = demo_time, pcv_schema_version = ''1'',
      pcv_conversion = demo_conversion, pcv_provenance_id = ''S''\<rparr>" by (simp add: demo_converting_def demo_envelope_def)
  have f: "fraction (dec 10 0) = 10" "fraction (dec 5 1) = 1 / 2" "fraction (dec 50 0) = 50" "fraction (dec 90 0) = 90" "USD \<noteq> USDT"
    by code_simp+
  have b: "ab_currency (demo_balance c n) = c" "ab_cash (demo_balance c n) = money_of n 0 c" for c n
    by (simp_all add: demo_balance_def)
  have bals: "ws_balances (rp_snapshot demo_open_state) = [demo_balance USD 50, demo_balance USDT 90]"
    by (simp add: demo_open_state_def demo_open_snapshot_def)
  from conversion_moves_exactly [OF t v demo_converting_ok(1) pay _ new, of "money_of 10 0 USD" USDT "dec 5 1"] f demo_converting_ok(2)
  show ?thesis unfolding bals by (auto simp: list_all2_Cons1 b balance_moved_def t)
qed

end
