(* ===== verification/Json.thy ===== *)
theory Json
  imports Orders
begin

text \<open>
  The JSON documents the ledger writes (\<^verbatim>\<open>src/packages/event_ledger/replay.py\<close> and
  \<^verbatim>\<open>models.py\<close>): the values \<^verbatim>\<open>json.dumps\<close> accepts without floats, its canonical text (sorted keys,
  no blanks, everything outside the printable ASCII range escaped) and the guard that refuses
  strings a jsonb column cannot hold. The text determines the document. Strings are strings of
  8-bit characters, so that surrogates cannot occur in them.
\<close>

section \<open>Canonical JSON\<close>

datatype json =
    JNull
  | JBool bool
  | JInt int
  | JString string
  | JArray "json list"
  | JObject "(string \<times> json) list"

definition int_text :: "int \<Rightarrow> string" where
  "int_text n = (if n < 0 then ''-'' else []) @ map digit_char (as_digits (nat \<bar>n\<bar>))"

definition escape_char :: "char \<Rightarrow> string" where
  "escape_char c =
     (if c = CHR 0x22 then [CHR 0x5C, CHR 0x22]
      else if c = CHR 0x5C then [CHR 0x5C, CHR 0x5C]
      else if c = CHR 0x0A then [CHR 0x5C, CHR ''n'']
      else if c = CHR 0x0D then [CHR 0x5C, CHR ''r'']
      else if c = CHR 0x09 then [CHR 0x5C, CHR ''t'']
      else if c = CHR 0x0C then [CHR 0x5C, CHR ''f'']
      else if c = CHR 0x08 then [CHR 0x5C, CHR ''b'']
      else if CHR 0x20 \<le> c \<and> c \<le> CHR 0x7E then [c]
      else [CHR 0x5C, CHR ''u''] @ map hex_char (hex_digits 4 (of_char c)))"

definition json_string :: "string \<Rightarrow> string" where
  "json_string s = [CHR 0x22] @ concat (map escape_char s) @ [CHR 0x22]"

fun comma_separated :: "string list \<Rightarrow> string" where
  "comma_separated [] = []"
| "comma_separated [x] = x"
| "comma_separated (x # y # xs) = x @ '','' @ comma_separated (y # xs)"

fun dumps :: "json \<Rightarrow> string" where
  "dumps JNull = ''null''"
| "dumps (JBool b) = (if b then ''true'' else ''false'')"
| "dumps (JInt n) = int_text n"
| "dumps (JString s) = json_string s"
| "dumps (JArray xs) = ''['' @ comma_separated (map dumps xs) @ '']''"
| "dumps (JObject kvs) =
     ''{'' @ comma_separated (map (\<lambda>(k, v). json_string k @ '':'' @ v)
       (sort_key fst (map (\<lambda>(k, v). (k, dumps v)) kvs))) @ ''}''"

fun postgres_text :: "json \<Rightarrow> bool" where
  "postgres_text (JString s) = (CHR 0x00 \<notin> set s)"
| "postgres_text (JArray xs) = list_all postgres_text xs"
| "postgres_text (JObject kvs) = list_all (\<lambda>(k, v). CHR 0x00 \<notin> set k \<and> postgres_text v) kvs"
| "postgres_text _ = True"

definition validate_postgres_json_strings :: "json \<Rightarrow> unit res" where
  "validate_postgres_json_strings v =
     (if postgres_text v then Inr () else Inl (ValueError ''string cannot be represented by PostgreSQL jsonb''))"

definition canonical_json :: "json \<Rightarrow> string res" where
  "canonical_json v =
     catch_value_error (bindE (validate_postgres_json_strings v) (\<lambda>_. Inr (dumps v)))
       (ReplayError ''value cannot be represented by canonical PostgreSQL jsonb'')"


subsection \<open>The text determines the document\<close>

lemma hex_text_append:
  assumes "map hex_char (hex_digits 4 (of_char c)) @ u = map hex_char (hex_digits 4 (of_char d)) @ v"
  shows "c = d \<and> u = v"
proof -
  let ?h = "\<lambda>c. map hex_char (hex_digits 4 (of_char c))"
  have "length (?h c) = length (?h d)" by simp
  with assms have h: "?h c = ?h d \<and> u = v" by (metis append_eq_append_conv)
  then have "hex_digits 4 (of_char c) = hex_digits 4 (of_char d)"
    by (intro list.inj_map_strong [of _ _ hex_char hex_char]) (auto intro: hex_char_inj dest: hex_digits_lt)
  then have "of_char c mod 16 ^ 4 = (of_char d mod 16 ^ 4 :: nat)" by (rule hex_digits_inj)
  moreover have "of_char x < (256 :: nat)" for x using nat_of_char_less_256 by simp
  then have "of_char x mod 16 ^ 4 = (of_char x :: nat)" for x
    by (intro mod_less) (rule order.strict_trans [of _ 256], simp_all)
  ultimately show ?thesis using h by (simp add: of_char_eq_iff)
qed

lemma escape_char_append:
  assumes "escape_char c @ u = escape_char d @ v"
  shows "c = d \<and> u = v"
  using assms hex_text_append [of c u d v] unfolding escape_char_def by (auto split: if_splits)

lemma escape_char_start: "escape_char c \<noteq> [] \<and> hd (escape_char c) \<noteq> CHR 0x22"
  by (auto simp: escape_char_def)

lemma escaped_append:
  assumes "concat (map escape_char s) @ CHR 0x22 # u = concat (map escape_char t) @ CHR 0x22 # v"
  shows "s = t \<and> u = v"
  using assms
proof (induction s arbitrary: t)
  case Nil
  show ?case
  proof (cases t)
    case (Cons d t')
    with Nil escape_char_start [of d] show ?thesis by (cases "escape_char d") auto
  qed (use Nil in simp)
next
  case (Cons c s)
  show ?case
  proof (cases t)
    case Nil
    with Cons.prems escape_char_start [of c] show ?thesis by (cases "escape_char c") auto
  next
    case (Cons d t')
    with Cons.prems have "escape_char c @ concat (map escape_char s) @ CHR 0x22 # u
        = escape_char d @ concat (map escape_char t') @ CHR 0x22 # v" by simp
    from escape_char_append [OF this] Cons.IH [of t'] Cons show ?thesis by simp
  qed
qed

lemma json_string_append: "json_string s @ u = json_string t @ v \<Longrightarrow> s = t \<and> u = v"
  by (rule escaped_append) (simp add: json_string_def)

text \<open>What may follow a value inside a document.\<close>

definition ends_value :: "string \<Rightarrow> bool" where
  "ends_value u = (u = [] \<or> hd u \<in> {CHR '','', CHR '']'', CHR ''}''})"

definition int_char :: "char \<Rightarrow> bool" where
  "int_char c = (is_digit_char c \<or> c = CHR ''-'')"

lemma int_text_chars: "\<forall>c \<in> set (int_text n). int_char c"
  by (auto simp: int_text_def int_char_def dest: as_digits_lt_10)

lemma int_text_nonempty: "int_text n \<noteq> []"
  using as_digits_nonempty [of "nat \<bar>n\<bar>"] by (simp add: int_text_def)

lemma ends_not_int: "ends_value u \<Longrightarrow> takeWhile int_char u = []"
  by (cases u) (auto simp: ends_value_def int_char_def is_digit_char_def less_eq_char_def)

lemma digits_no_minus: "CHR ''-'' \<notin> set (map digit_char (as_digits n))"
proof
  assume "CHR ''-'' \<in> set (map digit_char (as_digits n))"
  then obtain d where "CHR ''-'' = digit_char d" "d < 10" using as_digits_lt_10 by auto
  then have "is_digit_char (CHR ''-'')" using is_digit_digit_char by metis
  then show False by (simp add: is_digit_char_def less_eq_char_def)
qed

lemma int_text_inj: "int_text m = int_text n \<Longrightarrow> m = n"
proof -
  assume e: "int_text m = int_text n"
  have neg: "k < 0 \<longleftrightarrow> CHR ''-'' \<in> set (int_text k)" for k
    using digits_no_minus by (auto simp: int_text_def)
  have sg: "m < 0 \<longleftrightarrow> n < 0" using e neg [of m] neg [of n] by simp
  with e have "map digit_char (as_digits (nat \<bar>m\<bar>)) = map digit_char (as_digits (nat \<bar>n\<bar>))"
    by (simp add: int_text_def split: if_splits)
  then have "as_digits (nat \<bar>m\<bar>) = as_digits (nat \<bar>n\<bar>)"
    by (rule map_digit_char_inj) (auto dest: as_digits_lt_10)
  then have "nat \<bar>m\<bar> = nat \<bar>n\<bar>" by (metis coefficient_of_as_digits)
  with sg show "m = n" by linarith
qed

lemma int_text_append:
  assumes "int_text m @ u = int_text n @ v" "ends_value u" "ends_value v"
  shows "m = n \<and> u = v"
proof -
  have "takeWhile int_char (int_text k @ w) = int_text k" if "ends_value w" for k w
    using int_text_chars [of k] ends_not_int [OF that] by (subst takeWhile_append2) auto
  with assms have "int_text m = int_text n" by metis
  with assms(1) show ?thesis by (auto dest: int_text_inj)
qed

lemma comma_separated_append:
  assumes "\<And>x y u v. x \<in> set xs \<Longrightarrow> y \<in> set ys \<Longrightarrow> ends_value u \<Longrightarrow> ends_value v \<Longrightarrow>
      f x @ u = f y @ v \<Longrightarrow> x = y \<and> u = v"
    and "\<And>y. y \<in> set xs \<union> set ys \<Longrightarrow> f y \<noteq> [] \<and> \<not> ends_value (f y)"
    and "z \<in> {CHR '']'', CHR ''}''}"
    and "comma_separated (map f xs) @ z # us = comma_separated (map f ys) @ z # vs"
  shows "xs = ys \<and> us = vs"
  using assms
proof (induction xs arbitrary: ys)
  case Nil
  show ?case
  proof (cases ys)
    case (Cons y ys')
    have "hd (comma_separated (map f ys) @ z # vs) = hd (f y)"
      using Nil.prems(2) [of y] Cons by (cases ys') auto
    moreover have "hd (comma_separated (map f ys) @ z # vs) = z" using Nil.prems(4) by (metis append_Nil list.sel(1) list.simps(8) comma_separated.simps(1))
    ultimately show ?thesis using Nil.prems(2) [of y] Nil.prems(3) Cons by (auto simp: ends_value_def)
  qed (use Nil in simp)
next
  case (Cons x xs)
  define tl where "tl = (\<lambda>as w. case as of [] \<Rightarrow> z # w | _ \<Rightarrow> CHR '','' # comma_separated (map f as) @ z # w)"
  have split: "comma_separated (map f (a # as)) @ z # w = f a @ tl as w" for a as w
    by (cases as) (auto simp: tl_def)
  have ends: "ends_value (tl as w)" for as w
    using Cons.prems(3) by (cases as) (auto simp: tl_def ends_value_def)
  show ?case
  proof (cases ys)
    case Nil
    with Cons.prems(4) have "f x @ tl xs us = z # vs" by (simp only: split) simp
    then have "hd (f x) = z" using Cons.prems(2) [of x] by (cases "f x") auto
    then show ?thesis using Cons.prems(2) [of x] Cons.prems(3) by (auto simp: ends_value_def)
  next
    case (Cons y ys')
    from Cons.prems(4) Cons have "f x @ tl xs us = f y @ tl ys' vs" by (simp only: split)
    with Cons.prems(1) [of x y "tl xs us" "tl ys' vs"] Cons ends have xy: "x = y" and t: "tl xs us = tl ys' vs" by auto
    have "comma_separated (map f xs) @ z # us = comma_separated (map f ys') @ z # vs"
      using t Cons.prems(3) by (cases xs; cases ys') (auto simp: tl_def)
    with Cons.IH [of ys'] Cons.prems(1-3) Cons have "xs = ys' \<and> us = vs" by auto
    with xy Cons show ?thesis by simp
  qed
qed

fun normal_json :: "json \<Rightarrow> bool" where
  "normal_json (JArray xs) = list_all normal_json xs"
| "normal_json (JObject kvs) = (sorted_unique fst kvs \<and> list_all (\<lambda>(k, v). normal_json v) kvs)"
| "normal_json _ = True"


fun value_tag :: "json \<Rightarrow> nat" where
  "value_tag JNull = 0"
| "value_tag (JBool _) = 1"
| "value_tag (JInt _) = 2"
| "value_tag (JString _) = 3"
| "value_tag (JArray _) = 4"
| "value_tag (JObject _) = 5"

definition char_tag :: "char \<Rightarrow> nat" where
  "char_tag c =
     (if c = CHR ''n'' then 0 else if c \<in> {CHR ''t'', CHR ''f''} then 1 else if int_char c then 2
      else if c = CHR 0x22 then 3 else if c = CHR ''['' then 4 else if c = CHR ''{'' then 5 else 6)"

lemma dumps_start: "dumps v \<noteq> [] \<and> char_tag (hd (dumps v)) = value_tag v"
proof (cases v)
  case (JInt n)
  have "int_char (hd (int_text n))" using int_text_chars int_text_nonempty by (meson hd_in_set)
  then have "char_tag (hd (int_text n)) = 2"
    by (auto simp: char_tag_def int_char_def is_digit_char_def less_eq_char_def)
  with JInt int_text_nonempty show ?thesis by simp
qed (auto simp: char_tag_def json_string_def int_char_def is_digit_char_def less_eq_char_def)

lemma dumps_not_end: "\<not> ends_value (dumps v)"
proof
  assume "ends_value (dumps v)"
  then have "hd (dumps v) \<in> {CHR '','', CHR '']'', CHR ''}''}" using dumps_start [of v] by (simp add: ends_value_def)
  then have "char_tag (hd (dumps v)) = 6" by (auto simp: char_tag_def int_char_def is_digit_char_def less_eq_char_def)
  with dumps_start [of v] show False by (cases v) auto
qed

definition member_text :: "string \<times> json \<Rightarrow> string" where
  "member_text kv = json_string (fst kv) @ '':'' @ dumps (snd kv)"

lemma dumps_normal_object:
  assumes "sorted_unique fst kvs"
  shows "dumps (JObject kvs) = ''{'' @ comma_separated (map member_text kvs) @ ''}''"
proof -
  have "sorted (map fst (map (\<lambda>(k, v). (k, dumps v)) kvs))"
    using assms strict_sorted_imp_sorted [of "map fst kvs"] by (simp add: sorted_unique_iff comp_def case_prod_unfold)
  then have "sort_key fst (map (\<lambda>(k, v). (k, dumps v)) kvs) = map (\<lambda>(k, v). (k, dumps v)) kvs"
    by (simp only: sort_key_id_if_sorted sorted_map)
  then show ?thesis by (simp add: member_text_def [abs_def] comp_def case_prod_unfold)
qed

lemma member_start: "member_text kv \<noteq> [] \<and> \<not> ends_value (member_text kv)"
  by (auto simp: member_text_def json_string_def ends_value_def)

lemma same_tag: "dumps v @ xs = dumps w @ ys \<Longrightarrow> value_tag v = value_tag w"
  using dumps_start [of v] dumps_start [of w] by (metis hd_append2)

lemma dumps_append:
  assumes "normal_json v" "normal_json w" "dumps v @ xs = dumps w @ ys" "ends_value xs" "ends_value ys"
  shows "v = w \<and> xs = ys"
  using assms
proof (induction v arbitrary: w xs ys)
  case (JBool b)
  from same_tag [OF JBool.prems(3)] obtain c where "w = JBool c" by (cases w) auto
  with JBool show ?case by (auto split: if_splits)
next
  case (JInt n)
  from same_tag [OF JInt.prems(3)] obtain m where w: "w = JInt m" by (cases w) auto
  with JInt int_text_append [of n xs m ys] show ?case by simp
next
  case (JString s)
  from same_tag [OF JString.prems(3)] obtain t where w: "w = JString t" by (cases w) auto
  with JString json_string_append [of s xs t ys] show ?case by simp
next
  case (JArray vs)
  from same_tag [OF JArray.prems(3)] obtain ws where w: "w = JArray ws" by (cases w) auto
  have "vs = ws \<and> xs = ys"
  proof (rule comma_separated_append)
    show "comma_separated (map dumps vs) @ CHR '']'' # xs = comma_separated (map dumps ws) @ CHR '']'' # ys"
      using JArray.prems(3) w by simp
    show "x = y \<and> u = v" if "x \<in> set vs" "y \<in> set ws" "ends_value u" "ends_value v" "dumps x @ u = dumps y @ v" for x y u v
      using JArray.IH [OF that(1) _ _ that(5,3,4)] JArray.prems(1,2) w that(1,2) by (simp add: list_all_iff)
  qed (use dumps_start dumps_not_end in auto)
  with w show ?case by simp
next
  case (JObject kvs)
  from same_tag [OF JObject.prems(3)] obtain ws where w: "w = JObject ws" by (cases w) auto
  have srt: "sorted_unique fst kvs" "sorted_unique fst ws" using JObject.prems(1,2) w by simp_all
  have "kvs = ws \<and> xs = ys"
  proof (rule comma_separated_append)
    show "comma_separated (map member_text kvs) @ CHR ''}'' # xs = comma_separated (map member_text ws) @ CHR ''}'' # ys"
      using JObject.prems(3) w by (simp add: dumps_normal_object [OF srt(1)] dumps_normal_object [OF srt(2)] del: dumps.simps)
    show "x = y \<and> u = v"
      if "x \<in> set kvs" "y \<in> set ws" "ends_value u" "ends_value v" "member_text x @ u = member_text y @ v" for x y u v
    proof -
      from that(5) have "json_string (fst x) @ CHR '':'' # dumps (snd x) @ u = json_string (fst y) @ CHR '':'' # dumps (snd y) @ v"
        by (simp add: member_text_def)
      then have k: "fst x = fst y" and "CHR '':'' # dumps (snd x) @ u = CHR '':'' # dumps (snd y) @ v"
        using json_string_append by blast+
      then have d: "dumps (snd x) @ u = dumps (snd y) @ v" by simp
      have "normal_json (snd x)" "normal_json (snd y)"
        using JObject.prems(1,2) w that(1,2) by (auto simp: list_all_iff case_prod_unfold)
      from JObject.IH [OF that(1) _ this d that(3,4)] k show ?thesis by (auto intro: prod_eqI simp: snds.simps)
    qed
  qed (use member_start in auto)
  with w show ?case by simp
next
  case JNull
  from same_tag [OF JNull.prems(3)] have "w = JNull" by (cases w) auto
  with JNull show ?case by simp
qed

lemma dumps_inj: "normal_json v \<Longrightarrow> normal_json w \<Longrightarrow> dumps v = dumps w \<Longrightarrow> v = w"
  using dumps_append [of v w "[]" "[]"] by (simp add: ends_value_def)

lemma canonical_json_Inr_iff [res_simps]: "canonical_json v = Inr t \<longleftrightarrow> postgres_text v \<and> t = dumps v"
  by (auto simp: canonical_json_def validate_postgres_json_strings_def)

section \<open>Bytes\<close>

text \<open>\<^verbatim>\<open>str.encode("utf-8")\<close>, on the 8-bit characters of the model.\<close>

definition utf8_char :: "char \<Rightarrow> string" where
  "utf8_char c =
     (let n = of_char c :: nat
      in if n < 128 then [c] else [char_of (192 + n div 64), char_of (128 + n mod 64)])"

definition utf8 :: "string \<Rightarrow> string" where
  "utf8 s = concat (map utf8_char s)"

lemma utf8_append_inj: "utf8_char c @ u = utf8_char d @ v \<Longrightarrow> c = d \<and> u = v"
proof -
  assume e: "utf8_char c @ u = utf8_char d @ v"
  have b: "of_char c < (256::nat)" "of_char d < (256::nat)" by simp_all
  have two: "of_char (char_of (192 + n div 64)) = 192 + n div 64" "of_char (char_of (128 + n mod 64)) = 128 + n mod 64"
    if "n < 256" for n :: nat
  proof -
    have "n div 64 < 4" "n mod 64 < 64" using that by (simp_all add: less_mult_imp_div_less)
    then have "192 + n div 64 < 256" "128 + n mod 64 < 256" by linarith+
    then show "of_char (char_of (192 + n div 64)) = 192 + n div 64" "of_char (char_of (128 + n mod 64)) = 128 + n mod 64" by simp_all
  qed
  show ?thesis
  proof (cases "of_char c < (128::nat)"; cases "of_char d < (128::nat)")
    assume "of_char c < (128::nat)" "of_char d < (128::nat)"
    with e show ?thesis by (simp add: utf8_char_def Let_def)
  next
    assume c: "of_char c < (128::nat)" and "\<not> of_char d < (128::nat)"
    with e have "c = char_of (192 + of_char d div 64 :: nat)" by (simp add: utf8_char_def Let_def)
    then have "of_char c = (192 + of_char d div 64 :: nat)" using two(1) [OF b(2)] by simp
    with c show ?thesis by simp
  next
    assume "\<not> of_char c < (128::nat)" and d: "of_char d < (128::nat)"
    with e have "d = char_of (192 + of_char c div 64 :: nat)" by (simp add: utf8_char_def Let_def)
    then have "of_char d = (192 + of_char c div 64 :: nat)" using two(1) [OF b(1)] by simp
    with d show ?thesis by simp
  next
    assume "\<not> of_char c < (128::nat)" "\<not> of_char d < (128::nat)"
    with e have h: "char_of (192 + of_char c div 64 :: nat) = (char_of (192 + of_char d div 64 :: nat) :: char)"
      "char_of (128 + of_char c mod 64 :: nat) = (char_of (128 + of_char d mod 64 :: nat) :: char)" and uv: "u = v"
      by (auto simp: utf8_char_def Let_def)
    from arg_cong [OF h(1), of "of_char :: char \<Rightarrow> nat"] two(1) [OF b(1)] two(1) [OF b(2)] have "of_char c div 64 = (of_char d div 64 :: nat)" by simp
    moreover from arg_cong [OF h(2), of "of_char :: char \<Rightarrow> nat"] two(2) [OF b(1)] two(2) [OF b(2)] have "of_char c mod 64 = (of_char d mod 64 :: nat)" by simp
    ultimately have "of_char c = (of_char d :: nat)" by (metis div_mult_mod_eq)
    with uv show ?thesis by simp
  qed
qed

lemma utf8_inj: "utf8 s = utf8 t \<Longrightarrow> s = t"
proof (induction s arbitrary: t)
  case Nil
  then show ?case by (cases t) (auto simp: utf8_def utf8_char_def Let_def split: if_splits)
next
  case (Cons c s)
  show ?case
  proof (cases t)
    case Nil
    with Cons.prems show ?thesis by (auto simp: utf8_def utf8_char_def Let_def split: if_splits)
  next
    case (Cons d t')
    with Cons.prems have "utf8_char c @ utf8 s = utf8_char d @ utf8 t'" by (simp add: utf8_def)
    from utf8_append_inj [OF this] Cons.IH [of t'] Cons show ?thesis by simp
  qed
qed

end
