(* ===== verification/Event_Ledger.thy ===== *)
theory Event_Ledger
  imports Portfolio_Entries Json
begin

text \<open>
  The append-only event ledger (\<^verbatim>\<open>src/packages/event_ledger\<close>, without its PostgreSQL adapter): the
  records of \<^verbatim>\<open>models.py\<close> with their field constraints, the canonical codec and the snapshot
  validation of \<^verbatim>\<open>replay.py\<close> and the reduction of \<^verbatim>\<open>reducer.py\<close>. The payload of an envelope is a
  parameter with its operations. A codec stands for the code outside the repository: SHA-256, the
  pydantic dump of a validated envelope to a JSON document, and the two JSON decoders.
\<close>

section \<open>Ledger records\<close>

record 'p ledger_codec =
  lc_sha256 :: "string \<Rightarrow> string"
  lc_dump :: "'p event_envelope \<Rightarrow> (string \<times> json) list"
  lc_loads :: "string \<Rightarrow> json option"
  lc_load_event :: "string \<Rightarrow> string \<Rightarrow> 'p event_envelope option"

definition POSTGRES_BIGINT_MAX :: int where
  "POSTGRES_BIGINT_MAX = 9223372036854775807"

definition positive_bigint :: "int \<Rightarrow> bool" where
  "positive_bigint n = (0 < n \<and> n \<le> POSTGRES_BIGINT_MAX)"

definition nonnegative_bigint :: "int \<Rightarrow> bool" where
  "nonnegative_bigint n = (0 \<le> n \<and> n \<le> POSTGRES_BIGINT_MAX)"

definition bounded_text :: "string \<Rightarrow> bool" where
  "bounded_text s = (1 \<le> length s \<and> length s \<le> 256)"

definition EVENT_TYPES :: "string list" where
  "EVENT_TYPES =
     [''AlphaRegistryTransitionRecordedV1'', ''SignalProposal'', ''TargetPortfolio'', ''RiskDecision'',
      ''OrderIntent'', ''OrderEvent'', ''FillEvent'', ''PortfolioOpeningEntry'',
      ''PortfolioAccountObservationEntry'', ''PortfolioFillEntry'', ''PortfolioMarkEntry'',
      ''PortfolioFundingEntry'', ''PortfolioConversionEntry'', ''PortfolioValuationRateEntry'',
      ''PortfolioReconciliationEntry'', ''RuntimeOrderRiskDecision'', ''GlobalHaltTransition'',
      ''SubmitPermitPrepared'', ''SubmitPermitConsumed'', ''SandboxRecoveryCheckpointRecorded'']"

record stored_event =
  se_event_id :: uuid
  se_stream_id :: uuid
  se_sequence :: int
  se_event_type :: string
  se_canonical_json :: string
  se_digest :: string

definition mk_stored_event :: "stored_event \<Rightarrow> stored_event res" where
  "mk_stored_event e =
     wrap_validation (
       bindE (require_field ''sequence'' (positive_bigint (se_sequence e))) (\<lambda>_.
       bindE (require_field ''event_type'' (bounded_text (se_event_type e))) (\<lambda>_.
       bindE (require_field ''canonical_json'' (2 \<le> length (se_canonical_json e))) (\<lambda>_.
       bindE (require_field ''digest'' (sha256_hex (se_digest e))) (\<lambda>_.
       Inr e)))))"

datatype replay_status = RS_COMPLETE | RS_DEGRADED

fun replay_status_value :: "replay_status \<Rightarrow> string" where
  "replay_status_value RS_COMPLETE = ''COMPLETE''"
| "replay_status_value RS_DEGRADED = ''DEGRADED''"

datatype replay_issue_code = SEQUENCE_GAP | SEQUENCE_REGRESSION

fun issue_code_value :: "replay_issue_code \<Rightarrow> string" where
  "issue_code_value SEQUENCE_GAP = ''SEQUENCE_GAP''"
| "issue_code_value SEQUENCE_REGRESSION = ''SEQUENCE_REGRESSION''"

record replay_issue =
  ri_code :: replay_issue_code
  ri_stream_id :: uuid
  ri_event_id :: uuid
  ri_sequence :: int
  ri_expected_sequence :: int
  ri_digest :: string

definition mk_replay_issue :: "replay_issue \<Rightarrow> replay_issue res" where
  "mk_replay_issue i =
     wrap_validation (
       bindE (require_field ''sequence'' (positive_bigint (ri_sequence i))) (\<lambda>_.
       bindE (require_field ''expected_sequence'' (positive_bigint (ri_expected_sequence i))) (\<lambda>_.
       bindE (require_field ''digest'' (sha256_hex (ri_digest i))) (\<lambda>_.
       Inr i))))"

record ledger_applied =
  la_event_id :: uuid
  la_digest :: string

definition mk_ledger_applied :: "ledger_applied \<Rightarrow> ledger_applied res" where
  "mk_ledger_applied a =
     wrap_validation (bindE (require_field ''digest'' (sha256_hex (la_digest a))) (\<lambda>_. Inr a))"

record event_type_count =
  tc_event_type :: string
  tc_count :: int

definition mk_event_type_count :: "event_type_count \<Rightarrow> event_type_count res" where
  "mk_event_type_count c =
     wrap_validation (
       bindE (require_field ''event_type'' (bounded_text (tc_event_type c))) (\<lambda>_.
       bindE (require_field ''count'' (nonnegative_bigint (tc_count c))) (\<lambda>_.
       Inr c)))"

record stream_projection =
  sp_stream_id :: uuid
  sp_event_count :: int
  sp_last_sequence :: int
  sp_last_digest :: "string option"

definition mk_stream_projection :: "stream_projection \<Rightarrow> stream_projection res" where
  "mk_stream_projection p =
     wrap_validation (
       bindE (require_field ''event_count'' (nonnegative_bigint (sp_event_count p))) (\<lambda>_.
       bindE (require_field ''last_sequence'' (nonnegative_bigint (sp_last_sequence p))) (\<lambda>_.
       bindE (require_field ''last_digest'' (optional_ok sha256_hex (sp_last_digest p))) (\<lambda>_.
       Inr p))))"

record aggregate_state =
  ag_event_count :: int
  ag_type_counts :: "event_type_count list"
  ag_streams :: "stream_projection list"
  ag_applied_events :: "ledger_applied list"

definition mk_aggregate_state :: "aggregate_state \<Rightarrow> aggregate_state res" where
  "mk_aggregate_state s =
     wrap_validation (
       bindE (require_field ''event_count'' (nonnegative_bigint (ag_event_count s))) (\<lambda>_.
       bindE (mapE mk_event_type_count (ag_type_counts s)) (\<lambda>counts.
       bindE (mapE mk_stream_projection (ag_streams s)) (\<lambda>streams.
       bindE (mapE mk_ledger_applied (ag_applied_events s)) (\<lambda>applied.
       Inr \<lparr>ag_event_count = ag_event_count s, ag_type_counts = counts, ag_streams = streams,
            ag_applied_events = applied\<rparr>)))))"

text \<open>\<^verbatim>\<open>ReplayResult\<close> and \<^verbatim>\<open>SnapshotRecord\<close> have the same fields and constraints.\<close>

record ledger_result =
  lr_schema_version :: string
  lr_reducer_version :: string
  lr_status :: replay_status
  lr_state :: aggregate_state
  lr_issues :: "replay_issue list"
  lr_canonical_state_json :: string
  lr_state_hash :: string

definition REPLAY_SCHEMA_VERSION :: string where
  "REPLAY_SCHEMA_VERSION = ''event-ledger-replay-v1''"

definition REDUCER_VERSION :: string where
  "REDUCER_VERSION = ''event-ledger-reducer-v1''"

definition mk_ledger_result :: "ledger_result \<Rightarrow> ledger_result res" where
  "mk_ledger_result r =
     wrap_validation (
       bindE (require_field ''schema_version'' (lr_schema_version r = REPLAY_SCHEMA_VERSION)) (\<lambda>_.
       bindE (require_field ''reducer_version'' (lr_reducer_version r = REDUCER_VERSION)) (\<lambda>_.
       bindE (mk_aggregate_state (lr_state r)) (\<lambda>state.
       bindE (mapE mk_replay_issue (lr_issues r)) (\<lambda>issues.
       bindE (require_field ''canonical_state_json'' (2 \<le> length (lr_canonical_state_json r))) (\<lambda>_.
       bindE (require_field ''state_hash'' (sha256_hex (lr_state_hash r))) (\<lambda>_.
       Inr (r\<lparr>lr_state := state, lr_issues := issues\<rparr>))))))))"

section \<open>The codec\<close>

definition UTC_FIELDS :: "string list" where
  "UTC_FIELDS = [''observed_at'', ''ingested_at'', ''produced_at'', ''effective_at'', ''expires_at'']"

definition canonical_utc_field :: "(string \<times> json) list \<Rightarrow> string \<Rightarrow> unit res" where
  "canonical_utc_field document name =
     (case map_of document name of
        Some (JString value) \<Rightarrow>
          if value \<noteq> [] \<and> last value = CHR ''Z'' then Inr ()
          else Inl (ReplayError (name @ '' must be a canonical UTC timestamp''))
      | _ \<Rightarrow> Inl (ReplayError (name @ '' must be a canonical UTC timestamp'')))"

definition require_canonical_utc :: "(string \<times> json) list \<Rightarrow> unit res" where
  "require_canonical_utc document = foldE (\<lambda>_ name. canonical_utc_field document name) () UTC_FIELDS"

definition payload_type_for :: "string \<Rightarrow> string res" where
  "payload_type_for event_type =
     (if event_type \<in> set EVENT_TYPES then Inr event_type
      else Inl (ReplayError (''unregistered event_type: '' @ [CHR 0x27] @ event_type @ [CHR 0x27])))"

definition serialize_event :: "'p payload_ops \<Rightarrow> 'p ledger_codec \<Rightarrow> 'p event_envelope \<Rightarrow> string res" where
  "serialize_event ops lc event =
     bindE (payload_type_for (ev_event_type event)) (\<lambda>payload_type.
     if po_event_type ops (ev_payload event) \<noteq> payload_type
     then Inl (ReplayError ''event type and concrete payload type do not match'')
     else
       bindE (catch_value_error
                (bindE (mk_event_envelope ops event) (\<lambda>validated.
                 bindE (validate_execution_report_events ops [validated]) (\<lambda>_. Inr validated)))
                (ReplayError ''invalid event envelope'')) (\<lambda>validated.
       let document = lc_dump lc validated
       in
       bindE (require_canonical_utc document) (\<lambda>_.
       canonical_json (JObject document))))"

definition deserialize_event :: "'p payload_ops \<Rightarrow> 'p ledger_codec \<Rightarrow> string \<Rightarrow> 'p event_envelope res" where
  "deserialize_event ops lc text =
     (case lc_loads lc text of
        None \<Rightarrow> Inl (ReplayError ''malformed canonical event JSON'')
      | Some (JObject document) \<Rightarrow>
          bindE (require_canonical_utc document) (\<lambda>_.
          bindE (case map_of document ''event_type'' of
                   Some (JString event_type) \<Rightarrow> payload_type_for event_type
                 | _ \<Rightarrow> Inl (ReplayError ''event_type must be a registered string'')) (\<lambda>payload_type.
          case lc_load_event lc payload_type text of
            None \<Rightarrow> Inl (ReplayError ''invalid canonical event JSON'')
          | Some event \<Rightarrow>
              bindE (serialize_event ops lc event) (\<lambda>written.
              if written \<noteq> text then Inl (ReplayError ''event JSON is not canonical'') else Inr event)))
      | Some _ \<Rightarrow> Inl (ReplayError ''canonical event JSON must be an object''))"

definition from_envelope :: "'p payload_ops \<Rightarrow> 'p ledger_codec \<Rightarrow> 'p event_envelope \<Rightarrow> stored_event res" where
  "from_envelope ops lc event =
     bindE (serialize_event ops lc event) (\<lambda>text.
     mk_stored_event
       \<lparr>se_event_id = ev_event_id event, se_stream_id = ev_stream_id event, se_sequence = ev_sequence event,
        se_event_type = ev_event_type event, se_canonical_json = text, se_digest = lc_sha256 lc text\<rparr>)"

section \<open>Snapshots\<close>

definition issue_json :: "replay_issue \<Rightarrow> json" where
  "issue_json i = JObject
     [(''code'', JString (issue_code_value (ri_code i))),
      (''digest'', JString (ri_digest i)),
      (''event_id'', JString (uuid_text (ri_event_id i))),
      (''expected_sequence'', JInt (ri_expected_sequence i)),
      (''sequence'', JInt (ri_sequence i)),
      (''stream_id'', JString (uuid_text (ri_stream_id i)))]"

definition type_count_json :: "event_type_count \<Rightarrow> json" where
  "type_count_json c = JObject [(''count'', JInt (tc_count c)), (''event_type'', JString (tc_event_type c))]"

definition stream_json :: "stream_projection \<Rightarrow> json" where
  "stream_json p = JObject
     [(''event_count'', JInt (sp_event_count p)),
      (''last_digest'', case sp_last_digest p of None \<Rightarrow> JNull | Some d \<Rightarrow> JString d),
      (''last_sequence'', JInt (sp_last_sequence p)),
      (''stream_id'', JString (uuid_text (sp_stream_id p)))]"

definition applied_json :: "ledger_applied \<Rightarrow> json" where
  "applied_json a = JObject [(''digest'', JString (la_digest a)), (''event_id'', JString (uuid_text (la_event_id a)))]"

definition aggregate_json :: "aggregate_state \<Rightarrow> json" where
  "aggregate_json s = JObject
     [(''applied_events'', JArray (map applied_json (ag_applied_events s))),
      (''event_count'', JInt (ag_event_count s)),
      (''streams'', JArray (map stream_json (ag_streams s))),
      (''type_counts'', JArray (map type_count_json (ag_type_counts s)))]"

definition state_document :: "aggregate_state \<Rightarrow> replay_status \<Rightarrow> replay_issue list \<Rightarrow> string \<Rightarrow> string \<Rightarrow> json" where
  "state_document state status issues schema_version reducer_version = JObject
     [(''issues'', JArray (map issue_json issues)),
      (''reducer_version'', JString reducer_version),
      (''schema_version'', JString schema_version),
      (''state'', aggregate_json state),
      (''status'', JString (replay_status_value status))]"

definition canonical_state_json ::
  "aggregate_state \<Rightarrow> replay_status \<Rightarrow> replay_issue list \<Rightarrow> string \<Rightarrow> string \<Rightarrow> string res" where
  "canonical_state_json state status issues schema_version reducer_version =
     canonical_json (state_document state status issues schema_version reducer_version)"

definition replay_check :: "bool \<Rightarrow> string \<Rightarrow> unit res" where
  "replay_check bad message = (if bad then Inl (ReplayError message) else Inr ())"

definition record_key :: "uuid \<Rightarrow> int \<Rightarrow> uuid \<Rightarrow> uuid \<times> int \<times> uuid" where
  "record_key stream_id sequence event_id = (stream_id, sequence, event_id)"

definition issue_key :: "replay_issue \<Rightarrow> uuid \<times> int \<times> uuid" where
  "issue_key i = record_key (ri_stream_id i) (ri_sequence i) (ri_event_id i)"

definition inconsistent_stream :: "stream_projection \<Rightarrow> bool" where
  "inconsistent_stream p =
     (sp_event_count p \<le> 0 \<or> sp_last_sequence p \<noteq> sp_event_count p \<or> sp_last_digest p = None)"

definition inconsistent_issue :: "replay_issue \<Rightarrow> bool" where
  "inconsistent_issue i =
     ((ri_code i = SEQUENCE_GAP \<and> ri_sequence i \<le> ri_expected_sequence i)
      \<or> (ri_code i = SEQUENCE_REGRESSION \<and> ri_expected_sequence i \<le> ri_sequence i))"

definition validate_snapshot_structure :: "ledger_result \<Rightarrow> unit res" where
  "validate_snapshot_structure r =
     (let state = lr_state r; issues = lr_issues r
      in
      bindE (replay_check (ag_event_count state \<noteq> int (length (ag_applied_events state)))
               ''snapshot event_count does not match applied events'') (\<lambda>_.
      bindE (replay_check (\<not> distinct (map la_event_id (ag_applied_events state)))
               ''snapshot has duplicate applied event ids'') (\<lambda>_.
      bindE (replay_check (sort_key la_event_id (ag_applied_events state) \<noteq> ag_applied_events state)
               ''snapshot applied events are not canonically ordered'') (\<lambda>_.
      bindE (replay_check (sum_list (map tc_count (ag_type_counts state)) \<noteq> ag_event_count state)
               ''snapshot type counts do not match event_count'') (\<lambda>_.
      bindE (replay_check (\<not> distinct (map tc_event_type (ag_type_counts state)))
               ''snapshot has duplicate event type counts'') (\<lambda>_.
      bindE (replay_check (sort_key tc_event_type (ag_type_counts state) \<noteq> ag_type_counts state)
               ''snapshot type counts are not canonically ordered'') (\<lambda>_.
      bindE (replay_check (list_ex (\<lambda>c. tc_event_type c \<notin> set EVENT_TYPES) (ag_type_counts state))
               ''snapshot has an unregistered event type count'') (\<lambda>_.
      bindE (replay_check (sum_list (map sp_event_count (ag_streams state)) \<noteq> ag_event_count state)
               ''snapshot stream counts do not match event_count'') (\<lambda>_.
      bindE (replay_check (\<not> distinct (map sp_stream_id (ag_streams state)))
               ''snapshot has duplicate stream projections'') (\<lambda>_.
      bindE (replay_check (sort_key sp_stream_id (ag_streams state) \<noteq> ag_streams state)
               ''snapshot stream projections are not canonically ordered'') (\<lambda>_.
      bindE (replay_check (list_ex inconsistent_stream (ag_streams state))
               ''snapshot stream projection is structurally inconsistent'') (\<lambda>_.
      bindE (replay_check (\<not> distinct (map ri_event_id issues))
               ''snapshot has duplicate replay issues'') (\<lambda>_.
      bindE (replay_check (set (map ri_event_id issues) \<inter> set (map la_event_id (ag_applied_events state)) \<noteq> {})
               ''snapshot issue is also marked applied'') (\<lambda>_.
      bindE (replay_check (sort_key issue_key issues \<noteq> issues)
               ''snapshot issues are not canonically ordered'') (\<lambda>_.
      bindE (replay_check (list_ex inconsistent_issue issues)
               ''snapshot replay issue is structurally inconsistent'') (\<lambda>_.
      replay_check ((lr_status r = RS_DEGRADED) \<noteq> (issues \<noteq> []))
        ''snapshot status does not match replay issues''))))))))))))))))"

definition validate_snapshot :: "'p ledger_codec \<Rightarrow> ledger_result \<Rightarrow> ledger_result res" where
  "validate_snapshot lc snapshot =
     bindE (catch_validation_error (mk_ledger_result snapshot) (ReplayError ''invalid snapshot'')) (\<lambda>snapshot.
     bindE (replay_check (lr_schema_version snapshot \<noteq> REPLAY_SCHEMA_VERSION
                          \<or> lr_reducer_version snapshot \<noteq> REDUCER_VERSION)
              ''snapshot uses unsupported replay or reducer version'') (\<lambda>_.
     bindE (validate_snapshot_structure snapshot) (\<lambda>_.
     bindE (canonical_state_json (lr_state snapshot) (lr_status snapshot) (lr_issues snapshot)
              (lr_schema_version snapshot) (lr_reducer_version snapshot)) (\<lambda>expected_json.
     bindE (replay_check (lr_canonical_state_json snapshot \<noteq> expected_json
                          \<or> lr_state_hash snapshot \<noteq> lc_sha256 lc expected_json)
              ''snapshot state hash does not match canonical state'') (\<lambda>_.
     Inr snapshot)))))"

definition snapshot_from_result :: "'p ledger_codec \<Rightarrow> ledger_result \<Rightarrow> ledger_result res" where
  "snapshot_from_result lc result =
     bindE (catch_validation_error (mk_ledger_result result) (ReplayError ''invalid replay result'')) (\<lambda>result.
     bindE (mk_ledger_result result) (\<lambda>snapshot.
     validate_snapshot lc snapshot))"

section \<open>Reduction\<close>

datatype reducer_policy = POLICY_DEFAULT | POLICY_DEGRADED

definition stored_key :: "stored_event \<Rightarrow> uuid \<times> int \<times> uuid" where
  "stored_key r = record_key (se_stream_id r) (se_sequence r) (se_event_id r)"

record ledger_maps =
  lm_expected :: "(uuid \<times> int) list"
  lm_type_counts :: "(string \<times> int) list"
  lm_applied :: "(uuid \<times> string) list"
  lm_starting_count :: int
  lm_unresolved :: "(uuid \<times> replay_issue) list"

definition initial_maps :: "ledger_result option \<Rightarrow> ledger_maps" where
  "initial_maps initial =
     (case initial of
        None \<Rightarrow> \<lparr>lm_expected = [], lm_type_counts = [], lm_applied = [], lm_starting_count = 0, lm_unresolved = []\<rparr>
      | Some r \<Rightarrow>
          \<lparr>lm_expected = map (\<lambda>(k, p). (k, sp_last_sequence p + 1)) (dict_of sp_stream_id (ag_streams (lr_state r))),
           lm_type_counts = map (\<lambda>(k, c). (k, tc_count c)) (dict_of tc_event_type (ag_type_counts (lr_state r))),
           lm_applied = map (\<lambda>(k, a). (k, la_digest a)) (dict_of la_event_id (ag_applied_events (lr_state r))),
           lm_starting_count = ag_event_count (lr_state r),
           lm_unresolved = dict_of ri_event_id (lr_issues r)\<rparr>)"

definition unique_step ::
  "ledger_maps \<Rightarrow> stored_event list \<Rightarrow> stored_event \<Rightarrow> stored_event list res" where
  "unique_step m unique record =
     (case map_of (lm_applied m) (se_event_id record) of
        Some previous \<Rightarrow>
          if previous \<noteq> se_digest record
          then Inl (ConflictingEventError (''conflicting content for event_id '' @ uuid_text (se_event_id record)))
          else Inr unique
      | None \<Rightarrow>
          if (case map_of (lm_unresolved m) (se_event_id record) of
                None \<Rightarrow> False | Some issue \<Rightarrow> ri_digest issue \<noteq> se_digest record)
          then Inl (ConflictingEventError (''conflicting retry for skipped event_id '' @ uuid_text (se_event_id record)))
          else (case find (\<lambda>r. se_event_id r = se_event_id record) unique of
                  Some seen \<Rightarrow>
                    if se_digest seen \<noteq> se_digest record
                    then Inl (ConflictingEventError (''conflicting content for event_id '' @ uuid_text (se_event_id record)))
                    else Inr unique
                | None \<Rightarrow> Inr (unique @ [record])))"

record sequencing =
  sq_expected :: "(uuid \<times> int) list"
  sq_unresolved :: "(uuid \<times> replay_issue) list"
  sq_valid :: "stored_event list"

definition sequence_step :: "reducer_policy \<Rightarrow> sequencing \<Rightarrow> stored_event \<Rightarrow> sequencing res" where
  "sequence_step policy s record =
     (let wanted = (case map_of (sq_expected s) (se_stream_id record) of None \<Rightarrow> 1 | Some n \<Rightarrow> n)
      in if se_sequence record \<noteq> wanted
         then
           let code = (if wanted < se_sequence record then SEQUENCE_GAP else SEQUENCE_REGRESSION)
           in if policy = POLICY_DEFAULT
              then Inl (SequenceError (issue_code_value code @ '' in stream '' @ uuid_text (se_stream_id record)
                     @ '': expected '' @ int_text wanted @ '', got '' @ int_text (se_sequence record)))
              else
                bindE (mk_replay_issue
                  \<lparr>ri_code = code, ri_stream_id = se_stream_id record, ri_event_id = se_event_id record,
                   ri_sequence = se_sequence record, ri_expected_sequence = wanted, ri_digest = se_digest record\<rparr>) (\<lambda>issue.
                Inr (s\<lparr>sq_unresolved := dict_put (se_event_id record) issue (sq_unresolved s)\<rparr>))
         else
           Inr (s\<lparr>sq_expected := dict_put (se_stream_id record) (wanted + 1) (sq_expected s),
                  sq_unresolved := filter (\<lambda>(k, _). k \<noteq> se_event_id record) (sq_unresolved s),
                  sq_valid := sq_valid s @ [record]\<rparr>))"

definition count_types :: "(string \<times> int) list \<Rightarrow> stored_event list \<Rightarrow> (string \<times> int) list" where
  "count_types counts records =
     foldl (\<lambda>d r. dict_put (se_event_type r) ((case map_of d (se_event_type r) of None \<Rightarrow> 0 | Some n \<Rightarrow> n) + 1) d)
       counts records"

definition mark_applied :: "(uuid \<times> string) list \<Rightarrow> stored_event list \<Rightarrow> (uuid \<times> string) list" where
  "mark_applied applied records = foldl (\<lambda>d r. dict_put (se_event_id r) (se_digest r) d) applied records"

definition project_stream :: "ledger_result option \<Rightarrow> stored_event list \<Rightarrow> uuid \<Rightarrow> stream_projection res" where
  "project_stream initial accepted stream_id =
     (let records = filter (\<lambda>r. se_stream_id r = stream_id) accepted;
          previous = (case initial of
                        None \<Rightarrow> None
                      | Some r \<Rightarrow> find (\<lambda>p. sp_stream_id p = stream_id) (ag_streams (lr_state r)));
          before = (case previous of None \<Rightarrow> 0 | Some p \<Rightarrow> sp_event_count p);
          (last_sequence, last_digest) =
            (if records \<noteq> [] then (se_sequence (last records), Some (se_digest (last records)))
             else case previous of
                    Some p \<Rightarrow> (sp_last_sequence p, sp_last_digest p)
                  | None \<Rightarrow> (0, None))
      in mk_stream_projection
           \<lparr>sp_stream_id = stream_id, sp_event_count = before + int (length records),
            sp_last_sequence = last_sequence, sp_last_digest = last_digest\<rparr>)"

definition close_reduction ::
  "'p ledger_codec \<Rightarrow> ledger_result option \<Rightarrow> ledger_maps \<Rightarrow> sequencing \<Rightarrow> ledger_result res" where
  "close_reduction lc initial m s =
     (let accepted = sq_valid s;
          type_counts = count_types (lm_type_counts m) accepted;
          applied = mark_applied (lm_applied m) accepted
      in
      bindE (mapE (project_stream initial accepted) (sort (map fst (sq_expected s)))) (\<lambda>streams.
      bindE (mapE (\<lambda>(kind, n). mk_event_type_count \<lparr>tc_event_type = kind, tc_count = n\<rparr>) (sort_key fst type_counts)) (\<lambda>counts.
      bindE (mapE (\<lambda>(event_id, digest). mk_ledger_applied \<lparr>la_event_id = event_id, la_digest = digest\<rparr>)
               (sort_key fst applied)) (\<lambda>applied_events.
      bindE (mk_aggregate_state
               \<lparr>ag_event_count = lm_starting_count m + int (length accepted), ag_type_counts = counts,
                ag_streams = streams, ag_applied_events = applied_events\<rparr>) (\<lambda>state.
      let issues = sort_key issue_key (map snd (sq_unresolved s));
          status = (if issues \<noteq> [] then RS_DEGRADED else RS_COMPLETE)
      in
      bindE (canonical_state_json state status issues REPLAY_SCHEMA_VERSION REDUCER_VERSION) (\<lambda>state_json.
      mk_ledger_result
        \<lparr>lr_schema_version = REPLAY_SCHEMA_VERSION, lr_reducer_version = REDUCER_VERSION, lr_status = status,
         lr_state = state, lr_issues = issues, lr_canonical_state_json = state_json,
         lr_state_hash = lc_sha256 lc state_json\<rparr>))))))"

definition reduce_events ::
  "'p payload_ops \<Rightarrow> 'p ledger_codec \<Rightarrow> 'p event_envelope list \<Rightarrow> reducer_policy \<Rightarrow> ledger_result option
    \<Rightarrow> ledger_result res" where
  "reduce_events ops lc event_batch policy initial =
     bindE (mk_optional (validate_snapshot lc) initial) (\<lambda>initial.
     bindE (catch_value_error (validate_execution_report_events ops event_batch)
              (ReplayError ''invalid execution report batch'')) (\<lambda>_.
     bindE (mapE (from_envelope ops lc) event_batch) (\<lambda>incoming.
     let m = initial_maps initial
     in
     bindE (foldE (unique_step m) [] incoming) (\<lambda>unique.
     bindE (foldE (sequence_step policy)
              \<lparr>sq_expected = lm_expected m, sq_unresolved = lm_unresolved m, sq_valid = []\<rparr>
              (sort_key stored_key unique)) (\<lambda>s.
     close_reduction lc initial m s)))))"

definition replay ::
  "'p payload_ops \<Rightarrow> 'p ledger_codec \<Rightarrow> 'p event_envelope list \<Rightarrow> reducer_policy option \<Rightarrow> ledger_result option
    \<Rightarrow> ledger_result res" where
  "replay ops lc events policy snapshot =
     bindE (mk_optional (validate_snapshot lc) snapshot) (\<lambda>snapshot.
     reduce_events ops lc events (case policy of None \<Rightarrow> POLICY_DEFAULT | Some p \<Rightarrow> p) snapshot)"

end
