(* ===== verification/Ledger_Reduction.thy ===== *)
theory Ledger_Reduction
  imports Event_Ledger
begin

text \<open>
  What the ledger reduction computes. A reference projection of a complete history (no duplicate, no
  gap) is stated directly on the list of its records; under the default policy the reducer accepts
  a batch exactly when its new records continue the streams of the snapshot, and then returns that
  projection.
\<close>


subsection \<open>Deduplication\<close>

lemma replay_check_Inr_iff [res_simps]: "replay_check bad msg = Inr u \<longleftrightarrow> \<not> bad"
  by (simp add: replay_check_def)

text \<open>What the first pass accepts: each record agrees with what is applied, skipped or seen under its id.\<close>

definition agrees :: "ledger_maps \<Rightarrow> stored_event \<Rightarrow> bool" where
  "agrees m r =
     ((\<forall>d. map_of (lm_applied m) (se_event_id r) = Some d \<longrightarrow> d = se_digest r)
      \<and> (map_of (lm_applied m) (se_event_id r) = None \<longrightarrow>
          (\<forall>i. map_of (lm_unresolved m) (se_event_id r) = Some i \<longrightarrow> ri_digest i = se_digest r)))"

definition consistent :: "stored_event list \<Rightarrow> bool" where
  "consistent rs = (\<forall>a \<in> set rs. \<forall>b \<in> set rs. se_event_id a = se_event_id b \<longrightarrow> se_digest a = se_digest b)"

definition fresh_for :: "ledger_maps \<Rightarrow> stored_event \<Rightarrow> bool" where
  "fresh_for m r = (map_of (lm_applied m) (se_event_id r) = None)"

fun first_occurrences :: "stored_event list \<Rightarrow> stored_event list \<Rightarrow> stored_event list" where
  "first_occurrences us [] = us"
| "first_occurrences us (r # rs) =
     first_occurrences (if se_event_id r \<in> se_event_id ` set us then us else us @ [r]) rs"

lemma first_occurrences_append: "first_occurrences us (xs @ ys) = first_occurrences (first_occurrences us xs) ys"
  by (induction xs arbitrary: us) auto

lemma first_occurrences_ids:
  "se_event_id ` set (first_occurrences us rs) = se_event_id ` set us \<union> se_event_id ` set rs"
  by (induction rs arbitrary: us) auto

lemma first_occurrences_set: "set us \<subseteq> set (first_occurrences us rs) \<and> set (first_occurrences us rs) \<subseteq> set us \<union> set rs"
proof (induction rs arbitrary: us)
  case (Cons r rs)
  from Cons.IH [of us] Cons.IH [of "us @ [r]"] show ?case by auto
qed simp

lemma first_occurrences_distinct:
  "distinct (map se_event_id us) \<Longrightarrow> distinct (map se_event_id (first_occurrences us rs))"
  by (induction rs arbitrary: us) auto

lemma find_by_id:
  assumes "distinct (map se_event_id us)"
  shows "find (\<lambda>u. se_event_id u = k) us = Some v \<longleftrightarrow> v \<in> set us \<and> se_event_id v = k"
proof
  assume "find (\<lambda>u. se_event_id u = k) us = Some v"
  then show "v \<in> set us \<and> se_event_id v = k" by (auto simp: find_Some_iff)
next
  assume v: "v \<in> set us \<and> se_event_id v = k"
  then obtain w where w: "find (\<lambda>u. se_event_id u = k) us = Some w"
    by (cases "find (\<lambda>u. se_event_id u = k) us") (auto simp: find_None_iff)
  then have "w \<in> set us" "se_event_id w = k" by (auto simp: find_Some_iff)
  with v assms have "w = v" by (metis distinct_map inj_onD)
  with w show "find (\<lambda>u. se_event_id u = k) us = Some v" by simp
qed

lemma unique_step_Inr_iff:
  assumes "distinct (map se_event_id us)"
  shows "unique_step m us r = Inr vs \<longleftrightarrow> agrees m r \<and>
    (if \<not> fresh_for m r then vs = us
     else if se_event_id r \<in> se_event_id ` set us
     then (\<forall>a \<in> set us. se_event_id a = se_event_id r \<longrightarrow> se_digest a = se_digest r) \<and> vs = us
     else vs = us @ [r])"
proof (cases "find (\<lambda>u. se_event_id u = se_event_id r) us")
  case None
  then have "se_event_id r \<notin> se_event_id ` set us" by (auto simp: find_None_iff)
  with None show ?thesis
    by (auto simp: unique_step_def agrees_def fresh_for_def split: option.splits)
next
  case (Some v)
  then have v: "v \<in> set us" "se_event_id v = se_event_id r" by (simp_all add: find_by_id [OF assms])
  then have "se_event_id r \<in> se_event_id ` set us" by (metis image_eqI)
  moreover have "(\<forall>a \<in> set us. se_event_id a = se_event_id r \<longrightarrow> se_digest a = se_digest r) \<longleftrightarrow> se_digest v = se_digest r"
    using v assms by (metis distinct_map inj_onD)
  ultimately show ?thesis using Some
    by (auto simp: unique_step_def agrees_def fresh_for_def split: option.splits)
qed

lemma consistent_cong: "set xs = set ys \<Longrightarrow> consistent xs = consistent ys"
  by (simp add: consistent_def)

lemma consistent_mono: "consistent ys \<Longrightarrow> set xs \<subseteq> set ys \<Longrightarrow> consistent xs"
  unfolding consistent_def by (meson subsetD)

lemma consistentD: "consistent xs \<Longrightarrow> a \<in> set xs \<Longrightarrow> b \<in> set xs \<Longrightarrow> se_event_id a = se_event_id b \<Longrightarrow> se_digest a = se_digest b"
  unfolding consistent_def by blast

lemma consistentI: "(\<And>a b. a \<in> set xs \<Longrightarrow> b \<in> set xs \<Longrightarrow> se_event_id a = se_event_id b \<Longrightarrow> se_digest a = se_digest b) \<Longrightarrow> consistent xs"
  unfolding consistent_def by blast

lemma unique_fold_iff:
  assumes "distinct (map se_event_id us)"
  shows "foldE (unique_step m) us rs = Inr vs \<longleftrightarrow>
    (\<forall>r \<in> set rs. agrees m r) \<and> consistent (us @ filter (fresh_for m) rs)
    \<and> vs = first_occurrences us (filter (fresh_for m) rs)"
  using assms
proof (induction rs arbitrary: us)
  case Nil
  then have "consistent us" by (auto simp: consistent_def distinct_map dest: inj_onD)
  then show ?case by auto
next
  case (Cons r rs)
  let ?f = "filter (fresh_for m) rs"
  note step = unique_step_Inr_iff [OF Cons.prems, of m r]
  show ?case
  proof (cases "fresh_for m r")
    case False
    then show ?thesis using step Cons.IH [OF Cons.prems] by (auto simp: res_simps)
  next
    case True
    show ?thesis
    proof (cases "se_event_id r \<in> se_event_id ` set us")
      case False
      then have "distinct (map se_event_id (us @ [r]))" using Cons.prems by auto
      from Cons.IH [OF this] True False step show ?thesis by (auto simp: res_simps)
    next
      case in_us: True
      then obtain u where u: "u \<in> set us" "se_event_id u = se_event_id r" by (metis imageE)
      have "consistent (us @ r # ?f) \<longleftrightarrow> consistent (us @ ?f) \<and>
          (\<forall>a \<in> set us. se_event_id a = se_event_id r \<longrightarrow> se_digest a = se_digest r)"
      proof
        assume c: "consistent (us @ r # ?f)"
        have "consistent (us @ ?f)" by (rule consistent_mono [OF c]) auto
        moreover have "se_digest a = se_digest r" if "a \<in> set us" "se_event_id a = se_event_id r" for a
          by (rule consistentD [OF c]) (use that in auto)
        ultimately show "consistent (us @ ?f) \<and> (\<forall>a \<in> set us. se_event_id a = se_event_id r \<longrightarrow> se_digest a = se_digest r)"
          by blast
      next
        assume *: "consistent (us @ ?f) \<and> (\<forall>a \<in> set us. se_event_id a = se_event_id r \<longrightarrow> se_digest a = se_digest r)"
        then have ur: "se_digest u = se_digest r" and c: "consistent (us @ ?f)" using u by simp_all
        have same: "se_digest a = se_digest r" if "a \<in> set (us @ r # ?f)" "se_event_id a = se_event_id r" for a
        proof (cases "a = r")
          case False
          then have "se_digest a = se_digest u" by (intro consistentD [OF c]) (use that u in auto)
          with ur show ?thesis by simp
        qed simp
        show "consistent (us @ r # ?f)"
        proof (rule consistentI)
          fix a b assume ab: "a \<in> set (us @ r # ?f)" "b \<in> set (us @ r # ?f)" "se_event_id a = se_event_id b"
          show "se_digest a = se_digest b"
          proof (cases "se_event_id a = se_event_id r")
            case True
            then show ?thesis using same [OF ab(1)] same [OF ab(2)] ab(3) by simp
          next
            case False
            then show ?thesis by (intro consistentD [OF c]) (use ab False in auto)
          qed
        qed
      qed
      with Cons.IH [OF Cons.prems] True in_us step show ?thesis by (auto simp: res_simps)
    qed
  qed
qed

subsection \<open>Sequencing\<close>

definition in_stream :: "uuid \<Rightarrow> stored_event list \<Rightarrow> stored_event list" where
  "in_stream k rs = filter (\<lambda>r. se_stream_id r = k) rs"

lemma in_stream_simps [simp]:
  "in_stream k [] = []"
  "in_stream k (rs @ qs) = in_stream k rs @ in_stream k qs"
  "in_stream k (r # rs) = (if se_stream_id r = k then r # in_stream k rs else in_stream k rs)"
  by (simp_all add: in_stream_def)

lemma in_stream_Nil_iff: "in_stream k rs = [] \<longleftrightarrow> k \<notin> se_stream_id ` set rs"
  by (auto simp: in_stream_def filter_empty_conv)

text \<open>The records of every stream continue from a base sequence without a gap.\<close>

definition continues :: "(uuid \<Rightarrow> int) \<Rightarrow> stored_event list \<Rightarrow> bool" where
  "continues base rs =
     (\<forall>k. map se_sequence (in_stream k rs) = map (\<lambda>i. base k + 1 + int i) [0..<length (in_stream k rs)])"

lemma continues_Nil [simp]: "continues base []"
  by (simp add: continues_def)

lemma continues_snoc:
  "continues base (rs @ [r]) \<longleftrightarrow> continues base rs
     \<and> se_sequence r = base (se_stream_id r) + int (length (in_stream (se_stream_id r) rs)) + 1"
  by (auto simp: continues_def)

lemma continues_prefix: "continues base (rs @ qs) \<Longrightarrow> continues base rs"
  by (induction qs rule: rev_induct) (auto simp: continues_snoc simp flip: append_assoc)

definition base_of :: "(uuid \<times> int) list \<Rightarrow> uuid \<Rightarrow> int" where
  "base_of expected k = (case map_of expected k of None \<Rightarrow> 0 | Some n \<Rightarrow> n - 1)"

definition tracks :: "(uuid \<times> int) list \<Rightarrow> sequencing \<Rightarrow> bool" where
  "tracks expected s =
     (distinct (map fst (sq_expected s)) \<and> fst ` set (sq_expected s) = fst ` set expected \<union> se_stream_id ` set (sq_valid s)
      \<and> (\<forall>k n. map_of (sq_expected s) k = Some n \<longrightarrow> n = base_of expected k + int (length (in_stream k (sq_valid s))) + 1)
      \<and> continues (base_of expected) (sq_valid s))"

lemma tracks_wanted:
  assumes "tracks expected s"
  shows "(case map_of (sq_expected s) k of None \<Rightarrow> 1 | Some n \<Rightarrow> n)
    = base_of expected k + int (length (in_stream k (sq_valid s))) + 1"
proof (cases "map_of (sq_expected s) k")
  case None
  then have "k \<notin> fst ` set (sq_expected s)" by (simp only: map_of_eq_None_iff not_False_eq_True)
  with assms have k: "k \<notin> fst ` set expected" "k \<notin> se_stream_id ` set (sq_valid s)" unfolding tracks_def by blast+
  have "map_of expected k = None" using k(1) by (simp only: map_of_eq_None_iff not_False_eq_True)
  moreover have "in_stream k (sq_valid s) = []" using k(2) by (simp only: in_stream_Nil_iff not_False_eq_True)
  ultimately show ?thesis using None by (simp add: base_of_def)
next
  case (Some n)
  with assms show ?thesis unfolding tracks_def by simp
qed

lemma tracks_initial:
  assumes "distinct (map fst expected)"
  shows "tracks expected \<lparr>sq_expected = expected, sq_unresolved = u, sq_valid = []\<rparr>"
  using assms by (simp add: tracks_def base_of_def del: map_of_eq_Some_iff)

lemma tracks_accept:
  assumes "tracks expected s" "se_sequence r = base_of expected (se_stream_id r) + int (length (in_stream (se_stream_id r) (sq_valid s))) + 1"
    and "s' = s\<lparr>sq_expected := dict_put (se_stream_id r) (se_sequence r + 1) (sq_expected s),
      sq_unresolved := u, sq_valid := sq_valid s @ [r]\<rparr>"
  shows "tracks expected s'"
proof -
  have "map_of (sq_expected s') k = Some n \<Longrightarrow> n = base_of expected k + int (length (in_stream k (sq_valid s'))) + 1" for k n
    using assms unfolding tracks_def by (cases "k = se_stream_id r") (auto simp: dict_put_get simp del: map_of_eq_Some_iff)
  moreover have "distinct (map fst (sq_expected s'))" using assms(1,3) by (simp add: tracks_def dict_put_distinct)
  moreover have "continues (base_of expected) (sq_valid s')" using assms by (simp add: tracks_def continues_snoc)
  moreover have "fst ` set (sq_expected s') = fst ` set expected \<union> se_stream_id ` set (sq_valid s')"
    using assms(1,3) by (simp add: tracks_def dict_put_keys)
  ultimately show ?thesis unfolding tracks_def by blast
qed

lemma tracks_cong: "sq_expected t = sq_expected s \<Longrightarrow> sq_valid t = sq_valid s \<Longrightarrow> tracks expected t = tracks expected s"
  by (simp only: tracks_def)

lemma sequence_step_cases:
  assumes "sequence_step policy s r = Inr s'" "tracks expected s"
  obtains "se_sequence r = base_of expected (se_stream_id r) + int (length (in_stream (se_stream_id r) (sq_valid s))) + 1"
      "sq_valid s' = sq_valid s @ [r]" "tracks expected s'"
      "sq_unresolved s' = filter (\<lambda>(k, _). k \<noteq> se_event_id r) (sq_unresolved s)"
  | i where "policy = POLICY_DEGRADED" "sq_valid s' = sq_valid s" "tracks expected s'"
      "sq_unresolved s' = dict_put (se_event_id r) i (sq_unresolved s)"
      "mk_replay_issue i = Inr i" "ri_event_id i = se_event_id r" "\<not> inconsistent_issue i"
proof -
  note w = tracks_wanted [OF assms(2), of "se_stream_id r"]
  let ?w = "base_of expected (se_stream_id r) + int (length (in_stream (se_stream_id r) (sq_valid s))) + 1"
  show thesis
  proof (cases "se_sequence r = ?w")
    case True
    with assms(1) have s': "s' = s\<lparr>sq_expected := dict_put (se_stream_id r) (se_sequence r + 1) (sq_expected s),
      sq_unresolved := filter (\<lambda>(k, _). k \<noteq> se_event_id r) (sq_unresolved s), sq_valid := sq_valid s @ [r]\<rparr>"
      by (simp add: sequence_step_def w Let_def)
    show thesis by (rule that(1) [OF True]) (use s' tracks_accept [OF assms(2) True s'] in simp_all)
  next
    case False
    define i where "i = \<lparr>ri_code = (if ?w < se_sequence r then SEQUENCE_GAP else SEQUENCE_REGRESSION), ri_stream_id = se_stream_id r,
      ri_event_id = se_event_id r, ri_sequence = se_sequence r, ri_expected_sequence = ?w, ri_digest = se_digest r\<rparr>"
    from False assms(1) have pol: "policy = POLICY_DEGRADED"
      by (cases policy) (simp_all add: sequence_step_def w Let_def)
    from False assms(1) pol have mk: "mk_replay_issue i = Inr i"
      and s': "s' = s\<lparr>sq_unresolved := dict_put (se_event_id r) i (sq_unresolved s)\<rparr>"
      by (auto simp: sequence_step_def w Let_def i_def mk_replay_issue_def res_simps)
    have tr: "tracks expected s'" using s' assms(2) tracks_cong [of s' s] by simp
    show thesis by (rule that(2) [OF pol _ tr _ mk]) (use s' False in \<open>auto simp: i_def inconsistent_issue_def\<close>)
  qed
qed

lemma sequence_step_default_iff:
  assumes "tracks expected s"
  shows "is_ok (sequence_step POLICY_DEFAULT s r) \<longleftrightarrow>
    se_sequence r = base_of expected (se_stream_id r) + int (length (in_stream (se_stream_id r) (sq_valid s))) + 1"
  by (simp add: sequence_step_def tracks_wanted [OF assms] Let_def)

lemma sequence_fold_default:
  assumes "tracks expected s" "foldE (sequence_step POLICY_DEFAULT) s rs = Inr s'"
  shows "sq_valid s' = sq_valid s @ rs \<and> tracks expected s'
    \<and> sq_unresolved s' = filter (\<lambda>(k, _). k \<notin> se_event_id ` set rs) (sq_unresolved s)"
  using assms
proof (induction rs arbitrary: s)
  case Nil
  then show ?case by (auto intro: filter_True [symmetric])
next
  case (Cons r rs)
  from Cons.prems(2) obtain t where t: "sequence_step POLICY_DEFAULT s r = Inr t" "foldE (sequence_step POLICY_DEFAULT) t rs = Inr s'"
    by (auto simp: res_simps)
  from t(1) Cons.prems(1) show ?case
  proof (rule sequence_step_cases)
    assume "sq_valid t = sq_valid s @ [r]" "tracks expected t"
      "sq_unresolved t = filter (\<lambda>(k, _). k \<noteq> se_event_id r) (sq_unresolved s)"
    with Cons.IH [OF _ t(2)] show ?thesis by (auto simp: conj_commute intro!: filter_cong)
  qed simp
qed

lemma sequence_fold_default_ok:
  assumes "tracks expected s" "continues (base_of expected) (sq_valid s @ rs)"
  shows "is_ok (foldE (sequence_step POLICY_DEFAULT) s rs)"
  using assms
proof (induction rs arbitrary: s)
  case (Cons r rs)
  have "continues (base_of expected) ((sq_valid s @ [r]) @ rs)" using Cons.prems(2) by simp
  then have "continues (base_of expected) (sq_valid s @ [r])" by (rule continues_prefix)
  then have ok: "is_ok (sequence_step POLICY_DEFAULT s r)"
    using sequence_step_default_iff [OF Cons.prems(1)] by (simp add: continues_snoc)
  then obtain t where t: "sequence_step POLICY_DEFAULT s r = Inr t" by (auto simp: is_ok_iff)
  from t Cons.prems(1) show ?case
  proof (rule sequence_step_cases)
    assume "sq_valid t = sq_valid s @ [r]" "tracks expected t"
    with Cons.IH [of t] Cons.prems(2) t show ?thesis by simp
  qed simp
qed simp

subsection \<open>What a complete history projects to\<close>

definition type_count_in :: "stored_event list \<Rightarrow> string \<Rightarrow> int" where
  "type_count_in h k = int (length (filter (\<lambda>r. se_event_type r = k) h))"

definition projection_in :: "stored_event list \<Rightarrow> uuid \<Rightarrow> stream_projection" where
  "projection_in h k =
     \<lparr>sp_stream_id = k, sp_event_count = int (length (in_stream k h)),
      sp_last_sequence = se_sequence (last (in_stream k h)), sp_last_digest = Some (se_digest (last (in_stream k h)))\<rparr>"

definition history_projection :: "stored_event list \<Rightarrow> aggregate_state" where
  "history_projection h =
     \<lparr>ag_event_count = int (length h),
      ag_type_counts = map (\<lambda>k. \<lparr>tc_event_type = k, tc_count = type_count_in h k\<rparr>) (sorted_list_of_set (se_event_type ` set h)),
      ag_streams = map (projection_in h) (sorted_list_of_set (se_stream_id ` set h)),
      ag_applied_events = map (\<lambda>r. \<lparr>la_event_id = se_event_id r, la_digest = se_digest r\<rparr>) (sort_key se_event_id h)\<rparr>"

lemma sorted_dict:
  fixes d :: "('k::linorder \<times> 'v) list"
  assumes "distinct (map fst d)" "fst ` set d = S" "\<And>k v. (k, v) \<in> set d \<Longrightarrow> g k = v"
  shows "sort_key fst d = map (\<lambda>k. (k, g k)) (sorted_list_of_set S)"
proof -
  let ?e = "map (\<lambda>k. (k, g k)) (sorted_list_of_set S)"
  have fin: "finite S" using assms(2) by (metis finite_set finite_imageI)
  have "set ?e = set d" using assms(2,3) fin by force
  moreover have "distinct ?e" by (simp add: distinct_map inj_on_def)
  moreover have "distinct d" using assms(1) by (simp add: distinct_map)
  ultimately have m: "mset ?e = mset d" using set_eq_iff_mset_eq_distinct [of ?e d] by blast
  have "sort_key fst d = sort_key fst ?e" by (rule sort_key_permute [OF m [symmetric] assms(1)])
  also have "\<dots> = ?e" by (rule sort_key_id_if_sorted) (simp add: comp_def)
  finally show ?thesis .
qed

lemma count_types_dict:
  assumes "distinct (map fst d)" "\<And>k v. (k, v) \<in> set d \<Longrightarrow> v = type_count_in h k" "fst ` set d = se_event_type ` set h"
  shows "distinct (map fst (count_types d rs)) \<and> (\<forall>(k, v) \<in> set (count_types d rs). v = type_count_in (h @ rs) k)
    \<and> fst ` set (count_types d rs) = se_event_type ` set (h @ rs)"
  using assms
proof (induction rs rule: rev_induct)
  case (snoc r rs)
  let ?d = "count_types d rs"
  define n where "n = (case map_of ?d (se_event_type r) of None \<Rightarrow> 0 | Some n \<Rightarrow> n)"
  have step: "count_types d (rs @ [r]) = dict_put (se_event_type r) (n + 1) ?d" by (simp add: count_types_def n_def)
  have IH: "distinct (map fst ?d)" "\<And>k v. (k, v) \<in> set ?d \<Longrightarrow> v = type_count_in (h @ rs) k"
    "fst ` set ?d = se_event_type ` set (h @ rs)" using snoc by auto
  have n: "n = type_count_in (h @ rs) (se_event_type r)"
  proof (cases "map_of ?d (se_event_type r)")
    case None
    then have "se_event_type r \<notin> se_event_type ` set (h @ rs)" using IH(3) by (metis map_of_eq_None_iff)
    then have "filter (\<lambda>q. se_event_type q = se_event_type r) (h @ rs) = []" by (metis (mono_tags, lifting) filter_empty_conv image_eqI)
    then show ?thesis using None by (simp add: n_def type_count_in_def)
  next
    case (Some v)
    then show ?thesis using IH(2) [OF map_of_SomeD] by (simp add: n_def)
  qed
  have dist: "distinct (map fst (dict_put (se_event_type r) (n + 1) ?d))" by (rule dict_put_distinct [OF IH(1)])
  have "v = type_count_in (h @ rs @ [r]) k" if "(k, v) \<in> set (dict_put (se_event_type r) (n + 1) ?d)" for k v
  proof -
    have "map_of (dict_put (se_event_type r) (n + 1) ?d) k = Some v" using that dist by simp
    then show ?thesis using n IH(2) [OF map_of_SomeD]
      by (auto simp: dict_put_get type_count_in_def simp del: map_of_eq_Some_iff split: if_splits)
  qed
  then show ?case unfolding step using dist IH(3) by (auto simp: dict_put_keys)
qed (auto simp: count_types_def)

lemma mark_applied_fresh:
  assumes "distinct (map se_event_id rs)" "se_event_id ` set rs \<inter> fst ` set d = {}"
  shows "mark_applied d rs = d @ map (\<lambda>r. (se_event_id r, se_digest r)) rs"
  using assms
proof (induction rs rule: rev_induct)
  case (snoc r rs)
  then have "mark_applied d rs = d @ map (\<lambda>r. (se_event_id r, se_digest r)) rs" by auto
  moreover have "se_event_id r \<notin> fst ` set (d @ map (\<lambda>r. (se_event_id r, se_digest r)) rs)"
    using snoc.prems by (auto simp: image_image)
  ultimately show ?case by (simp add: mark_applied_def dict_put_append)
qed (simp add: mark_applied_def)

lemma applied_dict:
  assumes "distinct (map se_event_id (h @ rs))"
  shows "map (\<lambda>(i, d). \<lparr>la_event_id = i, la_digest = d\<rparr>)
      (sort_key fst (map (\<lambda>a. (la_event_id a, la_digest a)) (ag_applied_events (history_projection h)) @
         map (\<lambda>r. (se_event_id r, se_digest r)) rs))
    = ag_applied_events (history_projection (h @ rs))"
proof -
  let ?f = "\<lambda>r. (se_event_id r, se_digest r)"
  let ?d = "map (\<lambda>a. (la_event_id a, la_digest a)) (ag_applied_events (history_projection h)) @ map ?f rs"
  have d: "?d = map ?f (sort_key se_event_id h @ rs)" by (simp add: history_projection_def)
  have "mset (map ?f (sort_key se_event_id h @ rs)) = mset (map ?f (sort_key se_event_id (h @ rs)))" by simp
  then have "sort_key fst ?d = sort_key fst (map ?f (sort_key se_event_id (h @ rs)))"
    unfolding d by (rule sort_key_permute) (use assms in \<open>simp add: comp_def distinct_map\<close>)
  also have "\<dots> = map ?f (sort_key se_event_id (h @ rs))"
    by (rule sort_key_id_if_sorted) (simp add: comp_def)
  finally show ?thesis by (simp add: history_projection_def comp_def)
qed

lemma mk_ledger_identity:
  "mk_event_type_count c = Inr c' \<Longrightarrow> c' = c"
  "mk_stream_projection p = Inr p' \<Longrightarrow> p' = p"
  "mk_ledger_applied a = Inr a' \<Longrightarrow> a' = a"
  "mk_replay_issue i = Inr i' \<Longrightarrow> i' = i"
  "mk_stored_event e = Inr e' \<Longrightarrow> e' = e"
  by (auto simp: mk_event_type_count_def mk_stream_projection_def mk_ledger_applied_def mk_replay_issue_def
      mk_stored_event_def res_simps)

lemma mapE_ledger_identity:
  "mapE mk_event_type_count cs = Inr cs' \<Longrightarrow> cs' = cs"
  "mapE mk_stream_projection ps = Inr ps' \<Longrightarrow> ps' = ps"
  "mapE mk_ledger_applied as = Inr as' \<Longrightarrow> as' = as"
  "mapE mk_replay_issue is' = Inr is'' \<Longrightarrow> is'' = is'"
  by (erule mapE_Inr_id [rotated], erule mk_ledger_identity)+

lemma mk_aggregate_state_Inr_iff:
  "mk_aggregate_state s = Inr t \<longleftrightarrow> t = s \<and> nonnegative_bigint (ag_event_count s)
     \<and> mapE mk_event_type_count (ag_type_counts s) = Inr (ag_type_counts s)
     \<and> mapE mk_stream_projection (ag_streams s) = Inr (ag_streams s)
     \<and> mapE mk_ledger_applied (ag_applied_events s) = Inr (ag_applied_events s)"
  by (auto simp: mk_aggregate_state_def res_simps) (frule mapE_ledger_identity(1), frule mapE_ledger_identity(2),
      frule mapE_ledger_identity(3), simp)+

lemma mk_ledger_result_Inr_iff:
  "mk_ledger_result r = Inr t \<longleftrightarrow> t = r \<and> lr_schema_version r = REPLAY_SCHEMA_VERSION
     \<and> lr_reducer_version r = REDUCER_VERSION \<and> mk_aggregate_state (lr_state r) = Inr (lr_state r)
     \<and> mapE mk_replay_issue (lr_issues r) = Inr (lr_issues r) \<and> 2 \<le> length (lr_canonical_state_json r)
     \<and> sha256_hex (lr_state_hash r)"
proof -
  have *: "mk_aggregate_state (lr_state r) = Inr s \<Longrightarrow> s = lr_state r" for s
    by (simp add: mk_aggregate_state_Inr_iff)
  show ?thesis
    unfolding mk_ledger_result_def
    by (auto simp: res_simps) (frule *, frule mapE_ledger_identity(4), simp)+
qed

subsection \<open>Reduction of a complete history\<close>

definition starts_from :: "ledger_result option \<Rightarrow> stored_event list \<Rightarrow> bool" where
  "starts_from initial h =
     (distinct (map se_event_id h) \<and> continues (\<lambda>_. 0) h
      \<and> (case initial of
           None \<Rightarrow> h = []
         | Some r \<Rightarrow> lr_state r = history_projection h \<and> lr_issues r = []))"

lemma continues_append:
  "continues (\<lambda>_. 0) (h @ rs) \<longleftrightarrow> continues (\<lambda>_. 0) h \<and> continues (\<lambda>k. int (length (in_stream k h))) rs"
proof (induction rs rule: rev_induct)
  case (snoc r rs)
  then show ?case by (auto simp: continues_snoc simp flip: append_assoc)
qed simp

lemma continues_last:
  assumes "continues (\<lambda>_. 0) h" "k \<in> se_stream_id ` set h"
  shows "se_sequence (last (in_stream k h)) = int (length (in_stream k h))"
proof -
  have ne: "in_stream k h \<noteq> []" using assms(2) by (simp add: in_stream_Nil_iff)
  then have "se_sequence (last (in_stream k h)) = last (map se_sequence (in_stream k h))" by (simp add: last_map)
  also have "\<dots> = last (map (\<lambda>i. 0 + 1 + int i) [0..<length (in_stream k h)])" using assms(1) by (simp add: continues_def)
  also have "\<dots> = int (length (in_stream k h))"
    using ne by (cases "length (in_stream k h)") (simp_all add: last_map)
  finally show ?thesis .
qed

text \<open>The dictionaries the reduction starts with.\<close>

lemma finite_names: "finite (f ` set h)" by simp

lemma initial_maps_history:
  assumes "starts_from initial h"
  shows "lm_applied (initial_maps initial) = map (\<lambda>a. (la_event_id a, la_digest a)) (ag_applied_events (history_projection h))"
    and "lm_type_counts (initial_maps initial) = map (\<lambda>k. (k, type_count_in h k)) (sorted_list_of_set (se_event_type ` set h))"
    and "lm_expected (initial_maps initial) = map (\<lambda>k. (k, int (length (in_stream k h)) + 1)) (sorted_list_of_set (se_stream_id ` set h))"
    and "lm_starting_count (initial_maps initial) = int (length h)"
    and "lm_unresolved (initial_maps initial) = []"
proof -
  let ?m = "initial_maps initial"
  have "lm_applied ?m = map (\<lambda>a. (la_event_id a, la_digest a)) (ag_applied_events (history_projection h))
    \<and> lm_type_counts ?m = map (\<lambda>k. (k, type_count_in h k)) (sorted_list_of_set (se_event_type ` set h))
    \<and> lm_expected ?m = map (\<lambda>k. (k, int (length (in_stream k h)) + 1)) (sorted_list_of_set (se_stream_id ` set h))
    \<and> lm_starting_count ?m = int (length h) \<and> lm_unresolved ?m = []"
  proof (cases initial)
    case None
    with assms show ?thesis by (simp add: starts_from_def initial_maps_def history_projection_def)
  next
    case (Some r)
    with assms have st: "lr_state r = history_projection h" "lr_issues r = []" and d: "distinct (map se_event_id h)"
      and c: "continues (\<lambda>_. 0) h" by (simp_all add: starts_from_def)
    have "dict_of la_event_id (ag_applied_events (history_projection h)) =
        map (\<lambda>a. (la_event_id a, a)) (ag_applied_events (history_projection h))"
      by (rule dict_of_distinct) (use d in \<open>simp add: history_projection_def comp_def distinct_map\<close>)
    moreover have "dict_of tc_event_type (ag_type_counts (history_projection h)) =
        map (\<lambda>c. (tc_event_type c, c)) (ag_type_counts (history_projection h))"
      by (rule dict_of_distinct) (simp add: history_projection_def comp_def)
    moreover have "dict_of sp_stream_id (ag_streams (history_projection h)) =
        map (\<lambda>c. (sp_stream_id c, c)) (ag_streams (history_projection h))"
      by (rule dict_of_distinct) (simp add: history_projection_def projection_in_def comp_def)
    moreover have "dict_of ri_event_id ([] :: replay_issue list) = []" by (simp add: dict_of_def)
    moreover have "ag_event_count (history_projection h) = int (length h)" by (simp add: history_projection_def)
    ultimately show ?thesis using Some st continues_last [OF c]
      by (auto simp: initial_maps_def history_projection_def projection_in_def comp_def)
  qed
  then show "lm_applied ?m = map (\<lambda>a. (la_event_id a, la_digest a)) (ag_applied_events (history_projection h))"
    "lm_type_counts ?m = map (\<lambda>k. (k, type_count_in h k)) (sorted_list_of_set (se_event_type ` set h))"
    "lm_expected ?m = map (\<lambda>k. (k, int (length (in_stream k h)) + 1)) (sorted_list_of_set (se_stream_id ` set h))"
    "lm_starting_count ?m = int (length h)" "lm_unresolved ?m = []" by blast+
qed

lemma applied_keys: "fst ` set (map (\<lambda>a. (la_event_id a, la_digest a)) (ag_applied_events (history_projection h))) = se_event_id ` set h"
  by (simp add: history_projection_def image_image)

lemma fresh_for_history:
  assumes "starts_from initial h"
  shows "fresh_for (initial_maps initial) r \<longleftrightarrow> se_event_id r \<notin> se_event_id ` set h"
  unfolding fresh_for_def initial_maps_history(1) [OF assms] map_of_eq_None_iff applied_keys ..

lemma applied_digest:
  assumes "starts_from initial h" "a \<in> set h"
  shows "map_of (lm_applied (initial_maps initial)) (se_event_id a) = Some (se_digest a)"
proof -
  have "distinct (map fst (lm_applied (initial_maps initial)))"
    using assms(1) by (simp add: initial_maps_history(1) [OF assms(1)] starts_from_def history_projection_def comp_def distinct_map)
  moreover have "(se_event_id a, se_digest a) \<in> set (lm_applied (initial_maps initial))"
    using assms(2) by (auto simp: initial_maps_history(1) [OF assms(1)] history_projection_def image_image)
  ultimately show ?thesis by simp
qed

lemma base_of_history:
  assumes "starts_from initial h"
  shows "base_of (lm_expected (initial_maps initial)) k = int (length (in_stream k h))"
proof (cases "k \<in> se_stream_id ` set h")
  case True
  then have "map_of (lm_expected (initial_maps initial)) k = Some (int (length (in_stream k h)) + 1)"
    unfolding initial_maps_history(3) [OF assms] by (auto simp: map_of_map_restrict restrict_map_def)
  then show ?thesis by (simp add: base_of_def)
next
  case False
  then have "map_of (lm_expected (initial_maps initial)) k = None"
    unfolding initial_maps_history(3) [OF assms] by (simp add: map_of_map_restrict restrict_map_def)
  moreover have "in_stream k h = []" using False by (simp only: in_stream_Nil_iff not_False_eq_True)
  ultimately show ?thesis by (simp add: base_of_def)
qed

lemma agreement_consistent:
  assumes "starts_from initial h"
  shows "(\<forall>r \<in> set rs. agrees (initial_maps initial) r) \<and> consistent (filter (fresh_for (initial_maps initial)) rs)
    \<longleftrightarrow> consistent (h @ rs)"
proof -
  let ?m = "initial_maps initial"
  have ag: "agrees ?m r \<longleftrightarrow> (\<forall>a \<in> set h. se_event_id a = se_event_id r \<longrightarrow> se_digest a = se_digest r)" for r
  proof -
    have "agrees ?m r \<longleftrightarrow> (\<forall>d. map_of (lm_applied ?m) (se_event_id r) = Some d \<longrightarrow> d = se_digest r)"
      by (simp add: agrees_def initial_maps_history(5) [OF assms] del: map_of_eq_Some_iff)
    also have "\<dots> \<longleftrightarrow> (\<forall>a \<in> set h. se_event_id a = se_event_id r \<longrightarrow> se_digest a = se_digest r)"
    proof (cases "se_event_id r \<in> se_event_id ` set h")
      case True
      then obtain a where a: "a \<in> set h" "se_event_id r = se_event_id a" by (metis imageE)
      have "distinct (map se_event_id h)" using assms by (simp add: starts_from_def)
      with a have "b = a" if "b \<in> set h" "se_event_id b = se_event_id r" for b
        using that by (metis distinct_map inj_onD)
      then show ?thesis using applied_digest [OF assms a(1)] a by (metis option.inject)
    next
      case False
      then have "map_of (lm_applied ?m) (se_event_id r) = None" using fresh_for_history [OF assms] by (simp add: fresh_for_def)
      then show ?thesis using False by (auto simp del: map_of_eq_Some_iff) (metis image_eqI)
    qed
    finally show ?thesis .
  qed
  show ?thesis
  proof
    assume l: "(\<forall>r \<in> set rs. agrees ?m r) \<and> consistent (filter (fresh_for ?m) rs)"
    show "consistent (h @ rs)"
    proof (rule consistentI)
      fix a b assume ab: "a \<in> set (h @ rs)" "b \<in> set (h @ rs)" "se_event_id a = se_event_id b"
      show "se_digest a = se_digest b"
      proof (cases "se_event_id a \<in> se_event_id ` set h")
        case True
        then obtain c where c: "c \<in> set h" "se_event_id a = se_event_id c" by (metis imageE)
        have same: "se_digest c = se_digest x" if "x \<in> set (h @ rs)" "se_event_id x = se_event_id c" for x
        proof (cases "x \<in> set h")
          case True
          moreover have "inj_on se_event_id (set h)" using assms by (simp add: starts_from_def distinct_map)
          ultimately have "x = c" using c(1) that(2) by (simp add: inj_on_eq_iff)
          then show ?thesis by simp
        next
          case False
          then have "agrees ?m x" using l that(1) by simp
          then show ?thesis using c that by (simp add: ag)
        qed
        have "se_digest c = se_digest a" by (rule same [OF ab(1)]) (use c in simp)
        moreover have "se_digest c = se_digest b" by (rule same [OF ab(2)]) (use ab(3) c in simp)
        ultimately show ?thesis by simp
      next
        case False
        then have "a \<notin> set h" "b \<notin> set h" using ab(3) by (metis image_eqI)+
        with False have "a \<in> set (filter (fresh_for ?m) rs)" "b \<in> set (filter (fresh_for ?m) rs)"
          using ab fresh_for_history [OF assms] by auto
        with l ab show ?thesis by (intro consistentD [of "filter (fresh_for ?m) rs"]) auto
      qed
    qed
  next
    assume c: "consistent (h @ rs)"
    have "agrees ?m r" if "r \<in> set rs" for r unfolding ag
      using consistentD [OF c] that by auto
    moreover have "consistent (filter (fresh_for ?m) rs)" by (rule consistent_mono [OF c]) auto
    ultimately show "(\<forall>r \<in> set rs. agrees ?m r) \<and> consistent (filter (fresh_for ?m) rs)" by blast
  qed
qed

text \<open>The records a batch adds to a history, and when it is accepted.\<close>

definition new_records :: "stored_event list \<Rightarrow> stored_event list \<Rightarrow> stored_event list" where
  "new_records h rs = sort_key stored_key (first_occurrences [] (filter (\<lambda>r. se_event_id r \<notin> se_event_id ` set h) rs))"

definition finish :: "'p ledger_codec \<Rightarrow> aggregate_state \<Rightarrow> ledger_result res" where
  "finish lc st =
     bindE (mk_aggregate_state st) (\<lambda>st.
     bindE (canonical_state_json st RS_COMPLETE [] REPLAY_SCHEMA_VERSION REDUCER_VERSION) (\<lambda>j.
     mk_ledger_result
       \<lparr>lr_schema_version = REPLAY_SCHEMA_VERSION, lr_reducer_version = REDUCER_VERSION, lr_status = RS_COMPLETE,
        lr_state = st, lr_issues = [], lr_canonical_state_json = j, lr_state_hash = lc_sha256 lc j\<rparr>))"

lemma new_records_distinct:
  assumes "starts_from initial h"
  shows "distinct (map se_event_id (h @ new_records h rs))"
proof -
  let ?f = "filter (\<lambda>r. se_event_id r \<notin> se_event_id ` set h) rs"
  have "distinct (map se_event_id (first_occurrences [] ?f))" by (rule first_occurrences_distinct) simp
  moreover have "set (first_occurrences [] ?f) \<subseteq> set ?f" using first_occurrences_set [of "[]" ?f] by simp
  then have "se_event_id ` set (first_occurrences [] ?f) \<inter> se_event_id ` set h = {}" by fastforce
  ultimately show ?thesis
    using assms by (auto simp: new_records_def starts_from_def distinct_map)
qed

lemma project_stream_history:
  assumes "starts_from initial h" "k \<in> se_stream_id ` set (h @ rs)"
  shows "project_stream initial rs k = mk_stream_projection (projection_in (h @ rs) k)"
proof -
  define previous where "previous = (case initial of None \<Rightarrow> None | Some r \<Rightarrow> find (\<lambda>p. sp_stream_id p = k) (ag_streams (lr_state r)))"
  have prev: "previous = (if k \<in> se_stream_id ` set h then Some (projection_in h k) else None)"
  proof (cases initial)
    case None
    then show ?thesis using assms(1) by (simp add: previous_def starts_from_def)
  next
    case (Some r)
    then have st: "lr_state r = history_projection h" using assms(1) by (simp add: starts_from_def)
    have "find (\<lambda>p. sp_stream_id p = k) (map (projection_in h) ks) = (if k \<in> set ks then Some (projection_in h k) else None)" for ks
      by (induction ks) (auto simp: projection_in_def)
    then show ?thesis using Some st by (simp add: previous_def history_projection_def)
  qed
  have len: "(case previous of None \<Rightarrow> 0 | Some p \<Rightarrow> sp_event_count p) = int (length (in_stream k h))"
    unfolding prev by (auto simp: projection_in_def in_stream_Nil_iff)
  show ?thesis
  proof (cases "in_stream k rs = []")
    case True
    then have "k \<in> se_stream_id ` set h" using assms(2) by (auto simp: in_stream_Nil_iff)
    with True len prev show ?thesis
      unfolding project_stream_def previous_def [symmetric] Let_def in_stream_def [symmetric]
      by (simp add: projection_in_def)
  next
    case False
    with len show ?thesis
      unfolding project_stream_def previous_def [symmetric] Let_def in_stream_def [symmetric]
      by (simp add: projection_in_def)
  qed
qed

lemma sort_distinct_set: "distinct xs \<Longrightarrow> set xs = S \<Longrightarrow> sort xs = sorted_list_of_set S"
  by (auto simp: sorted_list_of_set_sort_remdups remdups_id_iff_distinct [THEN iffD2])

lemma closing_streams:
  assumes "starts_from initial h" "tracks (lm_expected (initial_maps initial)) s" "sq_valid s = rs"
  shows "mapE (project_stream initial rs) (sort (map fst (sq_expected s)))
    = mapE mk_stream_projection (ag_streams (history_projection (h @ rs)))"
proof -
  have "fst ` set (lm_expected (initial_maps initial)) = se_stream_id ` set h"
    by (simp add: initial_maps_history(3) [OF assms(1)] image_image)
  then have "set (map fst (sq_expected s)) = se_stream_id ` set (h @ rs)" "distinct (map fst (sq_expected s))"
    using assms(2,3) unfolding tracks_def by auto
  then have "sort (map fst (sq_expected s)) = sorted_list_of_set (se_stream_id ` set (h @ rs))"
    by (intro sort_distinct_set)
  moreover have "mapE (project_stream initial rs) (sorted_list_of_set (se_stream_id ` set (h @ rs)))
      = mapE (\<lambda>k. mk_stream_projection (projection_in (h @ rs) k)) (sorted_list_of_set (se_stream_id ` set (h @ rs)))"
    by (rule mapE_cong) (auto intro: project_stream_history [OF assms(1)])
  ultimately show ?thesis by (simp add: history_projection_def mapE_map)
qed

lemma closing_counts:
  assumes "starts_from initial h"
  shows "mapE (\<lambda>(kind, n). mk_event_type_count \<lparr>tc_event_type = kind, tc_count = n\<rparr>)
      (sort_key fst (count_types (lm_type_counts (initial_maps initial)) rs))
    = mapE mk_event_type_count (ag_type_counts (history_projection (h @ rs)))"
proof -
  let ?d = "lm_type_counts (initial_maps initial)"
  have "distinct (map fst ?d)" "\<And>k v. (k, v) \<in> set ?d \<Longrightarrow> v = type_count_in h k" "fst ` set ?d = se_event_type ` set h"
    by (auto simp: initial_maps_history(2) [OF assms] comp_def image_image)
  note c = count_types_dict [OF this, of rs]
  have "sort_key fst (count_types ?d rs) =
      map (\<lambda>k. (k, type_count_in (h @ rs) k)) (sorted_list_of_set (se_event_type ` set (h @ rs)))"
    by (rule sorted_dict) (use c in auto)
  then show ?thesis by (simp add: history_projection_def mapE_map)
qed

lemma closing_applied:
  assumes "starts_from initial h" "distinct (map se_event_id (h @ rs))"
  shows "mapE (\<lambda>(event_id, digest). mk_ledger_applied \<lparr>la_event_id = event_id, la_digest = digest\<rparr>)
      (sort_key fst (mark_applied (lm_applied (initial_maps initial)) rs))
    = mapE mk_ledger_applied (ag_applied_events (history_projection (h @ rs)))"
proof -
  have "se_event_id ` set rs \<inter> fst ` set (lm_applied (initial_maps initial)) = {}"
    unfolding initial_maps_history(1) [OF assms(1)] applied_keys using assms(2) by auto
  then have "mark_applied (lm_applied (initial_maps initial)) rs
      = lm_applied (initial_maps initial) @ map (\<lambda>r. (se_event_id r, se_digest r)) rs"
    by (rule mark_applied_fresh [rotated]) (use assms(2) in simp)
  then show ?thesis
    using applied_dict [OF assms(2)] unfolding initial_maps_history(1) [OF assms(1)]
    by (metis (mono_tags, lifting) mapE_map mapE_cong case_prod_unfold)
qed

definition start_sequencing :: "ledger_maps \<Rightarrow> sequencing" where
  "start_sequencing m = \<lparr>sq_expected = lm_expected m, sq_unresolved = lm_unresolved m, sq_valid = []\<rparr>"

lemma tracks_start: "starts_from initial h \<Longrightarrow> tracks (lm_expected (initial_maps initial)) (start_sequencing (initial_maps initial))"
  unfolding start_sequencing_def by (rule tracks_initial) (simp add: initial_maps_history(3) comp_def)

lemma bind_identity: "(\<And>ys. m = Inr ys \<Longrightarrow> ys = xs) \<Longrightarrow> bindE m k = Inr r \<longleftrightarrow> m = Inr xs \<and> k xs = Inr r"
  by (cases m) auto

lemma bind_ledger:
  "bindE (mapE mk_stream_projection ps) k1 = Inr r \<longleftrightarrow> mapE mk_stream_projection ps = Inr ps \<and> k1 ps = Inr r"
  "bindE (mapE mk_event_type_count cs) k2 = Inr r \<longleftrightarrow> mapE mk_event_type_count cs = Inr cs \<and> k2 cs = Inr r"
  "bindE (mapE mk_ledger_applied as) k3 = Inr r \<longleftrightarrow> mapE mk_ledger_applied as = Inr as \<and> k3 as = Inr r"
  by (rule bind_identity, erule mapE_ledger_identity)+

lemma staged_iff:
  assumes "\<And>u. A u \<longleftrightarrow> P \<and> u = u0" "(\<exists>t. B u0 t) \<longleftrightarrow> E" "\<And>t. B u0 t \<Longrightarrow> C t \<longleftrightarrow> D"
  shows "(\<exists>u t. A u \<and> B u t \<and> C t) \<longleftrightarrow> P \<and> E \<and> D"
proof -
  have "(\<exists>u t. A u \<and> B u t \<and> C t) \<longleftrightarrow> P \<and> (\<exists>t. B u0 t \<and> C t)" by (simp add: assms(1))
  also have "(\<exists>t. B u0 t \<and> C t) \<longleftrightarrow> (\<exists>t. B u0 t) \<and> D" using assms(3) by (metis (no_types))
  finally show ?thesis by (simp add: assms(2))
qed

lemma close_reduction_iff:
  assumes s: "starts_from initial h" and f: "foldE (sequence_step POLICY_DEFAULT) (start_sequencing (initial_maps initial)) rs = Inr t"
    and d: "distinct (map se_event_id (h @ rs))"
  shows "close_reduction lc initial (initial_maps initial) t = Inr r \<longleftrightarrow> finish lc (history_projection (h @ rs)) = Inr r"
proof -
  note T = sequence_fold_default [OF tracks_start [OF s] f]
  have V: "sq_valid t = rs" "sq_unresolved t = []" using T by (simp_all add: initial_maps_history(5) [OF s] start_sequencing_def)
  note st = closing_streams [OF s conjunct1 [OF conjunct2 [OF T]] V(1)]
  let ?p = "history_projection (h @ rs)"
  have p: "?p = \<lparr>ag_event_count = int (length h) + int (length rs), ag_type_counts = ag_type_counts ?p, ag_streams = ag_streams ?p,
    ag_applied_events = ag_applied_events ?p\<rparr>" by (simp add: history_projection_def)
  have "close_reduction lc initial (initial_maps initial) t =
    bindE (mapE mk_stream_projection (ag_streams ?p)) (\<lambda>streams.
    bindE (mapE mk_event_type_count (ag_type_counts ?p)) (\<lambda>counts.
    bindE (mapE mk_ledger_applied (ag_applied_events ?p)) (\<lambda>applied.
    finish lc \<lparr>ag_event_count = int (length h) + int (length rs), ag_type_counts = counts, ag_streams = streams,
      ag_applied_events = applied\<rparr>)))"
    unfolding close_reduction_def Let_def V st closing_counts [OF s] closing_applied [OF s d] initial_maps_history(4) [OF s] finish_def
    by simp
  also have "\<dots> = Inr r \<longleftrightarrow> mapE mk_stream_projection (ag_streams ?p) = Inr (ag_streams ?p)
      \<and> mapE mk_event_type_count (ag_type_counts ?p) = Inr (ag_type_counts ?p)
      \<and> mapE mk_ledger_applied (ag_applied_events ?p) = Inr (ag_applied_events ?p) \<and> finish lc ?p = Inr r"
    by (simp only: bind_ledger p [symmetric])
  also have "\<dots> \<longleftrightarrow> finish lc ?p = Inr r"
    by (auto simp: finish_def bindE_Inr_iff mk_aggregate_state_Inr_iff)
  finally show ?thesis .
qed

lemma unique_history:
  assumes "starts_from initial h"
  shows "foldE (unique_step (initial_maps initial)) [] rs = Inr us \<longleftrightarrow> consistent (h @ rs) \<and>
    us = first_occurrences [] (filter (\<lambda>r. se_event_id r \<notin> se_event_id ` set h) rs)"
proof -
  have fr: "fresh_for (initial_maps initial) = (\<lambda>r. se_event_id r \<notin> se_event_id ` set h)"
    by (intro ext) (rule fresh_for_history [OF assms])
  have "distinct (map se_event_id [])" by simp
  from unique_fold_iff [OF this, of "initial_maps initial" rs us] agreement_consistent [OF assms, of rs]
  show ?thesis unfolding fr append_Nil by blast
qed

lemma sequencing_history:
  assumes "starts_from initial h"
  shows "is_ok (foldE (sequence_step POLICY_DEFAULT) (start_sequencing (initial_maps initial)) rs) \<longleftrightarrow> continues (\<lambda>_. 0) (h @ rs)"
proof -
  have base: "base_of (lm_expected (initial_maps initial)) = (\<lambda>k. int (length (in_stream k h)))"
    by (intro ext) (rule base_of_history [OF assms])
  have ch: "continues (\<lambda>_. 0) h" using assms by (simp add: starts_from_def)
  show ?thesis
  proof
    assume "is_ok (foldE (sequence_step POLICY_DEFAULT) (start_sequencing (initial_maps initial)) rs)"
    then obtain t where "foldE (sequence_step POLICY_DEFAULT) (start_sequencing (initial_maps initial)) rs = Inr t" by (auto simp: is_ok_iff)
    from sequence_fold_default [OF tracks_start [OF assms] this]
    have "sq_valid t = rs" "tracks (lm_expected (initial_maps initial)) t" by (simp_all add: start_sequencing_def)
    then have "continues (base_of (lm_expected (initial_maps initial))) rs" unfolding tracks_def by simp
    then show "continues (\<lambda>_. 0) (h @ rs)" using ch base by (simp add: continues_append)
  next
    assume "continues (\<lambda>_. 0) (h @ rs)"
    then have "continues (base_of (lm_expected (initial_maps initial))) (sq_valid (start_sequencing (initial_maps initial)) @ rs)"
      using base by (simp add: continues_append start_sequencing_def)
    then show "is_ok (foldE (sequence_step POLICY_DEFAULT) (start_sequencing (initial_maps initial)) rs)"
      by (rule sequence_fold_default_ok [OF tracks_start [OF assms]])
  qed
qed

lemma reduce_default_iff:
  assumes s: "starts_from initial h" and v: "mk_optional (validate_snapshot lc) initial = Inr initial"
  shows "reduce_events ops lc es POLICY_DEFAULT initial = Inr r \<longleftrightarrow>
    is_ok (validate_execution_report_events ops es)
    \<and> (\<exists>rs. mapE (from_envelope ops lc) es = Inr rs \<and> consistent (h @ rs)
         \<and> continues (\<lambda>_. 0) (h @ new_records h rs) \<and> finish lc (history_projection (h @ new_records h rs)) = Inr r)"
proof -
  let ?m = "initial_maps initial"
  have "reduce_events ops lc es POLICY_DEFAULT initial = Inr r \<longleftrightarrow>
      is_ok (validate_execution_report_events ops es) \<and> (\<exists>rs us t. mapE (from_envelope ops lc) es = Inr rs
        \<and> foldE (unique_step ?m) [] rs = Inr us
        \<and> foldE (sequence_step POLICY_DEFAULT) (start_sequencing ?m) (sort_key stored_key us) = Inr t
        \<and> close_reduction lc initial ?m t = Inr r)"
    by (simp add: reduce_events_def v Let_def bindE_Inr_iff catch_Inr_iff is_ok_iff start_sequencing_def)
  moreover have "(\<exists>us t. foldE (unique_step ?m) [] rs = Inr us
        \<and> foldE (sequence_step POLICY_DEFAULT) (start_sequencing ?m) (sort_key stored_key us) = Inr t
        \<and> close_reduction lc initial ?m t = Inr r)
      \<longleftrightarrow> consistent (h @ rs) \<and> continues (\<lambda>_. 0) (h @ new_records h rs)
        \<and> finish lc (history_projection (h @ new_records h rs)) = Inr r" for rs
  proof (rule staged_iff)
    show "foldE (unique_step ?m) [] rs = Inr u \<longleftrightarrow> consistent (h @ rs)
        \<and> u = first_occurrences [] (filter (\<lambda>r. se_event_id r \<notin> se_event_id ` set h) rs)" for u
      by (rule unique_history [OF s])
  qed (fold new_records_def is_ok_iff, rule sequencing_history [OF s],
      rule close_reduction_iff [OF s _ new_records_distinct [OF s]], assumption)
  ultimately show ?thesis by (simp only: ex_simps)
qed

end
