(* ===== verification/Ledger_Replay.thy ===== *)
theory Ledger_Replay
  imports Ledger_Reduction
begin

text \<open>
  Determinism of the replay: the order and the repetition of deliveries do not matter, and resuming
  from a snapshot gives the result of the full replay.
\<close>


subsection \<open>The order of delivery does not matter\<close>

definition is_report :: "'p payload_ops \<Rightarrow> 'p event_envelope \<Rightarrow> bool" where
  "is_report ops e = (ev_event_type e = ''FillEvent'' \<or> po_fill_report ops (ev_payload e) \<noteq> None)"

definition report_of :: "'p payload_ops \<Rightarrow> 'p event_envelope \<Rightarrow> fill_event option" where
  "report_of ops e = (case canonical_event_envelope ops e of Inl _ \<Rightarrow> None | Inr c \<Rightarrow> po_fill_report ops (ev_payload c))"

fun first_of_each :: "'a list \<Rightarrow> 'a list \<Rightarrow> 'a list" where
  "first_of_each ds [] = ds"
| "first_of_each ds (e # es) = first_of_each (if e \<in> set ds then ds else ds @ [e]) es"

lemma first_of_each_set: "set (first_of_each ds es) = set ds \<union> set es"
  by (induction es arbitrary: ds) auto

lemma first_of_each_distinct: "distinct ds \<Longrightarrow> distinct (first_of_each ds es)"
  by (induction es arbitrary: ds) auto

definition scanned :: "'p payload_ops \<Rightarrow> 'p event_envelope list \<Rightarrow> report_scan" where
  "scanned ops ds = \<lparr>rs_reports = map (\<lambda>e. the (report_of ops e)) ds, rs_seen_event_ids = map ev_event_id ds\<rparr>"

lemma canonical_event_envelope_id: "canonical_event_envelope ops e = Inr c \<Longrightarrow> ev_event_id c = ev_event_id e"
  by (auto simp: canonical_event_envelope_def catch_Inr_iff mk_event_envelope_Inr_iff)

lemma report_scan_new:
  assumes "is_report ops e" "ev_event_id e \<notin> ev_event_id ` set ds"
  shows "report_scan_step ops (scanned ops ds) e = Inr a \<longleftrightarrow> report_of ops e \<noteq> None \<and> a = scanned ops (ds @ [e])"
proof (cases "canonical_event_envelope ops e")
  case (Inl x)
  then show ?thesis using assms(1) by (auto simp: report_scan_step_def report_of_def is_report_def)
next
  case (Inr c)
  note id = canonical_event_envelope_id [OF Inr]
  have nr: "\<not> (ev_event_type e \<noteq> ''FillEvent'' \<and> po_fill_report ops (ev_payload e) = None)"
    using assms(1) unfolding is_report_def by blast
  have "report_scan_step ops (scanned ops ds) e = (case po_fill_report ops (ev_payload c) of
      None \<Rightarrow> Inl (ValueError ''FillEvent envelope must carry a concrete FillEvent'')
    | Some f \<Rightarrow> Inr \<lparr>rs_reports = map (\<lambda>e. the (report_of ops e)) ds @ [f], rs_seen_event_ids = map ev_event_id ds @ [ev_event_id e]\<rparr>)"
    unfolding report_scan_step_def if_not_P [OF nr] using assms(2) Inr id by (simp add: scanned_def split: option.split)
  moreover have "report_of ops e = po_fill_report ops (ev_payload c)" using Inr by (simp add: report_of_def)
  ultimately show ?thesis by (cases "po_fill_report ops (ev_payload c)") (auto simp: scanned_def)
qed

lemma report_scan_fold:
  assumes "inj_on ev_event_id (set ds \<union> set es)" "\<forall>d \<in> set ds. report_of ops d \<noteq> None"
  shows "foldE (report_scan_step ops) (scanned ops ds) es = Inr acc \<longleftrightarrow>
    (\<forall>e \<in> set es. is_report ops e \<longrightarrow> report_of ops e \<noteq> None)
    \<and> acc = scanned ops (first_of_each ds (filter (is_report ops) es))"
  using assms
proof (induction es arbitrary: ds)
  case Nil
  then show ?case by auto
next
  case (Cons e es)
  have inj: "inj_on ev_event_id (set ds \<union> set es)" by (rule inj_on_subset [OF Cons.prems(1)]) auto
  have seen: "ev_event_id e \<in> ev_event_id ` set ds \<longleftrightarrow> e \<in> set ds" using Cons.prems(1) by (auto simp: inj_on_def)
  show ?case
  proof (cases "is_report ops e")
    case False
    then have "report_scan_step ops (scanned ops ds) e = Inr (scanned ops ds)" by (auto simp: report_scan_step_def is_report_def)
    with False Cons.IH [OF inj Cons.prems(2)] show ?thesis by simp
  next
    case True
    show ?thesis
    proof (cases "e \<in> set ds")
      case in_ds: True
      then have ok: "report_of ops e \<noteq> None" using Cons.prems(2) by blast
      then obtain c where c: "canonical_event_envelope ops e = Inr c" by (cases "canonical_event_envelope ops e") (auto simp: report_of_def)
      then have "report_scan_step ops (scanned ops ds) e = Inr (scanned ops ds)"
        using True in_ds canonical_event_envelope_id [OF c] by (auto simp: report_scan_step_def is_report_def scanned_def)
      with True in_ds ok Cons.IH [OF inj Cons.prems(2)] show ?thesis by simp
    next
      case new: False
      have step: "report_scan_step ops (scanned ops ds) e = Inr a \<longleftrightarrow> report_of ops e \<noteq> None \<and> a = scanned ops (ds @ [e])" for a
        by (rule report_scan_new) (use True new seen in auto)
      have inj': "inj_on ev_event_id (set (ds @ [e]) \<union> set es)" by (rule inj_on_subset [OF Cons.prems(1)]) auto
      show ?thesis
      proof (cases "report_of ops e = None")
        case True
        then show ?thesis using step \<open>is_report ops e\<close> by (auto simp: bindE_Inr_iff)
      next
        case False
        then have "\<forall>d \<in> set (ds @ [e]). report_of ops d \<noteq> None" using Cons.prems(2) by simp
        from Cons.IH [OF inj' this] step False new \<open>is_report ops e\<close> show ?thesis by (auto simp: bindE_Inr_iff)
      qed
    qed
  qed
qed

lemma report_events_same_set:
  assumes "is_ok (validate_execution_report_events ops es)" "set fs = set es" "inj_on ev_event_id (set es)"
  shows "is_ok (validate_execution_report_events ops fs)"
proof -
  have empty: "\<lparr>rs_reports = [], rs_seen_event_ids = []\<rparr> = scanned ops []" by (simp add: scanned_def)
  have inj: "inj_on ev_event_id (set [] \<union> set es)" "inj_on ev_event_id (set [] \<union> set fs)" using assms(2,3) by simp_all
  have nil: "\<forall>d \<in> set []. report_of ops d \<noteq> None" by simp
  let ?ds = "\<lambda>es. first_of_each [] (filter (is_report ops) es)"
  from assms(1) obtain out where ok: "\<forall>e \<in> set es. is_report ops e \<longrightarrow> report_of ops e \<noteq> None"
    and out: "validate_fill_report_batch (rs_reports (scanned ops (?ds es))) = Inr out"
    unfolding validate_execution_report_events_def empty
    by (auto simp: is_ok_iff bindE_Inr_iff report_scan_fold [OF inj(1) nil])
  have "mset (?ds es) = mset (?ds fs)"
    using first_of_each_distinct [of "[]"] assms(2) by (intro set_eq_iff_mset_eq_distinct [THEN iffD1]) (auto simp: first_of_each_set)
  then have "mset (rs_reports (scanned ops (?ds es))) = mset (rs_reports (scanned ops (?ds fs)))" by (simp add: scanned_def)
  from validate_batch_permute [OF this out] ok assms(2) show ?thesis
    unfolding validate_execution_report_events_def empty
    by (auto simp: is_ok_iff bindE_Inr_iff report_scan_fold [OF inj(2) nil])
qed

text \<open>
  What the ledger relies on when it compares digests: SHA-256 does not collide on the canonical texts
  of a batch, and the text determines the event.
\<close>

definition digest_identifies :: "'p payload_ops \<Rightarrow> 'p ledger_codec \<Rightarrow> 'p event_envelope list \<Rightarrow> bool" where
  "digest_identifies ops lc es =
     (\<forall>e \<in> set es. \<forall>f \<in> set es. \<forall>r q.
        from_envelope ops lc e = Inr r \<longrightarrow> from_envelope ops lc f = Inr q
        \<longrightarrow> se_event_id r = se_event_id q \<longrightarrow> se_digest r = se_digest q \<longrightarrow> e = f)"

lemma from_envelope_id: "from_envelope ops lc e = Inr r \<Longrightarrow> se_event_id r = ev_event_id e"
  by (auto simp: from_envelope_def bindE_Inr_iff dest!: mk_ledger_identity(5))

lemma mapE_same_set:
  assumes "mapE f xs = Inr rs" "set ys = set xs"
  shows "\<exists>qs. mapE f ys = Inr qs \<and> set qs = set rs"
proof -
  have ok: "f x = Inr (projr (f x))" if "x \<in> set xs" for x
  proof -
    obtain i where i: "i < length xs" "x = xs ! i" using \<open>x \<in> set xs\<close> by (auto simp: in_set_conv_nth)
    then show ?thesis using mapE_Inr_nth [OF assms(1) i(1)] by simp
  qed
  have "mapE f xs = Inr (map (\<lambda>x. projr (f x)) xs)" "mapE f ys = Inr (map (\<lambda>x. projr (f x)) ys)"
    by (rule mapE_Inr_map, use ok assms(2) in blast)+
  with assms show ?thesis by auto
qed

lemma unique_conflicts:
  assumes "foldE (unique_step m) [] rs = Inr us"
  shows "\<forall>a \<in> set rs. \<forall>b \<in> set rs. se_event_id a = se_event_id b \<longrightarrow> se_digest a = se_digest b"
proof -
  have "distinct (map se_event_id [])" by simp
  from unique_fold_iff [OF this, of m rs us] assms
  have ag: "\<And>r. r \<in> set rs \<Longrightarrow> agrees m r" and c: "consistent (filter (fresh_for m) rs)" by simp_all
  show ?thesis
  proof (intro ballI impI)
    fix a b assume ab: "a \<in> set rs" "b \<in> set rs" "se_event_id a = se_event_id b"
    show "se_digest a = se_digest b"
    proof (cases "map_of (lm_applied m) (se_event_id a)")
      case None
      with ab show ?thesis by (intro consistentD [OF c]) (auto simp: fresh_for_def)
    next
      case (Some d)
      with ag [OF ab(1)] ag [OF ab(2)] ab(3) show ?thesis by (simp add: agrees_def)
    qed
  qed
qed

lemma unique_same_set:
  assumes "foldE (unique_step m) [] rs = Inr us" "set qs = set rs" "inj_on se_event_id (set rs)"
  shows "\<exists>vs. foldE (unique_step m) [] qs = Inr vs \<and> sort_key stored_key vs = sort_key stored_key us"
proof -
  have nil: "distinct (map se_event_id [])" by simp
  note U = unique_fold_iff [OF nil, of m]
  have us: "us = first_occurrences [] (filter (fresh_for m) rs)" and ag: "\<forall>r \<in> set rs. agrees m r"
    and c: "consistent (filter (fresh_for m) rs)" using U [of rs us] assms(1) by simp_all
  let ?vs = "first_occurrences [] (filter (fresh_for m) qs)"
  have "consistent (filter (fresh_for m) qs)" by (rule consistent_mono [OF c]) (use assms(2) in auto)
  then have ok: "foldE (unique_step m) [] qs = Inr ?vs" using U [of qs ?vs] ag assms(2) by simp
  have full: "set (first_occurrences [] (filter (fresh_for m) xs)) = set (filter (fresh_for m) xs)" if "set xs = set rs" for xs
  proof -
    let ?f = "filter (fresh_for m) xs"
    have sub: "set (first_occurrences [] ?f) \<subseteq> set ?f" using first_occurrences_set [of "[]" ?f] by simp
    have "r \<in> set (first_occurrences [] ?f)" if r: "r \<in> set ?f" for r
    proof -
      have "se_event_id r \<in> se_event_id ` set (first_occurrences [] ?f)" using first_occurrences_ids [of "[]" ?f] r by auto
      then obtain q where q: "q \<in> set (first_occurrences [] ?f)" "se_event_id q = se_event_id r" by (metis imageE)
      then have "q \<in> set rs" "r \<in> set rs" using sub r \<open>set xs = set rs\<close> by auto
      then have "q = r" using q(2) assms(3) by (simp add: inj_on_eq_iff)
      with q(1) show ?thesis by simp
    qed
    with sub show ?thesis by blast
  qed
  have du: "distinct (map se_event_id us)" unfolding us by (rule first_occurrences_distinct [OF nil])
  have dv: "distinct (map se_event_id ?vs)" by (rule first_occurrences_distinct [OF nil])
  have "set us = set ?vs" unfolding us using full [of rs] full [OF assms(2)] assms(2) by auto
  then have m: "mset us = mset ?vs" using du dv distinct_map set_eq_iff_mset_eq_distinct by blast
  have "distinct (map stored_key us)" using du by (auto simp: distinct_map inj_on_def stored_key_def record_key_def)
  from sort_key_permute [OF m this] ok show ?thesis by metis
qed

lemma reduce_same_set:
  assumes "reduce_events ops lc es policy initial = Inr r" "set fs = set es" "digest_identifies ops lc es"
  shows "reduce_events ops lc fs policy initial = Inr r"
proof -
  from assms(1) obtain init rs us s where init: "mk_optional (validate_snapshot lc) initial = Inr init"
    and rep: "is_ok (validate_execution_report_events ops es)" and rs: "mapE (from_envelope ops lc) es = Inr rs"
    and us: "foldE (unique_step (initial_maps init)) [] rs = Inr us"
    and s: "foldE (sequence_step policy) (start_sequencing (initial_maps init)) (sort_key stored_key us) = Inr s"
    and cl: "close_reduction lc init (initial_maps init) s = Inr r"
    unfolding reduce_events_def Let_def by (auto simp: bindE_Inr_iff catch_Inr_iff is_ok_iff start_sequencing_def)
  have rec: "\<exists>q. from_envelope ops lc e = Inr q \<and> q \<in> set rs" if "e \<in> set es" for e
  proof -
    obtain i where i: "i < length es" "e = es ! i" using \<open>e \<in> set es\<close> by (auto simp: in_set_conv_nth)
    then show ?thesis using mapE_Inr_nth [OF rs i(1)] mapE_Inr_length [OF rs] by auto
  qed
  have inj: "inj_on ev_event_id (set es)"
  proof (rule inj_onI)
    fix e f assume ef: "e \<in> set es" "f \<in> set es" "ev_event_id e = ev_event_id f"
    obtain p q where pq: "from_envelope ops lc e = Inr p" "p \<in> set rs" "from_envelope ops lc f = Inr q" "q \<in> set rs"
      using rec ef(1,2) by blast
    then have id: "se_event_id p = se_event_id q" using from_envelope_id [OF pq(1)] from_envelope_id [OF pq(3)] ef(3) by simp
    then have "se_digest p = se_digest q" using unique_conflicts [OF us] pq by blast
    with assms(3) ef pq id show "e = f" unfolding digest_identifies_def by blast
  qed
  have "inj_on se_event_id (set rs)"
  proof (rule inj_onI)
    fix p q assume pq: "p \<in> set rs" "q \<in> set rs" "se_event_id p = se_event_id q"
    obtain e f where ef: "e \<in> set es" "from_envelope ops lc e = Inr p" "f \<in> set es" "from_envelope ops lc f = Inr q"
      using mapE_Inr_set [OF rs pq(1)] mapE_Inr_set [OF rs pq(2)] by blast
    then have "e = f" using pq(3) from_envelope_id [OF ef(2)] from_envelope_id [OF ef(4)] inj by (simp add: inj_on_eq_iff)
    with ef show "p = q" by simp
  qed
  note inj_rs = this
  obtain qs where qs: "mapE (from_envelope ops lc) fs = Inr qs" "set qs = set rs" using mapE_same_set [OF rs assms(2)] by blast
  obtain vs where vs: "foldE (unique_step (initial_maps init)) [] qs = Inr vs" "sort_key stored_key vs = sort_key stored_key us"
    using unique_same_set [OF us qs(2) inj_rs] by blast
  obtain out where "validate_execution_report_events ops fs = Inr out"
    using report_events_same_set [OF rep assms(2) inj] by (auto simp: is_ok_iff)
  then show ?thesis
    using init qs(1) vs s cl unfolding reduce_events_def Let_def by (simp add: start_sequencing_def)
qed

subsection \<open>Resuming from a snapshot\<close>

lemma first_occurrences_split:
  "first_occurrences (us @ vs) rs = us @ first_occurrences vs (filter (\<lambda>r. se_event_id r \<notin> se_event_id ` set us) rs)"
proof (induction rs arbitrary: vs)
  case (Cons r rs)
  show ?case using Cons.IH [of vs] Cons.IH [of "vs @ [r]"] by auto
qed simp

lemma new_records_split:
  "mset (new_records [] (rs @ qs)) = mset (new_records [] rs @ new_records (new_records [] rs) qs)"
proof -
  let ?u = "first_occurrences [] rs"
  have "first_occurrences [] (rs @ qs) = ?u @ first_occurrences [] (filter (\<lambda>r. se_event_id r \<notin> se_event_id ` set ?u) qs)"
    using first_occurrences_split [of ?u "[]" qs] by (simp add: first_occurrences_append)
  then show ?thesis by (simp add: new_records_def)
qed

lemma history_projection_cong:
  assumes "mset h = mset h'" "distinct (map se_event_id h)" "\<And>k. in_stream k h = in_stream k h'"
  shows "history_projection h = history_projection h'"
proof -
  have "set h = set h'" "length h = length h'" using assms(1) by (metis set_mset_mset, metis size_mset)
  moreover have "type_count_in h k = type_count_in h' k" for k
    using assms(1) by (metis type_count_in_def mset_filter size_mset)
  moreover have "projection_in h = projection_in h'" using assms(3) by (intro ext) (simp add: projection_in_def)
  moreover have "sort_key se_event_id h = sort_key se_event_id h'" by (rule sort_key_permute [OF assms(1,2)])
  ultimately show ?thesis by (simp add: history_projection_def)
qed

lemma stream_sorted: "sorted (map se_sequence (in_stream k (sort_key stored_key rs)))"
proof -
  have "sorted (map stored_key (in_stream k (sort_key stored_key rs)))"
    unfolding in_stream_def by (intro sorted_filter) simp
  then have s: "sorted_wrt (\<lambda>a b. stored_key a \<le> stored_key b) (in_stream k (sort_key stored_key rs))"
    by (simp add: sorted_wrt_map)
  have "sorted_wrt (\<lambda>a b. se_sequence a \<le> se_sequence b) (in_stream k (sort_key stored_key rs))"
    using s by (rule sorted_wrt_mono_rel [rotated]) (auto simp: stored_key_def record_key_def in_stream_def)
  then show ?thesis by (simp add: sorted_wrt_map)
qed

lemma continues_positions: "continues (\<lambda>_. 0) h \<Longrightarrow> map se_sequence (in_stream k h) = map int [1..<Suc (length (in_stream k h))]"
proof -
  assume "continues (\<lambda>_. 0) h"
  then have "map se_sequence (in_stream k h) = map (\<lambda>i. 1 + int i) [0..<length (in_stream k h)]" by (simp add: continues_def)
  also have "\<dots> = map int (map Suc [0..<length (in_stream k h)])" by simp
  finally show ?thesis by (simp only: map_Suc_upt One_nat_def)
qed

lemma mset_in_stream: "mset h = mset h' \<Longrightarrow> mset (in_stream k h) = mset (in_stream k h')"
  by (metis in_stream_def mset_filter)

lemma sorted_map_int: "sorted (map int [m..<n])"
  by (simp add: sorted_wrt_map sorted_wrt_iff_nth_less)

lemma continues_streams: "continues base h \<Longrightarrow> (\<And>k. in_stream k h = in_stream k h') \<Longrightarrow> continues base h'"
  by (simp add: continues_def)

lemma streams_agree:
  assumes h: "continues (\<lambda>_. 0) h" and h0: "continues (\<lambda>_. 0) h0" and m: "mset h = mset (h0 @ sort_key stored_key rs)"
  shows "in_stream k h = in_stream k (h0 @ sort_key stored_key rs)"
proof -
  let ?n = "in_stream k (sort_key stored_key rs)" and ?a = "in_stream k h0" and ?q = se_sequence
  have ms: "mset (in_stream k h) = mset (?a @ ?n)" using mset_in_stream [OF m, of k] by simp
  then have mq: "mset (map ?q (in_stream k h)) = mset (map ?q (?a @ ?n))" by (metis mset_map)
  have dh: "distinct (map ?q (in_stream k h))" unfolding continues_positions [OF h] by (simp add: distinct_map)
  then have d: "distinct (map ?q (?a @ ?n))" using mq by (metis mset_eq_imp_distinct_iff)
  have a: "set (map ?q ?a) = {1..int (length ?a)}"
  proof -
    have "set (map ?q ?a) = int ` {1..length ?a}" unfolding continues_positions [OF h0] by auto
    also have "\<dots> = {int 1..int (length ?a)}" by (rule image_int_atLeastAtMost)
    finally show ?thesis by simp
  qed
  have above: "x \<le> y" if x: "x \<in> set (map ?q ?a)" and y: "y \<in> set (map ?q ?n)" for x y
  proof -
    have "y \<in> set (map ?q (in_stream k h))" using y mset_eq_setD [OF mq] by simp
    then have "1 \<le> y" unfolding continues_positions [OF h] by auto
    moreover have "y \<notin> set (map ?q ?a)" using d y by (simp only: map_append distinct_append) blast
    ultimately show ?thesis using a x by simp
  qed
  have "sorted (map ?q ?a)" unfolding continues_positions [OF h0] by (rule sorted_map_int)
  then have s: "sorted (map ?q (?a @ ?n))" using above stream_sorted [of k rs] by (simp add: sorted_append)
  have sh: "sorted (map ?q (in_stream k h))" unfolding continues_positions [OF h] by (rule sorted_map_int)
  from sort_key_permute [OF ms dh] have "sort_key ?q (in_stream k h) = sort_key ?q (?a @ ?n)" .
  then show ?thesis by (simp add: sort_key_id_if_sorted [OF sh] sort_key_id_if_sorted [OF s])
qed

lemma finish_Inr:
  assumes "finish lc st = Inr r"
  shows "lr_state r = st" "lr_issues r = []" "lr_status r = RS_COMPLETE"
  using assms by (auto simp: finish_def bindE_Inr_iff mk_aggregate_state_Inr_iff mk_ledger_result_Inr_iff)

lemma validate_snapshot_id: "validate_snapshot lc r = Inr s \<Longrightarrow> s = r \<and> validate_snapshot lc s = Inr s"
  by (auto simp: validate_snapshot_def bindE_Inr_iff catch_validation_Inr_iff mk_ledger_result_Inr_iff)

lemma new_records_subset: "set (new_records h rs) \<subseteq> set rs"
  using first_occurrences_set [of "[]" "filter (\<lambda>r. se_event_id r \<notin> se_event_id ` set h) rs"] by (auto simp: new_records_def)

lemma resume_from_snapshot:
  assumes full: "reduce_events ops lc (es @ fs) POLICY_DEFAULT None = Inr r"
    and pre: "reduce_events ops lc es POLICY_DEFAULT None = Inr r0" and sn: "validate_snapshot lc r0 = Inr r0"
    and rep: "is_ok (validate_execution_report_events ops fs)"
  shows "reduce_events ops lc fs POLICY_DEFAULT (Some r0) = Inr r"
proof -
  have start: "starts_from None []" by (simp add: starts_from_def)
  note iff = reduce_default_iff [OF start, of lc, unfolded mk_optional_def, simplified]
  from full obtain rs qs where m: "mapE (from_envelope ops lc) es = Inr rs" "mapE (from_envelope ops lc) fs = Inr qs"
    and c: "consistent (rs @ qs)" and ch: "continues (\<lambda>_. 0) (new_records [] (rs @ qs))"
    and fin: "finish lc (history_projection (new_records [] (rs @ qs))) = Inr r"
    unfolding iff by (auto simp: mapE_append bindE_Inr_iff)
  let ?pre = "new_records [] rs" and ?h = "new_records [] (rs @ qs)"
  from pre m(1) have c0: "continues (\<lambda>_. 0) ?pre" and fin0: "finish lc (history_projection ?pre) = Inr r0"
    unfolding iff by auto
  have d0: "distinct (map se_event_id ?pre)" using new_records_distinct [OF start, of rs] by simp
  have st: "starts_from (Some r0) ?pre" using d0 c0 finish_Inr [OF fin0] by (simp add: starts_from_def)
  let ?n = "new_records ?pre qs"
  have ms: "mset ?h = mset (?pre @ ?n)" by (rule new_records_split)
  have str: "in_stream k ?h = in_stream k (?pre @ ?n)" for k
    unfolding new_records_def [of ?pre qs] by (rule streams_agree [OF ch c0]) (use ms in \<open>simp add: new_records_def [of ?pre qs]\<close>)
  have dh: "distinct (map se_event_id ?h)" using new_records_distinct [OF start, of "rs @ qs"] by simp
  have proj: "history_projection ?h = history_projection (?pre @ ?n)" by (rule history_projection_cong [OF ms dh str])
  have cont: "continues (\<lambda>_. 0) (?pre @ ?n)" by (rule continues_streams [OF ch str])
  have con: "consistent (?pre @ qs)" by (rule consistent_mono [OF c]) (use new_records_subset [of "[]" rs] in auto)
  show ?thesis
    using reduce_default_iff [OF st, of lc ops fs r] sn rep m(2) con cont fin proj by (simp add: mk_optional_def)
qed

end
