(* ===== verification/Ledger_Snapshots.thy ===== *)
theory Ledger_Snapshots
  imports Ledger_Replay
begin

text \<open>
  Every result the reduction returns, under either policy and from any accepted snapshot, satisfies
  all structural checks of \<^verbatim>\<open>_validate_snapshot\<close>: it can be stored and resumed from.
\<close>

section \<open>The shape of a snapshot\<close>

definition well_shaped :: "aggregate_state \<Rightarrow> replay_issue list \<Rightarrow> bool" where
  "well_shaped state issues =
     (ag_event_count state = int (length (ag_applied_events state))
      \<and> distinct (map la_event_id (ag_applied_events state)) \<and> sorted (map la_event_id (ag_applied_events state))
      \<and> sum_list (map tc_count (ag_type_counts state)) = ag_event_count state
      \<and> distinct (map tc_event_type (ag_type_counts state)) \<and> sorted (map tc_event_type (ag_type_counts state))
      \<and> (\<forall>c \<in> set (ag_type_counts state). tc_event_type c \<in> set EVENT_TYPES)
      \<and> sum_list (map sp_event_count (ag_streams state)) = ag_event_count state
      \<and> distinct (map sp_stream_id (ag_streams state)) \<and> sorted (map sp_stream_id (ag_streams state))
      \<and> (\<forall>p \<in> set (ag_streams state). \<not> inconsistent_stream p)
      \<and> distinct (map ri_event_id issues)
      \<and> set (map ri_event_id issues) \<inter> set (map la_event_id (ag_applied_events state)) = {}
      \<and> sorted (map issue_key issues) \<and> (\<forall>i \<in> set issues. \<not> inconsistent_issue i))"

lemma sort_key_fixed_iff: "sort_key f xs = xs \<longleftrightarrow> sorted (map f xs)"
  by (metis sort_key_id_if_sorted sorted_sort_key)

lemma validate_structure_iff:
  "validate_snapshot_structure r = Inr u \<longleftrightarrow>
     well_shaped (lr_state r) (lr_issues r) \<and> (lr_status r = RS_DEGRADED \<longleftrightarrow> lr_issues r \<noteq> [])"
  unfolding validate_snapshot_structure_def Let_def well_shaped_def
  by (simp add: bindE_Inr_iff replay_check_Inr_iff sort_key_fixed_iff list_ex_iff)

definition prior_state :: "ledger_result option \<Rightarrow> aggregate_state" where
  "prior_state initial =
     (case initial of
        None \<Rightarrow> \<lparr>ag_event_count = 0, ag_type_counts = [], ag_streams = [], ag_applied_events = []\<rparr>
      | Some r \<Rightarrow> lr_state r)"

definition prior_issues :: "ledger_result option \<Rightarrow> replay_issue list" where
  "prior_issues initial = (case initial of None \<Rightarrow> [] | Some r \<Rightarrow> lr_issues r)"

lemma prior_well_shaped:
  assumes "mk_optional (validate_snapshot lc) initial = Inr initial"
  shows "well_shaped (prior_state initial) (prior_issues initial)"
proof (cases initial)
  case None
  then show ?thesis by (simp add: prior_state_def prior_issues_def well_shaped_def)
next
  case (Some r)
  with assms have "validate_snapshot_structure r = Inr ()"
    by (auto simp: mk_optional_def validate_snapshot_def res_simps mk_ledger_result_Inr_iff)
  then show ?thesis by (simp add: Some prior_state_def prior_issues_def validate_structure_iff)
qed

lemma initial_maps_shaped:
  assumes "well_shaped (prior_state initial) (prior_issues initial)"
  shows "lm_applied (initial_maps initial) = map (\<lambda>a. (la_event_id a, la_digest a)) (ag_applied_events (prior_state initial))"
    and "lm_type_counts (initial_maps initial) = map (\<lambda>c. (tc_event_type c, tc_count c)) (ag_type_counts (prior_state initial))"
    and "lm_expected (initial_maps initial) = map (\<lambda>p. (sp_stream_id p, sp_last_sequence p + 1)) (ag_streams (prior_state initial))"
    and "lm_starting_count (initial_maps initial) = ag_event_count (prior_state initial)"
    and "lm_unresolved (initial_maps initial) = map (\<lambda>i. (ri_event_id i, i)) (prior_issues initial)"
  using assms
  by (cases initial; simp add: initial_maps_def prior_state_def prior_issues_def well_shaped_def dict_of_distinct comp_def)+

section \<open>Counting\<close>

lemma sum_dict_put:
  fixes d :: "('k \<times> int) list"
  assumes "distinct (map fst d)"
  shows "sum_list (map snd (dict_put k v d))
    = sum_list (map snd d) - (case map_of d k of None \<Rightarrow> 0 | Some n \<Rightarrow> n) + v"
  using assms by (induction k v d rule: dict_put.induct) (auto split: option.splits)

lemma count_types_shape:
  assumes "distinct (map fst d)"
  shows "distinct (map fst (count_types d rs)) \<and> sum_list (map snd (count_types d rs)) = sum_list (map snd d) + int (length rs)
    \<and> fst ` set (count_types d rs) = fst ` set d \<union> se_event_type ` set rs"
proof (induction rs rule: rev_induct)
  case (snoc r rs)
  let ?d = "count_types d rs"
  have "count_types d (rs @ [r]) = dict_put (se_event_type r)
      ((case map_of ?d (se_event_type r) of None \<Rightarrow> 0 | Some n \<Rightarrow> n) + 1) ?d"
    by (simp add: count_types_def)
  then show ?case using snoc by (auto simp: sum_dict_put dict_put_distinct dict_put_keys)
qed (use assms in \<open>simp add: count_types_def\<close>)

lemma stream_lengths:
  assumes "distinct ks" "se_stream_id ` set rs \<subseteq> set ks"
  shows "(\<Sum>k\<leftarrow>ks. int (length (in_stream k rs))) = int (length rs)"
  using assms(2)
proof (induction rs)
  case (Cons r rs)
  have "(\<Sum>k\<leftarrow>ks. int (length (in_stream k (r # rs))))
      = (\<Sum>k\<leftarrow>ks. int (length (in_stream k rs)) + (if k = se_stream_id r then 1 else 0))"
    by (rule arg_cong [where f = sum_list]) auto
  also have "\<dots> = (\<Sum>k\<leftarrow>ks. int (length (in_stream k rs))) + (\<Sum>k\<leftarrow>ks. if k = se_stream_id r then 1 else 0)"
    by (simp add: sum_list_addf)
  also have "(\<Sum>k\<leftarrow>ks. if k = se_stream_id r then 1 else (0::int)) = 1"
    using assms(1) Cons.prems by (simp add: sum_list_distinct_conv_sum_set)
  finally show ?case using Cons by simp
qed (simp add: in_stream_def)

section \<open>Sequencing keeps the shape\<close>

definition issues_separate :: "uuid set \<Rightarrow> sequencing \<Rightarrow> bool" where
  "issues_separate ids s =
     (distinct (map fst (sq_unresolved s)) \<and> distinct (map se_event_id (sq_valid s))
      \<and> se_event_id ` set (sq_valid s) \<inter> ids = {}
      \<and> (\<forall>(k, i) \<in> set (sq_unresolved s). ri_event_id i = k \<and> \<not> inconsistent_issue i
           \<and> k \<notin> ids \<and> k \<notin> se_event_id ` set (sq_valid s)))"

lemma dict_put_set: "set (dict_put k v d) \<subseteq> insert (k, v) (set d)"
  by (induction k v d rule: dict_put.induct) auto

lemma sequence_step_separate:
  assumes "sequence_step policy s r = Inr s'" "tracks expected s" "issues_separate ids s"
    and "se_event_id r \<notin> ids" "se_event_id r \<notin> se_event_id ` set (sq_valid s)"
  shows "issues_separate ids s' \<and> tracks expected s' \<and> set (sq_valid s') \<subseteq> insert r (set (sq_valid s))"
  using assms(1,2)
proof (rule sequence_step_cases)
  assume "sq_valid s' = sq_valid s @ [r]" "tracks expected s'"
    "sq_unresolved s' = filter (\<lambda>(k, _). k \<noteq> se_event_id r) (sq_unresolved s)"
  then show ?thesis using assms(3-5) by (auto simp: issues_separate_def distinct_map_filter)
next
  fix i assume i: "sq_valid s' = sq_valid s" "tracks expected s'" "sq_unresolved s' = dict_put (se_event_id r) i (sq_unresolved s)"
    "ri_event_id i = se_event_id r" "\<not> inconsistent_issue i"
  have "\<forall>(k, j) \<in> insert (se_event_id r, i) (set (sq_unresolved s)). ri_event_id j = k \<and> \<not> inconsistent_issue j
      \<and> k \<notin> ids \<and> k \<notin> se_event_id ` set (sq_valid s)"
    using assms(3-5) i(4,5) by (simp add: issues_separate_def)
  with dict_put_set [of "se_event_id r" i "sq_unresolved s"] have "\<forall>(k, j) \<in> set (sq_unresolved s').
      ri_event_id j = k \<and> \<not> inconsistent_issue j \<and> k \<notin> ids \<and> k \<notin> se_event_id ` set (sq_valid s')"
    unfolding i by blast
  then show ?thesis using assms(3) i(1-3) by (simp add: issues_separate_def dict_put_distinct subset_insertI)
qed

lemma still_disjoint: "A \<subseteq> insert x B \<Longrightarrow> x \<notin> R \<Longrightarrow> R \<inter> (I \<union> B) = {} \<Longrightarrow> R \<inter> (I \<union> A) = {}"
  by blast

lemma sequence_fold_separate:
  assumes "foldE (sequence_step policy) s rs = Inr t" "tracks expected s" "issues_separate ids s"
    and "distinct (map se_event_id rs)" "se_event_id ` set rs \<inter> (ids \<union> se_event_id ` set (sq_valid s)) = {}"
  shows "issues_separate ids t \<and> tracks expected t \<and> set (sq_valid t) \<subseteq> set (sq_valid s) \<union> set rs"
  using assms
proof (induction rs arbitrary: s)
  case (Cons r rs)
  from Cons.prems(1) obtain u where u: "sequence_step policy s r = Inr u" "foldE (sequence_step policy) u rs = Inr t"
    by (auto simp: res_simps)
  from sequence_step_separate [OF u(1) Cons.prems(2,3)] Cons.prems(5)
  have s: "issues_separate ids u" "tracks expected u" "set (sq_valid u) \<subseteq> insert r (set (sq_valid s))" by auto
  have "se_event_id ` set (sq_valid u) \<subseteq> insert (se_event_id r) (se_event_id ` set (sq_valid s))"
    using image_mono [OF s(3)] by (simp only: image_insert)
  moreover have "se_event_id r \<notin> se_event_id ` set rs" using Cons.prems(4) by simp
  moreover have "se_event_id ` set rs \<inter> (ids \<union> se_event_id ` set (sq_valid s)) = {}"
    using Cons.prems(5) by simp
  ultimately have "se_event_id ` set rs \<inter> (ids \<union> se_event_id ` set (sq_valid u)) = {}" by (rule still_disjoint)
  from Cons.IH [OF u(2) s(2,1) _ this] Cons.prems(4)
  have "issues_separate ids t \<and> tracks expected t \<and> set (sq_valid t) \<subseteq> set (sq_valid u) \<union> set rs" by simp
  moreover have "set (sq_valid u) \<union> set rs \<subseteq> set (sq_valid s) \<union> set (r # rs)" using s(3) by (simp only: list.set) blast
  ultimately show ?case by blast
qed simp

section \<open>The closed result\<close>

definition prior_count :: "stream_projection list \<Rightarrow> uuid \<Rightarrow> int" where
  "prior_count ps k = (case find (\<lambda>p. sp_stream_id p = k) ps of None \<Rightarrow> 0 | Some p \<Rightarrow> sp_event_count p)"

lemma prior_count_sum:
  assumes "distinct ks" "distinct (map sp_stream_id ps)" "sp_stream_id ` set ps \<subseteq> set ks"
  shows "(\<Sum>k\<leftarrow>ks. prior_count ps k) = sum_list (map sp_event_count ps)"
  using assms(2,3)
proof (induction ps)
  case (Cons p ps)
  have "find (\<lambda>q. sp_stream_id q = sp_stream_id p) ps = None" using Cons.prems(1) by (simp add: find_None_iff image_iff) metis
  then have "(\<Sum>k\<leftarrow>ks. prior_count (p # ps) k)
      = (\<Sum>k\<leftarrow>ks. prior_count ps k + (if k = sp_stream_id p then sp_event_count p else 0))"
    by (intro arg_cong [where f = sum_list] map_cong) (auto simp: prior_count_def)
  also have "\<dots> = (\<Sum>k\<leftarrow>ks. prior_count ps k) + (\<Sum>k\<leftarrow>ks. if k = sp_stream_id p then sp_event_count p else 0)"
    by (simp add: sum_list_addf)
  also have "(\<Sum>k\<leftarrow>ks. if k = sp_stream_id p then sp_event_count p else 0) = sp_event_count p"
    using assms(1) Cons.prems by (simp add: sum_list_distinct_conv_sum_set)
  finally show ?case using Cons by simp
qed (simp add: prior_count_def [abs_def])

lemma project_stream_shape:
  assumes w: "well_shaped (prior_state initial) (prior_issues initial)"
    and c: "continues (base_of (lm_expected (initial_maps initial))) rs"
    and p: "project_stream initial rs k = Inr p"
  shows "sp_stream_id p = k \<and> sp_event_count p = prior_count (ag_streams (prior_state initial)) k + int (length (in_stream k rs))
    \<and> (k \<in> sp_stream_id ` set (ag_streams (prior_state initial)) \<union> se_stream_id ` set rs \<longrightarrow> \<not> inconsistent_stream p)"
proof -
  let ?ps = "ag_streams (prior_state initial)"
  have prev: "(case initial of None \<Rightarrow> None | Some r \<Rightarrow> find (\<lambda>p. sp_stream_id p = k) (ag_streams (lr_state r)))
      = find (\<lambda>p. sp_stream_id p = k) ?ps" by (cases initial) (simp_all add: prior_state_def)
  note pr = p [unfolded project_stream_def prev Let_def in_stream_def [symmetric]]
  have sq: "se_sequence (last (in_stream k rs)) = base_of (lm_expected (initial_maps initial)) k + int (length (in_stream k rs))"
    if ne: "in_stream k rs \<noteq> []"
  proof -
    have "se_sequence (last (in_stream k rs)) = last (map se_sequence (in_stream k rs))" using ne by (simp add: last_map)
    also have "\<dots> = last (map (\<lambda>i. base_of (lm_expected (initial_maps initial)) k + 1 + int i) [0..<length (in_stream k rs)])"
      using c by (simp add: continues_def)
    finally show ?thesis using ne by (cases "length (in_stream k rs)") (simp_all add: last_map)
  qed
  have ok: "\<not> inconsistent_stream q" if "q \<in> set ?ps" for q using w that by (simp add: well_shaped_def)
  show ?thesis
  proof (cases "find (\<lambda>p. sp_stream_id p = k) ?ps")
    case None
    then have "k \<notin> sp_stream_id ` set ?ps" by (auto simp: find_None_iff)
    moreover from this have "base_of (lm_expected (initial_maps initial)) k = 0"
      using map_of_eq_None_iff [of "lm_expected (initial_maps initial)" k]
      by (simp add: initial_maps_shaped(3) [OF w] base_of_def image_image)
    ultimately show ?thesis using pr None sq
      by (auto simp: prior_count_def inconsistent_stream_def in_stream_Nil_iff dest!: mk_ledger_identity(2) split: if_splits)
  next
    case (Some q)
    then have q: "q \<in> set ?ps" "sp_stream_id q = k" by (auto simp: find_Some_iff)
    have "map_of (lm_expected (initial_maps initial)) k = Some (sp_last_sequence q + 1)"
      using w q by (auto simp: initial_maps_shaped(3) [OF w] well_shaped_def comp_def)
    then have "base_of (lm_expected (initial_maps initial)) k = sp_last_sequence q" by (simp add: base_of_def)
    then show ?thesis using pr Some sq ok [OF q(1)]
      by (auto simp: prior_count_def inconsistent_stream_def dest!: mk_ledger_identity(2) split: if_splits)
  qed
qed

lemma close_reduction_Inr:
  assumes "close_reduction lc initial m t = Inr r"
  obtains ps where "mapE (project_stream initial (sq_valid t)) (sort (map fst (sq_expected t))) = Inr ps"
    "lr_state r = \<lparr>ag_event_count = lm_starting_count m + int (length (sq_valid t)),
       ag_type_counts = map (\<lambda>(k, n). \<lparr>tc_event_type = k, tc_count = n\<rparr>) (sort_key fst (count_types (lm_type_counts m) (sq_valid t))),
       ag_streams = ps,
       ag_applied_events = map (\<lambda>(i, d). \<lparr>la_event_id = i, la_digest = d\<rparr>) (sort_key fst (mark_applied (lm_applied m) (sq_valid t)))\<rparr>"
    "lr_issues r = sort_key issue_key (map snd (sq_unresolved t))"
    "lr_status r = RS_DEGRADED \<longleftrightarrow> lr_issues r \<noteq> []" "mk_ledger_result r = Inr r"
    "canonical_state_json (lr_state r) (lr_status r) (lr_issues r) REPLAY_SCHEMA_VERSION REDUCER_VERSION
      = Inr (lr_canonical_state_json r)" "lr_state_hash r = lc_sha256 lc (lr_canonical_state_json r)"
proof -
  have c: "mapE (\<lambda>(k, n). mk_event_type_count \<lparr>tc_event_type = k, tc_count = n\<rparr>) xs = Inr cs
      \<Longrightarrow> cs = map (\<lambda>(k, n). \<lparr>tc_event_type = k, tc_count = n\<rparr>) xs" for xs cs
    using mapE_map [of mk_event_type_count "\<lambda>(k, n). \<lparr>tc_event_type = k, tc_count = n\<rparr>" xs] mapE_ledger_identity(1)
    by (simp add: case_prod_unfold)
  have a: "mapE (\<lambda>(i, d). mk_ledger_applied \<lparr>la_event_id = i, la_digest = d\<rparr>) xs = Inr as
      \<Longrightarrow> as = map (\<lambda>(i, d). \<lparr>la_event_id = i, la_digest = d\<rparr>) xs" for xs as
    using mapE_map [of mk_ledger_applied "\<lambda>(i, d). \<lparr>la_event_id = i, la_digest = d\<rparr>" xs] mapE_ledger_identity(3)
    by (simp add: case_prod_unfold)
  show thesis
    using assms that unfolding close_reduction_def Let_def bindE_Inr_iff
    by (clarsimp simp: mk_aggregate_state_Inr_iff mk_ledger_result_Inr_iff dest!: c a)
qed

lemma closed_streams_shape:
  assumes w: "well_shaped (prior_state initial) (prior_issues initial)" and tr: "tracks (lm_expected (initial_maps initial)) t"
    and ps: "mapE (project_stream initial (sq_valid t)) (sort (map fst (sq_expected t))) = Inr ps"
  shows "sum_list (map sp_event_count ps) = ag_event_count (prior_state initial) + int (length (sq_valid t))
    \<and> distinct (map sp_stream_id ps) \<and> sorted (map sp_stream_id ps) \<and> (\<forall>p \<in> set ps. \<not> inconsistent_stream p)"
proof -
  let ?ks = "sort (map fst (sq_expected t))" and ?qs = "ag_streams (prior_state initial)"
  have c: "continues (base_of (lm_expected (initial_maps initial))) (sq_valid t)" and d: "distinct ?ks"
    and keys: "set ?ks = sp_stream_id ` set ?qs \<union> se_stream_id ` set (sq_valid t)"
    using tr by (simp_all add: tracks_def initial_maps_shaped(3) [OF w] image_image)
  note sh = project_stream_shape [OF w c mapE_Inr_nth [OF ps]]
  have len: "length ps = length ?ks" by (rule mapE_Inr_length [OF ps])
  have ids: "map sp_stream_id ps = ?ks" by (rule nth_equalityI) (use len sh in simp_all)
  have "map sp_event_count ps = map (\<lambda>k. prior_count ?qs k + int (length (in_stream k (sq_valid t)))) ?ks"
    by (rule nth_equalityI) (use len sh in simp_all)
  moreover have "(\<Sum>k\<leftarrow>?ks. prior_count ?qs k) = sum_list (map sp_event_count ?qs)"
    by (rule prior_count_sum [OF d]) (use w keys in \<open>simp_all add: well_shaped_def\<close>)
  moreover have "(\<Sum>k\<leftarrow>?ks. int (length (in_stream k (sq_valid t)))) = int (length (sq_valid t))"
    by (rule stream_lengths [OF d]) (unfold keys, rule Un_upper2)
  moreover have "sum_list (map sp_event_count ?qs) = ag_event_count (prior_state initial)" using w by (simp add: well_shaped_def)
  ultimately have "sum_list (map sp_event_count ps) = ag_event_count (prior_state initial) + int (length (sq_valid t))"
    by (simp only: sum_list_addf)
  moreover have "\<not> inconsistent_stream p" if "p \<in> set ps" for p
  proof -
    from that obtain n where n: "n < length ps" "p = ps ! n" by (auto simp: in_set_conv_nth)
    then have "?ks ! n \<in> sp_stream_id ` set ?qs \<union> se_stream_id ` set (sq_valid t)" using len keys nth_mem [of n ?ks] by simp
    then show ?thesis using sh [of n] n len by simp
  qed
  ultimately show ?thesis using d ids by simp
qed

lemma closed_issues_shape:
  assumes sep: "issues_separate ids t" and keys: "K = ids \<union> se_event_id ` set (sq_valid t)"
    and iss: "is' = sort_key issue_key (map snd (sq_unresolved t))"
  shows "distinct (map ri_event_id is') \<and> ri_event_id ` set is' \<inter> K = {} \<and> (\<forall>i \<in> set is'. \<not> inconsistent_issue i)"
proof -
  let ?u = "sq_unresolved t"
  have id: "ri_event_id i = k" "\<not> inconsistent_issue i" "k \<notin> K" if "(k, i) \<in> set ?u" for k i
    using sep that unfolding issues_separate_def keys by auto
  have e: "map ri_event_id (map snd ?u) = map fst ?u" using id(1) by auto
  have d: "distinct (map ri_event_id (map snd ?u))" unfolding e using sep by (simp add: issues_separate_def)
  have "set is' = snd ` set ?u" by (simp add: iss)
  moreover have "distinct (map ri_event_id is')" using d unfolding iss
    by (metis mset_eq_imp_distinct_iff mset_map mset_sort)
  ultimately show ?thesis using id by force
qed

lemma closed_shape:
  assumes w: "well_shaped (prior_state initial) (prior_issues initial)" and tr: "tracks (lm_expected (initial_maps initial)) t"
    and sep: "issues_separate (la_event_id ` set (ag_applied_events (prior_state initial))) t"
    and types: "\<forall>r \<in> set (sq_valid t). se_event_type r \<in> set EVENT_TYPES"
    and c: "close_reduction lc initial (initial_maps initial) t = Inr r"
  shows "well_shaped (lr_state r) (lr_issues r)"
proof -
  let ?m = "initial_maps initial" and ?S = "prior_state initial"
  let ?ct = "count_types (lm_type_counts ?m) (sq_valid t)" and ?ap = "mark_applied (lm_applied ?m) (sq_valid t)"
  from c obtain ps where ps: "mapE (project_stream initial (sq_valid t)) (sort (map fst (sq_expected t))) = Inr ps"
    and st: "lr_state r = \<lparr>ag_event_count = lm_starting_count ?m + int (length (sq_valid t)),
       ag_type_counts = map (\<lambda>(k, n). \<lparr>tc_event_type = k, tc_count = n\<rparr>) (sort_key fst ?ct), ag_streams = ps,
       ag_applied_events = map (\<lambda>(i, d). \<lparr>la_event_id = i, la_digest = d\<rparr>) (sort_key fst ?ap)\<rparr>"
    and iss: "lr_issues r = sort_key issue_key (map snd (sq_unresolved t))" by (rule close_reduction_Inr)
  have n: "lm_starting_count ?m = int (length (lm_applied ?m))" "ag_event_count ?S = lm_starting_count ?m"
    "sum_list (map snd (lm_type_counts ?m)) = lm_starting_count ?m" "distinct (map fst (lm_type_counts ?m))"
    "fst ` set (lm_type_counts ?m) \<subseteq> set EVENT_TYPES" "distinct (map fst (lm_applied ?m))"
    using w by (auto simp: initial_maps_shaped [OF w] well_shaped_def comp_def)
  have keys: "fst ` set (lm_applied ?m) = la_event_id ` set (ag_applied_events ?S)"
    by (simp add: initial_maps_shaped(1) [OF w] image_image)
  have ap: "?ap = lm_applied ?m @ map (\<lambda>r. (se_event_id r, se_digest r)) (sq_valid t)"
    by (rule mark_applied_fresh) (use sep keys in \<open>simp_all add: issues_separate_def\<close>)
  have ids: "distinct (map fst ?ap)" using sep n(6) keys by (auto simp: ap issues_separate_def comp_def)
  have fst_ap: "fst ` set ?ap = la_event_id ` set (ag_applied_events ?S) \<union> se_event_id ` set (sq_valid t)"
    by (simp add: ap image_Un keys image_image)
  have ct: "distinct (map fst ?ct)" "sum_list (map snd ?ct) = lm_starting_count ?m + int (length (sq_valid t))"
    "fst ` set ?ct \<subseteq> set EVENT_TYPES" using count_types_shape [OF n(4), of "sq_valid t"] n(3,5) types by auto
  have A: "int (length (ag_applied_events (lr_state r))) = ag_event_count (lr_state r)" "map la_event_id (ag_applied_events (lr_state r)) = map fst (sort_key fst ?ap)"
    by (simp_all add: st ap n(1) comp_def case_prod_unfold)
  have T: "map tc_event_type (ag_type_counts (lr_state r)) = map fst (sort_key fst ?ct)"
    "map tc_count (ag_type_counts (lr_state r)) = map snd (sort_key fst ?ct)"
    by (simp_all add: st comp_def case_prod_unfold)
  have "sum_list (map snd (sort_key fst ?ct)) = sum_list (map snd ?ct)"
    by (metis mset_map mset_sort sum_mset_sum_list)
  then have counts: "sum_list (map tc_count (ag_type_counts (lr_state r))) = ag_event_count (lr_state r)"
    unfolding T(2) using ct(2) by (simp add: st)
  have streams: "sum_list (map sp_event_count (ag_streams (lr_state r))) = ag_event_count (lr_state r)
      \<and> distinct (map sp_stream_id (ag_streams (lr_state r))) \<and> sorted (map sp_stream_id (ag_streams (lr_state r)))
      \<and> (\<forall>p \<in> set (ag_streams (lr_state r)). \<not> inconsistent_stream p)"
    using closed_streams_shape [OF w tr ps] n(2) by (simp add: st)
  have I: "distinct (map ri_event_id (lr_issues r)) \<and> ri_event_id ` set (lr_issues r) \<inter> fst ` set ?ap = {}
      \<and> (\<forall>i \<in> set (lr_issues r). \<not> inconsistent_issue i)" by (rule closed_issues_shape [OF sep fst_ap iss])
  have types': "\<forall>c \<in> set (ag_type_counts (lr_state r)). tc_event_type c \<in> set EVENT_TYPES"
    using ct(3) by (auto simp: st)
  have la: "la_event_id ` set (ag_applied_events (lr_state r)) = fst ` set ?ap" using arg_cong [OF A(2), of set] by simp
  show ?thesis unfolding well_shaped_def A(2) T(1)
    using A(1) counts streams I types' la ids ct(1) by (simp add: iss distinct_map)
qed

section \<open>Reduction results are valid snapshots\<close>

lemma from_envelope_registered: "from_envelope ops lc e = Inr r \<Longrightarrow> se_event_type r \<in> set EVENT_TYPES"
  by (auto simp: from_envelope_def serialize_event_def payload_type_for_def bindE_Inr_iff if_Inl_Inr_iff
      dest!: mk_ledger_identity(5) split: if_splits)

lemma reduce_well_shaped:
  assumes v: "mk_optional (validate_snapshot lc) initial = Inr initial"
    and m: "mapE (from_envelope ops lc) es = Inr rs"
    and u: "foldE (unique_step (initial_maps initial)) [] rs = Inr us"
    and f: "foldE (sequence_step policy) (start_sequencing (initial_maps initial)) (sort_key stored_key us) = Inr t"
    and c: "close_reduction lc initial (initial_maps initial) t = Inr r"
  shows "well_shaped (lr_state r) (lr_issues r)"
proof -
  let ?m = "initial_maps initial" and ?ids = "la_event_id ` set (ag_applied_events (prior_state initial))"
  note w = prior_well_shaped [OF v]
  have us: "us = first_occurrences [] (filter (fresh_for ?m) rs)" using unique_fold_iff [of "[]" ?m rs us] u by simp
  have dist: "distinct (map se_event_id us)" unfolding us by (rule first_occurrences_distinct) simp
  have sub: "set us \<subseteq> set (filter (fresh_for ?m) rs)" using first_occurrences_set [of "[]" "filter (fresh_for ?m) rs"] by (simp add: us)
  have keys: "fst ` set (lm_applied ?m) = ?ids" by (simp add: initial_maps_shaped(1) [OF w] image_image)
  have fresh: "se_event_id ` set us \<inter> ?ids = {}"
  proof -
    have "se_event_id q \<notin> ?ids" if "q \<in> set us" for q
      using sub that unfolding keys [symmetric] by (auto simp: fresh_for_def map_of_eq_None_iff)
    then show ?thesis by blast
  qed
  have tr: "tracks (lm_expected ?m) (start_sequencing ?m)" unfolding start_sequencing_def
    by (rule tracks_initial) (use w in \<open>simp add: initial_maps_shaped(3) [OF w] well_shaped_def comp_def\<close>)
  have sep: "issues_separate ?ids (start_sequencing ?m)"
    using w by (auto simp: issues_separate_def start_sequencing_def initial_maps_shaped(5) [OF w] well_shaped_def comp_def)
  have s: "issues_separate ?ids t \<and> tracks (lm_expected ?m) t \<and> set (sq_valid t) \<subseteq> set (sq_valid (start_sequencing ?m)) \<union> set (sort_key stored_key us)"
    by (rule sequence_fold_separate [OF f tr sep]) (use dist fresh in \<open>simp_all add: distinct_map start_sequencing_def\<close>)
  have "se_event_type q \<in> set EVENT_TYPES" if "q \<in> set (sq_valid t)" for q
  proof -
    have "q \<in> set rs" using that s sub by (auto simp: start_sequencing_def)
    then show ?thesis using mapE_Inr_nth [OF m] mapE_Inr_length [OF m] from_envelope_registered by (metis in_set_conv_nth)
  qed
  then show ?thesis using closed_shape [OF w _ _ _ c] s by blast
qed

lemma reduce_result_valid:
  assumes "reduce_events ops lc es policy initial = Inr r"
  shows "validate_snapshot lc r = Inr r"
proof -
  from assms obtain i rs us t where v: "mk_optional (validate_snapshot lc) initial = Inr i"
    and s: "mapE (from_envelope ops lc) es = Inr rs" "foldE (unique_step (initial_maps i)) [] rs = Inr us"
      "foldE (sequence_step policy) (start_sequencing (initial_maps i)) (sort_key stored_key us) = Inr t"
    and c: "close_reduction lc i (initial_maps i) t = Inr r"
    unfolding reduce_events_def Let_def bindE_Inr_iff start_sequencing_def by clarify
  have i: "mk_optional (validate_snapshot lc) i = Inr i"
    using v by (cases initial) (simp add: mk_optional_def, auto simp: mk_optional_def res_simps intro: validate_snapshot_id [THEN conjunct2])
  note w = reduce_well_shaped [OF i s c]
  from c show ?thesis
  proof (rule close_reduction_Inr)
    assume "lr_status r = RS_DEGRADED \<longleftrightarrow> lr_issues r \<noteq> []" and mk: "mk_ledger_result r = Inr r"
      and j: "canonical_state_json (lr_state r) (lr_status r) (lr_issues r) REPLAY_SCHEMA_VERSION REDUCER_VERSION
        = Inr (lr_canonical_state_json r)" and h: "lr_state_hash r = lc_sha256 lc (lr_canonical_state_json r)"
    with w have "validate_snapshot_structure r = Inr ()" by (simp add: validate_structure_iff)
    moreover from mk have "lr_schema_version r = REPLAY_SCHEMA_VERSION" "lr_reducer_version r = REDUCER_VERSION"
      by (simp_all add: mk_ledger_result_Inr_iff)
    ultimately show ?thesis using mk j h by (simp add: validate_snapshot_def replay_check_def)
  qed
qed


section \<open>The public entry point\<close>

lemma replay_eq_reduce:
  "replay ops lc es policy snapshot =
     reduce_events ops lc es (case policy of None \<Rightarrow> POLICY_DEFAULT | Some p \<Rightarrow> p) snapshot"
proof (cases snapshot)
  case None
  then show ?thesis by (simp add: replay_def mk_optional_def)
next
  case (Some s)
  have "validate_snapshot lc s = Inr v \<Longrightarrow> mk_optional (validate_snapshot lc) (Some v) = Inr (Some v) \<and> v = s" for v
    using validate_snapshot_id [of lc s v] by (simp add: mk_optional_def)
  then show ?thesis unfolding Some
    by (cases "validate_snapshot lc s") (auto simp: replay_def mk_optional_def reduce_events_def)
qed

lemma replay_complete_iff:
  "replay ops lc es None None = Inr r \<longleftrightarrow>
    is_ok (validate_execution_report_events ops es)
    \<and> (\<exists>rs. mapE (from_envelope ops lc) es = Inr rs \<and> consistent rs \<and> continues (\<lambda>_. 0) (new_records [] rs)
         \<and> finish lc (history_projection (new_records [] rs)) = Inr r)"
  using reduce_default_iff [of None "[]" lc ops es r] by (simp add: replay_eq_reduce starts_from_def mk_optional_def)

section \<open>The state text determines the state\<close>

lemma sorted_names:
  "sorted_unique fst [(''code'', a), (''digest'', b), (''event_id'', c), (''expected_sequence'', d), (''sequence'', e), (''stream_id'', f)]"
  "sorted_unique fst [(''count'', a), (''event_type'', b)]"
  "sorted_unique fst [(''event_count'', a), (''last_digest'', b), (''last_sequence'', c), (''stream_id'', d)]"
  "sorted_unique fst [(''digest'', a), (''event_id'', b)]"
  "sorted_unique fst [(''applied_events'', a), (''event_count'', b), (''streams'', c), (''type_counts'', d)]"
  "sorted_unique fst [(''issues'', a), (''reducer_version'', b), (''schema_version'', c), (''state'', d), (''status'', e)]"
  by (simp_all add: sorted_unique_iff)

lemma normal_parts:
  "normal_json (issue_json i)" "normal_json (type_count_json c)" "normal_json (stream_json p)" "normal_json (applied_json a)"
  by (simp_all add: issue_json_def type_count_json_def stream_json_def applied_json_def sorted_names split: option.splits)

lemma normal_state_document: "normal_json (state_document state status issues sv rv)"
  by (simp add: state_document_def aggregate_json_def sorted_names normal_parts list_all_iff)

lemma value_inj:
  "issue_code_value c = issue_code_value c' \<longleftrightarrow> c = c'" "replay_status_value s = replay_status_value s' \<longleftrightarrow> s = s'"
  by (cases c; cases c'; simp) (cases s; cases s'; simp)

lemma part_inj: "inj issue_json" "inj type_count_json" "inj stream_json" "inj applied_json"
  by (auto simp: issue_json_def type_count_json_def stream_json_def applied_json_def value_inj uuid_text_inj
      intro!: injI split: option.splits)

lemma aggregate_json_inj: "aggregate_json s = aggregate_json t \<Longrightarrow> s = t"
  by (auto simp: aggregate_json_def inj_map_eq_map [OF part_inj(2)] inj_map_eq_map [OF part_inj(3)] inj_map_eq_map [OF part_inj(4)])

lemma state_document_inj:
  "state_document s st is' sv rv = state_document t st' js sv' rv' \<Longrightarrow> s = t \<and> st = st' \<and> is' = js \<and> sv = sv' \<and> rv = rv'"
  by (auto simp: state_document_def inj_map_eq_map [OF part_inj(1)] value_inj dest: aggregate_json_inj)

lemma validate_snapshot_text:
  assumes "validate_snapshot lc r = Inr r"
  shows "lr_canonical_state_json r = dumps (state_document (lr_state r) (lr_status r) (lr_issues r) (lr_schema_version r) (lr_reducer_version r))"
    "lr_state_hash r = lc_sha256 lc (lr_canonical_state_json r)"
  using assms by (auto simp: validate_snapshot_def canonical_state_json_def res_simps mk_ledger_result_Inr_iff)

lemma same_text_same_snapshot:
  assumes "validate_snapshot lc a = Inr a" "validate_snapshot lc b = Inr b" "lr_canonical_state_json a = lr_canonical_state_json b"
  shows "a = b"
proof -
  from assms(3) have "state_document (lr_state a) (lr_status a) (lr_issues a) (lr_schema_version a) (lr_reducer_version a)
      = state_document (lr_state b) (lr_status b) (lr_issues b) (lr_schema_version b) (lr_reducer_version b)"
    unfolding validate_snapshot_text(1) [OF assms(1)] validate_snapshot_text(1) [OF assms(2)]
    by (rule dumps_inj [OF normal_state_document normal_state_document])
  from state_document_inj [OF this] show ?thesis
    using assms(3) validate_snapshot_text(2) [OF assms(1)] validate_snapshot_text(2) [OF assms(2)] by (intro ledger_result.equality) simp_all
qed

end
