(* ===== verification/Json_Decode.thy ===== *)
theory Json_Decode
  imports Json
begin

text \<open>
  \<^verbatim>\<open>json.loads\<close> as \<^verbatim>\<open>OutboxIntent\<close> calls it (\<^verbatim>\<open>src/packages/event_ledger/models.py\<close>): with hooks that
  refuse repeated keys, fractional and non-finite numbers. Every failure is a \<open>ValueError\<close> that the
  caller turns into one message, so the decoder returns an option. The scanner descends on fuel;
  more than twice the text's length is enough. Escapes above \<^verbatim>\<open>U+00FF\<close> are outside the model's characters and refused.
\<close>

section \<open>Scanning\<close>

fun skip_whitespace :: "string \<Rightarrow> string" where
  "skip_whitespace [] = []"
| "skip_whitespace (c # cs) =
     (if c \<in> {CHR '' '', CHR 0x09, CHR 0x0A, CHR 0x0D} then skip_whitespace cs else c # cs)"

definition hex_value :: "char \<Rightarrow> nat option" where
  "hex_value c =
     (if is_digit_char c then Some (of_char c - 48)
      else if CHR ''a'' \<le> c \<and> c \<le> CHR ''f'' then Some (of_char c - 87)
      else if CHR ''A'' \<le> c \<and> c \<le> CHR ''F'' then Some (of_char c - 55)
      else None)"

definition unicode_escape :: "char \<Rightarrow> char \<Rightarrow> char \<Rightarrow> char \<Rightarrow> char option" where
  "unicode_escape a b c d =
     (case (hex_value a, hex_value b, hex_value c, hex_value d) of
        (Some w, Some x, Some y, Some z) \<Rightarrow>
          let n = ((w * 16 + x) * 16 + y) * 16 + z
          in if n < 256 then Some (char_of n) else None
      | _ \<Rightarrow> None)"

definition simple_escape :: "char \<Rightarrow> char option" where
  "simple_escape c =
     map_of [(CHR 0x22, CHR 0x22), (CHR 0x5C, CHR 0x5C), (CHR ''/'', CHR ''/''), (CHR ''b'', CHR 0x08),
             (CHR ''f'', CHR 0x0C), (CHR ''n'', CHR 0x0A), (CHR ''r'', CHR 0x0D), (CHR ''t'', CHR 0x09)] c"

definition prepend :: "char option \<Rightarrow> (string \<times> string) option \<Rightarrow> (string \<times> string) option" where
  "prepend c r = (case (c, r) of (Some c, Some (s, u)) \<Rightarrow> Some (c # s, u) | _ \<Rightarrow> None)"

fun scan_string :: "string \<Rightarrow> (string \<times> string) option" where
  "scan_string [] = None"
| "scan_string (c # cs) =
     (if c = CHR 0x22 then Some ([], cs)
      else if c < CHR 0x20 then None
      else if c = CHR 0x5C
      then (case cs of
              [] \<Rightarrow> None
            | e # es \<Rightarrow>
                if e = CHR ''u''
                then (case es of
                        h1 # h2 # h3 # h4 # rest \<Rightarrow> prepend (unicode_escape h1 h2 h3 h4) (scan_string rest)
                      | _ \<Rightarrow> None)
                else prepend (simple_escape e) (scan_string es))
      else prepend (Some c) (scan_string cs))"

definition MAX_STR_DIGITS :: nat where
  "MAX_STR_DIGITS = 4300"

definition starts_fraction :: "string \<Rightarrow> bool" where
  "starts_fraction s =
     (case s of
        c # d # rest \<Rightarrow>
          (c = CHR ''.'' \<and> is_digit_char d)
          \<or> (c \<in> {CHR ''e'', CHR ''E''}
             \<and> (is_digit_char d \<or> (d \<in> {CHR ''+'', CHR ''-''} \<and> rest \<noteq> [] \<and> is_digit_char (hd rest))))
      | _ \<Rightarrow> False)"

definition scan_natural :: "string \<Rightarrow> (nat \<times> string) option" where
  "scan_natural s =
     (case s of
        [] \<Rightarrow> None
      | c # cs \<Rightarrow>
          if \<not> is_digit_char c then None
          else
            let digits = (if c = CHR ''0'' then [c] else takeWhile is_digit_char s);
                rest = drop (length digits) s
            in if starts_fraction rest \<or> MAX_STR_DIGITS < length digits then None
               else Some (coefficient_of (map digit_value digits), rest))"

definition next_char :: "char \<Rightarrow> string \<Rightarrow> string option" where
  "next_char c s = (case s of [] \<Rightarrow> None | d # ds \<Rightarrow> if d = c then Some ds else None)"

definition scan_int :: "string \<Rightarrow> (json \<times> string) option" where
  "scan_int s =
     (case next_char (CHR ''-'') s of
        Some cs \<Rightarrow> map_option (\<lambda>(n, u). (JInt (- int n), u)) (scan_natural cs)
      | None \<Rightarrow> map_option (\<lambda>(n, u). (JInt (int n), u)) (scan_natural s))"

definition scan_literal :: "string \<Rightarrow> (json \<times> string) option" where
  "scan_literal s =
     (if take 4 s = ''null'' then Some (JNull, drop 4 s)
      else if take 4 s = ''true'' then Some (JBool True, drop 4 s)
      else if take 5 s = ''false'' then Some (JBool False, drop 5 s)
      else scan_int s)"

definition reject_duplicate_keys :: "(string \<times> json) list \<Rightarrow> json option" where
  "reject_duplicate_keys pairs = (if distinct (map fst pairs) then Some (JObject pairs) else None)"

fun scan_once :: "nat \<Rightarrow> string \<Rightarrow> (json \<times> string) option"
  and scan_array :: "nat \<Rightarrow> string \<Rightarrow> (json list \<times> string) option"
  and scan_object :: "nat \<Rightarrow> string \<Rightarrow> ((string \<times> json) list \<times> string) option" where
  "scan_once 0 s = None"
| "scan_once (Suc n) s =
     (case s of
        [] \<Rightarrow> None
      | c # cs \<Rightarrow>
          if c = CHR 0x22 then map_option (\<lambda>(t, u). (JString t, u)) (scan_string cs)
          else if c = CHR ''{''
          then (case next_char (CHR ''}'') (skip_whitespace cs) of
                  Some u \<Rightarrow> Some (JObject [], u)
                | None \<Rightarrow> (case scan_object n (skip_whitespace cs) of
                            None \<Rightarrow> None
                          | Some (pairs, u) \<Rightarrow> map_option (\<lambda>v. (v, u)) (reject_duplicate_keys pairs)))
          else if c = CHR ''[''
          then (case next_char (CHR '']'') (skip_whitespace cs) of
                  Some u \<Rightarrow> Some (JArray [], u)
                | None \<Rightarrow> map_option (\<lambda>(vs, u). (JArray vs, u)) (scan_array n (skip_whitespace cs)))
          else scan_literal s)"
| "scan_array 0 s = None"
| "scan_array (Suc n) s =
     (case scan_once n s of
        None \<Rightarrow> None
      | Some (v, u) \<Rightarrow>
          (case next_char (CHR '']'') (skip_whitespace u) of
             Some w \<Rightarrow> Some ([v], w)
           | None \<Rightarrow>
               (case next_char (CHR '','') (skip_whitespace u) of
                  Some w \<Rightarrow> map_option (\<lambda>(vs, t). (v # vs, t)) (scan_array n (skip_whitespace w))
                | None \<Rightarrow> None)))"
| "scan_object 0 s = None"
| "scan_object (Suc n) s =
     (case Option.bind (next_char (CHR 0x22) s) scan_string of
        None \<Rightarrow> None
      | Some (k, u) \<Rightarrow>
          (case Option.bind (next_char (CHR '':'') (skip_whitespace u)) (\<lambda>w. scan_once n (skip_whitespace w)) of
             None \<Rightarrow> None
           | Some (v, t) \<Rightarrow>
               (case next_char (CHR ''}'') (skip_whitespace t) of
                  Some r \<Rightarrow> Some ([(k, v)], r)
                | None \<Rightarrow>
                    (case next_char (CHR '','') (skip_whitespace t) of
                       Some r \<Rightarrow> map_option (\<lambda>(kvs, q). ((k, v) # kvs, q)) (scan_object n (skip_whitespace r))
                     | None \<Rightarrow> None))))"

definition json_loads :: "string \<Rightarrow> json option" where
  "json_loads text =
     (case scan_once (Suc (2 * length text)) (skip_whitespace text) of
        None \<Rightarrow> None
      | Some (v, u) \<Rightarrow> if skip_whitespace u = [] then Some v else None)"

section \<open>Decoding what was encoded\<close>

lemma next_char_simps [simp]: "next_char c [] = None" "next_char c (d # ds) = (if d = c then Some ds else None)"
  by (simp_all add: next_char_def)

lemma hex_char_value: "n < 16 \<Longrightarrow> hex_value (hex_char n) = Some n"
proof -
  assume "n < 16"
  then have "n \<in> set [0..<16]" by simp
  moreover have "\<forall>k \<in> set [0..<16]. hex_value (hex_char k) = Some k" by code_simp
  ultimately show ?thesis by blast
qed

lemma hex_four: "hex_digits 4 n = [n div 4096 mod 16, n div 256 mod 16, n div 16 mod 16, n mod 16]"
proof -
  have "hex_digits (Suc (Suc (Suc (Suc 0)))) n = [n div 16 div 16 div 16 mod 16, n div 16 div 16 mod 16, n div 16 mod 16, n mod 16]"
    by simp
  moreover have "Suc (Suc (Suc (Suc 0))) = 4" by simp
  ultimately show ?thesis by (simp only: div_mult2_eq [symmetric]) simp
qed

lemma unicode_escape_of:
  "map hex_char (hex_digits 4 (of_char c)) = [h1, h2, h3, h4] \<Longrightarrow> unicode_escape h1 h2 h3 h4 = Some c"
proof -
  assume h: "map hex_char (hex_digits 4 (of_char c)) = [h1, h2, h3, h4]"
  let ?n = "of_char c :: nat"
  have n: "?n < 256" by simp
  then have s: "?n div 4096 = 0" "?n div 256 = 0" "?n div 16 < 16"
    using order.strict_trans [OF n, of 4096] by (simp_all add: less_mult_imp_div_less)
  have v: "hex_value (hex_char (?n div 16)) = Some (?n div 16)" "hex_value (hex_char (?n mod 16)) = Some (?n mod 16)"
    "hex_value (hex_char 0) = Some 0" using s(3) by (simp_all add: hex_char_value)
  show ?thesis using h s n v by (auto simp: hex_four unicode_escape_def Let_def div_mult_mod_eq)
qed

lemma scan_escaped:
  "scan_string (escape_char c @ u) = prepend (Some c) (scan_string u)"
proof -
  show ?thesis
  proof (cases "c \<in> {CHR 0x22, CHR 0x5C, CHR 0x0A, CHR 0x0D, CHR 0x09, CHR 0x0C, CHR 0x08}")
    case True
    then show ?thesis by (auto simp: escape_char_def simple_escape_def less_char_def)
  next
    case False
    show ?thesis
    proof (cases "CHR 0x20 \<le> c \<and> c \<le> CHR 0x7E")
      case True
      then have "\<not> c < CHR 0x20" by (simp add: less_char_def less_eq_char_def)
      with True False show ?thesis by (simp add: escape_char_def)
    next
      case hex: False
      obtain h1 h2 h3 h4 where h: "map hex_char (hex_digits 4 (of_char c)) = [h1, h2, h3, h4]" by (simp add: hex_four)
      have "escape_char c @ u = CHR 0x5C # CHR ''u'' # h1 # h2 # h3 # h4 # u" using False hex h by (simp add: escape_char_def)
      then show ?thesis using unicode_escape_of [OF h] by (simp add: less_char_def)
    qed
  qed
qed

lemma scan_json_string: "scan_string (concat (map escape_char s) @ CHR 0x22 # u) = Some (s, u)"
  by (induction s) (simp_all add: scan_escaped prepend_def)

definition small_int :: "int \<Rightarrow> bool" where
  "small_int n = (length (as_digits (nat \<bar>n\<bar>)) \<le> MAX_STR_DIGITS)"

lemma scan_natural_token:
  assumes "s = c # cs" "is_digit_char c" "(if c = CHR ''0'' then [c] else takeWhile is_digit_char s) = d" "drop (length d) s = u"
  shows "scan_natural s =
    (if starts_fraction u \<or> MAX_STR_DIGITS < length d then None else Some (coefficient_of (map digit_value d), u))"
  using assms unfolding scan_natural_def Let_def by (simp only: list.case if_False not_True_eq_False)

lemma scan_natural_digits:
  assumes "ends_value u" "length (as_digits n) \<le> MAX_STR_DIGITS"
  shows "scan_natural (map digit_char (as_digits n) @ u) = Some (n, u)"
proof -
  let ?d = "map digit_char (as_digits n)"
  obtain c cs where c: "?d = c # cs" using as_digits_nonempty [of n] by (cases ?d) auto
  have all: "\<forall>x \<in> set ?d. is_digit_char x" using as_digits_lt_10 by auto
  have "takeWhile is_digit_char u = []"
    using assms(1) by (cases u) (auto simp: ends_value_def is_digit_char_def less_eq_char_def)
  then have tw: "takeWhile is_digit_char (?d @ u) = ?d" using all by (subst takeWhile_append2) auto
  have tok: "(if c = CHR ''0'' then [c] else takeWhile is_digit_char (?d @ u)) = ?d"
  proof (cases "c = CHR ''0''")
    case True
    have "n = 0"
    proof (rule ccontr)
      assume "n \<noteq> 0"
      moreover have "digit_char (hd (as_digits n)) = CHR ''0''" using c True by (cases "as_digits n") auto
      then have "digit_char (hd (as_digits n)) = digit_char 0" by simp
      then have "hd (as_digits n) = 0" using as_digits_lt_10 as_digits_nonempty by (metis digit_char_inj hd_in_set zero_less_numeral)
      ultimately show False using hd_as_digits [of n] by simp
    qed
    then show ?thesis using c True by (simp add: as_digits.simps [of 0])
  next
    case False
    then show ?thesis using tw by simp
  qed
  have frac: "\<not> starts_fraction u"
    using assms(1) by (cases u; cases "tl u") (auto simp: ends_value_def starts_fraction_def)
  have "map digit_value ?d = as_digits n" by (simp add: map_idI as_digits_lt_10)
  then have val: "coefficient_of (map digit_value ?d) = n" by (simp only: coefficient_of_as_digits)
  have "scan_natural (?d @ u) =
      (if starts_fraction u \<or> MAX_STR_DIGITS < length ?d then None else Some (coefficient_of (map digit_value ?d), u))"
  proof (rule scan_natural_token [OF _ _ tok])
    show "?d @ u = c # (cs @ u)" by (simp only: c append_Cons)
    show "is_digit_char c" using all c by simp
  qed simp
  then show ?thesis using frac assms(2) unfolding val by simp
qed

lemma scan_int_text:
  assumes "ends_value u" "small_int n"
  shows "scan_int (int_text n @ u) = Some (JInt n, u)"
proof (cases "n < 0")
  case True
  then show ?thesis using scan_natural_digits [OF assms(1), of "nat \<bar>n\<bar>"] assms(2)
    by (simp add: scan_int_def int_text_def small_int_def)
next
  case False
  obtain c cs where c: "map digit_char (as_digits (nat \<bar>n\<bar>)) = c # cs"
    using as_digits_nonempty [of "nat \<bar>n\<bar>"] by (cases "map digit_char (as_digits (nat \<bar>n\<bar>))") auto
  then have "c \<noteq> CHR ''-''" using digits_no_minus [of "nat \<bar>n\<bar>"] by auto
  then have "next_char (CHR ''-'') (int_text n @ u) = None" using False c by (simp add: int_text_def)
  then show ?thesis using False scan_natural_digits [OF assms(1), of "nat \<bar>n\<bar>"] assms(2)
    by (simp add: scan_int_def int_text_def small_int_def)
qed

lemma scan_literal_int:
  assumes "ends_value u" "small_int n"
  shows "scan_literal (int_text n @ u) = Some (JInt n, u)"
proof -
  obtain c cs where c: "int_text n = c # cs" using int_text_nonempty [of n] by (cases "int_text n") auto
  then have "int_char c" using int_text_chars [of n] by simp
  then have "c \<notin> {CHR ''n'', CHR ''t'', CHR ''f''}" by (auto simp: int_char_def is_digit_char_def less_eq_char_def)
  then have "scan_literal (int_text n @ u) = scan_int (int_text n @ u)" by (auto simp: c scan_literal_def)
  then show ?thesis by (simp only: scan_int_text [OF assms])
qed

fun small_ints :: "json \<Rightarrow> bool" where
  "small_ints (JInt n) = small_int n"
| "small_ints (JArray xs) = list_all small_ints xs"
| "small_ints (JObject kvs) = list_all (\<lambda>(k, v). small_ints v) kvs"
| "small_ints _ = True"

definition decodes :: "json \<Rightarrow> bool" where
  "decodes v = (\<forall>n u. length (dumps v) \<le> n \<longrightarrow> ends_value u \<longrightarrow> scan_once n (dumps v @ u) = Some (v, u))"

lemma no_whitespace:
  assumes "char_tag c \<noteq> 6"
  shows "skip_whitespace (c # cs) = c # cs"
  using assms by (auto simp: char_tag_def int_char_def is_digit_char_def less_eq_char_def)

lemma skip_dumps [simp]: "skip_whitespace (dumps v @ u) = dumps v @ u"
proof -
  have "char_tag (hd (dumps v)) \<noteq> 6" "dumps v \<noteq> []" using dumps_start [of v] by (cases v; simp)+
  then show ?thesis by (cases "dumps v") (simp_all add: no_whitespace del: skip_whitespace.simps)
qed

lemma comma_separated_Cons:
  "comma_separated (map f (x # xs)) = f x @ (if xs = [] then [] else CHR '','' # comma_separated (map f xs))"
  by (cases xs) simp_all

lemma scan_array_dumps:
  assumes "\<forall>v \<in> set (v0 # vs). decodes v" "length (comma_separated (map dumps (v0 # vs))) < n"
  shows "scan_array n (comma_separated (map dumps (v0 # vs)) @ CHR '']'' # u) = Some (v0 # vs, u)"
  using assms
proof (induction vs arbitrary: v0 n)
  case Nil
  then obtain m where m: "n = Suc m" by (cases n) auto
  have "scan_once m (dumps v0 @ CHR '']'' # u) = Some (v0, CHR '']'' # u)" using Nil m by (auto simp: decodes_def ends_value_def)
  then show ?case by (simp add: m)
next
  case (Cons w ws)
  let ?r = "comma_separated (map dumps (w # ws)) @ CHR '']'' # u"
  from Cons.prems(2) obtain m where m: "n = Suc m" by (cases n) auto
  have "scan_once m (dumps v0 @ CHR '','' # ?r) = Some (v0, CHR '','' # ?r)"
    using Cons.prems m unfolding comma_separated_Cons by (auto simp: decodes_def ends_value_def simp del: list.map)
  moreover have "scan_array m ?r = Some (w # ws, u)" using Cons.IH [of w m] Cons.prems m
    unfolding comma_separated_Cons [of _ v0] by (simp del: list.map)
  moreover have "skip_whitespace ?r = ?r" by (simp add: comma_separated_Cons del: list.map)
  ultimately show ?case unfolding comma_separated_Cons [of _ v0] by (simp add: m del: list.map)
qed

lemma scan_object_dumps:
  assumes "\<forall>kv \<in> set (kv0 # kvs). decodes (snd kv)" "length (comma_separated (map member_text (kv0 # kvs))) < n"
  shows "scan_object n (comma_separated (map member_text (kv0 # kvs)) @ CHR ''}'' # u) = Some (kv0 # kvs, u)"
  using assms
proof (induction kvs arbitrary: kv0 n)
  case Nil
  then obtain m where m: "n = Suc m" by (cases n) auto
  have "scan_once m (dumps (snd kv0) @ CHR ''}'' # u) = Some (snd kv0, CHR ''}'' # u)"
    using Nil m by (auto simp: decodes_def ends_value_def member_text_def)
  then show ?case by (simp add: m member_text_def json_string_def scan_json_string)
next
  case (Cons kv1 kvs)
  let ?r = "comma_separated (map member_text (kv1 # kvs)) @ CHR ''}'' # u"
  from Cons.prems(2) obtain m where m: "n = Suc m" by (cases n) auto
  have "scan_once m (dumps (snd kv0) @ CHR '','' # ?r) = Some (snd kv0, CHR '','' # ?r)"
    using Cons.prems m unfolding comma_separated_Cons by (auto simp: decodes_def ends_value_def member_text_def simp del: list.map)
  moreover have "scan_object m ?r = Some (kv1 # kvs, u)" using Cons.IH [of kv1 m] Cons.prems m
    unfolding comma_separated_Cons [of _ kv0] by (simp del: list.map)
  moreover have "skip_whitespace ?r = ?r"
    unfolding comma_separated_Cons [of _ kv1] by (simp add: member_text_def json_string_def del: list.map)
  ultimately show ?case unfolding comma_separated_Cons [of _ kv0]
    by (simp add: m member_text_def json_string_def scan_json_string del: list.map)
qed

lemma decodes_dumps: "normal_json v \<Longrightarrow> small_ints v \<Longrightarrow> decodes v"
proof (induction v)
  case (JInt i)
  have "int_text i \<noteq> []" "hd (int_text i) \<notin> {CHR 0x22, CHR ''{'', CHR ''[''}"
    using dumps_start [of "JInt i"] by (auto simp: char_tag_def int_char_def is_digit_char_def less_eq_char_def)
  then have "scan_once (Suc n) (int_text i @ u) = scan_literal (int_text i @ u)" for n u by (cases "int_text i") auto
  moreover have "0 < length (int_text i)" using int_text_nonempty by simp
  ultimately show ?case using JInt scan_literal_int unfolding decodes_def
    by (metis dumps.simps(3) gr0_implies_Suc less_le_trans small_ints.simps(1))
next
  case (JString s)
  show ?case unfolding decodes_def
  proof (intro allI impI)
    fix n u assume "length (dumps (JString s)) \<le> n"
    then obtain m where "n = Suc m" by (cases n) (auto simp: json_string_def)
    then show "scan_once n (dumps (JString s) @ u) = Some (JString s, u)" by (simp add: json_string_def scan_json_string)
  qed
next
  case (JArray vs)
  then have d: "\<forall>v \<in> set vs. decodes v" by (simp add: list_all_iff)
  show ?case unfolding decodes_def
  proof (intro allI impI)
    fix n u assume n: "length (dumps (JArray vs)) \<le> n"
    then obtain m where m: "n = Suc m" by (cases n) auto
    show "scan_once n (dumps (JArray vs) @ u) = Some (JArray vs, u)"
    proof (cases vs)
      case (Cons v0 ws)
      let ?r = "comma_separated (map dumps (v0 # ws)) @ CHR '']'' # u"
      have "scan_array m ?r = Some (v0 # ws, u)" by (rule scan_array_dumps) (use d n m Cons in auto)
      moreover have "skip_whitespace ?r = ?r" by (simp add: comma_separated_Cons del: list.map)
      moreover have "next_char (CHR '']'') ?r = None" using dumps_not_end [of v0] dumps_start [of v0]
        by (cases "dumps v0") (auto simp: comma_separated_Cons ends_value_def simp del: list.map)
      ultimately show ?thesis by (simp add: m Cons del: list.map)
    qed (simp add: m)
  qed
next
  case (JObject kvs)
  have s: "sorted_unique fst kvs" using JObject.prems by simp
  have d: "\<forall>kv \<in> set kvs. decodes (snd kv)"
  proof
    fix kv assume kv: "kv \<in> set kvs"
    have "normal_json (snd kv)" "small_ints (snd kv)" using JObject.prems kv by (auto simp: list_all_iff case_prod_unfold)
    then show "decodes (snd kv)" using JObject.IH [OF kv, of "snd kv"] by (simp add: snds.simps)
  qed
  show ?case unfolding decodes_def
  proof (intro allI impI)
    fix n u assume n: "length (dumps (JObject kvs)) \<le> n"
    then obtain m where m: "n = Suc m" by (cases n) auto
    show "scan_once n (dumps (JObject kvs) @ u) = Some (JObject kvs, u)"
    proof (cases kvs)
      case (Cons kv0 ws)
      let ?r = "comma_separated (map member_text (kv0 # ws)) @ CHR ''}'' # u"
      have len: "length (comma_separated (map member_text (kv0 # ws))) < m"
        using n m s Cons by (simp only: dumps_normal_object) simp
      have "scan_object m ?r = Some (kv0 # ws, u)" by (rule scan_object_dumps [OF _ len]) (use d Cons in auto)
      moreover have "skip_whitespace ?r = ?r" "next_char (CHR ''}'') ?r = None"
        unfolding comma_separated_Cons [of _ kv0] by (simp_all add: member_text_def json_string_def del: list.map)
      moreover have "reject_duplicate_keys (kv0 # ws) = Some (JObject (kv0 # ws))"
        using sorted_unique_distinct [OF s] Cons by (simp add: reject_duplicate_keys_def)
      ultimately show ?thesis unfolding dumps_normal_object [OF s] unfolding m Cons by (simp del: list.map)
    qed (simp add: m)
  qed
qed (auto simp: decodes_def scan_literal_def Suc_le_eq gr0_conv_Suc elim: less_natE)

lemma spec2_impI: "\<forall>n u. P n \<longrightarrow> Q u \<longrightarrow> R n u \<Longrightarrow> P n \<Longrightarrow> Q u \<Longrightarrow> R n u"
  by blast

lemma json_loads_dumps:
  assumes "normal_json v" "small_ints v"
  shows "json_loads (dumps v) = Some v"
proof -
  have "scan_once (Suc (2 * length (dumps v))) (dumps v @ []) = Some (v, [])"
    using decodes_dumps [OF assms] unfolding decodes_def by (rule spec2_impI) (simp_all add: ends_value_def)
  then show ?thesis using skip_dumps [of v "[]"] by (simp add: json_loads_def del: scan_once.simps)
qed

section \<open>The fuel is enough\<close>

lemma skip_whitespace_length: "length (skip_whitespace s) \<le> length s"
  by (induction s) auto

lemma next_char_length: "next_char c s = Some u \<Longrightarrow> length s = Suc (length u)"
  by (cases s) (auto split: if_splits)

lemma scan_string_length: "scan_string s = Some (t, u) \<Longrightarrow> length u < length s"
proof (induction s arbitrary: t u rule: scan_string.induct)
  case (2 c cs)
  then show ?case by (fastforce simp: prepend_def split: if_splits list.splits option.splits)
qed simp

lemma scan_natural_length: "scan_natural s = Some (n, u) \<Longrightarrow> length u < length s"
  by (auto simp: scan_natural_def Let_def split: list.splits if_splits)

lemma scan_literal_length: "scan_literal s = Some (v, u) \<Longrightarrow> length u < length s"
  by (cases s) (auto simp: scan_literal_def scan_int_def dest!: scan_natural_length next_char_length split: if_splits option.splits)

definition consumes :: "(string \<Rightarrow> ('a \<times> string) option) \<Rightarrow> bool" where
  "consumes f = (\<forall>s v u. f s = Some (v, u) \<longrightarrow> length u < length s)"

lemma consumesD: "consumes f \<Longrightarrow> f s = Some (v, u) \<Longrightarrow> length u < length s"
  by (auto simp: consumes_def)

lemma less_skip: "m < length (skip_whitespace s) \<Longrightarrow> m < length s"
  using skip_whitespace_length less_le_trans by blast

lemma consumes_once:
  assumes "consumes (scan_array n)" "consumes (scan_object n)"
  shows "consumes (scan_once (Suc n))"
  unfolding consumes_def
proof (intro allI impI)
  fix s v u assume s: "scan_once (Suc n) s = Some (v, u)"
  then obtain c cs where c: "s = c # cs" by (cases s) auto
  note sk = skip_whitespace_length [of cs]
  from s c consider "scan_literal s = Some (v, u)" | t where "scan_string cs = Some (t, u)"
    | d where "next_char d (skip_whitespace cs) = Some u" | kvs where "scan_object n (skip_whitespace cs) = Some (kvs, u)"
    | vs where "scan_array n (skip_whitespace cs) = Some (vs, u)"
    by (auto split: if_splits option.splits)
  then show "length u < length s"
    by cases (use sk c in \<open>auto dest!: scan_literal_length scan_string_length next_char_length consumesD [OF assms(1)] consumesD [OF assms(2)]\<close>)
qed

lemma consumes_array:
  assumes "consumes (scan_once n)" "consumes (scan_array n)"
  shows "consumes (scan_array (Suc n))"
  unfolding consumes_def
proof (intro allI impI)
  fix s vs u assume s: "scan_array (Suc n) s = Some (vs, u)"
  then obtain v r where r: "scan_once n s = Some (v, r)" by (auto split: option.splits)
  from s r consider "next_char (CHR '']'') (skip_whitespace r) = Some u"
    | w ws where "next_char (CHR '','') (skip_whitespace r) = Some w" "scan_array n (skip_whitespace w) = Some (ws, u)"
    by (auto split: if_splits option.splits)
  then show "length u < length s"
    by cases (use consumesD [OF assms(1) r] skip_whitespace_length [of r] in
        \<open>auto dest!: next_char_length consumesD [OF assms(2)] less_skip\<close>)
qed

lemma consumes_object:
  assumes "consumes (scan_once n)" "consumes (scan_object n)"
  shows "consumes (scan_object (Suc n))"
  unfolding consumes_def
proof (intro allI impI)
  fix s kvs u assume s: "scan_object (Suc n) s = Some (kvs, u)"
  then obtain a k b where k: "next_char (CHR 0x22) s = Some a" "scan_string a = Some (k, b)"
    by (cases "next_char (CHR 0x22) s"; cases "Option.bind (next_char (CHR 0x22) s) scan_string") auto
  from s k obtain c v r where v: "next_char (CHR '':'') (skip_whitespace b) = Some c" "scan_once n (skip_whitespace c) = Some (v, r)"
    by (cases "next_char (CHR '':'') (skip_whitespace b)") (auto split: option.splits)
  from s k v consider "next_char (CHR ''}'') (skip_whitespace r) = Some u"
    | w ws where "next_char (CHR '','') (skip_whitespace r) = Some w" "scan_object n (skip_whitespace w) = Some (ws, u)"
    by (auto split: if_splits option.splits)
  moreover have "length r < length s"
    using next_char_length [OF k(1)] scan_string_length [OF k(2)] next_char_length [OF v(1)] skip_whitespace_length [of b]
      less_skip [OF consumesD [OF assms(1) v(2)]] by linarith
  ultimately show "length u < length s"
    by cases (use skip_whitespace_length [of r] in \<open>auto dest!: next_char_length consumesD [OF assms(2)] less_skip\<close>)
qed

lemma consumes_all: "consumes (scan_once n) \<and> consumes (scan_array n) \<and> consumes (scan_object n)"
  by (induction n) (simp_all add: consumes_once consumes_array consumes_object del: scan_once.simps(2) scan_array.simps(2)
      scan_object.simps(2), simp add: consumes_def)

lemma scan_object_fuel:
  assumes obj: "\<And>x k b y v u d w. Option.bind (next_char x s) scan_string = Some (k, b) \<Longrightarrow>
      Option.bind (next_char y (skip_whitespace b)) (\<lambda>w. scan_once n (skip_whitespace w)) = Some (v, u) \<Longrightarrow>
      next_char d (skip_whitespace u) = Some w \<Longrightarrow>
      scan_object (Suc n) (skip_whitespace w) = scan_object n (skip_whitespace w)"
    and once: "\<And>x k b y w. Option.bind (next_char x s) scan_string = Some (k, b) \<Longrightarrow> next_char y (skip_whitespace b) = Some w \<Longrightarrow>
      scan_once (Suc n) (skip_whitespace w) = scan_once n (skip_whitespace w)"
  shows "scan_object (Suc (Suc n)) s = scan_object (Suc n) s"
proof (cases "Option.bind (next_char (CHR 0x22) s) scan_string")
  case (Some kb)
  obtain k b where kb: "kb = (k, b)" by (cases kb)
  let ?in = "\<lambda>m. Option.bind (next_char (CHR '':'') (skip_whitespace b)) (\<lambda>w. scan_once m (skip_whitespace w))"
  have inner: "?in (Suc n) = ?in n"
    using once [OF Some [unfolded kb]] by (cases "next_char (CHR '':'') (skip_whitespace b)") (simp_all del: scan_once.simps)
  show ?thesis
  proof (cases "?in n")
    case None
    then show ?thesis unfolding scan_object.simps(2) Some kb option.case prod.case inner by simp
  next
    case in': (Some vu)
    obtain v u where vu: "vu = (v, u)" by (cases vu)
    show ?thesis
      using obj [OF Some [unfolded kb] in' [unfolded vu], of "CHR '',''"]
      unfolding scan_object.simps(2) [of "Suc n" s] scan_object.simps(2) [of n s] Some kb option.case prod.case inner in' vu
      by (cases "next_char (CHR '','') (skip_whitespace u)")
        (simp_all del: scan_object.simps scan_once.simps split: option.split)
  qed
qed simp

lemma scan_stable_step:
  assumes once: "\<And>s. 2 * length s < n \<Longrightarrow> scan_once (Suc n) s = scan_once n s"
    and arr: "\<And>s. 2 * length s + 1 < n \<Longrightarrow> scan_array (Suc n) s = scan_array n s"
    and obj: "\<And>s. 2 * length s + 1 < n \<Longrightarrow> scan_object (Suc n) s = scan_object n s"
  shows "2 * length s < Suc n \<Longrightarrow> scan_once (Suc (Suc n)) s = scan_once (Suc n) s"
    and "2 * length s + 1 < Suc n \<Longrightarrow> scan_array (Suc (Suc n)) s = scan_array (Suc n) s"
    and "2 * length s + 1 < Suc n \<Longrightarrow> scan_object (Suc (Suc n)) s = scan_object (Suc n) s"
proof -
  note c = consumes_all [of n]
  {
    assume l: "2 * length s < Suc n"
    show "scan_once (Suc (Suc n)) s = scan_once (Suc n) s"
    proof (cases s)
      case (Cons x xs)
      have sk: "2 * length (skip_whitespace xs) + 1 < n" using l Cons skip_whitespace_length [of xs] by simp
      from obj [OF sk] arr [OF sk] show ?thesis by (simp only: scan_once.simps Cons list.case)
    qed simp
  }
  {
    assume l: "2 * length s + 1 < Suc n"
    then have e: "scan_once (Suc n) s = scan_once n s" by (intro once) simp
    have "scan_array (Suc n) (skip_whitespace w) = scan_array n (skip_whitespace w)"
      if "scan_once n s = Some (v, u)" "next_char d (skip_whitespace u) = Some w" for v u d w
      using consumesD [OF conjunct1 [OF c] that(1)] next_char_length [OF that(2)] skip_whitespace_length [of u]
        skip_whitespace_length [of w] l by (intro arr) linarith
    then show "scan_array (Suc (Suc n)) s = scan_array (Suc n) s"
      unfolding scan_array.simps(2) [of "Suc n"] scan_array.simps(2) [of n] e
      by (auto split: option.splits simp del: scan_array.simps)
    have "scan_object (Suc n) (skip_whitespace w) = scan_object n (skip_whitespace w)"
      if "Option.bind (next_char x s) scan_string = Some (k, b)"
        "Option.bind (next_char y (skip_whitespace b)) (\<lambda>w. scan_once n (skip_whitespace w)) = Some (v, u)"
        "next_char d (skip_whitespace u) = Some w" for x k b y v u d w
    proof -
      have "length b < length s" using that(1) by (auto simp: Option.bind_eq_Some_conv dest!: next_char_length scan_string_length)
      moreover have "length u < length b"
        using that(2) skip_whitespace_length [of b]
        by (auto simp: Option.bind_eq_Some_conv dest!: next_char_length consumesD [OF conjunct1 [OF c]] less_skip)
      ultimately show ?thesis using next_char_length [OF that(3)] skip_whitespace_length [of u] skip_whitespace_length [of w] l
        by (intro obj) linarith
    qed
    moreover have "scan_once (Suc n) (skip_whitespace w) = scan_once n (skip_whitespace w)"
      if "Option.bind (next_char x s) scan_string = Some (k, b)" "next_char y (skip_whitespace b) = Some w" for x k b y w
    proof -
      have "length b < length s" using that(1) by (auto simp: Option.bind_eq_Some_conv dest!: next_char_length scan_string_length)
      then show ?thesis using next_char_length [OF that(2)] skip_whitespace_length [of b] skip_whitespace_length [of w] l
        by (intro once) linarith
    qed
    ultimately show "scan_object (Suc (Suc n)) s = scan_object (Suc n) s" by (rule scan_object_fuel)
  }
qed

lemma scan_stable:
  "(2 * length s < n \<longrightarrow> scan_once (Suc n) s = scan_once n s)
   \<and> (2 * length s + 1 < n \<longrightarrow> scan_array (Suc n) s = scan_array n s \<and> scan_object (Suc n) s = scan_object n s)"
proof (induction n arbitrary: s)
  case (Suc n)
  have "2 * length s < n \<Longrightarrow> scan_once (Suc n) s = scan_once n s" "2 * length s + 1 < n \<Longrightarrow> scan_array (Suc n) s = scan_array n s"
    "2 * length s + 1 < n \<Longrightarrow> scan_object (Suc n) s = scan_object n s" for s
    using Suc.IH [of s] by blast+
  from scan_stable_step [OF this] show ?case by blast
qed simp

lemma scan_enough_fuel:
  assumes "2 * length s < n"
  shows "scan_once (n + k) s = scan_once n s"
proof (induction k)
  case (Suc k)
  have "2 * length s < n + k" using assms by simp
  with Suc scan_stable [of s "n + k"] show ?case by simp
qed simp

end
