(* ===== verification/Ledger_Repository.thy ===== *)
theory Ledger_Repository
  imports Ledger_Snapshots Json_Decode
begin

text \<open>
  The hermetic repository boundary of the ledger (\<^verbatim>\<open>src/packages/event_ledger/repository.py\<close>): outbox
  intents, the in-memory ledger with its append, outbox, inbox and snapshot operations, and the
  operations as steps on its state. An exception leaves the state as it was: every operation checks
  before it writes.
\<close>

section \<open>Outbox intents\<close>

record outbox_intent =
  oi_event_id :: uuid
  oi_topic :: string
  oi_payload_json :: string

definition canonical_payload_json :: "string \<Rightarrow> string res" where
  "canonical_payload_json value =
     (case json_loads value of
        None \<Rightarrow> Inl (ValueError ''payload_json must be canonical JSON'')
      | Some decoded \<Rightarrow>
          bindE (catch_value_error (validate_postgres_json_strings decoded)
                   (ValueError ''payload_json must be canonical JSON'')) (\<lambda>_.
          if value \<noteq> dumps decoded then Inl (ValueError ''payload_json must use canonical JSON encoding'')
          else Inr value))"

definition mk_outbox_intent :: "outbox_intent \<Rightarrow> outbox_intent res" where
  "mk_outbox_intent intent =
     wrap_validation (
       bindE (require_field ''topic'' (bounded_text (oi_topic intent))) (\<lambda>_.
       bindE (require_field ''payload_json'' (2 \<le> length (oi_payload_json intent) \<and> length (oi_payload_json intent) \<le> 65536)) (\<lambda>_.
       bindE (canonical_payload_json (oi_payload_json intent)) (\<lambda>_.
       Inr intent))))"

record append_outcome =
  ao_event_id :: uuid
  ao_inserted :: bool

section \<open>The ledger\<close>

record ledger_store =
  ls_events :: "(uuid \<times> stored_event) list"
  ls_append_idempotency :: "(uuid \<times> string) list"
  ls_outbox :: "(uuid \<times> outbox_intent) list"
  ls_publications :: "uuid set"
  ls_inbox :: "(string \<times> uuid) set"
  ls_snapshots :: "(string \<times> ledger_result) list"

definition empty_ledger :: ledger_store where
  "empty_ledger = \<lparr>ls_events = [], ls_append_idempotency = [], ls_outbox = [], ls_publications = {}, ls_inbox = {},
     ls_snapshots = []\<rparr>"

definition validate_delivery_order :: "ledger_store \<Rightarrow> stored_event \<Rightarrow> unit res" where
  "validate_delivery_order s record =
     (let sequences = map se_sequence (filter (\<lambda>r. se_stream_id r = se_stream_id record) (map snd (ls_events s)));
          expected = (if sequences = [] then 0 else Max (set sequences)) + 1
      in if se_sequence record \<noteq> expected
         then Inl (SequenceError (''stream '' @ uuid_text (se_stream_id record) @ '' expected sequence ''
                @ int_text expected @ '', got '' @ int_text (se_sequence record)))
         else Inr ())"

fun big_endian :: "nat \<Rightarrow> nat \<Rightarrow> string" where
  "big_endian 0 n = []"
| "big_endian (Suc k) n = big_endian k (n div 256) @ [char_of (n mod 256)]"

definition uuid_bytes :: "uuid \<Rightarrow> string" where
  "uuid_bytes u = big_endian 16 (unat u)"

definition framed_part :: "string \<Rightarrow> string res" where
  "framed_part part =
     (if length part < 256 ^ 8 then Inr (big_endian 8 (length part) @ part) else Inl OverflowError)"

definition append_request_parts :: "stored_event \<Rightarrow> outbox_intent \<Rightarrow> string list" where
  "append_request_parts record outbox =
     [uuid_bytes (se_event_id record), uuid_bytes (se_stream_id record), int_text (se_sequence record),
      utf8 (se_event_type record), utf8 (se_canonical_json record), utf8 (oi_topic outbox), utf8 (oi_payload_json outbox)]"

definition append_request_digest :: "'p ledger_codec \<Rightarrow> stored_event \<Rightarrow> outbox_intent \<Rightarrow> string res" where
  "append_request_digest lc record outbox =
     bindE (mapE framed_part (append_request_parts record outbox)) (\<lambda>frames. Inr (lc_sha256 lc (concat frames)))"

definition event_conflict :: "uuid \<Rightarrow> error" where
  "event_conflict event_id = EventConflictError (''conflicting content for event_id '' @ uuid_text event_id)"

definition append_event ::
  "'p payload_ops \<Rightarrow> 'p ledger_codec \<Rightarrow> ledger_store \<Rightarrow> 'p event_envelope \<Rightarrow> outbox_intent
    \<Rightarrow> (ledger_store \<times> append_outcome) res" where
  "append_event ops lc s event outbox =
     bindE (from_envelope ops lc event) (\<lambda>record.
     bindE (catch_validation_error (mk_outbox_intent outbox) (EventConflictError ''invalid outbox intent'')) (\<lambda>outbox.
     if oi_event_id outbox \<noteq> se_event_id record
     then Inl (EventConflictError ''outbox intent must reference the appended event'')
     else
       bindE (append_request_digest lc record outbox) (\<lambda>request_digest.
       case map_of (ls_append_idempotency s) (se_event_id record) of
         Some prior_digest \<Rightarrow>
           if prior_digest = request_digest
           then Inr (s, \<lparr>ao_event_id = se_event_id record, ao_inserted = False\<rparr>)
           else Inl (event_conflict (se_event_id record))
       | None \<Rightarrow>
           if se_event_id record \<in> fst ` set (ls_events s) then Inl (event_conflict (se_event_id record))
           else
             bindE (validate_delivery_order s record) (\<lambda>_.
             Inr (s\<lparr>ls_events := dict_put (se_event_id record) record (ls_events s),
                    ls_append_idempotency := dict_put (se_event_id record) request_digest (ls_append_idempotency s),
                    ls_outbox := dict_put (se_event_id record) outbox (ls_outbox s)\<rparr>,
                  \<lparr>ao_event_id = se_event_id record, ao_inserted = True\<rparr>)))))"

definition load_events :: "'p payload_ops \<Rightarrow> 'p ledger_codec \<Rightarrow> ledger_store \<Rightarrow> 'p event_envelope list res" where
  "load_events ops lc s =
     mapE (\<lambda>record. deserialize_event ops lc (se_canonical_json record)) (sort_key stored_key (map snd (ls_events s)))"

definition load_stream_events ::
  "'p payload_ops \<Rightarrow> 'p ledger_codec \<Rightarrow> ledger_store \<Rightarrow> uuid \<Rightarrow> 'p event_envelope list res" where
  "load_stream_events ops lc s stream_id =
     mapE (\<lambda>record. deserialize_event ops lc (se_canonical_json record))
       (sort_key (\<lambda>r. (se_sequence r, se_event_id r))
          (filter (\<lambda>r. se_stream_id r = stream_id) (map snd (ls_events s))))"

definition load_outbox :: "ledger_store \<Rightarrow> outbox_intent list" where
  "load_outbox s = map snd (sort_key fst (ls_outbox s))"

definition acknowledge_outbox :: "ledger_store \<Rightarrow> uuid \<Rightarrow> (ledger_store \<times> bool) res" where
  "acknowledge_outbox s event_id =
     (if event_id \<in> ls_publications s then Inr (s, False)
      else if event_id \<notin> fst ` set (ls_outbox s)
      then Inl (EventConflictError (''event_id '' @ uuid_text event_id @ '' has no pending outbox work''))
      else Inr (s\<lparr>ls_publications := insert event_id (ls_publications s),
                  ls_outbox := filter (\<lambda>(k, _). k \<noteq> event_id) (ls_outbox s)\<rparr>, True))"

definition claim_inbox :: "ledger_store \<Rightarrow> string \<Rightarrow> uuid \<Rightarrow> (ledger_store \<times> bool) res" where
  "claim_inbox s consumer event_id =
     (if consumer = [] \<or> 256 < length consumer
      then Inl (ReplayError ''consumer must be bounded non-empty text'')
      else if event_id \<notin> fst ` set (ls_events s)
      then Inl (EventConflictError (''event_id '' @ uuid_text event_id @ '' does not exist in the ledger''))
      else if (consumer, event_id) \<in> ls_inbox s then Inr (s, False)
      else Inr (s\<lparr>ls_inbox := insert (consumer, event_id) (ls_inbox s)\<rparr>, True))"

definition catch_replay_error :: "'a res \<Rightarrow> error \<Rightarrow> 'a res" where
  "catch_replay_error m e' =
     (case m of
        Inl e \<Rightarrow>
          Inl (case e of
                 ReplayError _ \<Rightarrow> e' | ConflictingEventError _ \<Rightarrow> e' | SequenceError _ \<Rightarrow> e'
               | EventConflictError _ \<Rightarrow> e' | _ \<Rightarrow> e)
      | Inr x \<Rightarrow> Inr x)"

definition save_snapshot :: "'p ledger_codec \<Rightarrow> ledger_store \<Rightarrow> ledger_result \<Rightarrow> ledger_store res" where
  "save_snapshot lc s snapshot =
     bindE (catch_replay_error (validate_snapshot lc snapshot) (EventConflictError ''invalid snapshot'')) (\<lambda>snapshot.
     case map_of (ls_snapshots s) (lr_state_hash snapshot) of
       Some prior \<Rightarrow>
         if lr_canonical_state_json prior = lr_canonical_state_json snapshot then Inr s
         else Inl (EventConflictError (''conflicting content for snapshot hash '' @ lr_state_hash snapshot))
     | None \<Rightarrow> Inr (s\<lparr>ls_snapshots := dict_put (lr_state_hash snapshot) snapshot (ls_snapshots s)\<rparr>))"

definition load_snapshot :: "'p ledger_codec \<Rightarrow> ledger_store \<Rightarrow> string \<Rightarrow> ledger_result option res" where
  "load_snapshot lc s state_hash =
     (if \<not> sha256_hex state_hash
      then Inl (ReplayError ''snapshot state_hash must be a lowercase sha256 hex digest'')
      else mk_optional (validate_snapshot lc) (map_of (ls_snapshots s) state_hash))"

section \<open>Reachable ledgers\<close>

inductive ledger_reachable :: "'p payload_ops \<Rightarrow> 'p ledger_codec \<Rightarrow> ledger_store \<Rightarrow> bool" for ops lc where
  initial: "ledger_reachable ops lc empty_ledger"
| appended: "ledger_reachable ops lc s \<Longrightarrow> append_event ops lc s event outbox = Inr (s', r) \<Longrightarrow> ledger_reachable ops lc s'"
| acknowledged: "ledger_reachable ops lc s \<Longrightarrow> acknowledge_outbox s event_id = Inr (s', b) \<Longrightarrow> ledger_reachable ops lc s'"
| claimed: "ledger_reachable ops lc s \<Longrightarrow> claim_inbox s consumer event_id = Inr (s', b) \<Longrightarrow> ledger_reachable ops lc s'"
| saved: "ledger_reachable ops lc s \<Longrightarrow> save_snapshot lc s snapshot = Inr s' \<Longrightarrow> ledger_reachable ops lc s'"

datatype 'p ledger_op =
    OpAppend "'p event_envelope" outbox_intent
  | OpAcknowledge uuid
  | OpClaim string uuid
  | OpSave ledger_result

definition perform ::
  "'p payload_ops \<Rightarrow> 'p ledger_codec \<Rightarrow> ledger_store \<Rightarrow> 'p ledger_op \<Rightarrow> (ledger_store \<times> bool option) res" where
  "perform ops lc s operation =
     (case operation of
        OpAppend event outbox \<Rightarrow> bindE (append_event ops lc s event outbox) (\<lambda>(s', r). Inr (s', Some (ao_inserted r)))
      | OpAcknowledge event_id \<Rightarrow> bindE (acknowledge_outbox s event_id) (\<lambda>(s', b). Inr (s', Some b))
      | OpClaim consumer event_id \<Rightarrow> bindE (claim_inbox s consumer event_id) (\<lambda>(s', b). Inr (s', Some b))
      | OpSave snapshot \<Rightarrow> bindE (save_snapshot lc s snapshot) (\<lambda>s'. Inr (s', None)))"

definition ledger_step :: "'p payload_ops \<Rightarrow> 'p ledger_codec \<Rightarrow> ledger_store \<Rightarrow> 'p ledger_op \<Rightarrow> ledger_store res" where
  "ledger_step ops lc s operation = bindE (perform ops lc s operation) (\<lambda>(s', r). Inr s')"

definition stored_records :: "ledger_store \<Rightarrow> stored_event list" where
  "stored_records s = map snd (ls_events s)"

definition events_ok :: "ledger_store \<Rightarrow> bool" where
  "events_ok s =
     (map fst (ls_events s) = map se_event_id (stored_records s) \<and> distinct (map se_event_id (stored_records s))
      \<and> continues (\<lambda>_. 0) (stored_records s)
      \<and> map fst (ls_append_idempotency s) = map fst (ls_events s))"

definition outbox_ok :: "ledger_store \<Rightarrow> bool" where
  "outbox_ok s =
     (distinct (map fst (ls_outbox s)) \<and> (\<forall>(k, intent) \<in> set (ls_outbox s). oi_event_id intent = k)
      \<and> fst ` set (ls_outbox s) \<union> ls_publications s = fst ` set (ls_events s)
      \<and> fst ` set (ls_outbox s) \<inter> ls_publications s = {})"

definition inbox_ok :: "ledger_store \<Rightarrow> bool" where
  "inbox_ok s = (\<forall>(c, i) \<in> ls_inbox s. bounded_text c \<and> i \<in> fst ` set (ls_events s))"

definition snapshots_ok :: "'p ledger_codec \<Rightarrow> ledger_store \<Rightarrow> bool" where
  "snapshots_ok lc s =
     (distinct (map fst (ls_snapshots s))
      \<and> (\<forall>(h, r) \<in> set (ls_snapshots s). lr_state_hash r = h \<and> validate_snapshot lc r = Inr r))"

definition ledger_ok :: "'p ledger_codec \<Rightarrow> ledger_store \<Rightarrow> bool" where
  "ledger_ok lc s = (events_ok s \<and> outbox_ok s \<and> inbox_ok s \<and> snapshots_ok lc s)"

lemma catch_replay_Inr_iff [res_simps]: "catch_replay_error m e = Inr y \<longleftrightarrow> m = Inr y"
  by (cases m) (auto simp: catch_replay_error_def)

lemma append_event_cases:
  assumes "append_event ops lc s event outbox = Inr (s', r)"
  obtains (retry) rc d where "from_envelope ops lc event = Inr rc" "mk_outbox_intent outbox = Inr outbox"
      "oi_event_id outbox = se_event_id rc" "append_request_digest lc rc outbox = Inr d"
      "map_of (ls_append_idempotency s) (se_event_id rc) = Some d" "s' = s"
      "r = \<lparr>ao_event_id = se_event_id rc, ao_inserted = False\<rparr>"
  | (inserted) rc d where "from_envelope ops lc event = Inr rc" "mk_outbox_intent outbox = Inr outbox"
      "oi_event_id outbox = se_event_id rc" "append_request_digest lc rc outbox = Inr d"
      "map_of (ls_append_idempotency s) (se_event_id rc) = None" "se_event_id rc \<notin> fst ` set (ls_events s)"
      "validate_delivery_order s rc = Inr ()"
      "s' = s\<lparr>ls_events := dict_put (se_event_id rc) rc (ls_events s),
                    ls_append_idempotency := dict_put (se_event_id rc) d (ls_append_idempotency s),
                    ls_outbox := dict_put (se_event_id rc) outbox (ls_outbox s)\<rparr>"
      "r = \<lparr>ao_event_id = se_event_id rc, ao_inserted = True\<rparr>"
proof -
  have id: "mk_outbox_intent outbox = Inr o' \<Longrightarrow> o' = outbox" for o'
    by (auto simp: mk_outbox_intent_def res_simps)
  from assms obtain rc o' d where m: "from_envelope ops lc event = Inr rc" "mk_outbox_intent outbox = Inr o'"
      "oi_event_id o' = se_event_id rc" "append_request_digest lc rc o' = Inr d"
    by (auto simp: append_event_def bindE_Inr_iff if_Inl_Inr_iff catch_validation_Inr_iff)
  note o' = id [OF m(2)]
  show thesis
  proof (cases "map_of (ls_append_idempotency s) (se_event_id rc)")
    case None
    show thesis by (rule inserted [OF m [unfolded o'] None])
        (use assms m None o' in \<open>auto simp: append_event_def bindE_Inr_iff split: if_splits\<close>)
  next
    case (Some p)
    show thesis by (rule retry [OF m [unfolded o']])
        (use assms m Some o' in \<open>auto simp: append_event_def split: if_splits\<close>)
  qed
qed


section \<open>The invariant\<close>

lemma delivery_order_iff:
  assumes "continues (\<lambda>_. 0) (stored_records s)"
  shows "validate_delivery_order s r = Inr () \<longleftrightarrow> continues (\<lambda>_. 0) (stored_records s @ [r])"
proof -
  let ?q = "in_stream (se_stream_id r) (stored_records s)"
  have q: "map se_sequence ?q = map int [1..<Suc (length ?q)]" by (rule continues_positions [OF assms])
  have "(if map se_sequence ?q = [] then 0 else Max (set (map se_sequence ?q))) = int (length ?q)"
  proof (cases "?q = []")
    case False
    have "set (map se_sequence ?q) = int ` {1..length ?q}" unfolding q by auto
    moreover have "Max (int ` {1..length ?q}) = int (length ?q)"
      using False by (intro Max_eqI) (auto simp: Suc_le_eq)
    ultimately show ?thesis using False by simp
  qed simp
  then show ?thesis using assms
    by (simp add: validate_delivery_order_def Let_def continues_snoc stored_records_def [symmetric] in_stream_def [symmetric] del: map_map)
qed

lemma ok_unchanged [simp]:
  "events_ok (s\<lparr>ls_outbox := a\<rparr>) = events_ok s" "events_ok (s\<lparr>ls_publications := b\<rparr>) = events_ok s"
  "events_ok (s\<lparr>ls_inbox := c\<rparr>) = events_ok s" "events_ok (s\<lparr>ls_snapshots := d\<rparr>) = events_ok s"
  "outbox_ok (s\<lparr>ls_inbox := c\<rparr>) = outbox_ok s" "outbox_ok (s\<lparr>ls_snapshots := d\<rparr>) = outbox_ok s"
  "inbox_ok (s\<lparr>ls_outbox := a\<rparr>) = inbox_ok s" "inbox_ok (s\<lparr>ls_publications := b\<rparr>) = inbox_ok s"
  "inbox_ok (s\<lparr>ls_snapshots := d\<rparr>) = inbox_ok s"
  "snapshots_ok lc (s\<lparr>ls_outbox := a\<rparr>) = snapshots_ok lc s" "snapshots_ok lc (s\<lparr>ls_publications := b\<rparr>) = snapshots_ok lc s"
  "snapshots_ok lc (s\<lparr>ls_inbox := c\<rparr>) = snapshots_ok lc s"
  by (simp_all add: events_ok_def outbox_ok_def inbox_ok_def snapshots_ok_def stored_records_def)

lemma ledger_ok_append:
  assumes ok: "ledger_ok lc s" and ap: "append_event ops lc s event outbox = Inr (s', r)"
  shows "ledger_ok lc s'"
  using ap
proof (cases rule: append_event_cases)
  case (inserted rc d)
  let ?i = "se_event_id rc"
  have e: "events_ok s" and o: "outbox_ok s" and n: "inbox_ok s" and p: "snapshots_ok lc s" using ok by (simp_all add: ledger_ok_def)
  have fresh: "?i \<notin> fst ` set (ls_events s)" by (rule inserted(6))
  have "set (map fst (ls_append_idempotency s)) = set (map fst (ls_events s))"
    "set (map fst (ls_events s)) = set (map se_event_id (stored_records s))" using e by (simp_all only: events_ok_def)
  then have keys: "?i \<notin> fst ` set (ls_append_idempotency s)" "?i \<notin> se_event_id ` set (stored_records s)" using fresh by auto
  have pend: "?i \<notin> fst ` set (ls_outbox s)" "?i \<notin> ls_publications s" using fresh o by (auto simp: outbox_ok_def)
  have ev: "ls_events s' = ls_events s @ [(?i, rc)]" "ls_append_idempotency s' = ls_append_idempotency s @ [(?i, d)]"
    "ls_outbox s' = ls_outbox s @ [(?i, outbox)]" "ls_publications s' = ls_publications s" "ls_inbox s' = ls_inbox s"
    "ls_snapshots s' = ls_snapshots s" using fresh keys(1) pend(1) by (simp_all add: inserted(8) dict_put_append)
  have recs: "stored_records s' = stored_records s @ [rc]" by (simp add: stored_records_def ev)
  have "events_ok s'"
    using e inserted(7) delivery_order_iff [of s rc] keys(2) by (simp add: events_ok_def recs ev)
  moreover have "outbox_ok s'" using o pend inserted(3) by (auto simp: outbox_ok_def ev)
  moreover have "inbox_ok s'" using n by (auto simp: inbox_ok_def ev)
  moreover have "snapshots_ok lc s'" using p by (simp add: snapshots_ok_def ev)
  ultimately show ?thesis by (simp add: ledger_ok_def)
qed (use ok in simp)

lemma ledger_ok_acknowledge:
  assumes ok: "ledger_ok lc s" and a: "acknowledge_outbox s i = Inr (s', b)"
  shows "ledger_ok lc s'"
proof (cases "i \<in> ls_publications s")
  case False
  with a have s': "s' = s\<lparr>ls_publications := insert i (ls_publications s), ls_outbox := filter (\<lambda>(k, _). k \<noteq> i) (ls_outbox s)\<rparr>"
    and i: "i \<in> fst ` set (ls_outbox s)" by (auto simp: acknowledge_outbox_def split: if_splits)
  have o: "outbox_ok s" using ok by (simp add: ledger_ok_def)
  have "fst ` set (filter (\<lambda>(k, _). k \<noteq> i) (ls_outbox s)) = fst ` set (ls_outbox s) - {i}" by force
  then have "outbox_ok s'" using o i unfolding outbox_ok_def s' by (auto simp: distinct_map_filter)
  then show ?thesis using ok by (simp add: ledger_ok_def s')
qed (use a ok in \<open>simp add: acknowledge_outbox_def\<close>)

lemma ledger_ok_claim:
  assumes ok: "ledger_ok lc s" and c: "claim_inbox s c i = Inr (s', b)"
  shows "ledger_ok lc s'"
proof (cases "(c, i) \<in> ls_inbox s")
  case False
  with c have s': "s' = s\<lparr>ls_inbox := insert (c, i) (ls_inbox s)\<rparr>" and i: "i \<in> fst ` set (ls_events s)" "bounded_text c"
    by (auto simp: claim_inbox_def bounded_text_def Suc_le_eq split: if_splits)
  have "inbox_ok s'" using ok i by (auto simp: ledger_ok_def inbox_ok_def s')
  then show ?thesis using ok by (simp add: ledger_ok_def s')
qed (use c ok in \<open>auto simp: claim_inbox_def split: if_splits\<close>)

lemma ledger_ok_save:
  assumes ok: "ledger_ok lc s" and sv: "save_snapshot lc s r = Inr s'"
  shows "ledger_ok lc s'"
proof -
  from sv obtain q where "validate_snapshot lc r = Inr q" by (auto simp: save_snapshot_def bindE_Inr_iff catch_replay_Inr_iff)
  with validate_snapshot_id [of lc r q] have v: "validate_snapshot lc r = Inr r" by simp
  show ?thesis
  proof (cases "map_of (ls_snapshots s) (lr_state_hash r)")
    case None
    then have n: "lr_state_hash r \<notin> fst ` set (ls_snapshots s)" by (simp add: map_of_eq_None_iff)
    have s': "s' = s\<lparr>ls_snapshots := dict_put (lr_state_hash r) r (ls_snapshots s)\<rparr>"
      using sv None v by (simp add: save_snapshot_def catch_replay_error_def)
    have "snapshots_ok lc s'" using ok v n by (auto simp: ledger_ok_def s' snapshots_ok_def dict_put_append)
    then show ?thesis using ok by (simp add: ledger_ok_def s')
  next
    case (Some p)
    then have "s' = s" using sv v by (auto simp: save_snapshot_def catch_replay_error_def split: if_splits)
    with ok show ?thesis by simp
  qed
qed

lemma reachable_ok: "ledger_reachable ops lc s \<Longrightarrow> ledger_ok lc s"
proof (induction rule: ledger_reachable.induct)
  case initial
  show ?case by (simp add: ledger_ok_def events_ok_def outbox_ok_def inbox_ok_def snapshots_ok_def empty_ledger_def stored_records_def)
qed (auto intro: ledger_ok_append ledger_ok_acknowledge ledger_ok_claim ledger_ok_save)

section \<open>Repeated requests\<close>

definition performed :: "'p payload_ops \<Rightarrow> 'p ledger_codec \<Rightarrow> ledger_store \<Rightarrow> 'p ledger_op \<Rightarrow> bool" where
  "performed ops lc s operation =
     (case operation of
        OpAppend event outbox \<Rightarrow>
          (\<exists>rc d. from_envelope ops lc event = Inr rc \<and> mk_outbox_intent outbox = Inr outbox
             \<and> oi_event_id outbox = se_event_id rc \<and> append_request_digest lc rc outbox = Inr d
             \<and> map_of (ls_append_idempotency s) (se_event_id rc) = Some d)
      | OpAcknowledge event_id \<Rightarrow> event_id \<in> ls_publications s
      | OpClaim consumer event_id \<Rightarrow>
          bounded_text consumer \<and> event_id \<in> fst ` set (ls_events s) \<and> (consumer, event_id) \<in> ls_inbox s
      | OpSave snapshot \<Rightarrow>
          validate_snapshot lc snapshot = Inr snapshot
          \<and> (\<exists>prior. map_of (ls_snapshots s) (lr_state_hash snapshot) = Some prior
               \<and> lr_canonical_state_json prior = lr_canonical_state_json snapshot))"

text \<open>What an operation leaves behind: everything already performed stays performed.\<close>

definition grows :: "ledger_store \<Rightarrow> ledger_store \<Rightarrow> bool" where
  "grows s t =
     (map_of (ls_append_idempotency s) \<subseteq>\<^sub>m map_of (ls_append_idempotency t) \<and> ls_publications s \<subseteq> ls_publications t
      \<and> fst ` set (ls_events s) \<subseteq> fst ` set (ls_events t) \<and> ls_inbox s \<subseteq> ls_inbox t
      \<and> map_of (ls_snapshots s) \<subseteq>\<^sub>m map_of (ls_snapshots t))"

lemma grows_refl [simp]: "grows s s"
  by (simp add: grows_def)

lemma map_le_fresh: "m k = None \<Longrightarrow> m \<subseteq>\<^sub>m m(k \<mapsto> v)"
  by (auto simp: map_le_def)

lemma grows_performed: "grows s t \<Longrightarrow> performed ops lc s d \<Longrightarrow> performed ops lc t d"
  by (cases d) (auto simp: performed_def grows_def map_le_def dom_def)

lemma save_snapshot_cases:
  assumes "save_snapshot lc s r = Inr s'"
  obtains (kept) p where "validate_snapshot lc r = Inr r" "map_of (ls_snapshots s) (lr_state_hash r) = Some p"
      "lr_canonical_state_json p = lr_canonical_state_json r" "s' = s"
  | (stored) "validate_snapshot lc r = Inr r" "map_of (ls_snapshots s) (lr_state_hash r) = None"
      "s' = s\<lparr>ls_snapshots := dict_put (lr_state_hash r) r (ls_snapshots s)\<rparr>"
proof -
  from assms obtain q where q: "validate_snapshot lc r = Inr q" by (auto simp: save_snapshot_def bindE_Inr_iff catch_replay_Inr_iff)
  with validate_snapshot_id [OF q] have v: "validate_snapshot lc r = Inr r" by simp
  show thesis
  proof (cases "map_of (ls_snapshots s) (lr_state_hash r)")
    case None
    with assms v show thesis by (intro stored) (simp_all add: save_snapshot_def catch_replay_error_def)
  next
    case (Some p)
    show thesis by (rule kept [OF v Some]) (use assms v Some in \<open>auto simp: save_snapshot_def catch_replay_error_def split: if_splits\<close>)
  qed
qed

lemma perform_grows:
  assumes "perform ops lc s d = Inr (t, r)"
  shows "grows s t \<and> performed ops lc t d"
proof (cases d)
  case (OpAppend e ob)
  with assms obtain r' where a: "append_event ops lc s e ob = Inr (t, r')" by (auto simp: perform_def bindE_Inr_iff)
  then show ?thesis unfolding OpAppend
    by (cases rule: append_event_cases) (auto simp: performed_def grows_def map_le_fresh dict_put_get dict_put_keys)
next
  case (OpAcknowledge i)
  with assms show ?thesis
    by (auto simp: perform_def performed_def grows_def bindE_Inr_iff acknowledge_outbox_def split: if_splits)
next
  case (OpClaim c i)
  with assms obtain b where "claim_inbox s c i = Inr (t, b)" by (auto simp: perform_def bindE_Inr_iff)
  then show ?thesis unfolding OpClaim
    by (auto simp: performed_def grows_def claim_inbox_def bounded_text_def Suc_le_eq split: if_splits)
next
  case (OpSave q)
  with assms have "save_snapshot lc s q = Inr t" by (auto simp: perform_def bindE_Inr_iff)
  then show ?thesis unfolding OpSave
    by (cases rule: save_snapshot_cases) (auto simp: performed_def grows_def map_le_fresh dict_put_get)
qed

lemma performed_again:
  assumes "performed ops lc s d"
  shows "\<exists>r. perform ops lc s d = Inr (s, r) \<and> r \<noteq> Some True"
proof (cases d)
  case (OpAppend e ob)
  with assms show ?thesis by (auto simp: performed_def perform_def append_event_def)
next
  case (OpAcknowledge i)
  with assms show ?thesis by (auto simp: performed_def perform_def acknowledge_outbox_def)
next
  case (OpClaim c i)
  with assms show ?thesis by (auto simp: performed_def perform_def claim_inbox_def bounded_text_def Suc_le_eq)
next
  case (OpSave q)
  with assms show ?thesis by (auto simp: performed_def perform_def save_snapshot_def catch_replay_error_def)
qed

lemma perform_ok: "ledger_ok lc s \<Longrightarrow> perform ops lc s d = Inr (t, r) \<Longrightarrow> ledger_ok lc t"
  by (cases d) (auto simp: perform_def bindE_Inr_iff intro: ledger_ok_append ledger_ok_acknowledge ledger_ok_claim ledger_ok_save)

lemma ledger_step_Inr: "ledger_step ops lc s d = Inr t \<longleftrightarrow> (\<exists>r. perform ops lc s d = Inr (t, r))"
  by (auto simp: ledger_step_def bindE_Inr_iff)

interpretation ledger: replay_safe "ledger_step ops lc" "ledger_ok lc" "performed ops lc" for ops lc
proof
  show "ledger_ok lc s \<Longrightarrow> ledger_step ops lc s d = Inr t \<Longrightarrow> ledger_ok lc t" for s d t
    by (auto simp: ledger_step_Inr intro: perform_ok)
  show "ledger_step ops lc s d = Inr t \<Longrightarrow> performed ops lc t d" for s d t
    by (auto simp: ledger_step_Inr dest: perform_grows)
  show "ledger_step ops lc s d = Inr t \<Longrightarrow> performed ops lc s c \<Longrightarrow> performed ops lc t c" for s d t c
    by (auto simp: ledger_step_Inr dest: perform_grows intro: grows_performed)
  show "performed ops lc s d \<Longrightarrow> ledger_step ops lc s d = Inr s" for s d
    using performed_again [of ops lc s d] by (auto simp: ledger_step_Inr)
qed

lemma empty_ledger_ok: "ledger_ok lc empty_ledger"
  by (rule reachable_ok [OF ledger_reachable.initial])

lemma step_reachable: "ledger_reachable ops lc s \<Longrightarrow> ledger_step ops lc s d = Inr t \<Longrightarrow> ledger_reachable ops lc t"
  by (cases d) (auto simp: ledger_step_Inr perform_def bindE_Inr_iff intro: ledger_reachable.intros)

lemma run_reachable: "ledger_reachable ops lc s \<Longrightarrow> foldE (ledger_step ops lc) s ds = Inr t \<Longrightarrow> ledger_reachable ops lc t"
  by (rule foldE_invariant [where P = "ledger_reachable ops lc"]) (auto intro: step_reachable)

section \<open>Effects happen once\<close>

definition run_step ::
  "'p payload_ops \<Rightarrow> 'p ledger_codec \<Rightarrow> ledger_store \<times> bool option list \<Rightarrow> 'p ledger_op
    \<Rightarrow> (ledger_store \<times> bool option list) res" where
  "run_step ops lc acc operation =
     bindE (perform ops lc (fst acc) operation) (\<lambda>(s, r). Inr (s, snd acc @ [r]))"

lemma run_once:
  assumes "foldE (run_step ops lc) (s, []) ds = Inr (t, rs)"
  shows "length rs = length ds \<and> (\<forall>d \<in> set ds. performed ops lc t d)
    \<and> (\<forall>j < length ds. ds ! j \<in> set (take j ds) \<longrightarrow> rs ! j \<noteq> Some True)"
  using assms
proof (induction ds arbitrary: t rs rule: rev_induct)
  case (snoc d ds)
  from snoc.prems obtain u qs r where u: "foldE (run_step ops lc) (s, []) ds = Inr (u, qs)"
    and p: "perform ops lc u d = Inr (t, r)" and rs: "rs = qs @ [r]"
    by (auto simp: foldE_append bindE_Inr_iff run_step_def [of ops lc _ d])
  note IH = snoc.IH [OF u]
  have "performed ops lc t c" if "c \<in> set ds" for c using IH that perform_grows [OF p] by (auto intro: grows_performed)
  moreover have "r \<noteq> Some True" if "d \<in> set ds" using performed_again [of ops lc u d] IH that p by auto
  ultimately show ?case using IH perform_grows [OF p] by (auto simp: rs nth_append less_Suc_eq)
qed simp

section \<open>Pending work can be drained\<close>

lemma acknowledge_all:
  assumes "distinct is'" "set is' \<subseteq> fst ` set (ls_outbox s)" "set is' \<inter> ls_publications s = {}"
  shows "foldE (run_step ops lc) (s, rs) (map OpAcknowledge is') =
    Inr (s\<lparr>ls_publications := ls_publications s \<union> set is', ls_outbox := filter (\<lambda>(k, _). k \<notin> set is') (ls_outbox s)\<rparr>,
      rs @ replicate (length is') (Some True))"
  using assms
proof (induction is' arbitrary: s rs)
  case Nil
  have "filter (\<lambda>(k, _). True) (ls_outbox s) = ls_outbox s" by (simp add: case_prod_unfold)
  then show ?case by simp
next
  case (Cons i is')
  define t where "t = s\<lparr>ls_publications := insert i (ls_publications s), ls_outbox := filter (\<lambda>(k, _). k \<noteq> i) (ls_outbox s)\<rparr>"
  have "run_step ops lc (s, rs) (OpAcknowledge i) = Inr (t, rs @ [Some True])"
    using Cons.prems by (auto simp: run_step_def perform_def acknowledge_outbox_def t_def)
  moreover have "foldE (run_step ops lc) (t, rs @ [Some True]) (map OpAcknowledge is') =
      Inr (t\<lparr>ls_publications := ls_publications t \<union> set is', ls_outbox := filter (\<lambda>(k, _). k \<notin> set is') (ls_outbox t)\<rparr>,
        (rs @ [Some True]) @ replicate (length is') (Some True))"
  proof (rule Cons.IH)
    show "set is' \<subseteq> fst ` set (ls_outbox t)" using Cons.prems by (force simp: t_def)
  qed (use Cons.prems in \<open>auto simp: t_def\<close>)
  moreover have "filter (\<lambda>(k, _). k \<notin> set is') (ls_outbox t) = filter (\<lambda>(k, _). k \<notin> set (i # is')) (ls_outbox s)"
    by (auto simp: t_def case_prod_unfold intro!: filter_cong)
  ultimately show ?case by (simp add: t_def)
qed

section \<open>Requests are framed injectively\<close>

lemma big_endian_length [simp]: "length (big_endian k n) = k"
  by (induction k n rule: big_endian.induct) simp_all

lemma big_endian_inj: "m < 256 ^ k \<Longrightarrow> n < 256 ^ k \<Longrightarrow> big_endian k m = big_endian k n \<Longrightarrow> m = n"
proof (induction k arbitrary: m n)
  case (Suc k)
  have "m div 256 = n div 256" by (rule Suc.IH) (use Suc.prems in \<open>simp_all add: less_mult_imp_div_less mult.commute\<close>)
  moreover have "of_char (char_of (m mod 256)) = (of_char (char_of (n mod 256)) :: nat)" using Suc.prems(3) by simp
  then have "m mod 256 = n mod 256" by simp
  ultimately show ?case by (metis div_mult_mod_eq)
qed simp

lemma framed_part_append:
  assumes "framed_part p = Inr f" "framed_part q = Inr g" "f @ u = g @ v"
  shows "p = q \<and> u = v"
proof -
  have f: "f = big_endian 8 (length p) @ p" "length p < 256 ^ 8" and g: "g = big_endian 8 (length q) @ q" "length q < 256 ^ 8"
    using assms(1,2) by (auto simp: framed_part_def split: if_splits)
  from assms(3) have "big_endian 8 (length p) = big_endian 8 (length q)" "p @ u = q @ v"
    by (simp_all add: f(1) g(1) append_eq_append_conv)
  with big_endian_inj [OF f(2) g(2)] show ?thesis by (simp add: append_eq_append_conv)
qed

lemma frames_inj:
  assumes "mapE framed_part ps = Inr fs" "mapE framed_part qs = Inr gs" "concat fs = concat gs" "length ps = length qs"
  shows "ps = qs"
  using assms
proof (induction ps arbitrary: qs fs gs)
  case (Cons p ps)
  then obtain q qs' where q: "qs = q # qs'" by (cases qs) auto
  with Cons.prems obtain f fs' g gs' where f: "framed_part p = Inr f" "mapE framed_part ps = Inr fs'" "fs = f # fs'"
    "framed_part q = Inr g" "mapE framed_part qs' = Inr gs'" "gs = g # gs'" by (auto simp: bindE_Inr_iff)
  from framed_part_append [OF f(1,4)] Cons.prems(3) f(3,6) have "p = q" "concat fs' = concat gs'" by auto
  with Cons.IH [OF f(2,5)] Cons.prems(4) q show ?case by simp
qed simp

lemma uuid_bytes_inj: "uuid_bytes u = uuid_bytes v \<Longrightarrow> u = v"
proof -
  assume "uuid_bytes u = uuid_bytes v"
  moreover have "unat w < 256 ^ 16" for w :: uuid using unsigned_less [of w] by simp
  ultimately have "unat u = unat v" unfolding uuid_bytes_def by (metis big_endian_inj)
  then show ?thesis by (simp only: word_unat_eq_iff)
qed

lemma request_frames_inj:
  assumes "mapE framed_part (append_request_parts r ob) = Inr fs" "mapE framed_part (append_request_parts q ob') = Inr gs"
    and "concat fs = concat gs"
  shows "se_event_id r = se_event_id q \<and> se_stream_id r = se_stream_id q \<and> se_sequence r = se_sequence q
    \<and> se_event_type r = se_event_type q \<and> se_canonical_json r = se_canonical_json q
    \<and> oi_topic ob = oi_topic ob' \<and> oi_payload_json ob = oi_payload_json ob'"
  using frames_inj [OF assms] by (simp add: append_request_parts_def uuid_bytes_inj int_text_inj utf8_inj)

section \<open>Replaying what was stored\<close>

lemma sorted_stream:
  assumes "continues (\<lambda>_. 0) h"
  shows "in_stream k (sort_key stored_key h) = in_stream k h"
proof -
  have "sorted (map se_sequence (in_stream k h))" unfolding continues_positions [OF assms] by (rule sorted_map_int)
  moreover have "distinct (map se_sequence (in_stream k h))" unfolding continues_positions [OF assms] by (simp add: distinct_map)
  ultimately have st: "sorted_wrt (<) (map se_sequence (in_stream k h))" by (simp add: strict_sorted_iff)
  have "sorted (map stored_key (in_stream k h))"
    unfolding sorted_wrt_map
  proof (rule sorted_wrt_mono_rel [OF _ st [unfolded sorted_wrt_map]])
    show "stored_key x \<le> stored_key y" if "x \<in> set (in_stream k h)" "y \<in> set (in_stream k h)" "se_sequence x < se_sequence y" for x y
      using that by (simp add: stored_key_def record_key_def in_stream_def less_eq_prod_def)
  qed
  then show ?thesis unfolding in_stream_def by (simp add: filter_sort sort_key_id_if_sorted)
qed

lemma new_records_distinct_list:
  assumes "distinct (map se_event_id rs)"
  shows "new_records [] rs = sort_key stored_key rs"
proof -
  have "first_occurrences us rs = us @ rs" if "distinct (map se_event_id (us @ rs))" for us
    using that
  proof (induction rs arbitrary: us)
    case (Cons r rs)
    then have "se_event_id r \<notin> se_event_id ` set us" by auto
    with Cons.IH [of "us @ [r]"] Cons.prems show ?case by simp
  qed simp
  then show ?thesis using assms by (simp add: new_records_def)
qed

lemma stored_history_replays:
  assumes ok: "events_ok s" and m: "mapE (from_envelope ops lc) es = Inr (sort_key stored_key (stored_records s))"
  shows "replay ops lc es None None = Inr r \<longleftrightarrow>
    is_ok (validate_execution_report_events ops es) \<and> finish lc (history_projection (stored_records s)) = Inr r"
proof -
  let ?h = "stored_records s" and ?rs = "sort_key stored_key (stored_records s)"
  have c: "continues (\<lambda>_. 0) ?h" and d: "distinct (map se_event_id ?h)" using ok by (simp_all add: events_ok_def)
  have ds: "distinct (map se_event_id ?rs)" using d by (simp add: distinct_map)
  have str: "in_stream k ?rs = in_stream k ?h" for k by (rule sorted_stream [OF c])
  have "continues (\<lambda>_. 0) ?rs" by (rule continues_streams [OF c]) (simp add: str)
  moreover have "history_projection ?rs = history_projection ?h" by (rule history_projection_cong [OF _ ds str]) simp
  moreover have "consistent ?rs" using ds by (auto simp: consistent_def distinct_map inj_on_def)
  moreover have "new_records [] ?rs = ?rs" using new_records_distinct_list [OF ds] by (simp add: sort_key_id_if_sorted)
  ultimately show ?thesis using m by (auto simp: replay_complete_iff)
qed

end
