(* ===== verification/Stored_Ledger.thy ===== *)
theory Stored_Ledger
  imports Ledger_Repository
begin

text \<open>
  What a run of the ledger leaves to be read: the stored records are those of appended events, their texts
  decode back to these events under the round-trip law of the JSON codec, they load in canonical order, and
  the reference projection of the stored history always passes the result models.
\<close>

section \<open>Stored texts decode\<close>

definition appended :: "'p ledger_op list \<Rightarrow> 'p event_envelope set" where
  "appended ds = {event. \<exists>outbox. OpAppend event outbox \<in> set ds}"

text \<open>The round-trip law of the external codec at one validated event: its document names its type, and both
  decoders return what was written.\<close>

definition decodes_event :: "'p payload_ops \<Rightarrow> 'p ledger_codec \<Rightarrow> 'p event_envelope \<Rightarrow> bool" where
  "decodes_event ops lc event =
     (mk_event_envelope ops event = Inr event
      \<and> map_of (lc_dump lc event) ''event_type'' = Some (JString (ev_event_type event))
      \<and> lc_loads lc (dumps (JObject (lc_dump lc event))) = Some (JObject (lc_dump lc event))
      \<and> lc_load_event lc (ev_event_type event) (dumps (JObject (lc_dump lc event))) = Some event)"

lemma deserialize_serialized:
  assumes "decodes_event ops lc e" "serialize_event ops lc e = Inr t"
  shows "deserialize_event ops lc t = Inr e"
proof -
  have v: "mk_event_envelope ops e = Inr e" using assms(1) by (simp add: decodes_event_def)
  from assms(2) have w: "payload_type_for (ev_event_type e) = Inr (ev_event_type e)" "require_canonical_utc (lc_dump lc e) = Inr ()"
    "t = dumps (JObject (lc_dump lc e))"
    by (auto simp: serialize_event_def payload_type_for_def v res_simps Let_def split: if_splits)
  show ?thesis using assms w by (simp add: deserialize_event_def decodes_event_def)
qed

lemma from_envelope_Inr:
  assumes "from_envelope ops lc e = Inr r"
  shows "stored_key r = (ev_stream_id e, ev_sequence e, ev_event_id e)" "se_event_type r = ev_event_type e"
    "serialize_event ops lc e = Inr (se_canonical_json r)" "sha256_hex (se_digest r)" "bounded_text (se_event_type r)"
    "positive_bigint (se_sequence r)"
  using assms by (auto simp: from_envelope_def bindE_Inr_iff stored_key_def record_key_def mk_stored_event_def res_simps)

section \<open>Where the records come from\<close>

lemma step_records:
  assumes "ledger_ok lc s" "ledger_step ops lc s d = Inr t"
  shows "stored_records t = stored_records s
    \<or> (\<exists>e ob r. d = OpAppend e ob \<and> from_envelope ops lc e = Inr r \<and> stored_records t = stored_records s @ [r])"
proof (cases d)
  case (OpAppend e ob)
  with assms(2) obtain q where "append_event ops lc s e ob = Inr (t, q)" by (auto simp: ledger_step_Inr perform_def bindE_Inr_iff)
  then show ?thesis
  proof (cases rule: append_event_cases)
    case (inserted rc d')
    then have "stored_records t = stored_records s @ [rc]" by (simp add: stored_records_def dict_put_append)
    with OpAppend inserted(1) show ?thesis by blast
  qed simp
next
  case (OpAcknowledge i)
  with assms(2) show ?thesis
    by (auto simp: ledger_step_Inr perform_def bindE_Inr_iff acknowledge_outbox_def stored_records_def split: if_splits)
next
  case (OpClaim c i)
  with assms(2) show ?thesis
    by (auto simp: ledger_step_Inr perform_def bindE_Inr_iff claim_inbox_def stored_records_def split: if_splits)
next
  case (OpSave q)
  with assms(2) have "save_snapshot lc s q = Inr t" by (auto simp: ledger_step_Inr perform_def bindE_Inr_iff)
  then show ?thesis by (cases rule: save_snapshot_cases) (simp_all add: stored_records_def)
qed

lemma run_records:
  assumes "foldE (ledger_step ops lc) empty_ledger ds = Inr s"
  shows "(\<forall>r \<in> set (stored_records s). \<exists>e \<in> appended ds. from_envelope ops lc e = Inr r)
    \<and> length (stored_records s) \<le> length ds"
  using assms
proof (induction ds arbitrary: s rule: rev_induct)
  case Nil
  then have "s = empty_ledger" by simp
  then show ?case by (simp add: empty_ledger_def stored_records_def)
next
  case (snoc d ds)
  then obtain u where u: "foldE (ledger_step ops lc) empty_ledger ds = Inr u" "ledger_step ops lc u d = Inr s"
    by (auto simp: foldE_append bindE_Inr_iff)
  have ok: "ledger_ok lc u" by (rule ledger.fold_valid [OF empty_ledger_ok u(1)])
  have ap: "appended ds \<subseteq> appended (ds @ [d])" "\<And>e ob. d = OpAppend e ob \<Longrightarrow> e \<in> appended (ds @ [d])"
    by (auto simp: appended_def)
  from step_records [OF ok u(2)] snoc.IH [OF u(1)] ap show ?case by fastforce
qed

lemma run_ids:
  assumes "foldE (ledger_step ops lc) empty_ledger ds = Inr s"
  shows "se_event_id ` set (stored_records s) = ev_event_id ` appended ds"
proof
  show "se_event_id ` set (stored_records s) \<subseteq> ev_event_id ` appended ds"
    using run_records [OF assms] by (force dest: from_envelope_id)
  have ok: "events_ok s" using ledger.fold_valid [OF empty_ledger_ok assms] by (simp add: ledger_ok_def)
  show "ev_event_id ` appended ds \<subseteq> se_event_id ` set (stored_records s)"
  proof
    fix i assume "i \<in> ev_event_id ` appended ds"
    then obtain e ob where e: "OpAppend e ob \<in> set ds" "i = ev_event_id e" by (auto simp: appended_def)
    from ledger.fold_seen [OF empty_ledger_ok assms e(1)] obtain rc d where rc: "from_envelope ops lc e = Inr rc"
      "map_of (ls_append_idempotency s) (se_event_id rc) = Some d" by (auto simp: performed_def)
    then have "se_event_id rc \<in> set (map fst (ls_append_idempotency s))" by (force dest: map_of_SomeD)
    then have "se_event_id rc \<in> set (map se_event_id (stored_records s))" using ok unfolding events_ok_def by simp
    then show "i \<in> se_event_id ` set (stored_records s)" using from_envelope_id [OF rc(1)] e(2) by simp
  qed
qed

section \<open>Loading\<close>

lemma loaded_events:
  assumes run: "foldE (ledger_step ops lc) empty_ledger ds = Inr s" and law: "\<And>e. e \<in> appended ds \<Longrightarrow> decodes_event ops lc e"
  obtains ev where "\<And>r. r \<in> set (stored_records s) \<Longrightarrow> ev r \<in> appended ds \<and> from_envelope ops lc (ev r) = Inr r"
    and "load_events ops lc s = Inr (map ev (sort_key stored_key (stored_records s)))"
    and "\<And>k. load_stream_events ops lc s k = Inr (map ev (in_stream k (stored_records s)))"
proof -
  obtain ev where ev: "ev r \<in> appended ds \<and> from_envelope ops lc (ev r) = Inr r" if "r \<in> set (stored_records s)" for r
    using run_records [OF run] by metis
  have dec: "deserialize_event ops lc (se_canonical_json r) = Inr (ev r)" if "r \<in> set (stored_records s)" for r
    using ev [OF that] law by (blast intro: deserialize_serialized from_envelope_Inr(3))
  have c: "continues (\<lambda>_. 0) (stored_records s)"
    using ledger.fold_valid [OF empty_ledger_ok run] by (simp add: ledger_ok_def events_ok_def)
  have key: "sort_key (\<lambda>r. (se_sequence r, se_event_id r)) (in_stream k (stored_records s)) = in_stream k (stored_records s)" for k
  proof (rule sort_key_id_if_sorted)
    have "sorted_wrt (<) (map se_sequence (in_stream k (stored_records s)))"
      unfolding continues_positions [OF c] by (simp add: sorted_wrt_map del: upt_Suc)
    then show "sorted (map (\<lambda>r. (se_sequence r, se_event_id r)) (in_stream k (stored_records s)))"
      unfolding sorted_wrt_map by (rule sorted_wrt_mono_rel [rotated]) (simp add: less_eq_prod_def)
  qed
  show thesis
  proof (rule that)
    show "load_events ops lc s = Inr (map ev (sort_key stored_key (stored_records s)))"
      unfolding load_events_def stored_records_def [symmetric] by (rule mapE_Inr_map) (simp add: dec)
    show "load_stream_events ops lc s k = Inr (map ev (in_stream k (stored_records s)))" for k
      unfolding load_stream_events_def stored_records_def [symmetric] in_stream_def [symmetric] key
      by (rule mapE_Inr_map) (simp add: dec in_stream_def)
  qed (rule ev)
qed

lemma strictly_ordered:
  assumes "events_ok s"
  shows "sorted_wrt (<) (map stored_key (sort_key stored_key (stored_records s)))"
proof -
  have "inj_on se_event_id (set (stored_records s))" "distinct (stored_records s)" using assms by (simp_all add: events_ok_def distinct_map)
  then have "distinct (map stored_key (sort_key stored_key (stored_records s)))"
    by (simp add: distinct_map inj_on_def stored_key_def record_key_def)
  then show ?thesis by (simp add: strict_sorted_iff)
qed

section \<open>The reference projection is always a valid result\<close>

lemma hex_digit_char: "n < 16 \<Longrightarrow> hex_char n \<noteq> CHR 0x00"
  using of_char_hex_char [of n] by (auto split: if_splits)

lemma uuid_text_storable: "CHR 0x00 \<notin> set (uuid_text u)"
proof -
  have "CHR 0x00 \<notin> set (map hex_char (hex_digits n c))" for n c using hex_digit_char by (force dest: hex_digits_lt)
  then have h: "CHR 0x00 \<notin> set (take m (drop n (map hex_char (hex_digits 32 (unat u)))))" for m n by (meson in_set_dropD in_set_takeD)
  show ?thesis using h [of 8 0] h [of 12 20] h [of 4 8] h [of 4 12] h [of 4 16] by (simp add: uuid_text_def Let_def)
qed

lemma digest_storable: "sha256_hex d \<Longrightarrow> CHR 0x00 \<notin> set d"
  by (auto simp: sha256_hex_def list_all_iff is_digit_char_def less_eq_char_def)

lemma type_storable: "k \<in> set EVENT_TYPES \<Longrightarrow> CHR 0x00 \<notin> set k"
  by (auto simp: EVENT_TYPES_def)

lemma projection_storable:
  assumes "\<forall>r \<in> set h. se_event_type r \<in> set EVENT_TYPES \<and> sha256_hex (se_digest r)"
  shows "postgres_text (state_document (history_projection h) RS_COMPLETE [] REPLAY_SCHEMA_VERSION REDUCER_VERSION)"
proof -
  have l: "last (in_stream k h) \<in> set h" if "k \<in> se_stream_id ` set h" for k
    using that in_stream_Nil_iff [of k h] last_in_set [of "in_stream k h"] by (auto simp: in_stream_def)
  have "CHR 0x00 \<notin> set (se_digest (last (in_stream k h)))" if "k \<in> se_stream_id ` set h" for k
    using assms l [OF that] digest_storable by blast
  moreover have "CHR 0x00 \<notin> set (se_digest r) \<and> CHR 0x00 \<notin> set (se_event_type r)" if "r \<in> set h" for r
    using assms that digest_storable type_storable by blast
  ultimately show ?thesis
    by (auto simp: state_document_def aggregate_json_def history_projection_def list_all_iff applied_json_def stream_json_def
        type_count_json_def projection_in_def uuid_text_storable REPLAY_SCHEMA_VERSION_def REDUCER_VERSION_def)
qed

lemma projection_bounded:
  assumes "\<forall>r \<in> set h. bounded_text (se_event_type r) \<and> sha256_hex (se_digest r) \<and> positive_bigint (se_sequence r)"
    and "int (length h) \<le> POSTGRES_BIGINT_MAX"
  shows "mk_aggregate_state (history_projection h) = Inr (history_projection h)"
proof -
  have l: "last (in_stream k h) \<in> set h" if "k \<in> se_stream_id ` set h" for k
    using that in_stream_Nil_iff [of k h] last_in_set [of "in_stream k h"] by (auto simp: in_stream_def)
  have n: "nonnegative_bigint (int (length (filter P h)))" for P
    unfolding nonnegative_bigint_def using assms(2) length_filter_le [of P h] by linarith
  have s: "nonnegative_bigint (se_sequence (last (in_stream k h))) \<and> sha256_hex (se_digest (last (in_stream k h)))"
    if "k \<in> se_stream_id ` set h" for k using assms(1) l [OF that] by (force simp: positive_bigint_def nonnegative_bigint_def)
  have "mapE mk_event_type_count (ag_type_counts (history_projection h)) = Inr (map id (ag_type_counts (history_projection h)))"
    by (rule mapE_Inr_map)
      (use assms(1) n in \<open>auto simp: history_projection_def mk_event_type_count_def require_field_def type_count_in_def\<close>)
  moreover have "mapE mk_stream_projection (ag_streams (history_projection h)) = Inr (map id (ag_streams (history_projection h)))"
    by (rule mapE_Inr_map) (use s n in \<open>auto simp: history_projection_def mk_stream_projection_def require_field_def projection_in_def
      in_stream_def optional_ok_def\<close>)
  moreover have "mapE mk_ledger_applied (ag_applied_events (history_projection h)) = Inr (map id (ag_applied_events (history_projection h)))"
    by (rule mapE_Inr_map) (use assms(1) in \<open>auto simp: history_projection_def mk_ledger_applied_def require_field_def\<close>)
  moreover have "nonnegative_bigint (ag_event_count (history_projection h))" using n [of "\<lambda>_. True"] by (simp add: history_projection_def)
  ultimately show ?thesis by (simp add: mk_aggregate_state_Inr_iff)
qed

lemma finish_projection:
  assumes "\<forall>r \<in> set h. \<exists>e. from_envelope ops lc e = Inr r" "int (length h) \<le> POSTGRES_BIGINT_MAX"
    and "\<forall>x. sha256_hex (lc_sha256 lc x)"
  shows "\<exists>r. finish lc (history_projection h) = Inr r"
proof -
  let ?d = "state_document (history_projection h) RS_COMPLETE [] REPLAY_SCHEMA_VERSION REDUCER_VERSION"
  have "mk_aggregate_state (history_projection h) = Inr (history_projection h)"
    by (rule projection_bounded [OF _ assms(2)]) (use assms(1) from_envelope_Inr(4-6) in fast)
  moreover have "postgres_text ?d"
    by (rule projection_storable) (use assms(1) from_envelope_Inr(4) from_envelope_registered in blast)
  moreover have "2 \<le> length (dumps ?d)" by (simp add: state_document_def)
  ultimately show ?thesis using assms(3)
    by (auto simp: finish_def canonical_state_json_def bindE_Inr_iff canonical_json_Inr_iff mk_ledger_result_Inr_iff)
qed

section \<open>Reading and replaying a run\<close>

definition event_key :: "'p event_envelope \<Rightarrow> uuid \<times> int \<times> uuid" where
  "event_key event = (ev_stream_id event, ev_sequence event, ev_event_id event)"

definition of_stream :: "uuid \<Rightarrow> 'p event_envelope list \<Rightarrow> 'p event_envelope list" where
  "of_stream k es = filter (\<lambda>event. ev_stream_id event = k) es"

lemma loaded_in_order:
  assumes run: "foldE (ledger_step ops lc) empty_ledger ds = Inr s" and law: "\<And>e. e \<in> appended ds \<Longrightarrow> decodes_event ops lc e"
  obtains es where "load_events ops lc s = Inr es" "mapE (from_envelope ops lc) es = Inr (sort_key stored_key (stored_records s))"
    and "set es \<subseteq> appended ds" "ev_event_id ` set es = ev_event_id ` appended ds" "sorted_wrt (<) (map event_key es)"
    and "\<And>k. load_stream_events ops lc s k = Inr (of_stream k es)"
    and "\<And>k. map ev_sequence (of_stream k es) = map int [1..<Suc (length (of_stream k es))]"
proof -
  from loaded_events [OF run law] obtain ev where
    ev: "\<And>r. r \<in> set (stored_records s) \<Longrightarrow> ev r \<in> appended ds \<and> from_envelope ops lc (ev r) = Inr r"
    and load: "load_events ops lc s = Inr (map ev (sort_key stored_key (stored_records s)))"
    and stream: "\<And>k. load_stream_events ops lc s k = Inr (map ev (in_stream k (stored_records s)))" by blast
  let ?rs = "sort_key stored_key (stored_records s)" and ?es = "map ev (sort_key stored_key (stored_records s))"
  have ok: "events_ok s" using ledger.fold_valid [OF empty_ledger_ok run] by (simp add: ledger_ok_def)
  have c: "continues (\<lambda>_. 0) (stored_records s)" using ok by (simp add: events_ok_def)
  have key: "event_key (ev r) = stored_key r" "ev_stream_id (ev r) = se_stream_id r" "ev_sequence (ev r) = se_sequence r"
    "ev_event_id (ev r) = se_event_id r" if "r \<in> set (stored_records s)" for r
    using from_envelope_Inr(1) [of ops lc "ev r" r] ev [OF that] by (simp_all add: event_key_def stored_key_def record_key_def)
  have os: "of_stream k ?es = map ev (in_stream k (stored_records s))" for k
  proof -
    have "of_stream k ?es = map ev (in_stream k ?rs)"
      unfolding of_stream_def in_stream_def filter_map comp_def by (rule arg_cong [of _ _ "map ev"], rule filter_cong) (simp_all add: key)
    then show ?thesis by (simp only: sorted_stream [OF c])
  qed
  have seqs: "map ev_sequence (of_stream k ?es) = map se_sequence (in_stream k (stored_records s))" for k
    unfolding os map_map comp_def by (rule map_cong [OF refl]) (simp add: key in_stream_def)
  show thesis
  proof (rule that [OF load])
    show "mapE (from_envelope ops lc) ?es = Inr ?rs"
      using mapE_Inr_map [of ?rs "\<lambda>r. from_envelope ops lc (ev r)" "\<lambda>r. r"] ev by (simp add: mapE_map)
    show "set ?es \<subseteq> appended ds" using ev by auto
    have "ev_event_id ` set ?es = se_event_id ` set (stored_records s)" by (auto simp: image_image key)
    then show "ev_event_id ` set ?es = ev_event_id ` appended ds" by (simp only: run_ids [OF run])
    have "map event_key ?es = map stored_key ?rs" unfolding map_map comp_def by (rule map_cong [OF refl]) (simp add: key)
    then show "sorted_wrt (<) (map event_key ?es)" using strictly_ordered [OF ok] by (simp only:)
    show "load_stream_events ops lc s k = Inr (of_stream k ?es)" for k unfolding os by (rule stream)
    show "map ev_sequence (of_stream k ?es) = map int [1..<Suc (length (of_stream k ?es))]" for k
      unfolding seqs continues_positions [OF c] by (simp add: os)
  qed
qed

lemma loaded_replays:
  assumes run: "foldE (ledger_step ops lc) empty_ledger ds = Inr s"
    and m: "mapE (from_envelope ops lc) es = Inr (sort_key stored_key (stored_records s))"
    and "\<forall>x. sha256_hex (lc_sha256 lc x)" "int (length ds) \<le> POSTGRES_BIGINT_MAX"
  shows "case validate_execution_report_events ops es of
      Inl _ \<Rightarrow> \<not> is_ok (replay ops lc es None None)
    | Inr _ \<Rightarrow> (\<exists>r. replay ops lc es None None = Inr r \<and> lr_state r = history_projection (stored_records s)
        \<and> lr_status r = RS_COMPLETE \<and> lr_issues r = [])"
proof -
  have ok: "events_ok s" using ledger.fold_valid [OF empty_ledger_ok run] by (simp add: ledger_ok_def)
  have n: "int (length (stored_records s)) \<le> POSTGRES_BIGINT_MAX" using run_records [OF run] assms(4) by linarith
  have "\<forall>r \<in> set (stored_records s). \<exists>e. from_envelope ops lc e = Inr r" using run_records [OF run] by blast
  from finish_projection [OF this n assms(3)] obtain r where r: "finish lc (history_projection (stored_records s)) = Inr r" by blast
  show ?thesis using stored_history_replays [OF ok m] r finish_Inr [OF r]
    by (cases "validate_execution_report_events ops es") (auto simp: is_ok_iff)
qed

end
