(* ===== verification/Ledger_Theorems.thy ===== *)
theory Ledger_Theorems
  imports Ledger_Snapshots Portfolio_Sample
begin

text \<open>
  The properties of the ledger replay, with a concrete ledger (two portfolio events and a codec that
  writes a small document for each) on which they are applied.
\<close>


section \<open>A concrete ledger\<close>

definition demo_document :: "portfolio_event \<Rightarrow> (string \<times> json) list" where
  "demo_document e =
     map (\<lambda>name. (name, JString ''2026-01-01T00:00:00Z'')) UTC_FIELDS
     @ [(''event_id'', JString (uuid_text (ev_event_id e))), (''event_type'', JString (ev_event_type e))]"

definition demo_text :: "portfolio_event \<Rightarrow> string" where
  "demo_text e = dumps (JObject (demo_document e))"

definition demo_ledger_codec :: "portfolio_payload ledger_codec" where
  "demo_ledger_codec =
     \<lparr>lc_sha256 = demo_sha, lc_dump = demo_document,
      lc_loads = (\<lambda>text. map_option (\<lambda>e. JObject (demo_document e)) (find (\<lambda>e. demo_text e = text) [demo_opening, demo_filled])),
      lc_load_event = (\<lambda>_ text. find (\<lambda>e. demo_text e = text) [demo_opening, demo_filled])\<rparr>"

definition demo_record :: "portfolio_event \<Rightarrow> stored_event" where
  "demo_record e =
     \<lparr>se_event_id = ev_event_id e, se_stream_id = ev_stream_id e, se_sequence = ev_sequence e,
      se_event_type = ev_event_type e, se_canonical_json = demo_text e, se_digest = replicate 64 (CHR ''0'')\<rparr>"

lemma demo_utc: "require_canonical_utc (demo_document e) = Inr ()"
  by (simp add: require_canonical_utc_def UTC_FIELDS_def canonical_utc_field_def demo_document_def)

lemma demo_opening_text: "canonical_json (JObject (demo_document demo_opening)) = Inr (demo_text demo_opening)"
  by code_simp
lemma demo_filled_text: "canonical_json (JObject (demo_document demo_filled)) = Inr (demo_text demo_filled)"
  by code_simp
lemma demo_opening_record: "mk_stored_event (demo_record demo_opening) = Inr (demo_record demo_opening)"
  by code_simp
lemma demo_filled_record: "mk_stored_event (demo_record demo_filled) = Inr (demo_record demo_filled)"
  by code_simp

lemma demo_registered:
  "payload_type_for ''PortfolioOpeningEntry'' = Inr ''PortfolioOpeningEntry''"
  "payload_type_for ''PortfolioFillEntry'' = Inr ''PortfolioFillEntry''"
  by code_simp+

lemma demo_types:
  "ev_event_type demo_opening = ''PortfolioOpeningEntry''" "po_event_type portfolio_payload_ops (ev_payload demo_opening) = ''PortfolioOpeningEntry''"
  "ev_event_type demo_filled = ''PortfolioFillEntry''" "po_event_type portfolio_payload_ops (ev_payload demo_filled) = ''PortfolioFillEntry''"
  by code_simp+

lemma no_reports:
  assumes "\<forall>e \<in> set es. ev_event_type e \<noteq> ''FillEvent''"
  shows "validate_execution_report_events portfolio_payload_ops es = Inr es"
proof -
  have "foldE (report_scan_step portfolio_payload_ops) acc es = Inr acc" for acc
    using assms by (induction es) (simp_all add: report_scan_step_def portfolio_payload_ops_def)
  moreover have "validate_fill_report_batch [] = Inr []" by code_simp
  ultimately show ?thesis by (simp add: validate_execution_report_events_def)
qed

lemma demo_opening_envelope: "mk_event_envelope portfolio_payload_ops demo_opening = Inr demo_opening"
  using demo_opening_valid by (simp add: validate_event_def catch_Inr_iff)

lemma demo_serialize:
  assumes "mk_event_envelope portfolio_payload_ops e = Inr e" "payload_type_for (ev_event_type e) = Inr (ev_event_type e)"
    and "po_event_type portfolio_payload_ops (ev_payload e) = ev_event_type e" "ev_event_type e \<noteq> ''FillEvent''"
    and "canonical_json (JObject (demo_document e)) = Inr (demo_text e)"
  shows "serialize_event portfolio_payload_ops demo_ledger_codec e = Inr (demo_text e)"
proof -
  have "validate_execution_report_events portfolio_payload_ops [e] = Inr [e]" by (rule no_reports) (simp add: assms(4))
  then show ?thesis by (simp add: serialize_event_def assms demo_ledger_codec_def Let_def demo_utc)
qed

lemma demo_ledger_sha: "lc_sha256 demo_ledger_codec t = replicate 64 (CHR ''0'')" "sha256_hex (replicate 64 (CHR ''0''))"
  by (simp add: demo_ledger_codec_def demo_sha_def, code_simp)

lemma demo_store:
  assumes "serialize_event portfolio_payload_ops demo_ledger_codec e = Inr (demo_text e)"
    and "mk_stored_event (demo_record e) = Inr (demo_record e)"
  shows "from_envelope portfolio_payload_ops demo_ledger_codec e = Inr (demo_record e)"
proof -
  have "from_envelope portfolio_payload_ops demo_ledger_codec e = mk_stored_event (demo_record e)"
    by (simp add: from_envelope_def assms(1) demo_record_def demo_ledger_sha)
  then show ?thesis by (simp only: assms(2))
qed

lemma demo_serialized:
  "serialize_event portfolio_payload_ops demo_ledger_codec demo_opening = Inr (demo_text demo_opening)"
  "serialize_event portfolio_payload_ops demo_ledger_codec demo_filled = Inr (demo_text demo_filled)"
proof -
  show "serialize_event portfolio_payload_ops demo_ledger_codec demo_opening = Inr (demo_text demo_opening)"
    by (rule demo_serialize [OF demo_opening_envelope _ _ _ demo_opening_text]) (simp_all only: demo_types demo_registered, simp)
  show "serialize_event portfolio_payload_ops demo_ledger_codec demo_filled = Inr (demo_text demo_filled)"
    by (rule demo_serialize [OF demo_filled_envelope _ _ _ demo_filled_text]) (simp_all only: demo_types demo_registered, simp)
qed

lemmas demo_stored = demo_store [OF demo_serialized(1) demo_opening_record] demo_store [OF demo_serialized(2) demo_filled_record]

lemma demo_finish:
  assumes "mk_aggregate_state st = Inr st" "postgres_text (state_document st RS_COMPLETE [] REPLAY_SCHEMA_VERSION REDUCER_VERSION)"
  shows "is_ok (finish demo_ledger_codec st)"
proof -
  let ?d = "state_document st RS_COMPLETE [] REPLAY_SCHEMA_VERSION REDUCER_VERSION"
  have "2 \<le> length (dumps ?d)" by (simp add: state_document_def)
  moreover have "sha256_hex (lc_sha256 demo_ledger_codec t)" for t by (simp only: demo_ledger_sha)
  ultimately show ?thesis using assms
    by (auto simp: finish_def canonical_state_json_def bindE_Inr_iff is_ok_iff canonical_json_Inr_iff mk_ledger_result_Inr_iff)
qed

lemma demo_projections:
  "mk_aggregate_state (history_projection [demo_record demo_opening]) = Inr (history_projection [demo_record demo_opening])"
  "mk_aggregate_state (history_projection [demo_record demo_opening, demo_record demo_filled])
     = Inr (history_projection [demo_record demo_opening, demo_record demo_filled])"
  by code_simp+

lemma demo_documents:
  "postgres_text (state_document (history_projection [demo_record demo_opening]) RS_COMPLETE [] REPLAY_SCHEMA_VERSION REDUCER_VERSION)"
  "postgres_text (state_document (history_projection [demo_record demo_opening, demo_record demo_filled])
     RS_COMPLETE [] REPLAY_SCHEMA_VERSION REDUCER_VERSION)"
  by code_simp+

lemma demo_orders:
  "new_records [] [demo_record demo_opening] = [demo_record demo_opening]"
  "new_records [] [demo_record demo_opening, demo_record demo_filled] = [demo_record demo_opening, demo_record demo_filled]"
  by code_simp+

lemma demo_streams:
  "continues (\<lambda>_. 0) [demo_record demo_opening]" "continues (\<lambda>_. 0) [demo_record demo_opening, demo_record demo_filled]"
  by (auto simp: continues_def demo_record_def demo_opening_def demo_filled_def demo_envelope_def)

lemma demo_consistent: "consistent (map demo_record es)"
  by (simp add: consistent_def demo_record_def)

lemma demo_replayed:
  "\<exists>r. replay portfolio_payload_ops demo_ledger_codec [demo_opening] None None = Inr r"
  "\<exists>r. replay portfolio_payload_ops demo_ledger_codec [demo_opening, demo_filled] None None = Inr r"
proof -
  have ok: "\<exists>r. replay portfolio_payload_ops demo_ledger_codec es None None = Inr r"
    if "\<forall>e \<in> set es. ev_event_type e \<noteq> ''FillEvent''"
      "mapE (from_envelope portfolio_payload_ops demo_ledger_codec) es = Inr (map demo_record es)"
      "new_records [] (map demo_record es) = map demo_record es" "continues (\<lambda>_. 0) (map demo_record es)"
      "is_ok (finish demo_ledger_codec (history_projection (map demo_record es)))" for es
    using that no_reports [OF that(1)] demo_consistent [of es] replay_complete_iff [of portfolio_payload_ops demo_ledger_codec es]
    by (auto simp: is_ok_iff)
  show "\<exists>r. replay portfolio_payload_ops demo_ledger_codec [demo_opening] None None = Inr r"
    by (rule ok) (use demo_types demo_stored demo_orders demo_streams demo_finish [OF demo_projections(1) demo_documents(1)] in simp_all)
  show "\<exists>r. replay portfolio_payload_ops demo_ledger_codec [demo_opening, demo_filled] None None = Inr r"
    by (rule ok) (use demo_types demo_stored demo_orders demo_streams demo_finish [OF demo_projections(2) demo_documents(2)] in simp_all)
qed

section \<open>Properties of the replay\<close>

text \<open>
  C8: A full replay under the default policy succeeds exactly when the execution reports are valid, every
  envelope is storable, equal event ids carry equal content and the records, without repetitions, form
  gap-free streams from sequence one; the result is then the reference projection of that history.
\<close>

theorem complete_replay_projection:
  "replay ops lc es None None = Inr r \<longleftrightarrow>
    is_ok (validate_execution_report_events ops es)
    \<and> (\<exists>rs. mapE (from_envelope ops lc) es = Inr rs \<and> consistent rs \<and> continues (\<lambda>_. 0) (new_records [] rs)
         \<and> finish lc (history_projection (new_records [] rs)) = Inr r)"
  by (rule replay_complete_iff)

text \<open>
  C6: The order in which events are delivered and how often they are delivered do not matter, for both
  policies and from any snapshot, where no two different events of the batch share id and digest.
\<close>

theorem replay_order_irrelevant:
  assumes "replay ops lc es policy snapshot = Inr r" "set fs = set es" "digest_identifies ops lc es"
  shows "replay ops lc fs policy snapshot = Inr r"
  using assms unfolding replay_eq_reduce by (rule reduce_same_set)

lemma demo_digest_identifies: "digest_identifies portfolio_payload_ops demo_ledger_codec [demo_opening, demo_filled]"
  by (auto simp: digest_identifies_def demo_stored) (simp_all add: demo_record_def demo_opening_def demo_filled_def demo_envelope_def)

theorem replay_order_irrelevant_witness:
  "\<exists>r. replay portfolio_payload_ops demo_ledger_codec [demo_opening, demo_filled] None None = Inr r
    \<and> replay portfolio_payload_ops demo_ledger_codec [demo_filled, demo_opening, demo_filled] None None = Inr r"
proof -
  from demo_replayed(2) obtain r where r: "replay portfolio_payload_ops demo_ledger_codec [demo_opening, demo_filled] None None = Inr r" ..
  have "replay portfolio_payload_ops demo_ledger_codec [demo_filled, demo_opening, demo_filled] None None = Inr r"
    by (rule replay_order_irrelevant [OF r _ demo_digest_identifies]) auto
  with r show ?thesis by blast
qed

text \<open>
  C7: Resuming is equivalent to replaying from the start: where the whole batch and its prefix replay and
  the suffix is a valid report batch of its own, the suffix replayed from the prefix's result gives the
  result of the whole batch.
\<close>

theorem replay_resumes_from_snapshot:
  assumes "replay ops lc (es @ fs) None None = Inr r" "replay ops lc es None None = Inr r0"
    and "is_ok (validate_execution_report_events ops fs)"
  shows "replay ops lc fs None (Some r0) = Inr r"
  using assms resume_from_snapshot [of ops lc es fs r r0] reduce_result_valid [of ops lc es POLICY_DEFAULT None r0]
  by (simp add: replay_eq_reduce)

theorem replay_resumes_from_snapshot_witness:
  "\<exists>r r0. replay portfolio_payload_ops demo_ledger_codec [demo_opening, demo_filled] None None = Inr r
    \<and> replay portfolio_payload_ops demo_ledger_codec [demo_filled] None (Some r0) = Inr r"
proof -
  from demo_replayed obtain r r0 where r: "replay portfolio_payload_ops demo_ledger_codec ([demo_opening] @ [demo_filled]) None None = Inr r"
    "replay portfolio_payload_ops demo_ledger_codec [demo_opening] None None = Inr r0" by auto
  have "is_ok (validate_execution_report_events portfolio_payload_ops [demo_filled])"
    using no_reports [of "[demo_filled]"] by (simp add: demo_types)
  from replay_resumes_from_snapshot [OF r this] r(1) show ?thesis by auto
qed

text \<open>
  C14: Whatever the policy and the starting snapshot, a replay that returns has built a well-formed snapshot: it
  is accepted unchanged by \<^verbatim>\<open>snapshot_from_result\<close>, so it can be stored and resumed from.
\<close>

theorem replay_result_is_snapshot:
  assumes "replay ops lc es policy snapshot = Inr r"
  shows "snapshot_from_result lc r = Inr r"
proof -
  have "validate_snapshot lc r = Inr r" using assms reduce_result_valid unfolding replay_eq_reduce by blast
  moreover from this have "mk_ledger_result r = Inr r" by (auto simp: validate_snapshot_def res_simps mk_ledger_result_Inr_iff)
  ultimately show ?thesis by (simp add: snapshot_from_result_def)
qed

theorem replay_result_is_snapshot_witness:
  "\<exists>r. replay portfolio_payload_ops demo_ledger_codec [demo_opening, demo_filled] None None = Inr r
    \<and> snapshot_from_result demo_ledger_codec r = Inr r"
  using demo_replayed(2) replay_result_is_snapshot by blast

text \<open>
  C15: The state hash identifies the state: two accepted snapshots with the same hash are the same record in
  every field, where the hash function does not collide on their two texts.
\<close>

theorem snapshot_hash_identifies_state:
  assumes "validate_snapshot lc a = Inr a" "validate_snapshot lc b = Inr b" "lr_state_hash a = lr_state_hash b"
    and "inj_on (lc_sha256 lc) {lr_canonical_state_json a, lr_canonical_state_json b}"
  shows "a = b"
  using assms validate_snapshot_text(2) [OF assms(1)] validate_snapshot_text(2) [OF assms(2)]
  by (intro same_text_same_snapshot [OF assms(1,2)]) (auto dest: inj_onD)

theorem snapshot_hash_identifies_state_witness:
  "\<exists>a b. replay portfolio_payload_ops demo_ledger_codec [demo_opening, demo_filled] None None = Inr a
    \<and> replay portfolio_payload_ops demo_ledger_codec [demo_filled, demo_opening] None None = Inr b \<and> b = a"
proof -
  from demo_replayed(2) obtain a where a: "replay portfolio_payload_ops demo_ledger_codec [demo_opening, demo_filled] None None = Inr a" ..
  then have b: "replay portfolio_payload_ops demo_ledger_codec [demo_filled, demo_opening] None None = Inr a"
    unfolding replay_eq_reduce by (rule reduce_same_set [OF _ _ demo_digest_identifies]) auto
  have v: "validate_snapshot demo_ledger_codec a = Inr a" using a unfolding replay_eq_reduce by (rule reduce_result_valid)
  have "a = a" by (rule snapshot_hash_identifies_state [OF v v]) simp_all
  with a b show ?thesis by blast
qed

end
