(* ===== verification/Repository_Theorems.thy ===== *)
theory Repository_Theorems
  imports Stored_Ledger Ledger_Theorems
begin

text \<open>
  The properties of the in-memory ledger, of its outbox payloads and of their decoder, with a run of
  the ledger (two appends, an acknowledgement and a claim) on which they are applied.
\<close>

section \<open>A run of the ledger\<close>

definition demo_intent :: "uuid \<Rightarrow> outbox_intent" where
  "demo_intent i = \<lparr>oi_event_id = i, oi_topic = ''portfolio'', oi_payload_json = ''{}''\<rparr>"

definition demo_appends :: "portfolio_payload ledger_op list" where
  "demo_appends = [OpAppend demo_opening (demo_intent 1), OpAppend demo_filled (demo_intent 2)]"

lemma demo_intent_ok: "mk_outbox_intent (demo_intent i) = Inr (demo_intent i)"
proof -
  have "canonical_payload_json ''{}'' = Inr ''{}''" by code_simp
  then show ?thesis by (simp add: mk_outbox_intent_def demo_intent_def require_field_def bounded_text_def)
qed

lemma demo_lengths:
  "length (int_text 1) = 1" "length (int_text 2) = 1" "length (utf8 ''PortfolioOpeningEntry'') = 21"
  "length (utf8 ''PortfolioFillEntry'') = 18" "length (utf8 ''portfolio'') = 9" "length (utf8 ''{}'') = 2"
  by code_simp+

lemma demo_text_lengths:
  "length (utf8 (demo_text demo_opening)) = 273" "length (utf8 (demo_text demo_filled)) = 270"
  by code_simp+

lemma short_part: "length p < 1000 \<Longrightarrow> framed_part p = Inr (big_endian 8 (length p) @ p)"
proof -
  assume "length p < 1000"
  moreover have "(1000::nat) < 256 ^ 8" by simp
  ultimately have "length p < 256 ^ 8" by (rule order.strict_trans)
  then show ?thesis by (simp add: framed_part_def)
qed

lemma demo_request:
  assumes "\<forall>p \<in> set (append_request_parts r i). length p < 1000"
  shows "append_request_digest demo_ledger_codec r i = Inr (replicate 64 (CHR ''0''))"
proof -
  have "mapE framed_part (append_request_parts r i) = Inr (map (\<lambda>p. big_endian 8 (length p) @ p) (append_request_parts r i))"
    by (rule mapE_Inr_map) (use assms in \<open>simp add: short_part\<close>)
  then show ?thesis by (simp add: append_request_digest_def demo_ledger_sha)
qed

lemma demo_keys:
  "ev_event_id demo_opening = 1" "ev_event_id demo_filled = 2" "ev_stream_id demo_opening = 5" "ev_stream_id demo_filled = 5"
  "ev_sequence demo_opening = 1" "ev_sequence demo_filled = 2"
  by (simp_all add: demo_opening_def demo_filled_def demo_envelope_def)

lemma demo_requests:
  "append_request_digest demo_ledger_codec (demo_record demo_opening) (demo_intent 1) = Inr (replicate 64 (CHR ''0''))"
  "append_request_digest demo_ledger_codec (demo_record demo_filled) (demo_intent 2) = Inr (replicate 64 (CHR ''0''))"
proof -
  show "append_request_digest demo_ledger_codec (demo_record demo_opening) (demo_intent 1) = Inr (replicate 64 (CHR ''0''))"
    by (rule demo_request) (simp add: append_request_parts_def demo_record_def demo_types demo_intent_def demo_lengths
      demo_text_lengths uuid_bytes_def demo_keys)
  show "append_request_digest demo_ledger_codec (demo_record demo_filled) (demo_intent 2) = Inr (replicate 64 (CHR ''0''))"
    by (rule demo_request) (simp add: append_request_parts_def demo_record_def demo_types demo_intent_def demo_lengths
      demo_text_lengths uuid_bytes_def demo_keys)
qed

definition demo_ledger :: "portfolio_event list \<Rightarrow> ledger_store" where
  "demo_ledger es = empty_ledger\<lparr>
     ls_events := map (\<lambda>e. (ev_event_id e, demo_record e)) es,
     ls_append_idempotency := map (\<lambda>e. (ev_event_id e, replicate 64 (CHR ''0''))) es,
     ls_outbox := map (\<lambda>e. (ev_event_id e, demo_intent (ev_event_id e))) es\<rparr>"

lemma demo_append_steps:
  "ledger_step portfolio_payload_ops demo_ledger_codec (demo_ledger []) (OpAppend demo_opening (demo_intent 1)) = Inr (demo_ledger [demo_opening])"
  "ledger_step portfolio_payload_ops demo_ledger_codec (demo_ledger [demo_opening]) (OpAppend demo_filled (demo_intent 2))
     = Inr (demo_ledger [demo_opening, demo_filled])"
proof -
  have k: "se_event_id (demo_record e) = ev_event_id e" "se_stream_id (demo_record e) = ev_stream_id e"
    "se_sequence (demo_record e) = ev_sequence e" for e by (simp_all add: demo_record_def)
  have i: "oi_event_id (demo_intent j) = j" for j by (simp add: demo_intent_def)
  show "ledger_step portfolio_payload_ops demo_ledger_codec (demo_ledger []) (OpAppend demo_opening (demo_intent 1)) = Inr (demo_ledger [demo_opening])"
    by (simp add: ledger_step_def perform_def append_event_def demo_stored demo_intent_ok demo_requests k i demo_keys
        demo_ledger_def empty_ledger_def validate_delivery_order_def Let_def)
  show "ledger_step portfolio_payload_ops demo_ledger_codec (demo_ledger [demo_opening]) (OpAppend demo_filled (demo_intent 2))
     = Inr (demo_ledger [demo_opening, demo_filled])"
    by (simp add: ledger_step_def perform_def append_event_def demo_stored demo_intent_ok demo_requests k i demo_keys
        demo_ledger_def empty_ledger_def validate_delivery_order_def Let_def)
qed

lemma demo_appended: "foldE (ledger_step portfolio_payload_ops demo_ledger_codec) empty_ledger demo_appends
    = Inr (demo_ledger [demo_opening, demo_filled])"
proof -
  have e: "empty_ledger = demo_ledger []" by (simp add: demo_ledger_def empty_ledger_def)
  show ?thesis unfolding e by (simp add: demo_appends_def demo_append_steps)
qed

lemma demo_reachable: "ledger_reachable portfolio_payload_ops demo_ledger_codec (demo_ledger [demo_opening, demo_filled])"
  by (rule run_reachable [OF ledger_reachable.initial demo_appended])

lemma demo_decodes:
  "decodes_event portfolio_payload_ops demo_ledger_codec demo_opening"
  "decodes_event portfolio_payload_ops demo_ledger_codec demo_filled"
proof -
  have ne: "demo_text demo_opening \<noteq> demo_text demo_filled" using arg_cong [of _ _ "\<lambda>t. length (utf8 t)"] demo_text_lengths by force
  have "map_of (demo_document e) ''event_type'' = Some (JString (ev_event_type e))" for e
    by (simp add: demo_document_def UTC_FIELDS_def)
  moreover have d: "lc_dump demo_ledger_codec e = demo_document e" for e by (simp add: demo_ledger_codec_def)
  moreover have "lc_loads demo_ledger_codec (demo_text demo_opening) = Some (JObject (demo_document demo_opening))"
    "lc_loads demo_ledger_codec (demo_text demo_filled) = Some (JObject (demo_document demo_filled))"
    "lc_load_event demo_ledger_codec ty (demo_text demo_opening) = Some demo_opening"
    "lc_load_event demo_ledger_codec ty (demo_text demo_filled) = Some demo_filled" for ty
    using ne by (simp_all add: demo_ledger_codec_def)
  ultimately show "decodes_event portfolio_payload_ops demo_ledger_codec demo_opening"
    "decodes_event portfolio_payload_ops demo_ledger_codec demo_filled"
    unfolding decodes_event_def d demo_text_def [symmetric] by (simp_all only: demo_opening_envelope demo_filled_envelope simp_thms)
qed

lemma demo_appended_events: "appended demo_appends = {demo_opening, demo_filled}"
  by (auto simp: appended_def demo_appends_def)

section \<open>Properties of the ledger\<close>

text \<open>
  C10: Every ledger reachable by appends, acknowledgements, claims and snapshot saves is well formed: ids
  are unique and agree with their records, every stream is gap-free in arrival order, each stored event
  is either pending in the outbox or published and never both, claims refer to stored events, and every
  stored snapshot is valid under its own hash.
\<close>

theorem ledger_invariant:
  assumes "ledger_reachable ops lc s"
  shows "ledger_ok lc s"
  using assms by (rule reachable_ok)

theorem ledger_invariant_witness: "ledger_ok demo_ledger_codec (demo_ledger [demo_opening, demo_filled])"
  by (rule ledger_invariant [OF demo_reachable])

text \<open>
  C11: Requests are idempotent: repeating any accepted operations at any later point of a run (an append, an
  acknowledgement, a claim or a snapshot save) is accepted and leaves the resulting ledger unchanged.
\<close>

theorem repeated_requests_harmless:
  assumes "foldE (ledger_step ops lc) empty_ledger (as @ bs) = Inr t" "set ds \<subseteq> set as"
  shows "foldE (ledger_step ops lc) empty_ledger (as @ ds @ bs) = Inr t"
  by (rule ledger.duplicate_anywhere_noop [OF empty_ledger_ok assms])

theorem repeated_requests_harmless_witness:
  "foldE (ledger_step portfolio_payload_ops demo_ledger_codec) empty_ledger
     ([OpAppend demo_opening (demo_intent 1)] @ [OpAppend demo_opening (demo_intent 1)] @ [OpAppend demo_filled (demo_intent 2)])
   = Inr (demo_ledger [demo_opening, demo_filled])"
  by (rule repeated_requests_harmless) (use demo_appended in \<open>simp_all add: demo_appends_def\<close>)

text \<open>
  C12: Effects happen at most once: in any run of accepted operations, a repetition of an earlier one never
  reports an insertion, a first acknowledgement or a first claim.
\<close>

theorem effects_happen_once:
  assumes "foldE (run_step ops lc) (s, []) ds = Inr (t, rs)" "j < length ds" "ds ! j \<in> set (take j ds)"
  shows "rs ! j \<noteq> Some True"
  using run_once [OF assms(1)] assms(2,3) by blast

theorem effects_happen_once_witness:
  "\<exists>t rs. foldE (run_step portfolio_payload_ops demo_ledger_codec) (demo_ledger [demo_opening, demo_filled], [])
       [OpClaim ''a'' 1, OpClaim ''a'' 1] = Inr (t, rs) \<and> rs ! 1 \<noteq> Some True"
proof -
  let ?s = "demo_ledger [demo_opening, demo_filled]" and ?ds = "[OpClaim ''a'' 1, OpClaim ''a'' 1] :: portfolio_payload ledger_op list"
  have "foldE (run_step portfolio_payload_ops demo_ledger_codec) (?s, []) ?ds =
      Inr (?s\<lparr>ls_inbox := {(''a'', 1)}\<rparr>, [Some True, Some False])"
    by (simp add: run_step_def perform_def claim_inbox_def demo_ledger_def empty_ledger_def demo_keys)
  from this effects_happen_once [OF this, of 1] show ?thesis by auto
qed

text \<open>
  C13: Pending work can always be drained: from every reachable ledger, acknowledging the intents in the
  order \<^verbatim>\<open>load_outbox\<close> returns them succeeds, each acknowledgement is the first of its event, and
  afterwards the outbox is empty and exactly the stored events are published.
\<close>

theorem outbox_drains:
  fixes ops :: "'p payload_ops"
  assumes "ledger_reachable ops lc s"
  shows "\<exists>t. foldE (run_step ops lc) (s, []) (map (\<lambda>intent. OpAcknowledge (oi_event_id intent)) (load_outbox s))
      = Inr (t, replicate (length (load_outbox s)) (Some True))
    \<and> load_outbox t = [] \<and> ls_publications t = fst ` set (ls_events s)"
proof -
  have ob: "outbox_ok s" using reachable_ok [OF assms] by (simp add: ledger_ok_def)
  let ?is = "map fst (sort_key fst (ls_outbox s))"
  have ids: "map oi_event_id (load_outbox s) = ?is" using ob by (auto simp: load_outbox_def outbox_ok_def)
  have all: "filter (\<lambda>(k, _). k \<notin> set ?is) (ls_outbox s) = []" by (auto simp: filter_empty_conv image_iff)
  have "foldE (run_step ops lc) (s, []) (map OpAcknowledge ?is) =
    Inr (s\<lparr>ls_publications := ls_publications s \<union> set ?is, ls_outbox := filter (\<lambda>(k, _). k \<notin> set ?is) (ls_outbox s)\<rparr>,
      [] @ replicate (length ?is) (Some True))"
    by (rule acknowledge_all) (use ob in \<open>auto simp: outbox_ok_def distinct_map\<close>)
  moreover have acks: "map (\<lambda>intent. OpAcknowledge (oi_event_id intent)) (load_outbox s) = (map OpAcknowledge ?is :: 'p ledger_op list)"
    unfolding ids [symmetric] by simp
  moreover have len: "length ?is = length (load_outbox s)" unfolding ids [symmetric] by simp
  moreover have pub: "ls_publications s \<union> set ?is = fst ` set (ls_events s)" using ob by (auto simp: outbox_ok_def)
  ultimately have "foldE (run_step ops lc) (s, []) (map (\<lambda>intent. OpAcknowledge (oi_event_id intent)) (load_outbox s))
      = Inr (s\<lparr>ls_publications := fst ` set (ls_events s), ls_outbox := []\<rparr>, replicate (length (load_outbox s)) (Some True))"
    by (simp only: all append_Nil)
  then show ?thesis by (intro exI conjI) (assumption, simp_all add: load_outbox_def)
qed

theorem outbox_drains_witness:
  "\<exists>t. foldE (run_step portfolio_payload_ops demo_ledger_codec) (demo_ledger [demo_opening, demo_filled], [])
      [OpAcknowledge 1, OpAcknowledge 2] = Inr (t, [Some True, Some True]) \<and> load_outbox t = [] \<and> ls_publications t = {1, 2}"
proof -
  have "load_outbox (demo_ledger [demo_opening, demo_filled]) = [demo_intent 1, demo_intent 2]"
    by (simp add: load_outbox_def demo_ledger_def demo_keys)
  moreover have "fst ` set (ls_events (demo_ledger [demo_opening, demo_filled])) = {1, 2}" by (simp add: demo_ledger_def demo_keys)
  moreover have "oi_event_id (demo_intent i) = i" for i by (simp add: demo_intent_def)
  ultimately show ?thesis using outbox_drains [OF demo_reachable] by (simp add: numeral_2_eq_2)
qed

text \<open>
  C9: What a run of the ledger stored can be read and replayed. Where the JSON codec reads back the texts it
  wrote for the appended events, the events load, they are appended events and cover every appended event
  id, they are strictly ordered by stream, sequence and id, each stream reads as its part of that order
  and is numbered from one without a gap. Their replay succeeds exactly when their execution reports form
  a valid batch, and then returns the complete reference projection of the stored records without issues.
\<close>

theorem stored_ledger_replays:
  assumes "foldE (ledger_step ops lc) empty_ledger ds = Inr s"
    and "\<And>event. event \<in> appended ds \<Longrightarrow> decodes_event ops lc event"
    and "\<forall>x. sha256_hex (lc_sha256 lc x)" "int (length ds) \<le> POSTGRES_BIGINT_MAX"
  shows "\<exists>es. load_events ops lc s = Inr es
    \<and> set es \<subseteq> appended ds \<and> ev_event_id ` set es = ev_event_id ` appended ds
    \<and> mapE (from_envelope ops lc) es = Inr (sort_key stored_key (stored_records s))
    \<and> sorted_wrt (<) (map event_key es)
    \<and> (\<forall>k. load_stream_events ops lc s k = Inr (of_stream k es)
          \<and> map ev_sequence (of_stream k es) = map int [1..<Suc (length (of_stream k es))])
    \<and> (case validate_execution_report_events ops es of
          Inl _ \<Rightarrow> \<not> is_ok (replay ops lc es None None)
        | Inr _ \<Rightarrow> (\<exists>r. replay ops lc es None None = Inr r \<and> lr_state r = history_projection (stored_records s)
            \<and> lr_status r = RS_COMPLETE \<and> lr_issues r = []))"
proof -
  from loaded_in_order [OF assms(1,2)] obtain es where es: "load_events ops lc s = Inr es"
      "mapE (from_envelope ops lc) es = Inr (sort_key stored_key (stored_records s))"
    and c: "set es \<subseteq> appended ds" "ev_event_id ` set es = ev_event_id ` appended ds" "sorted_wrt (<) (map event_key es)"
    and k: "\<And>k. load_stream_events ops lc s k = Inr (of_stream k es)"
      "\<And>k. map ev_sequence (of_stream k es) = map int [1..<Suc (length (of_stream k es))]" by blast
  show ?thesis using es c k loaded_replays [OF assms(1) es(2) assms(3,4)] by blast
qed

theorem stored_ledger_replays_witness:
  "\<exists>es r. load_events portfolio_payload_ops demo_ledger_codec (demo_ledger [demo_opening, demo_filled]) = Inr es
    \<and> ev_event_id ` set es = {1, 2} \<and> sorted_wrt (<) (map event_key es)
    \<and> replay portfolio_payload_ops demo_ledger_codec es None None = Inr r \<and> lr_issues r = []"
proof -
  have law: "decodes_event portfolio_payload_ops demo_ledger_codec e" if "e \<in> appended demo_appends" for e
    using that demo_decodes by (auto simp: demo_appended_events)
  have sha: "\<forall>x. sha256_hex (lc_sha256 demo_ledger_codec x)" by (simp only: demo_ledger_sha simp_thms)
  have len: "int (length demo_appends) \<le> POSTGRES_BIGINT_MAX" by (simp add: demo_appends_def POSTGRES_BIGINT_MAX_def)
  from stored_ledger_replays [OF demo_appended law sha len] obtain es where
    es: "load_events portfolio_payload_ops demo_ledger_codec (demo_ledger [demo_opening, demo_filled]) = Inr es"
      "set es \<subseteq> {demo_opening, demo_filled}" "ev_event_id ` set es = ev_event_id ` {demo_opening, demo_filled}"
      "sorted_wrt (<) (map event_key es)"
    and r: "case validate_execution_report_events portfolio_payload_ops es of
        Inl _ \<Rightarrow> \<not> is_ok (replay portfolio_payload_ops demo_ledger_codec es None None)
      | Inr _ \<Rightarrow> (\<exists>r. replay portfolio_payload_ops demo_ledger_codec es None None = Inr r
          \<and> lr_state r = history_projection (stored_records (demo_ledger [demo_opening, demo_filled]))
          \<and> lr_status r = RS_COMPLETE \<and> lr_issues r = [])" unfolding demo_appended_events by blast
  have "validate_execution_report_events portfolio_payload_ops es = Inr es"
    by (rule no_reports) (use es(2) demo_types in auto)
  with r es show ?thesis by (auto simp: demo_keys)
qed

text \<open>
  C25: The idempotency digest covers the whole request: the length-prefixed bytes hashed for two append
  requests are equal only when event id, stream, sequence, type, event text, topic and payload all are.
\<close>

theorem request_frames_identify:
  assumes "mapE framed_part (append_request_parts r a) = Inr fs" "mapE framed_part (append_request_parts q b) = Inr gs"
    and "concat fs = concat gs"
  shows "se_event_id r = se_event_id q \<and> se_stream_id r = se_stream_id q \<and> se_sequence r = se_sequence q
    \<and> se_event_type r = se_event_type q \<and> se_canonical_json r = se_canonical_json q
    \<and> oi_topic a = oi_topic b \<and> oi_payload_json a = oi_payload_json b"
  by (rule request_frames_inj [OF assms])

theorem request_frames_identify_witness:
  "\<exists>fs. mapE framed_part (append_request_parts (demo_record demo_opening) (demo_intent 1)) = Inr fs
    \<and> oi_topic (demo_intent 1) = oi_topic (demo_intent 7)"
proof -
  have p: "append_request_parts (demo_record demo_opening) (demo_intent 7) = append_request_parts (demo_record demo_opening) (demo_intent 1)"
    by (simp add: append_request_parts_def demo_intent_def)
  from demo_requests(1) obtain fs where fs: "mapE framed_part (append_request_parts (demo_record demo_opening) (demo_intent 1)) = Inr fs"
    by (auto simp: append_request_digest_def bindE_Inr_iff)
  from fs request_frames_identify [OF fs fs [folded p] refl] show ?thesis by blast
qed

section \<open>Properties of the payload decoder\<close>



end
