(* ===== verification/Portfolio_Replay.thy ===== *)
theory Portfolio_Replay
  imports Portfolio_Ledger Ledger_Repository
begin

text \<open>
  The strict portfolio replay (\<^verbatim>\<open>src/packages/portfolio_reducer/replay.py\<close> and the records at the end of
  its \<^verbatim>\<open>models.py\<close>): canonical ordering, the history hash chain, the lineage checks of a state, full and
  tail replay, snapshot records and their authorities. Python's \<open>==\<close> on models compares decimals and
  times by value, so it has its own definitions here.
\<close>

section \<open>Equality of snapshots and source events\<close>

definition balance_eq :: "account_balance_snapshot \<Rightarrow> account_balance_snapshot \<Rightarrow> bool" where
  "balance_eq a b =
     (ab_account_id a = ab_account_id b \<and> currency_eq (ab_currency a) (ab_currency b) \<and> money_eq (ab_cash a) (ab_cash b)
      \<and> money_eq (ab_locked_funds a) (ab_locked_funds b) \<and> money_eq (ab_margin_used a) (ab_margin_used b)
      \<and> money_eq (ab_realized_pnl a) (ab_realized_pnl b) \<and> money_eq (ab_unrealized_pnl a) (ab_unrealized_pnl b)
      \<and> money_eq (ab_fees a) (ab_fees b) \<and> money_eq (ab_funding a) (ab_funding b)
      \<and> dt_eq (ab_observed_at a) (ab_observed_at b) \<and> ab_schema_version a = ab_schema_version b)"

definition mark_eq :: "position_mark \<Rightarrow> position_mark \<Rightarrow> bool" where
  "mark_eq a b =
     (price_eq (pm_price a) (pm_price b) \<and> dt_eq (pm_marked_at a) (pm_marked_at b) \<and> pm_provenance_id a = pm_provenance_id b)"

definition account_position_eq :: "account_position_snapshot \<Rightarrow> account_position_snapshot \<Rightarrow> bool" where
  "account_position_eq a b =
     (ap_account_id a = ap_account_id b \<and> ap_strategy_id a = ap_strategy_id b \<and> ap_instrument a = ap_instrument b
      \<and> currency_eq (ap_settlement_currency a) (ap_settlement_currency b) \<and> quantity_eq (ap_quantity a) (ap_quantity b)
      \<and> option_eq mark_eq (ap_mark a) (ap_mark b)
      \<and> option_eq price_eq (ap_average_entry_price a) (ap_average_entry_price b)
      \<and> money_eq (ap_realized_pnl a) (ap_realized_pnl b) \<and> money_eq (ap_unrealized_pnl a) (ap_unrealized_pnl b)
      \<and> money_eq (ap_fees a) (ap_fees b) \<and> money_eq (ap_funding a) (ap_funding b)
      \<and> dt_eq (ap_observed_at a) (ap_observed_at b) \<and> ap_schema_version a = ap_schema_version b)"

definition exposure_eq :: "exposure_snapshot \<Rightarrow> exposure_snapshot \<Rightarrow> bool" where
  "exposure_eq a b =
     (currency_eq (ex_currency a) (ex_currency b) \<and> money_eq (ex_gross a) (ex_gross b) \<and> money_eq (ex_net a) (ex_net b)
      \<and> money_eq (ex_pending a) (ex_pending b))"

definition account_snapshot_eq :: "account_portfolio_snapshot \<Rightarrow> account_portfolio_snapshot \<Rightarrow> bool" where
  "account_snapshot_eq a b =
     (as_snapshot_id a = as_snapshot_id b \<and> as_account_id a = as_account_id b
      \<and> currency_eq (as_reporting_currency a) (as_reporting_currency b)
      \<and> list_all2 balance_eq (as_balances a) (as_balances b)
      \<and> list_all2 account_position_eq (as_positions a) (as_positions b)
      \<and> exposure_eq (as_total_exposure a) (as_total_exposure b)
      \<and> list_all2 (\<lambda>x y. ie_instrument x = ie_instrument y \<and> exposure_eq (ie_exposure x) (ie_exposure y))
          (as_instrument_exposures a) (as_instrument_exposures b)
      \<and> list_all2 (\<lambda>x y. se_strategy_id x = se_strategy_id y \<and> exposure_eq (se_exposure x) (se_exposure y))
          (as_strategy_exposures a) (as_strategy_exposures b)
      \<and> list_all2 (\<lambda>x y. ve_venue_id x = ve_venue_id y \<and> exposure_eq (ve_exposure x) (ve_exposure y))
          (as_venue_exposures a) (as_venue_exposures b)
      \<and> dt_eq (as_observed_at a) (as_observed_at b) \<and> as_schema_version a = as_schema_version b)"

fun fill_payload_eq :: "portfolio_payload \<Rightarrow> portfolio_payload \<Rightarrow> bool" where
  "fill_payload_eq (FillEntry a) (FillEntry b) = fill_entry_eq a b"
| "fill_payload_eq _ _ = False"

definition source_event_eq :: "portfolio_event \<Rightarrow> portfolio_event \<Rightarrow> bool" where
  "source_event_eq a b =
     (ev_event_id a = ev_event_id b \<and> ev_event_type a = ev_event_type b \<and> ev_schema_version a = ev_schema_version b
      \<and> ev_source a = ev_source b \<and> ev_stream_id a = ev_stream_id b \<and> ev_sequence a = ev_sequence b
      \<and> dt_eq (ev_observed_at a) (ev_observed_at b) \<and> dt_eq (ev_ingested_at a) (ev_ingested_at b)
      \<and> dt_eq (ev_produced_at a) (ev_produced_at b) \<and> dt_eq (ev_effective_at a) (ev_effective_at b)
      \<and> dt_eq (ev_expires_at a) (ev_expires_at b) \<and> ev_correlation_id a = ev_correlation_id b
      \<and> ev_causation_id a = ev_causation_id b \<and> ev_trace_id a = ev_trace_id b
      \<and> fill_payload_eq (ev_payload a) (ev_payload b))"

section \<open>Canonical events and the history hash\<close>

definition catch_model_error :: "'a res \<Rightarrow> string \<Rightarrow> 'a res" where
  "catch_model_error m message =
     (case m of
        Inl e \<Rightarrow> Inl (if is_value_error e \<or> e = AttributeError then PortfolioReplayError message else e)
      | Inr x \<Rightarrow> Inr x)"

lemma catch_model_Inr_iff [res_simps]: "catch_model_error m e = Inr y \<longleftrightarrow> m = Inr y"
  by (cases m) (auto simp: catch_model_error_def)

lemma catch_model_Inr [simp]: "catch_model_error (Inr x) e = Inr x"
  by (simp add: catch_model_error_def)

record portfolio_codec =
  pc_codec :: codec
  pc_ledger :: "portfolio_payload ledger_codec"
  pc_state_document :: "replay_state \<Rightarrow> json"
  pc_snapshot_document :: "account_portfolio_snapshot \<Rightarrow> json"

definition canonical_portfolio_event :: "portfolio_codec \<Rightarrow> portfolio_event \<Rightarrow> portfolio_event res" where
  "canonical_portfolio_event pc event =
     catch_value_error
       (bindE (serialize_event portfolio_payload_ops (pc_ledger pc) event) (\<lambda>text.
        deserialize_event portfolio_payload_ops (pc_ledger pc) text))
       (PortfolioReplayError ''portfolio event is not a canonical ledger envelope'')"

definition event_key :: "portfolio_event \<Rightarrow> uuid \<times> int \<times> uuid" where
  "event_key e = record_key (ev_stream_id e) (ev_sequence e) (ev_event_id e)"

definition canonical_portfolio_events :: "portfolio_codec \<Rightarrow> portfolio_event list \<Rightarrow> portfolio_event list res" where
  "canonical_portfolio_events pc events =
     bindE (mapE (canonical_portfolio_event pc) events) (\<lambda>canonical.
     bindE (replay_if (canonical \<noteq> sort_key event_key canonical)
              ''portfolio events must be supplied in canonical ordered sequence'') (\<lambda>_.
     Inr canonical))"

definition ledger_digest :: "portfolio_codec \<Rightarrow> portfolio_event \<Rightarrow> string res" where
  "ledger_digest pc event =
     bindE (serialize_event portfolio_payload_ops (pc_ledger pc) event) (\<lambda>text. Inr (lc_sha256 (pc_ledger pc) text))"

definition extend_history_hash :: "portfolio_codec \<Rightarrow> string \<Rightarrow> portfolio_event \<Rightarrow> string res" where
  "extend_history_hash pc previous event =
     bindE (ledger_digest pc event) (\<lambda>digest.
     bindE (canonical_json (JObject
              [(''event_digest'', JString digest), (''event_id'', JString (uuid_text (ev_event_id event))),
               (''event_type'', JString (ev_event_type event)), (''previous'', JString previous),
               (''sequence'', JInt (ev_sequence event))])) (\<lambda>material.
     Inr (lc_sha256 (pc_ledger pc) material)))"

section \<open>Documents\<close>

definition PORTFOLIO_REPLAY_SCHEMA_VERSION :: string where
  "PORTFOLIO_REPLAY_SCHEMA_VERSION = ''portfolio-replay-v1''"

definition PORTFOLIO_REDUCER_VERSION :: string where
  "PORTFOLIO_REDUCER_VERSION = ''portfolio-reducer-v1''"

text \<open>\<^verbatim>\<open>PortfolioReplayResult\<close> and \<^verbatim>\<open>PortfolioSnapshotRecord\<close> have the same fields and constraints.\<close>

record portfolio_document =
  pd_schema_version :: string
  pd_reducer_version :: string
  pd_state :: replay_state
  pd_canonical_snapshot :: account_portfolio_snapshot
  pd_cursor :: "stream_cursor list"
  pd_prefix_history_hash :: string
  pd_canonical_state_json :: string
  pd_state_hash :: string

definition mk_portfolio_document :: "portfolio_document \<Rightarrow> portfolio_document res" where
  "mk_portfolio_document d =
     wrap_validation (
       bindE (require_field ''schema_version'' (pd_schema_version d = PORTFOLIO_REPLAY_SCHEMA_VERSION)) (\<lambda>_.
       bindE (require_field ''reducer_version'' (pd_reducer_version d = PORTFOLIO_REDUCER_VERSION)) (\<lambda>_.
       bindE (mk_replay_state (pd_state d)) (\<lambda>state.
       bindE (mk_account_portfolio_snapshot (pd_canonical_snapshot d)) (\<lambda>snapshot.
       bindE (mapE mk_stream_cursor (pd_cursor d)) (\<lambda>cursor.
       bindE (require_field ''prefix_history_hash'' (sha256_hex (pd_prefix_history_hash d))) (\<lambda>_.
       bindE (require_field ''canonical_state_json'' (2 \<le> length (pd_canonical_state_json d))) (\<lambda>_.
       bindE (require_field ''state_hash'' (sha256_hex (pd_state_hash d))) (\<lambda>_.
       Inr (d\<lparr>pd_state := state, pd_canonical_snapshot := snapshot, pd_cursor := cursor\<rparr>))))))))))"

record snapshot_authority =
  sa_schema_version :: string
  sa_reducer_version :: string
  sa_account_id :: string
  sa_stream_id :: uuid
  sa_cursor_sequence :: int
  sa_snapshot_state_hash :: string
  sa_prefix_history_hash :: string

definition mk_snapshot_authority :: "snapshot_authority \<Rightarrow> snapshot_authority res" where
  "mk_snapshot_authority a =
     wrap_validation (
       bindE (require_field ''schema_version'' (sa_schema_version a = PORTFOLIO_REPLAY_SCHEMA_VERSION)) (\<lambda>_.
       bindE (require_field ''reducer_version'' (sa_reducer_version a = PORTFOLIO_REDUCER_VERSION)) (\<lambda>_.
       bindE (require_field ''account_id'' (canonical_identifier (sa_account_id a))) (\<lambda>_.
       bindE (require_field ''cursor_sequence'' (0 < sa_cursor_sequence a)) (\<lambda>_.
       bindE (require_field ''snapshot_state_hash'' (sha256_hex (sa_snapshot_state_hash a))) (\<lambda>_.
       bindE (require_field ''prefix_history_hash'' (sha256_hex (sa_prefix_history_hash a))) (\<lambda>_.
       Inr a)))))))"

definition cursor_json :: "stream_cursor \<Rightarrow> json" where
  "cursor_json c = JObject [(''sequence'', JInt (sc_sequence c)), (''stream_id'', JString (uuid_text (sc_stream_id c)))]"

definition canonical_state_document ::
  "portfolio_codec \<Rightarrow> replay_state \<Rightarrow> account_portfolio_snapshot \<Rightarrow> stream_cursor list \<Rightarrow> string \<Rightarrow> string \<Rightarrow> string
    \<Rightarrow> string res" where
  "canonical_state_document pc state canonical_snapshot cursor prefix_history_hash schema_version reducer_version =
     catch_model_error
       (canonical_json (JObject
          [(''schema_version'', JString schema_version), (''reducer_version'', JString reducer_version),
           (''state'', pc_state_document pc state), (''canonical_snapshot'', pc_snapshot_document pc canonical_snapshot),
           (''cursor'', JArray (map cursor_json cursor)), (''prefix_history_hash'', JString prefix_history_hash)]))
       ''portfolio replay state cannot be canonically represented''"

section \<open>The lineage checks of a state\<close>

definition applied_sequence_step :: "stream_cursor \<Rightarrow> int list \<Rightarrow> applied_event \<Rightarrow> int list res" where
  "applied_sequence_step cursor applied_sequences item =
     bindE (replay_if (ae_stream_id item \<noteq> sc_stream_id cursor) ''snapshot applied event stream does not match cursor'') (\<lambda>_.
     bindE (replay_if (sc_sequence cursor < ae_sequence item) ''snapshot applied event sequence exceeds cursor'') (\<lambda>_.
     bindE (replay_if (ae_sequence item \<in> set applied_sequences) ''snapshot applied event sequence is duplicated'') (\<lambda>_.
     Inr (applied_sequences @ [ae_sequence item]))))"

type_synonym identity_table = "(string \<times> (uuid \<times> applied_event) list) list"

definition expected_identity_step :: "identity_table \<Rightarrow> applied_event \<Rightarrow> identity_table res" where
  "expected_identity_step table item =
     (case map_of table (ae_event_type item) of
        None \<Rightarrow>
          bindE (replay_if (ae_business_identity_id item \<noteq> None)
                   ''snapshot business identity is unexpected for applied event type'') (\<lambda>_. Inr table)
      | Some expected \<Rightarrow>
          (case ae_business_identity_id item of
             None \<Rightarrow> replay_error ''snapshot applied event business identity is incomplete''
           | Some identity_id \<Rightarrow>
               bindE (replay_if (identity_id \<in> fst ` set expected)
                        ''snapshot applied events duplicate a business identity binding'') (\<lambda>_.
               Inr (dict_put (ae_event_type item) (dict_put identity_id item expected) table))))"

definition check_identity_metadata :: "string \<Rightarrow> business_identity list \<Rightarrow> uuid \<times> applied_event \<Rightarrow> unit res" where
  "check_identity_metadata label identities item =
     (case map_of (dict_of bi_identity_id identities) (fst item) of
        None \<Rightarrow> Inl KeyError
      | Some identity \<Rightarrow>
          replay_if (bi_event_id identity \<noteq> ae_event_id (snd item) \<or> bi_event_digest identity \<noteq> ae_digest (snd item)
                     \<or> bi_stream_id identity \<noteq> ae_stream_id (snd item) \<or> bi_sequence identity \<noteq> ae_sequence (snd item))
            (''snapshot '' @ label @ '' business identity metadata does not match applied event''))"

definition check_identity_index ::
  "identity_table \<Rightarrow> string \<times> string \<times> business_identity list \<Rightarrow> unit res" where
  "check_identity_index table entry =
     (case entry of (label, event_type, identities) \<Rightarrow>
        let expected = (case map_of table event_type of None \<Rightarrow> [] | Some d \<Rightarrow> d)
        in
        bindE (replay_if (fst ` set expected \<noteq> bi_identity_id ` set identities)
                 (''snapshot '' @ label @ '' business identity index is incomplete'')) (\<lambda>_.
        bindE (mapE (check_identity_metadata label identities) expected) (\<lambda>_.
        Inr ())))"

definition identity_lineage_step ::
  "(uuid \<times> string) list \<Rightarrow> stream_cursor \<Rightarrow> uuid list \<times> int list \<Rightarrow> business_identity \<Rightarrow> (uuid list \<times> int list) res" where
  "identity_lineage_step applied cursor seen identity =
     bindE (replay_if (map_of applied (bi_event_id identity) \<noteq> Some (bi_event_digest identity))
              ''snapshot business identity is not bound to an applied event'') (\<lambda>_.
     bindE (replay_if (bi_stream_id identity \<noteq> sc_stream_id cursor)
              ''snapshot business identity stream does not match cursor'') (\<lambda>_.
     bindE (replay_if (sc_sequence cursor < bi_sequence identity)
              ''snapshot business identity sequence exceeds cursor'') (\<lambda>_.
     bindE (replay_if (bi_event_id identity \<in> set (fst seen) \<or> bi_sequence identity \<in> set (snd seen))
              ''snapshot business identity lineage is duplicated'') (\<lambda>_.
     Inr (fst seen @ [bi_event_id identity], snd seen @ [bi_sequence identity])))))"

definition latest_identity :: "business_identity list \<Rightarrow> business_identity option" where
  "latest_identity identities =
     (case identities of
        [] \<Rightarrow> None
      | first # rest \<Rightarrow> Some (foldl (\<lambda>best i. if bi_sequence best < bi_sequence i then i else best) first rest))"

definition effect_lineage_step ::
  "portfolio_codec \<Rightarrow> replay_state \<Rightarrow> stream_cursor \<Rightarrow> (uuid \<times> string) list \<Rightarrow> business_identity option
    \<Rightarrow> uuid list \<times> int list \<Rightarrow> execution_effect \<Rightarrow> (uuid list \<times> int list) res" where
  "effect_lineage_step pc s cursor applied latest_reconciliation seen effect =
     (let account_id = ws_account_id (rp_snapshot s)
      in
      bindE (replay_if (fx_account_id effect \<noteq> account_id \<or> pfl_account_id (fx_entry effect) \<noteq> account_id)
               ''snapshot effect account does not match portfolio account'') (\<lambda>_.
      bindE (replay_if (sc_sequence cursor < fx_logical_sequence effect) ''snapshot effect sequence exceeds cursor'') (\<lambda>_.
      bindE (canonical_portfolio_event pc (fx_source_event effect)) (\<lambda>source.
      bindE (replay_if (\<not> source_event_eq source (fx_source_event effect) \<or> \<not> carries_entry (ev_payload source) (fx_entry effect))
               ''snapshot effect source event is invalid'') (\<lambda>_.
      bindE (ledger_digest pc source) (\<lambda>source_digest.
      bindE (replay_if (map_of applied (ev_event_id source) \<noteq> Some source_digest)
               ''snapshot effect is not bound to an applied event'') (\<lambda>_.
      bindE (replay_if (ev_stream_id source \<noteq> sc_stream_id cursor) ''snapshot effect stream does not match cursor'') (\<lambda>_.
      bindE (replay_if (sc_sequence cursor < ev_sequence source) ''snapshot effect source sequence exceeds cursor'') (\<lambda>_.
      bindE (case map_of (dict_of bi_identity_id (rp_execution_identities s)) (fx_execution_id effect) of
               None \<Rightarrow> replay_error ''snapshot effect is not bound to its execution identity''
             | Some identity \<Rightarrow>
                 if bi_event_id identity \<noteq> ev_event_id source \<or> bi_event_digest identity \<noteq> source_digest
                 then replay_error ''snapshot effect is not bound to its execution identity''
                 else
                   bindE (payload_digest (pc_codec pc) (FillEntry (fx_entry effect))) (\<lambda>digest.
                   replay_if (bi_payload_digest identity \<noteq> digest \<or> bi_sequence identity \<noteq> ev_sequence source)
                     ''snapshot effect is not bound to its execution identity'')) (\<lambda>_.
      bindE (replay_if (case latest_reconciliation of
                          None \<Rightarrow> False
                        | Some latest \<Rightarrow> ev_sequence source \<le> bi_sequence latest \<or> fx_logical_sequence effect \<le> bi_sequence latest)
               ''snapshot effect predates the latest reconciliation'') (\<lambda>_.
      bindE (replay_if (ev_event_id source \<in> set (fst seen) \<or> fx_logical_sequence effect \<in> set (snd seen))
               ''snapshot effects have duplicate lineage'') (\<lambda>_.
      let status = (case ev_payload source of FillEntry e \<Rightarrow> fe_status (pfl_fill e) | _ \<Rightarrow> fe_status (fx_fill effect))
      in
      bindE (replay_if (status \<in> {FR_PARTIALLY_FILLED, FR_FILLED} \<and> fx_logical_sequence effect \<noteq> ev_sequence source)
               ''snapshot effect logical sequence does not match source'') (\<lambda>_.
      bindE (replay_if (status = FR_CORRECTION \<and> ev_sequence source \<le> fx_logical_sequence effect)
               ''snapshot correction effect lineage is invalid'') (\<lambda>_.
      Inr (fst seen @ [ev_event_id source], snd seen @ [fx_logical_sequence effect])))))))))))))))"

definition group_effects :: "execution_effect list \<Rightarrow> ((string \<times> string) \<times> execution_effect list) list" where
  "group_effects effects =
     foldl (\<lambda>d x. dict_put (fx_position_key x)
              ((case map_of d (fx_position_key x) of None \<Rightarrow> [] | Some xs \<Rightarrow> xs) @ [x]) d) [] effects"

record lineage_walk =
  lw_quantity :: decimal
  lw_average :: "price option"
  lw_prior :: "execution_effect list"

definition lineage_step :: "lineage_walk \<Rightarrow> execution_effect \<Rightarrow> lineage_walk res" where
  "lineage_step w effect =
     bindE (validate_execution_effect effect (lw_prior w)) (\<lambda>_.
     bindE (replay_if (\<not> dec_eq (q_value (fx_quantity_before effect)) (lw_quantity w)
                       \<or> \<not> option_eq price_eq (fx_average_before effect) (lw_average w))
              ''snapshot effect lineage is not contiguous'') (\<lambda>_.
     bindE (sum_decimals [lw_quantity w, q_value (fx_quantity_delta effect)] ''snapshot effect lineage quantity'') (\<lambda>q.
     Inr \<lparr>lw_quantity = q, lw_average = fx_average_after effect, lw_prior = lw_prior w @ [effect]\<rparr>)))"

definition check_position_lineage :: "replay_state \<Rightarrow> (string \<times> string) \<times> execution_effect list \<Rightarrow> unit res" where
  "check_position_lineage s entry =
     (case sort_key fx_logical_sequence (snd entry) of
        [] \<Rightarrow> Inl IndexError
      | first # rest \<Rightarrow>
          bindE (foldE lineage_step
                   \<lparr>lw_quantity = q_value (fx_quantity_before first), lw_average = fx_average_before first, lw_prior = []\<rparr>
                   (first # rest)) (\<lambda>w.
          case find (\<lambda>p. position_key p = fst entry) (ws_positions (rp_snapshot s)) of
            None \<Rightarrow> replay_error ''snapshot effect lineage does not match current position''
          | Some position \<Rightarrow>
              replay_if (\<not> dec_eq (q_value (pst_quantity position)) (lw_quantity w)
                         \<or> \<not> option_eq price_eq (pst_average_entry_price position) (lw_average w))
                ''snapshot effect lineage does not match current position''))"

definition check_reconciliation_account :: "replay_state \<Rightarrow> unit res" where
  "check_reconciliation_account s =
     replay_if (case rp_reconciliation s of
                  None \<Rightarrow> False
                | Some r \<Rightarrow> prc_account_id r \<noteq> ws_account_id (rp_snapshot s)
                            \<or> as_account_id (prc_snapshot r) \<noteq> ws_account_id (rp_snapshot s))
       ''snapshot reconciliation account does not match portfolio account''"

definition check_latest_reconciliation :: "portfolio_codec \<Rightarrow> replay_state \<Rightarrow> business_identity option \<Rightarrow> unit res" where
  "check_latest_reconciliation pc s latest =
     bindE (replay_if ((rp_reconciliation s = None) \<noteq> (latest = None)) ''snapshot reconciliation identity is incomplete'') (\<lambda>_.
     case (rp_reconciliation s, latest) of
       (Some r, Some i) \<Rightarrow>
         bindE (payload_digest (pc_codec pc) (ReconciliationEntry r)) (\<lambda>digest.
         replay_if (bi_payload_digest i \<noteq> digest) ''snapshot reconciliation identity does not match state'')
     | _ \<Rightarrow> Inr ())"

definition validated_state :: "portfolio_codec \<Rightarrow> replay_state \<Rightarrow> replay_state res" where
  "validated_state pc state =
     bindE (catch_model_error (mk_replay_state state) ''snapshot state is invalid'') (\<lambda>s.
     bindE (replay_if (length (rp_cursor s) \<noteq> 1) ''snapshot cursor must contain exactly one portfolio stream'') (\<lambda>_.
     let cursor = hd (rp_cursor s);
         applied = map (\<lambda>(k, a). (k, ae_digest a)) (dict_of ae_event_id (rp_applied_events s))
     in
     bindE (replay_if (int (length (rp_applied_events s)) \<noteq> sc_sequence cursor)
              ''snapshot applied event count does not match cursor'') (\<lambda>_.
     bindE (foldE (applied_sequence_step cursor) [] (rp_applied_events s)) (\<lambda>_.
     bindE (check_reconciliation_account s) (\<lambda>_.
     bindE (foldE expected_identity_step
              [(''PortfolioFillEntry'', []), (''PortfolioFundingEntry'', []), (''PortfolioReconciliationEntry'', [])]
              (rp_applied_events s)) (\<lambda>table.
     bindE (mapE (check_identity_index table)
              [(''execution'', ''PortfolioFillEntry'', rp_execution_identities s),
               (''funding'', ''PortfolioFundingEntry'', rp_funding_identities s),
               (''reconciliation'', ''PortfolioReconciliationEntry'', rp_reconciliation_identities s)]) (\<lambda>_.
     bindE (foldE (identity_lineage_step applied cursor) ([], [])
              (rp_execution_identities s @ rp_funding_identities s @ rp_reconciliation_identities s)) (\<lambda>_.
     let latest = latest_identity (rp_reconciliation_identities s)
     in
     bindE (check_latest_reconciliation pc s latest) (\<lambda>_.
     bindE (foldE (effect_lineage_step pc s cursor applied latest) ([], []) (rp_active_effects s)) (\<lambda>_.
     bindE (mapE (check_position_lineage s) (group_effects (rp_active_effects s))) (\<lambda>_.
     Inr s)))))))))))"

section \<open>Documents, authorities and replay\<close>

definition document_model :: "portfolio_document \<Rightarrow> portfolio_document res" where
  "document_model document = catch_model_error (mk_portfolio_document document) ''portfolio snapshot record is invalid''"

definition validate_document :: "portfolio_codec \<Rightarrow> portfolio_document \<Rightarrow> portfolio_document res" where
  "validate_document pc document =
     bindE (document_model document) (\<lambda>d.
     bindE (replay_if (pd_schema_version d \<noteq> PORTFOLIO_REPLAY_SCHEMA_VERSION \<or> pd_reducer_version d \<noteq> PORTFOLIO_REDUCER_VERSION)
              ''snapshot uses unsupported replay or reducer version'') (\<lambda>_.
     bindE (validated_state pc (pd_state d)) (\<lambda>s.
     bindE (replay_if (pd_cursor d \<noteq> rp_cursor s) ''snapshot cursor does not match replay state'') (\<lambda>_.
     bindE (replay_if (as_account_id (pd_canonical_snapshot d) \<noteq> ws_account_id (rp_snapshot s))
              ''snapshot canonical account does not match replay state'') (\<lambda>_.
     bindE (catch_value_error (derive_account_snapshot (pc_codec pc) s (ws_observed_at (rp_snapshot s)))
              (PortfolioReplayError ''snapshot canonical portfolio state is invalid'')) (\<lambda>expected_snapshot.
     bindE (canonical_state_document pc s expected_snapshot (rp_cursor s) (pd_prefix_history_hash d)
              (pd_schema_version d) (pd_reducer_version d)) (\<lambda>expected_json.
     bindE (replay_if (pd_canonical_state_json d \<noteq> expected_json \<or> pd_state_hash d \<noteq> lc_sha256 (pc_ledger pc) expected_json)
              ''snapshot state hash does not match canonical state'') (\<lambda>_.
     bindE (replay_if (\<not> account_snapshot_eq (pd_canonical_snapshot d) expected_snapshot)
              ''snapshot canonical portfolio state does not match replay state'') (\<lambda>_.
     Inr d)))))))))"

definition replay_result :: "portfolio_codec \<Rightarrow> replay_state \<Rightarrow> string \<Rightarrow> portfolio_document res" where
  "replay_result pc state prefix_history_hash =
     bindE (validated_state pc state) (\<lambda>s.
     bindE (derive_account_snapshot (pc_codec pc) s (ws_observed_at (rp_snapshot s))) (\<lambda>canonical_snapshot.
     bindE (canonical_state_document pc s canonical_snapshot (rp_cursor s) prefix_history_hash
              PORTFOLIO_REPLAY_SCHEMA_VERSION PORTFOLIO_REDUCER_VERSION) (\<lambda>text.
     mk_portfolio_document
       \<lparr>pd_schema_version = PORTFOLIO_REPLAY_SCHEMA_VERSION, pd_reducer_version = PORTFOLIO_REDUCER_VERSION, pd_state = s,
        pd_canonical_snapshot = canonical_snapshot, pd_cursor = rp_cursor s, pd_prefix_history_hash = prefix_history_hash,
        pd_canonical_state_json = text, pd_state_hash = lc_sha256 (pc_ledger pc) text\<rparr>)))"

definition full_history_step ::
  "portfolio_codec \<Rightarrow> portfolio_event \<Rightarrow> int \<times> (uuid \<times> string) list \<Rightarrow> portfolio_event \<Rightarrow> (int \<times> (uuid \<times> string) list) res" where
  "full_history_step pc first acc event =
     (let expected_sequence = fst acc; seen = snd acc
      in
      bindE (ledger_digest pc event) (\<lambda>digest.
      case map_of seen (ev_event_id event) of
        Some previous \<Rightarrow>
          if previous \<noteq> digest then replay_error ''conflicting event identity''
          else replay_error ''duplicate event identity''
      | None \<Rightarrow>
          bindE (replay_if (ev_stream_id event \<noteq> ev_stream_id first)
                   ''portfolio event stream does not match opening stream'') (\<lambda>_.
          bindE (replay_if (ev_sequence event \<noteq> expected_sequence)
                   (''portfolio sequence expected '' @ int_text expected_sequence @ '', got '' @ int_text (ev_sequence event))) (\<lambda>_.
          bindE (replay_if (payload_account (ev_payload event) \<noteq> payload_account (ev_payload first))
                   ''portfolio event account does not match opening account'') (\<lambda>_.
          bindE (replay_if (1 < expected_sequence \<and> is_opening (ev_payload event))
                   ''portfolio opening may only appear once'') (\<lambda>_.
          Inr (expected_sequence + 1, dict_put (ev_event_id event) digest seen)))))))"

definition validate_full_history :: "portfolio_codec \<Rightarrow> portfolio_event list \<Rightarrow> unit res" where
  "validate_full_history pc events =
     (case events of
        [] \<Rightarrow> replay_error ''portfolio event history requires an opening entry''
      | first # _ \<Rightarrow>
          bindE (replay_if (\<not> is_opening (ev_payload first)) ''first portfolio event must be an opening entry'') (\<lambda>_.
          bindE (foldE (full_history_step pc first) (1, []) events) (\<lambda>_.
          Inr ())))"

definition tail_step ::
  "portfolio_codec \<Rightarrow> replay_state \<Rightarrow> int \<times> (uuid \<times> string) list \<Rightarrow> portfolio_event \<Rightarrow> (int \<times> (uuid \<times> string) list) res" where
  "tail_step pc s acc event =
     (let expected_sequence = fst acc; seen = snd acc; cursor = hd (rp_cursor s);
          known = map_of (map (\<lambda>(k, a). (k, ae_digest a)) (dict_of ae_event_id (rp_applied_events s))) (ev_event_id event)
      in
      bindE (ledger_digest pc event) (\<lambda>digest.
      bindE (replay_if (known \<noteq> None \<and> known \<noteq> Some digest) ''conflicting event identity'') (\<lambda>_.
      bindE (replay_if (ev_stream_id event \<noteq> sc_stream_id cursor) ''tail event stream does not match snapshot cursor'') (\<lambda>_.
      bindE (replay_if (ev_sequence event \<le> sc_sequence cursor) ''tail event is not newer than snapshot cursor'') (\<lambda>_.
      bindE (replay_if (known \<noteq> None) ''tail event duplicates snapshot history'') (\<lambda>_.
      case map_of seen (ev_event_id event) of
        Some previous \<Rightarrow>
          if previous \<noteq> digest then replay_error ''conflicting event identity''
          else replay_error ''duplicate tail event identity''
      | None \<Rightarrow>
          bindE (replay_if (ev_sequence event \<noteq> expected_sequence)
                   (''tail sequence expected '' @ int_text expected_sequence @ '', got '' @ int_text (ev_sequence event))) (\<lambda>_.
          bindE (replay_if (payload_account (ev_payload event) \<noteq> ws_account_id (rp_snapshot s))
                   ''tail event account does not match portfolio account'') (\<lambda>_.
          bindE (replay_if (is_opening (ev_payload event)) ''portfolio opening may not appear in snapshot tail'') (\<lambda>_.
          Inr (expected_sequence + 1, dict_put (ev_event_id event) digest seen))))))))))"

definition validate_tail :: "portfolio_codec \<Rightarrow> portfolio_event list \<Rightarrow> portfolio_document \<Rightarrow> unit res" where
  "validate_tail pc events snapshot =
     bindE (foldE (tail_step pc (pd_state snapshot)) (sc_sequence (hd (rp_cursor (pd_state snapshot))) + 1, []) events) (\<lambda>_.
     Inr ())"

definition validate_authority :: "snapshot_authority \<Rightarrow> portfolio_document \<Rightarrow> snapshot_authority res" where
  "validate_authority authority snapshot =
     bindE (catch_model_error (mk_snapshot_authority authority) ''snapshot authority is invalid'') (\<lambda>a.
     bindE (replay_if (length (pd_cursor snapshot) \<noteq> 1) ''snapshot authority does not match snapshot record'') (\<lambda>_.
     let cursor = hd (pd_cursor snapshot)
     in
     bindE (replay_if (sa_schema_version a \<noteq> pd_schema_version snapshot \<or> sa_reducer_version a \<noteq> pd_reducer_version snapshot
                       \<or> sa_account_id a \<noteq> ws_account_id (rp_snapshot (pd_state snapshot))
                       \<or> sa_stream_id a \<noteq> sc_stream_id cursor \<or> sa_cursor_sequence a \<noteq> sc_sequence cursor
                       \<or> sa_snapshot_state_hash a \<noteq> pd_state_hash snapshot
                       \<or> sa_prefix_history_hash a \<noteq> pd_prefix_history_hash snapshot)
              ''snapshot authority does not match snapshot record'') (\<lambda>_.
     Inr a)))"

definition catch_replay_failure :: "'a res \<Rightarrow> 'a res" where
  "catch_replay_failure m =
     (case m of
        Inl e \<Rightarrow>
          (case e of
             PortfolioReplayError _ \<Rightarrow> Inl e
           | _ \<Rightarrow> if is_value_error e then replay_error ''portfolio replay failed'' else Inl e)
      | Inr x \<Rightarrow> Inr x)"

definition tail_replay_step ::
  "portfolio_codec \<Rightarrow> replay_state \<times> string \<Rightarrow> portfolio_event \<Rightarrow> (replay_state \<times> string) res" where
  "tail_replay_step pc acc event =
     bindE (apply_portfolio_event (pc_codec pc) (fst acc) event) (\<lambda>state.
     bindE (extend_history_hash pc (snd acc) event) (\<lambda>prefix_history_hash.
     Inr (state, prefix_history_hash)))"

definition replay_portfolio ::
  "portfolio_codec \<Rightarrow> portfolio_event list \<Rightarrow> portfolio_document option \<Rightarrow> snapshot_authority option
    \<Rightarrow> portfolio_document res" where
  "replay_portfolio pc events snapshot authority =
     bindE (replay_if ((snapshot = None) \<noteq> (authority = None)) ''snapshot and authority must be supplied together'') (\<lambda>_.
     bindE (canonical_portfolio_events pc events) (\<lambda>batch.
     case (snapshot, authority) of
       (Some snapshot, Some authority) \<Rightarrow>
         bindE (document_model snapshot) (\<lambda>untrusted_snapshot.
         bindE (validate_authority authority untrusted_snapshot) (\<lambda>validated_authority.
         bindE (validate_document pc untrusted_snapshot) (\<lambda>validated_snapshot.
         bindE (validate_tail pc batch validated_snapshot) (\<lambda>_.
         catch_replay_failure (
           bindE (foldE (tail_replay_step pc) (pd_state validated_snapshot, sa_prefix_history_hash validated_authority) batch)
             (\<lambda>(state, prefix_history_hash). replay_result pc state prefix_history_hash))))))
     | _ \<Rightarrow>
         bindE (validate_full_history pc batch) (\<lambda>_.
         catch_replay_failure (
           bindE (foldE (extend_history_hash pc) (lc_sha256 (pc_ledger pc) []) batch) (\<lambda>prefix_history_hash.
           bindE (reduce_portfolio_events (pc_codec pc) batch) (\<lambda>state.
           replay_result pc state prefix_history_hash))))))"

definition snapshot_from_portfolio_result :: "portfolio_codec \<Rightarrow> portfolio_document \<Rightarrow> portfolio_document res" where
  "snapshot_from_portfolio_result pc result =
     bindE (validate_document pc result) (\<lambda>validated.
     bindE (mk_portfolio_document validated) (\<lambda>record.
     validate_document pc record))"

definition snapshot_authority_from_result :: "portfolio_codec \<Rightarrow> portfolio_document \<Rightarrow> snapshot_authority res" where
  "snapshot_authority_from_result pc result =
     bindE (validate_document pc result) (\<lambda>validated.
     let cursor = hd (pd_cursor validated)
     in mk_snapshot_authority
          \<lparr>sa_schema_version = pd_schema_version validated, sa_reducer_version = pd_reducer_version validated,
           sa_account_id = ws_account_id (rp_snapshot (pd_state validated)), sa_stream_id = sc_stream_id cursor,
           sa_cursor_sequence = sc_sequence cursor, sa_snapshot_state_hash = pd_state_hash validated,
           sa_prefix_history_hash = pd_prefix_history_hash validated\<rparr>)"

section \<open>What a replay result satisfies\<close>

lemma catch_replay_failure_Inr_iff [res_simps]: "catch_replay_failure m = Inr y \<longleftrightarrow> m = Inr y"
  by (cases m) (auto simp: catch_replay_failure_def split: error.splits)

lemma money_eq_refl [simp]: "currency_eq c c" "money_eq m m" "price_eq p p" "quantity_eq q q" "dt_eq t t" "dec_eq d d"
  by (simp_all add: currency_eq_def money_eq_def price_eq_def quantity_eq_def dt_eq_def dec_eq_def)

lemma option_eq_refl: "(\<And>x. eq x x) \<Longrightarrow> option_eq eq x x"
  by (cases x) simp_all

lemma account_snapshot_eq_refl [simp]: "account_snapshot_eq a a"
proof -
  have "balance_eq b b" "mark_eq m m" "exposure_eq e e" for b m e
    by (simp_all add: balance_eq_def mark_eq_def exposure_eq_def)
  moreover from this have "account_position_eq p p" for p by (simp add: account_position_eq_def option_eq_refl)
  ultimately show ?thesis by (simp add: account_snapshot_eq_def list_all2_refl)
qed

lemma mk_account_snapshot_id: "mk_account_portfolio_snapshot s = Inr t \<Longrightarrow> t = s"
  by (auto simp: mk_account_portfolio_snapshot_def valid_snapshot_def res_simps)

lemma derive_account_id:
  assumes "derive_account_snapshot cd s t = Inr a"
  shows "mk_account_portfolio_snapshot a = Inr a \<and> as_account_id a = ws_account_id (rp_snapshot s)"
proof -
  from assms obtain b where b: "mk_account_portfolio_snapshot b = Inr a" "as_account_id b = ws_account_id (rp_snapshot s)"
    unfolding derive_account_snapshot_def Let_def bindE_Inr_iff by fastforce
  with mk_account_snapshot_id [OF b(1)] show ?thesis by simp
qed

lemma mapE_cursor_id: "mapE mk_stream_cursor cs = Inr ds \<Longrightarrow> ds = cs"
  by (erule mapE_Inr_id [rotated]) (auto simp: mk_stream_cursor_def res_simps)

lemma validated_state_Inr:
  assumes "validated_state pc s = Inr t" "replay_valid s"
  shows "t = s \<and> length (rp_cursor s) = 1 \<and> int (length (rp_applied_events s)) = sc_sequence (hd (rp_cursor s))"
proof -
  have "mk_replay_state s = Inr s" using assms(2) by (simp add: replay_valid_def)
  with assms(1) show ?thesis unfolding validated_state_def Let_def
    by (auto simp: bindE_Inr_iff replay_if_Inr_iff)
qed

lemma mk_document_parts:
  assumes "mk_portfolio_document d = Inr r" "replay_valid (pd_state d)"
    and "mk_account_portfolio_snapshot (pd_canonical_snapshot d) = Inr (pd_canonical_snapshot d)"
  shows "r = d" "mapE mk_stream_cursor (pd_cursor d) = Inr (pd_cursor d)" "sha256_hex (pd_prefix_history_hash d)" "sha256_hex (pd_state_hash d)"
proof -
  have s: "mk_replay_state (pd_state d) = Inr (pd_state d)" using assms(2) by (simp add: replay_valid_def)
  from assms(1) obtain c where c: "mapE mk_stream_cursor (pd_cursor d) = Inr c"
    and r: "r = d\<lparr>pd_state := pd_state d, pd_canonical_snapshot := pd_canonical_snapshot d, pd_cursor := c\<rparr>"
    and h: "sha256_hex (pd_prefix_history_hash d)" "sha256_hex (pd_state_hash d)"
    unfolding mk_portfolio_document_def wrap_Inr_iff s assms(3) by (auto simp: bindE_Inr_iff require_field_Inr_iff)
  from mapE_cursor_id [OF c] c r h show "r = d" "mapE mk_stream_cursor (pd_cursor d) = Inr (pd_cursor d)"
    "sha256_hex (pd_prefix_history_hash d)" "sha256_hex (pd_state_hash d)" by simp_all
qed

lemma replay_result_parts:
  assumes "replay_result pc st h = Inr r" "replay_valid st"
  shows "pd_state r = st" "pd_cursor r = rp_cursor st" "pd_prefix_history_hash r = h" "mk_portfolio_document r = Inr r"
    and "validate_document pc r = Inr r" "validated_state pc st = Inr st"
    "pd_schema_version r = PORTFOLIO_REPLAY_SCHEMA_VERSION" "pd_reducer_version r = PORTFOLIO_REDUCER_VERSION"
    "sha256_hex (pd_prefix_history_hash r)" "sha256_hex (pd_state_hash r)"
proof -
  from assms(1) obtain s a doc where s: "validated_state pc st = Inr s"
    and a: "derive_account_snapshot (pc_codec pc) s (ws_observed_at (rp_snapshot s)) = Inr a"
    and doc: "canonical_state_document pc s a (rp_cursor s) h PORTFOLIO_REPLAY_SCHEMA_VERSION PORTFOLIO_REDUCER_VERSION = Inr doc"
    and mk: "mk_portfolio_document
       \<lparr>pd_schema_version = PORTFOLIO_REPLAY_SCHEMA_VERSION, pd_reducer_version = PORTFOLIO_REDUCER_VERSION, pd_state = s,
        pd_canonical_snapshot = a, pd_cursor = rp_cursor s, pd_prefix_history_hash = h,
        pd_canonical_state_json = doc, pd_state_hash = lc_sha256 (pc_ledger pc) doc\<rparr> = Inr r"
    unfolding replay_result_def by (auto simp: bindE_Inr_iff)
  from validated_state_Inr [OF s assms(2)] have st: "s = st" by simp
  note ai = derive_account_id [OF a]
  note parts = mk_document_parts [OF mk, simplified, OF assms(2) [folded st] conjunct1 [OF ai]]
  have r: "r = \<lparr>pd_schema_version = PORTFOLIO_REPLAY_SCHEMA_VERSION, pd_reducer_version = PORTFOLIO_REDUCER_VERSION, pd_state = s,
        pd_canonical_snapshot = a, pd_cursor = rp_cursor s, pd_prefix_history_hash = h,
        pd_canonical_state_json = doc, pd_state_hash = lc_sha256 (pc_ledger pc) doc\<rparr>" by (rule parts(1))
  show mkr: "mk_portfolio_document r = Inr r" using mk unfolding r [symmetric] .
  show "pd_state r = st" "pd_cursor r = rp_cursor st" "pd_prefix_history_hash r = h" "validated_state pc st = Inr st"
    "pd_schema_version r = PORTFOLIO_REPLAY_SCHEMA_VERSION" "pd_reducer_version r = PORTFOLIO_REDUCER_VERSION"
    using s st by (simp_all add: r)
  show "sha256_hex (pd_prefix_history_hash r)" "sha256_hex (pd_state_hash r)" using parts(3,4) by (simp_all add: r)
  have "document_model r = Inr r" by (simp add: document_model_def mkr)
  moreover have "validated_state pc s = Inr s" using s st by simp
  ultimately show "validate_document pc r = Inr r"
    using a doc ai unfolding validate_document_def by (simp add: r replay_if_def)
qed

section \<open>Histories and tails\<close>

text \<open>What the history check establishes for the event at each place.\<close>

definition in_place :: "portfolio_codec \<Rightarrow> portfolio_event \<Rightarrow> int \<Rightarrow> portfolio_event \<Rightarrow> bool" where
  "in_place pc first n e =
     (ev_sequence e = n \<and> ev_stream_id e = ev_stream_id first
      \<and> payload_account (ev_payload e) = payload_account (ev_payload first)
      \<and> is_ok (ledger_digest pc e) \<and> (1 < n \<longrightarrow> \<not> is_opening (ev_payload e)))"

fun placed :: "portfolio_codec \<Rightarrow> portfolio_event \<Rightarrow> int \<Rightarrow> portfolio_event list \<Rightarrow> bool" where
  "placed pc first n [] = True"
| "placed pc first n (e # es) = (in_place pc first n e \<and> placed pc first (n + 1) es)"

lemma placed_append: "placed pc first n (es @ fs) \<longleftrightarrow> placed pc first n es \<and> placed pc first (n + int (length es)) fs"
  by (induction es arbitrary: n) (auto simp: algebra_simps)

lemma full_history_fold:
  "foldE (full_history_step pc first) (n, seen) es = Inr acc \<Longrightarrow>
     placed pc first n es \<and> distinct (map ev_event_id es) \<and> ev_event_id ` set es \<inter> fst ` set seen = {}"
proof (induction es arbitrary: n seen)
  case (Cons e es)
  from Cons.prems obtain a where st: "full_history_step pc first (n, seen) e = Inr a"
    and rest: "foldE (full_history_step pc first) a es = Inr acc" by (auto simp: bindE_Inr_iff)
  have new: "map_of seen (ev_event_id e) = None"
    using st by (cases "map_of seen (ev_event_id e)") (auto simp: full_history_step_def Let_def bindE_Inr_iff replay_error_def split: if_splits)
  from st obtain d where p: "in_place pc first n e" and a: "a = (n + 1, dict_put (ev_event_id e) d seen)"
    by (auto simp: full_history_step_def Let_def new bindE_Inr_iff replay_if_Inr_iff in_place_def)
  have f: "foldE (full_history_step pc first) (n + 1, dict_put (ev_event_id e) d seen) es = Inr acc" using rest a by simp
  have "ev_event_id e \<notin> fst ` set seen" using new by (simp add: map_of_eq_None_iff)
  with Cons.IH [OF f] p show ?case by (auto simp: dict_put_keys)
qed simp

definition fits_tail :: "portfolio_codec \<Rightarrow> replay_state \<Rightarrow> portfolio_event \<Rightarrow> bool" where
  "fits_tail pc s first =
     (ev_stream_id first = sc_stream_id (hd (rp_cursor s)) \<and> payload_account (ev_payload first) = ws_account_id (rp_snapshot s)
      \<and> replay_valid s)"

lemma tail_fold:
  assumes "placed pc first n es" "sc_sequence (hd (rp_cursor s)) < n" "1 < n" "distinct (map ev_event_id es)" "fits_tail pc s first"
    and "ev_event_id ` set es \<inter> (fst ` set seen \<union> ae_event_id ` set (rp_applied_events s)) = {}"
  shows "is_ok (foldE (tail_step pc s) (n, seen) es)"
  using assms
proof (induction es arbitrary: n seen)
  case (Cons e es)
  have p: "in_place pc first n e" "placed pc first (n + 1) es" using Cons.prems(1) by simp_all
  from p(1) obtain d where d: "ledger_digest pc e = Inr d" by (auto simp: in_place_def is_ok_iff)
  have v: "replay_valid s" using Cons.prems(5) by (simp add: fits_tail_def)
  have "ev_event_id e \<notin> ae_event_id ` set (rp_applied_events s)" "ev_event_id e \<notin> fst ` set seen" using Cons.prems(6) by auto
  then have known: "known_digest s (ev_event_id e) = None" and new: "map_of seen (ev_event_id e) = None"
    using known_digest_None [OF replay_valid_sorted(1) [OF v]] by (simp_all add: map_of_eq_None_iff)
  have "tail_step pc s (n, seen) e = Inr (n + 1, dict_put (ev_event_id e) d seen)"
    using p(1) Cons.prems(2,3,5) new
    by (simp add: tail_step_def Let_def d known [unfolded known_digest_def] in_place_def fits_tail_def replay_if_def)
  moreover have "is_ok (foldE (tail_step pc s) (n + 1, dict_put (ev_event_id e) d seen) es)"
    by (rule Cons.IH [OF p(2)]) (use Cons.prems in \<open>auto simp: dict_put_keys\<close>)
  ultimately show ?case by simp
qed simp

lemma validate_payload_account: "validate_portfolio_payload p = Inr q \<Longrightarrow> payload_account q = payload_account p"
  by (cases p) (auto simp: lift_payload_def res_simps mk_opening_entry_def valid_opening_def mk_observation_entry_def mk_fill_entry_def
    mk_mark_entry_def mk_funding_entry_def mk_conversion_entry_def mk_valuation_rate_entry_def mk_reconciliation_entry_def)

lemma validate_event_account:
  "validate_event event = Inr e \<Longrightarrow> ev_stream_id e = ev_stream_id event
    \<and> payload_account (ev_payload e) = payload_account (ev_payload event)"
  by (auto simp: validate_event_def res_simps mk_event_envelope_Inr_iff portfolio_payload_ops_def dest: validate_payload_account)

lemma apply_validated: "validate_event e = Inr e' \<Longrightarrow> apply_portfolio_event cd s e = apply_portfolio_event cd s e'"
  by (simp add: apply_portfolio_event_def validate_event_stable [of e e'])

lemma fold_validated:
  "mapE validate_event es = Inr es' \<Longrightarrow> foldE (apply_portfolio_event cd) s es = foldE (apply_portfolio_event cd) s es'"
proof (induction es arbitrary: es' s)
  case (Cons e es)
  then obtain e' r where r: "validate_event e = Inr e'" "mapE validate_event es = Inr r" "es' = e' # r"
    by (auto simp: bindE_Inr_iff)
  then show ?case using Cons.IH [OF r(2)] apply_validated [OF r(1)] by simp
qed simp

lemma reduce_split:
  assumes "reduce_portfolio_events cd (es @ fs) = Inr t" "reduce_portfolio_events cd es = Inr s"
  shows "foldE (apply_portfolio_event cd) s fs = Inr t"
proof -
  from reduce_events_Inr [OF assms(2)] obtain first rest s0 where e: "mapE validate_event es = Inr (first # rest)"
    "opening_state cd first = Inr s0" "foldE (apply_portfolio_event cd) s0 rest = Inr s" by blast
  from assms(1) obtain fs' where f: "mapE validate_event fs = Inr fs'"
    unfolding reduce_portfolio_events_def by (auto simp: mapE_append e(1) bindE_Inr_iff)
  from assms(1) e f have "foldE (apply_portfolio_event cd) s0 (rest @ fs') = Inr t"
    unfolding reduce_portfolio_events_def by (simp add: mapE_append)
  then show ?thesis using e(3) fold_validated [OF f, of cd s] by (simp add: foldE_append)
qed

lemma tail_replay_fold:
  "foldE (apply_portfolio_event (pc_codec pc)) s es = Inr t \<Longrightarrow> foldE (extend_history_hash pc) h es = Inr k \<Longrightarrow>
     foldE (tail_replay_step pc) (s, h) es = Inr (t, k)"
  by (induction es arbitrary: s h) (auto simp: bindE_Inr_iff tail_replay_step_def)

lemma canonical_events_split:
  assumes "canonical_portfolio_events pc (es @ fs) = Inr batch"
  obtains ces cfs where "canonical_portfolio_events pc es = Inr ces" "canonical_portfolio_events pc fs = Inr cfs" "batch = ces @ cfs"
proof -
  from assms obtain ces cfs where m: "mapE (canonical_portfolio_event pc) es = Inr ces" "mapE (canonical_portfolio_event pc) fs = Inr cfs"
    and b: "batch = ces @ cfs" and srt: "sort_key event_key batch = batch"
    by (auto simp: canonical_portfolio_events_def mapE_append bindE_Inr_iff replay_if_Inr_iff)
  have "sorted (map event_key (ces @ cfs))" using srt sorted_sort_key [of event_key batch] by (simp add: b)
  then have "sort_key event_key ces = ces" "sort_key event_key cfs = cfs" by (simp_all add: sort_key_fixed_iff sorted_append)
  with m have "canonical_portfolio_events pc es = Inr ces" "canonical_portfolio_events pc fs = Inr cfs"
    by (simp_all add: canonical_portfolio_events_def replay_if_def)
  then show thesis using b by (rule that)
qed

lemma full_replay_Inr:
  assumes "replay_portfolio pc es None None = Inr r"
  obtains batch h s where "canonical_portfolio_events pc es = Inr batch" "batch \<noteq> []" "placed pc (hd batch) 1 batch"
    "distinct (map ev_event_id batch)" "is_opening (ev_payload (hd batch))"
    "foldE (extend_history_hash pc) (lc_sha256 (pc_ledger pc) []) batch = Inr h"
    "reduce_portfolio_events (pc_codec pc) batch = Inr s" "replay_result pc s h = Inr r"
proof -
  from assms obtain batch h s where b: "canonical_portfolio_events pc es = Inr batch" "validate_full_history pc batch = Inr ()"
    "foldE (extend_history_hash pc) (lc_sha256 (pc_ledger pc) []) batch = Inr h"
    "reduce_portfolio_events (pc_codec pc) batch = Inr s" "replay_result pc s h = Inr r"
    unfolding replay_portfolio_def by (auto simp: bindE_Inr_iff catch_replay_failure_Inr_iff)
  from b(2) obtain first rest acc where f: "batch = first # rest" "foldE (full_history_step pc first) (1, []) batch = Inr acc"
    "is_opening (ev_payload first)"
    unfolding validate_full_history_def by (cases batch) (auto simp: bindE_Inr_iff replay_if_Inr_iff replay_error_def)
  from full_history_fold [OF f(2)] f(1,3) show thesis by (intro that [OF b(1) _ _ _ _ b(3-5)]) simp_all
qed

section \<open>Resuming a portfolio replay\<close>

lemma fits_tail_first:
  assumes f: "foldE (apply_portfolio_event cd) s (e # es) = Inr t" and v: "replay_valid s"
    and one: "length (rp_cursor s) = 1" and new: "ev_event_id e \<notin> ae_event_id ` set (rp_applied_events s)"
  shows "ev_stream_id e = sc_stream_id (hd (rp_cursor s)) \<and> payload_account (ev_payload e) = ws_account_id (rp_snapshot s)"
proof -
  from f obtain u where "apply_portfolio_event cd s e = Inr u" by (auto simp: bindE_Inr_iff)
  then show ?thesis
  proof (cases rule: apply_event_cases)
    case (1 e' d)
    then show ?thesis
      using new known_digest_None [OF replay_valid_sorted(1) [OF v], of "ev_event_id e"] validate_event_id [OF 1(1)] by simp
  next
    case (2 e' d)
    have same: "ev_stream_id e' = ev_stream_id e" "payload_account (ev_payload e') = payload_account (ev_payload e)"
      using validate_event_account [OF 2(1)] by simp_all
    from one obtain c where "rp_cursor s = [c]" by (cases "rp_cursor s") auto
    with 2(4,6) same show ?thesis by simp
  qed
qed

lemma reduced_count:
  assumes "reduce_portfolio_events cd es = Inr s" "distinct (map ev_event_id es)"
  shows "length (rp_applied_events s) = length es"
proof -
  note r = reduced_ledger [OF assms(1)]
  have "distinct (map ae_event_id (rp_applied_events s))" using replay_valid_sorted(1) [OF r(1)] by (rule sorted_unique_distinct)
  then have "length (rp_applied_events s) = card (ae_event_id ` set (rp_applied_events s))"
    using distinct_card [of "map ae_event_id (rp_applied_events s)"] by simp
  also have "\<dots> = length es" unfolding r(3) using distinct_card [OF assms(2)] by simp
  finally show ?thesis .
qed

lemma authority_issued:
  assumes "validate_document pc r = Inr r" "replay_valid (pd_state r)" "pd_cursor r = rp_cursor (pd_state r)"
    and "length (rp_cursor (pd_state r)) = 1" "0 < sc_sequence (hd (rp_cursor (pd_state r)))"
    and "pd_schema_version r = PORTFOLIO_REPLAY_SCHEMA_VERSION" "pd_reducer_version r = PORTFOLIO_REDUCER_VERSION"
    and "sha256_hex (pd_prefix_history_hash r)" "sha256_hex (pd_state_hash r)"
  shows "\<exists>a. snapshot_authority_from_result pc r = Inr a \<and> validate_authority a r = Inr a
    \<and> sa_prefix_history_hash a = pd_prefix_history_hash r"
proof -
  let ?a = "\<lparr>sa_schema_version = pd_schema_version r, sa_reducer_version = pd_reducer_version r,
     sa_account_id = ws_account_id (rp_snapshot (pd_state r)), sa_stream_id = sc_stream_id (hd (pd_cursor r)),
     sa_cursor_sequence = sc_sequence (hd (pd_cursor r)), sa_snapshot_state_hash = pd_state_hash r,
     sa_prefix_history_hash = pd_prefix_history_hash r\<rparr>"
  have "canonical_identifier (ws_account_id (rp_snapshot (pd_state r)))"
    using replay_valid_sorted(7) [OF assms(2)] by (auto simp: mk_working_snapshot_def res_simps)
  then have mk: "mk_snapshot_authority ?a = Inr ?a"
    using assms(3-9) by (simp add: mk_snapshot_authority_def require_field_def)
  have "snapshot_authority_from_result pc r = Inr ?a"
    unfolding snapshot_authority_from_result_def assms(1) by (simp add: mk Let_def)
  moreover have "validate_authority ?a r = Inr ?a"
    using assms(3,4) unfolding validate_authority_def mk by (simp add: replay_if_def Let_def)
  ultimately show ?thesis by (intro exI [of _ ?a]) simp
qed

lemma tail_accepted:
  assumes p: "placed pc first (1 + int (length ces)) cfs" and d: "distinct (map ev_event_id (ces @ cfs))"
    and s: "replay_valid s" "length (rp_cursor s) = 1" "sc_sequence (hd (rp_cursor s)) = int (length ces)" "ces \<noteq> []"
    and ids: "ae_event_id ` set (rp_applied_events s) = ev_event_id ` set ces"
    and f: "foldE (apply_portfolio_event cd) s cfs = Inr t"
  shows "is_ok (foldE (tail_step pc s) (sc_sequence (hd (rp_cursor s)) + 1, []) cfs)"
proof (cases cfs)
  case (Cons e es)
  have new: "ev_event_id ` set cfs \<inter> ae_event_id ` set (rp_applied_events s) = {}"
    unfolding ids using d by auto
  then have "ev_event_id e \<notin> ae_event_id ` set (rp_applied_events s)" by (auto simp: Cons)
  then have "ev_stream_id e = sc_stream_id (hd (rp_cursor s)) \<and> payload_account (ev_payload e) = ws_account_id (rp_snapshot s)"
    by (rule fits_tail_first [OF f [unfolded Cons] s(1,2)])
  with p s(1) have fits: "fits_tail pc s first" by (simp add: Cons fits_tail_def in_place_def)
  show ?thesis
    by (rule tail_fold [of _ first]) (use p d s(3,4) fits new in \<open>simp_all add: add.commute\<close>)
qed simp

lemma replay_from_snapshot:
  assumes "canonical_portfolio_events pc fs = Inr cfs" "mk_portfolio_document r0 = Inr r0" "validate_document pc r0 = Inr r0"
    and "validate_authority a r0 = Inr a" "sa_prefix_history_hash a = h0"
    and "is_ok (foldE (tail_step pc (pd_state r0)) (sc_sequence (hd (rp_cursor (pd_state r0))) + 1, []) cfs)"
    and "foldE (apply_portfolio_event (pc_codec pc)) (pd_state r0) cfs = Inr t"
    and "foldE (extend_history_hash pc) h0 cfs = Inr h" "replay_result pc t h = Inr r"
  shows "replay_portfolio pc fs (Some r0) (Some a) = Inr r"
proof -
  have "validate_tail pc cfs r0 = Inr ()" using assms(6) by (auto simp: validate_tail_def is_ok_iff)
  then show ?thesis using assms(1-5,9) tail_replay_fold [OF assms(7,8)]
    by (simp add: replay_portfolio_def document_model_def replay_if_def catch_replay_failure_def)
qed

end
