(* ===== verification/Portfolio_Resume.thy ===== *)
theory Portfolio_Resume
  imports Portfolio_Replay Portfolio_Economics Ledger_Theorems
begin

text \<open>
  The properties of the strict portfolio replay (\<^verbatim>\<open>src/packages/portfolio_reducer/replay.py\<close>): what an
  accepted history looks like, and that replaying a tail from an issued snapshot equals replaying the
  whole history; with a sample run of an opening and a funding payment.
\<close>

section \<open>A sample run\<close>

definition demo_funding_ledger :: "portfolio_payload ledger_codec" where
  "demo_funding_ledger = demo_ledger_codec
     \<lparr>lc_loads := (\<lambda>text. map_option (\<lambda>e. JObject (demo_document e)) (find (\<lambda>e. demo_text e = text) [demo_opening, demo_funding])),
      lc_load_event := (\<lambda>_ text. find (\<lambda>e. demo_text e = text) [demo_opening, demo_funding])\<rparr>"

definition demo_portfolio_codec :: portfolio_codec where
  "demo_portfolio_codec =
     \<lparr>pc_codec = demo_codec, pc_ledger = demo_funding_ledger, pc_state_document = (\<lambda>_. JNull),
      pc_snapshot_document = (\<lambda>_. JNull)\<rparr>"

definition demo_funded_state :: replay_state where
  "demo_funded_state =
     demo_open_state
       \<lparr>rp_snapshot := demo_open_snapshot\<lparr>ws_balances := demo_funded_balances\<rparr>,
        rp_cursor := [\<lparr>sc_stream_id = 5, sc_sequence = 2\<rparr>],
        rp_applied_events := [demo_applied 1 1 ''PortfolioOpeningEntry'' None,
          demo_applied 3 2 ''PortfolioFundingEntry'' (Some 7)],
        rp_funding_identities := [\<lparr>bi_identity_id = 7, bi_payload_digest = replicate 64 (CHR ''0''), bi_event_id = 3,
          bi_event_digest = replicate 64 (CHR ''0''), bi_stream_id = 5, bi_sequence = 2\<rparr>]\<rparr>"

lemma demo_funded_next:
  "next_state demo_codec demo_open_state (Some (demo_open_snapshot\<lparr>ws_balances := demo_funded_balances\<rparr>))
     demo_funding None None None = Inr demo_funded_state"
  by code_simp

lemma demo_funding_serialized:
  "serialize_event portfolio_payload_ops demo_funding_ledger demo_opening = Inr (demo_text demo_opening)"
  "serialize_event portfolio_payload_ops demo_funding_ledger demo_funding = Inr (demo_text demo_funding)"
proof -
  have l: "lc_dump demo_funding_ledger = lc_dump demo_ledger_codec" by (simp add: demo_funding_ledger_def demo_ledger_codec_def)
  have s: "serialize_event portfolio_payload_ops demo_funding_ledger e = serialize_event portfolio_payload_ops demo_ledger_codec e" for e
    unfolding serialize_event_def l ..
  have e: "mk_event_envelope portfolio_payload_ops demo_funding = Inr demo_funding"
    using demo_funding_valid by (simp add: validate_event_def catch_Inr_iff)
  have t: "canonical_json (JObject (demo_document demo_funding)) = Inr (demo_text demo_funding)"
    "payload_type_for ''PortfolioFundingEntry'' = Inr ''PortfolioFundingEntry''"
    "ev_event_type demo_funding = ''PortfolioFundingEntry''"
    "po_event_type portfolio_payload_ops (ev_payload demo_funding) = ''PortfolioFundingEntry''" by code_simp+
  show "serialize_event portfolio_payload_ops demo_funding_ledger demo_funding = Inr (demo_text demo_funding)"
    unfolding s by (rule demo_serialize [OF e _ _ _ t(1)]) (simp_all only: t(2-4), simp)
  show "serialize_event portfolio_payload_ops demo_funding_ledger demo_opening = Inr (demo_text demo_opening)"
    unfolding s by (rule demo_serialized)
qed

lemma demo_lineage:
  "foldE (applied_sequence_step \<lparr>sc_stream_id = 5, sc_sequence = 1\<rparr>) [] (rp_applied_events demo_open_state) = Inr [1]"
  "foldE (applied_sequence_step \<lparr>sc_stream_id = 5, sc_sequence = 2\<rparr>) [] (rp_applied_events demo_funded_state) = Inr [1, 2]"
  "foldE (identity_lineage_step
      (map (\<lambda>(k, a). (k, ae_digest a)) (dict_of ae_event_id (rp_applied_events demo_funded_state)))
      \<lparr>sc_stream_id = 5, sc_sequence = 2\<rparr>) ([], []) (rp_funding_identities demo_funded_state) = Inr ([3], [2])"
  by code_simp+

definition demo_table :: identity_table where
  "demo_table = [(''PortfolioFillEntry'', []), (''PortfolioFundingEntry'', []), (''PortfolioReconciliationEntry'', [])]"

definition demo_funded_table :: identity_table where
  "demo_funded_table =
     [(''PortfolioFillEntry'', []), (''PortfolioFundingEntry'', [(7, demo_applied 3 2 ''PortfolioFundingEntry'' (Some 7))]),
      (''PortfolioReconciliationEntry'', [])]"

lemma demo_tables:
  "foldE expected_identity_step demo_table (rp_applied_events demo_open_state) = Inr demo_table"
  "foldE expected_identity_step demo_table (rp_applied_events demo_funded_state) = Inr demo_funded_table"
  "mapE (check_identity_index demo_table)
     [(''execution'', ''PortfolioFillEntry'', []), (''funding'', ''PortfolioFundingEntry'', []),
      (''reconciliation'', ''PortfolioReconciliationEntry'', [])] = Inr [(), (), ()]"
  "mapE (check_identity_index demo_funded_table)
     [(''execution'', ''PortfolioFillEntry'', []), (''funding'', ''PortfolioFundingEntry'', rp_funding_identities demo_funded_state),
      (''reconciliation'', ''PortfolioReconciliationEntry'', [])] = Inr [(), (), ()]"
  by code_simp+

lemma demo_parts:
  "rp_cursor demo_open_state = [\<lparr>sc_stream_id = 5, sc_sequence = 1\<rparr>]" "rp_cursor demo_funded_state = [\<lparr>sc_stream_id = 5, sc_sequence = 2\<rparr>]"
  "length (rp_applied_events demo_open_state) = 1" "length (rp_applied_events demo_funded_state) = 2"
  "rp_reconciliation demo_open_state = None" "rp_reconciliation demo_funded_state = None"
  "rp_active_effects demo_open_state = []" "rp_active_effects demo_funded_state = []"
  "rp_execution_identities demo_open_state = []" "rp_execution_identities demo_funded_state = []"
  "rp_funding_identities demo_open_state = []" "rp_reconciliation_identities demo_open_state = []"
  "rp_reconciliation_identities demo_funded_state = []"
  by (simp_all add: demo_funded_state_def demo_open_state_def)

lemma demo_states_validated:
  "validated_state demo_portfolio_codec demo_open_state = Inr demo_open_state"
  "validated_state demo_portfolio_codec demo_funded_state = Inr demo_funded_state"
proof -
  have "mk_replay_state demo_open_state = Inr demo_open_state" "mk_replay_state demo_funded_state = Inr demo_funded_state"
    using demo_states_valid(1) by (simp add: replay_valid_def, code_simp)
  then show "validated_state demo_portfolio_codec demo_open_state = Inr demo_open_state"
    "validated_state demo_portfolio_codec demo_funded_state = Inr demo_funded_state"
    by (simp_all add: validated_state_def Let_def demo_parts demo_lineage demo_tables [unfolded demo_table_def] replay_if_def
        check_reconciliation_account_def latest_identity_def check_latest_reconciliation_def group_effects_def del: mapE.simps(2))
qed

lemma demo_derived:
  "is_ok (derive_account_snapshot demo_codec demo_open_state demo_time)"
  "is_ok (derive_account_snapshot demo_codec demo_funded_state demo_time)"
  by code_simp+


lemma demo_funding_sha: "lc_sha256 demo_funding_ledger t = replicate 64 (CHR ''0'')"
  by (simp add: demo_funding_ledger_def demo_ledger_codec_def demo_sha_def)

lemma demo_canonical:
  "canonical_portfolio_event demo_portfolio_codec demo_opening = Inr demo_opening"
  "canonical_portfolio_event demo_portfolio_codec demo_funding = Inr demo_funding"
proof -
  have n: "demo_text demo_opening \<noteq> demo_text demo_funding" by code_simp
  have t: "map_of (demo_document demo_opening) ''event_type'' = Some (JString ''PortfolioOpeningEntry'')"
    "map_of (demo_document demo_funding) ''event_type'' = Some (JString ''PortfolioFundingEntry'')"
    "is_ok (payload_type_for ''PortfolioOpeningEntry'')" "is_ok (payload_type_for ''PortfolioFundingEntry'')" by code_simp+
  have d: "deserialize_event portfolio_payload_ops demo_funding_ledger (demo_text demo_opening) = Inr demo_opening"
    "deserialize_event portfolio_payload_ops demo_funding_ledger (demo_text demo_funding) = Inr demo_funding"
    using demo_funding_serialized n t
    by (auto simp: deserialize_event_def demo_utc is_ok_iff demo_funding_ledger_def [abs_def])
  show "canonical_portfolio_event demo_portfolio_codec demo_opening = Inr demo_opening"
    "canonical_portfolio_event demo_portfolio_codec demo_funding = Inr demo_funding"
    by (simp_all add: canonical_portfolio_event_def demo_portfolio_codec_def demo_funding_serialized d)
qed

lemma demo_ordered:
  "canonical_portfolio_events demo_portfolio_codec [demo_opening] = Inr [demo_opening]"
  "canonical_portfolio_events demo_portfolio_codec [demo_opening, demo_funding] = Inr [demo_opening, demo_funding]"
proof -
  have "event_key demo_opening \<le> event_key demo_funding" by code_simp
  then show "canonical_portfolio_events demo_portfolio_codec [demo_opening] = Inr [demo_opening]"
    "canonical_portfolio_events demo_portfolio_codec [demo_opening, demo_funding] = Inr [demo_opening, demo_funding]"
    by (simp_all add: canonical_portfolio_events_def demo_canonical replay_if_def)
qed

lemma demo_digests:
  "ledger_digest demo_portfolio_codec demo_opening = Inr (replicate 64 (CHR ''0''))"
  "ledger_digest demo_portfolio_codec demo_funding = Inr (replicate 64 (CHR ''0''))"
  by (simp_all add: ledger_digest_def demo_portfolio_codec_def demo_funding_serialized demo_funding_sha)

lemma demo_stream_fields:
  "ev_event_id demo_opening = 1" "ev_event_id demo_funding = 3" "ev_stream_id demo_opening = 5" "ev_stream_id demo_funding = 5"
  "ev_sequence demo_opening = 1" "ev_sequence demo_funding = 2"
  "payload_account (ev_payload demo_opening) = ''A''" "payload_account (ev_payload demo_funding) = ''A''"
  "is_opening (ev_payload demo_opening)" "\<not> is_opening (ev_payload demo_funding)"
  "ev_event_type demo_opening = ''PortfolioOpeningEntry''" "ev_event_type demo_funding = ''PortfolioFundingEntry''"
  by (simp_all add: demo_opening_def demo_funding_def demo_envelope_def is_opening_def demo_funding_entry_def)

lemma demo_histories:
  "validate_full_history demo_portfolio_codec [demo_opening] = Inr ()"
  "validate_full_history demo_portfolio_codec [demo_opening, demo_funding] = Inr ()"
  by (simp_all add: validate_full_history_def full_history_step_def demo_digests demo_stream_fields replay_if_def Let_def)

lemma demo_hashed:
  assumes "h = replicate 64 (CHR ''0'')"
  shows "extend_history_hash demo_portfolio_codec h demo_opening = Inr (replicate 64 (CHR ''0''))"
    "extend_history_hash demo_portfolio_codec h demo_funding = Inr (replicate 64 (CHR ''0''))"
proof -
  have p: "postgres_text (JObject
      [(''event_digest'', JString (replicate 64 (CHR ''0''))), (''event_id'', JString (uuid_text i)),
       (''event_type'', JString ty), (''previous'', JString (replicate 64 (CHR ''0''))), (''sequence'', JInt n)])"
    if "(i, ty) \<in> {(1, ''PortfolioOpeningEntry''), (3, ''PortfolioFundingEntry'')}" for i ty n
    using that by (elim insertE emptyE) (clarify, code_simp)+
  have sha: "lc_sha256 (pc_ledger demo_portfolio_codec) m = replicate 64 (CHR ''0'')" for m
    by (simp add: demo_portfolio_codec_def demo_funding_sha)
  show "extend_history_hash demo_portfolio_codec h demo_opening = Inr (replicate 64 (CHR ''0''))"
    "extend_history_hash demo_portfolio_codec h demo_funding = Inr (replicate 64 (CHR ''0''))"
    unfolding extend_history_hash_def demo_digests assms demo_stream_fields sha
    using p by (simp_all add: canonical_json_def validate_postgres_json_strings_def)
qed

lemma demo_result:
  assumes "validated_state demo_portfolio_codec s = Inr s" "ws_observed_at (rp_snapshot s) = demo_time" "replay_valid s"
    and "is_ok (derive_account_snapshot demo_codec s demo_time)"
    and "postgres_text (JArray (map cursor_json (rp_cursor s)))" "is_ok (mapE mk_stream_cursor (rp_cursor s))"
  shows "is_ok (replay_result demo_portfolio_codec s (replicate 64 (CHR ''0'')))"
proof -
  from assms(4) obtain a where a: "derive_account_snapshot demo_codec s demo_time = Inr a" by (auto simp: is_ok_iff)
  let ?h = "replicate 64 (CHR ''0'')"
  let ?d = "JObject [(''schema_version'', JString PORTFOLIO_REPLAY_SCHEMA_VERSION),
     (''reducer_version'', JString PORTFOLIO_REDUCER_VERSION), (''state'', JNull), (''canonical_snapshot'', JNull),
     (''cursor'', JArray (map cursor_json (rp_cursor s))), (''prefix_history_hash'', JString ?h)]"
  have "postgres_text ?d" using assms(5)
    by (simp add: PORTFOLIO_REPLAY_SCHEMA_VERSION_def PORTFOLIO_REDUCER_VERSION_def)
  then have doc: "canonical_state_document demo_portfolio_codec s a (rp_cursor s) ?h
      PORTFOLIO_REPLAY_SCHEMA_VERSION PORTFOLIO_REDUCER_VERSION = Inr (dumps ?d)"
    by (simp add: canonical_state_document_def demo_portfolio_codec_def catch_model_Inr_iff canonical_json_Inr_iff)
  have "2 \<le> length (dumps ?d)" by simp
  moreover have "mapE mk_stream_cursor (rp_cursor s) = Inr (rp_cursor s)"
    using assms(6) mapE_cursor_id by (auto simp: is_ok_iff)
  ultimately show ?thesis
    using assms(1-3) a doc derive_account_id [OF a] demo_ledger_sha(2)
    by (simp add: replay_result_def mk_portfolio_document_def require_field_def replay_valid_def
        demo_portfolio_codec_def demo_funding_sha)
qed


lemma demo_fold: "foldE (apply_portfolio_event demo_codec) demo_open_state [demo_funding] = Inr demo_funded_state"
proof -
  have s: "ws_balances (rp_snapshot demo_open_state) = [demo_balance USD 50, demo_balance USDT 90]"
    by (simp add: demo_open_state_def demo_open_snapshot_def)
  have p: "ev_payload demo_funding = FundingEntry demo_funding_entry" by (simp add: demo_funding_def demo_envelope_def)
  have "apply_payload demo_codec demo_open_state demo_funding = Inr demo_funded_state"
    unfolding apply_payload_def apply_funding_def Let_def p s
    using demo_updated demo_funded_snapshot(1) demo_funded_next by (simp add: demo_funding_entry_def del: One_nat_def)
  with demo_funded_snapshot(3) show ?thesis
    by (simp, subst demo_apply_new [OF demo_funding_valid])
      (simp_all add: demo_funding_def demo_envelope_def is_opening_def demo_funding_entry_def)
qed

lemma demo_funded_valid: "replay_valid demo_funded_state"
  using reduced_ledger(1) [of demo_codec "[demo_opening, demo_funding]"] demo_fold
  by (simp add: reduce_portfolio_events_def demo_opening_valid demo_funding_valid demo_opened)

lemma demo_results:
  "is_ok (replay_result demo_portfolio_codec demo_open_state (replicate 64 (CHR ''0'')))"
  "is_ok (replay_result demo_portfolio_codec demo_funded_state (replicate 64 (CHR ''0'')))"
proof -
  have w: "ws_observed_at (rp_snapshot demo_open_state) = demo_time" "ws_observed_at (rp_snapshot demo_funded_state) = demo_time"
    by (simp_all add: demo_open_state_def demo_funded_state_def demo_open_snapshot_def)
  have c: "postgres_text (JArray (map cursor_json [\<lparr>sc_stream_id = 5, sc_sequence = 1\<rparr>]))"
    "postgres_text (JArray (map cursor_json [\<lparr>sc_stream_id = 5, sc_sequence = 2\<rparr>]))" by code_simp+
  show "is_ok (replay_result demo_portfolio_codec demo_open_state (replicate 64 (CHR ''0'')))"
    by (rule demo_result [OF demo_states_validated(1) w(1) demo_states_valid(1) demo_derived(1)])
      (simp_all only: demo_parts c demo_checks, simp)
  show "is_ok (replay_result demo_portfolio_codec demo_funded_state (replicate 64 (CHR ''0'')))"
    by (rule demo_result [OF demo_states_validated(2) w(2) demo_funded_valid demo_derived(2)])
      (simp_all only: demo_parts c demo_checks, simp)
qed

lemma demo_replays:
  "is_ok (replay_portfolio demo_portfolio_codec [demo_opening] None None)"
  "is_ok (replay_portfolio demo_portfolio_codec [demo_opening, demo_funding] None None)"
proof -
  have h: "lc_sha256 (pc_ledger demo_portfolio_codec) [] = replicate 64 (CHR ''0'')"
    by (simp add: demo_portfolio_codec_def demo_funding_sha)
  have c: "pc_codec demo_portfolio_codec = demo_codec" by (simp add: demo_portfolio_codec_def)
  have r: "reduce_portfolio_events demo_codec [demo_opening, demo_funding] = Inr demo_funded_state"
    using demo_fold by (simp add: reduce_portfolio_events_def demo_opening_valid demo_funding_valid demo_opened)
  show "is_ok (replay_portfolio demo_portfolio_codec [demo_opening] None None)"
    "is_ok (replay_portfolio demo_portfolio_codec [demo_opening, demo_funding] None None)"
    using demo_results
    by (auto simp: replay_portfolio_def demo_ordered demo_histories h c r demo_hashed demo_reduced replay_if_def
        catch_replay_failure_def is_ok_iff)
qed

section \<open>Properties\<close>

lemma placed_sequences: "placed pc first n es \<Longrightarrow> map ev_sequence es = map (\<lambda>i. n + int i) [0..<length es]"
  by (induction es arbitrary: n) (auto simp: in_place_def upt_conv_Cons simp del: upt_Suc simp flip: map_Suc_upt)

lemma placed_all:
  "placed pc first n es \<Longrightarrow> 1 < n \<Longrightarrow>
     list_all (\<lambda>e. \<not> is_opening (ev_payload e)) es
     \<and> list_all (\<lambda>e. ev_stream_id e = ev_stream_id first
         \<and> payload_account (ev_payload e) = payload_account (ev_payload first)) es"
  by (induction es arbitrary: n) (auto simp: in_place_def)

text \<open>
  C17: a history the strict replay accepts is complete: its canonical events carry the sequence numbers
  1, 2, \<dots> of one stream and one account without a gap or a repeated identity, opened by the first event
  and by no other; the cursor of the result stands at the last event, its state is the reduction of the
  events and its prefix hash the chain over them, and the result passes the checks made of a snapshot.
\<close>

theorem accepted_history_complete:
  assumes "replay_portfolio pc events None None = Inr r"
  shows "\<exists>first rest. canonical_portfolio_events pc events = Inr (first # rest)
    \<and> map ev_sequence (first # rest) = map (\<lambda>i. 1 + int i) [0..<length (first # rest)]
    \<and> distinct (map ev_event_id (first # rest))
    \<and> is_opening (ev_payload first) \<and> list_all (\<lambda>e. \<not> is_opening (ev_payload e)) rest
    \<and> list_all (\<lambda>e. ev_stream_id e = ev_stream_id first
         \<and> payload_account (ev_payload e) = payload_account (ev_payload first)) rest
    \<and> map sc_sequence (pd_cursor r) = [int (length (first # rest))]
    \<and> reduce_portfolio_events (pc_codec pc) (first # rest) = Inr (pd_state r)
    \<and> foldE (extend_history_hash pc) (lc_sha256 (pc_ledger pc) []) (first # rest) = Inr (pd_prefix_history_hash r)
    \<and> validate_document pc r = Inr r"
proof -
  from full_replay_Inr [OF assms] obtain batch h s where b: "canonical_portfolio_events pc events = Inr batch" "batch \<noteq> []"
    "placed pc (hd batch) 1 batch" "distinct (map ev_event_id batch)" "is_opening (ev_payload (hd batch))"
    "foldE (extend_history_hash pc) (lc_sha256 (pc_ledger pc) []) batch = Inr h"
    "reduce_portfolio_events (pc_codec pc) batch = Inr s" "replay_result pc s h = Inr r" .
  from b(2) obtain first rest where f: "batch = first # rest" by (cases batch) auto
  note v = reduced_ledger(1) [OF b(7)]
  note parts = replay_result_parts [OF b(8) v]
  from validated_state_Inr [OF parts(6) v] have "length (rp_cursor s) = 1" "sc_sequence (hd (rp_cursor s)) = int (length batch)"
    using reduced_count [OF b(7,4)] by simp_all
  then have c: "map sc_sequence (pd_cursor r) = [int (length batch)]"
    unfolding parts(2) by (cases "rp_cursor s") simp_all
  have "placed pc first 2 rest" using b(3) f by simp
  from placed_all [OF this] placed_sequences [OF b(3)] b c parts(1,3,5) show ?thesis unfolding f
    by (intro exI [of _ first] exI [of _ rest] conjI) simp_all
qed

theorem accepted_history_complete_witness:
  "\<exists>r. replay_portfolio demo_portfolio_codec [demo_opening, demo_funding] None None = Inr r
     \<and> map sc_sequence (pd_cursor r) = [2]
     \<and> reduce_portfolio_events demo_codec [demo_opening, demo_funding] = Inr (pd_state r)"
proof -
  obtain r where r: "replay_portfolio demo_portfolio_codec [demo_opening, demo_funding] None None = Inr r"
    using demo_replays(2) by (auto simp: is_ok_iff)
  have "pc_codec demo_portfolio_codec = demo_codec" by (simp add: demo_portfolio_codec_def)
  with accepted_history_complete [OF r] r demo_ordered(2) show ?thesis by (intro exI [of _ r]) auto
qed

text \<open>
  C16: resuming is equivalent to replaying everything: when the strict replay accepts a history and
  accepts its prefix, the prefix's result is a valid snapshot record, the authority issued for it is
  accepted with it, and replaying only the remaining events from that snapshot gives the same result,
  field by field, as the full replay.
\<close>

theorem portfolio_replay_resumes:
  assumes full: "replay_portfolio pc (es @ fs) None None = Inr r" and pre: "replay_portfolio pc es None None = Inr r0"
  shows "\<exists>a. snapshot_from_portfolio_result pc r0 = Inr r0 \<and> snapshot_authority_from_result pc r0 = Inr a
    \<and> replay_portfolio pc fs (Some r0) (Some a) = Inr r"
proof -
  from full_replay_Inr [OF full] obtain batch h t where b: "canonical_portfolio_events pc (es @ fs) = Inr batch"
    "placed pc (hd batch) 1 batch" "distinct (map ev_event_id batch)"
    "foldE (extend_history_hash pc) (lc_sha256 (pc_ledger pc) []) batch = Inr h"
    "reduce_portfolio_events (pc_codec pc) batch = Inr t" "replay_result pc t h = Inr r" .
  from canonical_events_split [OF b(1)] obtain ces cfs where c: "canonical_portfolio_events pc es = Inr ces"
    "canonical_portfolio_events pc fs = Inr cfs" "batch = ces @ cfs" .
  obtain h0 s where p: "ces \<noteq> []" "distinct (map ev_event_id ces)"
    "foldE (extend_history_hash pc) (lc_sha256 (pc_ledger pc) []) ces = Inr h0"
    "reduce_portfolio_events (pc_codec pc) ces = Inr s" "replay_result pc s h0 = Inr r0"
    using c(1) by (rule_tac full_replay_Inr [OF pre]) simp
  note s = reduced_ledger [OF p(4)]
  note parts = replay_result_parts [OF p(5) s(1)]
  have cur: "length (rp_cursor s) = 1" "sc_sequence (hd (rp_cursor s)) = int (length ces)"
    using validated_state_Inr [OF parts(6) s(1)] reduced_count [OF p(4,2)] by simp_all
  obtain a where a: "snapshot_authority_from_result pc r0 = Inr a" "validate_authority a r0 = Inr a" "sa_prefix_history_hash a = h0"
    using authority_issued [OF parts(5)] parts s(1) cur p(1) by auto
  have tl: "foldE (apply_portfolio_event (pc_codec pc)) s cfs = Inr t"
    using reduce_split [OF _ p(4)] b(5) c(3) by simp
  have ok: "is_ok (foldE (tail_step pc s) (sc_sequence (hd (rp_cursor s)) + 1, []) cfs)"
    using b(2,3) unfolding c(3) placed_append by (intro tail_accepted [OF _ _ s(1) cur p(1) s(3) tl]) auto
  have "foldE (extend_history_hash pc) h0 cfs = Inr h" using b(4) p(3) by (simp add: c(3) foldE_append)
  then have "replay_portfolio pc fs (Some r0) (Some a) = Inr r"
    using ok tl parts(1) by (intro replay_from_snapshot [OF c(2) parts(4,5) a(2,3) _ _ _ b(6)]) simp_all
  moreover have "snapshot_from_portfolio_result pc r0 = Inr r0"
    by (simp add: snapshot_from_portfolio_result_def parts(4,5))
  ultimately show ?thesis using a(1) by blast
qed

theorem portfolio_replay_resumes_witness:
  "\<exists>r r0 a. replay_portfolio demo_portfolio_codec [demo_opening] None None = Inr r0
     \<and> snapshot_authority_from_result demo_portfolio_codec r0 = Inr a
     \<and> replay_portfolio demo_portfolio_codec [demo_funding] (Some r0) (Some a) = Inr r
     \<and> replay_portfolio demo_portfolio_codec [demo_opening, demo_funding] None None = Inr r"
proof -
  obtain r r0 where "replay_portfolio demo_portfolio_codec ([demo_opening] @ [demo_funding]) None None = Inr r"
    "replay_portfolio demo_portfolio_codec [demo_opening] None None = Inr r0"
    using demo_replays by (auto simp: is_ok_iff)
  with portfolio_replay_resumes [OF this] show ?thesis by auto
qed

end
