(* ===== verification/Engine_Json.thy ===== *)
theory Engine_Json
  imports Json
begin

text \<open>
  The canonical JSON bytes of the engine contracts (\<^verbatim>\<open>src/packages/engine_contracts/serialization.py\<close>): sorted
  keys and no blanks as in the ledger, but characters outside ASCII are written as they are and encoded
  as UTF-8. The values are JSON documents already; what pydantic dumps of a model is a parameter where it
  is used.
\<close>

definition raw_escape_char :: "char \<Rightarrow> string" where
  "raw_escape_char c =
     (if c = CHR 0x22 then [CHR 0x5C, CHR 0x22]
      else if c = CHR 0x5C then [CHR 0x5C, CHR 0x5C]
      else if c = CHR 0x0A then [CHR 0x5C, CHR ''n'']
      else if c = CHR 0x0D then [CHR 0x5C, CHR ''r'']
      else if c = CHR 0x09 then [CHR 0x5C, CHR ''t'']
      else if c = CHR 0x0C then [CHR 0x5C, CHR ''f'']
      else if c = CHR 0x08 then [CHR 0x5C, CHR ''b'']
      else if CHR 0x20 \<le> c then [c]
      else [CHR 0x5C, CHR ''u''] @ map hex_char (hex_digits 4 (of_char c)))"

definition raw_json_string :: "string \<Rightarrow> string" where
  "raw_json_string s = [CHR 0x22] @ concat (map raw_escape_char s) @ [CHR 0x22]"

fun raw_dumps :: "json \<Rightarrow> string" where
  "raw_dumps JNull = ''null''"
| "raw_dumps (JBool b) = (if b then ''true'' else ''false'')"
| "raw_dumps (JInt n) = int_text n"
| "raw_dumps (JString s) = raw_json_string s"
| "raw_dumps (JArray xs) = ''['' @ comma_separated (map raw_dumps xs) @ '']''"
| "raw_dumps (JObject kvs) =
     ''{'' @ comma_separated (map (\<lambda>(k, v). raw_json_string k @ '':'' @ v)
       (sort_key fst (map (\<lambda>(k, v). (k, raw_dumps v)) kvs))) @ ''}''"

definition canonical_json_bytes :: "json \<Rightarrow> string" where
  "canonical_json_bytes value = utf8 (raw_dumps value)"

definition lower_hex_match :: "nat \<Rightarrow> string \<Rightarrow> bool" where
  "lower_hex_match n s = (length s = n \<and> list_all (\<lambda>c. is_digit_char c \<or> CHR ''a'' \<le> c \<and> c \<le> CHR ''f'') s)"

text \<open>The identifier pattern of producers and of the P1 events: a letter or digit, then up to 127 more with separators.\<close>

definition producer_identity_match :: "string \<Rightarrow> bool" where
  "producer_identity_match s =
     (case s of
        [] \<Rightarrow> False
      | c # cs \<Rightarrow> is_alnum_char c \<and> length cs \<le> 127
                  \<and> list_all (\<lambda>x. is_alnum_char x \<or> x \<in> set ''_.:-'') cs)"

end
