(* ===== verification/Job_Transitions.thy ===== *)
theory Job_Transitions
  imports Engine_Json
begin

text \<open>
  The state machine of durable jobs (\<^verbatim>\<open>src/packages/job_contracts/enums.py\<close> and \<^verbatim>\<open>transitions.py\<close>): the states,
  the two transition tables, the validation of a requested transition and the target of a cancellation.
  A run is a sequence of accepted requests; runs between two retries are bounded.
\<close>

section \<open>States and tables\<close>

datatype job_state =
    QUEUED | CLAIMED | RUNNING | SUCCEEDED | FAILED | BLOCKED | TIMED_OUT | CANCEL_REQUESTED | CANCELLED

fun job_state_value :: "job_state \<Rightarrow> string" where
  "job_state_value QUEUED = ''QUEUED''"
| "job_state_value CLAIMED = ''CLAIMED''"
| "job_state_value RUNNING = ''RUNNING''"
| "job_state_value SUCCEEDED = ''SUCCEEDED''"
| "job_state_value FAILED = ''FAILED''"
| "job_state_value BLOCKED = ''BLOCKED''"
| "job_state_value TIMED_OUT = ''TIMED_OUT''"
| "job_state_value CANCEL_REQUESTED = ''CANCEL_REQUESTED''"
| "job_state_value CANCELLED = ''CANCELLED''"

definition JOB_STATES :: "job_state list" where
  "JOB_STATES = [QUEUED, CLAIMED, RUNNING, SUCCEEDED, FAILED, BLOCKED, TIMED_OUT, CANCEL_REQUESTED, CANCELLED]"

datatype transition_disposition = APPLY | NOOP

definition ORDINARY_TRANSITIONS :: "(job_state \<times> job_state) set" where
  "ORDINARY_TRANSITIONS =
     {(QUEUED, CLAIMED), (QUEUED, CANCELLED), (CLAIMED, RUNNING), (CLAIMED, CANCEL_REQUESTED), (CLAIMED, BLOCKED),
      (RUNNING, SUCCEEDED), (RUNNING, FAILED), (RUNNING, TIMED_OUT), (RUNNING, CANCEL_REQUESTED), (RUNNING, BLOCKED),
      (CANCEL_REQUESTED, CANCELLED), (CANCEL_REQUESTED, BLOCKED)}"

definition RETRY_TRANSITIONS :: "(job_state \<times> job_state) set" where
  "RETRY_TRANSITIONS = {(FAILED, QUEUED), (TIMED_OUT, QUEUED)}"

definition TERMINAL_STATES :: "job_state set" where
  "TERMINAL_STATES = {SUCCEEDED, FAILED, BLOCKED, TIMED_OUT, CANCELLED}"

section \<open>Validation\<close>

text \<open>\<^verbatim>\<open>repr\<close> of a string: single quotes unless only double quotes avoid escaping, and hexadecimal escapes.\<close>

definition repr_hex :: "nat \<Rightarrow> char" where
  "repr_hex n = char_of (if n < 10 then 48 + n else 87 + n)"

definition repr_char :: "char \<Rightarrow> char \<Rightarrow> string" where
  "repr_char quote c =
     (let n = (of_char c :: nat)
      in if c = quote \<or> n = 92 then [CHR 0x5C, c]
         else if n = 9 then [CHR 0x5C, CHR ''t'']
         else if n = 10 then [CHR 0x5C, CHR ''n'']
         else if n = 13 then [CHR 0x5C, CHR ''r'']
         else if n < 32 \<or> 127 \<le> n \<and> n \<le> 160 \<or> n = 173
         then [CHR 0x5C, CHR ''x'', repr_hex (n div 16), repr_hex (n mod 16)]
         else [c])"

definition py_repr :: "string \<Rightarrow> string" where
  "py_repr s =
     (let quote = (if CHR 0x27 \<in> set s \<and> CHR 0x22 \<notin> set s then CHR 0x22 else CHR 0x27)
      in quote # concat (map (repr_char quote) s) @ [quote])"

definition job_state_of :: "string \<Rightarrow> job_state res" where
  "job_state_of value =
     (case find (\<lambda>j. job_state_value j = value) JOB_STATES of
        None \<Rightarrow> Inl (InvalidTransition (''unknown job state: '' @ py_repr value))
      | Some state \<Rightarrow> Inr state)"

definition reason_code_match :: "string \<Rightarrow> bool" where
  "reason_code_match s =
     (case s of
        [] \<Rightarrow> False
      | c # cs \<Rightarrow> is_upper_char c \<and> length cs \<le> 127
                  \<and> list_all (\<lambda>x. is_upper_char x \<or> is_digit_char x \<or> x = CHR ''_'') cs)"

definition trace_id_match :: "string \<Rightarrow> bool" where
  "trace_id_match s =
     (case s of
        [] \<Rightarrow> False
      | c # cs \<Rightarrow> is_alnum_char c \<and> length cs \<le> 127
                  \<and> list_all (\<lambda>x. is_alnum_char x \<or> x \<in> set ''_.:-'') cs)"

definition validate_context :: "string \<Rightarrow> string \<Rightarrow> unit res" where
  "validate_context reason_code trace_id =
     (if \<not> reason_code_match reason_code then Inl (InvalidTransition ''transition requires a valid reason code'')
      else if \<not> trace_id_match trace_id then Inl (InvalidTransition ''transition requires a valid trace identity'')
      else Inr ())"

definition starts_with :: "string \<Rightarrow> string \<Rightarrow> bool" where
  "starts_with prefix s = (take (length prefix) s = prefix)"

definition validate_transition ::
  "string \<Rightarrow> string \<Rightarrow> string \<Rightarrow> bool \<Rightarrow> string \<Rightarrow> transition_disposition res" where
  "validate_transition current target reason_code retry_allowed trace_id =
     bindE (validate_context reason_code trace_id) (\<lambda>_.
     bindE (job_state_of current) (\<lambda>source.
     bindE (job_state_of target) (\<lambda>destination.
     if source \<in> TERMINAL_STATES \<and> source = destination \<and> starts_with ''CANCEL_'' reason_code then Inr NOOP
     else if (source, destination) \<in> ORDINARY_TRANSITIONS then Inr APPLY
     else if (source, destination) \<in> RETRY_TRANSITIONS
     then (if \<not> retry_allowed then Inl (InvalidTransition ''transition requires fixed retry policy approval'') else Inr APPLY)
     else Inl (InvalidTransition
            (''transition is not allowed: '' @ job_state_value source @ '' -> '' @ job_state_value destination)))))"

definition cancel_target :: "string \<Rightarrow> job_state res" where
  "cancel_target current =
     bindE (job_state_of current) (\<lambda>state.
     Inr (if state = QUEUED then CANCELLED
          else if state \<in> {CLAIMED, RUNNING} then CANCEL_REQUESTED
          else state))"

section \<open>Runs\<close>

record job_request =
  jr_target :: job_state
  jr_reason_code :: string
  jr_retry_allowed :: bool
  jr_trace_id :: string

text \<open>A request against the stored state of a job, applied when the validation says so.\<close>

definition job_step :: "job_state \<Rightarrow> job_request \<Rightarrow> job_state res" where
  "job_step state r =
     bindE (validate_transition (job_state_value state) (job_state_value (jr_target r)) (jr_reason_code r)
              (jr_retry_allowed r) (jr_trace_id r)) (\<lambda>disposition.
     Inr (case disposition of APPLY \<Rightarrow> jr_target r | NOOP \<Rightarrow> state))"

text \<open>The states a job passes through, without the requests that change nothing.\<close>

fun job_moves :: "job_state \<Rightarrow> job_request list \<Rightarrow> (job_state \<times> job_state) list" where
  "job_moves state [] = []"
| "job_moves state (r # rs) =
     (case job_step state r of
        Inl _ \<Rightarrow> []
      | Inr next \<Rightarrow> (if next = state then [] else [(state, next)]) @ job_moves next rs)"

lemma job_state_of_value [simp]: "job_state_of (job_state_value s) = Inr s"
  by (cases s) (simp_all add: job_state_of_def JOB_STATES_def)

lemma job_step_Inr_iff:
  "job_step s r = Inr t \<longleftrightarrow>
     reason_code_match (jr_reason_code r) \<and> trace_id_match (jr_trace_id r)
     \<and> (s \<in> TERMINAL_STATES \<and> jr_target r = s \<and> starts_with ''CANCEL_'' (jr_reason_code r) \<and> t = s
        \<or> (s, jr_target r) \<in> ORDINARY_TRANSITIONS \<and> t = jr_target r
        \<or> (s, jr_target r) \<in> RETRY_TRANSITIONS \<and> jr_retry_allowed r \<and> t = jr_target r)"
proof -
  have "(s, s) \<notin> ORDINARY_TRANSITIONS" "(s, s) \<notin> RETRY_TRANSITIONS" "RETRY_TRANSITIONS \<inter> ORDINARY_TRANSITIONS = {}"
    by (auto simp: ORDINARY_TRANSITIONS_def RETRY_TRANSITIONS_def)
  then show ?thesis
    by (auto simp: job_step_def validate_transition_def validate_context_def bindE_Inr_iff split: if_splits)
qed

text \<open>How many transitions a job can still make before it is finished or retried.\<close>

fun job_rank :: "job_state \<Rightarrow> nat" where
  "job_rank QUEUED = 4"
| "job_rank CLAIMED = 3"
| "job_rank RUNNING = 2"
| "job_rank CANCEL_REQUESTED = 1"
| "job_rank _ = 0"

lemma ordinary_rank: "(s, t) \<in> ORDINARY_TRANSITIONS \<Longrightarrow> job_rank t < job_rank s"
  by (auto simp: ORDINARY_TRANSITIONS_def)

lemma retry_rank: "(s, t) \<in> RETRY_TRANSITIONS \<Longrightarrow> job_rank s = 0 \<and> job_rank t = 4 \<and> s \<noteq> t"
  by (auto simp: RETRY_TRANSITIONS_def)

definition retry_moves :: "(job_state \<times> job_state) list \<Rightarrow> nat" where
  "retry_moves ms = length (filter (\<lambda>m. m \<in> RETRY_TRANSITIONS) ms)"

lemma job_moves_bounded:
  "foldE job_step s rs = Inr t \<Longrightarrow> length (job_moves s rs) + job_rank t \<le> 5 * retry_moves (job_moves s rs) + job_rank s"
proof (induction rs arbitrary: s)
  case (Cons r rs)
  from Cons.prems obtain u where u: "job_step s r = Inr u" "foldE job_step u rs = Inr t" by (auto simp: bindE_Inr_iff)
  note ih = Cons.IH [OF u(2)]
  from u(1) consider "u = s" | "(s, u) \<in> ORDINARY_TRANSITIONS" | "(s, u) \<in> RETRY_TRANSITIONS"
    by (auto simp: job_step_Inr_iff)
  then show ?case
  proof cases
    case 1
    then show ?thesis using ih u(1) by simp
  next
    case 2
    then have "(s, u) \<notin> RETRY_TRANSITIONS" by (auto simp: ORDINARY_TRANSITIONS_def RETRY_TRANSITIONS_def)
    with ordinary_rank [OF 2] ih u(1) show ?thesis by (auto simp: retry_moves_def)
  next
    case 3
    with retry_rank [OF 3] ih u(1) show ?thesis by (auto simp: retry_moves_def)
  qed
qed simp


lemma job_moves_steps:
  "foldE job_step s rs = Inr t \<Longrightarrow> (a, b) \<in> set (job_moves s rs) \<Longrightarrow>
     (a, b) \<in> ORDINARY_TRANSITIONS \<or> (a, b) \<in> RETRY_TRANSITIONS \<and> (\<exists>r \<in> set rs. jr_retry_allowed r)"
proof (induction rs arbitrary: s)
  case (Cons r rs)
  from Cons.prems(1) obtain u where u: "job_step s r = Inr u" "foldE job_step u rs = Inr t" by (auto simp: bindE_Inr_iff)
  from Cons.prems(2) u(1) have "(a, b) = (s, u) \<and> s \<noteq> u \<or> (a, b) \<in> set (job_moves u rs)" by (auto split: if_splits)
  then show ?case using Cons.IH [OF u(2)] u(1) by (auto simp: job_step_Inr_iff)
qed simp

section \<open>Properties\<close>

text \<open>
  C31: a job cannot move forever on its own: in any run of accepted requests from the queue the number
  of state changes is at most four more than five times the number of retries, a finished job is left
  only by a retry that the policy approved, and without an approved retry a run has at most four changes.
\<close>

theorem job_runs_bounded:
  assumes "foldE job_step QUEUED rs = Inr t"
  shows "length (job_moves QUEUED rs) \<le> 5 * retry_moves (job_moves QUEUED rs) + 4
    \<and> (\<forall>(a, b) \<in> set (job_moves QUEUED rs). a \<in> TERMINAL_STATES \<longrightarrow>
          (a, b) \<in> RETRY_TRANSITIONS \<and> (\<exists>r \<in> set rs. jr_retry_allowed r))
    \<and> ((\<forall>r \<in> set rs. \<not> jr_retry_allowed r) \<longrightarrow> length (job_moves QUEUED rs) \<le> 4)"
proof (intro conjI)
  show b: "length (job_moves QUEUED rs) \<le> 5 * retry_moves (job_moves QUEUED rs) + 4"
    using job_moves_bounded [OF assms] by simp
  have o: "(a, b) \<in> ORDINARY_TRANSITIONS \<Longrightarrow> a \<notin> TERMINAL_STATES" for a b
    by (auto simp: ORDINARY_TRANSITIONS_def TERMINAL_STATES_def)
  show "\<forall>(a, b) \<in> set (job_moves QUEUED rs). a \<in> TERMINAL_STATES \<longrightarrow>
      (a, b) \<in> RETRY_TRANSITIONS \<and> (\<exists>r \<in> set rs. jr_retry_allowed r)"
    using job_moves_steps [OF assms] o by blast
  show "(\<forall>r \<in> set rs. \<not> jr_retry_allowed r) \<longrightarrow> length (job_moves QUEUED rs) \<le> 4"
  proof
    assume "\<forall>r \<in> set rs. \<not> jr_retry_allowed r"
    then have "\<forall>m \<in> set (job_moves QUEUED rs). m \<in> ORDINARY_TRANSITIONS"
      using job_moves_steps [OF assms] by auto
    then have "retry_moves (job_moves QUEUED rs) = 0"
      by (auto simp: retry_moves_def filter_empty_conv ORDINARY_TRANSITIONS_def RETRY_TRANSITIONS_def)
    with b show "length (job_moves QUEUED rs) \<le> 4" by simp
  qed
qed

definition demo_job :: "job_request list" where
  "demo_job = map (\<lambda>(t, retry). \<lparr>jr_target = t, jr_reason_code = ''STEP'', jr_retry_allowed = retry, jr_trace_id = ''t1''\<rparr>)
     [(CLAIMED, False), (RUNNING, False), (FAILED, False), (QUEUED, True), (CANCELLED, False)]"

theorem job_runs_bounded_witness:
  "foldE job_step QUEUED demo_job = Inr CANCELLED \<and> retry_moves (job_moves QUEUED demo_job) = 1
     \<and> length (job_moves QUEUED demo_job) \<le> 9"
proof -
  have r: "foldE job_step QUEUED demo_job = Inr CANCELLED" by code_simp
  moreover have m: "retry_moves (job_moves QUEUED demo_job) = 1" by code_simp
  ultimately show ?thesis using job_runs_bounded [OF r] unfolding m by simp
qed

text \<open>
  C32: what a cancellation does: the state that \<^verbatim>\<open>cancel_target\<close> names for a request is accepted with every
  cancellation reason, as a change for a job that has not finished and as no change for one that has; a
  second request, while a first one is pending, is refused.
\<close>

theorem cancellation_outcomes:
  assumes "reason_code_match reason" "starts_with ''CANCEL_'' reason" "trace_id_match trace"
  shows "\<exists>t. cancel_target (job_state_value s) = Inr t
    \<and> validate_transition (job_state_value s) (job_state_value t) reason retry trace =
        (if s = CANCEL_REQUESTED
         then Inl (InvalidTransition ''transition is not allowed: CANCEL_REQUESTED -> CANCEL_REQUESTED'')
         else Inr (if s \<in> TERMINAL_STATES then NOOP else APPLY))"
proof -
  let ?t = "if s = QUEUED then CANCELLED else if s \<in> {CLAIMED, RUNNING} then CANCEL_REQUESTED else s"
  have t: "cancel_target (job_state_value s) = Inr ?t" unfolding cancel_target_def job_state_of_value by simp
  have "validate_transition (job_state_value s) (job_state_value ?t) reason retry trace =
     (if s \<in> TERMINAL_STATES \<and> s = ?t then Inr NOOP
      else if (s, ?t) \<in> ORDINARY_TRANSITIONS then Inr APPLY
      else if (s, ?t) \<in> RETRY_TRANSITIONS
      then (if \<not> retry then Inl (InvalidTransition ''transition requires fixed retry policy approval'') else Inr APPLY)
      else Inl (InvalidTransition (''transition is not allowed: '' @ job_state_value s @ '' -> '' @ job_state_value ?t)))"
    unfolding validate_transition_def validate_context_def job_state_of_value using assms by simp
  also have "\<dots> = (if s = CANCEL_REQUESTED
         then Inl (InvalidTransition ''transition is not allowed: CANCEL_REQUESTED -> CANCEL_REQUESTED'')
         else Inr (if s \<in> TERMINAL_STATES then NOOP else APPLY))"
    by (cases s) (simp_all add: ORDINARY_TRANSITIONS_def RETRY_TRANSITIONS_def TERMINAL_STATES_def)
  finally show ?thesis using t by blast
qed

theorem cancellation_outcomes_witness:
  "validate_transition ''RUNNING'' ''CANCEL_REQUESTED'' ''CANCEL_USER'' False ''t1'' = Inr APPLY
   \<and> cancel_target ''RUNNING'' = Inr CANCEL_REQUESTED"
proof -
  have m: "reason_code_match ''CANCEL_USER''" "starts_with ''CANCEL_'' ''CANCEL_USER''" "trace_id_match ''t1''" by code_simp+
  have c: "cancel_target ''RUNNING'' = Inr CANCEL_REQUESTED" by code_simp
  with cancellation_outcomes [OF m, of RUNNING False] show ?thesis by (simp add: TERMINAL_STATES_def)
qed

end
