(* ===== verification/Paper_Stream.thy ===== *)
theory Paper_Stream
  imports Engine_Json
begin

text \<open>
  The event stream of a paper run (\<^verbatim>\<open>src/packages/nautilus_runtime_contracts/events.py\<close>, \<^verbatim>\<open>semantic.py\<close> and
  \<^verbatim>\<open>state_machine.py\<close>): the eight events with their validators, and the fail-closed validation of a
  complete stream. Fields that the contract fixes to one literal carry no information and are left out.
  SHA-256 and pydantic's dump of an event are parameters. Of the UTC check the offset is modelled; that the
  time zone is the canonical UTC object is left out, so the model accepts at least what the code accepts.
\<close>

section \<open>Events\<close>

record p1_event_model =
  p1_sequence :: int
  p1_simulation_time :: datetime

record p1_run_started = p1_event_model +
  rs_upstream_commit :: string
  rs_closure_digest :: string
  rs_config_digest :: string
  rs_catalog_digest :: string
  rs_data_digest :: string

record p1_target_accepted = p1_event_model +
  ta_target_id :: string
  ta_source_signal_ids :: "string list"
  ta_target_weight :: decimal

record p1_target_quantity_planned = p1_event_model +
  tp_target_id :: string
  tp_quantity :: decimal

record p1_order_submitted = p1_event_model +
  os_client_order_id :: string
  os_native_order_id :: string
  os_target_id :: string
  os_source_signal_ids :: "string list"
  os_side :: order_side
  os_quantity :: decimal

record p1_fill = p1_event_model +
  pf_client_order_id :: string
  pf_native_fill_id :: string
  pf_side :: order_side
  pf_quantity :: decimal
  pf_price :: decimal
  pf_fee :: decimal

record p1_position_observed = p1_event_model +
  po_quantity :: decimal
  po_average_entry_price :: decimal
  po_realized_pnl :: decimal
  po_unrealized_pnl :: decimal

record p1_account_observed = p1_event_model +
  ao_cash_balance :: decimal
  ao_fees :: decimal
  ao_realized_pnl :: decimal
  ao_unrealized_pnl :: decimal

record p1_run_completed = p1_event_model +
  rc_upstream_commit :: string
  rc_closure_digest :: string
  rc_target_count :: int
  rc_order_count :: int
  rc_fill_count :: int
  rc_final_cash :: decimal
  rc_final_position :: decimal
  rc_fees :: decimal
  rc_realized_pnl :: decimal
  rc_unrealized_pnl :: decimal
  rc_semantic_digest :: string

datatype p1_event =
    RunStarted p1_run_started
  | TargetAccepted p1_target_accepted
  | TargetQuantityPlanned p1_target_quantity_planned
  | OrderSubmitted p1_order_submitted
  | Fill p1_fill
  | PositionObserved p1_position_observed
  | AccountObserved p1_account_observed
  | RunCompleted p1_run_completed

fun event_sequence :: "p1_event \<Rightarrow> int" where
  "event_sequence (RunStarted e) = p1_sequence e"
| "event_sequence (TargetAccepted e) = p1_sequence e"
| "event_sequence (TargetQuantityPlanned e) = p1_sequence e"
| "event_sequence (OrderSubmitted e) = p1_sequence e"
| "event_sequence (Fill e) = p1_sequence e"
| "event_sequence (PositionObserved e) = p1_sequence e"
| "event_sequence (AccountObserved e) = p1_sequence e"
| "event_sequence (RunCompleted e) = p1_sequence e"

fun event_time :: "p1_event \<Rightarrow> datetime" where
  "event_time (RunStarted e) = p1_simulation_time e"
| "event_time (TargetAccepted e) = p1_simulation_time e"
| "event_time (TargetQuantityPlanned e) = p1_simulation_time e"
| "event_time (OrderSubmitted e) = p1_simulation_time e"
| "event_time (Fill e) = p1_simulation_time e"
| "event_time (PositionObserved e) = p1_simulation_time e"
| "event_time (AccountObserved e) = p1_simulation_time e"
| "event_time (RunCompleted e) = p1_simulation_time e"

subsection \<open>The validators of the events\<close>

definition MAX_COUNT :: int where
  "MAX_COUNT = 9223372036854775807"

definition source_commit_match :: "string \<Rightarrow> bool" where
  "source_commit_match s = (lower_hex_match 40 s \<or> lower_hex_match 64 s)"

definition p1_base_fields :: "int \<Rightarrow> datetime \<Rightarrow> unit res" where
  "p1_base_fields sequence simulation_time =
     bindE (require_field ''sequence'' (0 < sequence \<and> sequence \<le> MAX_COUNT)) (\<lambda>_.
     require_field ''simulation_time'' (dt_utcoffset simulation_time = Some 0))"

definition signal_ids_field :: "string list \<Rightarrow> unit res" where
  "signal_ids_field ids =
     require_field ''source_signal_ids'' (1 \<le> length ids \<and> length ids \<le> 64 \<and> list_all producer_identity_match ids)"

definition value_error_if :: "bool \<Rightarrow> string \<Rightarrow> unit res" where
  "value_error_if bad message = (if bad then Inl (ValueError message) else Inr ())"

fun p1_event_fields :: "p1_event \<Rightarrow> unit res" where
  "p1_event_fields (RunStarted e) =
     bindE (require_field ''upstream_commit'' (source_commit_match (rs_upstream_commit e))) (\<lambda>_.
     bindE (require_field ''closure_digest'' (sha256_hex (rs_closure_digest e))) (\<lambda>_.
     bindE (require_field ''config_digest'' (sha256_hex (rs_config_digest e))) (\<lambda>_.
     bindE (require_field ''catalog_digest'' (sha256_hex (rs_catalog_digest e))) (\<lambda>_.
     require_field ''data_digest'' (sha256_hex (rs_data_digest e))))))"
| "p1_event_fields (TargetAccepted e) =
     bindE (require_field ''target_id'' (producer_identity_match (ta_target_id e))) (\<lambda>_.
     signal_ids_field (ta_source_signal_ids e))"
| "p1_event_fields (TargetQuantityPlanned e) = require_field ''target_id'' (producer_identity_match (tp_target_id e))"
| "p1_event_fields (OrderSubmitted e) =
     bindE (require_field ''client_order_id'' (producer_identity_match (os_client_order_id e))) (\<lambda>_.
     bindE (require_field ''native_order_id'' (producer_identity_match (os_native_order_id e))) (\<lambda>_.
     bindE (require_field ''target_id'' (producer_identity_match (os_target_id e))) (\<lambda>_.
     signal_ids_field (os_source_signal_ids e))))"
| "p1_event_fields (Fill e) =
     bindE (require_field ''client_order_id'' (producer_identity_match (pf_client_order_id e))) (\<lambda>_.
     require_field ''native_fill_id'' (producer_identity_match (pf_native_fill_id e)))"
| "p1_event_fields (PositionObserved e) = Inr ()"
| "p1_event_fields (AccountObserved e) = Inr ()"
| "p1_event_fields (RunCompleted e) =
     bindE (require_field ''upstream_commit'' (source_commit_match (rc_upstream_commit e))) (\<lambda>_.
     bindE (require_field ''closure_digest'' (sha256_hex (rc_closure_digest e))) (\<lambda>_.
     bindE (require_field ''target_count'' (0 \<le> rc_target_count e \<and> rc_target_count e \<le> MAX_COUNT)) (\<lambda>_.
     bindE (require_field ''order_count'' (0 \<le> rc_order_count e \<and> rc_order_count e \<le> MAX_COUNT)) (\<lambda>_.
     bindE (require_field ''fill_count'' (0 \<le> rc_fill_count e \<and> rc_fill_count e \<le> MAX_COUNT)) (\<lambda>_.
     require_field ''semantic_digest'' (sha256_hex (rc_semantic_digest e)))))))"

fun p1_event_semantics :: "p1_event \<Rightarrow> unit res" where
  "p1_event_semantics (TargetAccepted e) =
     bindE (value_error_if (\<not> (dec_le (dec_int 0) (ta_target_weight e) \<and> dec_le (ta_target_weight e) (dec_int 1)))
              ''target_weight must be long or flat'') (\<lambda>_.
     value_error_if (\<not> distinct (ta_source_signal_ids e)) ''source_signal_ids contain duplicates'')"
| "p1_event_semantics (TargetQuantityPlanned e) =
     value_error_if (dec_lt (tp_quantity e) (dec_int 0)) ''planned quantity must be non-negative''"
| "p1_event_semantics (OrderSubmitted e) =
     bindE (value_error_if (dec_le (os_quantity e) (dec_int 0)) ''order quantity must be positive'') (\<lambda>_.
     value_error_if (\<not> distinct (os_source_signal_ids e)) ''source_signal_ids contain duplicates'')"
| "p1_event_semantics (Fill e) =
     value_error_if (dec_le (pf_quantity e) (dec_int 0) \<or> dec_le (pf_price e) (dec_int 0) \<or> dec_lt (pf_fee e) (dec_int 0))
       ''fill quantity/price must be positive and fee non-negative''"
| "p1_event_semantics (PositionObserved e) =
     value_error_if (dec_lt (po_quantity e) (dec_int 0) \<or> dec_lt (po_average_entry_price e) (dec_int 0))
       ''P1 position must be long or flat''"
| "p1_event_semantics (AccountObserved e) =
     value_error_if (dec_lt (ao_cash_balance e) (dec_int 0) \<or> dec_lt (ao_fees e) (dec_int 0))
       ''cash and fees must be non-negative''"
| "p1_event_semantics (RunCompleted e) =
     value_error_if (dec_lt (rc_final_cash e) (dec_int 0) \<or> dec_lt (rc_final_position e) (dec_int 0) \<or> dec_lt (rc_fees e) (dec_int 0))
       ''final cash, position, and fees must be non-negative''"
| "p1_event_semantics (RunStarted e) = Inr ()"

definition mk_p1_event :: "p1_event \<Rightarrow> p1_event res" where
  "mk_p1_event e =
     wrap_validation (
       bindE (p1_base_fields (event_sequence e) (event_time e)) (\<lambda>_.
       bindE (p1_event_fields e) (\<lambda>_.
       bindE (p1_event_semantics e) (\<lambda>_.
       Inr e))))"

section \<open>The semantic digest\<close>

record p1_codec =
  p1c_sha256 :: "string \<Rightarrow> string"
  p1c_dump :: "p1_event \<Rightarrow> (string \<times> json) list"

definition CUSTODY_ONLY_FIELDS :: "string list" where
  "CUSTODY_ONLY_FIELDS = [''native_fill_id'', ''native_order_id'', ''semantic_digest'']"

definition semantic_projection :: "p1_codec \<Rightarrow> p1_event list \<Rightarrow> json list" where
  "semantic_projection pc events =
     map (\<lambda>event. JObject (filter (\<lambda>(key, _). key \<notin> set CUSTODY_ONLY_FIELDS) (p1c_dump pc event))) events"

definition semantic_digest :: "p1_codec \<Rightarrow> p1_event list \<Rightarrow> string" where
  "semantic_digest pc events = p1c_sha256 pc (canonical_json_bytes (JArray (semantic_projection pc events)))"

section \<open>The stream\<close>

fun is_run_started :: "p1_event \<Rightarrow> bool" where
  "is_run_started (RunStarted _) = True"
| "is_run_started _ = False"

fun is_run_completed :: "p1_event \<Rightarrow> bool" where
  "is_run_completed (RunCompleted _) = True"
| "is_run_completed _ = False"

record stream_scan =
  ss_expected :: int
  ss_accepted_targets :: "(string \<times> string list) list"
  ss_planned_targets :: "(string \<times> decimal) list"
  ss_submitted_orders :: "string set"
  ss_submitted_targets :: "string set"
  ss_native_order_ids :: "string set"
  ss_native_fill_ids :: "string set"
  ss_fill_count :: int
  ss_position_count :: int
  ss_account_count :: int
  ss_previous_time :: datetime
  ss_order_facts :: "(string \<times> order_side \<times> decimal \<times> string) list"
  ss_filled_quantities :: "string \<Rightarrow> rat option"
  ss_last_position :: "p1_position_observed option"
  ss_last_account :: "p1_account_observed option"

definition empty_scan :: "datetime \<Rightarrow> stream_scan" where
  "empty_scan t =
     \<lparr>ss_expected = 2, ss_accepted_targets = [], ss_planned_targets = [], ss_submitted_orders = {},
      ss_submitted_targets = {}, ss_native_order_ids = {}, ss_native_fill_ids = {}, ss_fill_count = 0,
      ss_position_count = 0, ss_account_count = 0, ss_previous_time = t, ss_order_facts = [],
      ss_filled_quantities = (\<lambda>_. None), ss_last_position = None, ss_last_account = None\<rparr>"

definition get_filled :: "stream_scan \<Rightarrow> string \<Rightarrow> rat" where
  "get_filled s order_id = (case ss_filled_quantities s order_id of None \<Rightarrow> 0 | Some q \<Rightarrow> q)"

definition scan_order :: "stream_scan \<Rightarrow> p1_order_submitted \<Rightarrow> stream_scan res" where
  "scan_order s e =
     (let unbound = Inl (ValueError ''order submission is not bound to a target plan'')
      in
      if ss_planned_targets s = [] \<or> os_client_order_id e \<in> ss_submitted_orders s
         \<or> os_native_order_id e \<in> ss_native_order_ids s
      then unbound
      else case map_of (ss_planned_targets s) (os_target_id e) of
             None \<Rightarrow> unbound
           | Some planned \<Rightarrow>
               if os_target_id e \<in> ss_submitted_targets s then unbound
               else case map_of (ss_accepted_targets s) (os_target_id e) of
                      None \<Rightarrow> Inl KeyError
                    | Some signals \<Rightarrow>
                        if signals \<noteq> os_source_signal_ids e \<or> \<not> dec_eq planned (os_quantity e) then unbound
                        else Inr (s\<lparr>ss_submitted_orders := insert (os_client_order_id e) (ss_submitted_orders s),
                                    ss_native_order_ids := insert (os_native_order_id e) (ss_native_order_ids s),
                                    ss_submitted_targets := insert (os_target_id e) (ss_submitted_targets s),
                                    ss_order_facts := dict_put (os_client_order_id e)
                                      (os_side e, os_quantity e, os_native_order_id e) (ss_order_facts s)\<rparr>))"

definition scan_fill :: "stream_scan \<Rightarrow> p1_fill \<Rightarrow> stream_scan res" where
  "scan_fill s e =
     (if pf_client_order_id e \<notin> ss_submitted_orders s \<or> pf_native_fill_id e \<in> ss_native_fill_ids s
      then Inl (ValueError ''fill occurred before order submission'')
      else case map_of (ss_order_facts s) (pf_client_order_id e) of
             None \<Rightarrow> Inl KeyError
           | Some (side, submitted_quantity, _) \<Rightarrow>
               let total_quantity = get_filled s (pf_client_order_id e) + fraction (pf_quantity e)
               in if pf_side e \<noteq> side \<or> fraction submitted_quantity < total_quantity
                  then Inl (ValueError ''fill facts do not match the submitted order'')
                  else Inr (s\<lparr>ss_native_fill_ids := insert (pf_native_fill_id e) (ss_native_fill_ids s),
                              ss_filled_quantities := (ss_filled_quantities s)(pf_client_order_id e \<mapsto> total_quantity),
                              ss_fill_count := ss_fill_count s + 1\<rparr>))"

fun scan_event :: "stream_scan \<Rightarrow> p1_event \<Rightarrow> stream_scan res" where
  "scan_event s (TargetAccepted e) =
     (if ta_target_id e \<in> fst ` set (ss_accepted_targets s) then Inl (ValueError ''duplicate target acceptance'')
      else Inr (s\<lparr>ss_accepted_targets := dict_put (ta_target_id e) (ta_source_signal_ids e) (ss_accepted_targets s)\<rparr>))"
| "scan_event s (TargetQuantityPlanned e) =
     (if tp_target_id e \<notin> fst ` set (ss_accepted_targets s) \<or> tp_target_id e \<in> fst ` set (ss_planned_targets s)
      then Inl (ValueError ''target quantity was not planned after acceptance'')
      else Inr (s\<lparr>ss_planned_targets := dict_put (tp_target_id e) (tp_quantity e) (ss_planned_targets s)\<rparr>))"
| "scan_event s (OrderSubmitted e) = scan_order s e"
| "scan_event s (Fill e) = scan_fill s e"
| "scan_event s (PositionObserved e) = Inr (s\<lparr>ss_position_count := ss_position_count s + 1, ss_last_position := Some e\<rparr>)"
| "scan_event s (AccountObserved e) = Inr (s\<lparr>ss_account_count := ss_account_count s + 1, ss_last_account := Some e\<rparr>)"
| "scan_event s (RunStarted e) = Inr s"
| "scan_event s (RunCompleted e) = Inr s"

definition scan_step :: "stream_scan \<Rightarrow> p1_event \<Rightarrow> stream_scan res" where
  "scan_step s event =
     (if event_sequence event \<noteq> ss_expected s then Inl (ValueError ''P1 event stream sequence is not contiguous'')
      else if dt_lt (event_time event) (ss_previous_time s) then Inl (ValueError ''simulation_time must not regress'')
      else scan_event (s\<lparr>ss_expected := ss_expected s + 1, ss_previous_time := event_time event\<rparr>) event)"

definition summary_matches :: "p1_run_completed \<Rightarrow> p1_position_observed option \<Rightarrow> p1_account_observed option \<Rightarrow> bool" where
  "summary_matches c position account =
     (case (position, account) of
        (Some p, Some a) \<Rightarrow>
          dec_eq (rc_final_position c) (po_quantity p) \<and> dec_eq (rc_final_cash c) (ao_cash_balance a)
          \<and> dec_eq (rc_fees c) (ao_fees a) \<and> dec_eq (rc_realized_pnl c) (ao_realized_pnl a)
          \<and> dec_eq (rc_unrealized_pnl c) (ao_unrealized_pnl a) \<and> dec_eq (po_realized_pnl p) (ao_realized_pnl a)
          \<and> dec_eq (po_unrealized_pnl p) (ao_unrealized_pnl a)
      | _ \<Rightarrow> False)"

definition check_completion :: "p1_codec \<Rightarrow> p1_event list \<Rightarrow> stream_scan \<Rightarrow> p1_run_started \<Rightarrow> p1_run_completed \<Rightarrow> unit res" where
  "check_completion pc events s start completion =
     bindE (value_error_if (rc_upstream_commit completion \<noteq> rs_upstream_commit start
                            \<or> rc_closure_digest completion \<noteq> rs_closure_digest start)
              ''completion lineage does not match run start'') (\<lambda>_.
     bindE (value_error_if (rc_target_count completion \<noteq> int (length (ss_accepted_targets s))
                            \<or> rc_order_count completion \<noteq> int (card (ss_submitted_orders s))
                            \<or> rc_fill_count completion \<noteq> ss_fill_count s)
              ''completion counters do not match the event stream'') (\<lambda>_.
     bindE (value_error_if (\<not> summary_matches completion (ss_last_position s) (ss_last_account s))
              ''completion summary does not match final observations'') (\<lambda>_.
     value_error_if (rc_semantic_digest completion \<noteq> semantic_digest pc events)
       ''completion semantic digest does not match the stream'')))"

definition check_scan :: "p1_event list \<Rightarrow> stream_scan \<Rightarrow> unit res" where
  "check_scan events s =
     bindE (value_error_if (fst ` set (ss_accepted_targets s) \<noteq> fst ` set (ss_planned_targets s) \<or> ss_accepted_targets s = [])
              ''every accepted target requires exactly one quantity plan'') (\<lambda>_.
     bindE (value_error_if (ss_position_count s = 0 \<or> ss_account_count s = 0)
              ''completion requires position and account observations'') (\<lambda>_.
     bindE (value_error_if (\<not> (case (events ! (length events - 3), events ! (length events - 2)) of
                                  (PositionObserved _, AccountObserved _) \<Rightarrow> True | _ \<Rightarrow> False))
              ''final observations must immediately precede completion'') (\<lambda>_.
     value_error_if (\<not> list_all (\<lambda>(order_id, _, quantity, _). get_filled s order_id = fraction quantity) (ss_order_facts s))
       ''completion cannot retain an unfinished order'')))"

definition validate_event_stream :: "p1_codec \<Rightarrow> p1_event list \<Rightarrow> p1_event list res" where
  "validate_event_stream pc events =
     (if length events < 5 then Inl (ValueError ''P1 event stream is incomplete'')
      else case (hd events, last events) of
             (RunStarted start, RunCompleted completion) \<Rightarrow>
               bindE (value_error_if (length (filter is_run_started events) \<noteq> 1 \<or> length (filter is_run_completed events) \<noteq> 1)
                        ''P1 event stream lifecycle cardinality is invalid'') (\<lambda>_.
               bindE (foldE scan_step (empty_scan (p1_simulation_time start)) events) (\<lambda>s.
               bindE (check_scan events s) (\<lambda>_.
               bindE (check_completion pc events s start completion) (\<lambda>_.
               Inr events))))
           | _ \<Rightarrow> Inl (ValueError ''P1 event stream must start and complete exactly once''))"

end
