(* ===== verification/Paper_Stream_Theorems.thy ===== *)
theory Paper_Stream_Theorems
  imports Paper_Stream
begin

text \<open>
  The validation of a paper run accepts exactly the complete streams, which are stated here without the
  scan's state: each event is judged by the events before it, and the whole by its facts. An accepted
  stream conserves quantity.
\<close>

section \<open>What an accepted stream is\<close>

text \<open>The facts of a stream, read off its events, and what each event requires of the events before it.\<close>

definition targets_of :: "p1_event list \<Rightarrow> (string \<times> string list) list" where
  "targets_of es = concat (map (\<lambda>e. case e of TargetAccepted t \<Rightarrow> [(ta_target_id t, ta_source_signal_ids t)] | _ \<Rightarrow> []) es)"

definition plans_of :: "p1_event list \<Rightarrow> (string \<times> decimal) list" where
  "plans_of es = concat (map (\<lambda>e. case e of TargetQuantityPlanned t \<Rightarrow> [(tp_target_id t, tp_quantity t)] | _ \<Rightarrow> []) es)"

definition orders_of :: "p1_event list \<Rightarrow> p1_order_submitted list" where
  "orders_of es = concat (map (\<lambda>e. case e of OrderSubmitted t \<Rightarrow> [t] | _ \<Rightarrow> []) es)"

definition fills_of :: "p1_event list \<Rightarrow> p1_fill list" where
  "fills_of es = concat (map (\<lambda>e. case e of Fill t \<Rightarrow> [t] | _ \<Rightarrow> []) es)"

definition positions_of :: "p1_event list \<Rightarrow> p1_position_observed list" where
  "positions_of es = concat (map (\<lambda>e. case e of PositionObserved t \<Rightarrow> [t] | _ \<Rightarrow> []) es)"

definition accounts_of :: "p1_event list \<Rightarrow> p1_account_observed list" where
  "accounts_of es = concat (map (\<lambda>e. case e of AccountObserved t \<Rightarrow> [t] | _ \<Rightarrow> []) es)"

definition filled :: "p1_event list \<Rightarrow> string \<Rightarrow> rat" where
  "filled es i = sum_list (map (\<lambda>f. fraction (pf_quantity f)) (filter (\<lambda>f. pf_client_order_id f = i) (fills_of es)))"

fun follows :: "p1_event list \<Rightarrow> p1_event \<Rightarrow> bool" where
  "follows es (TargetAccepted t) = (ta_target_id t \<notin> fst ` set (targets_of es))"
| "follows es (TargetQuantityPlanned t) = (tp_target_id t \<in> fst ` set (targets_of es) \<and> tp_target_id t \<notin> fst ` set (plans_of es))"
| "follows es (OrderSubmitted t) =
     (os_client_order_id t \<notin> os_client_order_id ` set (orders_of es)
      \<and> os_native_order_id t \<notin> os_native_order_id ` set (orders_of es)
      \<and> os_target_id t \<notin> os_target_id ` set (orders_of es)
      \<and> (os_target_id t, os_source_signal_ids t) \<in> set (targets_of es)
      \<and> (\<exists>q. (os_target_id t, q) \<in> set (plans_of es) \<and> dec_eq q (os_quantity t)))"
| "follows es (Fill t) =
     (pf_native_fill_id t \<notin> pf_native_fill_id ` set (fills_of es)
      \<and> (\<exists>q \<in> set (orders_of es). os_client_order_id q = pf_client_order_id t \<and> os_side q = pf_side t
           \<and> filled es (pf_client_order_id t) + fraction (pf_quantity t) \<le> fraction (os_quantity q)))"
| "follows es _ = True"

definition next_in_stream :: "p1_event list \<Rightarrow> p1_event \<Rightarrow> bool" where
  "next_in_stream es e =
     (event_sequence e = int (length es) + 2 \<and> \<not> (es \<noteq> [] \<and> dt_lt (event_time e) (event_time (last es))) \<and> follows es e)"

definition coherent :: "p1_event list \<Rightarrow> bool" where
  "coherent es = (\<forall>i < length es. next_in_stream (take i es) (es ! i))"

lemma coherent_Nil [simp]: "coherent []"
  by (simp add: coherent_def)

lemma coherent_snoc: "coherent (es @ [e]) \<longleftrightarrow> coherent es \<and> next_in_stream es e"
  by (auto simp: coherent_def nth_append less_Suc_eq)

lemma facts_snoc [simp]:
  "targets_of (es @ [e]) = targets_of es @ targets_of [e]" "plans_of (es @ [e]) = plans_of es @ plans_of [e]"
  "orders_of (es @ [e]) = orders_of es @ orders_of [e]" "fills_of (es @ [e]) = fills_of es @ fills_of [e]"
  "positions_of (es @ [e]) = positions_of es @ positions_of [e]" "accounts_of (es @ [e]) = accounts_of es @ accounts_of [e]"
  by (simp_all add: targets_of_def plans_of_def orders_of_def fills_of_def positions_of_def accounts_of_def)

lemma facts_Nil [simp]:
  "targets_of [] = []" "plans_of [] = []" "orders_of [] = []" "fills_of [] = []" "positions_of [] = []" "accounts_of [] = []"
  by (simp_all add: targets_of_def plans_of_def orders_of_def fills_of_def positions_of_def accounts_of_def)

lemma filled_Nil [simp]: "filled [] i = 0"
  by (simp add: filled_def)

lemma filled_snoc:
  "filled (es @ [e]) i = filled es i + (case e of Fill t \<Rightarrow> if pf_client_order_id t = i then fraction (pf_quantity t) else 0 | _ \<Rightarrow> 0)"
  by (cases e) (simp_all add: filled_def fills_of_def)

section \<open>The scan reads the facts\<close>

definition order_fact :: "p1_order_submitted \<Rightarrow> string \<times> order_side \<times> decimal \<times> string" where
  "order_fact t = (os_client_order_id t, os_side t, os_quantity t, os_native_order_id t)"

definition scanned :: "p1_event list \<Rightarrow> stream_scan \<Rightarrow> bool" where
  "scanned es s \<longleftrightarrow>
     ss_accepted_targets s = targets_of es \<and> distinct (map fst (targets_of es))
     \<and> ss_planned_targets s = plans_of es \<and> distinct (map fst (plans_of es))
     \<and> fst ` set (plans_of es) \<subseteq> fst ` set (targets_of es)
     \<and> ss_submitted_orders s = os_client_order_id ` set (orders_of es) \<and> distinct (map os_client_order_id (orders_of es))
     \<and> ss_submitted_targets s = os_target_id ` set (orders_of es)
     \<and> ss_native_order_ids s = os_native_order_id ` set (orders_of es)
     \<and> ss_native_fill_ids s = pf_native_fill_id ` set (fills_of es)
     \<and> ss_fill_count s = int (length (fills_of es))
     \<and> ss_position_count s = int (length (positions_of es)) \<and> ss_account_count s = int (length (accounts_of es))
     \<and> ss_order_facts s = map order_fact (orders_of es)
     \<and> (\<forall>i. get_filled s i = filled es i)
     \<and> ss_last_position s = (if positions_of es = [] then None else Some (last (positions_of es)))
     \<and> ss_last_account s = (if accounts_of es = [] then None else Some (last (accounts_of es)))"

lemma scanned_parts:
  assumes "scanned es s"
  shows "ss_accepted_targets s = targets_of es" "distinct (map fst (targets_of es))"
    "ss_planned_targets s = plans_of es" "distinct (map fst (plans_of es))"
    "fst ` set (plans_of es) \<subseteq> fst ` set (targets_of es)"
    "ss_submitted_orders s = os_client_order_id ` set (orders_of es)" "distinct (map os_client_order_id (orders_of es))"
    "ss_submitted_targets s = os_target_id ` set (orders_of es)"
    "ss_native_order_ids s = os_native_order_id ` set (orders_of es)"
    "ss_native_fill_ids s = pf_native_fill_id ` set (fills_of es)"
    "ss_order_facts s = map order_fact (orders_of es)" "get_filled s i = filled es i"
    "ss_fill_count s = int (length (fills_of es))"
    "ss_position_count s = int (length (positions_of es))" "ss_account_count s = int (length (accounts_of es))"
    "ss_last_position s = (if positions_of es = [] then None else Some (last (positions_of es)))"
    "ss_last_account s = (if accounts_of es = [] then None else Some (last (accounts_of es)))"
  using assms unfolding scanned_def by (elim conjE; assumption | elim conjE; simp only:)+

lemma dict_put_new: "k \<notin> fst ` set d \<Longrightarrow> dict_put k v d = d @ [(k, v)]"
  by (induction d) auto

lemma map_of_member: "distinct (map fst d) \<Longrightarrow> map_of d k = Some v \<longleftrightarrow> (k, v) \<in> set d"
  by (simp add: map_of_eq_Some_iff)

lemma order_fact_lookup:
  assumes "distinct (map os_client_order_id qs)"
  shows "map_of (map order_fact qs) i = Some f \<longleftrightarrow> (\<exists>q \<in> set qs. os_client_order_id q = i \<and> f = (os_side q, os_quantity q, os_native_order_id q))"
proof -
  have "distinct (map fst (map order_fact qs))" using assms by (simp add: order_fact_def comp_def)
  from map_of_member [OF this] show ?thesis by (auto simp: order_fact_def)
qed

lemma scan_order_iff:
  assumes "scanned es s"
  shows "scan_order s t = Inr s' \<longleftrightarrow> follows es (OrderSubmitted t)
    \<and> s' = s\<lparr>ss_submitted_orders := insert (os_client_order_id t) (ss_submitted_orders s),
             ss_native_order_ids := insert (os_native_order_id t) (ss_native_order_ids s),
             ss_submitted_targets := insert (os_target_id t) (ss_submitted_targets s),
             ss_order_facts := ss_order_facts s @ [order_fact t]\<rparr>"
    (is "_ \<longleftrightarrow> _ \<and> s' = ?r")
proof -
  note f = scanned_parts [OF assms]
  show ?thesis
  proof (cases "map_of (plans_of es) (os_target_id t)")
    case None
    then have "\<not> follows es (OrderSubmitted t)" by (auto simp: map_of_eq_None_iff image_iff)
    moreover have "\<not> (scan_order s t = Inr s')" unfolding scan_order_def Let_def f(3) None by simp
    ultimately show ?thesis by blast
  next
    case (Some q)
    then have q: "(os_target_id t, q) \<in> set (plans_of es)" "plans_of es \<noteq> []" by (auto dest: map_of_SomeD)
    have u: "(os_target_id t, q') \<in> set (plans_of es) \<longleftrightarrow> q' = q" for q'
      unfolding map_of_member [OF f(4), symmetric] Some by auto
    have "os_target_id t \<in> fst ` set (plans_of es)" using q(1) by (rule image_eqI [rotated]) simp
    then have "os_target_id t \<in> fst ` set (targets_of es)" using f(5) by (rule rev_subsetD)
    then obtain sg where "(os_target_id t, sg) \<in> set (targets_of es)" by (metis imageE prod.collapse)
    then have sg: "map_of (targets_of es) (os_target_id t) = Some sg" using map_of_member [OF f(2)] by simp
    have v: "(os_target_id t, sg') \<in> set (targets_of es) \<longleftrightarrow> sg = sg'" for sg'
      unfolding map_of_member [OF f(2), symmetric] sg by auto
    have fo: "follows es (OrderSubmitted t) \<longleftrightarrow> os_client_order_id t \<notin> ss_submitted_orders s
        \<and> os_native_order_id t \<notin> ss_native_order_ids s \<and> os_target_id t \<notin> ss_submitted_targets s
        \<and> sg = os_source_signal_ids t \<and> dec_eq q (os_quantity t)"
      unfolding f(6,8,9) by (simp add: u v)
    have put: "dict_put (os_client_order_id t) (os_side t, os_quantity t, os_native_order_id t) (ss_order_facts s) =
        ss_order_facts s @ [order_fact t]" if "os_client_order_id t \<notin> ss_submitted_orders s"
      using that unfolding f(6,11) order_fact_def by (subst dict_put_new) (auto simp: image_iff)
    show ?thesis
    proof (cases "follows es (OrderSubmitted t)")
      case True
      note c = True [unfolded fo]
      have "scan_order s t = Inr ?r"
        unfolding scan_order_def Let_def f(1,3) Some sg by (simp add: put [OF conjunct1 [OF c]] c q(2))
      then show ?thesis using True by (simp add: eq_commute)
    next
      case False
      then have "scan_order s t \<noteq> Inr s'"
        unfolding scan_order_def Let_def f(1,3) Some sg fo by (simp add: if_Inl_Inr_iff) blast
      then show ?thesis using False by blast
    qed
  qed
qed

lemma scan_fill_iff:
  assumes "scanned es s"
  shows "scan_fill s t = Inr s' \<longleftrightarrow> follows es (Fill t)
    \<and> s' = s\<lparr>ss_native_fill_ids := insert (pf_native_fill_id t) (ss_native_fill_ids s),
             ss_filled_quantities := (ss_filled_quantities s)(pf_client_order_id t \<mapsto> filled es (pf_client_order_id t) + fraction (pf_quantity t)),
             ss_fill_count := ss_fill_count s + 1\<rparr>"
    (is "_ \<longleftrightarrow> _ \<and> s' = ?r")
proof (cases "pf_client_order_id t \<in> os_client_order_id ` set (orders_of es)")
  case False
  then have "\<not> follows es (Fill t)" by force
  moreover have "scan_fill s t \<noteq> Inr s'" using False unfolding scan_fill_def scanned_parts(6) [OF assms] by simp
  ultimately show ?thesis by blast
next
  case True
  note f = scanned_parts [OF assms]
  from True obtain q where q: "q \<in> set (orders_of es)" "os_client_order_id q = pf_client_order_id t" by force
  then have m: "map_of (ss_order_facts s) (pf_client_order_id t) = Some (os_side q, os_quantity q, os_native_order_id q)"
    unfolding f(11) using order_fact_lookup [OF f(7)] by blast
  have u: "q' = q" if "q' \<in> set (orders_of es)" "os_client_order_id q' = pf_client_order_id t" for q'
    using that q f(7) by (metis distinct_map inj_on_def)
  have fo: "follows es (Fill t) \<longleftrightarrow> pf_native_fill_id t \<notin> ss_native_fill_ids s \<and> os_side q = pf_side t
      \<and> filled es (pf_client_order_id t) + fraction (pf_quantity t) \<le> fraction (os_quantity q)"
    unfolding f(10) follows.simps using q u by blast
  have "scan_fill s t = (if pf_native_fill_id t \<in> ss_native_fill_ids s
      then Inl (ValueError ''fill occurred before order submission'')
      else if pf_side t \<noteq> os_side q \<or> fraction (os_quantity q) < filled es (pf_client_order_id t) + fraction (pf_quantity t)
      then Inl (ValueError ''fill facts do not match the submitted order'') else Inr ?r)"
    unfolding scan_fill_def m f(12) Let_def using True by (simp add: f(6))
  then show ?thesis unfolding fo by (auto simp: not_less split: if_splits)
qed


definition scanned_event :: "p1_event list \<Rightarrow> stream_scan \<Rightarrow> p1_event \<Rightarrow> stream_scan" where
  "scanned_event es s e =
     (case e of
        TargetAccepted t \<Rightarrow> s\<lparr>ss_accepted_targets := ss_accepted_targets s @ [(ta_target_id t, ta_source_signal_ids t)]\<rparr>
      | TargetQuantityPlanned t \<Rightarrow> s\<lparr>ss_planned_targets := ss_planned_targets s @ [(tp_target_id t, tp_quantity t)]\<rparr>
      | OrderSubmitted t \<Rightarrow>
          s\<lparr>ss_submitted_orders := insert (os_client_order_id t) (ss_submitted_orders s),
            ss_native_order_ids := insert (os_native_order_id t) (ss_native_order_ids s),
            ss_submitted_targets := insert (os_target_id t) (ss_submitted_targets s),
            ss_order_facts := ss_order_facts s @ [order_fact t]\<rparr>
      | Fill t \<Rightarrow>
          s\<lparr>ss_native_fill_ids := insert (pf_native_fill_id t) (ss_native_fill_ids s),
            ss_filled_quantities := (ss_filled_quantities s)(pf_client_order_id t \<mapsto> filled es (pf_client_order_id t) + fraction (pf_quantity t)),
            ss_fill_count := ss_fill_count s + 1\<rparr>
      | PositionObserved t \<Rightarrow> s\<lparr>ss_position_count := ss_position_count s + 1, ss_last_position := Some t\<rparr>
      | AccountObserved t \<Rightarrow> s\<lparr>ss_account_count := ss_account_count s + 1, ss_last_account := Some t\<rparr>
      | _ \<Rightarrow> s)"

lemma scan_event_iff:
  assumes "scanned es s"
  shows "scan_event s e = Inr s' \<longleftrightarrow> follows es e \<and> s' = scanned_event es s e"
proof (cases e)
  case (OrderSubmitted t)
  then show ?thesis using scan_order_iff [OF assms] by (simp only: scan_event.simps scanned_event_def p1_event.case)
next
  case (Fill t)
  then show ?thesis using scan_fill_iff [OF assms] by (simp only: scan_event.simps scanned_event_def p1_event.case)
next
  case (TargetAccepted t)
  then show ?thesis using scanned_parts(1) [OF assms] by (auto simp: scanned_event_def dict_put_new)
next
  case (TargetQuantityPlanned t)
  then show ?thesis using scanned_parts(1,3) [OF assms] by (auto simp: scanned_event_def dict_put_new)
qed (auto simp: scanned_event_def)

lemma single_facts:
  "targets_of [e] = (case e of TargetAccepted t \<Rightarrow> [(ta_target_id t, ta_source_signal_ids t)] | _ \<Rightarrow> [])"
  "plans_of [e] = (case e of TargetQuantityPlanned t \<Rightarrow> [(tp_target_id t, tp_quantity t)] | _ \<Rightarrow> [])"
  "orders_of [e] = (case e of OrderSubmitted t \<Rightarrow> [t] | _ \<Rightarrow> [])" "fills_of [e] = (case e of Fill t \<Rightarrow> [t] | _ \<Rightarrow> [])"
  "positions_of [e] = (case e of PositionObserved t \<Rightarrow> [t] | _ \<Rightarrow> [])"
  "accounts_of [e] = (case e of AccountObserved t \<Rightarrow> [t] | _ \<Rightarrow> [])"
  by (simp_all add: targets_of_def plans_of_def orders_of_def fills_of_def positions_of_def accounts_of_def)

lemma scanned_snoc:
  assumes "scanned es s" "follows es e"
  shows "scanned (es @ [e]) (scanned_event es s e)"
proof -
  note f = scanned_parts [OF assms(1)]
  show ?thesis
  proof (cases e)
    case (Fill t)
    then show ?thesis unfolding scanned_def
      using f assms(2) by (simp add: single_facts scanned_event_def filled_snoc get_filled_def)
  qed (use f assms(2) in \<open>auto simp: scanned_def single_facts scanned_event_def filled_snoc get_filled_def order_fact_def\<close>)
qed

definition at_end :: "datetime \<Rightarrow> p1_event list \<Rightarrow> stream_scan \<Rightarrow> bool" where
  "at_end t es s \<longleftrightarrow> scanned es s \<and> ss_expected s = int (length es) + 2
     \<and> ss_previous_time s = (if es = [] then t else event_time (last es))"

lemma scanned_header [simp]:
  "scanned es (s\<lparr>ss_expected := n, ss_previous_time := t\<rparr>) = scanned es s"
  by (simp add: scanned_def get_filled_def)

lemma scanned_event_header [simp]:
  "ss_expected (scanned_event es s e) = ss_expected s" "ss_previous_time (scanned_event es s e) = ss_previous_time s"
  by (cases e; simp add: scanned_event_def)+

lemma scan_step_iff:
  assumes "at_end t es s" "es = [] \<Longrightarrow> event_time e = t"
  shows "scan_step s e = Inr s' \<longleftrightarrow> next_in_stream es e
    \<and> s' = scanned_event es (s\<lparr>ss_expected := ss_expected s + 1, ss_previous_time := event_time e\<rparr>) e"
proof -
  let ?s = "s\<lparr>ss_expected := ss_expected s + 1, ss_previous_time := event_time e\<rparr>"
  have s: "scanned es ?s" "ss_expected s = int (length es) + 2"
    "ss_previous_time s = (if es = [] then t else event_time (last es))"
    using assms(1) by (simp_all add: at_end_def)
  have "\<not> dt_lt (event_time e) (ss_previous_time s) \<longleftrightarrow> \<not> (es \<noteq> [] \<and> dt_lt (event_time e) (event_time (last es)))"
    using assms(2) s(3) by (auto simp: dt_lt_iff_not_le)
  then show ?thesis unfolding scan_step_def next_in_stream_def if_Inl_Inr_iff scan_event_iff [OF s(1)] using s(2) by auto
qed

lemma scan_step_end:
  assumes "at_end t es s" "es = [] \<Longrightarrow> event_time e = t" "scan_step s e = Inr s'"
  shows "at_end t (es @ [e]) s'"
proof -
  let ?s = "s\<lparr>ss_expected := ss_expected s + 1, ss_previous_time := event_time e\<rparr>"
  from assms(3) have n: "next_in_stream es e" "s' = scanned_event es ?s e"
    using scan_step_iff [OF assms(1,2)] by blast+
  have "scanned es ?s" using assms(1) by (simp add: at_end_def)
  then have "scanned (es @ [e]) s'" unfolding n(2) by (rule scanned_snoc) (use n(1) in \<open>simp add: next_in_stream_def\<close>)
  then show ?thesis using assms(1) n(2) by (simp add: at_end_def)
qed

lemma scan_fold:
  assumes "es \<noteq> [] \<longrightarrow> event_time (hd es) = t"
  shows "(\<exists>s. foldE scan_step (empty_scan t) es = Inr s) \<longleftrightarrow> coherent es"
    and "foldE scan_step (empty_scan t) es = Inr s \<Longrightarrow> at_end t es s"
proof -
  have "((\<exists>s. foldE scan_step (empty_scan t) es = Inr s) \<longleftrightarrow> coherent es)
      \<and> (\<forall>s. foldE scan_step (empty_scan t) es = Inr s \<longrightarrow> at_end t es s)"
    using assms
  proof (induction es rule: rev_induct)
    case Nil
    show ?case by (simp add: at_end_def scanned_def empty_scan_def get_filled_def)
  next
    case (snoc e es)
    have h: "es \<noteq> [] \<longrightarrow> event_time (hd es) = t" "es = [] \<Longrightarrow> event_time e = t" using snoc.prems by (cases es; simp)+
    note ih = snoc.IH [OF h(1)]
    have "(\<exists>s'. scan_step s e = Inr s') \<longleftrightarrow> next_in_stream es e" if "foldE scan_step (empty_scan t) es = Inr s" for s
      using scan_step_iff [of t es s e] ih that h(2) by blast
    then have "(\<exists>s. foldE scan_step (empty_scan t) (es @ [e]) = Inr s) \<longleftrightarrow> coherent (es @ [e])"
      using ih by (auto simp: foldE_append bindE_Inr_iff coherent_snoc)
    moreover have "at_end t (es @ [e]) s'" if "foldE scan_step (empty_scan t) (es @ [e]) = Inr s'" for s'
      using that ih scan_step_end h(2) by (auto simp: foldE_append bindE_Inr_iff)
    ultimately show ?case by blast
  qed
  then show "(\<exists>s. foldE scan_step (empty_scan t) es = Inr s) \<longleftrightarrow> coherent es"
    and "foldE scan_step (empty_scan t) es = Inr s \<Longrightarrow> at_end t es s" by blast+
qed

section \<open>Complete streams\<close>

definition settled :: "p1_event list \<Rightarrow> bool" where
  "settled es \<longleftrightarrow> targets_of es \<noteq> [] \<and> fst ` set (targets_of es) = fst ` set (plans_of es)
     \<and> (\<forall>q \<in> set (orders_of es). filled es (os_client_order_id q) = fraction (os_quantity q))"

definition completed_by :: "p1_codec \<Rightarrow> p1_event list \<Rightarrow> p1_run_started \<Rightarrow> p1_run_completed \<Rightarrow> bool" where
  "completed_by pc es start c \<longleftrightarrow>
     rc_upstream_commit c = rs_upstream_commit start \<and> rc_closure_digest c = rs_closure_digest start
     \<and> rc_target_count c = int (length (targets_of es)) \<and> rc_order_count c = int (length (orders_of es))
     \<and> rc_fill_count c = int (length (fills_of es)) \<and> rc_semantic_digest c = semantic_digest pc es"

text \<open>A complete stream: a run that starts, ends with a position, an account and its completion, and whose facts agree.\<close>

definition complete_stream :: "p1_codec \<Rightarrow> p1_event list \<Rightarrow> bool" where
  "complete_stream pc es \<longleftrightarrow>
     (\<exists>start mid p a c. es = RunStarted start # mid @ [PositionObserved p, AccountObserved a, RunCompleted c]
        \<and> mid \<noteq> [] \<and> \<not> (\<exists>e \<in> set mid. is_run_started e \<or> is_run_completed e)
        \<and> coherent es \<and> settled es \<and> completed_by pc es start c \<and> summary_matches c (Some p) (Some a))"

lemma check_scan_iff:
  assumes "scanned es s"
  shows "check_scan es s = Inr () \<longleftrightarrow> settled es \<and> positions_of es \<noteq> [] \<and> accounts_of es \<noteq> []
    \<and> (\<exists>p a. es ! (length es - 3) = PositionObserved p \<and> es ! (length es - 2) = AccountObserved a)"
proof -
  note f = scanned_parts [OF assms]
  have "(case (es ! (length es - 3), es ! (length es - 2)) of (PositionObserved _, AccountObserved _) \<Rightarrow> True | _ \<Rightarrow> False)
      \<longleftrightarrow> (\<exists>p a. es ! (length es - 3) = PositionObserved p \<and> es ! (length es - 2) = AccountObserved a)"
    by (auto split: p1_event.splits)
  moreover have "list_all (\<lambda>(order_id, _, quantity, _). get_filled s order_id = fraction quantity) (ss_order_facts s)
      \<longleftrightarrow> (\<forall>q \<in> set (orders_of es). filled es (os_client_order_id q) = fraction (os_quantity q))"
    unfolding f(11,12) by (auto simp: list_all_iff order_fact_def)
  ultimately show ?thesis
    unfolding check_scan_def settled_def f(1,3,14,15)
    by (auto simp: bindE_Inr_iff value_error_if_def split: if_splits)
qed

lemma check_completion_iff:
  assumes "scanned es s"
  shows "check_completion pc es s start c = Inr () \<longleftrightarrow> completed_by pc es start c
    \<and> summary_matches c (ss_last_position s) (ss_last_account s)"
proof -
  note f = scanned_parts [OF assms]
  have "card (ss_submitted_orders s) = length (orders_of es)"
    unfolding f(6) using distinct_card [OF f(7)] by simp
  then show ?thesis unfolding check_completion_def completed_by_def f(1,13)
    by (auto simp: bindE_Inr_iff value_error_if_def split: if_splits)
qed


lemma last_three:
  assumes "5 \<le> length es" "hd es = x" "es ! (length es - 3) = p" "es ! (length es - 2) = a" "last es = c"
  obtains mid where "es = x # mid @ [p, a, c]" "mid \<noteq> []"
proof -
  let ?n = "length es"
  have ne: "es \<noteq> []" using assms(1) by auto
  have "es = take (?n - 3) es @ drop (?n - 3) es" by simp
  moreover have "drop (?n - 3) es = [p, a, c]"
  proof -
    have i: "Suc (?n - 3) = ?n - 2" "Suc (?n - 2) = ?n - 1" "?n - 3 < ?n" "?n - 2 < ?n" using assms(1) by auto
    have "drop (?n - 3) es = es ! (?n - 3) # drop (?n - 2) es" "drop (?n - 2) es = es ! (?n - 2) # drop (?n - 1) es"
      using Cons_nth_drop_Suc [OF i(3)] Cons_nth_drop_Suc [OF i(4)] unfolding i(1,2) by simp_all
    moreover have "drop (?n - 1) es = [last es]" using ne by (cases es rule: rev_cases) simp_all
    ultimately show ?thesis using assms(3-5) by simp
  qed
  moreover obtain mid where "take (?n - 3) es = x # mid" "mid \<noteq> []"
  proof -
    have "take (?n - 3) es = hd es # take (?n - 4) (tl es)" using assms(1) ne by (cases es) (simp_all add: take_Cons')
    moreover have "0 < length (take (?n - 4) (tl es))" using assms(1) by simp
    then have "take (?n - 4) (tl es) \<noteq> []" by (rule length_greater_0_conv [THEN iffD1])
    ultimately show thesis using assms(2) that by simp
  qed
  ultimately show thesis using that by (metis append_Cons)
qed


lemma shape_facts:
  assumes "es = RunStarted start # mid @ [PositionObserved p, AccountObserved a, RunCompleted c]"
  shows "last (positions_of es) = p" "last (accounts_of es) = a" "positions_of es \<noteq> []" "accounts_of es \<noteq> []"
    "es ! (length es - 3) = PositionObserved p" "es ! (length es - 2) = AccountObserved a"
proof -
  have s: "es = ((RunStarted start # mid) @ [PositionObserved p, AccountObserved a, RunCompleted c])" using assms by simp
  show "last (positions_of es) = p" "last (accounts_of es) = a" "positions_of es \<noteq> []" "accounts_of es \<noteq> []"
    unfolding s by (simp_all add: positions_of_def accounts_of_def)
  show "es ! (length es - 3) = PositionObserved p" "es ! (length es - 2) = AccountObserved a"
    unfolding assms by (simp_all add: nth_append nth_Cons')
qed

lemma lifecycle_once:
  "length (filter is_run_started (RunStarted s # mid @ [PositionObserved p, AccountObserved a, RunCompleted c])) = 1
   \<and> length (filter is_run_completed (RunStarted s # mid @ [PositionObserved p, AccountObserved a, RunCompleted c])) = 1
   \<longleftrightarrow> \<not> (\<exists>e \<in> set mid. is_run_started e \<or> is_run_completed e)"
  by (auto simp: filter_empty_conv)

lemma stream_body_iff:
  assumes "es = RunStarted start # mid @ [PositionObserved p, AccountObserved a, RunCompleted c]"
  shows "(\<exists>s. foldE scan_step (empty_scan (p1_simulation_time start)) es = Inr s \<and> check_scan es s = Inr ()
      \<and> check_completion pc es s start c = Inr ())
    \<longleftrightarrow> coherent es \<and> settled es \<and> completed_by pc es start c \<and> summary_matches c (Some p) (Some a)"
proof -
  have hd: "es \<noteq> [] \<longrightarrow> event_time (hd es) = p1_simulation_time start" unfolding assms by simp
  note fold = scan_fold [OF hd]
  note sh = shape_facts [OF assms]
  have "check_scan es s = Inr () \<and> check_completion pc es s start c = Inr ()
      \<longleftrightarrow> settled es \<and> completed_by pc es start c \<and> summary_matches c (Some p) (Some a)"
    if "foldE scan_step (empty_scan (p1_simulation_time start)) es = Inr s" for s
  proof -
    have sc: "scanned es s" using fold(2) [OF that] by (simp add: at_end_def)
    show ?thesis
      unfolding check_scan_iff [OF sc] check_completion_iff [OF sc] scanned_parts(16,17) [OF sc] using sh by simp
  qed
  with fold(1) show ?thesis by blast
qed

lemma stream_sound:
  assumes r: "validate_event_stream pc es = Inr r"
  shows "r = es \<and> complete_stream pc es"
proof -
  from r have len: "5 \<le> length es" unfolding validate_event_stream_def by (auto split: if_splits)
  from r obtain start c where h: "hd es = RunStarted start" "last es = RunCompleted c"
    unfolding validate_event_stream_def by (auto split: if_splits p1_event.splits)
  from r len h obtain s where s: "length (filter is_run_started es) = 1 \<and> length (filter is_run_completed es) = 1"
    "foldE scan_step (empty_scan (p1_simulation_time start)) es = Inr s" "check_scan es s = Inr ()"
    "check_completion pc es s start c = Inr ()" and re: "r = es"
    unfolding validate_event_stream_def by (auto simp: bindE_Inr_iff value_error_if_def split: if_splits)
  have ne: "es \<noteq> [] \<longrightarrow> event_time (hd es) = p1_simulation_time start" by (simp add: h(1))
  have "scanned es s" using scan_fold(2) [OF ne s(2)] by (simp add: at_end_def)
  then obtain p a where "es ! (length es - 3) = PositionObserved p" "es ! (length es - 2) = AccountObserved a"
    using check_scan_iff s(3) by blast
  from last_three [OF len h(1) this h(2)] obtain mid where
    es: "es = RunStarted start # mid @ [PositionObserved p, AccountObserved a, RunCompleted c]" "mid \<noteq> []" .
  have "coherent es \<and> settled es \<and> completed_by pc es start c \<and> summary_matches c (Some p) (Some a)"
    using stream_body_iff [OF es(1)] s(2-4) by blast
  moreover have "\<not> (\<exists>e \<in> set mid. is_run_started e \<or> is_run_completed e)" using s(1) lifecycle_once unfolding es(1) by blast
  ultimately show ?thesis unfolding complete_stream_def using re es by blast
qed

lemma stream_complete:
  assumes "complete_stream pc es"
  shows "validate_event_stream pc es = Inr es"
proof -
  from assms obtain start mid p a c where
    es: "es = RunStarted start # mid @ [PositionObserved p, AccountObserved a, RunCompleted c]" "mid \<noteq> []"
    and once: "\<not> (\<exists>e \<in> set mid. is_run_started e \<or> is_run_completed e)"
    and ok: "coherent es \<and> settled es \<and> completed_by pc es start c \<and> summary_matches c (Some p) (Some a)"
    unfolding complete_stream_def by blast
  from ok obtain s where s: "foldE scan_step (empty_scan (p1_simulation_time start)) es = Inr s" "check_scan es s = Inr ()"
    "check_completion pc es s start c = Inr ()" using stream_body_iff [OF es(1)] by blast
  have h: "hd es = RunStarted start" "last es = RunCompleted c" "\<not> length es < 5"
    using es(2) unfolding es(1) by (simp_all add: Suc_le_eq)
  have f: "length (filter is_run_started es) = 1 \<and> length (filter is_run_completed es) = 1"
    unfolding es(1) using once lifecycle_once by blast
  show ?thesis
    unfolding validate_event_stream_def h(1,2) using h(3) f s by (simp add: value_error_if_def)
qed

lemma sum_by_key:
  fixes g :: "'a \<Rightarrow> 'b::comm_monoid_add"
  assumes "distinct ks" "\<forall>f \<in> set fs. key f \<in> set ks"
  shows "sum_list (map g fs) = sum_list (map (\<lambda>k. sum_list (map g (filter (\<lambda>f. key f = k) fs))) ks)"
  using assms(2)
proof (induction fs)
  case (Cons f fs)
  have "sum_list (map (\<lambda>k. if key f = k then g f else 0) ks) = g f"
    using assms(1) Cons.prems by (simp add: sum_list_distinct_conv_sum_set)
  moreover have "sum_list (map (\<lambda>k. sum_list (map g (filter (\<lambda>f. key f = k) (f # fs)))) ks)
      = sum_list (map (\<lambda>k. (if key f = k then g f else 0) + sum_list (map g (filter (\<lambda>f. key f = k) fs))) ks)"
    by (intro arg_cong [where f = sum_list] map_cong) auto
  ultimately show ?case using Cons.IH Cons.prems by (simp add: sum_list_addf)
qed simp

lemma coherent_orders:
  "coherent es \<Longrightarrow> distinct (map os_client_order_id (orders_of es)) \<and> distinct (map os_target_id (orders_of es))
     \<and> distinct (map pf_native_fill_id (fills_of es))
     \<and> (\<forall>q \<in> set (orders_of es). \<exists>p. (os_target_id q, p) \<in> set (plans_of es) \<and> dec_eq p (os_quantity q))
     \<and> (\<forall>f \<in> set (fills_of es). \<exists>q \<in> set (orders_of es). os_client_order_id q = pf_client_order_id f \<and> os_side q = pf_side f)"
proof (induction es rule: rev_induct)
  case (snoc e es)
  then have c: "coherent es" "follows es e" by (simp_all add: coherent_snoc next_in_stream_def)
  note ih = snoc.IH [OF c(1)]
  show ?case
  proof (cases e)
    case (OrderSubmitted t)
    then show ?thesis using ih c(2) by (simp add: single_facts)
  next
    case (Fill t)
    then show ?thesis using ih c(2) by (auto simp: single_facts)
  qed (use ih in \<open>auto simp: single_facts\<close>)
qed simp

definition traded :: "order_side \<Rightarrow> p1_event list \<Rightarrow> rat" where
  "traded d es = sum_list (map (\<lambda>f. fraction (pf_quantity f)) (filter (\<lambda>f. pf_side f = d) (fills_of es)))"

definition ordered :: "order_side \<Rightarrow> p1_event list \<Rightarrow> rat" where
  "ordered d es = sum_list (map (\<lambda>q. fraction (os_quantity q)) (filter (\<lambda>q. os_side q = d) (orders_of es)))"

lemma traded_eq_ordered:
  assumes "coherent es" "settled es"
  shows "traded d es = ordered d es"
proof -
  let ?qs = "filter (\<lambda>q. os_side q = d) (orders_of es)"
  let ?fs = "filter (\<lambda>f. pf_side f = d) (fills_of es)"
  note c = coherent_orders [OF assms(1)]
  have uniq: "q = q'" if "q \<in> set (orders_of es)" "q' \<in> set (orders_of es)" "os_client_order_id q = os_client_order_id q'" for q q'
    using c that by (auto simp: distinct_map inj_on_def)
  have "distinct (map os_client_order_id ?qs)" using c by (simp add: distinct_map_filter)
  moreover have "\<forall>f \<in> set ?fs. pf_client_order_id f \<in> set (map os_client_order_id ?qs)"
  proof
    fix f assume f: "f \<in> set ?fs"
    with c obtain q where "q \<in> set (orders_of es)" "os_client_order_id q = pf_client_order_id f" "os_side q = pf_side f"
      by (auto simp: Ball_def)
    with f show "pf_client_order_id f \<in> set (map os_client_order_id ?qs)" by (auto intro!: rev_image_eqI [of q])
  qed
  ultimately have "traded d es = sum_list (map (\<lambda>k. sum_list (map (\<lambda>f. fraction (pf_quantity f))
      (filter (\<lambda>f. pf_client_order_id f = k) ?fs))) (map os_client_order_id ?qs))"
    unfolding traded_def by (rule sum_by_key)
  also have "\<dots> = sum_list (map (\<lambda>q. filled es (os_client_order_id q)) ?qs)"
  proof -
    have "filter (\<lambda>f. pf_client_order_id f = os_client_order_id q) ?fs = filter (\<lambda>f. pf_client_order_id f = os_client_order_id q) (fills_of es)"
      if "q \<in> set ?qs" for q
    proof -
      have "pf_side f = d" if f: "f \<in> set (fills_of es)" "pf_client_order_id f = os_client_order_id q" for f
      proof -
        from c f(1) obtain q' where "q' \<in> set (orders_of es)" "os_client_order_id q' = pf_client_order_id f" "os_side q' = pf_side f" by blast
        with uniq [of q' q] f(2) \<open>q \<in> set ?qs\<close> show ?thesis by simp
      qed
      then show ?thesis by (auto intro: filter_cong)
    qed
    then show ?thesis unfolding filled_def map_map comp_def by (intro arg_cong [where f = sum_list] map_cong) simp_all
  qed
  also have "\<dots> = ordered d es"
    unfolding ordered_def using assms(2) by (intro arg_cong [where f = sum_list] map_cong) (auto simp: settled_def)
  finally show ?thesis .
qed


section \<open>Properties\<close>

text \<open>
  C29: the stream validation accepts exactly the complete streams and returns them unchanged: one start,
  one completion preceded by the final position and account, contiguous sequence numbers and times that
  do not regress, every event allowed by the events before it, every accepted target planned, every order
  filled exactly, and a completion whose lineage, counters, summary and semantic digest are those of the
  stream.
\<close>

theorem event_stream_accepted_iff: "validate_event_stream pc es = Inr r \<longleftrightarrow> r = es \<and> complete_stream pc es"
  using stream_sound stream_complete by blast

text \<open>
  C30: an accepted stream conserves quantity, order by order: the fills that name an order add up exactly to its
  quantity, no two orders share an id and no fill is counted twice, every fill belongs to a submitted order
  of the same side, and every order carries out the plan of its own target. So on each side the filled
  quantity of the whole run is the ordered quantity.
\<close>

theorem accepted_stream_conserves:
  assumes "validate_event_stream pc es = Inr r"
  shows "(\<forall>q \<in> set (orders_of es).
        sum_list (map (\<lambda>f. fraction (pf_quantity f)) (filter (\<lambda>f. pf_client_order_id f = os_client_order_id q) (fills_of es)))
          = fraction (os_quantity q))
    \<and> distinct (map os_client_order_id (orders_of es)) \<and> distinct (map pf_native_fill_id (fills_of es))
    \<and> (\<forall>f \<in> set (fills_of es). \<exists>q \<in> set (orders_of es). os_client_order_id q = pf_client_order_id f \<and> os_side q = pf_side f)
    \<and> (\<forall>q \<in> set (orders_of es). \<exists>p. (os_target_id q, p) \<in> set (plans_of es) \<and> dec_eq p (os_quantity q))
    \<and> distinct (map os_target_id (orders_of es))
    \<and> traded d es = ordered d es"
proof -
  from stream_sound [OF assms] have c: "coherent es" "settled es" unfolding complete_stream_def by blast+
  from c(2) have "\<forall>q \<in> set (orders_of es). filled es (os_client_order_id q) = fraction (os_quantity q)" by (simp add: settled_def)
  with traded_eq_ordered [OF c] coherent_orders [OF c(1)] show ?thesis unfolding filled_def by blast
qed

definition demo_p1_time :: datetime where
  "demo_p1_time = \<lparr>dt_year = 2026, dt_month = 1, dt_day = 2, dt_hour = 0, dt_minute = 0, dt_second = 0, dt_micro = 0,
     dt_utcoffset = Some 0\<rparr>"

definition demo_p1_codec :: p1_codec where
  "demo_p1_codec = \<lparr>p1c_sha256 = (\<lambda>_. replicate 64 (CHR ''0'')), p1c_dump = (\<lambda>_. [])\<rparr>"

definition demo_stream :: "p1_event list" where
  "demo_stream =
     [RunStarted \<lparr>p1_sequence = 2, p1_simulation_time = demo_p1_time, rs_upstream_commit = replicate 40 (CHR ''a''),
        rs_closure_digest = replicate 64 (CHR ''b''), rs_config_digest = replicate 64 (CHR ''b''),
        rs_catalog_digest = replicate 64 (CHR ''b''), rs_data_digest = replicate 64 (CHR ''b'')\<rparr>,
      TargetAccepted \<lparr>p1_sequence = 3, p1_simulation_time = demo_p1_time, ta_target_id = ''T'', ta_source_signal_ids = [''S''],
        ta_target_weight = dec_int 1\<rparr>,
      TargetQuantityPlanned \<lparr>p1_sequence = 4, p1_simulation_time = demo_p1_time, tp_target_id = ''T'', tp_quantity = dec_int 3\<rparr>,
      OrderSubmitted \<lparr>p1_sequence = 5, p1_simulation_time = demo_p1_time, os_client_order_id = ''C'', os_native_order_id = ''N'',
        os_target_id = ''T'', os_source_signal_ids = [''S''], os_side = BUY, os_quantity = dec_int 3\<rparr>,
      Fill \<lparr>p1_sequence = 6, p1_simulation_time = demo_p1_time, pf_client_order_id = ''C'', pf_native_fill_id = ''F'', pf_side = BUY,
        pf_quantity = dec_int 1, pf_price = dec_int 7, pf_fee = dec_int 0\<rparr>,
      Fill \<lparr>p1_sequence = 7, p1_simulation_time = demo_p1_time, pf_client_order_id = ''C'', pf_native_fill_id = ''G'', pf_side = BUY,
        pf_quantity = dec_int 2, pf_price = dec_int 7, pf_fee = dec_int 0\<rparr>,
      PositionObserved \<lparr>p1_sequence = 8, p1_simulation_time = demo_p1_time, po_quantity = dec_int 3,
        po_average_entry_price = dec_int 7, po_realized_pnl = dec_int 0, po_unrealized_pnl = dec_int 0\<rparr>,
      AccountObserved \<lparr>p1_sequence = 9, p1_simulation_time = demo_p1_time, ao_cash_balance = dec_int 79, ao_fees = dec_int 0,
        ao_realized_pnl = dec_int 0, ao_unrealized_pnl = dec_int 0\<rparr>,
      RunCompleted \<lparr>p1_sequence = 10, p1_simulation_time = demo_p1_time, rc_upstream_commit = replicate 40 (CHR ''a''),
        rc_closure_digest = replicate 64 (CHR ''b''), rc_target_count = 1, rc_order_count = 1, rc_fill_count = 2,
        rc_final_cash = dec_int 79, rc_final_position = dec_int 3, rc_fees = dec_int 0, rc_realized_pnl = dec_int 0,
        rc_unrealized_pnl = dec_int 0, rc_semantic_digest = replicate 64 (CHR ''0'')\<rparr>]"

theorem accepted_stream_conserves_witness:
  "(\<exists>r. validate_event_stream demo_p1_codec demo_stream = Inr r) \<and> mapE mk_p1_event demo_stream = Inr demo_stream
     \<and> sum_list (map (\<lambda>f. fraction (pf_quantity f)) (filter (\<lambda>f. pf_client_order_id f = ''C'') (fills_of demo_stream))) = 3
     \<and> traded BUY demo_stream = 3 \<and> ordered BUY demo_stream = 3"
proof -
  have r: "is_ok (validate_event_stream demo_p1_codec demo_stream)" by code_simp
  have m: "mapE mk_p1_event demo_stream = Inr demo_stream" by code_simp
  have ord: "orders_of demo_stream = [hd (orders_of demo_stream)]" "os_client_order_id (hd (orders_of demo_stream)) = ''C''"
    "fraction (os_quantity (hd (orders_of demo_stream))) = 3" by code_simp+
  then have q: "hd (orders_of demo_stream) \<in> set (orders_of demo_stream)" by (metis list.set_intros(1))
  have "traded BUY demo_stream = 3" by code_simp
  with r m q ord(2,3) accepted_stream_conserves [of demo_p1_codec demo_stream _ BUY] show ?thesis by (force simp: is_ok_iff)
qed

end
