(* ===== verification/Time_Arithmetic.thy ===== *)
theory Time_Arithmetic
  imports Orders
begin

text \<open>
  Differences of UTC times: \<^verbatim>\<open>datetime\<close> subtraction as the standard library defines it, through the
  proleptic Gregorian day number, in microseconds. On calendar dates it agrees with the comparison of the
  fields.
\<close>

section \<open>Day numbers\<close>

definition is_leap :: "nat \<Rightarrow> bool" where
  "is_leap y = (y mod 4 = 0 \<and> (y mod 100 \<noteq> 0 \<or> y mod 400 = 0))"

definition days_in_month :: "nat \<Rightarrow> nat \<Rightarrow> nat" where
  "days_in_month y m = (if m = 2 then (if is_leap y then 29 else 28) else if m \<in> {4, 6, 9, 11} then 30 else 31)"

definition days_before_year :: "nat \<Rightarrow> nat" where
  "days_before_year year = (let y = year - 1 in y * 365 + y div 4 - y div 100 + y div 400)"

definition days_before_month :: "nat \<Rightarrow> nat \<Rightarrow> nat" where
  "days_before_month y m = sum_list (map (days_in_month y) [1..<m])"

definition to_ordinal :: "datetime \<Rightarrow> nat" where
  "to_ordinal d = days_before_year (dt_year d) + days_before_month (dt_year d) (dt_month d) + dt_day d"

definition time_of_day :: "datetime \<Rightarrow> nat" where
  "time_of_day d = ((dt_hour d * 60 + dt_minute d) * 60 + dt_second d) * 1000000 + dt_micro d"

definition dt_micros :: "datetime \<Rightarrow> nat" where
  "dt_micros d = to_ordinal d * 86400000000 + time_of_day d"

text \<open>\<open>a - b\<close> of two UTC times, in microseconds.\<close>

definition dt_diff :: "datetime \<Rightarrow> datetime \<Rightarrow> int" where
  "dt_diff a b = int (dt_micros a) - int (dt_micros b)"

definition seconds :: "int \<Rightarrow> int" where
  "seconds n = n * 1000000"

section \<open>The day number is the order of dates\<close>

definition calendar_time :: "datetime \<Rightarrow> bool" where
  "calendar_time d =
     (1 \<le> dt_year d \<and> 1 \<le> dt_month d \<and> dt_month d \<le> 12 \<and> 1 \<le> dt_day d \<and> dt_day d \<le> days_in_month (dt_year d) (dt_month d)
      \<and> dt_hour d < 24 \<and> dt_minute d < 60 \<and> dt_second d < 60 \<and> dt_micro d < 1000000)"

lemma days_before_month_step: "1 \<le> m \<Longrightarrow> days_before_month y (Suc m) = days_before_month y m + days_in_month y m"
  by (simp add: days_before_month_def)

lemma days_before_month_mono: "1 \<le> m \<Longrightarrow> m \<le> n \<Longrightarrow> days_before_month y m \<le> days_before_month y n"
  by (induction n) (auto simp: le_Suc_eq days_before_month_step)

lemma days_in_year: "days_before_month y 13 = (if is_leap y then 366 else 365)"
proof -
  have "[1..<13] = [1, 2, 3, 4, 5, 6, 7, 8, 9, 10, 11, 12::nat]" by (simp add: upt_conv_Cons)
  then show ?thesis by (simp add: days_before_month_def days_in_month_def)
qed

lemma div_Suc_step: "0 < n \<Longrightarrow> Suc y div n = y div n + (if Suc y mod n = 0 then 1 else 0)"
  by (simp add: div_Suc)

lemma leap_count:
  fixes a b c z :: nat
  assumes "b \<le> a" "p400 \<longrightarrow> p100" "p100 \<longrightarrow> p4"
  shows "Suc z * 365 + (a + of_bool p4) - (b + of_bool p100) + (c + of_bool p400)
    = z * 365 + a - b + c + (if p4 \<and> (\<not> p100 \<or> p400) then 366 else 365)"
  using assms by (cases p4; cases p100; cases p400) auto

lemma days_before_year_step:
  assumes "1 \<le> y"
  shows "days_before_year (Suc y) = days_before_year y + (if is_leap y then 366 else 365)"
proof -
  obtain z where y: "y = Suc z" using assms by (cases y) auto
  have dv: "z div 100 \<le> z div 4" by (rule div_le_mono2) simp_all
  have m: "y mod 400 = 0 \<longrightarrow> y mod 100 = 0" "y mod 100 = 0 \<longrightarrow> y mod 4 = 0"
    using mod_mod_cancel [of 100 400 y] mod_mod_cancel [of 4 100 y] by auto
  have e: "y div 4 = z div 4 + of_bool (y mod 4 = 0)" "y div 100 = z div 100 + of_bool (y mod 100 = 0)"
    "y div 400 = z div 400 + of_bool (y mod 400 = 0)"
    unfolding y by (simp_all only: div_Suc_step zero_less_numeral of_bool_def)
  show ?thesis
    unfolding days_before_year_def is_leap_def Let_def diff_Suc_1 e
    using leap_count [OF dv m, of z "z div 400"] by (simp only: y diff_Suc_1)
qed

lemma days_before_year_mono:
  assumes "1 \<le> y" "y \<le> z"
  shows "days_before_year y \<le> days_before_year z"
  using assms(2)
proof (induction z)
  case (Suc z)
  then show ?case using days_before_year_step [of z] assms(1) by (cases "y = Suc z") auto
qed (use assms in simp)

lemma day_bounds:
  assumes "calendar_time d"
  shows "days_before_year (dt_year d) < to_ordinal d" "to_ordinal d \<le> days_before_year (Suc (dt_year d))"
proof -
  have c: "1 \<le> dt_year d" "1 \<le> dt_month d" "dt_month d \<le> 12" "1 \<le> dt_day d" "dt_day d \<le> days_in_month (dt_year d) (dt_month d)"
    using assms by (simp_all add: calendar_time_def)
  show "days_before_year (dt_year d) < to_ordinal d" using c by (simp add: to_ordinal_def)
  have "days_before_month (dt_year d) (dt_month d) + dt_day d \<le> days_before_month (dt_year d) (Suc (dt_month d))"
    using days_before_month_step [OF c(2)] c(5) by simp
  also have "\<dots> \<le> days_before_month (dt_year d) 13" using c(3) by (intro days_before_month_mono) simp_all
  finally show "to_ordinal d \<le> days_before_year (Suc (dt_year d))"
    using days_in_year [of "dt_year d"] days_before_year_step [OF c(1)] by (simp add: to_ordinal_def)
qed

lemma to_ordinal_less:
  assumes "calendar_time a" "calendar_time b" "(dt_year a, dt_month a, dt_day a) < (dt_year b, dt_month b, dt_day b)"
  shows "to_ordinal a < to_ordinal b"
proof (cases "dt_year a < dt_year b")
  case True
  have "to_ordinal a \<le> days_before_year (dt_year b)"
    using day_bounds(2) [OF assms(1)] days_before_year_mono [of "Suc (dt_year a)" "dt_year b"] True by simp
  also have "\<dots> < to_ordinal b" by (rule day_bounds(1) [OF assms(2)])
  finally show ?thesis .
next
  case False
  with assms(3) have y: "dt_year a = dt_year b" and m: "dt_month a < dt_month b \<or> dt_month a = dt_month b \<and> dt_day a < dt_day b"
    by auto
  show ?thesis
  proof (cases "dt_month a < dt_month b")
    case True
    have "days_before_month (dt_year a) (dt_month a) + dt_day a \<le> days_before_month (dt_year a) (Suc (dt_month a))"
      using assms(1) days_before_month_step [of "dt_month a"] by (simp add: calendar_time_def)
    also have "\<dots> \<le> days_before_month (dt_year a) (dt_month b)" using True by (intro days_before_month_mono) simp_all
    finally show ?thesis using y assms(2) by (simp add: to_ordinal_def calendar_time_def)
  next
    case False
    with m y show ?thesis by (simp add: to_ordinal_def)
  qed
qed

lemma time_of_day_less:
  assumes "calendar_time d"
  shows "time_of_day d < 86400000000"
proof -
  have c: "dt_hour d \<le> 23" "dt_minute d \<le> 59" "dt_second d \<le> 59" "dt_micro d \<le> 999999"
    using assms by (simp_all add: calendar_time_def)
  then show ?thesis unfolding time_of_day_def add_mult_distrib by simp
qed

lemma time_of_day_order:
  assumes "calendar_time a" "calendar_time b"
    and "(dt_hour a, dt_minute a, dt_second a, dt_micro a) < (dt_hour b, dt_minute b, dt_second b, dt_micro b)"
  shows "time_of_day a < time_of_day b"
proof -
  have c: "dt_minute a \<le> 59" "dt_second a \<le> 59" "dt_micro a \<le> 999999" using assms(1) by (simp_all add: calendar_time_def)
  from assms(3) have "dt_hour a < dt_hour b \<or> dt_hour a = dt_hour b \<and> (dt_minute a < dt_minute b
      \<or> dt_minute a = dt_minute b \<and> (dt_second a < dt_second b \<or> dt_second a = dt_second b \<and> dt_micro a < dt_micro b))"
    by auto
  with c show ?thesis unfolding time_of_day_def add_mult_distrib mult.assoc by (elim disjE conjE) simp_all
qed

lemma dt_micros_less:
  assumes "calendar_time a" "calendar_time b" "dt_lt a b"
  shows "dt_micros a < dt_micros b"
proof -
  let ?date = "\<lambda>d. (dt_year d, dt_month d, dt_day d)"
  let ?time = "\<lambda>d. (dt_hour d, dt_minute d, dt_second d, dt_micro d)"
  from assms(3) consider "?date a < ?date b" | "?date a = ?date b" "?time a < ?time b"
    unfolding dt_lt_def dt_key_def less_prod_simp prod.inject by fastforce
  then show ?thesis
  proof cases
    case 1
    from to_ordinal_less [OF assms(1,2) 1] time_of_day_less [OF assms(1)] show ?thesis
      unfolding dt_micros_def by linarith
  next
    case 2
    then have "to_ordinal a = to_ordinal b" by (simp add: to_ordinal_def)
    with time_of_day_order [OF assms(1,2) 2(2)] show ?thesis by (simp add: dt_micros_def)
  qed
qed

lemma dt_diff_nonneg_iff:
  assumes "calendar_time a" "calendar_time b"
  shows "0 \<le> dt_diff a b \<longleftrightarrow> dt_le b a"
proof -
  have "dt_key a = dt_key b \<Longrightarrow> dt_micros a = dt_micros b"
    by (simp add: dt_key_def dt_micros_def to_ordinal_def time_of_day_def)
  then have "dt_le b a \<Longrightarrow> dt_micros b \<le> dt_micros a"
    using dt_micros_less [OF assms(2,1)] unfolding dt_le_def dt_lt_def le_less [of "dt_key b"] by auto
  moreover have "\<not> dt_le b a \<Longrightarrow> dt_micros a < dt_micros b"
    using dt_micros_less [OF assms] by (simp add: dt_lt_iff_not_le)
  ultimately show ?thesis by (auto simp: dt_diff_def not_less [symmetric])
qed

end
