(* ===== verification/Operator_Policy.thy ===== *)
theory Operator_Policy
  imports Engine_Json Time_Arithmetic
begin

text \<open>
  The policy for operator commands (\<^verbatim>\<open>src/packages/operator_control/contracts.py\<close>, \<^verbatim>\<open>hashing.py\<close> and \<^verbatim>\<open>policy.py\<close>):
  the contracts a command is judged on and the decision, which returns a plan for the files that hold the
  requested mode and the kill switch or refuses with a code and an HTTP status. SHA-256 is a parameter.
  Whether the clock hands out the canonical UTC object is a flag beside the time; of the times inside the
  contracts only the offset is checked here, where the code also asks for that object.
\<close>

section \<open>Contracts\<close>

datatype interface_kind = WEB | CLI

datatype requested_mode = REQ_PAPER | REQ_DRYRUN | REQ_LIVE

datatype source_mode = SRC_PAPER | SRC_DRYRUN | SRC_LIVE | SRC_UNKNOWN

datatype kill_switch_desired = SWITCH_ON | SWITCH_OFF

datatype kill_switch_state = KS_ACTIVE | KS_INACTIVE | KS_UNKNOWN

record operator_actor =
  oa_principal_id :: string
  oa_interface :: interface_kind

datatype operator_command =
    SetRequestedMode requested_mode
  | SetKillSwitch kill_switch_desired "string option"

record operator_request =
  or_command_id :: string
  or_idempotency_key :: string
  or_correlation_id :: string
  or_expected_state_sha256 :: "string option"
  or_command :: operator_command

record operator_source_state =
  ost_requested_mode :: source_mode
  ost_kill_switch_state :: kill_switch_state
  ost_kill_switch_activated_at :: "datetime option"
  ost_kill_switch_reason :: "string option"
  ost_mode_file_sha256 :: "string option"
  ost_kill_switch_file_sha256 :: "string option"
  ost_state_sha256 :: string

record operator_safety_evidence =
  ose_requested_mode :: source_mode
  ose_effective_mode :: source_mode
  ose_live_execution_enabled :: "bool option"
  ose_live_trading_approved :: "bool option"
  ose_kill_switch_state :: kill_switch_state
  ose_observed_at :: datetime
  ose_source_fingerprint :: string
  ose_evidence_sha256 :: string

text \<open>The characters \<^verbatim>\<open>str.strip\<close> removes, among those of the model.\<close>

definition PY_WHITESPACE :: string where
  "PY_WHITESPACE = [CHR '' '', CHR 0x09, CHR 0x0A, CHR 0x0B, CHR 0x0C, CHR 0x0D, CHR 0x1C, CHR 0x1D, CHR 0x1E, CHR 0x1F,
     CHR 0x85, CHR 0xA0]"

definition MAX_KILL_SWITCH_REASON_BYTES :: nat where
  "MAX_KILL_SWITCH_REASON_BYTES = 994"

fun mk_operator_command :: "operator_command \<Rightarrow> operator_command res" where
  "mk_operator_command (SetRequestedMode m) = Inr (SetRequestedMode m)"
| "mk_operator_command (SetKillSwitch SWITCH_OFF reason) =
     wrap_validation (
       if reason \<noteq> None then Inl (ValueError ''reason must be None when clearing the kill switch'')
       else Inr (SetKillSwitch SWITCH_OFF None))"
| "mk_operator_command (SetKillSwitch SWITCH_ON given) =
     wrap_validation (
       let reason = (case given of None \<Rightarrow> [] | Some r \<Rightarrow> strip_chars PY_WHITESPACE r)
       in if \<not> (1 \<le> length reason \<and> length reason \<le> 256) \<or> MAX_KILL_SWITCH_REASON_BYTES < length (utf8 reason)
             \<or> CHR 0x0A \<in> set reason \<or> CHR 0x0D \<in> set reason
          then Inl (ValueError ''reason must contain 1..256 characters after trim'')
          else Inr (SetKillSwitch SWITCH_ON (Some reason)))"

definition command_id_match :: "string \<Rightarrow> bool" where
  "command_id_match s = (take 4 s = ''cmd_'' \<and> lower_hex_match 32 (drop 4 s))"

definition mk_operator_actor :: "operator_actor \<Rightarrow> operator_actor res" where
  "mk_operator_actor a = bindE (require_field ''principal_id'' (producer_identity_match (oa_principal_id a))) (\<lambda>_. Inr a)"

definition mk_operator_request :: "operator_request \<Rightarrow> operator_request res" where
  "mk_operator_request r =
     bindE (require_field ''command_id'' (command_id_match (or_command_id r))) (\<lambda>_.
     bindE (require_field ''idempotency_key'' (producer_identity_match (or_idempotency_key r))) (\<lambda>_.
     bindE (require_field ''correlation_id'' (producer_identity_match (or_correlation_id r))) (\<lambda>_.
     bindE (require_field ''expected_state_sha256'' (optional_ok sha256_hex (or_expected_state_sha256 r))) (\<lambda>_.
     bindE (mk_operator_command (or_command r)) (\<lambda>command.
     Inr (r\<lparr>or_command := command\<rparr>))))))"

definition utc_field :: "datetime \<Rightarrow> bool" where
  "utc_field d = (dt_utcoffset d = Some 0)"

definition mk_operator_source_state :: "operator_source_state \<Rightarrow> operator_source_state res" where
  "mk_operator_source_state s =
     bindE (require_field ''kill_switch_activated_at'' (optional_ok utc_field (ost_kill_switch_activated_at s))) (\<lambda>_.
     bindE (require_field ''mode_file_sha256'' (optional_ok sha256_hex (ost_mode_file_sha256 s))) (\<lambda>_.
     bindE (require_field ''kill_switch_file_sha256'' (optional_ok sha256_hex (ost_kill_switch_file_sha256 s))) (\<lambda>_.
     bindE (require_field ''state_sha256'' (sha256_hex (ost_state_sha256 s))) (\<lambda>_.
     Inr s))))"

definition mk_operator_safety_evidence :: "operator_safety_evidence \<Rightarrow> operator_safety_evidence res" where
  "mk_operator_safety_evidence s =
     bindE (require_field ''observed_at'' (utc_field (ose_observed_at s))) (\<lambda>_.
     bindE (require_field ''source_fingerprint'' (sha256_hex (ose_source_fingerprint s))) (\<lambda>_.
     bindE (require_field ''evidence_sha256'' (sha256_hex (ose_evidence_sha256 s))) (\<lambda>_.
     Inr s)))"

section \<open>Hashes\<close>

fun interface_value :: "interface_kind \<Rightarrow> string" where
  "interface_value WEB = ''WEB''"
| "interface_value CLI = ''CLI''"

fun requested_mode_value :: "requested_mode \<Rightarrow> string" where
  "requested_mode_value REQ_PAPER = ''PAPER''"
| "requested_mode_value REQ_DRYRUN = ''DRYRUN''"
| "requested_mode_value REQ_LIVE = ''LIVE''"

fun kill_switch_desired_value :: "kill_switch_desired \<Rightarrow> string" where
  "kill_switch_desired_value SWITCH_ON = ''ACTIVE''"
| "kill_switch_desired_value SWITCH_OFF = ''INACTIVE''"

definition optional_json :: "string option \<Rightarrow> json" where
  "optional_json v = (case v of None \<Rightarrow> JNull | Some s \<Rightarrow> JString s)"

definition actor_json :: "operator_actor \<Rightarrow> json" where
  "actor_json a = JObject
     [(''schema_version'', JString ''operator-actor-v1''), (''principal_id'', JString (oa_principal_id a)),
      (''interface'', JString (interface_value (oa_interface a)))]"

fun command_json :: "operator_command \<Rightarrow> json" where
  "command_json (SetRequestedMode m) = JObject
     [(''command_type'', JString ''SET_REQUESTED_MODE''), (''desired_mode'', JString (requested_mode_value m))]"
| "command_json (SetKillSwitch d reason) = JObject
     [(''command_type'', JString ''SET_KILL_SWITCH''), (''desired_state'', JString (kill_switch_desired_value d)),
      (''reason'', optional_json reason)]"

definition request_sha256 :: "(string \<Rightarrow> string) \<Rightarrow> operator_actor \<Rightarrow> operator_request \<Rightarrow> string" where
  "request_sha256 sha actor request =
     sha (canonical_json_bytes (JObject
       [(''actor'', actor_json actor), (''command'', command_json (or_command request)),
        (''expected_state_sha256'', optional_json (or_expected_state_sha256 request))]))"

definition reason_sha256 :: "(string \<Rightarrow> string) \<Rightarrow> string \<Rightarrow> string" where
  "reason_sha256 sha value = sha (utf8 (strip_chars PY_WHITESPACE value))"

section \<open>Decisions\<close>

datatype plan_operation = NO_CHANGE | WRITE_MODE | WRITE_KILL_SWITCH | CLEAR_KILL_SWITCH

record mutation_plan =
  mp_request_sha256 :: string
  mp_operation :: plan_operation
  mp_outcome_code :: string
  mp_prior_state_sha256 :: string
  mp_expected_state_sha256 :: "string option"
  mp_safety_evidence_sha256 :: "string option"
  mp_reason_sha256 :: "string option"
  mp_desired_mode_bytes :: "string option"
  mp_desired_kill_switch_bytes :: "string option"
  mp_desired_file_sha256 :: "string option"

definition reject :: "string \<Rightarrow> int \<Rightarrow> 'a res" where
  "reject code status = Inl (OperatorCommandRejected code status)"

definition file_digest :: "(string \<Rightarrow> string) \<Rightarrow> string option \<Rightarrow> string option" where
  "file_digest sha payload = map_option sha payload"

definition or_option :: "'a option \<Rightarrow> 'a option \<Rightarrow> 'a option" where
  "or_option a b = (case a of None \<Rightarrow> b | Some _ \<Rightarrow> a)"

definition plan ::
  "(string \<Rightarrow> string) \<Rightarrow> operator_actor \<Rightarrow> operator_request \<Rightarrow> operator_source_state \<Rightarrow> plan_operation \<Rightarrow> string
    \<Rightarrow> operator_safety_evidence option \<Rightarrow> string option \<Rightarrow> string option \<Rightarrow> string option \<Rightarrow> string option \<Rightarrow> mutation_plan" where
  "plan sha actor request current operation outcome_code safety reason_digest mode_bytes kill_bytes desired_digest =
     (let desired = or_option mode_bytes kill_bytes
      in \<lparr>mp_request_sha256 = request_sha256 sha actor request, mp_operation = operation, mp_outcome_code = outcome_code,
          mp_prior_state_sha256 = ost_state_sha256 current, mp_expected_state_sha256 = or_expected_state_sha256 request,
          mp_safety_evidence_sha256 = map_option ose_evidence_sha256 safety, mp_reason_sha256 = reason_digest,
          mp_desired_mode_bytes = mode_bytes, mp_desired_kill_switch_bytes = kill_bytes,
          mp_desired_file_sha256 = (if desired_digest = None \<or> desired_digest = Some [] then file_digest sha desired else desired_digest)\<rparr>)"

definition check_expected :: "operator_request \<Rightarrow> operator_source_state \<Rightarrow> unit res" where
  "check_expected request current =
     (case or_expected_state_sha256 request of
        None \<Rightarrow> Inr ()
      | Some expected \<Rightarrow>
          if expected \<noteq> ost_state_sha256 current then reject ''EXPECTED_STATE_CONFLICT'' 409 else Inr ())"

definition decide_mode ::
  "(string \<Rightarrow> string) \<Rightarrow> operator_actor \<Rightarrow> operator_request \<Rightarrow> operator_source_state \<Rightarrow> requested_mode \<Rightarrow> mutation_plan res" where
  "decide_mode sha actor request current desired_mode =
     (if oa_interface actor \<noteq> CLI then reject ''CAPABILITY_FORBIDDEN'' 403
      else if desired_mode = REQ_DRYRUN then reject ''PAPER_ONLY_RELEASE'' 403
      else if desired_mode = REQ_LIVE then reject ''LIVE_EXECUTION_DISABLED'' 403
      else
        bindE (check_expected request current) (\<lambda>_.
        if ost_requested_mode current = SRC_PAPER
        then (if ost_mode_file_sha256 current = None then reject ''SOURCE_STATE_UNKNOWN'' 503
              else Inr (plan sha actor request current NO_CHANGE ''MODE_ALREADY_PAPER'' None None None None
                     (ost_mode_file_sha256 current)))
        else Inr (plan sha actor request current WRITE_MODE ''MODE_SET_PAPER'' None None
                    (Some (''paper'' @ [CHR 0x0A])) None None)))"

definition SAFETY_EVIDENCE_MAX_AGE :: int where
  "SAFETY_EVIDENCE_MAX_AGE = seconds 6"

definition clear_is_unsafe :: "datetime \<Rightarrow> operator_safety_evidence \<Rightarrow> bool" where
  "clear_is_unsafe accepted_at safety =
     (let age = dt_diff accepted_at (ose_observed_at safety)
      in age < 0 \<or> SAFETY_EVIDENCE_MAX_AGE \<le> age \<or> ose_requested_mode safety \<noteq> SRC_PAPER
         \<or> ose_effective_mode safety \<noteq> SRC_PAPER \<or> ose_live_execution_enabled safety \<noteq> Some False
         \<or> ose_live_trading_approved safety \<noteq> Some False \<or> ose_kill_switch_state safety \<noteq> KS_ACTIVE)"

text \<open>\<^verbatim>\<open>isoformat\<close> of a UTC time with the suffix Z: the fraction is written when it is not zero.\<close>

definition iso_utc_text :: "datetime \<Rightarrow> string" where
  "iso_utc_text d =
     padded 4 (dt_year d) @ ''-'' @ padded 2 (dt_month d) @ ''-'' @ padded 2 (dt_day d) @ ''T''
     @ padded 2 (dt_hour d) @ '':'' @ padded 2 (dt_minute d) @ '':'' @ padded 2 (dt_second d)
     @ (if dt_micro d = 0 then [] else ''.'' @ padded 6 (dt_micro d)) @ ''Z''"

definition decide_kill_switch ::
  "(string \<Rightarrow> string) \<Rightarrow> operator_actor \<Rightarrow> operator_request \<Rightarrow> operator_source_state \<Rightarrow> datetime
    \<Rightarrow> operator_safety_evidence option \<Rightarrow> kill_switch_desired \<Rightarrow> string option \<Rightarrow> mutation_plan res" where
  "decide_kill_switch sha actor request current accepted_at safety desired_state reason =
     (if desired_state = SWITCH_OFF \<and> oa_interface actor \<noteq> CLI then reject ''CAPABILITY_FORBIDDEN'' 403
      else if desired_state = SWITCH_OFF \<and> or_expected_state_sha256 request = None then reject ''EXPECTED_STATE_REQUIRED'' 409
      else
        bindE (check_expected request current) (\<lambda>_.
        if ost_kill_switch_state current = KS_UNKNOWN then reject ''SOURCE_STATE_UNKNOWN'' 503
        else if desired_state = SWITCH_ON
        then
          (if ost_kill_switch_state current = KS_ACTIVE
           then (if ost_kill_switch_file_sha256 current = None then reject ''SOURCE_STATE_UNKNOWN'' 503
                 else Inr (plan sha actor request current NO_CHANGE ''KILL_SWITCH_ALREADY_ACTIVE'' None None None None
                        (ost_kill_switch_file_sha256 current)))
           else
             (case reason of
                None \<Rightarrow> Inl AssertionError
              | Some r \<Rightarrow>
                  Inr (plan sha actor request current WRITE_KILL_SWITCH ''KILL_SWITCH_ACTIVATED'' None
                         (Some (reason_sha256 sha r)) None
                         (Some (iso_utc_text accepted_at @ '': '' @ utf8 r @ [CHR 0x0A])) None)))
        else if ost_kill_switch_state current \<noteq> KS_ACTIVE then reject ''KILL_SWITCH_NOT_ACTIVE'' 409
        else if ost_kill_switch_file_sha256 current = None then reject ''SOURCE_STATE_UNKNOWN'' 503
        else
          (case safety of
             None \<Rightarrow> reject ''SAFETY_EVIDENCE_REQUIRED'' 503
           | Some evidence \<Rightarrow>
               if clear_is_unsafe accepted_at evidence then reject ''KILL_SWITCH_CLEAR_UNSAFE'' 409
               else Inr (plan sha actor request current CLEAR_KILL_SWITCH ''KILL_SWITCH_CLEARED'' (Some evidence) None None None
                      (ost_kill_switch_file_sha256 current)))))"

definition decide_operator_command ::
  "(string \<Rightarrow> string) \<Rightarrow> operator_actor \<Rightarrow> operator_request \<Rightarrow> operator_source_state \<Rightarrow> datetime \<Rightarrow> bool
    \<Rightarrow> operator_safety_evidence option \<Rightarrow> mutation_plan res" where
  "decide_operator_command sha actor request current accepted_at tzinfo_is_utc safety =
     (if \<not> tzinfo_is_utc then reject ''OPERATOR_CLOCK_INVALID'' 503
      else case or_command request of
             SetRequestedMode desired_mode \<Rightarrow> decide_mode sha actor request current desired_mode
           | SetKillSwitch desired_state reason \<Rightarrow>
               decide_kill_switch sha actor request current accepted_at safety desired_state reason)"

section \<open>Properties\<close>

lemma plan_simps [simp]:
  "mp_operation (plan sha a r c op code s rd mb kb d) = op" "mp_outcome_code (plan sha a r c op code s rd mb kb d) = code"
  "mp_desired_mode_bytes (plan sha a r c op code s rd mb kb d) = mb"
  "mp_desired_kill_switch_bytes (plan sha a r c op code s rd mb kb d) = kb"
  "mp_prior_state_sha256 (plan sha a r c op code s rd mb kb d) = ost_state_sha256 c"
  "mp_safety_evidence_sha256 (plan sha a r c op code s rd mb kb d) = map_option ose_evidence_sha256 s"
  by (simp_all add: plan_def Let_def)

lemma check_expected_iff:
  "check_expected r c = Inr u \<longleftrightarrow> or_expected_state_sha256 r = None \<or> or_expected_state_sha256 r = Some (ost_state_sha256 c)"
  by (auto simp: check_expected_def reject_def split: option.splits)

lemma reject_neq [simp]: "reject code n \<noteq> Inr x" "Inr x \<noteq> reject code n"
  by (simp_all add: reject_def)

lemma decide_mode_Inr:
  assumes "decide_mode sha actor request current m = Inr p"
  shows "oa_interface actor = CLI" "m = REQ_PAPER"
    "or_expected_state_sha256 request = None \<or> or_expected_state_sha256 request = Some (ost_state_sha256 current)"
    "mp_operation p = NO_CHANGE \<and> ost_requested_mode current = SRC_PAPER \<and> mp_desired_mode_bytes p = None
     \<or> mp_operation p = WRITE_MODE \<and> ost_requested_mode current \<noteq> SRC_PAPER \<and> mp_desired_mode_bytes p = Some (''paper'' @ [CHR 0x0A])"
    "mp_desired_kill_switch_bytes p = None"
proof -
  show "oa_interface actor = CLI" "m = REQ_PAPER"
    using assms by (cases m; auto simp: decide_mode_def split: if_splits)+
  with assms have d: "bindE (check_expected request current) (\<lambda>_.
        if ost_requested_mode current = SRC_PAPER
        then (if ost_mode_file_sha256 current = None then reject ''SOURCE_STATE_UNKNOWN'' 503
              else Inr (plan sha actor request current NO_CHANGE ''MODE_ALREADY_PAPER'' None None None None
                     (ost_mode_file_sha256 current)))
        else Inr (plan sha actor request current WRITE_MODE ''MODE_SET_PAPER'' None None
                    (Some (''paper'' @ [CHR 0x0A])) None None)) = Inr p" by (simp add: decide_mode_def)
  then show "or_expected_state_sha256 request = None \<or> or_expected_state_sha256 request = Some (ost_state_sha256 current)"
    "mp_operation p = NO_CHANGE \<and> ost_requested_mode current = SRC_PAPER \<and> mp_desired_mode_bytes p = None
     \<or> mp_operation p = WRITE_MODE \<and> ost_requested_mode current \<noteq> SRC_PAPER \<and> mp_desired_mode_bytes p = Some (''paper'' @ [CHR 0x0A])"
    "mp_desired_kill_switch_bytes p = None"
    by (auto simp: bindE_Inr_iff check_expected_iff split: if_splits)
qed


lemma decide_kill_switch_on:
  assumes "decide_kill_switch sha actor request current t safety SWITCH_ON reason = Inr p"
  shows "or_expected_state_sha256 request = None \<or> or_expected_state_sha256 request = Some (ost_state_sha256 current)"
    "mp_desired_mode_bytes p = None"
    "mp_operation p = NO_CHANGE \<and> ost_kill_switch_state current = KS_ACTIVE \<and> mp_desired_kill_switch_bytes p = None
     \<or> mp_operation p = WRITE_KILL_SWITCH \<and> ost_kill_switch_state current = KS_INACTIVE
       \<and> (\<exists>r. reason = Some r \<and> mp_desired_kill_switch_bytes p = Some (iso_utc_text t @ '': '' @ utf8 r @ [CHR 0x0A]))"
  using assms unfolding decide_kill_switch_def
  by (cases "ost_kill_switch_state current"; auto simp: bindE_Inr_iff check_expected_iff split: if_splits option.splits)+

lemma decide_kill_switch_off:
  "decide_kill_switch sha actor request current t safety SWITCH_OFF reason = Inr p \<longleftrightarrow>
     oa_interface actor = CLI \<and> or_expected_state_sha256 request = Some (ost_state_sha256 current)
     \<and> ost_kill_switch_state current = KS_ACTIVE \<and> ost_kill_switch_file_sha256 current \<noteq> None
     \<and> (\<exists>s. safety = Some s \<and> \<not> clear_is_unsafe t s
          \<and> p = plan sha actor request current CLEAR_KILL_SWITCH ''KILL_SWITCH_CLEARED'' (Some s) None None None
                  (ost_kill_switch_file_sha256 current))"
  unfolding decide_kill_switch_def
  by (cases safety; cases "or_expected_state_sha256 request"; cases "ost_kill_switch_state current")
    (auto simp: bindE_Inr_iff check_expected_iff split: if_splits)

lemma clear_is_safe_iff:
  "\<not> clear_is_unsafe t s \<longleftrightarrow>
     0 \<le> dt_diff t (ose_observed_at s) \<and> dt_diff t (ose_observed_at s) < seconds 6
     \<and> ose_requested_mode s = SRC_PAPER \<and> ose_effective_mode s = SRC_PAPER
     \<and> ose_live_execution_enabled s = Some False \<and> ose_live_trading_approved s = Some False \<and> ose_kill_switch_state s = KS_ACTIVE"
  by (auto simp: clear_is_unsafe_def Let_def SAFETY_EVIDENCE_MAX_AGE_def)

text \<open>
  C27: the kill switch is cleared exactly when it is safe: a plan to clear it is made if and only if the
  clock is canonical, the command line asks for it with the hash of the current state as its
  precondition, the switch is known to be active, and the safety evidence is less than six seconds old,
  not from the future, and shows paper mode, live trading disabled and not approved, and an active switch.
\<close>

theorem kill_switch_cleared_iff:
  "(\<exists>p. decide_operator_command sha actor request current t utc safety = Inr p \<and> mp_operation p = CLEAR_KILL_SWITCH) \<longleftrightarrow>
     utc \<and> (\<exists>reason. or_command request = SetKillSwitch SWITCH_OFF reason) \<and> oa_interface actor = CLI
     \<and> or_expected_state_sha256 request = Some (ost_state_sha256 current)
     \<and> ost_kill_switch_state current = KS_ACTIVE \<and> ost_kill_switch_file_sha256 current \<noteq> None
     \<and> (\<exists>s. safety = Some s \<and> 0 \<le> dt_diff t (ose_observed_at s) \<and> dt_diff t (ose_observed_at s) < seconds 6
          \<and> ose_requested_mode s = SRC_PAPER \<and> ose_effective_mode s = SRC_PAPER
          \<and> ose_live_execution_enabled s = Some False \<and> ose_live_trading_approved s = Some False
          \<and> ose_kill_switch_state s = KS_ACTIVE)"
proof (cases "or_command request")
  case (SetRequestedMode m)
  have "mp_operation p \<noteq> CLEAR_KILL_SWITCH" if "decide_mode sha actor request current m = Inr p" for p
    using decide_mode_Inr(4) [OF that] by auto
  with SetRequestedMode show ?thesis by (auto simp: decide_operator_command_def)
next
  case (SetKillSwitch d reason)
  show ?thesis
  proof (cases d)
    case SWITCH_ON
    have "mp_operation p \<noteq> CLEAR_KILL_SWITCH"
      if "decide_kill_switch sha actor request current t safety SWITCH_ON reason = Inr p" for p
      using decide_kill_switch_on(3) [OF that] by auto
    with SetKillSwitch SWITCH_ON show ?thesis by (auto simp: decide_operator_command_def)
  next
    case SWITCH_OFF
    then show ?thesis using SetKillSwitch
      by (auto simp: decide_operator_command_def decide_kill_switch_off clear_is_safe_iff)
  qed
qed

text \<open>
  C28: every accepted plan fails safe: the only mode ever written is paper, a plan rests on the state the
  operator expected, a web client can only turn the kill switch on, and the switch is turned off or
  overwritten by no plan but those that say so.
\<close>

theorem operator_plans_fail_safe:
  assumes "decide_operator_command sha actor request current t utc safety = Inr p"
  shows "mp_desired_mode_bytes p \<in> {None, Some (''paper'' @ [CHR 0x0A])}
    \<and> (or_expected_state_sha256 request = None \<or> or_expected_state_sha256 request = Some (ost_state_sha256 current))
    \<and> (oa_interface actor = WEB \<longrightarrow> (\<exists>reason. or_command request = SetKillSwitch SWITCH_ON reason))
    \<and> (\<forall>m. or_command request = SetRequestedMode m \<longrightarrow> m = REQ_PAPER \<and> mp_operation p \<in> {NO_CHANGE, WRITE_MODE})
    \<and> (\<forall>reason. or_command request = SetKillSwitch SWITCH_ON reason \<longrightarrow>
          mp_operation p = (if ost_kill_switch_state current = KS_ACTIVE then NO_CHANGE else WRITE_KILL_SWITCH))
    \<and> (mp_desired_kill_switch_bytes p \<noteq> None \<longrightarrow> mp_operation p = WRITE_KILL_SWITCH)"
proof (cases "or_command request")
  case (SetRequestedMode m)
  then have "decide_mode sha actor request current m = Inr p"
    using assms by (simp add: decide_operator_command_def split: if_splits)
  from decide_mode_Inr [OF this] SetRequestedMode show ?thesis by auto
next
  case (SetKillSwitch d reason)
  then have k: "decide_kill_switch sha actor request current t safety d reason = Inr p"
    using assms by (simp add: decide_operator_command_def split: if_splits)
  show ?thesis
  proof (cases d)
    case SWITCH_ON
    from decide_kill_switch_on [OF k [unfolded SWITCH_ON]] SetKillSwitch SWITCH_ON show ?thesis by auto
  next
    case SWITCH_OFF
    with k SetKillSwitch show ?thesis by (auto simp: decide_kill_switch_off)
  qed
qed

lemma utf8_newline: "CHR 0x0A \<in> set (utf8 s) \<longleftrightarrow> CHR 0x0A \<in> set s"
proof -
  have "CHR 0x0A \<in> set (utf8_char c) \<longleftrightarrow> c = CHR 0x0A" for c
  proof (cases "of_char c < (128::nat)")
    case True
    then show ?thesis by (auto simp: utf8_char_def)
  next
    case False
    have b: "of_char c < (256::nat)" by simp
    then have "of_char c div 64 < (4::nat)" by (simp add: less_mult_imp_div_less)
    then have "192 + of_char c div 64 < (256::nat)" "128 + of_char c mod 64 < (256::nat)"
      using mod_less_divisor [of 64 "of_char c :: nat"] by linarith+
    then have "of_char (char_of (192 + of_char c div 64 :: nat) :: char) = (192 + of_char c div 64 :: nat)"
      "of_char (char_of (128 + of_char c mod 64 :: nat) :: char) = (128 + of_char c mod 64 :: nat)" by simp_all
    then have "CHR 0x0A \<noteq> char_of (192 + of_char c div 64 :: nat)" "CHR 0x0A \<noteq> char_of (128 + of_char c mod 64 :: nat)"
      by (auto dest: arg_cong [where f = "of_char :: char \<Rightarrow> nat"])
    moreover have "c \<noteq> CHR 0x0A" using False by auto
    ultimately show ?thesis using False by (simp add: utf8_char_def Let_def)
  qed
  then show ?thesis by (simp add: utf8_def)
qed


lemma iso_utc_text_parts: "length (iso_utc_text d) \<le> 27" "CHR 0x0A \<notin> set (iso_utc_text d)"
proof -
  show "length (iso_utc_text d) \<le> 27" by (simp add: iso_utc_text_def)
  have "CHR 0x0A \<notin> set (padded w n)" for w n
  proof -
    have "x < 10" if "x \<in> set (frac_digits w n)" for x using frac_digits_lt_10 that by (auto simp: list_all_iff)
    moreover have "digit_char x \<noteq> CHR 0x0A" if "x < 10" for x
      using is_digit_digit_char [OF that] by (auto simp: is_digit_char_def)
    ultimately have "digit_char x \<noteq> CHR 0x0A" if "x \<in> set (frac_digits w n)" for x using that by blast
    then show ?thesis by (auto simp: padded_def eq_commute [of "CHR 0x0A"])
  qed
  then show "CHR 0x0A \<notin> set (iso_utc_text d)" by (auto simp: iso_utc_text_def)
qed

lemma mk_command_reason:
  assumes "mk_operator_command command = Inr (SetKillSwitch SWITCH_ON reason)"
  shows "\<exists>r. reason = Some r \<and> length (utf8 r) \<le> 994 \<and> CHR 0x0A \<notin> set r"
proof -
  from assms obtain given where "command = SetKillSwitch SWITCH_ON given"
    by (cases command rule: mk_operator_command.cases) (auto simp: wrap_Inr_iff split: if_splits)
  with assms show ?thesis
    by (auto simp: wrap_Inr_iff Let_def MAX_KILL_SWITCH_REASON_BYTES_def split: if_splits)
qed

text \<open>
  The file that activates the kill switch is one line of at most 1024 bytes: for every request that
  passed its contract, the planned bytes are the time, a colon, the trimmed reason in UTF-8 and a
  newline, and no newline stands before the end.
\<close>

theorem kill_switch_file_bounded:
  assumes "mk_operator_request submitted = Inr request"
    and "decide_operator_command sha actor request current t utc safety = Inr p"
    and "mp_desired_kill_switch_bytes p = Some bytes"
  shows "length bytes \<le> 1024 \<and> last bytes = CHR 0x0A \<and> CHR 0x0A \<notin> set (butlast bytes)
    \<and> (\<exists>reason. or_command request = SetKillSwitch SWITCH_ON (Some reason) \<and> bytes = iso_utc_text t @ '': '' @ utf8 reason @ [CHR 0x0A])"
proof -
  obtain command where c: "mk_operator_command command = Inr (or_command request)"
    using assms(1) by (auto simp: mk_operator_request_def bindE_Inr_iff)
  obtain reason where k: "or_command request = SetKillSwitch SWITCH_ON reason"
    and d: "decide_kill_switch sha actor request current t safety SWITCH_ON reason = Inr p"
  proof (cases "or_command request")
    case (SetRequestedMode m)
    with assms(2) have "decide_mode sha actor request current m = Inr p" by (simp add: decide_operator_command_def split: if_splits)
    from decide_mode_Inr(5) [OF this] assms(3) show thesis by simp
  next
    case (SetKillSwitch d' reason)
    with assms(2) have "decide_kill_switch sha actor request current t safety d' reason = Inr p"
      by (simp add: decide_operator_command_def split: if_splits)
    with assms(3) SetKillSwitch that show thesis by (cases d') (auto simp: decide_kill_switch_off)
  qed
  from mk_command_reason [OF c [unfolded k]] obtain r where r: "reason = Some r" "length (utf8 r) \<le> 994" "CHR 0x0A \<notin> set r" by blast
  with decide_kill_switch_on(3) [OF d] assms(3) have b: "bytes = iso_utc_text t @ '': '' @ utf8 r @ [CHR 0x0A]" by auto
  have "butlast bytes = iso_utc_text t @ '': '' @ utf8 r" unfolding b by (simp add: butlast_append)
  then show ?thesis using r k iso_utc_text_parts [of t] b by (simp add: utf8_newline)
qed

section \<open>A sample command\<close>

definition demo_sha_text :: string where
  "demo_sha_text = replicate 64 (CHR ''0'')"

definition demo_actor :: "interface_kind \<Rightarrow> operator_actor" where
  "demo_actor i = \<lparr>oa_principal_id = ''ops'', oa_interface = i\<rparr>"

definition demo_activate :: operator_request where
  "demo_activate = \<lparr>or_command_id = ''cmd_'' @ replicate 32 (CHR ''0''), or_idempotency_key = ''k1'', or_correlation_id = ''c1'',
     or_expected_state_sha256 = None, or_command = SetKillSwitch SWITCH_ON (Some ''loss '')\<rparr>"

definition demo_source :: operator_source_state where
  "demo_source = \<lparr>ost_requested_mode = SRC_PAPER, ost_kill_switch_state = KS_INACTIVE, ost_kill_switch_activated_at = None,
     ost_kill_switch_reason = None, ost_mode_file_sha256 = Some demo_sha_text, ost_kill_switch_file_sha256 = None,
     ost_state_sha256 = demo_sha_text\<rparr>"

definition demo_accepted_at :: datetime where
  "demo_accepted_at = \<lparr>dt_year = 2026, dt_month = 1, dt_day = 2, dt_hour = 3, dt_minute = 4, dt_second = 5, dt_micro = 0,
     dt_utcoffset = Some 0\<rparr>"

definition demo_validated :: operator_request where
  "demo_validated = demo_activate\<lparr>or_command := SetKillSwitch SWITCH_ON (Some ''loss'')\<rparr>"

definition demo_plan :: mutation_plan where
  "demo_plan = plan (\<lambda>_. demo_sha_text) (demo_actor WEB) demo_validated demo_source WRITE_KILL_SWITCH ''KILL_SWITCH_ACTIVATED'' None
     (Some demo_sha_text) None (Some (''2026-01-02T03:04:05Z: loss'' @ [CHR 0x0A])) None"

lemma demo_decided:
  "mk_operator_request demo_activate = Inr demo_validated"
  "decide_operator_command (\<lambda>_. demo_sha_text) (demo_actor WEB) demo_validated demo_source demo_accepted_at True None = Inr demo_plan"
  by code_simp+

theorem operator_plans_fail_safe_witness:
  "decide_operator_command (\<lambda>_. demo_sha_text) (demo_actor WEB) demo_validated demo_source demo_accepted_at True None = Inr demo_plan
     \<and> mp_desired_mode_bytes demo_plan = None \<and> mp_operation demo_plan = WRITE_KILL_SWITCH"
  using operator_plans_fail_safe [OF demo_decided(2)] demo_decided(2)
  by (auto simp: demo_plan_def)

theorem kill_switch_file_bounded_witness:
  "\<exists>bytes. mp_desired_kill_switch_bytes demo_plan = Some bytes \<and> length bytes \<le> 1024 \<and> last bytes = CHR 0x0A"
proof -
  obtain bytes where "mp_desired_kill_switch_bytes demo_plan = Some bytes" by (simp add: demo_plan_def)
  with kill_switch_file_bounded [OF demo_decided this] show ?thesis by blast
qed

end
