(* ===== verification/Risk_Decisions.thy ===== *)
theory Risk_Decisions
  imports Portfolio
begin

text \<open>
  The policy risk decision on a target portfolio (\<^verbatim>\<open>src/packages/domain/risk.py\<close>): the observed risk state,
  the closed list of reasons in the order of the checks, and the decision with its validators.
\<close>

section \<open>Outcomes and reasons\<close>

datatype risk_outcome = RISK_APPROVED | RISK_MODIFIED | RISK_REJECTED

datatype risk_reason_code =
    R_WITHIN_LIMITS | R_DATA_STALE | R_SIGNAL_EXPIRED | R_MODEL_NOT_APPROVED | R_PRICE_OUTSIDE_COLLAR
  | R_ORDER_NOTIONAL_LIMIT | R_GROSS_EXPOSURE_LIMIT | R_MARGIN_BUFFER_LIMIT | R_DAILY_LOSS_LIMIT
  | R_VENUE_DEGRADED | R_DUPLICATE_COMMAND | R_GLOBAL_HALT

fun risk_reason_order :: "risk_reason_code \<Rightarrow> nat" where
  "risk_reason_order R_WITHIN_LIMITS = 0"
| "risk_reason_order R_DATA_STALE = 1"
| "risk_reason_order R_SIGNAL_EXPIRED = 2"
| "risk_reason_order R_MODEL_NOT_APPROVED = 3"
| "risk_reason_order R_PRICE_OUTSIDE_COLLAR = 4"
| "risk_reason_order R_ORDER_NOTIONAL_LIMIT = 5"
| "risk_reason_order R_GROSS_EXPOSURE_LIMIT = 6"
| "risk_reason_order R_MARGIN_BUFFER_LIMIT = 7"
| "risk_reason_order R_DAILY_LOSS_LIMIT = 8"
| "risk_reason_order R_VENUE_DEGRADED = 9"
| "risk_reason_order R_DUPLICATE_COMMAND = 10"
| "risk_reason_order R_GLOBAL_HALT = 11"

section \<open>The risk state\<close>

record risk_state_snapshot =
  rk_state_id :: uuid
  rk_portfolio :: portfolio_snapshot
  rk_open_order_ids :: "uuid list"
  rk_kill_switch_engaged :: bool
  rk_observed_at :: datetime
  rk_schema_version :: string

definition valid_risk_state :: "risk_state_snapshot \<Rightarrow> risk_state_snapshot res" where
  "valid_risk_state s =
     bindE (reject_if (length (rk_open_order_ids s) \<noteq> card (set (rk_open_order_ids s))) ''open_order_ids contain duplicates'') (\<lambda>_.
     bindE (reject_if (dt_lt (rk_observed_at s) (pf_observed_at (rk_portfolio s)))
              ''portfolio snapshot must not be observed after risk state'') (\<lambda>_.
     bindE (reject_if (list_ex (\<lambda>p. dt_lt (pf_observed_at (rk_portfolio s)) (ps_observed_at p)) (pf_positions (rk_portfolio s)))
              ''position snapshot must not be observed after portfolio snapshot'') (\<lambda>_.
     Inr s)))"

definition mk_risk_state_snapshot :: "risk_state_snapshot \<Rightarrow> risk_state_snapshot res" where
  "mk_risk_state_snapshot s =
     wrap_validation (
       bindE (mk_portfolio_snapshot (rk_portfolio s)) (\<lambda>portfolio.
       bindE (require_utc (rk_observed_at s)) (\<lambda>_.
       bindE (require_field ''schema_version'' (rk_schema_version s \<noteq> [])) (\<lambda>_.
       valid_risk_state (s\<lparr>rk_portfolio := portfolio\<rparr>)))))"

section \<open>The decision\<close>

record risk_decision =
  rd_decision_id :: uuid
  rd_original_target :: target_portfolio
  rd_approved_target :: "target_portfolio option"
  rd_outcome :: risk_outcome
  rd_reason_codes :: "risk_reason_code list"
  rd_policy_version :: string
  rd_state_snapshot :: risk_state_snapshot
  rd_decided_at :: datetime
  rd_schema_version :: string

text \<open>Model equality compares the weights as numbers and the times as instants.\<close>

definition target_position_eq :: "target_position \<Rightarrow> target_position \<Rightarrow> bool" where
  "target_position_eq a b = (tp_instrument a = tp_instrument b \<and> dec_eq (tp_target_weight a) (tp_target_weight b))"

definition target_portfolio_eq :: "target_portfolio \<Rightarrow> target_portfolio \<Rightarrow> bool" where
  "target_portfolio_eq a b =
     (tg_target_id a = tg_target_id b \<and> list_all2 target_position_eq (tg_positions a) (tg_positions b)
      \<and> tg_source_signal_ids a = tg_source_signal_ids b \<and> dt_key (tg_effective_at a) = dt_key (tg_effective_at b)
      \<and> tg_schema_version a = tg_schema_version b)"

definition canonical_position_targets :: "target_portfolio \<Rightarrow> (string \<times> decimal) list" where
  "canonical_position_targets target =
     sort_key fst (map (\<lambda>p. (canonical (tp_instrument p), tp_target_weight p)) (tg_positions target))"

definition position_targets_eq :: "(string \<times> decimal) list \<Rightarrow> (string \<times> decimal) list \<Rightarrow> bool" where
  "position_targets_eq = list_all2 (\<lambda>(a, x) (b, y). a = b \<and> dec_eq x y)"

definition valid_outcome :: "risk_decision \<Rightarrow> unit res" where
  "valid_outcome d =
     (case rd_outcome d of
        RISK_APPROVED \<Rightarrow>
          bindE (reject_if (case rd_approved_target d of None \<Rightarrow> True | Some t \<Rightarrow> \<not> target_portfolio_eq t (rd_original_target d))
                   ''approved outcome must preserve the original target exactly'') (\<lambda>_.
          reject_if (rd_reason_codes d \<noteq> [R_WITHIN_LIMITS]) ''approved outcome requires only WITHIN_LIMITS'')
      | RISK_MODIFIED \<Rightarrow>
          (case rd_approved_target d of
             None \<Rightarrow> Inl (ValueError ''modified outcome requires an approved target'')
           | Some t \<Rightarrow>
               bindE (reject_if (tg_target_id t = tg_target_id (rd_original_target d))
                        ''modified outcome requires a distinct target identity'') (\<lambda>_.
               bindE (reject_if (position_targets_eq (canonical_position_targets t) (canonical_position_targets (rd_original_target d)))
                        ''modified outcome requires changed target positions'') (\<lambda>_.
               bindE (reject_if (tg_source_signal_ids t \<noteq> tg_source_signal_ids (rd_original_target d)
                                 \<or> dt_key (tg_effective_at t) \<noteq> dt_key (tg_effective_at (rd_original_target d))
                                 \<or> tg_schema_version t \<noteq> tg_schema_version (rd_original_target d))
                        ''modified outcome must preserve target provenance'') (\<lambda>_.
               reject_if (R_WITHIN_LIMITS \<in> set (rd_reason_codes d)) ''modified outcome cannot use WITHIN_LIMITS''))))
      | RISK_REJECTED \<Rightarrow>
          bindE (reject_if (rd_approved_target d \<noteq> None) ''rejected outcome must not contain an approved target'') (\<lambda>_.
          reject_if (R_WITHIN_LIMITS \<in> set (rd_reason_codes d)) ''rejected outcome cannot use WITHIN_LIMITS''))"

definition valid_decision_semantics :: "risk_decision \<Rightarrow> risk_decision res" where
  "valid_decision_semantics d =
     bindE (reject_if (length (rd_reason_codes d) \<noteq> card (set (rd_reason_codes d))) ''reason_codes contain duplicates'') (\<lambda>_.
     bindE (reject_if (sort_key risk_reason_order (rd_reason_codes d) \<noteq> rd_reason_codes d)
              ''reason_codes must follow canonical risk-check order'') (\<lambda>_.
     bindE (valid_outcome d) (\<lambda>_.
     bindE (reject_if (dt_lt (rd_decided_at d) (rk_observed_at (rd_state_snapshot d)))
              ''state snapshot must not be observed after the decision'') (\<lambda>_.
     bindE (reject_if (dt_lt (rd_decided_at d) (tg_effective_at (rd_original_target d)))
              ''original target must not be effective after the decision'') (\<lambda>_.
     let halted = rk_kill_switch_engaged (rd_state_snapshot d);
         has_global_halt = R_GLOBAL_HALT \<in> set (rd_reason_codes d)
     in
     bindE (reject_if (halted \<and> (rd_outcome d \<noteq> RISK_REJECTED \<or> \<not> has_global_halt))
              ''kill switch requires rejection with GLOBAL_HALT'') (\<lambda>_.
     bindE (reject_if (\<not> halted \<and> has_global_halt) ''GLOBAL_HALT requires an engaged kill switch'') (\<lambda>_.
     Inr d)))))))"

definition mk_risk_decision :: "risk_decision \<Rightarrow> risk_decision res" where
  "mk_risk_decision d =
     wrap_validation (
       bindE (mk_target_portfolio (rd_original_target d)) (\<lambda>original.
       bindE (mk_optional mk_target_portfolio (rd_approved_target d)) (\<lambda>approved.
       bindE (require_field ''reason_codes'' (rd_reason_codes d \<noteq> [])) (\<lambda>_.
       bindE (require_field ''policy_version'' (rd_policy_version d \<noteq> [])) (\<lambda>_.
       bindE (mk_risk_state_snapshot (rd_state_snapshot d)) (\<lambda>state.
       bindE (require_utc (rd_decided_at d)) (\<lambda>_.
       bindE (require_field ''schema_version'' (rd_schema_version d \<noteq> [])) (\<lambda>_.
       valid_decision_semantics
         (d\<lparr>rd_original_target := original, rd_approved_target := approved, rd_state_snapshot := state\<rparr>)))))))))"

section \<open>What an accepted decision guarantees\<close>

lemma mk_risk_decision_Inr:
  assumes "mk_risk_decision d = Inr e"
  shows "\<exists>c. e = c \<and> valid_decision_semantics c = Inr c \<and> rd_outcome c = rd_outcome d \<and> rd_decision_id c = rd_decision_id d"
proof -
  from assms obtain original approved state where
    v: "valid_decision_semantics (d\<lparr>rd_original_target := original, rd_approved_target := approved, rd_state_snapshot := state\<rparr>) = Inr e"
    unfolding mk_risk_decision_def by (auto simp: wrap_Inr_iff bindE_Inr_iff)
  then have "e = d\<lparr>rd_original_target := original, rd_approved_target := approved, rd_state_snapshot := state\<rparr>"
    unfolding valid_decision_semantics_def Let_def by (auto simp: bindE_Inr_iff)
  with v show ?thesis by auto
qed

text \<open>
  A decision taken while the kill switch is engaged approves nothing: an accepted decision is approved or
  modified exactly when it carries a target, and then the kill switch was not engaged, the state was seen
  and the target effective no later than the decision.
\<close>

theorem risk_decision_target_iff:
  assumes "mk_risk_decision d = Inr e"
  shows "(rd_approved_target e \<noteq> None \<longleftrightarrow> rd_outcome e \<noteq> RISK_REJECTED)
    \<and> (rd_approved_target e \<noteq> None \<longrightarrow> \<not> rk_kill_switch_engaged (rd_state_snapshot e))
    \<and> dt_le (rk_observed_at (rd_state_snapshot e)) (rd_decided_at e)
    \<and> dt_le (tg_effective_at (rd_original_target e)) (rd_decided_at e)"
proof -
  from mk_risk_decision_Inr [OF assms] have v: "valid_decision_semantics e = Inr e" by blast
  then have o: "valid_outcome e = Inr ()"
    and h: "\<not> (rk_kill_switch_engaged (rd_state_snapshot e) \<and> rd_outcome e \<noteq> RISK_REJECTED)"
    and t: "dt_le (rk_observed_at (rd_state_snapshot e)) (rd_decided_at e)" "dt_le (tg_effective_at (rd_original_target e)) (rd_decided_at e)"
    unfolding valid_decision_semantics_def Let_def by (auto simp: bindE_Inr_iff reject_if_Inr_iff dt_lt_iff_not_le)
  from o have "rd_approved_target e \<noteq> None \<longleftrightarrow> rd_outcome e \<noteq> RISK_REJECTED"
    unfolding valid_outcome_def by (auto simp: bindE_Inr_iff reject_if_Inr_iff split: risk_outcome.splits option.splits)
  with h t show ?thesis by blast
qed

end
