(* ===== verification/Runtime_Risk.thy ===== *)
theory Runtime_Risk
  imports Risk_Decisions Time_Arithmetic Json_Decode
begin

text \<open>
  The contracts of a runtime order-risk decision (\<^verbatim>\<open>src/packages/domain/runtime_risk.py\<close>) and their canonical
  digest (\<^verbatim>\<open>src/packages/runtime_risk/canonical.py\<close>). A model built by validation has all its fields, so the
  completeness guard of \<^verbatim>\<open>model_post_init\<close> always passes. The identifier pattern is that of the orders. Money,
  prices, quantities and instrument ids inside a model are values their own constructors accepted; pydantic runs
  these constructors once more, which is left out here, so the model accepts at least what the code accepts.
\<close>

section \<open>Outcomes and reasons\<close>

datatype runtime_risk_outcome = RT_APPROVED | RT_REJECTED

datatype runtime_venue_health = HEALTHY | DEGRADED | HEALTH_UNKNOWN

datatype runtime_risk_reason =
    POLICY_RISK_NOT_APPROVED | ENGINE_NOT_READY | INSTRUMENT_UNKNOWN | MARKET_DATA_STALE | VALUATION_AUTHORITY_MISSING
  | PORTFOLIO_STATE_INVALID | PRICE_PRECISION_INVALID | QUANTITY_PRECISION_INVALID | QUANTITY_OUT_OF_BOUNDS
  | ORDER_NOTIONAL_LIMIT | BALANCE_MARGIN_LIMIT | PENDING_EXPOSURE_LIMIT | GROSS_EXPOSURE_LIMIT | NET_EXPOSURE_LIMIT
  | STRATEGY_EXPOSURE_LIMIT | VENUE_EXPOSURE_LIMIT | DAILY_LOSS_LIMIT | DRAWDOWN_LIMIT | REDUCE_ONLY_VIOLATION
  | COMMAND_RATE_LIMIT | VENUE_UNHEALTHY | DUPLICATE_COMMAND | WITHIN_LIMITS

fun runtime_reason_order :: "runtime_risk_reason \<Rightarrow> nat" where
  "runtime_reason_order POLICY_RISK_NOT_APPROVED = 0"
| "runtime_reason_order ENGINE_NOT_READY = 1"
| "runtime_reason_order INSTRUMENT_UNKNOWN = 2"
| "runtime_reason_order MARKET_DATA_STALE = 3"
| "runtime_reason_order VALUATION_AUTHORITY_MISSING = 4"
| "runtime_reason_order PORTFOLIO_STATE_INVALID = 5"
| "runtime_reason_order PRICE_PRECISION_INVALID = 6"
| "runtime_reason_order QUANTITY_PRECISION_INVALID = 7"
| "runtime_reason_order QUANTITY_OUT_OF_BOUNDS = 8"
| "runtime_reason_order ORDER_NOTIONAL_LIMIT = 9"
| "runtime_reason_order BALANCE_MARGIN_LIMIT = 10"
| "runtime_reason_order PENDING_EXPOSURE_LIMIT = 11"
| "runtime_reason_order GROSS_EXPOSURE_LIMIT = 12"
| "runtime_reason_order NET_EXPOSURE_LIMIT = 13"
| "runtime_reason_order STRATEGY_EXPOSURE_LIMIT = 14"
| "runtime_reason_order VENUE_EXPOSURE_LIMIT = 15"
| "runtime_reason_order DAILY_LOSS_LIMIT = 16"
| "runtime_reason_order DRAWDOWN_LIMIT = 17"
| "runtime_reason_order REDUCE_ONLY_VIOLATION = 18"
| "runtime_reason_order COMMAND_RATE_LIMIT = 19"
| "runtime_reason_order VENUE_UNHEALTHY = 20"
| "runtime_reason_order DUPLICATE_COMMAND = 21"
| "runtime_reason_order WITHIN_LIMITS = 22"

definition require_positive :: "decimal \<Rightarrow> string \<Rightarrow> unit res" where
  "require_positive value field_name = reject_if (dec_le value (dec_int 0)) (field_name @ '' must be positive'')"

definition require_non_negative :: "decimal \<Rightarrow> string \<Rightarrow> unit res" where
  "require_non_negative value field_name = reject_if (dec_lt value (dec_int 0)) (field_name @ '' must be non-negative'')"

definition require_label_currency :: "currency \<Rightarrow> money list \<Rightarrow> string \<Rightarrow> unit res" where
  "require_label_currency currency values label =
     reject_if (list_ex (\<lambda>v. m_currency v \<noteq> currency) values) (label @ '' money currency must match '' @ label @ '' currency'')"

section \<open>Instruments, markets and venues\<close>

record instrument_risk_spec =
  rs_instrument :: instrument_id
  rs_venue_id :: string
  rs_settlement_currency :: currency
  rs_price_increment :: price
  rs_quantity_increment :: order_quantity
  rs_min_quantity :: order_quantity
  rs_max_quantity :: order_quantity
  rs_min_order_notional :: money
  rs_max_order_notional :: money
  rs_initial_margin_rate :: decimal

definition valid_risk_spec :: "instrument_risk_spec \<Rightarrow> instrument_risk_spec res" where
  "valid_risk_spec s =
     bindE (reject_if (p_currency (rs_price_increment s) \<noteq> rs_settlement_currency s)
              ''price_increment currency must match settlement currency'') (\<lambda>_.
     bindE (require_positive (p_amount (rs_price_increment s)) ''price_increment'') (\<lambda>_.
     bindE (require_positive (oq_value (rs_quantity_increment s)) ''quantity_increment'') (\<lambda>_.
     bindE (require_positive (oq_value (rs_min_quantity s)) ''min_quantity'') (\<lambda>_.
     bindE (require_positive (oq_value (rs_max_quantity s)) ''max_quantity'') (\<lambda>_.
     bindE (reject_if (oq_precision (rs_min_quantity s) \<noteq> oq_precision (rs_quantity_increment s))
              ''min_quantity precision must match quantity_increment'') (\<lambda>_.
     bindE (reject_if (oq_precision (rs_max_quantity s) \<noteq> oq_precision (rs_quantity_increment s))
              ''max_quantity precision must match quantity_increment'') (\<lambda>_.
     bindE (reject_if (dec_lt (oq_value (rs_max_quantity s)) (oq_value (rs_min_quantity s)))
              ''max_quantity must not be below min_quantity'') (\<lambda>_.
     bindE (reject_if (m_currency (rs_min_order_notional s) \<noteq> m_currency (rs_max_order_notional s))
              ''order notional bounds currency must match'') (\<lambda>_.
     bindE (require_positive (m_amount (rs_min_order_notional s)) ''min_order_notional'') (\<lambda>_.
     bindE (require_positive (m_amount (rs_max_order_notional s)) ''max_order_notional'') (\<lambda>_.
     bindE (reject_if (dec_lt (m_amount (rs_max_order_notional s)) (m_amount (rs_min_order_notional s)))
              ''max_order_notional must not be below min_order_notional'') (\<lambda>_.
     bindE (reject_if (\<not> (dec_le (dec_int 0) (rs_initial_margin_rate s) \<and> dec_le (rs_initial_margin_rate s) (dec_int 1)))
              ''initial_margin_rate must be between zero and one'') (\<lambda>_.
     Inr s)))))))))))))"

definition mk_instrument_risk_spec :: "instrument_risk_spec \<Rightarrow> instrument_risk_spec res" where
  "mk_instrument_risk_spec s =
     wrap_validation (
       bindE (require_field ''venue_id'' (canonical_identifier (rs_venue_id s))) (\<lambda>_.
       bindE (require_currency (rs_settlement_currency s)) (\<lambda>_.
       valid_risk_spec s)))"

record risk_market_snapshot =
  rm_instrument :: instrument_id
  rm_bid :: price
  rm_ask :: price
  rm_last :: price
  rm_observed_at :: datetime
  rm_provenance_id :: string

definition mk_risk_market_snapshot :: "risk_market_snapshot \<Rightarrow> risk_market_snapshot res" where
  "mk_risk_market_snapshot m =
     wrap_validation (
       bindE (require_field ''provenance_id'' (canonical_identifier (rm_provenance_id m))) (\<lambda>_.
       bindE (require_utc (rm_observed_at m)) (\<lambda>_.
       bindE (reject_if (p_currency (rm_bid m) \<noteq> p_currency (rm_ask m) \<or> p_currency (rm_bid m) \<noteq> p_currency (rm_last m))
                ''bid, ask, and last currency must match'') (\<lambda>_.
       bindE (reject_if (dec_lt (p_amount (rm_ask m)) (p_amount (rm_bid m))) ''bid must not exceed ask'') (\<lambda>_.
       Inr m)))))"

record risk_conversion_rate =
  rv_source_currency :: currency
  rv_target_currency :: currency
  rv_rate :: decimal
  rv_observed_at :: datetime
  rv_provenance_id :: string

definition mk_risk_conversion_rate :: "risk_conversion_rate \<Rightarrow> risk_conversion_rate res" where
  "mk_risk_conversion_rate r =
     wrap_validation (
       bindE (require_currency (rv_source_currency r)) (\<lambda>_.
       bindE (require_currency (rv_target_currency r)) (\<lambda>_.
       bindE (require_field ''provenance_id'' (canonical_identifier (rv_provenance_id r))) (\<lambda>_.
       bindE (require_utc (rv_observed_at r)) (\<lambda>_.
       bindE (reject_if (rv_source_currency r = rv_target_currency r) ''source_currency and target_currency must differ'') (\<lambda>_.
       bindE (require_positive (rv_rate r) ''rate'') (\<lambda>_.
       Inr r)))))))"

record venue_health_record =
  vh_venue_id :: string
  vh_health :: runtime_venue_health
  vh_observed_at :: datetime

definition mk_venue_health_record :: "venue_health_record \<Rightarrow> venue_health_record res" where
  "mk_venue_health_record v =
     wrap_validation (
       bindE (require_field ''venue_id'' (canonical_identifier (vh_venue_id v))) (\<lambda>_.
       bindE (require_utc (vh_observed_at v)) (\<lambda>_.
       Inr v)))"

record prior_command =
  pc_intent_id :: uuid
  pc_client_order_id :: string

definition mk_prior_command :: "prior_command \<Rightarrow> prior_command res" where
  "mk_prior_command c = bindE (require_field ''client_order_id'' (canonical_identifier (pc_client_order_id c))) (\<lambda>_. Inr c)"

section \<open>Policy\<close>

definition MAX_RUNTIME_RISK_DURATION_SECONDS :: int where
  "MAX_RUNTIME_RISK_DURATION_SECONDS = 86399999999999"

record runtime_risk_policy =
  rp_policy_id :: uuid
  rp_policy_version :: string
  rp_account_id :: string
  rp_market_data_max_age_seconds :: int
  rp_portfolio_max_age_seconds :: int
  rp_max_pending_exposure :: money
  rp_max_gross_exposure :: money
  rp_max_abs_net_exposure :: money
  rp_max_strategy_exposure :: money
  rp_max_venue_exposure :: money
  rp_min_available_funds :: money
  rp_max_daily_loss :: money
  rp_max_drawdown :: money
  rp_command_window_seconds :: int
  rp_max_commands_per_window :: int

definition duration_field :: "int \<Rightarrow> bool" where
  "duration_field n = (0 < n \<and> n \<le> MAX_RUNTIME_RISK_DURATION_SECONDS)"

definition policy_money :: "runtime_risk_policy \<Rightarrow> money list" where
  "policy_money p =
     [rp_max_pending_exposure p, rp_max_gross_exposure p, rp_max_abs_net_exposure p, rp_max_strategy_exposure p,
      rp_max_venue_exposure p, rp_min_available_funds p, rp_max_daily_loss p, rp_max_drawdown p]"

definition POLICY_MONEY_NAMES :: "string list" where
  "POLICY_MONEY_NAMES =
     [''max_pending_exposure'', ''max_gross_exposure'', ''max_abs_net_exposure'', ''max_strategy_exposure'',
      ''max_venue_exposure'', ''min_available_funds'', ''max_daily_loss'', ''max_drawdown'']"

definition valid_risk_policy :: "runtime_risk_policy \<Rightarrow> runtime_risk_policy res" where
  "valid_risk_policy p =
     bindE (reject_if (rp_market_data_max_age_seconds p \<le> 0) ''market_data_max_age_seconds must be positive'') (\<lambda>_.
     bindE (reject_if (rp_portfolio_max_age_seconds p \<le> 0) ''portfolio_max_age_seconds must be positive'') (\<lambda>_.
     bindE (reject_if (rp_command_window_seconds p \<le> 0) ''command_window_seconds must be positive'') (\<lambda>_.
     bindE (reject_if (rp_max_commands_per_window p < 0) ''max_commands_per_window must be non-negative'') (\<lambda>_.
     bindE (require_label_currency (m_currency (rp_max_pending_exposure p)) (policy_money p) ''policy'') (\<lambda>_.
     bindE (mapE (\<lambda>(name, value). require_non_negative (m_amount value) name) (zip POLICY_MONEY_NAMES (policy_money p))) (\<lambda>_.
     Inr p))))))"

definition mk_runtime_risk_policy :: "runtime_risk_policy \<Rightarrow> runtime_risk_policy res" where
  "mk_runtime_risk_policy p =
     wrap_validation (
       bindE (require_field ''policy_version'' (canonical_identifier (rp_policy_version p))) (\<lambda>_.
       bindE (require_field ''account_id'' (canonical_identifier (rp_account_id p))) (\<lambda>_.
       bindE (require_field ''market_data_max_age_seconds'' (duration_field (rp_market_data_max_age_seconds p))) (\<lambda>_.
       bindE (require_field ''portfolio_max_age_seconds'' (duration_field (rp_portfolio_max_age_seconds p))) (\<lambda>_.
       bindE (require_field ''command_window_seconds'' (duration_field (rp_command_window_seconds p))) (\<lambda>_.
       valid_risk_policy p))))))"

section \<open>Observation\<close>

record runtime_risk_observation =
  ro_observation_id :: uuid
  ro_state_version :: int
  ro_portfolio :: account_portfolio_snapshot
  ro_instrument_specs :: "instrument_risk_spec list"
  ro_market_snapshots :: "risk_market_snapshot list"
  ro_conversion_rates :: "risk_conversion_rate list"
  ro_venue_health :: "venue_health_record list"
  ro_engine_ready :: bool
  ro_daily_pnl :: money
  ro_current_equity :: money
  ro_peak_equity :: money
  ro_command_window_started_at :: datetime
  ro_commands_in_window :: int
  ro_prior_commands :: "prior_command list"
  ro_observed_at :: datetime

definition observed_children :: "runtime_risk_observation \<Rightarrow> (string \<times> datetime) list" where
  "observed_children s =
     [(''portfolio'', as_observed_at (ro_portfolio s))]
     @ map (\<lambda>m. (''market'', rm_observed_at m)) (ro_market_snapshots s)
     @ map (\<lambda>c. (''conversion'', rv_observed_at c)) (ro_conversion_rates s)
     @ map (\<lambda>v. (''venue'', vh_observed_at v)) (ro_venue_health s)"

definition canonical_collection :: "'k::linorder list \<Rightarrow> string \<Rightarrow> unit res" where
  "canonical_collection keys name =
     reject_unsorted keys (name @ '' contain duplicates'') (name @ '' must be canonically ordered'')"

definition check_collections :: "runtime_risk_observation \<Rightarrow> unit res" where
  "check_collections s =
     bindE (reject_if (\<not> distinct (map pc_intent_id (ro_prior_commands s))) ''prior_commands contain duplicate intent_id'') (\<lambda>_.
     bindE (reject_if (\<not> distinct (map pc_client_order_id (ro_prior_commands s))) ''prior_commands contain duplicate client_order_id'') (\<lambda>_.
     bindE (canonical_collection (map (\<lambda>x. (canonical (rs_instrument x), rs_venue_id x)) (ro_instrument_specs s)) ''instrument_specs'') (\<lambda>_.
     bindE (canonical_collection (map (\<lambda>x. canonical (rm_instrument x)) (ro_market_snapshots s)) ''market_snapshots'') (\<lambda>_.
     bindE (canonical_collection (map (\<lambda>x. (cur_code (rv_source_currency x), cur_code (rv_target_currency x))) (ro_conversion_rates s))
              ''conversion_rates'') (\<lambda>_.
     bindE (canonical_collection (map vh_venue_id (ro_venue_health s)) ''venue_health'') (\<lambda>_.
     canonical_collection (map (\<lambda>x. (uuid_text (pc_intent_id x), pc_client_order_id x)) (ro_prior_commands s)) ''prior_commands''))))))"

definition valid_observation :: "runtime_risk_observation \<Rightarrow> runtime_risk_observation res" where
  "valid_observation s =
     bindE (require_utc (ro_command_window_started_at s)) (\<lambda>_.
     bindE (require_utc (ro_observed_at s)) (\<lambda>_.
     bindE (reject_if (dt_lt (ro_observed_at s) (ro_command_window_started_at s))
              ''command window must start no later than observation'') (\<lambda>_.
     bindE (reject_if (ro_state_version s < 0) ''state_version must be non-negative'') (\<lambda>_.
     bindE (reject_if (ro_commands_in_window s < 0) ''commands_in_window must be non-negative'') (\<lambda>_.
     bindE (require_label_currency (as_reporting_currency (ro_portfolio s))
              [ro_daily_pnl s, ro_current_equity s, ro_peak_equity s] ''reporting'') (\<lambda>_.
     bindE (reject_if (list_ex (\<lambda>x. m_currency (rs_min_order_notional x) \<noteq> as_reporting_currency (ro_portfolio s)
                                  \<or> m_currency (rs_max_order_notional x) \<noteq> as_reporting_currency (ro_portfolio s))
                         (ro_instrument_specs s))
              ''instrument notional bounds must use reporting currency'') (\<lambda>_.
     bindE (reject_if (dec_lt (m_amount (ro_current_equity s)) (dec_int 0)) ''current_equity must be non-negative'') (\<lambda>_.
     bindE (reject_if (dec_lt (m_amount (ro_peak_equity s)) (dec_int 0)) ''peak_equity must be non-negative'') (\<lambda>_.
     bindE (mapE (\<lambda>(name, t). reject_if (dt_lt (ro_observed_at s) t) (name @ '' timestamp must not be after observation''))
              (observed_children s)) (\<lambda>_.
     bindE (check_collections s) (\<lambda>_.
     Inr s)))))))))))"

definition mk_runtime_risk_observation :: "runtime_risk_observation \<Rightarrow> runtime_risk_observation res" where
  "mk_runtime_risk_observation s =
     wrap_validation (
       bindE (mk_account_portfolio_snapshot (ro_portfolio s)) (\<lambda>_.
       bindE (mapE mk_instrument_risk_spec (ro_instrument_specs s)) (\<lambda>_.
       bindE (mapE mk_risk_market_snapshot (ro_market_snapshots s)) (\<lambda>_.
       bindE (mapE mk_risk_conversion_rate (ro_conversion_rates s)) (\<lambda>_.
       bindE (mapE mk_venue_health_record (ro_venue_health s)) (\<lambda>_.
       bindE (mapE mk_prior_command (ro_prior_commands s)) (\<lambda>_.
       valid_observation s)))))))"

section \<open>Decision\<close>

record runtime_order_risk_decision =
  od_decision_id :: uuid
  od_intent_id :: uuid
  od_risk_decision_id :: uuid
  od_intent_digest :: string
  od_policy_risk_decision_digest :: string
  od_portfolio_snapshot_id :: uuid
  od_portfolio_digest :: string
  od_observation_id :: uuid
  od_observation_version :: int
  od_observation_digest :: string
  od_policy_id :: uuid
  od_policy_version :: string
  od_policy_digest :: string
  od_risk_price :: "price option"
  od_order_notional :: "money option"
  od_projected_position_quantity :: "quantity option"
  od_projected_pending :: "money option"
  od_projected_gross :: "money option"
  od_projected_net :: "money option"
  od_projected_strategy_gross :: "money option"
  od_projected_venue_gross :: "money option"
  od_projected_instrument_gross :: "money option"
  od_projected_margin_used :: "money option"
  od_projected_available_funds :: "money option"
  od_outcome :: runtime_risk_outcome
  od_reason_codes :: "runtime_risk_reason list"
  od_decided_at :: datetime

definition projections_complete :: "runtime_order_risk_decision \<Rightarrow> bool" where
  "projections_complete d =
     (od_risk_price d \<noteq> None \<and> od_order_notional d \<noteq> None \<and> od_projected_position_quantity d \<noteq> None
      \<and> od_projected_pending d \<noteq> None \<and> od_projected_gross d \<noteq> None \<and> od_projected_net d \<noteq> None
      \<and> od_projected_strategy_gross d \<noteq> None \<and> od_projected_venue_gross d \<noteq> None
      \<and> od_projected_instrument_gross d \<noteq> None \<and> od_projected_margin_used d \<noteq> None
      \<and> od_projected_available_funds d \<noteq> None)"

definition valid_order_risk_decision :: "runtime_order_risk_decision \<Rightarrow> runtime_order_risk_decision res" where
  "valid_order_risk_decision d =
     bindE (require_utc (od_decided_at d)) (\<lambda>_.
     bindE (reject_if (od_observation_version d < 0) ''observation_version must be non-negative'') (\<lambda>_.
     bindE (reject_if (od_reason_codes d = []) ''reason_codes must not be empty'') (\<lambda>_.
     bindE (reject_if (length (od_reason_codes d) \<noteq> card (set (od_reason_codes d))) ''reason_codes contain duplicates'') (\<lambda>_.
     bindE (reject_if (sort_key runtime_reason_order (od_reason_codes d) \<noteq> od_reason_codes d)
              ''reason_codes must follow canonical risk-check order'') (\<lambda>_.
     bindE (if od_outcome d = RT_APPROVED
            then bindE (reject_if (od_reason_codes d \<noteq> [WITHIN_LIMITS]) ''approved outcome requires only WITHIN_LIMITS'') (\<lambda>_.
                 reject_if (\<not> projections_complete d) ''approved outcome requires every projection'')
            else reject_if (WITHIN_LIMITS \<in> set (od_reason_codes d)) ''rejected outcome cannot use WITHIN_LIMITS'') (\<lambda>_.
     Inr d))))))"

definition mk_runtime_order_risk_decision :: "runtime_order_risk_decision \<Rightarrow> runtime_order_risk_decision res" where
  "mk_runtime_order_risk_decision d =
     wrap_validation (
       bindE (require_field ''intent_digest'' (sha256_hex (od_intent_digest d))) (\<lambda>_.
       bindE (require_field ''policy_risk_decision_digest'' (sha256_hex (od_policy_risk_decision_digest d))) (\<lambda>_.
       bindE (require_field ''portfolio_digest'' (sha256_hex (od_portfolio_digest d))) (\<lambda>_.
       bindE (require_field ''observation_digest'' (sha256_hex (od_observation_digest d))) (\<lambda>_.
       bindE (require_field ''policy_version'' (canonical_identifier (od_policy_version d))) (\<lambda>_.
       bindE (require_field ''policy_digest'' (sha256_hex (od_policy_digest d))) (\<lambda>_.
       valid_order_risk_decision d)))))))"

section \<open>Canonical digests\<close>

text \<open>
  \<^verbatim>\<open>canonical_model_json\<close> revalidates a model with everything nested in it, dumps the result and writes it
  with sorted keys in ASCII; every contract is far below the nesting limit. The pydantic dump of each
  contract and SHA-256 are parameters. \<^verbatim>\<open>json.dumps\<close> writes integers with \<^verbatim>\<open>int.__repr__\<close>, which raises beyond 4300
  digits; several fields of the contracts (versions, counters) have no other bound.
\<close>

definition DIGIT_LIMIT :: error where
  "DIGIT_LIMIT =
     ValueError (''Exceeds the limit (4300 digits) for integer string conversion; ''
       @ ''use sys.set_int_max_str_digits() to increase the limit'')"

record risk_codec =
  rx_sha256 :: "string \<Rightarrow> string"
  rx_intent :: "order_intent \<Rightarrow> (string \<times> json) list"
  rx_decision :: "risk_decision \<Rightarrow> (string \<times> json) list"
  rx_portfolio :: "account_portfolio_snapshot \<Rightarrow> (string \<times> json) list"
  rx_observation :: "runtime_risk_observation \<Rightarrow> (string \<times> json) list"
  rx_policy :: "runtime_risk_policy \<Rightarrow> (string \<times> json) list"

definition canonical_model_json :: "('a \<Rightarrow> 'a res) \<Rightarrow> ('a \<Rightarrow> (string \<times> json) list) \<Rightarrow> 'a \<Rightarrow> string res" where
  "canonical_model_json validate dump value =
     bindE (catch_value_error (validate value) (ValueError ''model cannot be canonically represented'')) (\<lambda>canonical.
     let document = JObject (dump canonical)
     in if small_ints document then Inr (dumps document) else Inl DIGIT_LIMIT)"

definition canonical_model_digest ::
  "risk_codec \<Rightarrow> ('a \<Rightarrow> 'a res) \<Rightarrow> ('a \<Rightarrow> (string \<times> json) list) \<Rightarrow> 'a \<Rightarrow> string res" where
  "canonical_model_digest rx validate dump value =
     bindE (canonical_model_json validate dump value) (\<lambda>t. Inr (rx_sha256 rx (utf8 t)))"

end
