(* ===== verification/Risk_Projection.thy ===== *)
theory Risk_Projection
  imports Runtime_Risk Exact_Accounting
begin

text \<open>
  Conservative pricing and exact projections of an order (\<^verbatim>\<open>src/packages/runtime_risk/projections.py\<close>). Every
  amount is computed as a fraction and converted back to a decimal, which is refused with a
  \<^verbatim>\<open>ProjectionError\<close> when no finite expansion exists. The conversion goes through \<^verbatim>\<open>str\<close> of the coefficient, which
  raises a plain \<^verbatim>\<open>ValueError\<close> beyond 4300 digits.
\<close>

section \<open>Exact arithmetic\<close>

definition projection_if :: "bool \<Rightarrow> string \<Rightarrow> unit res" where
  "projection_if c m = (if c then Inl (ProjectionError m) else Inr ())"

definition projection_decimal :: "rat \<Rightarrow> string \<Rightarrow> decimal res" where
  "projection_decimal value field =
     (let (numer, denom) = quotient_of value;
          (denominator, twos) = factor_out 2 (nat denom) 0;
          (denominator, fives) = factor_out 5 denominator 0
      in if denominator \<noteq> 1
         then Inl (ProjectionError (field @ '' cannot be represented exactly as a Decimal''))
         else
           let scale = max twos fives;
               coefficient = numer * 2 ^ (scale - twos) * 5 ^ (scale - fives)
           in if \<not> small_int coefficient then Inl DIGIT_LIMIT
              else decimal_from_tuple (coefficient < 0) (as_digits (nat \<bar>coefficient\<bar>)) (- int scale))"

definition projection_sum :: "decimal list \<Rightarrow> string \<Rightarrow> decimal res" where
  "projection_sum values field = projection_decimal (sum_list (map fraction values)) field"

definition projection_product :: "decimal list \<Rightarrow> string \<Rightarrow> decimal res" where
  "projection_product values field = projection_decimal (foldl (\<lambda>r v. r * fraction v) 1 values) field"

fun drop_excess_zeros :: "nat list \<Rightarrow> int \<Rightarrow> int \<Rightarrow> nat list \<times> int" where
  "drop_excess_zeros ds exponent minimum_exponent =
     (if exponent < minimum_exponent \<and> 1 < length ds \<and> last ds = 0
      then drop_excess_zeros (butlast ds) (exponent + 1) minimum_exponent
      else (ds, exponent))"

declare drop_excess_zeros.simps [simp del]

definition projection_money :: "decimal \<Rightarrow> currency \<Rightarrow> string \<Rightarrow> money res" where
  "projection_money amount currency field =
     (let (ds, exponent) = drop_excess_zeros (digits amount) (dexp amount) (- cur_precision currency)
      in bindE (decimal_from_tuple (dsign amount) ds exponent) (\<lambda>normal.
         catch_value_error (mk_money (PyDecimal normal) currency)
           (ProjectionError (field @ '' is not exact at reporting currency precision''))))"

definition projection_quantity :: "decimal \<Rightarrow> int \<Rightarrow> quantity res" where
  "projection_quantity amount precision =
     catch_value_error (mk_quantity (PyDecimal amount) precision) (ProjectionError ''projected position quantity is not exact'')"

definition check_model :: "risk_codec \<Rightarrow> ('a \<Rightarrow> 'a res) \<Rightarrow> ('a \<Rightarrow> (string \<times> json) list) \<Rightarrow> 'a \<Rightarrow> string \<Rightarrow> unit res" where
  "check_model rx validate dump value field =
     bindE (catch_value_error (canonical_model_digest rx validate dump value) (ProjectionError (field @ '' is invalid''))) (\<lambda>_. Inr ())"

definition one_by_key :: "'a list \<Rightarrow> ('a \<Rightarrow> bool) \<Rightarrow> string \<Rightarrow> 'a res" where
  "one_by_key values has_key field =
     (case filter has_key values of
        [m] \<Rightarrow> Inr m
      | _ \<Rightarrow> Inl (ProjectionError (''exactly one '' @ field @ '' is required'')))"

section \<open>Prices and rates\<close>

definition max_price :: "price \<Rightarrow> price \<Rightarrow> price" where
  "max_price best candidate = (if dec_lt (p_amount best) (p_amount candidate) then candidate else best)"

definition risk_price :: "order_intent \<Rightarrow> risk_market_snapshot \<Rightarrow> instrument_risk_spec \<Rightarrow> price res" where
  "risk_price intent market spec =
     (let executable = (if oi_side intent = BUY then rm_ask market else rm_bid market);
          others = (case oi_limit_price intent of None \<Rightarrow> [] | Some p \<Rightarrow> [p])
                   @ (case oi_trigger_price intent of None \<Rightarrow> [] | Some p \<Rightarrow> [p])
      in if list_ex (\<lambda>p. p_currency p \<noteq> rs_settlement_currency spec) (executable # others)
         then Inl (ProjectionError ''order and market prices must use settlement currency'')
         else Inr (foldl max_price executable others))"

definition projection_rate ::
  "currency \<Rightarrow> currency \<Rightarrow> runtime_risk_observation \<Rightarrow> runtime_risk_policy \<Rightarrow> datetime \<Rightarrow> decimal res" where
  "projection_rate source target observation policy decided_at =
     (if source = target then Inr (dec_int 1)
      else
        bindE (case one_by_key (ro_conversion_rates observation)
                      (\<lambda>x. (cur_code (rv_source_currency x), cur_code (rv_target_currency x)) = (cur_code source, cur_code target))
                      ''conversion rate'' of
                 Inr c \<Rightarrow> Inr c
               | Inl _ \<Rightarrow> Inl (ProjectionError ''exact source/target conversion rate is required'')) (\<lambda>conversion.
        bindE (projection_if (rv_source_currency conversion \<noteq> source \<or> rv_target_currency conversion \<noteq> target)
                 ''exact source/target conversion rate is required'') (\<lambda>_.
        bindE (projection_if (dt_lt decided_at (rv_observed_at conversion)
                              \<or> seconds (rp_market_data_max_age_seconds policy) < dt_diff decided_at (rv_observed_at conversion))
                 ''conversion rate is stale'') (\<lambda>_.
        Inr (rv_rate conversion)))))"

definition reporting_notional :: "decimal \<Rightarrow> price \<Rightarrow> decimal \<Rightarrow> string \<Rightarrow> decimal res" where
  "reporting_notional quantity price rate field = projection_product [quantity, p_amount price, rate] field"

section \<open>Partitions of the marked positions\<close>

type_synonym 'a partition = "(string \<times> 'a \<times> 'a) list"

definition get_amounts :: "decimal partition \<Rightarrow> string \<Rightarrow> decimal \<times> decimal" where
  "get_amounts amounts key = (case map_of amounts key of None \<Rightarrow> (dec_int 0, dec_int 0) | Some v \<Rightarrow> v)"

definition add_partition_contribution :: "decimal partition \<Rightarrow> string \<Rightarrow> decimal \<Rightarrow> string \<Rightarrow> decimal partition res" where
  "add_partition_contribution amounts key signed_notional field =
     (let (gross, net) = get_amounts amounts key
      in bindE (projection_sum [gross, copy_abs signed_notional] (field @ '' gross'')) (\<lambda>g.
         bindE (projection_sum [net, signed_notional] (field @ '' net'')) (\<lambda>n.
         Inr (dict_put key (g, n) amounts))))"

definition contribution_step ::
  "runtime_risk_observation \<Rightarrow> runtime_risk_policy \<Rightarrow> datetime \<Rightarrow> decimal partition \<times> decimal partition \<times> decimal partition
    \<Rightarrow> account_position_snapshot \<Rightarrow> (decimal partition \<times> decimal partition \<times> decimal partition) res" where
  "contribution_step observation policy decided_at amounts position =
     (let (instruments, strategies, venues) = amounts
      in if is_zero (q_value (ap_quantity position)) then Inr amounts
         else case ap_mark position of
                None \<Rightarrow> Inl (ProjectionError ''non-zero position requires a marked contribution'')
              | Some mark \<Rightarrow>
                  bindE (projection_rate (ap_settlement_currency position) (as_reporting_currency (ro_portfolio observation))
                           observation policy decided_at) (\<lambda>rate.
                  bindE (reporting_notional (q_value (ap_quantity position)) (pm_price mark) rate
                           ''current marked position notional'') (\<lambda>contribution.
                  bindE (add_partition_contribution instruments (canonical (ap_instrument position)) contribution
                           ''instrument exposure'') (\<lambda>instruments.
                  bindE (add_partition_contribution strategies (ap_strategy_id position) contribution
                           ''strategy exposure'') (\<lambda>strategies.
                  bindE (add_partition_contribution venues (ii_venue (ap_instrument position)) contribution
                           ''venue exposure'') (\<lambda>venues.
                  Inr (instruments, strategies, venues)))))))"

definition position_contributions ::
  "runtime_risk_observation \<Rightarrow> runtime_risk_policy \<Rightarrow> datetime
    \<Rightarrow> (decimal partition \<times> decimal partition \<times> decimal partition) res" where
  "position_contributions observation policy decided_at =
     foldE (contribution_step observation policy decided_at) ([], [], []) (as_positions (ro_portfolio observation))"

definition assert_exposure :: "exposure_snapshot \<Rightarrow> decimal \<times> decimal \<Rightarrow> currency \<Rightarrow> string \<Rightarrow> unit res" where
  "assert_exposure actual expected reporting field =
     bindE (projection_if (ex_currency actual \<noteq> reporting) (field @ '' partition currency is inconsistent'')) (\<lambda>_.
     projection_if (\<not> dec_eq (m_amount (ex_gross actual)) (fst expected) \<or> \<not> dec_eq (m_amount (ex_net actual)) (snd expected))
       (field @ '' partition is inconsistent''))"

definition exposure_tables :: "account_portfolio_snapshot \<Rightarrow> (string \<times> exposure_snapshot) list \<times> (string \<times> exposure_snapshot) list \<times> (string \<times> exposure_snapshot) list" where
  "exposure_tables portfolio =
     (map (\<lambda>(k, x). (k, ie_exposure x)) (dict_of (\<lambda>x. canonical (ie_instrument x)) (as_instrument_exposures portfolio)),
      map (\<lambda>(k, x). (k, se_exposure x)) (dict_of se_strategy_id (as_strategy_exposures portfolio)),
      map (\<lambda>(k, x). (k, ve_exposure x)) (dict_of ve_venue_id (as_venue_exposures portfolio)))"

definition verify_partition ::
  "account_portfolio_snapshot \<Rightarrow> (string \<times> exposure_snapshot) list \<Rightarrow> decimal partition \<Rightarrow> string \<Rightarrow> unit res" where
  "verify_partition portfolio actual expected field =
     bindE (projection_if (list_ex (\<lambda>(key, _). key \<notin> fst ` set actual) expected)
              (field @ '' partition is missing for non-zero position'')) (\<lambda>_.
     bindE (mapE (\<lambda>(key, value). assert_exposure value (get_amounts expected key) (as_reporting_currency portfolio) field) actual) (\<lambda>_.
     bindE (projection_sum (map (\<lambda>(_, value). m_amount (ex_pending value)) actual) (field @ '' pending exposure'')) (\<lambda>pending.
     projection_if (\<not> dec_eq pending (m_amount (ex_pending (as_total_exposure portfolio))))
       (field @ '' pending partitions are inconsistent with total pending''))))"

definition verify_partitions ::
  "runtime_risk_observation \<Rightarrow> decimal partition \<times> decimal partition \<times> decimal partition \<Rightarrow> unit res" where
  "verify_partitions observation amounts =
     (let portfolio = ro_portfolio observation;
          (instrument_amounts, strategy_amounts, venue_amounts) = amounts;
          (instruments, strategies, venues) = exposure_tables portfolio
      in
      bindE (projection_sum (map (\<lambda>(_, gross, _). gross) instrument_amounts) ''recomputed total gross'') (\<lambda>total_gross.
      bindE (projection_sum (map (\<lambda>(_, _, net). net) instrument_amounts) ''recomputed total net'') (\<lambda>total_net.
      bindE (assert_exposure (as_total_exposure portfolio) (total_gross, total_net) (as_reporting_currency portfolio)
               ''total exposure'') (\<lambda>_.
      bindE (verify_partition portfolio instruments instrument_amounts ''instrument'') (\<lambda>_.
      bindE (verify_partition portfolio strategies strategy_amounts ''strategy'') (\<lambda>_.
      verify_partition portfolio venues venue_amounts ''venue''))))))"

definition matching_position ::
  "order_intent \<Rightarrow> runtime_risk_observation \<Rightarrow> instrument_risk_spec \<Rightarrow> account_position_snapshot option res" where
  "matching_position intent observation spec =
     (case filter (\<lambda>p. ap_strategy_id p = oi_strategy_id intent \<and> canonical (ap_instrument p) = canonical (oi_instrument intent))
             (as_positions (ro_portfolio observation)) of
        [] \<Rightarrow> Inr None
      | [position] \<Rightarrow>
          bindE (projection_if (ap_instrument position \<noteq> oi_instrument intent)
                   ''position instrument does not exactly match order instrument'') (\<lambda>_.
          bindE (projection_if (ap_settlement_currency position \<noteq> rs_settlement_currency spec)
                   ''position currency does not match instrument settlement currency'') (\<lambda>_.
          Inr (Some position)))
      | _ \<Rightarrow> Inl (ProjectionError ''matching position key is not unique''))"

definition replace_gross :: "decimal \<Rightarrow> decimal \<Rightarrow> decimal \<Rightarrow> string \<Rightarrow> decimal res" where
  "replace_gross current_gross current_notional projected_notional field =
     projection_sum [current_gross, copy_negate (copy_abs current_notional), copy_abs projected_notional] field"

section \<open>The projection\<close>

record runtime_risk_projection =
  pj_risk_price :: price
  pj_order_notional :: money
  pj_position_quantity :: quantity
  pj_pending :: money
  pj_gross :: money
  pj_net :: money
  pj_strategy_gross :: money
  pj_venue_gross :: money
  pj_instrument_gross :: money
  pj_margin_used :: money
  pj_available_funds :: money

text \<open>The authorities the projection rests on: specification, market and reporting balance.\<close>

definition projection_authorities ::
  "order_intent \<Rightarrow> runtime_risk_observation \<Rightarrow> (instrument_risk_spec \<times> risk_market_snapshot \<times> account_balance_snapshot) res" where
  "projection_authorities intent observation =
     (let portfolio = ro_portfolio observation;
          reporting = as_reporting_currency portfolio
      in
      bindE (one_by_key (ro_instrument_specs observation)
               (\<lambda>x. canonical (rs_instrument x) = canonical (oi_instrument intent)) ''instrument risk spec'') (\<lambda>spec.
      bindE (one_by_key (ro_market_snapshots observation)
               (\<lambda>x. canonical (rm_instrument x) = canonical (oi_instrument intent)) ''market snapshot'') (\<lambda>market.
      bindE (projection_if (rs_instrument spec \<noteq> oi_instrument intent \<or> rm_instrument market \<noteq> oi_instrument intent)
               ''instrument authority does not exactly match order instrument'') (\<lambda>_.
      bindE (projection_if (rs_venue_id spec \<noteq> ii_venue (oi_instrument intent))
               ''instrument venue authority does not match order venue'') (\<lambda>_.
      bindE (one_by_key (ro_venue_health observation) (\<lambda>x. vh_venue_id x = rs_venue_id spec) ''venue health record'') (\<lambda>venue.
      bindE (projection_if (vh_venue_id venue \<noteq> rs_venue_id spec) ''venue authority does not exactly match order venue'') (\<lambda>_.
      bindE (projection_if (list_ex (\<lambda>p. p_currency p \<noteq> rs_settlement_currency spec) [rm_bid market, rm_ask market, rm_last market])
               ''market currency does not match instrument settlement currency'') (\<lambda>_.
      bindE (one_by_key (as_balances portfolio) (\<lambda>b. cur_code (ab_currency b) = cur_code reporting) ''reporting balance'') (\<lambda>balance.
      bindE (projection_if (ab_currency balance \<noteq> reporting) ''reporting balance currency is inconsistent'') (\<lambda>_.
      Inr (spec, market, balance)))))))))))"

definition signed_order_quantity :: "order_intent \<Rightarrow> decimal" where
  "signed_order_quantity intent =
     (if oi_side intent = BUY then oq_value (oi_quantity intent) else copy_negate (oq_value (oi_quantity intent)))"

text \<open>The position before and after the order: the new quantity, its notional at the risk price and the current notional at the mark.\<close>

definition project_position ::
  "order_intent \<Rightarrow> account_position_snapshot option \<Rightarrow> price \<Rightarrow> decimal \<Rightarrow> (quantity \<times> decimal \<times> decimal) res" where
  "project_position intent current rp rate =
     bindE (projection_sum [case current of None \<Rightarrow> dec_int 0 | Some p \<Rightarrow> q_value (ap_quantity p), signed_order_quantity intent]
              ''projected position quantity'') (\<lambda>projected_amount.
     bindE (projection_quantity projected_amount
              (case current of
                 None \<Rightarrow> oq_precision (oi_quantity intent)
               | Some p \<Rightarrow> max (oq_precision (oi_quantity intent)) (q_precision (ap_quantity p)))) (\<lambda>projected_quantity.
     bindE (case current of
              None \<Rightarrow> Inr (dec_int 0)
            | Some p \<Rightarrow>
                if is_zero (q_value (ap_quantity p)) then Inr (dec_int 0)
                else (case ap_mark p of
                        None \<Rightarrow> Inl (ProjectionError ''non-zero matching position requires a mark'')
                      | Some mark \<Rightarrow>
                          reporting_notional (q_value (ap_quantity p)) (pm_price mark) rate
                            ''matching current position notional'')) (\<lambda>current_notional.
     bindE (reporting_notional projected_amount rp rate ''projected position notional'') (\<lambda>projected_notional.
     Inr (projected_quantity, current_notional, projected_notional)))))"

definition project_margin ::
  "account_balance_snapshot \<Rightarrow> instrument_risk_spec \<Rightarrow> decimal \<Rightarrow> decimal \<Rightarrow> (decimal \<times> decimal) res" where
  "project_margin balance spec current_notional projected_notional =
     bindE (projection_sum [copy_abs projected_notional, copy_negate (copy_abs current_notional)] ''risk-increasing notional'') (\<lambda>increase.
     let risk_increase = (if dec_lt increase (dec_int 0) then dec_int 0 else increase)
     in
     bindE (projection_product [risk_increase, rs_initial_margin_rate spec] ''margin increase'') (\<lambda>margin_increase.
     bindE (projection_sum [m_amount (ab_margin_used balance), margin_increase] ''projected margin used'') (\<lambda>margin.
     bindE (projection_sum [m_amount (ab_cash balance), copy_negate (m_amount (ab_locked_funds balance)), copy_negate margin]
              ''projected available funds'') (\<lambda>available.
     Inr (margin, available)))))"

definition project_runtime_order ::
  "risk_codec \<Rightarrow> order_intent \<Rightarrow> runtime_risk_observation \<Rightarrow> runtime_risk_policy \<Rightarrow> datetime \<Rightarrow> runtime_risk_projection res" where
  "project_runtime_order rx intent observation policy decided_at =
     (let portfolio = ro_portfolio observation;
          reporting = as_reporting_currency portfolio;
          total = as_total_exposure portfolio
      in
      bindE (check_model rx mk_order_intent (rx_intent rx) intent ''intent'') (\<lambda>_.
      bindE (check_model rx mk_runtime_risk_observation (rx_observation rx) observation ''observation'') (\<lambda>_.
      bindE (check_model rx mk_runtime_risk_policy (rx_policy rx) policy ''policy'') (\<lambda>_.
      bindE (catch_value_error (require_utc decided_at) (ProjectionError ''decided_at must be UTC'')) (\<lambda>_.
      bindE (projection_if (\<not> (oi_account_id intent = rp_account_id policy \<and> rp_account_id policy = as_account_id portfolio))
               ''order, policy, and portfolio accounts must match'') (\<lambda>_.
      bindE (projection_if (list_ex (\<lambda>v. m_currency v \<noteq> reporting) (policy_money policy))
               ''policy currency must match portfolio reporting currency'') (\<lambda>_.
      bindE (projection_authorities intent observation) (\<lambda>(spec, market, balance).
      bindE (projection_rate (rs_settlement_currency spec) reporting observation policy decided_at) (\<lambda>rate.
      bindE (risk_price intent market spec) (\<lambda>rp.
      bindE (reporting_notional (oq_value (oi_quantity intent)) rp rate ''order notional'') (\<lambda>order_amount.
      let order_notional = copy_abs order_amount
      in
      bindE (position_contributions observation policy decided_at) (\<lambda>(instrument_amounts, strategy_amounts, venue_amounts).
      bindE (verify_partitions observation (instrument_amounts, strategy_amounts, venue_amounts)) (\<lambda>_.
      bindE (matching_position intent observation spec) (\<lambda>current.
      bindE (project_position intent current rp rate) (\<lambda>(projected_quantity, current_notional, projected_notional).
      bindE (projection_sum [m_amount (ex_pending total), order_notional] ''projected pending exposure'') (\<lambda>pending.
      bindE (replace_gross (m_amount (ex_gross total)) current_notional projected_notional ''projected gross exposure'') (\<lambda>gross.
      bindE (projection_sum [m_amount (ex_net total), copy_negate current_notional, projected_notional] ''projected net exposure'') (\<lambda>net.
      bindE (replace_gross (fst (get_amounts strategy_amounts (oi_strategy_id intent))) current_notional projected_notional
               ''projected strategy gross exposure'') (\<lambda>strategy_gross.
      bindE (replace_gross (fst (get_amounts venue_amounts (rs_venue_id spec))) current_notional projected_notional
               ''projected venue gross exposure'') (\<lambda>venue_gross.
      bindE (replace_gross (fst (get_amounts instrument_amounts (canonical (oi_instrument intent)))) current_notional projected_notional
               ''projected instrument gross exposure'') (\<lambda>instrument_gross.
      bindE (project_margin balance spec current_notional projected_notional) (\<lambda>(margin, available).
      bindE (projection_money order_notional reporting ''order notional'') (\<lambda>order_money.
      bindE (projection_money pending reporting ''projected pending exposure'') (\<lambda>pending_money.
      bindE (projection_money gross reporting ''projected gross exposure'') (\<lambda>gross_money.
      bindE (projection_money net reporting ''projected net exposure'') (\<lambda>net_money.
      bindE (projection_money strategy_gross reporting ''projected strategy gross exposure'') (\<lambda>strategy_money.
      bindE (projection_money venue_gross reporting ''projected venue gross exposure'') (\<lambda>venue_money.
      bindE (projection_money instrument_gross reporting ''projected instrument gross exposure'') (\<lambda>instrument_money.
      bindE (projection_money margin reporting ''projected margin used'') (\<lambda>margin_money.
      bindE (projection_money available reporting ''projected available funds'') (\<lambda>available_money.
      Inr \<lparr>pj_risk_price = rp, pj_order_notional = order_money, pj_position_quantity = projected_quantity, pj_pending = pending_money,
           pj_gross = gross_money, pj_net = net_money, pj_strategy_gross = strategy_money, pj_venue_gross = venue_money,
           pj_instrument_gross = instrument_money, pj_margin_used = margin_money, pj_available_funds = available_money\<rparr>
      )))))))))))))))))))))))))))))))"

end
