(* ===== verification/Risk_Evaluator.thy ===== *)
theory Risk_Evaluator
  imports Risk_Projection
begin

text \<open>
  The evaluation of an order against the runtime-risk policy (\<^verbatim>\<open>src/packages/runtime_risk/evaluator.py\<close>): the
  authorities an order rests on, the consistency of the observed exposures, and the checks in their fixed
  order. Increments are positive in every observation that passed its validation, so no division by zero
  arises in the precision checks.
\<close>

section \<open>Authorities\<close>

definition validated_digest ::
  "risk_codec \<Rightarrow> ('a \<Rightarrow> 'a res) \<Rightarrow> ('a \<Rightarrow> (string \<times> json) list) \<Rightarrow> 'a \<Rightarrow> string \<Rightarrow> string res" where
  "validated_digest rx validate dump value field =
     catch_value_error (canonical_model_digest rx validate dump value) (ValueError (field @ '' cannot be canonically represented''))"

definition is_multiple :: "decimal \<Rightarrow> decimal \<Rightarrow> bool" where
  "is_multiple value increment = (snd (quotient_of (fraction value / fraction increment)) = 1)"

definition age_is_valid :: "datetime \<Rightarrow> datetime \<Rightarrow> int \<Rightarrow> bool" where
  "age_is_valid observed_at decided_at n = (dt_le observed_at decided_at \<and> dt_diff decided_at observed_at \<le> seconds n)"

definition instrument_authority :: "order_intent \<Rightarrow> runtime_risk_observation \<Rightarrow> instrument_risk_spec option" where
  "instrument_authority intent observation =
     (case filter (\<lambda>x. canonical (rs_instrument x) = canonical (oi_instrument intent)) (ro_instrument_specs observation) of
        [spec] \<Rightarrow>
          if rs_instrument spec \<noteq> oi_instrument intent \<or> rs_venue_id spec \<noteq> ii_venue (oi_instrument intent) then None
          else Some spec
      | _ \<Rightarrow> None)"

definition market_authority ::
  "order_intent \<Rightarrow> instrument_risk_spec option \<Rightarrow> runtime_risk_observation \<Rightarrow> risk_market_snapshot option" where
  "market_authority intent spec observation =
     (case spec of
        None \<Rightarrow> None
      | Some s \<Rightarrow>
          (case filter (\<lambda>x. canonical (rm_instrument x) = canonical (oi_instrument intent)) (ro_market_snapshots observation) of
             [market] \<Rightarrow>
               if rm_instrument market \<noteq> oi_instrument intent then None
               else if list_ex (\<lambda>p. p_currency p \<noteq> rs_settlement_currency s) [rm_bid market, rm_ask market, rm_last market] then None
               else Some market
           | _ \<Rightarrow> None))"

definition conversion_rate ::
  "currency \<Rightarrow> runtime_risk_observation \<Rightarrow> runtime_risk_policy \<Rightarrow> datetime \<Rightarrow> decimal option" where
  "conversion_rate source observation policy decided_at =
     (let reporting = as_reporting_currency (ro_portfolio observation)
      in if source = reporting then Some (dec_int 1)
         else case filter (\<lambda>x. rv_source_currency x = source \<and> rv_target_currency x = reporting) (ro_conversion_rates observation) of
                [conversion] \<Rightarrow>
                  if \<not> age_is_valid (rv_observed_at conversion) decided_at (rp_market_data_max_age_seconds policy)
                     \<or> dt_lt (ro_observed_at observation) (rv_observed_at conversion)
                  then None else Some (rv_rate conversion)
              | _ \<Rightarrow> None)"

definition valuation_authority_valid ::
  "instrument_risk_spec option \<Rightarrow> runtime_risk_observation \<Rightarrow> runtime_risk_policy \<Rightarrow> datetime \<Rightarrow> bool" where
  "valuation_authority_valid spec observation policy decided_at =
     (case spec of
        None \<Rightarrow> False
      | Some s \<Rightarrow>
          \<not> list_ex (\<lambda>v. m_currency v \<noteq> as_reporting_currency (ro_portfolio observation)) (policy_money policy)
          \<and> list_all (\<lambda>currency. conversion_rate currency observation policy decided_at \<noteq> None)
              (rs_settlement_currency s
               # map ap_settlement_currency
                   (filter (\<lambda>p. \<not> is_zero (q_value (ap_quantity p))) (as_positions (ro_portfolio observation)))))"

section \<open>Consistency of the exposures\<close>

definition add_amount :: "rat \<Rightarrow> string \<Rightarrow> rat partition \<Rightarrow> rat partition" where
  "add_amount contribution key mapping =
     (let (gross, net) = (case map_of mapping key of None \<Rightarrow> (0, 0) | Some v \<Rightarrow> v)
      in dict_put key (gross + \<bar>contribution\<bar>, net + contribution) mapping)"

fun position_amounts ::
  "runtime_risk_observation \<Rightarrow> runtime_risk_policy \<Rightarrow> datetime \<Rightarrow> rat partition \<times> rat partition \<times> rat partition
    \<Rightarrow> account_position_snapshot list \<Rightarrow> (rat partition \<times> rat partition \<times> rat partition) option" where
  "position_amounts observation policy decided_at amounts [] = Some amounts"
| "position_amounts observation policy decided_at (instruments, strategies, venues) (position # positions) =
     (if is_zero (q_value (ap_quantity position))
      then position_amounts observation policy decided_at (instruments, strategies, venues) positions
      else case ap_mark position of
             None \<Rightarrow> None
           | Some mark \<Rightarrow>
               (case conversion_rate (ap_settlement_currency position) observation policy decided_at of
                  None \<Rightarrow> None
                | Some rate \<Rightarrow>
                    let contribution = fraction (q_value (ap_quantity position)) * fraction (p_amount (pm_price mark)) * fraction rate
                    in position_amounts observation policy decided_at
                         (add_amount contribution (canonical (ap_instrument position)) instruments,
                          add_amount contribution (ap_strategy_id position) strategies,
                          add_amount contribution (ii_venue (ap_instrument position)) venues) positions))"

definition partition_consistent ::
  "account_portfolio_snapshot \<Rightarrow> (string \<times> exposure_snapshot) list \<Rightarrow> rat partition \<Rightarrow> bool" where
  "partition_consistent portfolio actual expected =
     (\<not> list_ex (\<lambda>(key, _). key \<notin> fst ` set actual) expected
      \<and> list_all (\<lambda>(key, exposure).
            let (expected_gross, expected_net) = (case map_of expected key of None \<Rightarrow> (0, 0) | Some v \<Rightarrow> v)
            in ex_currency exposure = as_reporting_currency portfolio
               \<and> fraction (m_amount (ex_gross exposure)) = expected_gross
               \<and> fraction (m_amount (ex_net exposure)) = expected_net) actual
      \<and> sum_list (map (\<lambda>(_, exposure). fraction (m_amount (ex_pending exposure))) actual)
          = fraction (m_amount (ex_pending (as_total_exposure portfolio))))"

definition partitions_are_consistent :: "runtime_risk_observation \<Rightarrow> runtime_risk_policy \<Rightarrow> datetime \<Rightarrow> bool" where
  "partitions_are_consistent observation policy decided_at =
     (let portfolio = ro_portfolio observation;
          total = as_total_exposure portfolio;
          (instruments, strategies, venues) = exposure_tables portfolio
      in case position_amounts observation policy decided_at ([], [], []) (as_positions portfolio) of
           None \<Rightarrow> False
         | Some (instrument_amounts, strategy_amounts, venue_amounts) \<Rightarrow>
             ex_currency total = as_reporting_currency portfolio
             \<and> \<not> dt_lt (ro_observed_at observation) (as_observed_at portfolio)
             \<and> fraction (m_amount (ex_gross total)) = sum_list (map (\<lambda>(_, gross, _). gross) instrument_amounts)
             \<and> fraction (m_amount (ex_net total)) = sum_list (map (\<lambda>(_, _, net). net) instrument_amounts)
             \<and> partition_consistent portfolio instruments instrument_amounts
             \<and> partition_consistent portfolio strategies strategy_amounts
             \<and> partition_consistent portfolio venues venue_amounts)"

definition order_positions :: "order_intent \<Rightarrow> runtime_risk_observation \<Rightarrow> account_position_snapshot list" where
  "order_positions intent observation =
     filter (\<lambda>p. ap_strategy_id p = oi_strategy_id intent \<and> canonical (ap_instrument p) = canonical (oi_instrument intent))
       (as_positions (ro_portfolio observation))"

definition portfolio_timestamps :: "account_portfolio_snapshot \<Rightarrow> datetime list" where
  "portfolio_timestamps portfolio =
     as_observed_at portfolio # map ab_observed_at (as_balances portfolio) @ map ap_observed_at (as_positions portfolio)
     @ concat (map (\<lambda>p. case ap_mark p of None \<Rightarrow> [] | Some mark \<Rightarrow> [pm_marked_at mark]) (as_positions portfolio))"

definition portfolio_authority_valid ::
  "order_intent \<Rightarrow> instrument_risk_spec option \<Rightarrow> runtime_risk_observation \<Rightarrow> runtime_risk_policy \<Rightarrow> datetime \<Rightarrow> bool \<Rightarrow> bool" where
  "portfolio_authority_valid intent spec observation policy decided_at valuation_valid =
     (let portfolio = ro_portfolio observation;
          matching = order_positions intent observation
      in oi_account_id intent = rp_account_id policy \<and> rp_account_id policy = as_account_id portfolio \<and> valuation_valid
         \<and> list_all (\<lambda>t. age_is_valid t decided_at (rp_portfolio_max_age_seconds policy)) (portfolio_timestamps portfolio)
         \<and> (case spec of
              None \<Rightarrow> True
            | Some s \<Rightarrow>
                length matching \<le> 1
                \<and> (case matching of
                     [] \<Rightarrow> True
                   | p # _ \<Rightarrow> ap_instrument p = oi_instrument intent \<and> ap_settlement_currency p = rs_settlement_currency s))
         \<and> partitions_are_consistent observation policy decided_at)"

definition venue_is_healthy ::
  "order_intent \<Rightarrow> instrument_risk_spec option \<Rightarrow> runtime_risk_observation \<Rightarrow> runtime_risk_policy \<Rightarrow> datetime \<Rightarrow> bool" where
  "venue_is_healthy intent spec observation policy decided_at =
     (let venue_id = (case spec of None \<Rightarrow> ii_venue (oi_instrument intent) | Some s \<Rightarrow> rs_venue_id s)
      in case filter (\<lambda>x. vh_venue_id x = venue_id) (ro_venue_health observation) of
           [v] \<Rightarrow> dt_le (vh_observed_at v) (ro_observed_at observation)
                   \<and> age_is_valid (vh_observed_at v) decided_at (rp_market_data_max_age_seconds policy) \<and> vh_health v = HEALTHY
         | _ \<Rightarrow> False)"

definition reduce_only_is_valid :: "order_intent \<Rightarrow> runtime_risk_observation \<Rightarrow> bool \<Rightarrow> bool" where
  "reduce_only_is_valid intent observation portfolio_valid =
     (if \<not> oi_reduce_only intent then True
      else if \<not> portfolio_valid then True
      else case order_positions intent observation of
             [p] \<Rightarrow>
               (let current = fraction (q_value (ap_quantity p));
                    quantity = fraction (oq_value (oi_quantity intent));
                    projected = current + (if oi_side intent = SELL then - quantity else quantity)
                in if 0 < current then 0 \<le> projected \<and> projected < current
                   else if current < 0 then current < projected \<and> projected \<le> 0
                   else False)
           | _ \<Rightarrow> False)"

section \<open>The checks\<close>

text \<open>What the evaluation establishes before the checks run.\<close>

record risk_findings =
  fd_spec :: "instrument_risk_spec option"
  fd_market_fresh :: bool
  fd_valuation_valid :: bool
  fd_portfolio_valid :: bool
  fd_venue_healthy :: bool
  fd_balance_valid :: bool
  fd_projection :: "runtime_risk_projection option"
  fd_projection_failed :: bool

definition policy_approved :: "order_intent \<Rightarrow> risk_decision \<Rightarrow> bool" where
  "policy_approved intent policy_decision =
     (oi_risk_decision_id intent = rd_decision_id policy_decision
      \<and> rd_outcome policy_decision \<in> {RISK_APPROVED, RISK_MODIFIED} \<and> rd_approved_target policy_decision \<noteq> None)"

definition order_prices :: "order_intent \<Rightarrow> price list" where
  "order_prices intent =
     concat (map (\<lambda>v. case v of None \<Rightarrow> [] | Some p \<Rightarrow> [p]) [oi_limit_price intent, oi_trigger_price intent, oi_trailing_offset intent])"

definition price_precision_valid :: "order_intent \<Rightarrow> instrument_risk_spec option \<Rightarrow> bool" where
  "price_precision_valid intent spec =
     (case spec of
        None \<Rightarrow> True
      | Some s \<Rightarrow>
          list_all (\<lambda>p. p_currency p = rs_settlement_currency s \<and> is_multiple (p_amount p) (p_amount (rs_price_increment s)))
            (order_prices intent))"

definition quantity_precision_valid :: "order_intent \<Rightarrow> instrument_risk_spec option \<Rightarrow> bool" where
  "quantity_precision_valid intent spec =
     (case spec of None \<Rightarrow> True | Some s \<Rightarrow> is_multiple (oq_value (oi_quantity intent)) (oq_value (rs_quantity_increment s)))"

definition quantity_bounds_valid :: "order_intent \<Rightarrow> instrument_risk_spec option \<Rightarrow> bool" where
  "quantity_bounds_valid intent spec =
     (case spec of
        None \<Rightarrow> True
      | Some s \<Rightarrow> dec_le (oq_value (rs_min_quantity s)) (oq_value (oi_quantity intent))
                  \<and> dec_le (oq_value (oi_quantity intent)) (oq_value (rs_max_quantity s)))"

definition notional_bounds_valid :: "currency \<Rightarrow> instrument_risk_spec option \<Rightarrow> runtime_risk_projection option \<Rightarrow> bool" where
  "notional_bounds_valid reporting spec projection =
     (case (spec, projection) of
        (Some s, Some p) \<Rightarrow>
          m_currency (rs_min_order_notional s) = reporting \<and> m_currency (rs_max_order_notional s) = reporting
          \<and> m_currency (pj_order_notional p) = reporting
          \<and> fraction (m_amount (rs_min_order_notional s)) \<le> fraction (m_amount (pj_order_notional p))
          \<and> fraction (m_amount (pj_order_notional p)) \<le> fraction (m_amount (rs_max_order_notional s))
      | _ \<Rightarrow> True)"

definition balance_margin_failed :: "currency \<Rightarrow> runtime_risk_policy \<Rightarrow> bool \<Rightarrow> runtime_risk_projection option \<Rightarrow> bool" where
  "balance_margin_failed reporting policy balance_valid projection =
     (\<not> balance_valid
      \<or> (case projection of
           None \<Rightarrow> False
         | Some p \<Rightarrow> m_currency (pj_available_funds p) \<noteq> reporting
                     \<or> dec_lt (m_amount (pj_available_funds p)) (m_amount (rp_min_available_funds policy))))"

definition command_rate_valid :: "runtime_risk_observation \<Rightarrow> runtime_risk_policy \<Rightarrow> datetime \<Rightarrow> bool" where
  "command_rate_valid observation policy decided_at =
     (list_all (\<lambda>t. age_is_valid (ro_command_window_started_at observation) t (rp_command_window_seconds policy))
        [ro_observed_at observation, decided_at]
      \<and> ro_commands_in_window observation + 1 \<le> rp_max_commands_per_window policy)"

definition duplicate_command :: "order_intent \<Rightarrow> runtime_risk_observation \<Rightarrow> bool" where
  "duplicate_command intent observation =
     list_ex (\<lambda>prior. pc_intent_id prior = oi_intent_id intent \<or> pc_client_order_id prior = oi_client_order_id intent)
       (ro_prior_commands observation)"

definition exceeds :: "runtime_risk_projection option \<Rightarrow> (runtime_risk_projection \<Rightarrow> money) \<Rightarrow> money \<Rightarrow> bool" where
  "exceeds projection amount limit =
     (case projection of None \<Rightarrow> False | Some p \<Rightarrow> dec_lt (m_amount limit) (m_amount (amount p)))"

definition risk_checks ::
  "order_intent \<Rightarrow> risk_decision \<Rightarrow> runtime_risk_observation \<Rightarrow> runtime_risk_policy \<Rightarrow> datetime \<Rightarrow> risk_findings
    \<Rightarrow> (runtime_risk_reason \<times> bool) list" where
  "risk_checks intent policy_decision observation policy decided_at f =
     (let spec = fd_spec f;
          known = (spec \<noteq> None);
          projection = fd_projection f;
          reporting = as_reporting_currency (ro_portfolio observation);
          drawdown = max (fraction (m_amount (ro_peak_equity observation)) - fraction (m_amount (ro_current_equity observation))) 0
      in
      [(POLICY_RISK_NOT_APPROVED, \<not> policy_approved intent policy_decision),
       (ENGINE_NOT_READY, \<not> ro_engine_ready observation),
       (INSTRUMENT_UNKNOWN, \<not> known),
       (MARKET_DATA_STALE, known \<and> \<not> fd_market_fresh f),
       (VALUATION_AUTHORITY_MISSING, known \<and> (\<not> fd_valuation_valid f \<or> fd_projection_failed f)),
       (PORTFOLIO_STATE_INVALID, known \<and> fd_valuation_valid f \<and> \<not> fd_portfolio_valid f),
       (PRICE_PRECISION_INVALID, known \<and> \<not> price_precision_valid intent spec),
       (QUANTITY_PRECISION_INVALID, known \<and> \<not> quantity_precision_valid intent spec),
       (QUANTITY_OUT_OF_BOUNDS, known \<and> \<not> quantity_bounds_valid intent spec),
       (ORDER_NOTIONAL_LIMIT, projection \<noteq> None \<and> \<not> notional_bounds_valid reporting spec projection),
       (BALANCE_MARGIN_LIMIT, balance_margin_failed reporting policy (fd_balance_valid f) projection),
       (PENDING_EXPOSURE_LIMIT, exceeds projection pj_pending (rp_max_pending_exposure policy)),
       (GROSS_EXPOSURE_LIMIT, exceeds projection pj_gross (rp_max_gross_exposure policy)),
       (NET_EXPOSURE_LIMIT,
          (case projection of
             None \<Rightarrow> False
           | Some p \<Rightarrow> fraction (m_amount (rp_max_abs_net_exposure policy)) < \<bar>fraction (m_amount (pj_net p))\<bar>)),
       (STRATEGY_EXPOSURE_LIMIT, exceeds projection pj_strategy_gross (rp_max_strategy_exposure policy)),
       (VENUE_EXPOSURE_LIMIT, exceeds projection pj_venue_gross (rp_max_venue_exposure policy)),
       (DAILY_LOSS_LIMIT, \<not> (- fraction (m_amount (rp_max_daily_loss policy)) \<le> fraction (m_amount (ro_daily_pnl observation)))),
       (DRAWDOWN_LIMIT, \<not> (drawdown \<le> fraction (m_amount (rp_max_drawdown policy)))),
       (REDUCE_ONLY_VIOLATION, \<not> reduce_only_is_valid intent observation (fd_portfolio_valid f)),
       (COMMAND_RATE_LIMIT, \<not> command_rate_valid observation policy decided_at),
       (VENUE_UNHEALTHY, \<not> fd_venue_healthy f),
       (DUPLICATE_COMMAND, duplicate_command intent observation)])"

text \<open>The projection runs when every authority is present; only its own error is caught.\<close>

definition try_projection ::
  "risk_codec \<Rightarrow> order_intent \<Rightarrow> runtime_risk_observation \<Rightarrow> runtime_risk_policy \<Rightarrow> datetime \<Rightarrow> bool
    \<Rightarrow> (runtime_risk_projection option \<times> bool) res" where
  "try_projection rx intent observation policy decided_at ready =
     (if \<not> ready then Inr (None, False)
      else case project_runtime_order rx intent observation policy decided_at of
             Inr p \<Rightarrow> Inr (Some p, False)
           | Inl (ProjectionError _) \<Rightarrow> Inr (None, True)
           | Inl e \<Rightarrow> Inl e)"

definition find_risk ::
  "risk_codec \<Rightarrow> order_intent \<Rightarrow> runtime_risk_observation \<Rightarrow> runtime_risk_policy \<Rightarrow> datetime \<Rightarrow> risk_findings res" where
  "find_risk rx intent observation policy decided_at =
     (let spec = instrument_authority intent observation;
          market = market_authority intent spec observation;
          market_fresh = (case market of
                            None \<Rightarrow> False
                          | Some m \<Rightarrow> age_is_valid (rm_observed_at m) decided_at (rp_market_data_max_age_seconds policy)
                                      \<and> dt_le (rm_observed_at m) (ro_observed_at observation));
          valuation_valid = valuation_authority_valid spec observation policy decided_at;
          portfolio_valid = portfolio_authority_valid intent spec observation policy decided_at valuation_valid;
          reporting = as_reporting_currency (ro_portfolio observation);
          balance_valid = (length (filter (\<lambda>b. ab_currency b = reporting) (as_balances (ro_portfolio observation))) = 1);
          ready = (case spec of
                     None \<Rightarrow> False
                   | Some s \<Rightarrow> market \<noteq> None \<and> valuation_valid \<and> portfolio_valid \<and> balance_valid
                               \<and> filter (\<lambda>x. vh_venue_id x = rs_venue_id s) (ro_venue_health observation) \<noteq> [])
      in
      bindE (try_projection rx intent observation policy decided_at ready) (\<lambda>(projection, failed).
      Inr \<lparr>fd_spec = spec, fd_market_fresh = market_fresh, fd_valuation_valid = valuation_valid, fd_portfolio_valid = portfolio_valid,
           fd_venue_healthy = venue_is_healthy intent spec observation policy decided_at, fd_balance_valid = balance_valid,
           fd_projection = projection, fd_projection_failed = failed\<rparr>))"

definition evaluate_runtime_order_risk ::
  "risk_codec \<Rightarrow> uuid \<Rightarrow> order_intent \<Rightarrow> risk_decision \<Rightarrow> runtime_risk_observation \<Rightarrow> runtime_risk_policy \<Rightarrow> datetime
    \<Rightarrow> runtime_order_risk_decision res" where
  "evaluate_runtime_order_risk rx decision_id intent policy_decision observation policy decided_at =
     bindE (require_utc decided_at) (\<lambda>_.
     bindE (validated_digest rx mk_order_intent (rx_intent rx) intent ''intent'') (\<lambda>intent_digest.
     bindE (validated_digest rx mk_risk_decision (rx_decision rx) policy_decision ''policy_decision'') (\<lambda>policy_decision_digest.
     bindE (validated_digest rx mk_runtime_risk_observation (rx_observation rx) observation ''observation'') (\<lambda>observation_digest.
     bindE (validated_digest rx mk_runtime_risk_policy (rx_policy rx) policy ''policy'') (\<lambda>policy_digest.
     bindE (validated_digest rx mk_account_portfolio_snapshot (rx_portfolio rx) (ro_portfolio observation) ''portfolio'') (\<lambda>portfolio_digest.
     if \<not> (dt_le (rd_decided_at policy_decision) (oi_requested_at intent) \<and> dt_le (oi_requested_at intent) decided_at
            \<and> dt_le (ro_observed_at observation) decided_at)
     then Inl (ValueError ''runtime-risk inputs are not in valid UTC time order'')
     else
       bindE (find_risk rx intent observation policy decided_at) (\<lambda>f.
       let failed = map fst (filter snd (risk_checks intent policy_decision observation policy decided_at f));
           projection = fd_projection f
       in
       mk_runtime_order_risk_decision
         \<lparr>od_decision_id = decision_id, od_intent_id = oi_intent_id intent, od_risk_decision_id = oi_risk_decision_id intent,
          od_intent_digest = intent_digest, od_policy_risk_decision_digest = policy_decision_digest,
          od_portfolio_snapshot_id = as_snapshot_id (ro_portfolio observation), od_portfolio_digest = portfolio_digest,
          od_observation_id = ro_observation_id observation, od_observation_version = ro_state_version observation,
          od_observation_digest = observation_digest, od_policy_id = rp_policy_id policy, od_policy_version = rp_policy_version policy,
          od_policy_digest = policy_digest, od_risk_price = map_option pj_risk_price projection,
          od_order_notional = map_option pj_order_notional projection,
          od_projected_position_quantity = map_option pj_position_quantity projection,
          od_projected_pending = map_option pj_pending projection, od_projected_gross = map_option pj_gross projection,
          od_projected_net = map_option pj_net projection, od_projected_strategy_gross = map_option pj_strategy_gross projection,
          od_projected_venue_gross = map_option pj_venue_gross projection,
          od_projected_instrument_gross = map_option pj_instrument_gross projection,
          od_projected_margin_used = map_option pj_margin_used projection,
          od_projected_available_funds = map_option pj_available_funds projection,
          od_outcome = (if failed = [] then RT_APPROVED else RT_REJECTED),
          od_reason_codes = (if failed = [] then [WITHIN_LIMITS] else failed), od_decided_at = decided_at\<rparr>)))))))"

end
