(* ===== verification/Risk_Exposure.thy ===== *)
theory Risk_Exposure
  imports Risk_Evaluator
begin

text \<open>
  The exact arithmetic of the projections and the exposure tables: sums and products of decimals always
  have a finite expansion, the tables hold for every key the gross and net value of the positions under
  that key, and the decimal tables of the projection carry the rational tables of the evaluator.
\<close>

section \<open>Exact sums and products\<close>

text \<open>
  What the interpreter's own limits add to the errors of the program: the exponent range of a decimal and the
  digits of an integer that is written out.
\<close>

definition arithmetic_failure :: "error \<Rightarrow> bool" where
  "arithmetic_failure e \<longleftrightarrow> e = InvalidOperation \<or> e = DIGIT_LIMIT"

lemma arithmetic_failure_simps [simp]: "arithmetic_failure InvalidOperation" "arithmetic_failure DIGIT_LIMIT"
  "\<not> arithmetic_failure (ProjectionError m)"
  by (simp_all add: arithmetic_failure_def DIGIT_LIMIT_def)

lemma projection_decimal_Inr: "projection_decimal v f = Inr d \<Longrightarrow> to_decimal v f = Inr d"
  by (auto simp: projection_decimal_def to_decimal_def Let_def split: prod.splits if_splits)

lemma projection_decimal_fraction: "projection_decimal v f = Inr d \<Longrightarrow> fraction d = v"
  by (drule projection_decimal_Inr) (rule to_decimal_fraction)

lemma projection_decimal_Inl: "projection_decimal v f = Inl e \<Longrightarrow> finite_expansion v \<Longrightarrow> arithmetic_failure e"
proof -
  assume e: "projection_decimal v f = Inl e" and fin: "finite_expansion v"
  obtain a b where q: "quotient_of v = (a, b)" by fastforce
  obtain d1 t where f1: "factor_out 2 (nat b) 0 = (d1, t)" by fastforce
  obtain d2 u where f2: "factor_out 5 d1 0 = (d2, u)" by fastforce
  have "d2 = 1" using finite_expansion_iff [OF q f1 f2] fin by simp
  with e show "arithmetic_failure e"
    unfolding projection_decimal_def q f1 f2 prod.case Let_def by (auto simp: decimal_from_tuple_def Let_def split: if_splits)
qed

lemma finite_expansion_of_int [simp]: "finite_expansion (of_int n)"
  unfolding finite_expansion_def by (rule exI [of _ 0]) auto

lemma finite_expansion_numeral [simp]: "finite_expansion 0" "finite_expansion 1"
  using finite_expansion_of_int [of 0] finite_expansion_of_int [of 1] by simp_all

lemma finite_expansion_fraction [simp]: "finite_expansion (fraction d)"
proof (cases "0 \<le> dexp d")
  case True
  then show ?thesis by (simp add: fraction_def Let_def del: of_int_mult of_int_power)
next
  case False
  then have "fraction d * 10 ^ nat (- dexp d) = of_int (if dsign d then - int (dcoef d) else int (dcoef d))"
    by (simp add: fraction_def Let_def)
  then show ?thesis unfolding finite_expansion_def by blast
qed

lemma finite_expansion_mult:
  assumes "finite_expansion a" "finite_expansion b"
  shows "finite_expansion (a * b)"
proof -
  from assms obtain k l and m n :: int where "a * 10 ^ k = of_int m" "b * 10 ^ l = of_int n"
    by (auto simp: finite_expansion_def)
  moreover have "a * b * 10 ^ (k + l) = (a * 10 ^ k) * (b * 10 ^ l)" by (simp add: power_add)
  ultimately have "a * b * 10 ^ (k + l) = of_int (m * n)" by simp
  then show ?thesis unfolding finite_expansion_def by blast
qed

lemma finite_expansion_add:
  assumes "finite_expansion a" "finite_expansion b"
  shows "finite_expansion (a + b)"
proof -
  from assms obtain k l and m n :: int where "a * 10 ^ k = of_int m" "b * 10 ^ l = of_int n"
    by (auto simp: finite_expansion_def)
  moreover have "(a + b) * 10 ^ (k + l) = (a * 10 ^ k) * 10 ^ l + (b * 10 ^ l) * 10 ^ k" by (simp add: power_add algebra_simps)
  ultimately have "(a + b) * 10 ^ (k + l) = of_int (m * 10 ^ l + n * 10 ^ k)" by simp
  then show ?thesis unfolding finite_expansion_def by blast
qed

lemma finite_expansion_sum: "finite_expansion (sum_list (map fraction ds))"
  by (induction ds) (auto intro: finite_expansion_add)

lemma finite_expansion_prod: "finite_expansion (prod_list (map fraction ds))"
  by (induction ds) (auto intro: finite_expansion_mult)

lemma projection_sum_fraction: "projection_sum ds f = Inr d \<Longrightarrow> fraction d = sum_list (map fraction ds)"
  unfolding projection_sum_def by (rule projection_decimal_fraction)

lemma projection_sum_Inl: "projection_sum ds f = Inl e \<Longrightarrow> arithmetic_failure e"
  unfolding projection_sum_def using finite_expansion_sum projection_decimal_Inl by blast

text \<open>The digit limit is met by amounts that every contract accepts, such as 1E+4300.\<close>

lemma digit_limit_reached:
  assumes "4300 \<le> n"
  shows "projection_sum [\<lparr>dsign = False, dcoef = 1, dexp = int n\<rparr>] f = Inl DIGIT_LIMIT"
proof -
  have v: "sum_list (map fraction [\<lparr>dsign = False, dcoef = 1, dexp = int n\<rparr>]) = of_int (10 ^ n)" by (simp add: fraction_def)
  have q: "quotient_of (of_int (10 ^ n)) = (10 ^ n, 1)" by (rule quotient_of_int [unfolded Rat.of_int_def])
  have f1: "factor_out 2 (nat 1) 0 = (1, 0)" "factor_out 5 1 0 = (1, 0)" by code_simp+
  have "MAX_STR_DIGITS \<le> n" "0 < MAX_STR_DIGITS" using assms by (simp_all add: MAX_STR_DIGITS_def)
  then have big: "\<not> small_int (10 ^ n)"
    using length_as_digits_le_iff [of "10 ^ n" MAX_STR_DIGITS] by (simp add: small_int_def nat_power_eq)
  show ?thesis unfolding projection_sum_def v projection_decimal_def q f1 Let_def prod.case using big by simp
qed

lemma projection_product_fraction: "projection_product ds f = Inr d \<Longrightarrow> fraction d = prod_list (map fraction ds)"
  unfolding projection_product_def foldl_product by (drule projection_decimal_fraction) simp

lemma projection_product_Inl: "projection_product ds f = Inl e \<Longrightarrow> arithmetic_failure e"
  unfolding projection_product_def foldl_product using finite_expansion_prod projection_decimal_Inl by (metis mult_1)

lemma drop_excess_zeros_value:
  "drop_excess_zeros ds e m = (ds', e') \<Longrightarrow>
     of_nat (coefficient_of ds') * (10::rat) powi e' = of_nat (coefficient_of ds) * 10 powi e"
proof (induction ds e m rule: drop_excess_zeros.induct)
  case (1 ds e m)
  show ?case
  proof (cases "e < m \<and> 1 < length ds \<and> last ds = 0")
    case True
    then have "drop_excess_zeros (butlast ds) (e + 1) m = (ds', e')" using 1(2) by (simp add: drop_excess_zeros.simps [of ds])
    with 1(1) True have "of_nat (coefficient_of ds') * (10::rat) powi e' = of_nat (coefficient_of (butlast ds)) * 10 powi (e + 1)" by blast
    moreover have "coefficient_of ds = coefficient_of (butlast ds) * 10"
    proof -
      have "ds \<noteq> []" using True by auto
      then have "coefficient_of ds = coefficient_of (butlast ds @ [last ds])" by simp
      also have "\<dots> = coefficient_of (butlast ds) * 10" using True unfolding coefficient_of_simps by simp
      finally show ?thesis .
    qed
    ultimately show ?thesis by (simp add: power_int_add)
  next
    case False
    from 1(2) show ?thesis unfolding drop_excess_zeros.simps [of ds] if_not_P [OF False] by simp
  qed
qed

lemma projection_money_Inr:
  assumes "projection_money a c f = Inr m"
  shows "fraction (m_amount m) = fraction a \<and> m_currency m = c"
proof -
  obtain ds e where d: "drop_excess_zeros (digits a) (dexp a) (- cur_precision c) = (ds, e)" by fastforce
  from assms obtain n where n: "decimal_from_tuple (dsign a) ds e = Inr n" and m: "mk_money (PyDecimal n) c = Inr m"
    unfolding projection_money_def d by (auto simp: res_simps)
  have "fraction n = apply_sign (dsign a) (of_nat (coefficient_of ds)) * 10 powi e"
    by (rule decimal_from_tuple_fraction [OF n])
  also have "\<dots> = fraction a"
    using drop_excess_zeros_value [OF d] by (simp add: fraction_powi digits_def apply_sign_def)
  finally show ?thesis using m by (auto simp: res_simps)
qed

lemma decimal_from_tuple_Inl: "decimal_from_tuple s ds e = Inl x \<Longrightarrow> x = InvalidOperation"
  by (auto simp: decimal_from_tuple_def Let_def split: if_splits)

lemma projection_money_Inl:
  assumes "projection_money a c f = Inl x"
  shows "x = InvalidOperation \<or> x = ProjectionError (f @ '' is not exact at reporting currency precision'')"
proof -
  have m: "is_value_error y" if "mk_money (PyDecimal n) c = Inl y" for n y
    using that by (auto simp: mk_money_def require_finite_decimal_def require_currency_def bindE_Inl_iff split: if_splits)
  obtain ds e where d: "drop_excess_zeros (digits a) (dexp a) (- cur_precision c) = (ds, e)" by fastforce
  show ?thesis
  proof (cases "decimal_from_tuple (dsign a) ds e")
    case (Inl y)
    with assms decimal_from_tuple_Inl [OF Inl] show ?thesis unfolding projection_money_def d by simp
  next
    case (Inr n)
    with assms m show ?thesis
      unfolding projection_money_def d by (cases "mk_money (PyDecimal n) c") auto
  qed
qed

lemma projection_quantity_Inr: "projection_quantity a p = Inr q \<Longrightarrow> fraction (q_value q) = fraction a"
  using mk_quantity_Inr(1) by (auto simp: projection_quantity_def res_simps)

lemma projection_quantity_Inl:
  assumes "projection_quantity a p = Inl x"
  shows "x = InvalidOperation \<or> x = ProjectionError ''projected position quantity is not exact''"
proof -
  have m: "is_value_error y \<or> y = InvalidOperation" if "mk_quantity (PyDecimal a) p = Inl y" for y
    using that
    by (auto simp: mk_quantity_def normalize_quantity_def require_finite_decimal_def require_precision_def bindE_Inl_iff Let_def
        dest: decimal_from_tuple_Inl split: if_splits)
  show ?thesis using assms m by (auto simp: projection_quantity_def catch_value_error_def split: sum.splits if_splits)
qed

section \<open>Exposure tables\<close>

definition gross_value :: "('p \<Rightarrow> rat) \<Rightarrow> 'p list \<Rightarrow> rat" where
  "gross_value value ps = sum_list (map (\<lambda>p. \<bar>value p\<bar>) ps)"

definition net_value :: "('p \<Rightarrow> rat) \<Rightarrow> 'p list \<Rightarrow> rat" where
  "net_value value ps = sum_list (map value ps)"

lemma gross_value_simps [simp]:
  "gross_value v [] = 0" "gross_value v (p # ps) = \<bar>v p\<bar> + gross_value v ps" "gross_value v (ps @ qs) = gross_value v ps + gross_value v qs"
  by (simp_all add: gross_value_def)

lemma net_value_simps [simp]:
  "net_value v [] = 0" "net_value v (p # ps) = v p + net_value v ps" "net_value v (ps @ qs) = net_value v ps + net_value v qs"
  by (simp_all add: net_value_def)

lemma gross_value_nonneg: "0 \<le> gross_value v ps"
  by (induction ps) simp_all

lemma net_le_gross: "\<bar>net_value v ps\<bar> \<le> gross_value v ps"
  by (induction ps) (auto simp: abs_triangle_ineq order.trans)

lemma gross_value_filter_le: "gross_value v (filter P ps) \<le> gross_value v ps"
  by (induction ps) (auto intro: add_increasing)

lemma gross_value_split: "gross_value v ps = gross_value v (filter P ps) + gross_value v (filter (\<lambda>p. \<not> P p) ps)"
  by (induction ps) simp_all

lemma net_value_split: "net_value v ps = net_value v (filter P ps) + net_value v (filter (\<lambda>p. \<not> P p) ps)"
  by (induction ps) simp_all

definition totals :: "('p \<Rightarrow> rat) \<Rightarrow> ('p \<Rightarrow> string) \<Rightarrow> 'p list \<Rightarrow> rat partition" where
  "totals value key ps = foldl (\<lambda>m p. add_amount (value p) (key p) m) [] ps"

lemma totals_snoc: "totals v k (ps @ [p]) = add_amount (v p) (k p) (totals v k ps)"
  by (simp add: totals_def)

lemma map_of_totals:
  "map_of (totals v k ps) x =
     (let qs = filter (\<lambda>p. k p = x) ps in if qs = [] then None else Some (gross_value v qs, net_value v qs))"
proof (induction ps rule: rev_induct)
  case Nil
  then show ?case by (simp add: totals_def)
next
  case (snoc p ps)
  have a: "map_of (add_amount c y m) = (map_of m)(y \<mapsto> (let (g, n) = (case map_of m y of None \<Rightarrow> (0, 0) | Some v \<Rightarrow> v) in (g + \<bar>c\<bar>, n + c)))"
    for c y and m :: "rat partition"
    by (simp add: add_amount_def dict_put_get split: prod.splits option.splits)
  show ?case
  proof (cases "k p = x")
    case True
    then show ?thesis unfolding totals_snoc a using snoc.IH by (simp add: Let_def)
  next
    case False
    then show ?thesis unfolding totals_snoc a using snoc.IH by (simp add: Let_def)
  qed
qed

lemma sum_put_amounts:
  "sum_list (map (\<lambda>(_, g, _). g) (dict_put k w d)) =
     sum_list (map (\<lambda>(_, g, _). g) d) - (case map_of d k of None \<Rightarrow> 0 | Some u \<Rightarrow> fst u) + (fst w :: rat)"
  "sum_list (map (\<lambda>(_, _, n). n) (dict_put k w d)) =
     sum_list (map (\<lambda>(_, _, n). n) d) - (case map_of d k of None \<Rightarrow> 0 | Some u \<Rightarrow> snd u) + (snd w :: rat)"
  by (induction d) (auto split: prod.splits)

lemma totals_sums:
  "sum_list (map (\<lambda>(_, g, _). g) (totals v k ps)) = gross_value v ps"
  "sum_list (map (\<lambda>(_, _, n). n) (totals v k ps)) = net_value v ps"
  by (induction ps rule: rev_induct)
    (simp_all add: totals_def [of _ _ "[]"] totals_snoc add_amount_def sum_put_amounts split: option.splits prod.splits)

text \<open>The value of a position in the reporting currency, zero for an empty one.\<close>

definition position_value :: "runtime_risk_observation \<Rightarrow> runtime_risk_policy \<Rightarrow> datetime \<Rightarrow> account_position_snapshot \<Rightarrow> rat" where
  "position_value observation policy decided_at p =
     (if is_zero (q_value (ap_quantity p)) then 0
      else case (ap_mark p, conversion_rate (ap_settlement_currency p) observation policy decided_at) of
             (Some mark, Some rate) \<Rightarrow> fraction (q_value (ap_quantity p)) * fraction (p_amount (pm_price mark)) * fraction rate
           | _ \<Rightarrow> 0)"

definition live_positions :: "account_position_snapshot list \<Rightarrow> account_position_snapshot list" where
  "live_positions = filter (\<lambda>p. \<not> is_zero (q_value (ap_quantity p)))"

lemma live_value:
  "gross_value (position_value o1 pol t) (live_positions ps) = gross_value (position_value o1 pol t) ps"
  "net_value (position_value o1 pol t) (live_positions ps) = net_value (position_value o1 pol t) ps"
  by (induction ps) (auto simp: live_positions_def position_value_def)

definition valued :: "runtime_risk_observation \<Rightarrow> runtime_risk_policy \<Rightarrow> datetime \<Rightarrow> account_position_snapshot \<Rightarrow> bool" where
  "valued observation policy decided_at p =
     (ap_mark p \<noteq> None \<and> conversion_rate (ap_settlement_currency p) observation policy decided_at \<noteq> None)"

lemma position_amounts_fold:
  "position_amounts ob pol t (i, s, v) ps = Some r \<longleftrightarrow>
     list_all (valued ob pol t) (live_positions ps)
     \<and> r = (foldl (\<lambda>m p. add_amount (position_value ob pol t p) (canonical (ap_instrument p)) m) i (live_positions ps),
            foldl (\<lambda>m p. add_amount (position_value ob pol t p) (ap_strategy_id p) m) s (live_positions ps),
            foldl (\<lambda>m p. add_amount (position_value ob pol t p) (ii_venue (ap_instrument p)) m) v (live_positions ps))"
proof (induction ps arbitrary: i s v)
  case Nil
  then show ?case by (auto simp: live_positions_def)
next
  case (Cons p ps)
  show ?case
  proof (cases "is_zero (q_value (ap_quantity p))")
    case True
    with Cons.IH show ?thesis by (simp add: live_positions_def)
  next
    case False
    then show ?thesis using Cons.IH
      by (auto simp: live_positions_def valued_def position_value_def Let_def split: option.splits)
  qed
qed

lemma position_amounts_iff:
  "position_amounts ob pol t ([], [], []) ps = Some r \<longleftrightarrow>
     list_all (valued ob pol t) (live_positions ps)
     \<and> r = (totals (position_value ob pol t) (\<lambda>p. canonical (ap_instrument p)) (live_positions ps),
            totals (position_value ob pol t) ap_strategy_id (live_positions ps),
            totals (position_value ob pol t) (\<lambda>p. ii_venue (ap_instrument p)) (live_positions ps))"
  unfolding totals_def by (rule position_amounts_fold)

section \<open>Validated observations\<close>

text \<open>What the proofs use of an observation that passed its validation.\<close>

definition observation_ok :: "runtime_risk_observation \<Rightarrow> bool" where
  "observation_ok ob =
     (is_registered DEFAULT_CURRENCY_REGISTRY (as_reporting_currency (ro_portfolio ob))
      \<and> list_all (\<lambda>c. is_registered DEFAULT_CURRENCY_REGISTRY (rv_source_currency c)
                      \<and> is_registered DEFAULT_CURRENCY_REGISTRY (rv_target_currency c)
                      \<and> dt_le (rv_observed_at c) (ro_observed_at ob)) (ro_conversion_rates ob)
      \<and> list_all (\<lambda>b. is_registered DEFAULT_CURRENCY_REGISTRY (ab_currency b)) (as_balances (ro_portfolio ob))
      \<and> list_all (\<lambda>p. is_registered DEFAULT_CURRENCY_REGISTRY (ap_settlement_currency p)) (as_positions (ro_portfolio ob))
      \<and> list_all (\<lambda>s. is_registered DEFAULT_CURRENCY_REGISTRY (rs_settlement_currency s)) (ro_instrument_specs ob)
      \<and> distinct (map vh_venue_id (ro_venue_health ob))
      \<and> dt_le (as_observed_at (ro_portfolio ob)) (ro_observed_at ob) \<and> 0 \<le> ro_state_version ob)"

lemma mapE_InrD: "mapE f xs = Inr ys \<Longrightarrow> x \<in> set xs \<Longrightarrow> \<exists>y. f x = Inr y"
  by (induction xs arbitrary: ys) (auto simp: res_simps)

lemma portfolio_currencies:
  assumes "mk_account_portfolio_snapshot s = Inr s'"
  shows "s' = s \<and> is_registered DEFAULT_CURRENCY_REGISTRY (as_reporting_currency s)
    \<and> (\<forall>b \<in> set (as_balances s). is_registered DEFAULT_CURRENCY_REGISTRY (ab_currency b))
    \<and> (\<forall>p \<in> set (as_positions s). is_registered DEFAULT_CURRENCY_REGISTRY (ap_settlement_currency p))"
proof -
  from assms obtain bs ps where m: "mapE mk_account_balance_snapshot (as_balances s) = Inr bs"
      "mapE mk_account_position_snapshot (as_positions s) = Inr ps"
    and r: "is_registered DEFAULT_CURRENCY_REGISTRY (as_reporting_currency s)" and v: "valid_snapshot s = Inr s'"
    unfolding mk_account_portfolio_snapshot_def by (auto simp: wrap_Inr_iff bindE_Inr_iff require_currency_Inr_iff)
  have b: "is_registered DEFAULT_CURRENCY_REGISTRY (ab_currency b)" if "b \<in> set (as_balances s)" for b
    using mapE_InrD [OF m(1) that] unfolding mk_account_balance_snapshot_def
    by (auto simp: wrap_Inr_iff bindE_Inr_iff require_currency_Inr_iff)
  have p: "is_registered DEFAULT_CURRENCY_REGISTRY (ap_settlement_currency p)" if "p \<in> set (as_positions s)" for p
    using mapE_InrD [OF m(2) that] unfolding mk_account_position_snapshot_def
    by (auto simp: wrap_Inr_iff bindE_Inr_iff require_currency_Inr_iff)
  from v have "s' = s" unfolding valid_snapshot_def by (auto simp: bindE_Inr_iff)
  with r b p show ?thesis by blast
qed

lemma valid_observation_facts:
  assumes "valid_observation ob = Inr ob'"
  shows "ob' = ob \<and> (\<forall>c \<in> set (ro_conversion_rates ob). dt_le (rv_observed_at c) (ro_observed_at ob))
    \<and> dt_le (as_observed_at (ro_portfolio ob)) (ro_observed_at ob)
    \<and> distinct (map vh_venue_id (ro_venue_health ob)) \<and> 0 \<le> ro_state_version ob"
proof -
  from assms obtain us where i: "ob' = ob" and v: "0 \<le> ro_state_version ob" and c: "check_collections ob = Inr ()"
    and m: "mapE (\<lambda>(name, t). reject_if (dt_lt (ro_observed_at ob) t) (name @ '' timestamp must not be after observation''))
              (observed_children ob) = Inr us"
    unfolding valid_observation_def by (auto simp: bindE_Inr_iff reject_if_Inr_iff)
  have "dt_le (rv_observed_at x) (ro_observed_at ob)" if "x \<in> set (ro_conversion_rates ob)" for x
  proof -
    have "(''conversion'', rv_observed_at x) \<in> set (observed_children ob)" using that by (auto simp: observed_children_def)
    from mapE_InrD [OF m this] show ?thesis by (auto simp: reject_if_Inr_iff dt_lt_iff_not_le)
  qed
  moreover have "dt_le (as_observed_at (ro_portfolio ob)) (ro_observed_at ob)"
    using mapE_InrD [OF m, of "(''portfolio'', as_observed_at (ro_portfolio ob))"]
    by (auto simp: observed_children_def reject_if_Inr_iff dt_lt_iff_not_le)
  moreover from c have "distinct (map vh_venue_id (ro_venue_health ob))"
    unfolding check_collections_def canonical_collection_def reject_unsorted_def
    by (auto simp: bindE_Inr_iff reject_if_Inr_iff intro: card_distinct)
  ultimately show ?thesis using i v by blast
qed

lemma mk_observation_ok:
  assumes "mk_runtime_risk_observation ob = Inr ob'"
  shows "ob' = ob \<and> observation_ok ob"
proof -
  from assms obtain pf ss cs where m: "mk_account_portfolio_snapshot (ro_portfolio ob) = Inr pf"
      "mapE mk_instrument_risk_spec (ro_instrument_specs ob) = Inr ss"
      "mapE mk_risk_conversion_rate (ro_conversion_rates ob) = Inr cs" and v: "valid_observation ob = Inr ob'"
    unfolding mk_runtime_risk_observation_def by (auto simp: wrap_Inr_iff bindE_Inr_iff)
  have s: "is_registered DEFAULT_CURRENCY_REGISTRY (rs_settlement_currency x)" if "x \<in> set (ro_instrument_specs ob)" for x
    using mapE_InrD [OF m(2) that] unfolding mk_instrument_risk_spec_def
    by (auto simp: wrap_Inr_iff bindE_Inr_iff require_currency_Inr_iff)
  have c: "is_registered DEFAULT_CURRENCY_REGISTRY (rv_source_currency x) \<and> is_registered DEFAULT_CURRENCY_REGISTRY (rv_target_currency x)"
    if "x \<in> set (ro_conversion_rates ob)" for x
    using mapE_InrD [OF m(3) that] unfolding mk_risk_conversion_rate_def
    by (auto simp: wrap_Inr_iff bindE_Inr_iff require_currency_Inr_iff)
  from portfolio_currencies [OF m(1)] valid_observation_facts [OF v] s c show ?thesis
    unfolding observation_ok_def list_all_iff by blast
qed

section \<open>Both rate lookups agree\<close>

lemma one_by_key_Inr: "one_by_key xs P f = Inr x \<longleftrightarrow> filter P xs = [x]"
  by (auto simp: one_by_key_def split: list.splits)

lemma one_by_key_Inl: "one_by_key xs P f = Inl e \<Longrightarrow> e = ProjectionError (''exactly one '' @ f @ '' is required'')"
  by (auto simp: one_by_key_def split: list.splits)

lemma rates_agree:
  assumes ok: "observation_ok ob" and reg: "is_registered DEFAULT_CURRENCY_REGISTRY source"
  shows "conversion_rate source ob pol t = Some r \<longleftrightarrow>
    projection_rate source (as_reporting_currency (ro_portfolio ob)) ob pol t = Inr r"
proof (cases "source = as_reporting_currency (ro_portfolio ob)")
  case True
  then show ?thesis by (auto simp: conversion_rate_def projection_rate_def)
next
  case False
  let ?rep = "as_reporting_currency (ro_portfolio ob)"
  let ?P = "\<lambda>x. rv_source_currency x = source \<and> rv_target_currency x = ?rep"
  have rep: "is_registered DEFAULT_CURRENCY_REGISTRY ?rep" using ok by (simp add: observation_ok_def)
  have code: "(cur_code (rv_source_currency x), cur_code (rv_target_currency x)) = (cur_code source, cur_code ?rep) \<longleftrightarrow> ?P x"
    if "x \<in> set (ro_conversion_rates ob)" for x
    using ok that registered_code_inj [OF _ reg] registered_code_inj [OF _ rep] by (auto simp: observation_ok_def list_all_iff)
  have f: "filter (\<lambda>x. (cur_code (rv_source_currency x), cur_code (rv_target_currency x)) = (cur_code source, cur_code ?rep))
      (ro_conversion_rates ob) = filter ?P (ro_conversion_rates ob)" using code by (rule filter_cong [OF refl])
  have timely: "\<not> dt_lt (ro_observed_at ob) (rv_observed_at x)" if "filter ?P (ro_conversion_rates ob) = [x]" for x
  proof -
    have "x \<in> set (filter ?P (ro_conversion_rates ob))" unfolding that by simp
    then show ?thesis using ok by (auto simp: observation_ok_def list_all_iff dt_lt_iff_not_le)
  qed
  have keep: "rv_source_currency x = source" "rv_target_currency x = ?rep" if "filter ?P (ro_conversion_rates ob) = [x]" for x
    using arg_cong [OF that, of set] by auto
  show ?thesis
  proof (cases "\<exists>x. filter ?P (ro_conversion_rates ob) = [x]")
    case True
    then obtain x where x: "filter ?P (ro_conversion_rates ob) = [x]" by blast
    then have one: "one_by_key (ro_conversion_rates ob) (\<lambda>x. (cur_code (rv_source_currency x), cur_code (rv_target_currency x))
        = (cur_code source, cur_code ?rep)) ''conversion rate'' = Inr x" unfolding one_by_key_Inr f by simp
    show ?thesis using False timely [OF x] keep [OF x]
      unfolding conversion_rate_def Let_def x projection_rate_def one
      by (auto simp: projection_if_def age_is_valid_def dt_lt_iff_not_le not_less)
  next
    case none: False
    then have "conversion_rate source ob pol t = None"
      unfolding conversion_rate_def Let_def using False by (auto split: list.splits)
    moreover have "one_by_key (ro_conversion_rates ob) (\<lambda>x. (cur_code (rv_source_currency x), cur_code (rv_target_currency x))
        = (cur_code source, cur_code ?rep)) ''conversion rate'' \<noteq> Inr x" for x unfolding one_by_key_Inr f using none by blast
    ultimately show ?thesis using False unfolding projection_rate_def by (auto split: sum.splits)
  qed
qed

section \<open>The tables of the projection are those of the evaluator\<close>

definition fractions :: "decimal partition \<Rightarrow> rat partition" where
  "fractions = map (\<lambda>(k, g, n). (k, fraction g, fraction n))"

lemma fractions_Nil [simp]: "fractions [] = []"
  by (simp add: fractions_def)

lemma map_of_fractions: "map_of (fractions m) k = map_option (\<lambda>(g, n). (fraction g, fraction n)) (map_of m k)"
  by (induction m) (auto simp: fractions_def)

lemma fractions_dict_put: "fractions (dict_put k (g, n) m) = dict_put k (fraction g, fraction n) (fractions m)"
  by (induction m) (auto simp: fractions_def)

lemma fractions_keys: "fst ` set (fractions m) = fst ` set m"
  by (induction m) (auto simp: fractions_def)

lemma fractions_sums:
  "sum_list (map (\<lambda>(_, g, _). g) (fractions m)) = sum_list (map fraction (map (\<lambda>(_, g, _). g) m))"
  "sum_list (map (\<lambda>(_, _, n). n) (fractions m)) = sum_list (map fraction (map (\<lambda>(_, _, n). n) m))"
  by (induction m) (auto simp: fractions_def)

lemma get_amounts_fraction:
  "(case map_of (fractions m) k of None \<Rightarrow> (0, 0) | Some v \<Rightarrow> v) = (fraction (fst (get_amounts m k)), fraction (snd (get_amounts m k)))"
  by (simp add: map_of_fractions get_amounts_def split: option.splits prod.splits)

lemma add_contribution_Inr:
  assumes "add_partition_contribution m key c f = Inr m'"
  shows "fractions m' = add_amount (fraction c) key (fractions m)"
proof -
  from assms obtain g n where g: "projection_sum [fst (get_amounts m key), copy_abs c] (f @ '' gross'') = Inr g"
    and n: "projection_sum [snd (get_amounts m key), c] (f @ '' net'') = Inr n" and m: "m' = dict_put key (g, n) m"
    unfolding add_partition_contribution_def case_prod_unfold Let_def by (auto simp: bindE_Inr_iff)
  show ?thesis unfolding m fractions_dict_put add_amount_def get_amounts_fraction
    using projection_sum_fraction [OF g] projection_sum_fraction [OF n] by simp
qed

lemma add_contribution_Inl: "add_partition_contribution m key c f = Inl e \<Longrightarrow> arithmetic_failure e"
  unfolding add_partition_contribution_def case_prod_unfold Let_def by (auto simp: bindE_Inl_iff dest: projection_sum_Inl)

lemma reporting_notional_fraction:
  "reporting_notional q p r f = Inr d \<Longrightarrow> fraction d = fraction q * fraction (p_amount p) * fraction r"
  unfolding reporting_notional_def by (drule projection_product_fraction) (simp add: mult.assoc)

lemma reporting_notional_Inl: "reporting_notional q p r f = Inl e \<Longrightarrow> arithmetic_failure e"
  unfolding reporting_notional_def by (rule projection_product_Inl)

lemma contribution_step_Inr:
  assumes ok: "observation_ok ob" and reg: "is_registered DEFAULT_CURRENCY_REGISTRY (ap_settlement_currency p)"
    and nz: "\<not> is_zero (q_value (ap_quantity p))"
    and step: "contribution_step ob pol t (i, s, v) p = Inr (i', s', v')"
  shows "valued ob pol t p
    \<and> fractions i' = add_amount (position_value ob pol t p) (canonical (ap_instrument p)) (fractions i)
    \<and> fractions s' = add_amount (position_value ob pol t p) (ap_strategy_id p) (fractions s)
    \<and> fractions v' = add_amount (position_value ob pol t p) (ii_venue (ap_instrument p)) (fractions v)"
proof -
  from step nz obtain mark rate c where mark: "ap_mark p = Some mark"
    and rate: "projection_rate (ap_settlement_currency p) (as_reporting_currency (ro_portfolio ob)) ob pol t = Inr rate"
    and c: "reporting_notional (q_value (ap_quantity p)) (pm_price mark) rate ''current marked position notional'' = Inr c"
    and a: "add_partition_contribution i (canonical (ap_instrument p)) c ''instrument exposure'' = Inr i'"
      "add_partition_contribution s (ap_strategy_id p) c ''strategy exposure'' = Inr s'"
      "add_partition_contribution v (ii_venue (ap_instrument p)) c ''venue exposure'' = Inr v'"
    unfolding contribution_step_def Let_def by (auto simp: bindE_Inr_iff split: option.splits)
  have r: "conversion_rate (ap_settlement_currency p) ob pol t = Some rate" using rates_agree [OF ok reg] rate by blast
  have "fraction c = position_value ob pol t p"
    using reporting_notional_fraction [OF c] nz mark r by (simp add: position_value_def)
  with a [THEN add_contribution_Inr] show ?thesis using mark r by (simp add: valued_def)
qed

lemma contribution_step_Inl:
  assumes ok: "observation_ok ob" and reg: "is_registered DEFAULT_CURRENCY_REGISTRY (ap_settlement_currency p)"
    and val: "\<not> is_zero (q_value (ap_quantity p)) \<Longrightarrow> valued ob pol t p"
    and step: "contribution_step ob pol t (i, s, v) p = Inl e"
  shows "arithmetic_failure e"
proof -
  have nz: "\<not> is_zero (q_value (ap_quantity p))" using step by (auto simp: contribution_step_def)
  from val [OF nz] obtain mark rate where m: "ap_mark p = Some mark" and r: "conversion_rate (ap_settlement_currency p) ob pol t = Some rate"
    by (auto simp: valued_def)
  have p: "projection_rate (ap_settlement_currency p) (as_reporting_currency (ro_portfolio ob)) ob pol t = Inr rate"
    using rates_agree [OF ok reg] r by blast
  show ?thesis using step nz unfolding contribution_step_def Let_def m p
    by (auto simp: bindE_Inl_iff dest: add_contribution_Inl reporting_notional_Inl)
qed

lemma contribution_step_zero: "is_zero (q_value (ap_quantity p)) \<Longrightarrow> contribution_step ob pol t a p = Inr a"
  by (cases a) (simp add: contribution_step_def)

lemma contributions_fold_Inr:
  assumes ok: "observation_ok ob"
  shows "\<forall>p \<in> set ps. is_registered DEFAULT_CURRENCY_REGISTRY (ap_settlement_currency p) \<Longrightarrow>
    foldE (contribution_step ob pol t) (i, s, v) ps = Inr (i', s', v') \<Longrightarrow>
    position_amounts ob pol t (fractions i, fractions s, fractions v) ps = Some (fractions i', fractions s', fractions v')"
proof (induction ps arbitrary: i s v)
  case Nil
  then show ?case by simp
next
  case (Cons p ps)
  have regp: "is_registered DEFAULT_CURRENCY_REGISTRY (ap_settlement_currency p)"
    and regs: "\<forall>p \<in> set ps. is_registered DEFAULT_CURRENCY_REGISTRY (ap_settlement_currency p)" using Cons.prems by auto
  show ?case
  proof (cases "is_zero (q_value (ap_quantity p))")
    case True
    then show ?thesis using Cons.prems Cons.IH regs by (simp add: contribution_step_zero)
  next
    case False
    from Cons.prems(2) obtain j u w where step: "contribution_step ob pol t (i, s, v) p = Inr (j, u, w)"
      and rest: "foldE (contribution_step ob pol t) (j, u, w) ps = Inr (i', s', v')" by (auto simp: bindE_Inr_iff)
    have "position_amounts ob pol t (fractions j, fractions u, fractions w) ps = Some (fractions i', fractions s', fractions v')"
      by (rule Cons.IH [OF regs rest])
    then show ?thesis using contribution_step_Inr [OF ok regp False step]
      unfolding position_amounts_fold by (auto simp: live_positions_def False)
  qed
qed

lemma contributions_fold_Inl:
  assumes ok: "observation_ok ob"
  shows "\<forall>p \<in> set ps. is_registered DEFAULT_CURRENCY_REGISTRY (ap_settlement_currency p) \<Longrightarrow>
    list_all (valued ob pol t) (live_positions ps) \<Longrightarrow>
    foldE (contribution_step ob pol t) (i, s, v) ps = Inl e \<Longrightarrow> arithmetic_failure e"
proof (induction ps arbitrary: i s v)
  case Nil
  then show ?case by simp
next
  case (Cons p ps)
  show ?case
  proof (cases "contribution_step ob pol t (i, s, v) p")
    case (Inl x)
    have "\<not> is_zero (q_value (ap_quantity p)) \<Longrightarrow> valued ob pol t p" using Cons.prems(2) by (simp add: live_positions_def)
    from contribution_step_Inl [OF ok _ this Inl] show ?thesis using Cons.prems Inl by simp
  next
    case (Inr y)
    obtain j u w where y: "y = (j, u, w)" by (cases y) auto
    have "list_all (valued ob pol t) (live_positions ps)" using Cons.prems(2) by (auto simp: live_positions_def split: if_splits)
    then show ?thesis using Cons.prems Inr Cons.IH [of j u w] by (simp add: y)
  qed
qed

lemma contributions_totals:
  assumes ok: "observation_ok ob" and c: "position_contributions ob pol t = Inr (i, s, v)"
  shows "list_all (valued ob pol t) (live_positions (as_positions (ro_portfolio ob)))
    \<and> fractions i = totals (position_value ob pol t) (\<lambda>p. canonical (ap_instrument p)) (live_positions (as_positions (ro_portfolio ob)))
    \<and> fractions s = totals (position_value ob pol t) ap_strategy_id (live_positions (as_positions (ro_portfolio ob)))
    \<and> fractions v = totals (position_value ob pol t) (\<lambda>p. ii_venue (ap_instrument p)) (live_positions (as_positions (ro_portfolio ob)))"
proof -
  have "\<forall>p \<in> set (as_positions (ro_portfolio ob)). is_registered DEFAULT_CURRENCY_REGISTRY (ap_settlement_currency p)"
    using ok by (simp add: observation_ok_def list_all_iff)
  from contributions_fold_Inr [OF ok this c [unfolded position_contributions_def]]
  show ?thesis unfolding fractions_Nil position_amounts_iff by blast
qed

section \<open>Both partition checks agree\<close>

lemma assert_exposure_iff:
  "assert_exposure x e c f = Inr u \<longleftrightarrow>
     ex_currency x = c \<and> fraction (m_amount (ex_gross x)) = fraction (fst e) \<and> fraction (m_amount (ex_net x)) = fraction (snd e)"
  by (auto simp: assert_exposure_def projection_if_def dec_eq_def)

lemma mapE_unit_iff: "(\<exists>us. mapE f xs = Inr us) \<longleftrightarrow> (\<forall>x \<in> set xs. \<exists>u. f x = Inr u)"
  by (induction xs) (auto simp: bindE_Inr_iff)

lemma exposures_asserted_iff:
  "(\<exists>us. mapE (\<lambda>(key, value). assert_exposure value (get_amounts expected key) c f) actual = Inr us) \<longleftrightarrow>
     list_all (\<lambda>(key, exposure).
       let (expected_gross, expected_net) = (case map_of (fractions expected) key of None \<Rightarrow> (0, 0) | Some v \<Rightarrow> v)
       in ex_currency exposure = c \<and> fraction (m_amount (ex_gross exposure)) = expected_gross
          \<and> fraction (m_amount (ex_net exposure)) = expected_net) actual"
  unfolding mapE_unit_iff get_amounts_fraction list_all_iff by (auto simp: assert_exposure_iff)

lemma missing_keys_fractions:
  "list_ex (\<lambda>(key, _). key \<notin> K) (fractions m) \<longleftrightarrow> list_ex (\<lambda>(key, _). key \<notin> K) m"
  by (induction m) (auto simp: fractions_def)

lemma pending_sum:
  "projection_sum (map (\<lambda>(_, value). m_amount (ex_pending value)) actual) f = Inr d \<Longrightarrow>
     fraction d = sum_list (map (\<lambda>(_, x). fraction (m_amount (ex_pending x))) actual)"
  by (drule projection_sum_fraction) (simp add: case_prod_unfold o_def)

lemma verify_partition_sound:
  assumes "verify_partition pf actual expected f = Inr u"
  shows "partition_consistent pf actual (fractions expected)"
proof -
  from assms obtain us pending where
    k: "\<not> list_ex (\<lambda>(key, _). key \<notin> fst ` set actual) expected"
    and m: "mapE (\<lambda>(key, value). assert_exposure value (get_amounts expected key) (as_reporting_currency pf) f) actual = Inr us"
    and p: "projection_sum (map (\<lambda>(_, value). m_amount (ex_pending value)) actual) (f @ '' pending exposure'') = Inr pending"
    and e: "dec_eq pending (m_amount (ex_pending (as_total_exposure pf)))"
    unfolding verify_partition_def by (auto simp: bindE_Inr_iff projection_if_def split: if_splits)
  from pending_sum [OF p] e have "sum_list (map (\<lambda>(_, x). fraction (m_amount (ex_pending x))) actual)
      = fraction (m_amount (ex_pending (as_total_exposure pf)))" by (simp add: dec_eq_def)
  moreover note exposures_asserted_iff [of expected "as_reporting_currency pf" f actual]
  ultimately show ?thesis using k m unfolding partition_consistent_def missing_keys_fractions by blast
qed

lemma verify_partition_complete:
  assumes c: "partition_consistent pf actual (fractions expected)" and e: "verify_partition pf actual expected f = Inl x"
  shows "arithmetic_failure x"
proof -
  from c have k: "\<not> list_ex (\<lambda>(key, _). key \<notin> fst ` set actual) expected"
    and p: "sum_list (map (\<lambda>(_, y). fraction (m_amount (ex_pending y))) actual) = fraction (m_amount (ex_pending (as_total_exposure pf)))"
    unfolding partition_consistent_def missing_keys_fractions by blast+
  from c exposures_asserted_iff [of expected "as_reporting_currency pf" f actual]
  obtain us where m: "mapE (\<lambda>(key, value). assert_exposure value (get_amounts expected key) (as_reporting_currency pf) f) actual = Inr us"
    unfolding partition_consistent_def by blast
  show ?thesis
  proof (cases "projection_sum (map (\<lambda>(_, value). m_amount (ex_pending value)) actual) (f @ '' pending exposure'')")
    case (Inl y)
    with e k m projection_sum_Inl [OF Inl] show ?thesis by (simp add: verify_partition_def projection_if_def)
  next
    case (Inr d)
    with e k m pending_sum [OF Inr] p show ?thesis by (simp add: verify_partition_def projection_if_def dec_eq_def)
  qed
qed

lemma verify_partitions_sound:
  assumes ok: "observation_ok ob" and c: "position_contributions ob pol t = Inr (i, s, v)"
    and u: "verify_partitions ob (i, s, v) = Inr u"
  shows "partitions_are_consistent ob pol t"
proof -
  obtain a b c' where tab: "exposure_tables (ro_portfolio ob) = (a, b, c')" by (cases "exposure_tables (ro_portfolio ob)") auto
  note totals = contributions_totals [OF ok c]
  from u obtain g n where g: "projection_sum (map (\<lambda>(_, gross, _). gross) i) ''recomputed total gross'' = Inr g"
    and n: "projection_sum (map (\<lambda>(_, _, net). net) i) ''recomputed total net'' = Inr n"
    and e: "assert_exposure (as_total_exposure (ro_portfolio ob)) (g, n) (as_reporting_currency (ro_portfolio ob)) ''total exposure'' = Inr ()"
    and p: "verify_partition (ro_portfolio ob) a i ''instrument'' = Inr ()" "verify_partition (ro_portfolio ob) b s ''strategy'' = Inr ()"
      "verify_partition (ro_portfolio ob) c' v ''venue'' = Inr ()"
    unfolding verify_partitions_def Let_def tab by (auto simp: bindE_Inr_iff)
  have "position_amounts ob pol t ([], [], []) (as_positions (ro_portfolio ob)) = Some (fractions i, fractions s, fractions v)"
    unfolding position_amounts_iff using totals by simp
  then show ?thesis
    unfolding partitions_are_consistent_def Let_def tab
    using p [THEN verify_partition_sound] e [unfolded assert_exposure_iff] projection_sum_fraction [OF g] projection_sum_fraction [OF n]
      ok by (simp add: fractions_sums observation_ok_def dt_lt_iff_not_le)
qed

lemma verify_partitions_complete:
  assumes ok: "observation_ok ob" and c: "position_contributions ob pol t = Inr (i, s, v)"
    and p: "partitions_are_consistent ob pol t" and u: "verify_partitions ob (i, s, v) = Inl x"
  shows "arithmetic_failure x"
proof -
  obtain a b c' where tab: "exposure_tables (ro_portfolio ob) = (a, b, c')" by (cases "exposure_tables (ro_portfolio ob)") auto
  have "position_amounts ob pol t ([], [], []) (as_positions (ro_portfolio ob)) = Some (fractions i, fractions s, fractions v)"
    unfolding position_amounts_iff using contributions_totals [OF ok c] by simp
  with p have e: "ex_currency (as_total_exposure (ro_portfolio ob)) = as_reporting_currency (ro_portfolio ob)"
      "fraction (m_amount (ex_gross (as_total_exposure (ro_portfolio ob)))) = sum_list (map fraction (map (\<lambda>(_, g, _). g) i))"
      "fraction (m_amount (ex_net (as_total_exposure (ro_portfolio ob)))) = sum_list (map fraction (map (\<lambda>(_, _, n). n) i))"
    and q: "partition_consistent (ro_portfolio ob) a (fractions i)" "partition_consistent (ro_portfolio ob) b (fractions s)"
      "partition_consistent (ro_portfolio ob) c' (fractions v)"
    unfolding partitions_are_consistent_def Let_def tab by (simp_all add: fractions_sums)
  have total: "assert_exposure (as_total_exposure (ro_portfolio ob)) (g, n) (as_reporting_currency (ro_portfolio ob)) ''total exposure'' = Inr ()"
    if "projection_sum (map (\<lambda>(_, gross, _). gross) i) ''recomputed total gross'' = Inr g"
      "projection_sum (map (\<lambda>(_, _, net). net) i) ''recomputed total net'' = Inr n" for g n
    unfolding assert_exposure_iff using e projection_sum_fraction [OF that(1)] projection_sum_fraction [OF that(2)] by simp
  show ?thesis using u total q [THEN verify_partition_complete] unfolding verify_partitions_def Let_def tab
    by (auto simp: bindE_Inl_iff dest: projection_sum_Inl)
qed

end
