(* ===== verification/Risk_Analysis.thy ===== *)
theory Risk_Analysis
  imports Risk_Exposure
begin

text \<open>
  The projection taken apart: the projected amounts are those of the portfolio with the order carried out at
  the risk price, recomputed from the positions; a projection on valid inputs fails only for want of an exact
  representation; an evaluation of valid inputs reaches a decision whose reasons are the failed checks.
\<close>

section \<open>The parts of a projection\<close>

lemma is_zero_dec_int [simp]: "is_zero (dec_int 0)"
  by (simp add: is_zero_def dec_int_def)

lemma projection_if_Inr [res_simps]: "projection_if c m = Inr u \<longleftrightarrow> \<not> c"
  by (simp add: projection_if_def)

definition projected_amounts ::
  "runtime_risk_observation \<Rightarrow> order_intent \<Rightarrow> runtime_risk_projection \<Rightarrow> decimal \<Rightarrow> decimal \<Rightarrow> decimal
    \<Rightarrow> decimal partition \<times> decimal partition \<times> decimal partition \<Rightarrow> instrument_risk_spec \<Rightarrow> bool" where
  "projected_amounts ob intent p rate cn pn amounts spec =
     (let total = as_total_exposure (ro_portfolio ob);
          (i, s, v) = amounts;
          change = \<bar>fraction pn\<bar> - \<bar>fraction cn\<bar>
      in fraction (m_amount (pj_order_notional p)) = \<bar>fraction (oq_value (oi_quantity intent)) * fraction (p_amount (pj_risk_price p)) * fraction rate\<bar>
         \<and> fraction (m_amount (pj_pending p)) = fraction (m_amount (ex_pending total)) + fraction (m_amount (pj_order_notional p))
         \<and> fraction (m_amount (pj_gross p)) = fraction (m_amount (ex_gross total)) + change
         \<and> fraction (m_amount (pj_net p)) = fraction (m_amount (ex_net total)) - fraction cn + fraction pn
         \<and> fraction (m_amount (pj_strategy_gross p)) = fraction (fst (get_amounts s (oi_strategy_id intent))) + change
         \<and> fraction (m_amount (pj_venue_gross p)) = fraction (fst (get_amounts v (rs_venue_id spec))) + change
         \<and> fraction (m_amount (pj_instrument_gross p)) = fraction (fst (get_amounts i (canonical (oi_instrument intent)))) + change)"

definition projected_funds :: "account_balance_snapshot \<Rightarrow> instrument_risk_spec \<Rightarrow> runtime_risk_projection \<Rightarrow> decimal \<Rightarrow> decimal \<Rightarrow> bool" where
  "projected_funds balance spec p cn pn =
     (fraction (m_amount (pj_margin_used p))
        = fraction (m_amount (ab_margin_used balance)) + max 0 (\<bar>fraction pn\<bar> - \<bar>fraction cn\<bar>) * fraction (rs_initial_margin_rate spec)
      \<and> fraction (m_amount (pj_available_funds p))
        = fraction (m_amount (ab_cash balance)) - fraction (m_amount (ab_locked_funds balance)) - fraction (m_amount (pj_margin_used p)))"

lemma replace_gross_fraction: "replace_gross g c p f = Inr d \<Longrightarrow> fraction d = fraction g + (\<bar>fraction p\<bar> - \<bar>fraction c\<bar>)"
  unfolding replace_gross_def by (drule projection_sum_fraction) simp

lemma project_margin_fraction:
  assumes "project_margin balance spec cn pn = Inr (margin, available)"
  shows "fraction margin = fraction (m_amount (ab_margin_used balance))
      + max 0 (\<bar>fraction pn\<bar> - \<bar>fraction cn\<bar>) * fraction (rs_initial_margin_rate spec)
    \<and> fraction available = fraction (m_amount (ab_cash balance)) - fraction (m_amount (ab_locked_funds balance)) - fraction margin"
proof -
  from assms obtain inc mi where inc: "projection_sum [copy_abs pn, copy_negate (copy_abs cn)] ''risk-increasing notional'' = Inr inc"
    and mi: "projection_product [if dec_lt inc (dec_int 0) then dec_int 0 else inc, rs_initial_margin_rate spec] ''margin increase'' = Inr mi"
    and m: "projection_sum [m_amount (ab_margin_used balance), mi] ''projected margin used'' = Inr margin"
    and a: "projection_sum [m_amount (ab_cash balance), copy_negate (m_amount (ab_locked_funds balance)), copy_negate margin]
      ''projected available funds'' = Inr available"
    unfolding project_margin_def Let_def by (auto simp: bindE_Inr_iff)
  have "fraction inc = \<bar>fraction pn\<bar> - \<bar>fraction cn\<bar>" using projection_sum_fraction [OF inc] by simp
  then have "fraction mi = max 0 (\<bar>fraction pn\<bar> - \<bar>fraction cn\<bar>) * fraction (rs_initial_margin_rate spec)"
    using projection_product_fraction [OF mi] by (auto simp: dec_lt_def max_def)
  with projection_sum_fraction [OF m] projection_sum_fraction [OF a] show ?thesis by simp
qed

lemma project_runtime_order_Inr:
  assumes "project_runtime_order rx intent ob pol t = Inr p"
  shows "\<exists>spec market balance rate amounts current cn pn.
    projection_authorities intent ob = Inr (spec, market, balance)
    \<and> projection_rate (rs_settlement_currency spec) (as_reporting_currency (ro_portfolio ob)) ob pol t = Inr rate
    \<and> risk_price intent market spec = Inr (pj_risk_price p)
    \<and> position_contributions ob pol t = Inr amounts \<and> verify_partitions ob amounts = Inr ()
    \<and> matching_position intent ob spec = Inr current
    \<and> project_position intent current (pj_risk_price p) rate = Inr (pj_position_quantity p, cn, pn)
    \<and> projected_amounts ob intent p rate cn pn amounts spec \<and> projected_funds balance spec p cn pn"
proof -
  let ?total = "as_total_exposure (ro_portfolio ob)" and ?rep = "as_reporting_currency (ro_portfolio ob)"
  from assms obtain spec market balance rate rp order i s v current q cn pn pending gross net sg vg ig margin available om pm gm nm sm vm im mm am where
    a: "projection_authorities intent ob = Inr (spec, market, balance)"
      "projection_rate (rs_settlement_currency spec) ?rep ob pol t = Inr rate" "risk_price intent market spec = Inr rp"
    and order: "reporting_notional (oq_value (oi_quantity intent)) rp rate ''order notional'' = Inr order"
    and c: "position_contributions ob pol t = Inr (i, s, v)" "verify_partitions ob (i, s, v) = Inr ()"
      "matching_position intent ob spec = Inr current" "project_position intent current rp rate = Inr (q, cn, pn)"
    and e: "projection_sum [m_amount (ex_pending ?total), copy_abs order] ''projected pending exposure'' = Inr pending"
      "replace_gross (m_amount (ex_gross ?total)) cn pn ''projected gross exposure'' = Inr gross"
      "projection_sum [m_amount (ex_net ?total), copy_negate cn, pn] ''projected net exposure'' = Inr net"
      "replace_gross (fst (get_amounts s (oi_strategy_id intent))) cn pn ''projected strategy gross exposure'' = Inr sg"
      "replace_gross (fst (get_amounts v (rs_venue_id spec))) cn pn ''projected venue gross exposure'' = Inr vg"
      "replace_gross (fst (get_amounts i (canonical (oi_instrument intent)))) cn pn ''projected instrument gross exposure'' = Inr ig"
    and f: "project_margin balance spec cn pn = Inr (margin, available)"
    and m: "projection_money (copy_abs order) ?rep ''order notional'' = Inr om" "projection_money pending ?rep ''projected pending exposure'' = Inr pm"
      "projection_money gross ?rep ''projected gross exposure'' = Inr gm" "projection_money net ?rep ''projected net exposure'' = Inr nm"
      "projection_money sg ?rep ''projected strategy gross exposure'' = Inr sm" "projection_money vg ?rep ''projected venue gross exposure'' = Inr vm"
      "projection_money ig ?rep ''projected instrument gross exposure'' = Inr im"
      "projection_money margin ?rep ''projected margin used'' = Inr mm" "projection_money available ?rep ''projected available funds'' = Inr am"
    and p: "p = \<lparr>pj_risk_price = rp, pj_order_notional = om, pj_position_quantity = q, pj_pending = pm,
           pj_gross = gm, pj_net = nm, pj_strategy_gross = sm, pj_venue_gross = vm,
           pj_instrument_gross = im, pj_margin_used = mm, pj_available_funds = am\<rparr>"
    unfolding project_runtime_order_def Let_def by (auto simp: bindE_Inr_iff)
  have "projected_amounts ob intent p rate cn pn (i, s, v) spec"
    using m [THEN projection_money_Inr] reporting_notional_fraction [OF order] e(1,3) [THEN projection_sum_fraction]
      e(2,4-6) [THEN replace_gross_fraction] by (simp add: projected_amounts_def Let_def p)
  moreover have "projected_funds balance spec p cn pn"
    using m(8,9) [THEN projection_money_Inr] project_margin_fraction [OF f] by (simp add: projected_funds_def p)
  ultimately show ?thesis using a c unfolding p by auto
qed

section \<open>The portfolio after the order\<close>

text \<open>
  The specification of the projected amounts: the order carried out in full at the risk price, every other
  position at its mark.
\<close>

definition other_positions :: "order_intent \<Rightarrow> runtime_risk_observation \<Rightarrow> account_position_snapshot list" where
  "other_positions intent ob =
     filter (\<lambda>p. \<not> (ap_strategy_id p = oi_strategy_id intent \<and> canonical (ap_instrument p) = canonical (oi_instrument intent)))
       (as_positions (ro_portfolio ob))"

definition held_quantity :: "order_intent \<Rightarrow> runtime_risk_observation \<Rightarrow> rat" where
  "held_quantity intent ob = sum_list (map (\<lambda>p. fraction (q_value (ap_quantity p))) (order_positions intent ob))"

definition quantity_after :: "order_intent \<Rightarrow> runtime_risk_observation \<Rightarrow> rat" where
  "quantity_after intent ob =
     held_quantity intent ob + (if oi_side intent = BUY then 1 else - 1) * fraction (oq_value (oi_quantity intent))"

definition order_value :: "order_intent \<Rightarrow> price \<Rightarrow> decimal \<Rightarrow> rat" where
  "order_value intent price rate = \<bar>fraction (oq_value (oi_quantity intent)) * fraction (p_amount price) * fraction rate\<bar>"

definition value_after :: "order_intent \<Rightarrow> runtime_risk_observation \<Rightarrow> price \<Rightarrow> decimal \<Rightarrow> rat" where
  "value_after intent ob price rate = quantity_after intent ob * fraction (p_amount price) * fraction rate"

lemma positions_split:
  fixes intent ob
  defines "held \<equiv> order_positions intent ob" and "rest \<equiv> other_positions intent ob"
  shows "gross_value v (as_positions (ro_portfolio ob)) = gross_value v held + gross_value v rest"
    "net_value v (as_positions (ro_portfolio ob)) = net_value v held + net_value v rest"
  unfolding held_def rest_def order_positions_def other_positions_def by (rule gross_value_split net_value_split)+

lemma keyed_split:
  assumes "\<And>p. p \<in> set (order_positions intent ob) \<Longrightarrow> key p = k"
  shows "gross_value v (filter (\<lambda>p. key p = k) (as_positions (ro_portfolio ob))) =
    gross_value v (order_positions intent ob) + gross_value v (filter (\<lambda>p. key p = k) (other_positions intent ob))"
proof -
  let ?M = "\<lambda>p. ap_strategy_id p = oi_strategy_id intent \<and> canonical (ap_instrument p) = canonical (oi_instrument intent)"
  let ?ps = "as_positions (ro_portfolio ob)"
  have "filter ?M (filter (\<lambda>p. key p = k) ?ps) = filter ?M ?ps"
    using assms unfolding order_positions_def filter_filter by (intro filter_cong) auto
  moreover have "filter (\<lambda>p. \<not> ?M p) (filter (\<lambda>p. key p = k) ?ps) = filter (\<lambda>p. key p = k) (filter (\<lambda>p. \<not> ?M p) ?ps)"
    unfolding filter_filter by (intro filter_cong) auto
  ultimately show ?thesis using gross_value_split [of v "filter (\<lambda>p. key p = k) ?ps" ?M]
    unfolding order_positions_def other_positions_def by simp
qed

lemma table_gross:
  assumes "fractions m = totals (position_value ob pol t) key (live_positions ps)"
  shows "fraction (fst (get_amounts m k)) = gross_value (position_value ob pol t) (filter (\<lambda>p. key p = k) ps)"
proof -
  have "fraction (fst (get_amounts m k)) = fst (case map_of (fractions m) k of None \<Rightarrow> (0, 0) | Some v \<Rightarrow> v)"
    unfolding get_amounts_fraction by simp
  also have "\<dots> = gross_value (position_value ob pol t) (filter (\<lambda>p. key p = k) (live_positions ps))"
    unfolding assms map_of_totals by (simp add: Let_def)
  also have "filter (\<lambda>p. key p = k) (live_positions ps) = live_positions (filter (\<lambda>p. key p = k) ps)"
    by (simp add: live_positions_def conj_commute)
  finally show ?thesis unfolding live_value .
qed

lemma consistent_totals:
  assumes "partitions_are_consistent ob pol t"
  shows "fraction (m_amount (ex_gross (as_total_exposure (ro_portfolio ob)))) = gross_value (position_value ob pol t) (as_positions (ro_portfolio ob))"
    "fraction (m_amount (ex_net (as_total_exposure (ro_portfolio ob)))) = net_value (position_value ob pol t) (as_positions (ro_portfolio ob))"
proof -
  obtain a b c where tab: "exposure_tables (ro_portfolio ob) = (a, b, c)" by (cases "exposure_tables (ro_portfolio ob)") auto
  from assms obtain r where r: "position_amounts ob pol t ([], [], []) (as_positions (ro_portfolio ob)) = Some r"
    unfolding partitions_are_consistent_def Let_def by (auto split: option.splits)
  show "fraction (m_amount (ex_gross (as_total_exposure (ro_portfolio ob)))) = gross_value (position_value ob pol t) (as_positions (ro_portfolio ob))"
    "fraction (m_amount (ex_net (as_total_exposure (ro_portfolio ob)))) = net_value (position_value ob pol t) (as_positions (ro_portfolio ob))"
    using assms r [unfolded position_amounts_iff] unfolding partitions_are_consistent_def Let_def tab r
    by (auto simp: totals_sums live_value)
qed

lemma matching_position_Inr:
  assumes "matching_position intent ob spec = Inr current"
  shows "order_positions intent ob = (case current of None \<Rightarrow> [] | Some p \<Rightarrow> [p])
    \<and> (\<forall>p. current = Some p \<longrightarrow> ap_instrument p = oi_instrument intent \<and> ap_settlement_currency p = rs_settlement_currency spec)"
  using assms unfolding matching_position_def order_positions_def
  by (auto simp: bindE_Inr_iff projection_if_Inr split: list.splits)

lemma project_position_Inr:
  assumes pp: "project_position intent current rp rate = Inr (q, cn, pn)"
    and held: "order_positions intent ob = (case current of None \<Rightarrow> [] | Some p \<Rightarrow> [p])"
    and cur: "\<And>p. current = Some p \<Longrightarrow> conversion_rate (ap_settlement_currency p) ob pol t = Some rate"
  shows "fraction (q_value q) = quantity_after intent ob \<and> fraction pn = value_after intent ob rp rate
    \<and> fraction cn = net_value (position_value ob pol t) (order_positions intent ob)
    \<and> \<bar>fraction cn\<bar> = gross_value (position_value ob pol t) (order_positions intent ob)"
proof -
  from pp obtain am where am: "projection_sum [case current of None \<Rightarrow> dec_int 0 | Some p \<Rightarrow> q_value (ap_quantity p), signed_order_quantity intent]
      ''projected position quantity'' = Inr am"
    and q: "\<exists>pr. projection_quantity am pr = Inr q"
    and cn: "(case current of None \<Rightarrow> Inr (dec_int 0)
       | Some p \<Rightarrow> if is_zero (q_value (ap_quantity p)) then Inr (dec_int 0)
           else (case ap_mark p of None \<Rightarrow> Inl (ProjectionError ''non-zero matching position requires a mark'')
                 | Some mark \<Rightarrow> reporting_notional (q_value (ap_quantity p)) (pm_price mark) rate ''matching current position notional'')) = Inr cn"
    and pn: "reporting_notional am rp rate ''projected position notional'' = Inr pn"
    unfolding project_position_def by (auto simp: bindE_Inr_iff)
  have a: "fraction am = quantity_after intent ob"
    using projection_sum_fraction [OF am] held
    by (auto simp: quantity_after_def held_quantity_def signed_order_quantity_def split: option.splits)
  have "fraction cn = net_value (position_value ob pol t) (order_positions intent ob)"
  proof (cases current)
    case None
    with cn held show ?thesis by auto
  next
    case (Some p)
    with cn held cur [OF Some] show ?thesis
      by (auto simp: position_value_def dest: reporting_notional_fraction split: if_splits option.splits)
  qed
  moreover have "\<bar>net_value (position_value ob pol t) (order_positions intent ob)\<bar> = gross_value (position_value ob pol t) (order_positions intent ob)"
    using held by (auto split: option.splits)
  moreover have "fraction pn = value_after intent ob rp rate"
    using reporting_notional_fraction [OF pn] a by (simp add: value_after_def)
  ultimately show ?thesis using q a projection_quantity_Inr by auto
qed

lemma projection_authorities_Inr:
  assumes ok: "observation_ok ob" and a: "projection_authorities intent ob = Inr (spec, market, balance)"
  shows "spec \<in> set (ro_instrument_specs ob) \<and> rs_instrument spec = oi_instrument intent \<and> rs_venue_id spec = ii_venue (oi_instrument intent)
    \<and> market \<in> set (ro_market_snapshots ob) \<and> rm_instrument market = oi_instrument intent
    \<and> balance \<in> set (as_balances (ro_portfolio ob)) \<and> ab_currency balance = as_reporting_currency (ro_portfolio ob)
    \<and> is_registered DEFAULT_CURRENCY_REGISTRY (rs_settlement_currency spec)
    \<and> filter (\<lambda>x. canonical (rs_instrument x) = canonical (oi_instrument intent)) (ro_instrument_specs ob) = [spec]
    \<and> filter (\<lambda>x. canonical (rm_instrument x) = canonical (oi_instrument intent)) (ro_market_snapshots ob) = [market]"
proof -
  from a have f: "filter (\<lambda>x. canonical (rs_instrument x) = canonical (oi_instrument intent)) (ro_instrument_specs ob) = [spec]"
      "filter (\<lambda>x. canonical (rm_instrument x) = canonical (oi_instrument intent)) (ro_market_snapshots ob) = [market]"
      "filter (\<lambda>b. cur_code (ab_currency b) = cur_code (as_reporting_currency (ro_portfolio ob))) (as_balances (ro_portfolio ob)) = [balance]"
    and e: "rs_instrument spec = oi_instrument intent" "rm_instrument market = oi_instrument intent"
      "rs_venue_id spec = ii_venue (oi_instrument intent)" "ab_currency balance = as_reporting_currency (ro_portfolio ob)"
    unfolding projection_authorities_def Let_def by (auto simp: bindE_Inr_iff projection_if_Inr one_by_key_Inr)
  have "spec \<in> set (ro_instrument_specs ob)" "market \<in> set (ro_market_snapshots ob)" "balance \<in> set (as_balances (ro_portfolio ob))"
    using f [THEN arg_cong, of set] by auto
  with f e ok show ?thesis by (simp add: observation_ok_def list_all_iff)
qed

definition recomputed :: "order_intent \<Rightarrow> runtime_risk_observation \<Rightarrow> runtime_risk_policy \<Rightarrow> datetime \<Rightarrow> decimal \<Rightarrow> runtime_risk_projection \<Rightarrow> bool" where
  "recomputed intent ob pol t rate p =
     (let v = position_value ob pol t; rest = other_positions intent ob; after = value_after intent ob (pj_risk_price p) rate
      in fraction (q_value (pj_position_quantity p)) = quantity_after intent ob
         \<and> fraction (m_amount (pj_order_notional p)) = order_value intent (pj_risk_price p) rate
         \<and> fraction (m_amount (pj_pending p))
             = fraction (m_amount (ex_pending (as_total_exposure (ro_portfolio ob)))) + order_value intent (pj_risk_price p) rate
         \<and> fraction (m_amount (pj_gross p)) = gross_value v rest + \<bar>after\<bar>
         \<and> fraction (m_amount (pj_net p)) = net_value v rest + after
         \<and> fraction (m_amount (pj_strategy_gross p)) = gross_value v (filter (\<lambda>q. ap_strategy_id q = oi_strategy_id intent) rest) + \<bar>after\<bar>
         \<and> fraction (m_amount (pj_venue_gross p))
             = gross_value v (filter (\<lambda>q. ii_venue (ap_instrument q) = ii_venue (oi_instrument intent)) rest) + \<bar>after\<bar>
         \<and> fraction (m_amount (pj_instrument_gross p))
             = gross_value v (filter (\<lambda>q. canonical (ap_instrument q) = canonical (oi_instrument intent)) rest) + \<bar>after\<bar>)"

definition funds_recomputed ::
  "order_intent \<Rightarrow> runtime_risk_observation \<Rightarrow> runtime_risk_policy \<Rightarrow> datetime \<Rightarrow> instrument_risk_spec \<Rightarrow> decimal \<Rightarrow> account_balance_snapshot
    \<Rightarrow> runtime_risk_projection \<Rightarrow> bool" where
  "funds_recomputed intent ob pol t spec rate balance p =
     (fraction (m_amount (pj_margin_used p))
        = fraction (m_amount (ab_margin_used balance))
          + max 0 (\<bar>value_after intent ob (pj_risk_price p) rate\<bar> - gross_value (position_value ob pol t) (order_positions intent ob))
            * fraction (rs_initial_margin_rate spec)
      \<and> fraction (m_amount (pj_available_funds p))
        = fraction (m_amount (ab_cash balance)) - fraction (m_amount (ab_locked_funds balance)) - fraction (m_amount (pj_margin_used p)))"

lemma projection_recomputed:
  assumes ok: "observation_ok ob" and project: "project_runtime_order rx intent ob pol t = Inr p"
  shows "\<exists>spec market balance rate.
    projection_authorities intent ob = Inr (spec, market, balance) \<and> risk_price intent market spec = Inr (pj_risk_price p)
    \<and> conversion_rate (rs_settlement_currency spec) ob pol t = Some rate \<and> partitions_are_consistent ob pol t
    \<and> length (order_positions intent ob) \<le> 1 \<and> recomputed intent ob pol t rate p
    \<and> funds_recomputed intent ob pol t spec rate balance p"
proof -
  let ?v = "position_value ob pol t" and ?ps = "as_positions (ro_portfolio ob)"
  from project_runtime_order_Inr [OF project] obtain spec market balance rate i s w current cn pn where
    a: "projection_authorities intent ob = Inr (spec, market, balance)"
    and r: "projection_rate (rs_settlement_currency spec) (as_reporting_currency (ro_portfolio ob)) ob pol t = Inr rate"
    and rp: "risk_price intent market spec = Inr (pj_risk_price p)"
    and c: "position_contributions ob pol t = Inr (i, s, w)" and v: "verify_partitions ob (i, s, w) = Inr ()"
    and m: "matching_position intent ob spec = Inr current"
    and pp: "project_position intent current (pj_risk_price p) rate = Inr (pj_position_quantity p, cn, pn)"
    and am: "projected_amounts ob intent p rate cn pn (i, s, w) spec" and fu: "projected_funds balance spec p cn pn"
    by (metis prod_cases3)
  note auth = projection_authorities_Inr [OF ok a]
  have rate: "conversion_rate (rs_settlement_currency spec) ob pol t = Some rate" using rates_agree [OF ok] auth r by blast
  note held = matching_position_Inr [OF m]
  have "conversion_rate (ap_settlement_currency q) ob pol t = Some rate" if "current = Some q" for q using held that rate by simp
  note pos = project_position_Inr [OF pp conjunct1 [OF held] this]
  note cons = verify_partitions_sound [OF ok c v]
  note tabs = contributions_totals [OF ok c]
  have members: "ap_instrument q = oi_instrument intent \<and> ap_strategy_id q = oi_strategy_id intent" if "q \<in> set (order_positions intent ob)" for q
  proof
    show "ap_instrument q = oi_instrument intent" using that held by (cases current) auto
    show "ap_strategy_id q = oi_strategy_id intent" using that by (simp add: order_positions_def)
  qed
  have cn: "\<bar>fraction cn\<bar> = gross_value ?v (order_positions intent ob)" using pos by blast
  have k: "fraction (fst (get_amounts s (oi_strategy_id intent))) - \<bar>fraction cn\<bar>
        = gross_value ?v (filter (\<lambda>q. ap_strategy_id q = oi_strategy_id intent) (other_positions intent ob))"
      "fraction (fst (get_amounts w (rs_venue_id spec))) - \<bar>fraction cn\<bar>
        = gross_value ?v (filter (\<lambda>q. ii_venue (ap_instrument q) = ii_venue (oi_instrument intent)) (other_positions intent ob))"
      "fraction (fst (get_amounts i (canonical (oi_instrument intent)))) - \<bar>fraction cn\<bar>
        = gross_value ?v (filter (\<lambda>q. canonical (ap_instrument q) = canonical (oi_instrument intent)) (other_positions intent ob))"
    using tabs [THEN conjunct2, THEN conjunct2, THEN conjunct1, THEN table_gross, of "oi_strategy_id intent"]
      tabs [THEN conjunct2, THEN conjunct2, THEN conjunct2, THEN table_gross, of "rs_venue_id spec"]
      tabs [THEN conjunct2, THEN conjunct1, THEN table_gross, of "canonical (oi_instrument intent)"]
      keyed_split [of intent ob ap_strategy_id "oi_strategy_id intent" ?v]
      keyed_split [of intent ob "\<lambda>q. ii_venue (ap_instrument q)" "rs_venue_id spec" ?v]
      keyed_split [of intent ob "\<lambda>q. canonical (ap_instrument q)" "canonical (oi_instrument intent)" ?v] members auth
    unfolding cn by simp_all
  have "recomputed intent ob pol t rate p"
    using am pos k consistent_totals [OF cons] positions_split [of ?v ob intent] cn
    unfolding recomputed_def projected_amounts_def Let_def prod.case order_value_def by linarith
  moreover have "funds_recomputed intent ob pol t spec rate balance p"
    using fu conjunct1 [OF conjunct2 [OF pos]] unfolding funds_recomputed_def projected_funds_def cn by simp
  moreover have "length (order_positions intent ob) \<le> 1" using held by (auto split: option.splits)
  ultimately show ?thesis using a rp rate cons by blast
qed

section \<open>The checks\<close>

definition failed_checks ::
  "order_intent \<Rightarrow> risk_decision \<Rightarrow> runtime_risk_observation \<Rightarrow> runtime_risk_policy \<Rightarrow> datetime \<Rightarrow> risk_findings \<Rightarrow> runtime_risk_reason list" where
  "failed_checks intent pd ob pol t f = map fst (filter snd (risk_checks intent pd ob pol t f))"

lemma failed_checks_Nil: "failed_checks intent pd ob pol t f = [] \<longleftrightarrow> list_all (\<lambda>c. \<not> snd c) (risk_checks intent pd ob pol t f)"
  by (auto simp: failed_checks_def filter_empty_conv list_all_iff)

lemma risk_checks_names:
  "map fst (risk_checks intent pd ob pol t f) =
     [POLICY_RISK_NOT_APPROVED, ENGINE_NOT_READY, INSTRUMENT_UNKNOWN, MARKET_DATA_STALE, VALUATION_AUTHORITY_MISSING,
      PORTFOLIO_STATE_INVALID, PRICE_PRECISION_INVALID, QUANTITY_PRECISION_INVALID, QUANTITY_OUT_OF_BOUNDS, ORDER_NOTIONAL_LIMIT,
      BALANCE_MARGIN_LIMIT, PENDING_EXPOSURE_LIMIT, GROSS_EXPOSURE_LIMIT, NET_EXPOSURE_LIMIT, STRATEGY_EXPOSURE_LIMIT,
      VENUE_EXPOSURE_LIMIT, DAILY_LOSS_LIMIT, DRAWDOWN_LIMIT, REDUCE_ONLY_VIOLATION, COMMAND_RATE_LIMIT, VENUE_UNHEALTHY, DUPLICATE_COMMAND]"
  by (simp add: risk_checks_def Let_def)

lemma sorted_wrt_filter_map: "sorted_wrt R (map g xs) \<Longrightarrow> sorted_wrt R (map g (filter P xs))"
  by (induction xs) auto

lemma failed_checks_sorted: "sorted_wrt (<) (map runtime_reason_order (failed_checks intent pd ob pol t f))"
proof -
  have "sorted_wrt (<) (map runtime_reason_order (map fst (risk_checks intent pd ob pol t f)))" unfolding risk_checks_names by simp
  then show ?thesis unfolding failed_checks_def map_map by (rule sorted_wrt_filter_map)
qed

lemma failed_checks_canonical:
  "distinct (failed_checks intent pd ob pol t f) \<and> sort_key runtime_reason_order (failed_checks intent pd ob pol t f) = failed_checks intent pd ob pol t f
   \<and> WITHIN_LIMITS \<notin> set (failed_checks intent pd ob pol t f)"
proof (intro conjI)
  note s = failed_checks_sorted [of intent pd ob pol t f]
  then have "distinct (map runtime_reason_order (failed_checks intent pd ob pol t f))" by (simp add: strict_sorted_iff)
  then show "distinct (failed_checks intent pd ob pol t f)" by (rule distinct_map [THEN iffD1, THEN conjunct1])
  show "sort_key runtime_reason_order (failed_checks intent pd ob pol t f) = failed_checks intent pd ob pol t f"
    using s by (intro sort_key_id_if_sorted) (simp add: strict_sorted_iff)
  have "WITHIN_LIMITS \<notin> set (map fst (risk_checks intent pd ob pol t f))" unfolding risk_checks_names by simp
  then show "WITHIN_LIMITS \<notin> set (failed_checks intent pd ob pol t f)" unfolding failed_checks_def by auto
qed

lemma find_risk_Inr:
  assumes "find_risk rx intent ob pol t = Inr f"
  shows "fd_spec f = instrument_authority intent ob
    \<and> fd_portfolio_valid f = portfolio_authority_valid intent (fd_spec f) ob pol t (fd_valuation_valid f)
    \<and> fd_venue_healthy f = venue_is_healthy intent (fd_spec f) ob pol t
    \<and> (\<forall>p. fd_projection f = Some p \<longrightarrow> project_runtime_order rx intent ob pol t = Inr p)"
proof -
  have t: "pr = Some p \<Longrightarrow> project_runtime_order rx intent ob pol t = Inr p" if "try_projection rx intent ob pol t b = Inr (pr, x)" for b pr x p
    using that by (auto simp: try_projection_def split: if_splits sum.splits error.splits)
  from assms obtain b pr x where "try_projection rx intent ob pol t b = Inr (pr, x)" "fd_projection f = pr"
    unfolding find_risk_def Let_def by (auto simp: bindE_Inr_iff)
  with assms t show ?thesis unfolding find_risk_def Let_def by (auto simp: bindE_Inr_iff)
qed

lemma clear_projects:
  assumes f: "find_risk rx intent ob pol t = Inr f" and clear: "failed_checks intent pd ob pol t f = []"
  shows "\<exists>p. fd_projection f = Some p"
proof (rule ccontr)
  assume "\<not> ?thesis"
  then have none: "fd_projection f = None" by simp
  from clear have c: "fd_spec f \<noteq> None" "fd_market_fresh f" "fd_valuation_valid f" "\<not> fd_projection_failed f" "fd_portfolio_valid f"
      "fd_balance_valid f" "fd_venue_healthy f"
    unfolding failed_checks_Nil by (auto simp: risk_checks_def Let_def balance_margin_failed_def)
  have v: "filter (\<lambda>x. vh_venue_id x = rs_venue_id s) (ro_venue_health ob) \<noteq> []" if "venue_is_healthy intent (Some s) ob pol t" for s
    using that by (auto simp: venue_is_healthy_def split: list.splits)
  from f none c v show False
    unfolding find_risk_def Let_def
    by (auto simp: bindE_Inr_iff try_projection_def split: if_splits option.splits sum.splits error.splits)
qed

lemma decision_id: "mk_runtime_order_risk_decision d = Inr e \<Longrightarrow> e = d"
  unfolding mk_runtime_order_risk_decision_def valid_order_risk_decision_def by (auto simp: wrap_Inr_iff bindE_Inr_iff)

lemma validated_digest_Inr:
  "validated_digest rx mk dump v f = Inr h \<Longrightarrow> \<exists>w. mk v = Inr w \<and> h = rx_sha256 rx (utf8 (dumps (JObject (dump w))))"
  by (auto simp: validated_digest_def canonical_model_digest_def canonical_model_json_def catch_Inr_iff bindE_Inr_iff Let_def split: if_splits)

lemma evaluate_Inr:
  assumes "evaluate_runtime_order_risk rx did intent pd ob pol t = Inr d"
  shows "\<exists>f. find_risk rx intent ob pol t = Inr f \<and> observation_ok ob
    \<and> od_outcome d = (if failed_checks intent pd ob pol t f = [] then RT_APPROVED else RT_REJECTED)
    \<and> od_reason_codes d = (if failed_checks intent pd ob pol t f = [] then [WITHIN_LIMITS] else failed_checks intent pd ob pol t f)
    \<and> od_risk_price d = map_option pj_risk_price (fd_projection f)
    \<and> od_projected_position_quantity d = map_option pj_position_quantity (fd_projection f)
    \<and> od_projected_gross d = map_option pj_gross (fd_projection f) \<and> od_projected_net d = map_option pj_net (fd_projection f)"
proof -
  from assms obtain f h where f: "find_risk rx intent ob pol t = Inr f"
    and h: "validated_digest rx mk_runtime_risk_observation (rx_observation rx) ob ''observation'' = Inr h"
    unfolding evaluate_runtime_order_risk_def by (auto simp: bindE_Inr_iff split: if_splits)
  from validated_digest_Inr [OF h] have "observation_ok ob" using mk_observation_ok by blast
  moreover from assms f have "od_outcome d = (if failed_checks intent pd ob pol t f = [] then RT_APPROVED else RT_REJECTED)
    \<and> od_reason_codes d = (if failed_checks intent pd ob pol t f = [] then [WITHIN_LIMITS] else failed_checks intent pd ob pol t f)
    \<and> od_risk_price d = map_option pj_risk_price (fd_projection f)
    \<and> od_projected_position_quantity d = map_option pj_position_quantity (fd_projection f)
    \<and> od_projected_gross d = map_option pj_gross (fd_projection f) \<and> od_projected_net d = map_option pj_net (fd_projection f)"
    unfolding evaluate_runtime_order_risk_def failed_checks_def Let_def by (auto simp: bindE_Inr_iff dest!: decision_id split: if_splits)
  ultimately show ?thesis using f by blast
qed

section \<open>How a projection can fail\<close>

definition inexact_error :: "error \<Rightarrow> bool" where
  "inexact_error e =
     (arithmetic_failure e
      \<or> e = ProjectionError ''order and market prices must use settlement currency''
      \<or> e = ProjectionError ''projected position quantity is not exact''
      \<or> (\<exists>f. e = ProjectionError (f @ '' is not exact at reporting currency precision'')))"

definition fails_inexact :: "'a res \<Rightarrow> bool" where
  "fails_inexact m = (\<forall>e. m = Inl e \<longrightarrow> inexact_error e)"

named_theorems inexact_intros \<open>computations that fail only for want of an exact representation\<close>

lemma fails_Inr [inexact_intros]: "fails_inexact (Inr x)"
  by (simp add: fails_inexact_def)

lemma fails_bind [inexact_intros]:
  "fails_inexact m \<Longrightarrow> (\<And>x. m = Inr x \<Longrightarrow> fails_inexact (k x)) \<Longrightarrow> fails_inexact (bindE m k)"
  by (cases m) (auto simp: fails_inexact_def)

lemma fails_prod [inexact_intros]: "(\<And>a b. x = (a, b) \<Longrightarrow> fails_inexact (g a b)) \<Longrightarrow> fails_inexact (case x of (a, b) \<Rightarrow> g a b)"
  by (cases x) auto

lemma fails_basic [inexact_intros]:
  "fails_inexact (projection_sum ds f)" "fails_inexact (projection_product ds f)" "fails_inexact (reporting_notional q p r f)"
  "fails_inexact (replace_gross g c d f)" "fails_inexact (projection_money a cc f)" "fails_inexact (projection_quantity a n)"
  "fails_inexact (risk_price intent market spec)"
  by (auto simp: fails_inexact_def inexact_error_def replace_gross_def risk_price_def Let_def
      dest: projection_sum_Inl projection_product_Inl reporting_notional_Inl projection_money_Inl projection_quantity_Inl split: if_splits)

lemma fails_margin [inexact_intros]: "fails_inexact (project_margin b s c p)"
  unfolding project_margin_def Let_def by (intro inexact_intros)

lemma fails_position [inexact_intros]:
  assumes "\<And>p. current = Some p \<Longrightarrow> \<not> is_zero (q_value (ap_quantity p)) \<Longrightarrow> ap_mark p \<noteq> None"
  shows "fails_inexact (project_position intent current rp rate)"
proof -
  have "fails_inexact (case current of None \<Rightarrow> Inr (dec_int 0)
      | Some p \<Rightarrow> if is_zero (q_value (ap_quantity p)) then Inr (dec_int 0)
          else (case ap_mark p of None \<Rightarrow> Inl (ProjectionError ''non-zero matching position requires a mark'')
                | Some mark \<Rightarrow> reporting_notional (q_value (ap_quantity p)) (pm_price mark) rate ''matching current position notional''))"
    using assms by (auto split: option.splits intro: inexact_intros)
  then show ?thesis unfolding project_position_def by (intro inexact_intros)
qed

text \<open>The authorities the evaluator establishes are those the projection asks for.\<close>

lemma distinct_one:
  assumes "distinct (map k xs)" "filter (\<lambda>x. k x = c) xs \<noteq> []"
  shows "\<exists>h. filter (\<lambda>x. k x = c) xs = [h]"
  using assms
proof (induction xs)
  case (Cons x xs)
  then show ?case
  proof (cases "k x = c")
    case True
    with Cons.prems have "filter (\<lambda>y. k y = c) xs = []" by (auto simp: filter_empty_conv image_iff)
    with True show ?thesis by simp
  qed auto
qed simp

lemma authorities_found:
  assumes ok: "observation_ok ob" and s: "instrument_authority intent ob = Some spec"
    and m: "market_authority intent (Some spec) ob = Some market"
    and b: "length (filter (\<lambda>b. ab_currency b = as_reporting_currency (ro_portfolio ob)) (as_balances (ro_portfolio ob))) = 1"
    and v: "filter (\<lambda>x. vh_venue_id x = rs_venue_id spec) (ro_venue_health ob) \<noteq> []"
  shows "\<exists>balance. projection_authorities intent ob = Inr (spec, market, balance)"
proof -
  have fs: "filter (\<lambda>x. canonical (rs_instrument x) = canonical (oi_instrument intent)) (ro_instrument_specs ob) = [spec]"
    and es: "rs_instrument spec = oi_instrument intent" "rs_venue_id spec = ii_venue (oi_instrument intent)"
    using s by (auto simp: instrument_authority_def split: list.splits if_splits)
  have fm: "filter (\<lambda>x. canonical (rm_instrument x) = canonical (oi_instrument intent)) (ro_market_snapshots ob) = [market]"
    and em: "rm_instrument market = oi_instrument intent"
      "\<not> list_ex (\<lambda>p. p_currency p \<noteq> rs_settlement_currency spec) [rm_bid market, rm_ask market, rm_last market]"
    using m by (auto simp: market_authority_def split: list.splits if_splits)
  obtain h where fv: "filter (\<lambda>x. vh_venue_id x = rs_venue_id spec) (ro_venue_health ob) = [h]"
    using distinct_one [OF _ v] ok by (auto simp: observation_ok_def)
  have hv: "vh_venue_id h = rs_venue_id spec" using arg_cong [OF fv, of set] by auto
  have code: "cur_code (ab_currency x) = cur_code (as_reporting_currency (ro_portfolio ob)) \<longleftrightarrow> ab_currency x = as_reporting_currency (ro_portfolio ob)"
    if "x \<in> set (as_balances (ro_portfolio ob))" for x
    using ok that by (intro registered_code_inj) (auto simp: observation_ok_def list_all_iff)
  have "filter (\<lambda>b. cur_code (ab_currency b) = cur_code (as_reporting_currency (ro_portfolio ob))) (as_balances (ro_portfolio ob))
      = filter (\<lambda>b. ab_currency b = as_reporting_currency (ro_portfolio ob)) (as_balances (ro_portfolio ob))"
    using code by (rule filter_cong [OF refl])
  moreover obtain bal where bal: "filter (\<lambda>b. ab_currency b = as_reporting_currency (ro_portfolio ob)) (as_balances (ro_portfolio ob)) = [bal]"
    using b by (metis One_nat_def length_0_conv length_Suc_conv)
  ultimately have fb: "filter (\<lambda>b. cur_code (ab_currency b) = cur_code (as_reporting_currency (ro_portfolio ob)))
      (as_balances (ro_portfolio ob)) = [bal]" by (rule trans)
  have eb: "ab_currency bal = as_reporting_currency (ro_portfolio ob)" using arg_cong [OF bal, of set] by auto
  note one = fs [folded one_by_key_Inr [where f = "''instrument risk spec''"]] fm [folded one_by_key_Inr [where f = "''market snapshot''"]]
    fv [folded one_by_key_Inr [where f = "''venue health record''"]] fb [folded one_by_key_Inr [where f = "''reporting balance''"]]
  have "projection_authorities intent ob = Inr (spec, market, bal)"
    unfolding projection_authorities_def Let_def using one es em eb hv by (simp add: projection_if_def)
  then show ?thesis by blast
qed

lemma matching_position_found:
  assumes "portfolio_authority_valid intent (Some spec) ob pol t b"
  shows "\<exists>current. matching_position intent ob spec = Inr current"
  using assms unfolding portfolio_authority_valid_def Let_def order_positions_def matching_position_def
  by (auto simp: projection_if_def split: list.splits)

text \<open>A model with a canonical text: it is valid, and no integer of its document exceeds the interpreter's digits.\<close>

definition representable :: "('a \<Rightarrow> 'a res) \<Rightarrow> ('a \<Rightarrow> (string \<times> json) list) \<Rightarrow> 'a \<Rightarrow> bool" where
  "representable validate dump x \<longleftrightarrow> (\<exists>y. validate x = Inr y \<and> small_ints (JObject (dump y)))"

lemma representable_iff: "representable validate dump x \<longleftrightarrow> (\<exists>t. canonical_model_json validate dump x = Inr t)"
  by (auto simp: representable_def canonical_model_json_def bindE_Inr_iff catch_Inr_iff Let_def)

lemma representable_valid: "representable validate dump x \<Longrightarrow> \<exists>y. validate x = Inr y"
  by (auto simp: representable_def)

lemma check_model_ok: "representable validate dump x \<Longrightarrow> check_model rx validate dump x f = Inr ()"
  by (auto simp: representable_iff check_model_def canonical_model_digest_def)

lemma projection_fails_inexact:
  assumes models: "representable mk_order_intent (rx_intent rx) intent" "representable mk_runtime_risk_observation (rx_observation rx) ob"
      "representable mk_runtime_risk_policy (rx_policy rx) pol" "dt_utcoffset t = Some 0"
    and s: "instrument_authority intent ob = Some spec" and m: "market_authority intent (Some spec) ob = Some market"
    and val: "valuation_authority_valid (Some spec) ob pol t" and port: "portfolio_authority_valid intent (Some spec) ob pol t True"
    and b: "length (filter (\<lambda>b. ab_currency b = as_reporting_currency (ro_portfolio ob)) (as_balances (ro_portfolio ob))) = 1"
    and v: "filter (\<lambda>x. vh_venue_id x = rs_venue_id spec) (ro_venue_health ob) \<noteq> []"
  shows "fails_inexact (project_runtime_order rx intent ob pol t)"
proof -
  have ok: "observation_ok ob" using mk_observation_ok representable_valid [OF models(2)] by blast
  obtain balance where a: "projection_authorities intent ob = Inr (spec, market, balance)"
    using authorities_found [OF ok s m b v] by blast
  have reg: "is_registered DEFAULT_CURRENCY_REGISTRY (rs_settlement_currency spec)" using projection_authorities_Inr [OF ok a] by blast
  obtain rate where rate: "projection_rate (rs_settlement_currency spec) (as_reporting_currency (ro_portfolio ob)) ob pol t = Inr rate"
    using val rates_agree [OF ok reg] by (auto simp: valuation_authority_valid_def)
  obtain current where cur: "matching_position intent ob spec = Inr current" using matching_position_found [OF port] by blast
  have cons: "partitions_are_consistent ob pol t" using port by (simp add: portfolio_authority_valid_def Let_def)
  then have valued: "list_all (valued ob pol t) (live_positions (as_positions (ro_portfolio ob)))"
    unfolding partitions_are_consistent_def Let_def by (auto simp: position_amounts_iff split: option.splits prod.splits)
  have regs: "\<forall>p \<in> set (as_positions (ro_portfolio ob)). is_registered DEFAULT_CURRENCY_REGISTRY (ap_settlement_currency p)"
    using ok by (simp add: observation_ok_def list_all_iff)
  have contributions: "fails_inexact (position_contributions ob pol t)"
    using contributions_fold_Inl [OF ok regs valued] unfolding position_contributions_def fails_inexact_def inexact_error_def by blast
  have partitions: "fails_inexact (verify_partitions ob (x, y, z))" if "position_contributions ob pol t = Inr (x, y, z)" for x y z
    using verify_partitions_complete [OF ok that cons] unfolding fails_inexact_def inexact_error_def by blast
  have mark: "ap_mark p \<noteq> None" if "current = Some p" "\<not> is_zero (q_value (ap_quantity p))" for p
  proof -
    have "p \<in> set (order_positions intent ob)" using matching_position_Inr [OF cur] that(1) by simp
    then have "p \<in> set (live_positions (as_positions (ro_portfolio ob)))" using that(2) by (simp add: order_positions_def live_positions_def)
    with valued show ?thesis by (auto simp: list_all_iff valued_def)
  qed
  have acc: "oi_account_id intent = rp_account_id pol \<and> rp_account_id pol = as_account_id (ro_portfolio ob)"
    using port by (simp add: portfolio_authority_valid_def Let_def)
  have mon: "\<not> list_ex (\<lambda>v. m_currency v \<noteq> as_reporting_currency (ro_portfolio ob)) (policy_money pol)"
    using val by (simp add: valuation_authority_valid_def)
  have checks: "projection_if (\<not> (oi_account_id intent = rp_account_id pol \<and> rp_account_id pol = as_account_id (ro_portfolio ob)))
       ''order, policy, and portfolio accounts must match'' = Inr ()"
      "projection_if (list_ex (\<lambda>v. m_currency v \<noteq> as_reporting_currency (ro_portfolio ob)) (policy_money pol))
       ''policy currency must match portfolio reporting currency'' = Inr ()"
      "catch_value_error (require_utc t) (ProjectionError ''decided_at must be UTC'') = Inr t"
    using acc mon models(4) by (simp_all add: projection_if_def require_utc_def)
  show ?thesis
    unfolding project_runtime_order_def Let_def models(1-3) [THEN check_model_ok] checks bindE_simps a prod.case rate
    using mark by (intro inexact_intros contributions) (auto intro!: inexact_intros partitions simp: cur)
qed

section \<open>Evaluation always decides\<close>

lemma find_risk_Inl:
  assumes models: "representable mk_order_intent (rx_intent rx) intent" "representable mk_runtime_risk_observation (rx_observation rx) ob"
      "representable mk_runtime_risk_policy (rx_policy rx) pol" "dt_utcoffset t = Some 0"
    and e: "find_risk rx intent ob pol t = Inl e"
  shows "arithmetic_failure e \<and> project_runtime_order rx intent ob pol t = Inl e"
proof -
  let ?spec = "instrument_authority intent ob"
  let ?ready = "case ?spec of None \<Rightarrow> False
     | Some s \<Rightarrow> market_authority intent ?spec ob \<noteq> None \<and> valuation_authority_valid ?spec ob pol t
         \<and> portfolio_authority_valid intent ?spec ob pol t (valuation_authority_valid ?spec ob pol t)
         \<and> length (filter (\<lambda>b. ab_currency b = as_reporting_currency (ro_portfolio ob)) (as_balances (ro_portfolio ob))) = 1
         \<and> filter (\<lambda>x. vh_venue_id x = rs_venue_id s) (ro_venue_health ob) \<noteq> []"
  from e have "try_projection rx intent ob pol t ?ready = Inl e"
    unfolding find_risk_def Let_def by (auto simp: bindE_Inl_iff)
  then have p: "project_runtime_order rx intent ob pol t = Inl e" and r: ?ready and n: "\<And>m. e \<noteq> ProjectionError m"
    by (auto simp: try_projection_def split: if_splits sum.splits error.splits)
  from r obtain spec market where s: "?spec = Some spec" and m: "market_authority intent (Some spec) ob = Some market"
    and val: "valuation_authority_valid (Some spec) ob pol t" and port: "portfolio_authority_valid intent (Some spec) ob pol t True"
    and b: "length (filter (\<lambda>b. ab_currency b = as_reporting_currency (ro_portfolio ob)) (as_balances (ro_portfolio ob))) = 1"
    and v: "filter (\<lambda>x. vh_venue_id x = rs_venue_id spec) (ro_venue_health ob) \<noteq> []"
    by (auto split: option.splits)
  from projection_fails_inexact [OF models s m val port b v] p n show ?thesis
    unfolding fails_inexact_def inexact_error_def by blast
qed

lemma validated_digest_ok:
  "representable validate dump v \<Longrightarrow> \<exists>x. validated_digest rx validate dump v f = Inr (rx_sha256 rx x)"
  by (auto simp: representable_iff validated_digest_def canonical_model_digest_def)

lemma digests_ok:
  assumes "representable mk_order_intent (rx_intent rx) intent" "representable mk_risk_decision (rx_decision rx) pd"
    "representable mk_runtime_risk_observation (rx_observation rx) ob" "representable mk_runtime_risk_policy (rx_policy rx) pol"
    "representable mk_account_portfolio_snapshot (rx_portfolio rx) (ro_portfolio ob)"
  obtains x1 x2 x3 x4 x5 where "validated_digest rx mk_order_intent (rx_intent rx) intent ''intent'' = Inr (rx_sha256 rx x1)"
    "validated_digest rx mk_risk_decision (rx_decision rx) pd ''policy_decision'' = Inr (rx_sha256 rx x2)"
    "validated_digest rx mk_runtime_risk_observation (rx_observation rx) ob ''observation'' = Inr (rx_sha256 rx x3)"
    "validated_digest rx mk_runtime_risk_policy (rx_policy rx) pol ''policy'' = Inr (rx_sha256 rx x4)"
    "validated_digest rx mk_account_portfolio_snapshot (rx_portfolio rx) (ro_portfolio ob) ''portfolio'' = Inr (rx_sha256 rx x5)"
  using assms [THEN validated_digest_ok, of rx] by metis

lemma valid_order_risk_decision_ok:
  assumes "dt_utcoffset (od_decided_at d) = Some 0" "0 \<le> od_observation_version d"
    and "od_reason_codes d = (if fs = [] then [WITHIN_LIMITS] else fs)" "od_outcome d = (if fs = [] then RT_APPROVED else RT_REJECTED)"
    and "distinct fs \<and> sort_key runtime_reason_order fs = fs \<and> WITHIN_LIMITS \<notin> set fs" "fs = [] \<Longrightarrow> projections_complete d"
  shows "valid_order_risk_decision d = Inr d"
  using assms by (auto simp: valid_order_risk_decision_def require_utc_def reject_if_def distinct_card)

lemma evaluation_reaches_decision:
  assumes hex: "\<forall>x. sha256_hex (rx_sha256 rx x)"
    and models: "representable mk_order_intent (rx_intent rx) intent" "representable mk_risk_decision (rx_decision rx) pd"
      "representable mk_runtime_risk_observation (rx_observation rx) ob" "representable mk_runtime_risk_policy (rx_policy rx) pol"
      "representable mk_account_portfolio_snapshot (rx_portfolio rx) (ro_portfolio ob)"
    and times: "dt_utcoffset t = Some 0" "dt_le (rd_decided_at pd) (oi_requested_at intent)" "dt_le (oi_requested_at intent) t"
      "dt_le (ro_observed_at ob) t"
    and f: "find_risk rx intent ob pol t = Inr f"
  shows "\<exists>d. evaluate_runtime_order_risk rx did intent pd ob pol t = Inr d
    \<and> (od_outcome d = RT_APPROVED \<longleftrightarrow> list_all (\<lambda>c. \<not> snd c) (risk_checks intent pd ob pol t f))
    \<and> (od_outcome d = RT_REJECTED \<longrightarrow> od_reason_codes d = map fst (filter snd (risk_checks intent pd ob pol t f)))
    \<and> (od_outcome d = RT_APPROVED \<longrightarrow> od_reason_codes d = [WITHIN_LIMITS] \<and> projections_complete d)
    \<and> sorted_wrt (<) (map runtime_reason_order (od_reason_codes d))"
proof -
  have ok: "observation_ok ob" using mk_observation_ok representable_valid [OF models(3)] by blast
  have pv: "canonical_identifier (rp_policy_version pol)"
    using representable_valid [OF models(4)] unfolding mk_runtime_risk_policy_def by (auto simp: wrap_Inr_iff bindE_Inr_iff require_field_Inr_iff)
  obtain x1 x2 x3 x4 x5 where dig:
    "validated_digest rx mk_order_intent (rx_intent rx) intent ''intent'' = Inr (rx_sha256 rx x1)"
    "validated_digest rx mk_risk_decision (rx_decision rx) pd ''policy_decision'' = Inr (rx_sha256 rx x2)"
    "validated_digest rx mk_runtime_risk_observation (rx_observation rx) ob ''observation'' = Inr (rx_sha256 rx x3)"
    "validated_digest rx mk_runtime_risk_policy (rx_policy rx) pol ''policy'' = Inr (rx_sha256 rx x4)"
    "validated_digest rx mk_account_portfolio_snapshot (rx_portfolio rx) (ro_portfolio ob) ''portfolio'' = Inr (rx_sha256 rx x5)"
    using models by (rule digests_ok)
  define fs where "fs = failed_checks intent pd ob pol t f"
  note canon = failed_checks_canonical [of intent pd ob pol t f, folded fs_def]
  obtain p where p: "fs = [] \<Longrightarrow> fd_projection f = Some p" using clear_projects [OF f] unfolding fs_def by blast
  obtain d where d: "evaluate_runtime_order_risk rx did intent pd ob pol t = mk_runtime_order_risk_decision d"
    and hexes: "sha256_hex (od_intent_digest d)" "sha256_hex (od_policy_risk_decision_digest d)" "sha256_hex (od_portfolio_digest d)"
      "sha256_hex (od_observation_digest d)" "sha256_hex (od_policy_digest d)" "od_policy_version d = rp_policy_version pol"
    and fields: "od_decided_at d = t" "od_observation_version d = ro_state_version ob"
      "od_reason_codes d = (if fs = [] then [WITHIN_LIMITS] else fs)" "od_outcome d = (if fs = [] then RT_APPROVED else RT_REJECTED)"
      "fs = [] \<Longrightarrow> projections_complete d"
    unfolding evaluate_runtime_order_risk_def Let_def f bindE_simps
    using hex times p by (auto simp: require_utc_def projections_complete_def fs_def failed_checks_def dig)
  have "valid_order_risk_decision d = Inr d"
    using times(1) ok fields canon by (intro valid_order_risk_decision_ok [where fs = fs]) (simp_all add: observation_ok_def)
  then have e: "evaluate_runtime_order_risk rx did intent pd ob pol t = Inr d"
    unfolding d mk_runtime_order_risk_decision_def using hexes pv by (simp add: require_field_def)
  show ?thesis
    using e f fields failed_checks_sorted [of intent pd ob pol t f] unfolding fs_def failed_checks_Nil [symmetric] by (auto simp: failed_checks_def)
qed

lemma evaluation_raises:
  assumes models: "representable mk_order_intent (rx_intent rx) intent" "representable mk_risk_decision (rx_decision rx) pd"
      "representable mk_runtime_risk_observation (rx_observation rx) ob" "representable mk_runtime_risk_policy (rx_policy rx) pol"
      "representable mk_account_portfolio_snapshot (rx_portfolio rx) (ro_portfolio ob)"
    and times: "dt_utcoffset t = Some 0" "dt_le (rd_decided_at pd) (oi_requested_at intent)" "dt_le (oi_requested_at intent) t"
      "dt_le (ro_observed_at ob) t"
    and e: "find_risk rx intent ob pol t = Inl e"
  shows "evaluate_runtime_order_risk rx did intent pd ob pol t = Inl e"
proof -
  show ?thesis using models by (rule digests_ok) (use times e in \<open>simp add: evaluate_runtime_order_risk_def require_utc_def\<close>)
qed

section \<open>What an approved order guarantees\<close>

definition order_within_limits ::
  "order_intent \<Rightarrow> runtime_risk_observation \<Rightarrow> runtime_risk_policy \<Rightarrow> datetime \<Rightarrow> instrument_risk_spec \<Rightarrow> account_balance_snapshot
    \<Rightarrow> decimal \<Rightarrow> price \<Rightarrow> bool" where
  "order_within_limits intent ob pol t spec balance rate price =
     (let v = position_value ob pol t; rest = other_positions intent ob; after = value_after intent ob price rate;
          cost = order_value intent price rate; amount = (\<lambda>m. fraction (m_amount m))
      in amount (rs_min_order_notional spec) \<le> cost \<and> cost \<le> amount (rs_max_order_notional spec)
         \<and> amount (ex_pending (as_total_exposure (ro_portfolio ob))) + cost \<le> amount (rp_max_pending_exposure pol)
         \<and> gross_value v rest + \<bar>after\<bar> \<le> amount (rp_max_gross_exposure pol)
         \<and> \<bar>net_value v rest + after\<bar> \<le> amount (rp_max_abs_net_exposure pol)
         \<and> gross_value v (filter (\<lambda>q. ap_strategy_id q = oi_strategy_id intent) rest) + \<bar>after\<bar> \<le> amount (rp_max_strategy_exposure pol)
         \<and> gross_value v (filter (\<lambda>q. ii_venue (ap_instrument q) = ii_venue (oi_instrument intent)) rest) + \<bar>after\<bar>
             \<le> amount (rp_max_venue_exposure pol)
         \<and> amount (rp_min_available_funds pol)
             \<le> amount (ab_cash balance) - amount (ab_locked_funds balance) - amount (ab_margin_used balance)
                - max 0 (\<bar>after\<bar> - gross_value v (order_positions intent ob)) * fraction (rs_initial_margin_rate spec))"

definition order_candidates :: "order_intent \<Rightarrow> risk_market_snapshot \<Rightarrow> price list" where
  "order_candidates intent market =
     (if oi_side intent = BUY then rm_ask market else rm_bid market)
     # (case oi_limit_price intent of None \<Rightarrow> [] | Some p \<Rightarrow> [p]) @ (case oi_trigger_price intent of None \<Rightarrow> [] | Some p \<Rightarrow> [p])"

lemma foldl_max_price:
  "\<forall>c \<in> set (b # ps). fraction (p_amount c) \<le> fraction (p_amount (foldl max_price b ps))"
  by (induction ps arbitrary: b) (fastforce simp: max_price_def dec_lt_def)+

lemma risk_price_conservative:
  assumes "risk_price intent market spec = Inr p"
  shows "\<forall>c \<in> set (order_candidates intent market). fraction (p_amount c) \<le> fraction (p_amount p)"
proof -
  let ?cs = "order_candidates intent market"
  have "p = foldl max_price (hd ?cs) (tl ?cs)"
    using assms unfolding risk_price_def order_candidates_def Let_def list.sel by (metis Inl_Inr_False Inr_inject)
  moreover have "hd ?cs # tl ?cs = ?cs" by (simp add: order_candidates_def)
  ultimately show ?thesis using foldl_max_price [of "hd ?cs" "tl ?cs"] by simp
qed

lemma approved_parts:
  assumes "evaluate_runtime_order_risk rx did intent pd ob pol t = Inr d" "od_outcome d = RT_APPROVED"
  obtains f p where "find_risk rx intent ob pol t = Inr f" "observation_ok ob" "failed_checks intent pd ob pol t f = []"
    "fd_projection f = Some p" "project_runtime_order rx intent ob pol t = Inr p" "od_risk_price d = Some (pj_risk_price p)"
    "od_projected_position_quantity d = Some (pj_position_quantity p)"
    "od_projected_gross d = Some (pj_gross p)" "od_projected_net d = Some (pj_net p)"
proof -
  from evaluate_Inr [OF assms(1)] obtain f where f: "find_risk rx intent ob pol t = Inr f" "observation_ok ob"
    and o: "od_outcome d = (if failed_checks intent pd ob pol t f = [] then RT_APPROVED else RT_REJECTED)"
    and r: "od_risk_price d = map_option pj_risk_price (fd_projection f)"
      "od_projected_position_quantity d = map_option pj_position_quantity (fd_projection f)"
      "od_projected_gross d = map_option pj_gross (fd_projection f)" "od_projected_net d = map_option pj_net (fd_projection f)" by blast
  from o assms(2) have c: "failed_checks intent pd ob pol t f = []" by (auto split: if_splits)
  from clear_projects [OF f(1) c] obtain p where p: "fd_projection f = Some p" by blast
  with find_risk_Inr [OF f(1)] have "project_runtime_order rx intent ob pol t = Inr p" by blast
  with f c p r that show thesis by simp
qed

lemma is_multiple_int: "is_multiple v u \<Longrightarrow> 0 < fraction u \<Longrightarrow> \<exists>n::int. fraction v = of_int n * fraction u"
proof -
  assume m: "is_multiple v u" and u: "0 < fraction u"
  obtain a b where q: "quotient_of (fraction v / fraction u) = (a, b)" by fastforce
  with m have "b = 1" by (simp add: is_multiple_def)
  then have "fraction v / fraction u = of_int a" using quotient_of_div [OF q] by simp
  then have "fraction v = of_int a * fraction u" using u by (metis less_irrefl nonzero_divide_eq_eq)
  then show ?thesis by blast
qed

lemma spec_increment_positive:
  assumes "mk_runtime_risk_observation ob = Inr ob'" "spec \<in> set (ro_instrument_specs ob)"
  shows "0 < fraction (oq_value (rs_quantity_increment spec))"
proof -
  from assms(1) obtain ss where "mapE mk_instrument_risk_spec (ro_instrument_specs ob) = Inr ss"
    unfolding mk_runtime_risk_observation_def by (auto simp: wrap_Inr_iff bindE_Inr_iff)
  from mapE_InrD [OF this assms(2)] have "require_positive (oq_value (rs_quantity_increment spec)) ''quantity_increment'' = Inr ()"
    unfolding mk_instrument_risk_spec_def valid_risk_spec_def by (auto simp: wrap_Inr_iff bindE_Inr_iff)
  then show ?thesis by (simp add: require_positive_def reject_if_Inr_iff dec_le_def not_le)
qed

lemma risk_decision_unhalted:
  assumes "mk_risk_decision d = Inr e" "rd_outcome d \<noteq> RISK_REJECTED"
  shows "\<not> rk_kill_switch_engaged (rd_state_snapshot d)"
proof -
  from assms(1) obtain st where "mk_risk_state_snapshot (rd_state_snapshot d) = Inr st"
    and v: "rd_state_snapshot e = st" "rd_outcome e = rd_outcome d"
    unfolding mk_risk_decision_def valid_decision_semantics_def Let_def by (auto simp: wrap_Inr_iff bindE_Inr_iff)
  then obtain x where "(rd_state_snapshot d)\<lparr>rk_portfolio := x\<rparr> = st"
    unfolding mk_risk_state_snapshot_def valid_risk_state_def by (auto simp: wrap_Inr_iff bindE_Inr_iff)
  from arg_cong [OF this, of rk_kill_switch_engaged] have "rk_kill_switch_engaged st = rk_kill_switch_engaged (rd_state_snapshot d)" by simp
  with v risk_decision_target_iff [OF assms(1)] assms(2) show ?thesis by auto
qed

lemma evaluate_models:
  assumes "evaluate_runtime_order_risk rx did intent pd ob pol t = Inr d"
  shows "(\<exists>x. mk_risk_decision pd = Inr x) \<and> (\<exists>x. mk_runtime_risk_observation ob = Inr x)"
proof -
  from assms obtain g h where g: "validated_digest rx mk_risk_decision (rx_decision rx) pd ''policy_decision'' = Inr g"
    and h: "validated_digest rx mk_runtime_risk_observation (rx_observation rx) ob ''observation'' = Inr h"
    unfolding evaluate_runtime_order_risk_def by (auto simp: bindE_Inr_iff)
  show ?thesis using validated_digest_Inr [OF g] validated_digest_Inr [OF h] by blast
qed

end
