(* ===== verification/Risk_Theorems.thy ===== *)
theory Risk_Theorems
  imports Risk_Analysis
begin

text \<open>
  What the runtime-risk evaluation guarantees, with a sample evaluation that meets the hypotheses: a decision
  for every valid input, the limits and authorities behind an approval, and how the projection may fail.
\<close>

section \<open>Properties\<close>

text \<open>
  C19: the evaluation of representable inputs in time order reaches a decision: it is approved exactly when no
  check fails, its reasons are exactly the checks that fail, in the fixed order and without repetition, and
  an approved decision carries the complete projection. The only other outcome is an error the interpreter
  raises inside the projection and the evaluation lets through: a decimal beyond the exponent range, or a
  coefficient of more than 4300 digits that is written out.
\<close>

theorem evaluation_decides:
  assumes hex: "\<forall>x. sha256_hex (rx_sha256 rx x)"
    and models: "representable mk_order_intent (rx_intent rx) intent" "representable mk_risk_decision (rx_decision rx) pd"
      "representable mk_runtime_risk_observation (rx_observation rx) ob" "representable mk_runtime_risk_policy (rx_policy rx) pol"
      "representable mk_account_portfolio_snapshot (rx_portfolio rx) (ro_portfolio ob)"
    and times: "dt_utcoffset t = Some 0" "dt_le (rd_decided_at pd) (oi_requested_at intent)" "dt_le (oi_requested_at intent) t"
      "dt_le (ro_observed_at ob) t"
  shows "(\<exists>d f. evaluate_runtime_order_risk rx did intent pd ob pol t = Inr d \<and> find_risk rx intent ob pol t = Inr f
      \<and> (od_outcome d = RT_APPROVED \<longleftrightarrow> list_all (\<lambda>c. \<not> snd c) (risk_checks intent pd ob pol t f))
      \<and> (od_outcome d = RT_REJECTED \<longrightarrow> od_reason_codes d = map fst (filter snd (risk_checks intent pd ob pol t f)))
      \<and> (od_outcome d = RT_APPROVED \<longrightarrow> od_reason_codes d = [WITHIN_LIMITS] \<and> projections_complete d)
      \<and> sorted_wrt (<) (map runtime_reason_order (od_reason_codes d)))
    \<or> (\<exists>e. evaluate_runtime_order_risk rx did intent pd ob pol t = Inl e \<and> project_runtime_order rx intent ob pol t = Inl e
      \<and> (e = InvalidOperation \<or> e = DIGIT_LIMIT))"
proof (cases "find_risk rx intent ob pol t")
  case (Inr f)
  with evaluation_reaches_decision [OF assms Inr] show ?thesis by blast
next
  case (Inl e)
  with find_risk_Inl [OF models(1,3,4) times(1) Inl] evaluation_raises [OF models times Inl] show ?thesis
    unfolding arithmetic_failure_def by blast
qed

text \<open>
  C18: an approved order keeps the account inside every limit of its policy, whatever the projection did on the
  way: with the order carried out in full and valued at a price not below those of the market, the limit and
  the trigger, the value of the order, the pending amount, the gross, net, strategy and venue exposure recomputed from
  the positions, and the funds left after margin, all satisfy the bounds, exactly and in the reporting
  currency.
\<close>

theorem approved_order_within_limits:
  assumes "evaluate_runtime_order_risk rx did intent pd ob pol t = Inr d" "od_outcome d = RT_APPROVED"
  shows "\<exists>spec market balance rate price. spec \<in> set (ro_instrument_specs ob) \<and> rs_instrument spec = oi_instrument intent
    \<and> market \<in> set (ro_market_snapshots ob) \<and> rm_instrument market = oi_instrument intent
    \<and> balance \<in> set (as_balances (ro_portfolio ob)) \<and> ab_currency balance = as_reporting_currency (ro_portfolio ob)
    \<and> conversion_rate (rs_settlement_currency spec) ob pol t = Some rate \<and> od_risk_price d = Some price
    \<and> (\<forall>c \<in> set (order_candidates intent market). fraction (p_amount c) \<le> fraction (p_amount price))
    \<and> order_within_limits intent ob pol t spec balance rate price"
proof -
  obtain f p where f: "find_risk rx intent ob pol t = Inr f" and ok: "observation_ok ob" and c: "failed_checks intent pd ob pol t f = []"
    and p: "fd_projection f = Some p" "project_runtime_order rx intent ob pol t = Inr p" "od_risk_price d = Some (pj_risk_price p)"
    using assms by (rule approved_parts)
  from projection_recomputed [OF ok p(2)] obtain spec market balance rate where
    a: "projection_authorities intent ob = Inr (spec, market, balance)" and rp: "risk_price intent market spec = Inr (pj_risk_price p)"
    and rate: "conversion_rate (rs_settlement_currency spec) ob pol t = Some rate"
    and re: "recomputed intent ob pol t rate p" and fu: "funds_recomputed intent ob pol t spec rate balance p" by blast
  note auth = projection_authorities_Inr [OF ok a]
  have s: "fd_spec f = Some spec" using find_risk_Inr [OF f] auth by (auto simp: instrument_authority_def)
  from c have l: "\<not> exceeds (Some p) pj_pending (rp_max_pending_exposure pol)" "\<not> exceeds (Some p) pj_gross (rp_max_gross_exposure pol)"
      "\<bar>fraction (m_amount (pj_net p))\<bar> \<le> fraction (m_amount (rp_max_abs_net_exposure pol))"
      "\<not> exceeds (Some p) pj_strategy_gross (rp_max_strategy_exposure pol)" "\<not> exceeds (Some p) pj_venue_gross (rp_max_venue_exposure pol)"
      "notional_bounds_valid (as_reporting_currency (ro_portfolio ob)) (Some spec) (Some p)"
      "\<not> balance_margin_failed (as_reporting_currency (ro_portfolio ob)) pol (fd_balance_valid f) (Some p)"
    unfolding failed_checks_Nil by (auto simp: risk_checks_def Let_def p(1) s)
  have "order_within_limits intent ob pol t spec balance rate (pj_risk_price p)"
    using l re fu unfolding order_within_limits_def recomputed_def funds_recomputed_def Let_def
    by (auto simp: exceeds_def dec_lt_def notional_bounds_valid_def balance_margin_failed_def not_less)
  with auth rate p(3) risk_price_conservative [OF rp] show ?thesis by blast
qed

text \<open>
  C20: an approved order was authorised: the policy decision it names approved a target, was taken with the kill
  switch off and precedes it; the engine was ready and the venue healthy on fresh evidence; the quantity is
  a whole number of increments between the bounds of the order's own instrument; the daily loss, the drawdown and the command rate leave
  room for it; and neither its id nor its client order id was used before.
\<close>

theorem approved_order_authorized:
  assumes "evaluate_runtime_order_risk rx did intent pd ob pol t = Inr d" "od_outcome d = RT_APPROVED"
  shows "rd_decision_id pd = oi_risk_decision_id intent \<and> rd_outcome pd \<noteq> RISK_REJECTED
    \<and> \<not> rk_kill_switch_engaged (rd_state_snapshot pd)
    \<and> dt_le (rd_decided_at pd) (oi_requested_at intent) \<and> dt_le (oi_requested_at intent) t
    \<and> ro_engine_ready ob
    \<and> (\<exists>h \<in> set (ro_venue_health ob). vh_venue_id h = ii_venue (oi_instrument intent) \<and> vh_health h = HEALTHY
          \<and> dt_diff t (vh_observed_at h) \<le> seconds (rp_market_data_max_age_seconds pol))
    \<and> (\<exists>spec \<in> set (ro_instrument_specs ob). \<exists>n::int. rs_instrument spec = oi_instrument intent
          \<and> fraction (oq_value (oi_quantity intent)) = of_int n * fraction (oq_value (rs_quantity_increment spec))
          \<and> fraction (oq_value (rs_min_quantity spec)) \<le> fraction (oq_value (oi_quantity intent))
          \<and> fraction (oq_value (oi_quantity intent)) \<le> fraction (oq_value (rs_max_quantity spec)))
    \<and> - fraction (m_amount (ro_daily_pnl ob)) \<le> fraction (m_amount (rp_max_daily_loss pol))
    \<and> fraction (m_amount (ro_peak_equity ob)) - fraction (m_amount (ro_current_equity ob)) \<le> fraction (m_amount (rp_max_drawdown pol))
    \<and> ro_commands_in_window ob < rp_max_commands_per_window pol
    \<and> oi_intent_id intent \<notin> pc_intent_id ` set (ro_prior_commands ob)
    \<and> oi_client_order_id intent \<notin> pc_client_order_id ` set (ro_prior_commands ob)"
proof -
  obtain f p where f: "find_risk rx intent ob pol t = Inr f" and c: "failed_checks intent pd ob pol t f = []"
    using assms by (rule approved_parts)
  have times: "dt_le (rd_decided_at pd) (oi_requested_at intent) \<and> dt_le (oi_requested_at intent) t"
    using assms(1) unfolding evaluate_runtime_order_risk_def by (auto simp: bindE_Inr_iff split: if_splits)
  note found = find_risk_Inr [OF f]
  from c have k: "policy_approved intent pd" "ro_engine_ready ob" "fd_spec f \<noteq> None" "quantity_precision_valid intent (fd_spec f)"
      "quantity_bounds_valid intent (fd_spec f)" "command_rate_valid ob pol t" "\<not> duplicate_command intent ob" "fd_venue_healthy f"
      "- fraction (m_amount (rp_max_daily_loss pol)) \<le> fraction (m_amount (ro_daily_pnl ob))"
      "max (fraction (m_amount (ro_peak_equity ob)) - fraction (m_amount (ro_current_equity ob))) 0 \<le> fraction (m_amount (rp_max_drawdown pol))"
    unfolding failed_checks_Nil by (auto simp: risk_checks_def Let_def)
  obtain spec where s: "fd_spec f = Some spec" using k(3) by blast
  have "filter (\<lambda>x. canonical (rs_instrument x) = canonical (oi_instrument intent)) (ro_instrument_specs ob) = [spec]" (is "?fs = _")
    and vs: "rs_venue_id spec = ii_venue (oi_instrument intent)" and own: "rs_instrument spec = oi_instrument intent"
    using found s by (auto simp: instrument_authority_def split: list.splits if_splits)
  then have "spec \<in> set ?fs" by simp
  then have mem: "spec \<in> set (ro_instrument_specs ob)" by simp
  have q: "\<exists>n::int. fraction (oq_value (oi_quantity intent)) = of_int n * fraction (oq_value (rs_quantity_increment spec))"
    using k(4) s is_multiple_int evaluate_models [OF assms(1)] spec_increment_positive [OF _ mem] by (auto simp: quantity_precision_valid_def)
  have b: "fraction (oq_value (rs_min_quantity spec)) \<le> fraction (oq_value (oi_quantity intent))"
      "fraction (oq_value (oi_quantity intent)) \<le> fraction (oq_value (rs_max_quantity spec))"
    using k(5) s by (auto simp: quantity_bounds_valid_def dec_le_def)
  obtain h where "filter (\<lambda>x. vh_venue_id x = ii_venue (oi_instrument intent)) (ro_venue_health ob) = [h]"
    and h: "vh_health h = HEALTHY" "dt_diff t (vh_observed_at h) \<le> seconds (rp_market_data_max_age_seconds pol)"
  proof -
    have "venue_is_healthy intent (Some spec) ob pol t" using k(8) found s by simp
    then show thesis using that unfolding venue_is_healthy_def Let_def option.case vs age_is_valid_def by (auto split: list.splits)
  qed
  then have "h \<in> set (filter (\<lambda>x. vh_venue_id x = ii_venue (oi_instrument intent)) (ro_venue_health ob))" by simp
  then have v: "\<exists>h \<in> set (ro_venue_health ob). vh_venue_id h = ii_venue (oi_instrument intent) \<and> vh_health h = HEALTHY
      \<and> dt_diff t (vh_observed_at h) \<le> seconds (rp_market_data_max_age_seconds pol)" using h by auto
  have "rd_decision_id pd = oi_risk_decision_id intent \<and> rd_outcome pd \<noteq> RISK_REJECTED" using k(1) by (auto simp: policy_approved_def)
  moreover from this have "\<not> rk_kill_switch_engaged (rd_state_snapshot pd)"
    using evaluate_models [OF assms(1)] risk_decision_unhalted by blast
  moreover have "ro_commands_in_window ob < rp_max_commands_per_window pol" using k(6) by (simp add: command_rate_valid_def)
  moreover have "oi_intent_id intent \<notin> pc_intent_id ` set (ro_prior_commands ob)"
      "oi_client_order_id intent \<notin> pc_client_order_id ` set (ro_prior_commands ob)"
    using k(7) by (auto simp: duplicate_command_def list_ex_iff)
  ultimately show ?thesis using times k(2,9,10) v mem own q b by auto
qed

text \<open>
  C21: an approved reduce-only order shrinks the position it names and never turns it over: there is exactly one
  such position, and the projected quantity has its sign or is zero and a smaller size.
\<close>

theorem approved_reduce_only_shrinks:
  assumes "evaluate_runtime_order_risk rx did intent pd ob pol t = Inr d" "od_outcome d = RT_APPROVED" "oi_reduce_only intent"
  shows "\<exists>held q. order_positions intent ob = [held] \<and> od_projected_position_quantity d = Some q
    \<and> \<bar>fraction (q_value q)\<bar> < \<bar>fraction (q_value (ap_quantity held))\<bar>
    \<and> 0 \<le> fraction (q_value q) * fraction (q_value (ap_quantity held))"
proof -
  obtain f p where f: "find_risk rx intent ob pol t = Inr f" and ok: "observation_ok ob" and c: "failed_checks intent pd ob pol t f = []"
    and p: "project_runtime_order rx intent ob pol t = Inr p" and q: "od_projected_position_quantity d = Some (pj_position_quantity p)"
    using assms(1,2) by (rule approved_parts)
  from c have "reduce_only_is_valid intent ob (fd_portfolio_valid f)" "fd_portfolio_valid f"
    unfolding failed_checks_Nil by (auto simp: risk_checks_def Let_def)
  with assms(3) obtain held where held: "order_positions intent ob = [held]"
    and r: "let current = fraction (q_value (ap_quantity held)); quantity = fraction (oq_value (oi_quantity intent));
         projected = current + (if oi_side intent = SELL then - quantity else quantity)
       in if 0 < current then 0 \<le> projected \<and> projected < current
          else if current < 0 then current < projected \<and> projected \<le> 0 else False"
    by (auto simp: reduce_only_is_valid_def split: list.splits)
  from projection_recomputed [OF ok p] obtain rate where "recomputed intent ob pol t rate p" by blast
  then have "fraction (q_value (pj_position_quantity p)) = quantity_after intent ob" by (simp add: recomputed_def Let_def)
  moreover have "quantity_after intent ob = fraction (q_value (ap_quantity held))
      + (if oi_side intent = SELL then - fraction (oq_value (oi_quantity intent)) else fraction (oq_value (oi_quantity intent)))"
    by (cases "oi_side intent") (simp_all add: quantity_after_def held_quantity_def held)
  ultimately have "\<bar>fraction (q_value (pj_position_quantity p))\<bar> < \<bar>fraction (q_value (ap_quantity held))\<bar>
      \<and> 0 \<le> fraction (q_value (pj_position_quantity p)) * fraction (q_value (ap_quantity held))"
    using r by (auto simp: Let_def zero_le_mult_iff split: if_splits)
  with held q show ?thesis by blast
qed

text \<open>
  C22: the projected exposures stay coherent: the projected gross exposure of the account covers the projected
  net exposure and the gross exposure projected for the strategy, the venue and the instrument.
\<close>

theorem projected_exposure_coherent:
  assumes "mk_runtime_risk_observation ob = Inr ob'" "project_runtime_order rx intent ob pol t = Inr p"
  shows "\<bar>fraction (m_amount (pj_net p))\<bar> \<le> fraction (m_amount (pj_gross p))
    \<and> fraction (m_amount (pj_strategy_gross p)) \<le> fraction (m_amount (pj_gross p))
    \<and> fraction (m_amount (pj_venue_gross p)) \<le> fraction (m_amount (pj_gross p))
    \<and> fraction (m_amount (pj_instrument_gross p)) \<le> fraction (m_amount (pj_gross p))"
proof -
  let ?v = "position_value ob pol t" and ?rest = "other_positions intent ob"
  have ok: "observation_ok ob" using mk_observation_ok [OF assms(1)] by blast
  from projection_recomputed [OF ok assms(2)] obtain rate where r: "recomputed intent ob pol t rate p" by blast
  have "\<bar>net_value ?v ?rest + x\<bar> \<le> gross_value ?v ?rest + \<bar>x\<bar>" for x using net_le_gross [of ?v ?rest] by linarith
  then show ?thesis using r gross_value_filter_le [of ?v _ ?rest] by (simp add: recomputed_def Let_def)
qed

text \<open>
  C23: the evaluator and the projection check the exposures by two different routes, in fractions and in decimals,
  and agree: on a valid observation, what the projection accepts the evaluator accepts too, and what the
  evaluator accepts the projection accepts, or it meets a limit of the interpreter: the exponent range of a
  decimal or the 4300 digits of an integer that is written out.
\<close>

theorem partition_checks_agree:
  assumes "mk_runtime_risk_observation ob = Inr ob'"
  shows "(bindE (position_contributions ob pol t) (verify_partitions ob) = Inr () \<longrightarrow> partitions_are_consistent ob pol t)
    \<and> (partitions_are_consistent ob pol t \<longrightarrow>
         bindE (position_contributions ob pol t) (verify_partitions ob) \<in> {Inr (), Inl InvalidOperation, Inl DIGIT_LIMIT})"
proof -
  have ok: "observation_ok ob" using mk_observation_ok [OF assms(1)] by blast
  have regs: "\<forall>p \<in> set (as_positions (ro_portfolio ob)). is_registered DEFAULT_CURRENCY_REGISTRY (ap_settlement_currency p)"
    using ok by (simp add: observation_ok_def list_all_iff)
  show ?thesis
  proof (cases "position_contributions ob pol t")
    case (Inl e)
    have "arithmetic_failure e" if "partitions_are_consistent ob pol t"
    proof -
      from that have "list_all (valued ob pol t) (live_positions (as_positions (ro_portfolio ob)))"
        unfolding partitions_are_consistent_def Let_def by (auto simp: position_amounts_iff split: option.splits prod.splits)
      from contributions_fold_Inl [OF ok regs this] Inl show ?thesis by (simp add: position_contributions_def)
    qed
    with Inl show ?thesis by (auto simp: arithmetic_failure_def)
  next
    case (Inr a)
    obtain x y z where a: "a = (x, y, z)" by (cases a)
    show ?thesis
    proof (cases "verify_partitions ob (x, y, z)")
      case e: (Inl e)
      with verify_partitions_complete [OF ok Inr [unfolded a]] Inr show ?thesis by (auto simp: a arithmetic_failure_def)
    next
      case u: (Inr u)
      with verify_partitions_sound [OF ok Inr [unfolded a]] Inr show ?thesis by (simp add: a)
    qed
  qed
qed

text \<open>
  C24: a projection the evaluator attempts on valid inputs fails only for want of an exact representation: an order
  price in another currency, a projected quantity or a projected amount that the precision cannot hold, a
  decimal beyond the exponent range, or a coefficient beyond the 4300 digits that the interpreter writes out.
  No other of its checks can fail.
\<close>

theorem projection_failures:
  assumes "representable mk_order_intent (rx_intent rx) intent" "representable mk_runtime_risk_observation (rx_observation rx) ob"
      "representable mk_runtime_risk_policy (rx_policy rx) pol"
    and "dt_utcoffset t = Some 0" "instrument_authority intent ob = Some spec" "market_authority intent (Some spec) ob = Some market"
    and "valuation_authority_valid (Some spec) ob pol t" "portfolio_authority_valid intent (Some spec) ob pol t True"
    and "length (filter (\<lambda>b. ab_currency b = as_reporting_currency (ro_portfolio ob)) (as_balances (ro_portfolio ob))) = 1"
    and "filter (\<lambda>x. vh_venue_id x = rs_venue_id spec) (ro_venue_health ob) \<noteq> []"
    and "project_runtime_order rx intent ob pol t = Inl e"
  shows "e = InvalidOperation \<or> e = DIGIT_LIMIT \<or> e = ProjectionError ''order and market prices must use settlement currency''
    \<or> e = ProjectionError ''projected position quantity is not exact''
    \<or> (\<exists>f. e = ProjectionError (f @ '' is not exact at reporting currency precision''))"
  using projection_fails_inexact [OF assms(1-10)] assms(11) unfolding fails_inexact_def inexact_error_def arithmetic_failure_def by blast

section \<open>A sample evaluation\<close>

definition sample_time :: datetime where
  "sample_time = \<lparr>dt_year = 1, dt_month = 1, dt_day = 1, dt_hour = 0, dt_minute = 0, dt_second = 0, dt_micro = 0, dt_utcoffset = Some 0\<rparr>"

definition sample_instrument :: instrument_id where
  "sample_instrument = \<lparr>ii_symbol = ''X'', ii_product_type = CRYPTO_SPOT, ii_venue = ''V''\<rparr>"

definition usd :: "int \<Rightarrow> money" where
  "usd n = \<lparr>m_amount = dec_int n, m_currency = USD\<rparr>"

definition usd_price :: "int \<Rightarrow> price" where
  "usd_price n = \<lparr>p_amount = dec_int n, p_currency = USD\<rparr>"

definition units :: "int \<Rightarrow> order_quantity" where
  "units n = \<lparr>oq_value = dec_int n, oq_precision = 0\<rparr>"

definition sample_intent :: order_intent where
  "sample_intent =
     \<lparr>oi_intent_id = 1, oi_risk_decision_id = 2, oi_client_order_id = ''c'', oi_venue_order_id = None, oi_strategy_id = ''s'',
      oi_trader_id = ''t'', oi_account_id = ''a'', oi_execution_client_id = ''e'', oi_order_list_id = None,
      oi_instrument = sample_instrument, oi_side = SELL, oi_order_type = MARKET, oi_time_in_force = GTC, oi_quantity = units 1,
      oi_limit_price = None, oi_trigger_price = None, oi_trailing_offset = None, oi_gtd_expiry = None, oi_post_only = False,
      oi_reduce_only = True, oi_requested_at = sample_time, oi_schema_version = ''2.0''\<rparr>"

definition sample_target :: target_portfolio where
  "sample_target = \<lparr>tg_target_id = 3, tg_positions = [], tg_source_signal_ids = [4], tg_effective_at = sample_time, tg_schema_version = ''1''\<rparr>"

definition sample_policy_decision :: risk_decision where
  "sample_policy_decision =
     \<lparr>rd_decision_id = 2, rd_original_target = sample_target, rd_approved_target = Some sample_target, rd_outcome = RISK_APPROVED,
      rd_reason_codes = [R_WITHIN_LIMITS], rd_policy_version = ''1'',
      rd_state_snapshot = \<lparr>rk_state_id = 5,
        rk_portfolio = \<lparr>pf_snapshot_id = 6, pf_positions = [], pf_observed_at = sample_time, pf_schema_version = ''1''\<rparr>,
        rk_open_order_ids = [], rk_kill_switch_engaged = False, rk_observed_at = sample_time, rk_schema_version = ''1''\<rparr>,
      rd_decided_at = sample_time, rd_schema_version = ''1''\<rparr>"

definition sample_exposure :: exposure_snapshot where
  "sample_exposure = \<lparr>ex_currency = USD, ex_gross = usd 20, ex_net = usd 20, ex_pending = usd 0\<rparr>"

definition sample_portfolio :: account_portfolio_snapshot where
  "sample_portfolio =
     \<lparr>as_snapshot_id = 7, as_account_id = ''a'', as_reporting_currency = USD,
      as_balances = [\<lparr>ab_account_id = ''a'', ab_currency = USD, ab_cash = usd 100, ab_locked_funds = usd 0, ab_margin_used = usd 0,
        ab_realized_pnl = usd 0, ab_unrealized_pnl = usd 0, ab_fees = usd 0, ab_funding = usd 0, ab_observed_at = sample_time,
        ab_schema_version = ''1''\<rparr>],
      as_positions = [\<lparr>ap_account_id = ''a'', ap_strategy_id = ''s'', ap_instrument = sample_instrument, ap_settlement_currency = USD,
        ap_quantity = \<lparr>q_value = dec_int 2, q_precision = 0\<rparr>,
        ap_mark = Some \<lparr>pm_price = usd_price 10, pm_marked_at = sample_time, pm_provenance_id = ''m''\<rparr>,
        ap_average_entry_price = Some (usd_price 10), ap_realized_pnl = usd 0, ap_unrealized_pnl = usd 0, ap_fees = usd 0,
        ap_funding = usd 0, ap_observed_at = sample_time, ap_schema_version = ''1''\<rparr>],
      as_total_exposure = sample_exposure,
      as_instrument_exposures = [\<lparr>ie_instrument = sample_instrument, ie_exposure = sample_exposure\<rparr>],
      as_strategy_exposures = [\<lparr>se_strategy_id = ''s'', se_exposure = sample_exposure\<rparr>],
      as_venue_exposures = [\<lparr>ve_venue_id = ''V'', ve_exposure = sample_exposure\<rparr>],
      as_observed_at = sample_time, as_schema_version = ''1''\<rparr>"

definition sample_spec :: instrument_risk_spec where
  "sample_spec =
     \<lparr>rs_instrument = sample_instrument, rs_venue_id = ''V'', rs_settlement_currency = USD, rs_price_increment = usd_price 1,
      rs_quantity_increment = units 1, rs_min_quantity = units 1, rs_max_quantity = units 9, rs_min_order_notional = usd 1,
      rs_max_order_notional = usd 50, rs_initial_margin_rate = dec_int 1\<rparr>"

definition sample_observation :: runtime_risk_observation where
  "sample_observation =
     \<lparr>ro_observation_id = 8, ro_state_version = 1, ro_portfolio = sample_portfolio, ro_instrument_specs = [sample_spec],
      ro_market_snapshots = [\<lparr>rm_instrument = sample_instrument, rm_bid = usd_price 9, rm_ask = usd_price 11, rm_last = usd_price 10,
        rm_observed_at = sample_time, rm_provenance_id = ''m''\<rparr>],
      ro_conversion_rates = [], ro_venue_health = [\<lparr>vh_venue_id = ''V'', vh_health = HEALTHY, vh_observed_at = sample_time\<rparr>],
      ro_engine_ready = True, ro_daily_pnl = usd 0, ro_current_equity = usd 100, ro_peak_equity = usd 100,
      ro_command_window_started_at = sample_time, ro_commands_in_window = 0, ro_prior_commands = [], ro_observed_at = sample_time\<rparr>"

definition sample_policy :: runtime_risk_policy where
  "sample_policy =
     \<lparr>rp_policy_id = 9, rp_policy_version = ''1'', rp_account_id = ''a'', rp_market_data_max_age_seconds = 5, rp_portfolio_max_age_seconds = 5,
      rp_max_pending_exposure = usd 50, rp_max_gross_exposure = usd 50, rp_max_abs_net_exposure = usd 50, rp_max_strategy_exposure = usd 50,
      rp_max_venue_exposure = usd 50, rp_min_available_funds = usd 10, rp_max_daily_loss = usd 5, rp_max_drawdown = usd 5,
      rp_command_window_seconds = 60, rp_max_commands_per_window = 3\<rparr>"

definition sample_codec :: risk_codec where
  "sample_codec =
     \<lparr>rx_sha256 = (\<lambda>_. replicate 64 (CHR ''0'')), rx_intent = (\<lambda>_. []), rx_decision = (\<lambda>_. []), rx_portfolio = (\<lambda>_. []),
      rx_observation = (\<lambda>s. [(''state_version'', JInt (ro_state_version s))]), rx_policy = (\<lambda>_. [])\<rparr>"

lemma sample_age: "0 \<le> n \<Longrightarrow> age_is_valid sample_time sample_time n"
  by (simp add: age_is_valid_def dt_diff_def seconds_def)

lemma sample_valid:
  "mk_order_intent sample_intent = Inr sample_intent"
  "mk_risk_decision sample_policy_decision = Inr sample_policy_decision"
  "mk_runtime_risk_policy sample_policy = Inr sample_policy"
  by code_simp+

lemma sample_observed: "mk_runtime_risk_observation sample_observation = Inr sample_observation"
proof -
  have p: "is_ok (mk_account_portfolio_snapshot (ro_portfolio sample_observation))"
    "is_ok (mapE mk_instrument_risk_spec (ro_instrument_specs sample_observation))"
    "is_ok (mapE mk_risk_market_snapshot (ro_market_snapshots sample_observation))"
    "is_ok (mapE mk_risk_conversion_rate (ro_conversion_rates sample_observation))"
    "is_ok (mapE mk_venue_health_record (ro_venue_health sample_observation))"
    by code_simp+
  have "check_collections sample_observation = Inr ()"
    by (simp add: check_collections_def canonical_collection_def reject_unsorted_def reject_if_def sample_observation_def)
  then have "valid_observation sample_observation = Inr sample_observation"
    by (simp add: valid_observation_def observed_children_def sample_observation_def sample_portfolio_def sample_spec_def sample_time_def
        require_utc_def require_label_currency_def reject_if_def dt_lt_def usd_def dec_lt_def)
  moreover have "ro_prior_commands sample_observation = []" by (simp add: sample_observation_def)
  ultimately show ?thesis using p unfolding mk_runtime_risk_observation_def is_ok_iff by auto
qed

lemma sample_representable:
  "representable mk_order_intent (rx_intent sample_codec) sample_intent"
  "representable mk_risk_decision (rx_decision sample_codec) sample_policy_decision"
  "representable mk_runtime_risk_observation (rx_observation sample_codec) sample_observation"
  "representable mk_runtime_risk_policy (rx_policy sample_codec) sample_policy"
  "representable mk_account_portfolio_snapshot (rx_portfolio sample_codec) (ro_portfolio sample_observation)"
proof -
  have "small_int 1" by code_simp
  then show "representable mk_order_intent (rx_intent sample_codec) sample_intent"
    "representable mk_risk_decision (rx_decision sample_codec) sample_policy_decision"
    "representable mk_runtime_risk_observation (rx_observation sample_codec) sample_observation"
    "representable mk_runtime_risk_policy (rx_policy sample_codec) sample_policy"
    using sample_valid sample_observed by (simp_all add: representable_def sample_codec_def sample_observation_def)
  have "is_ok (mk_account_portfolio_snapshot (ro_portfolio sample_observation))"
    using sample_observed unfolding mk_runtime_risk_observation_def by (auto simp: wrap_Inr_iff bindE_Inr_iff)
  then show "representable mk_account_portfolio_snapshot (rx_portfolio sample_codec) (ro_portfolio sample_observation)"
    by (auto simp: representable_def sample_codec_def is_ok_iff)
qed

lemma sample_authorities:
  "instrument_authority sample_intent sample_observation = Some sample_spec"
  "market_authority sample_intent (Some sample_spec) sample_observation = Some (hd (ro_market_snapshots sample_observation))"
  "valuation_authority_valid (Some sample_spec) sample_observation sample_policy sample_time"
  "partitions_are_consistent sample_observation sample_policy sample_time"
  "length (filter (\<lambda>b. ab_currency b = as_reporting_currency (ro_portfolio sample_observation)) (as_balances (ro_portfolio sample_observation))) = 1"
  "filter (\<lambda>x. vh_venue_id x = rs_venue_id sample_spec) (ro_venue_health sample_observation) = ro_venue_health sample_observation"
  by code_simp+

lemma sample_portfolio_authority:
  "portfolio_authority_valid sample_intent (Some sample_spec) sample_observation sample_policy sample_time True"
proof -
  have "portfolio_timestamps (ro_portfolio sample_observation) = [sample_time, sample_time, sample_time, sample_time]"
    by (simp add: portfolio_timestamps_def sample_observation_def sample_portfolio_def)
  moreover have "order_positions sample_intent sample_observation = as_positions sample_portfolio" by code_simp
  ultimately show ?thesis using sample_authorities(4)
    by (simp add: portfolio_authority_valid_def sample_age sample_intent_def sample_policy_def sample_observation_def sample_portfolio_def sample_spec_def)
qed

lemma sample_venue: "venue_is_healthy sample_intent (Some sample_spec) sample_observation sample_policy sample_time"
  unfolding venue_is_healthy_def Let_def option.case sample_authorities(6)
  by (simp add: sample_observation_def sample_age sample_policy_def)

definition sample_projection :: runtime_risk_projection where
  "sample_projection =
     \<lparr>pj_risk_price = usd_price 9, pj_order_notional = usd 9, pj_position_quantity = \<lparr>q_value = dec_int 1, q_precision = 0\<rparr>, pj_pending = usd 9,
      pj_gross = usd 9, pj_net = usd 9, pj_strategy_gross = usd 9, pj_venue_gross = usd 9, pj_instrument_gross = usd 9,
      pj_margin_used = usd 0, pj_available_funds = usd 100\<rparr>"

lemma sample_projected:
  "project_runtime_order sample_codec sample_intent sample_observation sample_policy sample_time = Inr sample_projection"
  unfolding project_runtime_order_def Let_def sample_representable(1,3,4) [THEN check_model_ok] bindE_simps
  by code_simp

definition sample_findings :: risk_findings where
  "sample_findings =
     \<lparr>fd_spec = Some sample_spec, fd_market_fresh = True, fd_valuation_valid = True, fd_portfolio_valid = True, fd_venue_healthy = True,
      fd_balance_valid = True, fd_projection = Some sample_projection, fd_projection_failed = False\<rparr>"

lemma sample_found: "find_risk sample_codec sample_intent sample_observation sample_policy sample_time = Inr sample_findings"
proof -
  have m: "age_is_valid (rm_observed_at (hd (ro_market_snapshots sample_observation))) sample_time (rp_market_data_max_age_seconds sample_policy)"
    "dt_le (rm_observed_at (hd (ro_market_snapshots sample_observation))) (ro_observed_at sample_observation)"
    by (simp_all add: sample_observation_def sample_policy_def sample_age)
  have h: "ro_venue_health sample_observation \<noteq> []" by (simp add: sample_observation_def)
  show ?thesis
    using sample_authorities sample_portfolio_authority sample_venue m h
    unfolding find_risk_def Let_def sample_authorities(1,2) by (simp add: try_projection_def sample_projected sample_findings_def)
qed

lemma sample_clear:
  "list_all (\<lambda>c. \<not> snd c) (risk_checks sample_intent sample_policy_decision sample_observation sample_policy sample_time sample_findings)"
proof -
  have c: "command_rate_valid sample_observation sample_policy sample_time"
    by (simp add: command_rate_valid_def sample_observation_def sample_policy_def sample_age)
  have "policy_approved sample_intent sample_policy_decision" "price_precision_valid sample_intent (Some sample_spec)"
    "quantity_precision_valid sample_intent (Some sample_spec)" "quantity_bounds_valid sample_intent (Some sample_spec)"
    "notional_bounds_valid (as_reporting_currency (ro_portfolio sample_observation)) (Some sample_spec) (Some sample_projection)"
    "\<not> balance_margin_failed (as_reporting_currency (ro_portfolio sample_observation)) sample_policy True (Some sample_projection)"
    "\<not> exceeds (Some sample_projection) pj_pending (rp_max_pending_exposure sample_policy)"
    "\<not> exceeds (Some sample_projection) pj_gross (rp_max_gross_exposure sample_policy)"
    "\<not> exceeds (Some sample_projection) pj_strategy_gross (rp_max_strategy_exposure sample_policy)"
    "\<not> exceeds (Some sample_projection) pj_venue_gross (rp_max_venue_exposure sample_policy)"
    "reduce_only_is_valid sample_intent sample_observation True" "\<not> duplicate_command sample_intent sample_observation"
    by code_simp+
  with c show ?thesis
    by (simp add: risk_checks_def sample_findings_def sample_observation_def sample_policy_def sample_projection_def usd_def)
qed

lemma sample_hex: "\<forall>x. sha256_hex (rx_sha256 sample_codec x)"
proof -
  have "sha256_hex (replicate 64 (CHR ''0''))" by code_simp
  then show ?thesis by (simp add: sample_codec_def)
qed

lemma sample_times:
  "dt_utcoffset sample_time = Some 0" "dt_le (rd_decided_at sample_policy_decision) (oi_requested_at sample_intent)"
  "dt_le (oi_requested_at sample_intent) sample_time" "dt_le (ro_observed_at sample_observation) sample_time"
  by (simp_all add: sample_time_def sample_policy_decision_def sample_intent_def sample_observation_def)

lemma sample_approved:
  obtains d where "evaluate_runtime_order_risk sample_codec 10 sample_intent sample_policy_decision sample_observation sample_policy sample_time = Inr d"
    "od_outcome d = RT_APPROVED"
  using evaluation_reaches_decision [OF sample_hex sample_representable sample_times sample_found, of 10] sample_clear by auto

section \<open>Witnesses\<close>

theorem evaluation_decides_witness:
  "\<exists>d. evaluate_runtime_order_risk sample_codec 10 sample_intent sample_policy_decision sample_observation sample_policy sample_time = Inr d
     \<and> od_outcome d = RT_APPROVED \<and> od_reason_codes d = [WITHIN_LIMITS]"
  using evaluation_decides [OF sample_hex sample_representable sample_times, of 10] sample_found sample_clear
  by (auto simp: sample_projected)

theorem approved_order_within_limits_witness:
  "\<exists>d spec balance rate price.
     evaluate_runtime_order_risk sample_codec 10 sample_intent sample_policy_decision sample_observation sample_policy sample_time = Inr d
     \<and> od_outcome d = RT_APPROVED \<and> od_risk_price d = Some price
     \<and> order_within_limits sample_intent sample_observation sample_policy sample_time spec balance rate price"
proof -
  obtain d where d: "evaluate_runtime_order_risk sample_codec 10 sample_intent sample_policy_decision sample_observation sample_policy sample_time = Inr d"
    "od_outcome d = RT_APPROVED" by (rule sample_approved)
  from approved_order_within_limits [OF this] d show ?thesis by blast
qed

theorem approved_order_authorized_witness:
  "\<exists>d. evaluate_runtime_order_risk sample_codec 10 sample_intent sample_policy_decision sample_observation sample_policy sample_time = Inr d
     \<and> od_outcome d = RT_APPROVED \<and> rd_outcome sample_policy_decision \<noteq> RISK_REJECTED
     \<and> ro_commands_in_window sample_observation < rp_max_commands_per_window sample_policy"
proof -
  obtain d where d: "evaluate_runtime_order_risk sample_codec 10 sample_intent sample_policy_decision sample_observation sample_policy sample_time = Inr d"
    "od_outcome d = RT_APPROVED" by (rule sample_approved)
  from approved_order_authorized [OF this] d show ?thesis by blast
qed

theorem approved_reduce_only_shrinks_witness:
  "\<exists>d held q. evaluate_runtime_order_risk sample_codec 10 sample_intent sample_policy_decision sample_observation sample_policy sample_time = Inr d
     \<and> order_positions sample_intent sample_observation = [held] \<and> od_projected_position_quantity d = Some q
     \<and> \<bar>fraction (q_value q)\<bar> < \<bar>fraction (q_value (ap_quantity held))\<bar>"
proof -
  obtain d where d: "evaluate_runtime_order_risk sample_codec 10 sample_intent sample_policy_decision sample_observation sample_policy sample_time = Inr d"
    "od_outcome d = RT_APPROVED" by (rule sample_approved)
  have "oi_reduce_only sample_intent" by (simp add: sample_intent_def)
  from approved_reduce_only_shrinks [OF d this] d show ?thesis by blast
qed

theorem projected_exposure_coherent_witness:
  "project_runtime_order sample_codec sample_intent sample_observation sample_policy sample_time = Inr sample_projection
     \<and> \<bar>fraction (m_amount (pj_net sample_projection))\<bar> \<le> fraction (m_amount (pj_gross sample_projection))"
  using projected_exposure_coherent [OF sample_observed sample_projected] sample_projected by blast

lemma sample_verified: "bindE (position_contributions sample_observation sample_policy sample_time) (verify_partitions sample_observation) = Inr ()"
  by code_simp

theorem partition_checks_agree_witness:
  "bindE (position_contributions sample_observation sample_policy sample_time) (verify_partitions sample_observation) = Inr ()
     \<and> partitions_are_consistent sample_observation sample_policy sample_time"
  using partition_checks_agree [OF sample_observed, of sample_policy sample_time] sample_verified by simp

text \<open>The same order with a limit in another currency: the projection refuses it.\<close>

definition foreign_intent :: order_intent where
  "foreign_intent = sample_intent\<lparr>oi_order_type := LIMIT, oi_limit_price := Some \<lparr>p_amount = dec_int 9, p_currency = BTC\<rparr>\<rparr>"

lemma foreign_intent_parts:
  "mk_order_intent foreign_intent = Inr foreign_intent" "instrument_authority foreign_intent sample_observation = Some sample_spec"
  "market_authority foreign_intent (Some sample_spec) sample_observation = Some (hd (ro_market_snapshots sample_observation))"
  by code_simp+

lemma foreign_representable: "representable mk_order_intent (rx_intent sample_codec) foreign_intent"
  using foreign_intent_parts(1) by (simp add: representable_def sample_codec_def)

lemma foreign_fields:
  "oi_account_id foreign_intent = oi_account_id sample_intent" "oi_strategy_id foreign_intent = oi_strategy_id sample_intent"
  "oi_instrument foreign_intent = oi_instrument sample_intent"
  by (simp_all add: foreign_intent_def)

lemma foreign_portfolio: "portfolio_authority_valid foreign_intent (Some sample_spec) sample_observation sample_policy sample_time True"
  using sample_portfolio_authority unfolding portfolio_authority_valid_def order_positions_def foreign_fields .

lemma foreign_refused:
  "project_runtime_order sample_codec foreign_intent sample_observation sample_policy sample_time
     = Inl (ProjectionError ''order and market prices must use settlement currency'')"
  unfolding project_runtime_order_def Let_def foreign_representable [THEN check_model_ok]
    sample_representable(3,4) [THEN check_model_ok] bindE_simps
  by code_simp

theorem projection_failures_witness:
  "\<exists>e. project_runtime_order sample_codec foreign_intent sample_observation sample_policy sample_time = Inl e
     \<and> (e = InvalidOperation \<or> e = DIGIT_LIMIT \<or> e = ProjectionError ''order and market prices must use settlement currency''
        \<or> e = ProjectionError ''projected position quantity is not exact''
        \<or> (\<exists>f. e = ProjectionError (f @ '' is not exact at reporting currency precision'')))"
proof -
  have "filter (\<lambda>x. vh_venue_id x = rs_venue_id sample_spec) (ro_venue_health sample_observation) \<noteq> []"
    unfolding sample_authorities(6) by (simp add: sample_observation_def)
  from projection_failures [OF foreign_representable sample_representable(3,4) sample_times(1) foreign_intent_parts(2,3)
      sample_authorities(3) foreign_portfolio sample_authorities(5) this foreign_refused] foreign_refused
  show ?thesis by blast
qed

end
