(* ===== verification/Spec2Isabelle.thy ===== *)
theory Spec2Isabelle
  imports Portfolio_Economics Repository_Theorems Portfolio_Resume Job_Transitions Paper_Stream_Theorems Operator_Policy Risk_Theorems
begin

text \<open>
  \<^bold>\<open>The program.\<close> The repository is a trading platform written in Python. Its core is event sourced:
  immutable domain contracts (\<^verbatim>\<open>src/packages/domain\<close>) describe money, instruments, orders, fills and
  portfolio entries; an append-only ledger (\<^verbatim>\<open>src/packages/event_ledger\<close>) stores envelopes with these
  payloads, hands out an outbox and replays the stored history; a portfolio reducer
  (\<^verbatim>\<open>src/packages/portfolio_reducer\<close>) folds the accounting events of one account into balances and
  positions and issues snapshots that a later replay may resume from. Before an order leaves, the
  runtime-risk evaluation (\<^verbatim>\<open>src/packages/runtime_risk\<close>) projects it on the observed portfolio and decides. The
  operator policy (\<^verbatim>\<open>src/packages/operator_control\<close>) guards the kill switch, the job table
  (\<^verbatim>\<open>src/packages/job_contracts\<close>) the life of a durable job, and the stream validation
  (\<^verbatim>\<open>src/packages/nautilus_runtime_contracts\<close>) the events of a paper run. Around this core stand services, a
  command line, HTTP front ends, research code and build scripts.

  The parts interact by calls only. An entry or a fill is validated by its contract class, wrapped in
  an envelope, serialised to canonical JSON by the ledger codec and stored under its identity and
  digest; the portfolio replay reads envelopes through the same codec, hands them to
  \<^verbatim>\<open>apply_portfolio_event\<close> one by one, and revalidates every state it receives or returns.

  \<^bold>\<open>How the model is written.\<close> A dataclass or pydantic model is a \<open>record\<close>; its validation is a function
  \<open>mk_...\<close> that returns the object or the exception, in the order in which the class checks (field
  constraints, nested models, model validator). An exception is a value of the type \<open>error\<close>, a function
  that may raise returns \<open>error + 'a\<close> (the type \<open>'a res\<close>), sequencing is \<open>bindE\<close>, and a loop with early exit is
  \<open>foldE\<close> or \<open>mapE\<close>. State is passed explicitly. Python integers are \<open>int\<close>, \<open>Decimal\<close> is a sign, a coefficient
  and an exponent, \<open>Fraction\<close> is \<open>rat\<close>, a dict whose order can be observed is an association list. Every
  definition that stands for code is executable.

  \<^bold>\<open>Theories and what they model.\<close>
  \<^item> \<^verbatim>\<open>Prelude\<close>: errors, results, the combinators, UUIDs and times, and the two interfaces below.
  \<^item> \<^verbatim>\<open>Decimals\<close>, \<^verbatim>\<open>Primitives\<close>, \<^verbatim>\<open>Decimal_Text\<close>: the arithmetic of \<^verbatim>\<open>decimal\<close> and \<^verbatim>\<open>fractions\<close> that the code uses, then
    \<^verbatim>\<open>domain/primitives.py\<close>: currencies, money, prices, quantities, exact conversion, the canonical text.
  \<^item> \<^verbatim>\<open>Instruments\<close>: \<^verbatim>\<open>domain/instruments.py\<close>, instrument identities, definitions and order constraints.
  \<^item> \<^verbatim>\<open>Orders\<close>, \<^verbatim>\<open>Fills\<close>: \<^verbatim>\<open>domain/orders.py\<close>, order intents, the order state machine and its reducer, fill
    reports and their batches.
  \<^item> \<^verbatim>\<open>Portfolio\<close>, \<^verbatim>\<open>Portfolio_Entries\<close>: \<^verbatim>\<open>domain/portfolio.py\<close>, \<^verbatim>\<open>portfolio_events.py\<close> and \<^verbatim>\<open>events.py\<close>, the snapshot
    models, the eight portfolio payloads and the envelope with its batch checks.
  \<^item> \<^verbatim>\<open>Exact_Accounting\<close>, \<^verbatim>\<open>Portfolio_State\<close>, \<^verbatim>\<open>Portfolio_Reducer\<close>, \<^verbatim>\<open>Portfolio_Apply\<close>: \<^verbatim>\<open>portfolio_reducer/models.py\<close> and
    \<^verbatim>\<open>reducer.py\<close>: the rational accounting of a fill, the replay state and its validator, fills, corrections
    and busts with rebasing, the other handlers, the dispatcher and the derived account snapshot.
  \<^item> \<^verbatim>\<open>Json\<close>, \<^verbatim>\<open>Json_Decode\<close>: \<^verbatim>\<open>json.dumps\<close> and \<^verbatim>\<open>json.loads\<close> in the configuration the ledger uses.
  \<^item> \<^verbatim>\<open>Event_Ledger\<close>, \<^verbatim>\<open>Ledger_Repository\<close>: \<^verbatim>\<open>event_ledger/models.py\<close>, \<^verbatim>\<open>replay.py\<close>, \<^verbatim>\<open>reducer.py\<close> and \<^verbatim>\<open>repository.py\<close>: stored
    events, the codec, the reduction under both policies, snapshots, and the in-memory ledger with append,
    outbox, inbox and snapshot operations as steps on its state.
  \<^item> \<^verbatim>\<open>Portfolio_Replay\<close>: \<^verbatim>\<open>portfolio_reducer/replay.py\<close>: canonical events, the history hash chain, the lineage
    checks of a state, full and tail replay, snapshot records and authorities.
  \<^item> \<^verbatim>\<open>Time_Arithmetic\<close>, \<^verbatim>\<open>Risk_Decisions\<close>, \<^verbatim>\<open>Runtime_Risk\<close>, \<^verbatim>\<open>Risk_Projection\<close>, \<^verbatim>\<open>Risk_Evaluator\<close>: differences of UTC times,
    \<^verbatim>\<open>domain/risk.py\<close> and \<^verbatim>\<open>domain/runtime_risk.py\<close>, and \<^verbatim>\<open>runtime_risk/canonical.py\<close>, \<^verbatim>\<open>projections.py\<close> and \<^verbatim>\<open>evaluator.py\<close>: the
    policy decision, the observation, policy and decision models, the projection of an order and the
    evaluation with its checks in their fixed order.
  \<^item> \<^verbatim>\<open>Operator_Policy\<close>: \<^verbatim>\<open>operator_control/contracts.py\<close>, \<^verbatim>\<open>hashing.py\<close> and \<^verbatim>\<open>policy.py\<close>, the decision on an operator command.
  \<^item> \<^verbatim>\<open>Job_Transitions\<close>: \<^verbatim>\<open>job_contracts/enums.py\<close> and \<^verbatim>\<open>transitions.py\<close>, the states of a job and its transition tables.
  \<^item> \<^verbatim>\<open>Engine_Json\<close>, \<^verbatim>\<open>Paper_Stream\<close>: \<^verbatim>\<open>engine_contracts/serialization.py\<close> and \<^verbatim>\<open>nautilus_runtime_contracts/events.py\<close>,
    \<^verbatim>\<open>semantic.py\<close> and \<^verbatim>\<open>state_machine.py\<close>: the events of a paper run and the validation of a complete stream.

  The remaining theories hold proofs: \<^verbatim>\<open>Portfolio_Sample\<close> a sample stream with the states it reaches,
  \<^verbatim>\<open>Portfolio_Ledger\<close> and \<^verbatim>\<open>Portfolio_Economics\<close> the reducer's bookkeeping and money, \<^verbatim>\<open>Ledger_Reduction\<close>,
  \<^verbatim>\<open>Ledger_Replay\<close>, \<^verbatim>\<open>Ledger_Snapshots\<close>, \<^verbatim>\<open>Stored_Ledger\<close>, \<^verbatim>\<open>Ledger_Theorems\<close> and \<^verbatim>\<open>Repository_Theorems\<close> the ledger,
  \<^verbatim>\<open>Portfolio_Resume\<close> the portfolio replay, \<^verbatim>\<open>Risk_Exposure\<close>, \<^verbatim>\<open>Risk_Analysis\<close> and \<^verbatim>\<open>Risk_Theorems\<close> the risk evaluation,
  \<^verbatim>\<open>Paper_Stream_Theorems\<close> the paper stream.

  \<^bold>\<open>Interfaces.\<close> The locale \<^verbatim>\<open>replay_safe\<close> states what at-least-once delivery needs of a reducer: an
  invariant that steps keep, and a record of what was seen that steps never lose and that makes a second
  delivery change nothing. It is interpreted on the order reducer (through its extension
  \<^verbatim>\<open>terminal_reducer\<close>, which adds states that no step leaves), on \<^verbatim>\<open>apply_portfolio_event\<close> and on the
  operations of the ledger; the properties on redelivery are its lemmas at these instances.

  \<^bold>\<open>What is shown.\<close>
  \<^item> Money: the canonical text identifies a decimal and reads back to it; a conversion is exact or refused;
    order validation decides the tick, size and notional rules exactly; rounding is half to even.
  \<^item> Orders and fills: an order state is accepted by the validator exactly when the reducer can reach it;
    transitions follow the table; terminal orders stay; fingerprints identify observations; the
    validation of fill batches does not depend on their order.
  \<^item> Portfolio: a reachable state satisfies its validator and indexes exactly the applied events; business
    identities are used once; fills, fundings and conversions move balances and positions by exactly what
    they owe; the realised result of a lineage of fills is its exact rational value rounded once, so that
    rounding errors do not add up.
  \<^item> Ledger: a replay accepts exactly the complete histories and returns a reference projection of them,
    whatever the order and the repetition of the deliveries; a replay may be split at any snapshot;
    results are valid snapshots and equal hashes mean equal snapshots; every reachable ledger is
    gap-free; what a run stored loads in canonical order and replays to the projection of the stored
    records, given that the codec reads back what it wrote; repeated requests change nothing and report nothing new; the outbox can
    always be drained; the bytes hashed for a request identify it; the JSON text round-trips.
  \<^item> Portfolio replay: an accepted history is gap-free, of one stream and account, and opened once; the
    result of a prefix is a valid snapshot whose authority is accepted, and the tail replayed from it
    gives the result of the whole history.
  \<^item> Runtime risk: valid inputs get a decision whose reasons are exactly the failing checks, or the one
    error of the interpreter that the projection raises; an approved order was authorised and, carried out
    in full, keeps every limit on amounts recomputed from the positions; an approved reduce-only order
    shrinks its position; the two exposure checks of the code agree; a projection fails only for want of an
    exact representation.
  \<^item> Operators, jobs and paper runs: exactly when the kill switch may be cleared, and that accepted plans
    never widen the mode; a job makes a bounded number of moves per retry; the one-pass scan of a stream
    accepts exactly the complete streams, in which each order's own fills add up to its quantity.

  \<^bold>\<open>Parameters.\<close> Code outside the repository is an argument: SHA-256, UUID version 5, pydantic's dump of an
  envelope, a payload, a state or a snapshot to JSON, its loading of an envelope and the plain JSON decoder
  of the codec (records \<^verbatim>\<open>codec\<close>, \<^verbatim>\<open>ledger_codec\<close>, \<^verbatim>\<open>portfolio_codec\<close>, \<^verbatim>\<open>risk_codec\<close> and \<^verbatim>\<open>p1_codec\<close>). Theorems that identify
  a text by its digest name the absence of a collision on the texts at hand as a hypothesis; the theorem on
  stored ledgers names the round trip of the codec at each appended event (\<^verbatim>\<open>decodes_event\<close>).

  \<^bold>\<open>Bounds and fuel.\<close> All loops of the model are structural or have a termination proof but the JSON
  scanner, which descends on fuel; twice the length of the text and one is enough for every text, which
  is proved, and \<^verbatim>\<open>json_loads\<close> uses it. Sequence numbers of stored events are bounded by the range of a
  signed 64-bit column. The interpreter refuses to convert integers of more than 4300 digits from or to text;
  this limit is modelled where JSON is read, in the projections and model digests of the risk evaluation
  (the error \<^verbatim>\<open>DIGIT_LIMIT\<close>), and left out in the fingerprint of an order event and in the portfolio reducer, whose
  properties speak about accepted inputs.

  \<^bold>\<open>Not modelled.\<close> Characters are 8-bit, so that code points above \<^verbatim>\<open>U+00FF\<close> and surrogates do not occur and
  escapes for them are refused. Python objects of a wrong class passed to a constructor appear only where
  the code tests for them. A recursion error on deeply nested JSON, \<open>model_copy\<close> and the text of
  validation messages that pydantic composes are left out. Currencies are told apart by their registered
  identity where the code keys dicts by them. Values nested in a model are those their own constructors
  accepted; pydantic runs these once more on every model it validates, which is left out, and so is the test
  that a time zone is the canonical UTC object where the text does not say otherwise: in both cases the model
  accepts at least what the code accepts. Of the repository, the PostgreSQL adapter of the ledger is SQL
  whose functions live in migrations; the payloads of signals, market data, alpha lifecycle and recovery
  are field lists the ledger treats as opaque; the clients of the ledger that record durable approvals,
  global halts and submit permits (\<^verbatim>\<open>runtime_risk/approval.py\<close>, \<^verbatim>\<open>halt.py\<close>, \<^verbatim>\<open>safety.py\<close>, \<^verbatim>\<open>submit_authority.py\<close>), the execution
  sandbox built on them and the projection of engine events are not modelled; services, front ends,
  scripts, research code on floating-point arrays and the boundary to the Nautilus engine are input and
  output or wrap code that is not in the repository.
\<close>

end
